(* ===== verification/Prelude.thy ===== *)
theory Prelude
  imports Main "HOL-Library.Word" "HOL-Library.Monad_Syntax"
begin

text \<open>
  Shared vocabulary of the development: the machine types of the SDK, its return codes
  (\<^verbatim>\<open>include/exports/qcloud_iot_export_error.h\<close>), byte buffers with checked accesses, and the
  generic lemmas that every component uses.

  A partial operation returns an \<open>option\<close>: \<open>None\<close> means that the C code has no defined result
  there, because it leaves a buffer, calls a null function pointer or does not return. A theorem
  that a function yields \<open>Some\<close> therefore states memory safety and termination at once.
\<close>

unbundle bit_operations_syntax

section \<open>Machine types\<close>

type_synonym u8 = "8 word"
type_synonym u16 = "16 word"
type_synonym u32 = "32 word"
type_synonym u64 = "64 word"

text \<open>A C string is the list of its bytes without the terminating zero.\<close>

type_synonym cstring = "u8 list"

definition cstr :: "string \<Rightarrow> cstring" where
  "cstr s = map of_char s"

text \<open>
  Reading a C string out of a character array: the bytes before the first zero. An array without
  a zero makes \<^verbatim>\<open>strlen\<close> run past its end.
\<close>

definition c_string :: "u8 list \<Rightarrow> cstring option" where
  "c_string a = (if 0 \<in> set a then Some (takeWhile (\<lambda>b. b \<noteq> 0) a) else None)"

section \<open>Return codes\<close>

abbreviation (input) QCLOUD_RET_MQTT_ALREADY_CONNECTED :: int where "QCLOUD_RET_MQTT_ALREADY_CONNECTED \<equiv> 4"
abbreviation (input) QCLOUD_RET_MQTT_CONNACK_CONNECTION_ACCEPTED :: int where "QCLOUD_RET_MQTT_CONNACK_CONNECTION_ACCEPTED \<equiv> 3"
abbreviation (input) QCLOUD_RET_MQTT_MANUALLY_DISCONNECTED :: int where "QCLOUD_RET_MQTT_MANUALLY_DISCONNECTED \<equiv> 2"
abbreviation (input) QCLOUD_RET_MQTT_RECONNECTED :: int where "QCLOUD_RET_MQTT_RECONNECTED \<equiv> 1"
abbreviation (input) QCLOUD_RET_SUCCESS :: int where "QCLOUD_RET_SUCCESS \<equiv> 0"
abbreviation (input) QCLOUD_ERR_FAILURE :: int where "QCLOUD_ERR_FAILURE \<equiv> -1001"
abbreviation (input) QCLOUD_ERR_INVAL :: int where "QCLOUD_ERR_INVAL \<equiv> -1002"
abbreviation (input) QCLOUD_ERR_MALLOC :: int where "QCLOUD_ERR_MALLOC \<equiv> -1004"
abbreviation (input) QCLOUD_ERR_MQTT_PUSH_TO_LIST_FAILED :: int where "QCLOUD_ERR_MQTT_PUSH_TO_LIST_FAILED \<equiv> -102"
abbreviation (input) QCLOUD_ERR_MQTT_NO_CONN :: int where "QCLOUD_ERR_MQTT_NO_CONN \<equiv> -103"
abbreviation (input) QCLOUD_ERR_MQTT_UNKNOWN :: int where "QCLOUD_ERR_MQTT_UNKNOWN \<equiv> -104"
abbreviation (input) QCLOUD_ERR_MQTT_ATTEMPTING_RECONNECT :: int where "QCLOUD_ERR_MQTT_ATTEMPTING_RECONNECT \<equiv> -105"
abbreviation (input) QCLOUD_ERR_MQTT_RECONNECT_TIMEOUT :: int where "QCLOUD_ERR_MQTT_RECONNECT_TIMEOUT \<equiv> -106"
abbreviation (input) QCLOUD_ERR_MQTT_MAX_SUBSCRIPTIONS :: int where "QCLOUD_ERR_MQTT_MAX_SUBSCRIPTIONS \<equiv> -107"
abbreviation (input) QCLOUD_ERR_MQTT_SUB :: int where "QCLOUD_ERR_MQTT_SUB \<equiv> -108"
abbreviation (input) QCLOUD_ERR_MQTT_NOTHING_TO_READ :: int where "QCLOUD_ERR_MQTT_NOTHING_TO_READ \<equiv> -109"
abbreviation (input) QCLOUD_ERR_MQTT_PACKET_READ :: int where "QCLOUD_ERR_MQTT_PACKET_READ \<equiv> -110"
abbreviation (input) QCLOUD_ERR_MQTT_REQUEST_TIMEOUT :: int where "QCLOUD_ERR_MQTT_REQUEST_TIMEOUT \<equiv> -111"
abbreviation (input) QCLOUD_ERR_MQTT_CONNACK_UNKNOWN :: int where "QCLOUD_ERR_MQTT_CONNACK_UNKNOWN \<equiv> -112"
abbreviation (input) QCLOUD_ERR_MQTT_CONNACK_UNACCEPTABLE_PROTOCOL_VERSION :: int where "QCLOUD_ERR_MQTT_CONNACK_UNACCEPTABLE_PROTOCOL_VERSION \<equiv> -113"
abbreviation (input) QCLOUD_ERR_MQTT_CONNACK_IDENTIFIER_REJECTED :: int where "QCLOUD_ERR_MQTT_CONNACK_IDENTIFIER_REJECTED \<equiv> -114"
abbreviation (input) QCLOUD_ERR_MQTT_CONNACK_SERVER_UNAVAILABLE :: int where "QCLOUD_ERR_MQTT_CONNACK_SERVER_UNAVAILABLE \<equiv> -115"
abbreviation (input) QCLOUD_ERR_MQTT_CONNACK_BAD_USERDATA :: int where "QCLOUD_ERR_MQTT_CONNACK_BAD_USERDATA \<equiv> -116"
abbreviation (input) QCLOUD_ERR_MQTT_CONNACK_NOT_AUTHORIZED :: int where "QCLOUD_ERR_MQTT_CONNACK_NOT_AUTHORIZED \<equiv> -117"
abbreviation (input) QCLOUD_ERR_RX_MESSAGE_INVAL :: int where "QCLOUD_ERR_RX_MESSAGE_INVAL \<equiv> -118"
abbreviation (input) QCLOUD_ERR_BUF_TOO_SHORT :: int where "QCLOUD_ERR_BUF_TOO_SHORT \<equiv> -119"
abbreviation (input) QCLOUD_ERR_MQTT_QOS_NOT_SUPPORT :: int where "QCLOUD_ERR_MQTT_QOS_NOT_SUPPORT \<equiv> -120"
abbreviation (input) QCLOUD_ERR_MQTT_UNSUB_FAIL :: int where "QCLOUD_ERR_MQTT_UNSUB_FAIL \<equiv> -121"
abbreviation (input) QCLOUD_ERR_MQTT_RECONNECTING :: int where "QCLOUD_ERR_MQTT_RECONNECTING \<equiv> -122"
abbreviation (input) QCLOUD_ERR_MAX_TOPIC_LENGTH :: int where "QCLOUD_ERR_MAX_TOPIC_LENGTH \<equiv> -138"
abbreviation (input) QCLOUD_ERR_TCP_READ_TIMEOUT :: int where "QCLOUD_ERR_TCP_READ_TIMEOUT \<equiv> -604"
abbreviation (input) QCLOUD_ERR_TCP_WRITE_TIMEOUT :: int where "QCLOUD_ERR_TCP_WRITE_TIMEOUT \<equiv> -605"
abbreviation (input) QCLOUD_ERR_TCP_READ_FAIL :: int where "QCLOUD_ERR_TCP_READ_FAIL \<equiv> -606"
abbreviation (input) QCLOUD_ERR_TCP_WRITE_FAIL :: int where "QCLOUD_ERR_TCP_WRITE_FAIL \<equiv> -607"
abbreviation (input) QCLOUD_ERR_TCP_PEER_SHUTDOWN :: int where "QCLOUD_ERR_TCP_PEER_SHUTDOWN \<equiv> -608"
abbreviation (input) QCLOUD_ERR_TCP_NOTHING_TO_READ :: int where "QCLOUD_ERR_TCP_NOTHING_TO_READ \<equiv> -609"
abbreviation (input) QCLOUD_ERR_SSL_READ_TIMEOUT :: int where "QCLOUD_ERR_SSL_READ_TIMEOUT \<equiv> -707"
abbreviation (input) QCLOUD_ERR_SSL_READ :: int where "QCLOUD_ERR_SSL_READ \<equiv> -708"
abbreviation (input) QCLOUD_ERR_SSL_NOTHING_TO_READ :: int where "QCLOUD_ERR_SSL_NOTHING_TO_READ \<equiv> -709"

section \<open>Collections of rewrite rules\<close>

named_theorems buffer_simps \<open>algebra of checked buffer accesses\<close>

section \<open>Checked buffers\<close>

text \<open>One byte read, one byte written, and a block copied by \<^verbatim>\<open>memcpy\<close>.\<close>

definition buf_get :: "'a list \<Rightarrow> nat \<Rightarrow> 'a option" where
  "buf_get b i = (if i < length b then Some (b ! i) else None)"

definition buf_put :: "'a list \<Rightarrow> nat \<Rightarrow> 'a \<Rightarrow> 'a list option" where
  "buf_put b i v = (if i < length b then Some (b[i := v]) else None)"

definition buf_read :: "'a list \<Rightarrow> nat \<Rightarrow> nat \<Rightarrow> 'a list option" where
  "buf_read b i n = (if i + n \<le> length b then Some (take n (drop i b)) else None)"

definition buf_write :: "'a list \<Rightarrow> nat \<Rightarrow> 'a list \<Rightarrow> 'a list option" where
  "buf_write b i xs =
     (if i + length xs \<le> length b then Some (take i b @ xs @ drop (i + length xs) b) else None)"

lemma buf_get_nth [buffer_simps]: "i < length b \<Longrightarrow> buf_get b i = Some (b ! i)"
  by (simp add: buf_get_def)

lemma buf_get_append_left [buffer_simps]: "i < length xs \<Longrightarrow> buf_get (xs @ ys) i = Some (xs ! i)"
  by (simp add: buf_get_def nth_append)

lemma buf_get_append_right [buffer_simps]:
  "length xs \<le> i \<Longrightarrow> buf_get (xs @ ys) i = buf_get ys (i - length xs)"
  by (auto simp: buf_get_def nth_append)

lemma buf_get_Cons_0 [buffer_simps]: "buf_get (x # xs) 0 = Some x"
  by (simp add: buf_get_def)

lemma buf_get_Cons_Suc [buffer_simps]: "buf_get (x # xs) (Suc i) = buf_get xs i"
  by (simp add: buf_get_def)

lemma buf_read_middle [buffer_simps]:
  "length xs = i \<Longrightarrow> length ys = n \<Longrightarrow> buf_read (xs @ ys @ zs) i n = Some ys"
  by (simp add: buf_read_def)

lemma buf_read_length: "buf_read b i n = Some xs \<Longrightarrow> length xs = n"
  by (auto simp: buf_read_def split: if_splits)

lemma buf_put_eq_write [buffer_simps]: "buf_put b i v = buf_write b i [v]"
  by (auto simp: buf_put_def buf_write_def upd_conv_take_nth_drop)

lemma buf_write_Nil [buffer_simps]: "i \<le> length b \<Longrightarrow> buf_write b i [] = Some b"
  by (simp add: buf_write_def)

lemma length_buf_write: "buf_write b i xs = Some b' \<Longrightarrow> length b' = length b"
  by (auto simp: buf_write_def split: if_splits)

lemma length_buf_put: "buf_put b i v = Some b' \<Longrightarrow> length b' = length b"
  by (auto simp: buf_put_def split: if_splits)

lemma buf_write_Some_iff: "(\<exists>b'. buf_write b i xs = Some b') \<longleftrightarrow> i + length xs \<le> length b"
  by (auto simp: buf_write_def)

text \<open>Two writes, one right after the other, are one write: the law behind every serializer.\<close>

lemma buf_write_append [buffer_simps]:
  "buf_write b i xs \<bind> (\<lambda>b'. buf_write b' (i + length xs) ys) = buf_write b i (xs @ ys)"
proof (cases "i + length xs + length ys \<le> length b")
  case True
  then have "take (i + length xs) (take i b @ xs @ drop (i + length xs) b) = take i b @ xs"
    by simp
  with True show ?thesis by (simp add: buf_write_def ac_simps)
next
  case False
  then show ?thesis by (auto simp: buf_write_def)
qed

lemma buf_write_append_at [buffer_simps]:
  "j = i + length xs \<Longrightarrow>
   buf_write b i xs \<bind> (\<lambda>b'. buf_write b' j ys \<bind> k) = buf_write b i (xs @ ys) \<bind> k"
  by (simp add: buf_write_append flip: Option.bind_assoc)

lemma buf_write_start: "buf_write b 0 xs = Some b' \<Longrightarrow> b' = xs @ drop (length xs) b"
  by (auto simp: buf_write_def split: if_splits)

section \<open>Generic facts\<close>

lemma bind_Some_iff: "(m \<bind> f = Some y) \<longleftrightarrow> (\<exists>x. m = Some x \<and> f x = Some y)"
  by (cases m) simp_all

lemma ex_bind_Some: "(\<exists>y. m \<bind> f = Some y) \<longleftrightarrow> (\<exists>x. m = Some x \<and> (\<exists>y. f x = Some y))"
  by (cases m) simp_all

lemma takeWhile_id_if: "(\<forall>x \<in> set xs. P x) \<Longrightarrow> takeWhile P (xs @ y # ys) = xs @ takeWhile P (y # ys)"
  by (induction xs) auto

lemma c_string_terminated: "0 \<notin> set xs \<Longrightarrow> c_string (xs @ 0 # ys) = Some xs"
proof -
  assume "0 \<notin> set xs"
  then have "takeWhile (\<lambda>b. b \<noteq> 0) (xs @ 0 # ys) = xs"
    by (subst takeWhile_id_if) auto
  then show ?thesis by (simp add: c_string_def)
qed

lemma word_div_less: "(x :: 'a :: len word) \<noteq> 0 \<Longrightarrow> 1 < unat k \<Longrightarrow> unat (x div k) < unat x"
  by (simp add: unat_div unat_gt_0)

section \<open>What a computation guarantees if it has a result\<close>

text \<open>
  The weakest precondition of an optional result, for reasoning about a computation step by step:
  \<open>wp m P\<close> says that \<open>P\<close> holds of the result, if there is one.
\<close>

definition wp :: "'a option \<Rightarrow> ('a \<Rightarrow> bool) \<Rightarrow> bool" where
  "wp m P \<longleftrightarrow> (\<forall>x. m = Some x \<longrightarrow> P x)"

lemma wp_Some [simp]: "wp (Some x) P \<longleftrightarrow> P x"
  by (simp add: wp_def)

lemma wp_None [simp]: "wp None P"
  by (simp add: wp_def)

lemma wp_bind [simp]: "wp (m \<bind> f) P \<longleftrightarrow> wp m (\<lambda>x. wp (f x) P)"
  by (auto simp: wp_def bind_Some_iff)

lemma wp_D: "wp m P \<Longrightarrow> m = Some x \<Longrightarrow> P x"
  by (simp add: wp_def)

lemma wp_mono: "wp m P \<Longrightarrow> (\<And>x. P x \<Longrightarrow> Q x) \<Longrightarrow> wp m Q"
  by (simp add: wp_def)

lemma wp_I: "(\<And>x. m = Some x \<Longrightarrow> P x) \<Longrightarrow> wp m P"
  by (simp add: wp_def)

lemma wp_if [simp]: "wp (if b then m else n) P \<longleftrightarrow> (if b then wp m P else wp n P)"
  by simp

lemma wp_case_prod [simp]: "wp (case p of (a, b) \<Rightarrow> f a b) P \<longleftrightarrow> (case p of (a, b) \<Rightarrow> wp (f a b) P)"
  by (simp add: case_prod_beta')

lemma wp_case_sum [simp]:
  "wp (case s of Inl a \<Rightarrow> f a | Inr b \<Rightarrow> g b) P \<longleftrightarrow> (case s of Inl a \<Rightarrow> wp (f a) P | Inr b \<Rightarrow> wp (g b) P)"
  by (simp split: sum.splits)

lemma wp_case_option [simp]:
  "wp (case s of None \<Rightarrow> m | Some b \<Rightarrow> g b) P \<longleftrightarrow> (case s of None \<Rightarrow> wp m P | Some b \<Rightarrow> wp (g b) P)"
  by (simp split: option.splits)

section \<open>Bytes\<close>

text \<open>Two bytes are equal if their eight bits are.\<close>

lemma u8_bit_eqI:
  "(\<And>n. n \<in> {0, 1, 2, 3, 4, 5, 6, 7} \<Longrightarrow> bit (x :: u8) n = bit y n) \<Longrightarrow> x = y"
proof (rule bit_word_eqI)
  fix n :: nat
  assume "\<And>n. n \<in> {0, 1, 2, 3, 4, 5, 6, 7} \<Longrightarrow> bit x n = bit y n" and "n < LENGTH(8)"
  moreover from this(2) have "n \<in> {0, 1, 2, 3, 4, 5, 6, 7}" by (simp, linarith)
  ultimately show "bit x n = bit y n" by blast
qed

section \<open>A service and its invariant\<close>

text \<open>
  A component that is started once and then serves calls. \<open>ok\<close> is what it relies on in its
  environment, \<open>start\<close> the states in which it begins, \<open>step\<close> the effect of one call. If starting
  establishes \<open>inv\<close> and every call keeps it, then it holds for good.
\<close>

locale service =
  fixes ok :: "'e \<Rightarrow> bool" and start :: "'e \<Rightarrow> 's \<Rightarrow> bool" and step :: "'e \<Rightarrow> 's \<Rightarrow> 's \<Rightarrow> bool" and inv :: "'e \<Rightarrow> 's \<Rightarrow> bool"
  assumes start_inv: "ok e \<Longrightarrow> start e s \<Longrightarrow> inv e s"
    and step_inv: "ok e \<Longrightarrow> inv e s \<Longrightarrow> step e s s' \<Longrightarrow> inv e s'"
begin

lemma run_inv: "(step e)\<^sup>*\<^sup>* s s' \<Longrightarrow> ok e \<Longrightarrow> inv e s \<Longrightarrow> inv e s'"
  by (induction rule: rtranclp_induct) (auto intro: step_inv)

lemma reachable_inv: "ok e \<Longrightarrow> start e s \<Longrightarrow> (step e)\<^sup>*\<^sup>* s s' \<Longrightarrow> inv e s'"
  using run_inv start_inv by blast

end

text \<open>Pushing several elements one after the other, and taking out several.\<close>

primrec push_all :: "('a \<Rightarrow> 's \<Rightarrow> 's option) \<Rightarrow> 'a list \<Rightarrow> 's \<Rightarrow> 's option" where
  "push_all push [] s = Some s"
| "push_all push (x # xs) s = push x s \<bind> push_all push xs"

primrec pop_all :: "('s \<Rightarrow> ('a \<times> 's) option) \<Rightarrow> nat \<Rightarrow> 's \<Rightarrow> ('a list \<times> 's) option" where
  "pop_all pop 0 s = Some ([], s)"
| "pop_all pop (Suc n) s = do { (x, s) \<leftarrow> pop s; (xs, s) \<leftarrow> pop_all pop n s; Some (x # xs, s) }"

text \<open>
  A queue: \<open>rep s xs\<close> says that the state \<open>s\<close> holds the elements \<open>xs\<close>, oldest first, and \<open>room s xs ys\<close>
  that the elements \<open>ys\<close> can be added.
\<close>

locale queue =
  fixes rep :: "'s \<Rightarrow> 'a list \<Rightarrow> bool" and room :: "'s \<Rightarrow> 'a list \<Rightarrow> 'a list \<Rightarrow> bool"
    and push :: "'a \<Rightarrow> 's \<Rightarrow> 's option" and pop :: "'s \<Rightarrow> ('a \<times> 's) option"
  assumes push_rep: "rep s xs \<Longrightarrow> room s xs (y # ys) \<Longrightarrow> \<exists>s'. push y s = Some s' \<and> rep s' (xs @ [y]) \<and> room s' (xs @ [y]) ys"
    and pop_rep: "rep s (x # xs) \<Longrightarrow> \<exists>s'. pop s = Some (x, s') \<and> rep s' xs"
begin

lemma push_all_rep: "rep s xs \<Longrightarrow> room s xs ys \<Longrightarrow> \<exists>s'. push_all push ys s = Some s' \<and> rep s' (xs @ ys)"
proof (induction ys arbitrary: s xs)
  case (Cons y ys)
  obtain s' where s': "push y s = Some s'" "rep s' (xs @ [y])" "room s' (xs @ [y]) ys"
    using push_rep [OF Cons.prems] by blast
  from Cons.IH [OF s'(2,3)] s'(1) show ?case by auto
qed simp

lemma pop_all_rep: "rep s (xs @ ys) \<Longrightarrow> \<exists>s'. pop_all pop (length xs) s = Some (xs, s') \<and> rep s' ys"
proof (induction xs arbitrary: s)
  case (Cons x xs)
  obtain s' where s': "pop s = Some (x, s')" "rep s' (xs @ ys)" using pop_rep [of s x "xs @ ys"] Cons.prems by auto
  from Cons.IH [OF s'(2)] s'(1) show ?case by auto
qed simp

lemma fifo:
  assumes "rep s []" and "room s [] ys" and "n \<le> length ys"
  shows "\<exists>s1 s2. push_all push ys s = Some s1 \<and> pop_all pop n s1 = Some (take n ys, s2) \<and> rep s2 (drop n ys)"
proof -
  obtain s1 where s1: "push_all push ys s = Some s1" "rep s1 ys" using push_all_rep [OF assms(1,2)] by auto
  have "rep s1 (take n ys @ drop n ys)" using s1(2) by simp
  from pop_all_rep [OF this] s1(1) assms(3) show ?thesis by auto
qed

end

end
