(* ===== verification/Hal_Linux.thy ===== *)
theory Hal_Linux
  imports Prelude
begin

text \<open>
  The Linux hardware abstraction layer under the SDK: the timers of
  \<^verbatim>\<open>platform/os/linux/HAL_Timer_linux.c\<close> with their wrappers in \<^verbatim>\<open>sdk_src/utils/utils_timer.c\<close>,
  the socket code of \<^verbatim>\<open>platform/os/linux/HAL_TCP_linux.c\<close>, and the network stack of
  \<^verbatim>\<open>sdk_src/network\<close> (\<^verbatim>\<open>network_socket.c\<close>, \<^verbatim>\<open>network_interface.c\<close>) in the configuration of
  \<^verbatim>\<open>include/config.h\<close> (\<^verbatim>\<open>AUTH_WITH_NOTLS\<close>, no AT modem, no CoAP).

  The operating system itself is not part of the repository. It is a parameter: a record \<open>'w os\<close> of
  the system calls the code makes, over an arbitrary type \<open>'w\<close> of states of the outside world.
\<close>

section \<open>The operating system as a parameter\<close>

record timeval =
  tv_sec :: int
  tv_usec :: int

text \<open>Results of \<^verbatim>\<open>select\<close>, \<^verbatim>\<open>send\<close> and \<^verbatim>\<open>recv\<close>, with the values of \<^verbatim>\<open>errno\<close> the code looks at.\<close>

datatype select_ret = SelReady | SelNotSet | SelTimeout | SelEintr | SelErr
datatype send_ret = SendOk nat | SendEintr | SendErr
datatype recv_ret = RecvData "u8 list" | RecvClosed | RecvEintr | RecvErr

record 'w os =
  os_gettimeofday :: "'w \<Rightarrow> timeval \<times> 'w"
  os_select_write :: "nat \<Rightarrow> timeval \<Rightarrow> 'w \<Rightarrow> select_ret \<times> 'w"
  os_select_read :: "nat \<Rightarrow> timeval \<Rightarrow> 'w \<Rightarrow> select_ret \<times> 'w"
  os_send :: "nat \<Rightarrow> u8 list \<Rightarrow> 'w \<Rightarrow> send_ret \<times> 'w"
  os_recv :: "nat \<Rightarrow> nat \<Rightarrow> 'w \<Rightarrow> recv_ret \<times> 'w"
  os_getaddrinfo :: "cstring \<Rightarrow> nat \<Rightarrow> 'w \<Rightarrow> nat list option \<times> 'w"
  os_socket :: "nat \<Rightarrow> 'w \<Rightarrow> int \<times> 'w"
  os_connect :: "int \<Rightarrow> nat \<Rightarrow> 'w \<Rightarrow> bool \<times> 'w"
  os_shutdown :: "int \<Rightarrow> 'w \<Rightarrow> int \<times> 'w"
  os_close :: "int \<Rightarrow> 'w \<Rightarrow> int \<times> 'w"
  os_malloc :: "'w \<Rightarrow> nat option \<times> 'w"
  os_srand :: "u32 \<Rightarrow> 'w \<Rightarrow> 'w"
  os_rand :: "'w \<Rightarrow> nat \<times> 'w"

text \<open>
  What the manual pages promise of \<^verbatim>\<open>send\<close> and \<^verbatim>\<open>recv\<close>: no call transfers more bytes than it was
  asked to, and \<^verbatim>\<open>recv\<close> reports an orderly shutdown by its own value.
\<close>

definition kernel_ok :: "'w os \<Rightarrow> bool" where
  "kernel_ok os \<longleftrightarrow>
     (\<forall>fd bs w n w'. os_send os fd bs w = (SendOk n, w') \<longrightarrow> n \<le> length bs) \<and>
     (\<forall>fd n w bs w'. os_recv os fd n w = (RecvData bs, w') \<longrightarrow> 0 < length bs \<and> length bs \<le> n)"

section \<open>Timers\<close>

record Timer =
  end_time :: timeval

text \<open>The macros \<^verbatim>\<open>timersub\<close> and \<^verbatim>\<open>timeradd\<close> of \<^verbatim>\<open>sys/time.h\<close>.\<close>

definition timersub :: "timeval \<Rightarrow> timeval \<Rightarrow> timeval" where
  "timersub a b =
     (let s = tv_sec a - tv_sec b; u = tv_usec a - tv_usec b
      in if u < 0 then \<lparr>tv_sec = s - 1, tv_usec = u + 1000000\<rparr> else \<lparr>tv_sec = s, tv_usec = u\<rparr>)"

definition timeradd :: "timeval \<Rightarrow> timeval \<Rightarrow> timeval" where
  "timeradd a b =
     (let s = tv_sec a + tv_sec b; u = tv_usec a + tv_usec b
      in if u \<ge> 1000000 then \<lparr>tv_sec = s + 1, tv_usec = u - 1000000\<rparr> else \<lparr>tv_sec = s, tv_usec = u\<rparr>)"

definition HAL_Timer_expired :: "'w os \<Rightarrow> Timer \<Rightarrow> 'w \<Rightarrow> bool \<times> 'w" where
  "HAL_Timer_expired os timer w =
     (let (now, w) = os_gettimeofday os w; res = timersub (end_time timer) now
      in (tv_sec res < 0 \<or> (tv_sec res = 0 \<and> tv_usec res \<le> 0), w))"

definition HAL_Timer_countdown_ms :: "'w os \<Rightarrow> Timer \<Rightarrow> nat \<Rightarrow> 'w \<Rightarrow> Timer \<times> 'w" where
  "HAL_Timer_countdown_ms os timer timeout_ms w =
     (let (now, w) = os_gettimeofday os w;
          interval = \<lparr>tv_sec = int (timeout_ms div 1000), tv_usec = int ((timeout_ms mod 1000) * 1000)\<rparr>
      in (timer\<lparr>end_time := timeradd now interval\<rparr>, w))"

definition HAL_Timer_countdown :: "'w os \<Rightarrow> Timer \<Rightarrow> nat \<Rightarrow> 'w \<Rightarrow> Timer \<times> 'w" where
  "HAL_Timer_countdown os timer timeout w =
     (let (now, w) = os_gettimeofday os w; interval = \<lparr>tv_sec = int timeout, tv_usec = 0\<rparr>
      in (timer\<lparr>end_time := timeradd now interval\<rparr>, w))"

text \<open>The result is an \<^verbatim>\<open>int\<close>; the SDK's timeouts keep it far from \<open>2 ^ 31\<close> milliseconds.\<close>

definition HAL_Timer_remain :: "'w os \<Rightarrow> Timer \<Rightarrow> 'w \<Rightarrow> int \<times> 'w" where
  "HAL_Timer_remain os timer w =
     (let (now, w) = os_gettimeofday os w; res = timersub (end_time timer) now
      in (if tv_sec res < 0 then 0 else tv_sec res * 1000 + tv_usec res div 1000, w))"

definition HAL_Timer_init :: "Timer" where
  "HAL_Timer_init = \<lparr>end_time = \<lparr>tv_sec = 0, tv_usec = 0\<rparr>\<rparr>"

definition HAL_Timer_current_sec :: "'w os \<Rightarrow> 'w \<Rightarrow> int \<times> 'w" where
  "HAL_Timer_current_sec os w = (let (tv, w) = os_gettimeofday os w in (tv_sec tv, w))"

definition HAL_GetTimeMs :: "'w os \<Rightarrow> 'w \<Rightarrow> u32 \<times> 'w" where
  "HAL_GetTimeMs os w =
     (let (tv, w) = os_gettimeofday os w in (of_int (tv_sec tv * 1000 + tv_usec tv div 1000), w))"

section \<open>TCP sockets\<close>

definition linux_get_time_ms :: "'w os \<Rightarrow> 'w \<Rightarrow> u64 \<times> 'w" where
  "linux_get_time_ms os w =
     (let (tv, w) = os_gettimeofday os w in (of_int (tv_sec tv * 1000 + tv_usec tv div 1000), w))"

definition linux_time_left :: "u64 \<Rightarrow> u64 \<Rightarrow> u64" where
  "linux_time_left t_end t_now = (if t_end > t_now then t_end - t_now else 0)"

definition ms_timeval :: "u64 \<Rightarrow> timeval" where
  "ms_timeval t = \<lparr>tv_sec = uint (t div 1000), tv_usec = uint ((t mod 1000) * 1000)\<rparr>"

text \<open>The address loop of \<^verbatim>\<open>HAL_TCP_Connect\<close>: the first address that accepts a connection wins.\<close>

fun tcp_connect_loop :: "'w os \<Rightarrow> nat list \<Rightarrow> 'w \<Rightarrow> int \<times> 'w" where
  "tcp_connect_loop os [] w = (0, w)"
| "tcp_connect_loop os (a # as) w =
     (let (fd, w) = os_socket os a w
      in if fd < 0 then tcp_connect_loop os as w
         else let (ok, w) = os_connect os fd a w
              in if ok then (fd, w)
                 else let (_, w) = os_close os fd w in tcp_connect_loop os as w)"

definition HAL_TCP_Connect :: "'w os \<Rightarrow> cstring \<Rightarrow> nat \<Rightarrow> 'w \<Rightarrow> nat \<times> 'w" where
  "HAL_TCP_Connect os host port w =
     (let (addr_list, w) = os_getaddrinfo os host port w
      in case addr_list of
           None \<Rightarrow> (0, w)
         | Some as \<Rightarrow> let (ret, w) = tcp_connect_loop os as w in (nat ret, w))"

text \<open>The result is the bitwise or of the two system calls' results, which are 0 or -1.\<close>

definition HAL_TCP_Disconnect :: "'w os \<Rightarrow> nat \<Rightarrow> 'w \<Rightarrow> int \<times> 'w" where
  "HAL_TCP_Disconnect os fd w =
     (let (rc1, w) = os_shutdown os (int fd) w; (rc2, w) = os_close os (int fd) w
      in (rc1 OR rc2, w))"

text \<open>
  One round of the do-while loop of \<^verbatim>\<open>HAL_TCP_Write\<close>: \<open>Inl\<close> leaves the loop by \<^verbatim>\<open>break\<close>, \<open>Inr\<close>
  reaches the loop condition (also by \<^verbatim>\<open>continue\<close>). The triple is \<^verbatim>\<open>ret\<close>, \<^verbatim>\<open>len_sent\<close>, the world.
\<close>

definition tcp_write_step ::
  "'w os \<Rightarrow> nat \<Rightarrow> u8 list \<Rightarrow> u64 \<Rightarrow> nat \<Rightarrow> 'w \<Rightarrow> (int \<times> nat \<times> 'w) + (int \<times> nat \<times> 'w)" where
  "tcp_write_step os fd buf t_end len_sent w =
     (let (now, w) = linux_get_time_ms os w; t_left = linux_time_left t_end now
      in if t_left \<noteq> 0
         then let (sel, w) = os_select_write os fd (ms_timeval t_left) w
              in (case sel of
                    SelReady \<Rightarrow>
                      let (r, w) = os_send os fd (drop len_sent buf) w
                      in (case r of
                            SendOk n \<Rightarrow> Inr (int n, len_sent + n, w)
                          | SendEintr \<Rightarrow> Inr (-1, len_sent, w)
                          | SendErr \<Rightarrow> Inl (QCLOUD_ERR_TCP_WRITE_FAIL, len_sent, w))
                  | SelNotSet \<Rightarrow> Inr (0, len_sent, w)
                  | SelTimeout \<Rightarrow> Inl (QCLOUD_ERR_TCP_WRITE_TIMEOUT, len_sent, w)
                  | SelEintr \<Rightarrow> Inr (-1, len_sent, w)
                  | SelErr \<Rightarrow> Inl (QCLOUD_ERR_TCP_WRITE_FAIL, len_sent, w))
         else Inr (QCLOUD_ERR_TCP_WRITE_TIMEOUT, len_sent, w))"

partial_function (option) tcp_write_loop ::
  "'w os \<Rightarrow> nat \<Rightarrow> u8 list \<Rightarrow> u64 \<Rightarrow> nat \<Rightarrow> 'w \<Rightarrow> (int \<times> nat \<times> 'w) option" where
  "tcp_write_loop os fd buf t_end len_sent w =
     (case tcp_write_step os fd buf t_end len_sent w of
        Inl r \<Rightarrow> Some r
      | Inr (ret, len_sent, w) \<Rightarrow>
          if len_sent < length buf
          then let (now, w) = linux_get_time_ms os w
               in if linux_time_left t_end now > 0
                  then tcp_write_loop os fd buf t_end len_sent w
                  else Some (ret, len_sent, w)
          else Some (ret, len_sent, w))"

definition HAL_TCP_Write ::
  "'w os \<Rightarrow> nat \<Rightarrow> u8 list \<Rightarrow> nat \<Rightarrow> 'w \<Rightarrow> (int \<times> nat \<times> 'w) option" where
  "HAL_TCP_Write os fd buf timeout_ms w =
     (let (now, w) = linux_get_time_ms os w; t_end = now + of_nat timeout_ms
      in do {
        (ret, len_sent, w) \<leftarrow> tcp_write_loop os fd buf t_end 0 w;
        Some (if len_sent > 0 then QCLOUD_RET_SUCCESS else ret, len_sent, w)
      })"

text \<open>
  One round of the do-while loop of \<^verbatim>\<open>HAL_TCP_Read\<close>, with the error code and the bytes received so
  far. A \<^verbatim>\<open>select\<close> that counts a descriptor is followed by \<^verbatim>\<open>recv\<close> without a look at the set.
\<close>

definition tcp_read_step ::
  "'w os \<Rightarrow> nat \<Rightarrow> nat \<Rightarrow> u64 \<Rightarrow> u8 list \<Rightarrow> 'w \<Rightarrow> (int \<times> u8 list \<times> 'w) + (u8 list \<times> 'w)" where
  "tcp_read_step os fd len t_end got w =
     (let (now, w) = linux_get_time_ms os w; t_left = linux_time_left t_end now
      in if t_left = 0 then Inl (QCLOUD_ERR_TCP_READ_TIMEOUT, got, w)
         else let (sel, w) = os_select_read os fd (ms_timeval t_left) w
              in (if sel = SelReady \<or> sel = SelNotSet
                  then let (r, w) = os_recv os fd (len - length got) w
                       in (case r of
                             RecvData bs \<Rightarrow> Inr (got @ bs, w)
                           | RecvClosed \<Rightarrow> Inl (QCLOUD_ERR_TCP_PEER_SHUTDOWN, got, w)
                           | RecvEintr \<Rightarrow> Inr (got, w)
                           | RecvErr \<Rightarrow> Inl (QCLOUD_ERR_TCP_READ_FAIL, got, w))
                  else if sel = SelTimeout then Inl (QCLOUD_ERR_TCP_READ_TIMEOUT, got, w)
                  else Inl (QCLOUD_ERR_TCP_READ_FAIL, got, w)))"

partial_function (option) tcp_read_loop ::
  "'w os \<Rightarrow> nat \<Rightarrow> nat \<Rightarrow> u64 \<Rightarrow> u8 list \<Rightarrow> 'w \<Rightarrow> (int \<times> u8 list \<times> 'w) option" where
  "tcp_read_loop os fd len t_end got w =
     (case tcp_read_step os fd len t_end got w of
        Inl r \<Rightarrow> Some r
      | Inr (got, w) \<Rightarrow>
          if length got < len then tcp_read_loop os fd len t_end got w else Some (0, got, w))"

definition HAL_TCP_Read ::
  "'w os \<Rightarrow> nat \<Rightarrow> nat \<Rightarrow> nat \<Rightarrow> 'w \<Rightarrow> (int \<times> u8 list \<times> 'w) option" where
  "HAL_TCP_Read os fd len timeout_ms w =
     (let (now, w) = linux_get_time_ms os w; t_end = now + of_nat timeout_ms
      in do {
        (err_code, got, w) \<leftarrow> tcp_read_loop os fd len t_end [] w;
        let err_code = (if err_code = QCLOUD_ERR_TCP_READ_TIMEOUT \<and> length got = 0
                        then QCLOUD_ERR_TCP_NOTHING_TO_READ else err_code);
        Some (if len = length got then QCLOUD_RET_SUCCESS else err_code, got, w)
      })"

section \<open>The network stack\<close>

datatype NETWORK_TYPE = NETWORK_TCP | NETWORK_UDP | NETWORK_TLS | NETWORK_DTLS

text \<open>
  The structure \<^verbatim>\<open>Network\<close>: its function pointers are fields that hold functions. Reading returns
  the bytes stored at the caller's pointer, so \<^verbatim>\<open>*read_len\<close> is their number; the connection
  handle is passed in and, where the function assigns it, returned.
\<close>

record 'w Network =
  nw_init :: "int"
  nw_connect :: "cstring \<Rightarrow> nat \<Rightarrow> 'w \<Rightarrow> (int \<times> nat) \<times> 'w"
  nw_read :: "nat \<Rightarrow> nat \<Rightarrow> nat \<Rightarrow> 'w \<Rightarrow> (int \<times> u8 list \<times> 'w) option"
  nw_write :: "nat \<Rightarrow> u8 list \<Rightarrow> nat \<Rightarrow> 'w \<Rightarrow> (int \<times> nat \<times> 'w) option"
  nw_disconnect :: "nat \<Rightarrow> 'w \<Rightarrow> nat \<times> 'w"
  nw_is_connected :: "nat \<Rightarrow> int"
  nw_handle :: nat
  nw_host :: cstring
  nw_port :: nat
  nw_type :: NETWORK_TYPE

definition network_tcp_init :: int where
  "network_tcp_init = QCLOUD_RET_SUCCESS"

definition network_tcp_connect :: "'w os \<Rightarrow> cstring \<Rightarrow> nat \<Rightarrow> 'w \<Rightarrow> (int \<times> nat) \<times> 'w" where
  "network_tcp_connect os host port w =
     (let (handle, w) = HAL_TCP_Connect os host port w
      in ((if handle = 0 then -1 else 0, handle), w))"

definition network_tcp_read ::
  "'w os \<Rightarrow> nat \<Rightarrow> nat \<Rightarrow> nat \<Rightarrow> 'w \<Rightarrow> (int \<times> u8 list \<times> 'w) option" where
  "network_tcp_read os handle datalen timeout_ms w = HAL_TCP_Read os handle datalen timeout_ms w"

definition network_tcp_write ::
  "'w os \<Rightarrow> nat \<Rightarrow> u8 list \<Rightarrow> nat \<Rightarrow> 'w \<Rightarrow> (int \<times> nat \<times> 'w) option" where
  "network_tcp_write os handle data timeout_ms w = HAL_TCP_Write os handle data timeout_ms w"

definition network_tcp_disconnect :: "'w os \<Rightarrow> nat \<Rightarrow> 'w \<Rightarrow> nat \<times> 'w" where
  "network_tcp_disconnect os handle w =
     (if handle = 0 then (handle, w)
      else let (_, w) = HAL_TCP_Disconnect os handle w in (0, w))"

definition is_network_connected :: "nat \<Rightarrow> int" where
  "is_network_connected handle = int handle"

definition qcloud_iot_network_init :: "'w os \<Rightarrow> 'w Network \<Rightarrow> int \<times> 'w Network" where
  "qcloud_iot_network_init os net =
     (case nw_type net of
        NETWORK_TCP \<Rightarrow>
          (let net = net\<lparr>nw_init := network_tcp_init, nw_connect := network_tcp_connect os,
                         nw_read := network_tcp_read os, nw_write := network_tcp_write os,
                         nw_disconnect := network_tcp_disconnect os,
                         nw_is_connected := is_network_connected, nw_handle := 0\<rparr>
           in (nw_init net, net))
      | _ \<Rightarrow> (QCLOUD_ERR_INVAL, net))"

text \<open>\<^verbatim>\<open>mqtt_client_net.c\<close>: TLS is the first choice, \<^verbatim>\<open>AUTH_WITH_NOTLS\<close> overrides it with TCP.\<close>

definition qcloud_iot_mqtt_tls_is_connected :: "nat \<Rightarrow> int" where
  "qcloud_iot_mqtt_tls_is_connected handle = 1"

definition qcloud_iot_mqtt_network_init :: "'w os \<Rightarrow> 'w Network \<Rightarrow> int \<times> 'w Network" where
  "qcloud_iot_mqtt_network_init os net =
     (let (rc, net) = qcloud_iot_network_init os (net\<lparr>nw_type := NETWORK_TCP\<rparr>)
      in (rc, net\<lparr>nw_is_connected := qcloud_iot_mqtt_tls_is_connected\<rparr>))"

section \<open>Timers measure elapsed time\<close>

definition tv_norm :: "timeval \<Rightarrow> bool" where
  "tv_norm t \<longleftrightarrow> 0 \<le> tv_usec t \<and> tv_usec t < 1000000"

definition tv_us :: "timeval \<Rightarrow> int" where
  "tv_us t = tv_sec t * 1000000 + tv_usec t"

lemma timersub_us: "tv_us (timersub a b) = tv_us a - tv_us b"
  by (simp add: timersub_def tv_us_def Let_def)

lemma timersub_norm: "tv_norm a \<Longrightarrow> tv_norm b \<Longrightarrow> tv_norm (timersub a b)"
  by (auto simp: timersub_def tv_norm_def Let_def)

lemma timeradd_us: "tv_us (timeradd a b) = tv_us a + tv_us b"
  by (simp add: timeradd_def tv_us_def Let_def)

lemma timeradd_norm: "tv_norm a \<Longrightarrow> tv_norm b \<Longrightarrow> tv_norm (timeradd a b)"
  by (auto simp: timeradd_def tv_norm_def Let_def)

lemma tv_us_le_0: "tv_norm t \<Longrightarrow> (tv_sec t < 0 \<or> (tv_sec t = 0 \<and> tv_usec t \<le> 0)) \<longleftrightarrow> tv_us t \<le> 0"
  by (auto simp: tv_norm_def tv_us_def)

lemma interval_norm: "tv_norm \<lparr>tv_sec = int (n div 1000), tv_usec = int ((n mod 1000) * 1000)\<rparr>"
proof -
  have "n mod 1000 < 1000" by simp
  then show ?thesis by (simp add: tv_norm_def)
qed

lemma interval_us: "tv_us \<lparr>tv_sec = int (n div 1000), tv_usec = int ((n mod 1000) * 1000)\<rparr> = 1000 * int n"
proof -
  have "int n = int (n div 1000) * 1000 + int (n mod 1000)"
    by (simp add: of_nat_div of_nat_mod)
  then show ?thesis by (simp add: tv_us_def)
qed

lemma HAL_Timer_expired_us:
  assumes "tv_norm (end_time t)" and "os_gettimeofday os w = (now, w')" and "tv_norm now"
  shows "HAL_Timer_expired os t w = (tv_us (end_time t) \<le> tv_us now, w')"
  using assms tv_us_le_0 [OF timersub_norm [OF assms(1,3)]]
  by (simp add: HAL_Timer_expired_def timersub_us)

lemma HAL_Timer_countdown_ms_us:
  assumes "os_gettimeofday os w = (now, w')" and "tv_norm now"
  shows "\<exists>t'. HAL_Timer_countdown_ms os t n w = (t', w') \<and> tv_norm (end_time t') \<and>
              tv_us (end_time t') = tv_us now + 1000 * int n"
  using assms timeradd_norm [OF assms(2) interval_norm, of n] timeradd_us interval_us [of n]
  by (simp add: HAL_Timer_countdown_ms_def)

section \<open>The socket layer keeps within the caller's buffer\<close>

lemma kernel_ok_recv:
  "kernel_ok os \<Longrightarrow> os_recv os fd m v = (RecvData d, v') \<Longrightarrow> 0 < length d \<and> length d \<le> m"
  unfolding kernel_ok_def by blast

lemma kernel_ok_send: "kernel_ok os \<Longrightarrow> os_send os fd d v = (SendOk k, v') \<Longrightarrow> k \<le> length d"
  unfolding kernel_ok_def by blast

lemma tcp_read_step_Inl:
  "tcp_read_step os fd n t got w = Inl (rc, bs, w') \<Longrightarrow> bs = got \<and> rc \<noteq> 0"
  by (auto simp: tcp_read_step_def Let_def split: prod.splits if_splits recv_ret.splits)

lemma tcp_read_step_Inr:
  assumes "kernel_ok os" and "tcp_read_step os fd n t got w = Inr (bs, w')" and "length got \<le> n"
  shows "length bs \<le> n \<and> (bs = got \<or> length got < length bs)"
  using assms(2,3)
  by (auto simp: tcp_read_step_def Let_def split: prod.splits if_splits recv_ret.splits
      dest!: kernel_ok_recv [OF assms(1)])

text \<open>Leaving the loop by its condition means that all bytes have arrived.\<close>

lemma tcp_read_loop_length:
  assumes "tcp_read_loop os fd n t got w = Some r" and "kernel_ok os" and "length got \<le> n"
  shows "length (fst (snd r)) \<le> n \<and> (fst r = 0 \<longrightarrow> length (fst (snd r)) = n)"
proof -
  let ?P = "\<lambda>os fd n t got w r. kernel_ok os \<longrightarrow> length got \<le> n \<longrightarrow>
              length (fst (snd r)) \<le> n \<and> (fst r = 0 \<longrightarrow> length (fst (snd r)) = n)"
  have "?P os fd n t got w r"
  proof (rule tcp_read_loop.raw_induct [where P = ?P, OF _ assms(1)])
    fix loop and os :: "'a os" and fd n t got w r
    assume IH: "\<And>os fd n t got w r. loop os fd n t got w = Some r \<Longrightarrow> ?P os fd n t got w r"
      and eq: "(case tcp_read_step os fd n t got w of Inl r \<Rightarrow> Some r
                | Inr (got, w) \<Rightarrow> if length got < n then loop os fd n t got w
                                 else Some (0, got, w)) = Some r"
    show "?P os fd n t got w r"
      using eq by (auto split: sum.splits if_splits prod.splits dest!: IH
          dest: tcp_read_step_Inl tcp_read_step_Inr [of os fd n t got w])
  qed
  with assms show ?thesis by blast
qed

lemma HAL_TCP_Read_length:
  assumes "kernel_ok os" and "HAL_TCP_Read os fd n t w = Some (rc, bs, w')"
  shows "length bs \<le> n" and "rc = 0 \<Longrightarrow> length bs = n"
  using assms(2)
  by (auto simp: HAL_TCP_Read_def Let_def bind_Some_iff split: prod.splits if_splits
      dest!: tcp_read_loop_length [OF _ assms(1)])

lemma tcp_write_step_length:
  assumes "kernel_ok os" and "len_sent \<le> length buf"
  shows "tcp_write_step os fd buf t len_sent w = Inl (rc, k, w') \<Longrightarrow> k \<le> length buf"
    and "tcp_write_step os fd buf t len_sent w = Inr (rc, k, w') \<Longrightarrow> k \<le> length buf"
  using assms(2)
  by (auto simp: tcp_write_step_def Let_def split: prod.splits if_splits select_ret.splits send_ret.splits
      dest!: kernel_ok_send [OF assms(1)])

lemma tcp_write_loop_length:
  assumes "tcp_write_loop os fd buf t len_sent w = Some r" and "kernel_ok os" and "len_sent \<le> length buf"
  shows "fst (snd r) \<le> length buf"
proof -
  let ?P = "\<lambda>os fd buf t len_sent w r. kernel_ok os \<longrightarrow> len_sent \<le> length buf \<longrightarrow>
              fst (snd r) \<le> length buf"
  have "?P os fd buf t len_sent w r"
  proof (rule tcp_write_loop.raw_induct [where P = ?P, OF _ assms(1)])
    fix loop and os :: "'a os" and fd buf t len_sent w r
    assume IH: "\<And>os fd buf t len_sent w r.
                  loop os fd buf t len_sent w = Some r \<Longrightarrow> ?P os fd buf t len_sent w r"
      and eq: "(case tcp_write_step os fd buf t len_sent w of Inl r \<Rightarrow> Some r
                | Inr (ret, len_sent, w) \<Rightarrow>
                    if len_sent < length buf
                    then let (now, w) = linux_get_time_ms os w
                         in if linux_time_left t now > 0 then loop os fd buf t len_sent w
                            else Some (ret, len_sent, w)
                    else Some (ret, len_sent, w)) = Some r"
    show "?P os fd buf t len_sent w r"
      using eq by (auto simp: Let_def split: sum.splits if_splits prod.splits dest!: IH
          dest: tcp_write_step_length [of os len_sent buf fd t w])
  qed
  with assms show ?thesis by blast
qed

lemma HAL_TCP_Write_length:
  assumes "kernel_ok os" and "HAL_TCP_Write os fd buf t w = Some (rc, k, w')"
  shows "k \<le> length buf"
  using assms(2)
  by (auto simp: HAL_TCP_Write_def Let_def bind_Some_iff split: prod.splits if_splits
      dest!: tcp_write_loop_length [OF _ assms(1)])

text \<open>
  \<^verbatim>\<open>HAL_TCP_Read\<close> retries an interrupted \<^verbatim>\<open>recv\<close> without looking at the clock in between, so it
  returns for certain only where no signal interrupts it: every other round ends the loop or
  brings at least one byte.
\<close>

definition no_recv_eintr :: "'w os \<Rightarrow> bool" where
  "no_recv_eintr os \<longleftrightarrow> (\<forall>fd n w. fst (os_recv os fd n w) \<noteq> RecvEintr)"

lemma tcp_read_step_progress:
  assumes "kernel_ok os" and "no_recv_eintr os" and "tcp_read_step os fd n t got w = Inr (bs, w')"
  shows "length got < length bs"
proof -
  have "fst (os_recv os fd m v) \<noteq> RecvEintr" for m v
    using assms(2) by (simp add: no_recv_eintr_def)
  then have "r \<noteq> RecvEintr" if "os_recv os fd m v = (r, v')" for m v r v'
    using that by (metis fst_conv)
  then show ?thesis
    using assms(3)
    by (auto simp: tcp_read_step_def Let_def split: prod.splits if_splits recv_ret.splits
        dest!: kernel_ok_recv [OF assms(1)])
qed

lemma tcp_read_loop_returns:
  assumes "kernel_ok os" and "no_recv_eintr os"
  shows "\<exists>r. tcp_read_loop os fd n t got w = Some r"
proof (induction "n - length got" arbitrary: got w rule: less_induct)
  case less
  show ?case
  proof (cases "tcp_read_step os fd n t got w")
    case (Inl r)
    then have "tcp_read_loop os fd n t got w = Some r" by (subst tcp_read_loop.simps) simp
    then show ?thesis ..
  next
    case (Inr r)
    obtain bs w' where r: "r = (bs, w')" by (cases r)
    with Inr have step: "tcp_read_step os fd n t got w = Inr (bs, w')" by simp
    show ?thesis
    proof (cases "length bs < n")
      case True
      with tcp_read_step_progress [OF assms step] have "n - length bs < n - length got" by simp
      then have "\<exists>r. tcp_read_loop os fd n t bs w' = Some r" by (rule less)
      with True step show ?thesis by (subst tcp_read_loop.simps) simp
    next
      case False
      with step show ?thesis by (subst tcp_read_loop.simps) simp
    qed
  qed
qed

section \<open>The interface of a transport\<close>

text \<open>
  What the MQTT client relies on when it reads through a \<^verbatim>\<open>Network\<close>: a read never stores more bytes
  than asked for and succeeds only with all of them, a write never reports more bytes than it was
  given. \<open>env\<close> is the environment of the transport and \<open>ok\<close> what that environment must promise.
\<close>

locale transport =
  fixes ok :: "'o \<Rightarrow> bool"
    and rd :: "'o \<Rightarrow> nat \<Rightarrow> nat \<Rightarrow> nat \<Rightarrow> 'w \<Rightarrow> (int \<times> u8 list \<times> 'w) option"
    and wr :: "'o \<Rightarrow> nat \<Rightarrow> u8 list \<Rightarrow> nat \<Rightarrow> 'w \<Rightarrow> (int \<times> nat \<times> 'w) option"
  assumes rd_bound: "ok env \<Longrightarrow> rd env h n t w = Some (rc, bs, w') \<Longrightarrow> length bs \<le> n"
    and rd_complete: "ok env \<Longrightarrow> rd env h n t w = Some (0, bs, w') \<Longrightarrow> length bs = n"
    and wr_bound: "ok env \<Longrightarrow> wr env h d t w = Some (rc, k, w') \<Longrightarrow> k \<le> length d"

interpretation tcp: transport kernel_ok network_tcp_read network_tcp_write
  by unfold_locales
    (auto simp: network_tcp_read_def network_tcp_write_def
      dest: HAL_TCP_Read_length HAL_TCP_Write_length)

end
