(* ===== verification/Mqtt_Packet.thy ===== *)
theory Mqtt_Packet
  imports Prelude
begin

text \<open>
  The MQTT 3.1.1 packet codec: the reader and writer primitives and the fixed header of
  \<^verbatim>\<open>sdk_src/protocol/mqtt/mqtt_client_common.c\<close>, and the packet serializers and deserializers of
  \<^verbatim>\<open>mqtt_client_publish.c\<close>, \<^verbatim>\<open>mqtt_client_subscribe.c\<close>, \<^verbatim>\<open>mqtt_client_unsubscribe.c\<close> and
  \<^verbatim>\<open>mqtt_client_connect.c\<close>.

  A pointer into a packet buffer is the buffer and an offset. A serializer returns
  \<open>Some (Inl rc)\<close> for an error code and \<open>Some (Inr (buf, len))\<close> for the filled buffer and
  \<^verbatim>\<open>*serialized_len\<close>; \<open>None\<close> is an access outside the buffer.
\<close>

section \<open>Types\<close>

datatype MessageTypes =
  RESERVED | CONNECT | CONNACK | PUBLISH | PUBACK | PUBREC | PUBREL | PUBCOMP
| SUBSCRIBE | SUBACK | UNSUBSCRIBE | UNSUBACK | PINGREQ | PINGRESP | DISCONNECT

fun msg_code :: "MessageTypes \<Rightarrow> u8" where
  "msg_code RESERVED = 0" | "msg_code CONNECT = 1" | "msg_code CONNACK = 2"
| "msg_code PUBLISH = 3" | "msg_code PUBACK = 4" | "msg_code PUBREC = 5"
| "msg_code PUBREL = 6" | "msg_code PUBCOMP = 7" | "msg_code SUBSCRIBE = 8"
| "msg_code SUBACK = 9" | "msg_code UNSUBSCRIBE = 10" | "msg_code UNSUBACK = 11"
| "msg_code PINGREQ = 12" | "msg_code PINGRESP = 13" | "msg_code DISCONNECT = 14"

text \<open>A QoS is a number: the wire can carry the value 3, and a SUBACK the value 0x80.\<close>

abbreviation (input) QOS0 :: nat where "QOS0 \<equiv> 0"
abbreviation (input) QOS1 :: nat where "QOS1 \<equiv> 1"
abbreviation (input) QOS2 :: nat where "QOS2 \<equiv> 2"

abbreviation (input) MAX_NO_OF_REMAINING_LENGTH_BYTES :: nat where "MAX_NO_OF_REMAINING_LENGTH_BYTES \<equiv> 4"
abbreviation (input) MAX_SIZE_OF_CLOUD_TOPIC :: nat where "MAX_SIZE_OF_CLOUD_TOPIC \<equiv> 128"
abbreviation (input) QCLOUD_IOT_MQTT_TX_BUF_LEN :: nat where "QCLOUD_IOT_MQTT_TX_BUF_LEN \<equiv> 2048"
abbreviation (input) QCLOUD_IOT_MQTT_RX_BUF_LEN :: nat where "QCLOUD_IOT_MQTT_RX_BUF_LEN \<equiv> 2048"

section \<open>Writer primitives\<close>

text \<open>The do-while loop that encodes the remaining length, seven bits a byte.\<close>

function mqtt_write_packet_rem_len :: "u8 list \<Rightarrow> nat \<Rightarrow> u32 \<Rightarrow> nat \<Rightarrow> (u8 list \<times> nat) option" where
  "mqtt_write_packet_rem_len buf p len outLen =
     (let encodeByte = (ucast (len mod 128) :: u8);
          len = len div 128;
          encodeByte = (if len > 0 then encodeByte OR 0x80 else encodeByte)
      in do {
        buf \<leftarrow> buf_put buf (p + outLen) encodeByte;
        if len > 0 then mqtt_write_packet_rem_len buf p len (outLen + 1)
        else Some (buf, outLen + 1)
      })"
  by pat_completeness auto
termination
  by (relation "measure (\<lambda>(buf, p, len, outLen). unat len)")
    (auto simp: word_gt_0 intro!: word_div_less)

declare mqtt_write_packet_rem_len.simps [simp del]

definition get_mqtt_packet_len :: "nat \<Rightarrow> nat" where
  "get_mqtt_packet_len rem_len =
     (let rem_len = rem_len + 1
      in if rem_len < 128 then rem_len + 1
         else if rem_len < 16384 then rem_len + 2
         else if rem_len < 2097151 then rem_len + 3
         else rem_len + 4)"

definition mqtt_write_char :: "u8 list \<Rightarrow> nat \<Rightarrow> u8 \<Rightarrow> (u8 list \<times> nat) option" where
  "mqtt_write_char buf p c = do { buf \<leftarrow> buf_put buf p c; Some (buf, p + 1) }"

definition mqtt_write_uint_16 :: "u8 list \<Rightarrow> nat \<Rightarrow> u16 \<Rightarrow> (u8 list \<times> nat) option" where
  "mqtt_write_uint_16 buf p anInt = do {
     buf \<leftarrow> buf_put buf p (ucast (anInt div 256));
     buf \<leftarrow> buf_put buf (p + 1) (ucast (anInt mod 256));
     Some (buf, p + 2)
   }"

definition mqtt_write_utf8_string :: "u8 list \<Rightarrow> nat \<Rightarrow> cstring \<Rightarrow> (u8 list \<times> nat) option" where
  "mqtt_write_utf8_string buf p s = do {
     (buf, p) \<leftarrow> mqtt_write_uint_16 buf p (of_nat (length s));
     buf \<leftarrow> buf_write buf p s;
     Some (buf, p + length s)
   }"

definition mqtt_init_packet_header :: "MessageTypes \<Rightarrow> nat \<Rightarrow> u8 \<Rightarrow> u8 \<Rightarrow> int + u8" where
  "mqtt_init_packet_header message_type Qos dup retained =
     (if message_type = RESERVED then Inl QCLOUD_ERR_MQTT_UNKNOWN
      else let qos = (if Qos \<le> QOS2 then of_nat Qos else 0 :: u8)
           in Inr ((push_bit 4 (msg_code message_type) AND 0xF0) OR (push_bit 3 dup AND 0x08)
                   OR (push_bit 1 qos AND 0x06) OR (retained AND 0x01)))"

section \<open>Reader primitives\<close>

definition mqtt_read_char :: "u8 list \<Rightarrow> nat \<Rightarrow> (u8 \<times> nat) option" where
  "mqtt_read_char buf p = do { c \<leftarrow> buf_get buf p; Some (c, p + 1) }"

definition mqtt_read_uint16_t :: "u8 list \<Rightarrow> nat \<Rightarrow> (u16 \<times> nat) option" where
  "mqtt_read_uint16_t buf p = do {
     firstByte \<leftarrow> buf_get buf p;
     secondByte \<leftarrow> buf_get buf (p + 1);
     Some (ucast secondByte + 256 * ucast firstByte, p + 2)
   }"

text \<open>The loop of \<^verbatim>\<open>_decode_packet_rem_len_from_buf_read\<close>; \<open>len\<close> counts the bytes read so far.\<close>

function decode_packet_rem_len_from_buf_read ::
  "u8 list \<Rightarrow> nat \<Rightarrow> u32 \<Rightarrow> u32 \<Rightarrow> nat \<Rightarrow> (int + u32 \<times> nat) option" where
  "decode_packet_rem_len_from_buf_read buf p value multiplier len =
     (if len + 1 > MAX_NO_OF_REMAINING_LENGTH_BYTES then Some (Inl QCLOUD_ERR_MQTT_PACKET_READ)
      else do {
        c \<leftarrow> buf_get buf p;
        let value = value + ucast (c AND 127) * multiplier;
        if c AND 128 \<noteq> 0
        then decode_packet_rem_len_from_buf_read buf (p + 1) value (multiplier * 128) (len + 1)
        else Some (Inr (value, len + 1))
      })"
  by pat_completeness auto
termination
  by (relation "measure (\<lambda>(buf, p, value, multiplier, len). 4 - len)") auto

declare decode_packet_rem_len_from_buf_read.simps [simp del]

definition mqtt_read_packet_rem_len_form_buf :: "u8 list \<Rightarrow> nat \<Rightarrow> (int + u32 \<times> nat) option" where
  "mqtt_read_packet_rem_len_form_buf buf p = decode_packet_rem_len_from_buf_read buf p 0 1 0"

text \<open>\<^verbatim>\<open>_read_string_with_len\<close>: offset and length of the string, and the offset after it.\<close>

definition read_string_with_len :: "u8 list \<Rightarrow> nat \<Rightarrow> nat \<Rightarrow> (int + nat \<times> u16 \<times> nat) option" where
  "read_string_with_len buf p enddata =
     (if int enddata - int p > 1
      then do {
        (stringLen, p) \<leftarrow> mqtt_read_uint16_t buf p;
        if unat stringLen > QCLOUD_IOT_MQTT_RX_BUF_LEN then Some (Inl QCLOUD_ERR_FAILURE)
        else if p + unat stringLen \<le> enddata then Some (Inr (p, stringLen, p + unat stringLen))
        else Some (Inl QCLOUD_ERR_FAILURE)
      }
      else Some (Inl QCLOUD_ERR_FAILURE))"

section \<open>Serializers\<close>

definition serialize_packet_with_zero_payload ::
  "u8 list \<Rightarrow> nat \<Rightarrow> MessageTypes \<Rightarrow> (int + u8 list \<times> nat) option" where
  "serialize_packet_with_zero_payload buf buf_len packetType =
     (if 4 > buf_len then Some (Inl QCLOUD_ERR_BUF_TOO_SHORT)
      else case mqtt_init_packet_header packetType QOS0 0 0 of
        Inl rc \<Rightarrow> Some (Inl rc)
      | Inr header \<Rightarrow> do {
          (buf, p) \<leftarrow> mqtt_write_char buf 0 header;
          (buf, n) \<leftarrow> mqtt_write_packet_rem_len buf p 0 0;
          Some (Inr (buf, p + n))
        })"

definition serialize_pub_ack_packet ::
  "u8 list \<Rightarrow> nat \<Rightarrow> MessageTypes \<Rightarrow> u8 \<Rightarrow> u16 \<Rightarrow> (int + u8 list \<times> nat) option" where
  "serialize_pub_ack_packet buf buf_len packet_type dup packet_id =
     (let requestQoS = (if packet_type = PUBREL then QOS1 else QOS0);
          rc = mqtt_init_packet_header packet_type requestQoS dup 0
      in if 4 > buf_len then Some (Inl QCLOUD_ERR_BUF_TOO_SHORT)
         else case rc of
           Inl rc \<Rightarrow> Some (Inl rc)
         | Inr header \<Rightarrow> do {
             (buf, p) \<leftarrow> mqtt_write_char buf 0 header;
             (buf, n) \<leftarrow> mqtt_write_packet_rem_len buf p 2 0;
             (buf, p) \<leftarrow> mqtt_write_uint_16 buf (p + n) packet_id;
             Some (Inr (buf, p))
           })"

definition get_publish_packet_len :: "nat \<Rightarrow> cstring \<Rightarrow> nat \<Rightarrow> u32" where
  "get_publish_packet_len qos topicName payload_len =
     (let len = 2 + length topicName + payload_len; len = (if qos > 0 then len + 2 else len)
      in of_nat len)"

definition serialize_publish_packet ::
  "u8 list \<Rightarrow> nat \<Rightarrow> u8 \<Rightarrow> nat \<Rightarrow> u8 \<Rightarrow> u16 \<Rightarrow> cstring \<Rightarrow> u8 list option \<Rightarrow>
   (int + u8 list \<times> nat) option" where
  "serialize_publish_packet buf buf_len dup qos retained packet_id topicName payload =
     (case payload of
        None \<Rightarrow> Some (Inl QCLOUD_ERR_INVAL)
      | Some payload \<Rightarrow>
          let rem_len = get_publish_packet_len qos topicName (length payload)
          in if get_mqtt_packet_len (unat rem_len) > buf_len then Some (Inl QCLOUD_ERR_BUF_TOO_SHORT)
             else case mqtt_init_packet_header PUBLISH qos dup retained of
               Inl rc \<Rightarrow> Some (Inl rc)
             | Inr header \<Rightarrow> do {
                 (buf, p) \<leftarrow> mqtt_write_char buf 0 header;
                 (buf, n) \<leftarrow> mqtt_write_packet_rem_len buf p rem_len 0;
                 (buf, p) \<leftarrow> mqtt_write_utf8_string buf (p + n) topicName;
                 (buf, p) \<leftarrow> (if qos > 0 then mqtt_write_uint_16 buf p packet_id else Some (buf, p));
                 buf \<leftarrow> buf_write buf p payload;
                 Some (Inr (buf, p + length payload))
               })"

text \<open>
  The topic filters of the subscribe and unsubscribe serializers are addressed as
  \<^verbatim>\<open>*topicFilters + i\<close>, which is the \<open>i\<close>-th suffix of the first string, not the \<open>i\<close>-th string.
  Every caller passes \<^verbatim>\<open>count = 1\<close>, and within the string (\<open>count\<close> at most its length plus one)
  the suffix is \<open>drop i\<close>.
\<close>

fun subscribe_filters :: "nat \<Rightarrow> cstring \<Rightarrow> cstring list" where
  "subscribe_filters count topicFilter = map (\<lambda>i. drop i topicFilter) [0 ..< count]"

definition get_subscribe_packet_rem_len :: "nat \<Rightarrow> cstring \<Rightarrow> u32" where
  "get_subscribe_packet_rem_len count topicFilter =
     of_nat (2 + sum_list (map (\<lambda>f. 2 + length f + 1) (subscribe_filters count topicFilter)))"

fun write_subscribe_payload ::
  "u8 list \<Rightarrow> nat \<Rightarrow> cstring list \<Rightarrow> nat list \<Rightarrow> (u8 list \<times> nat) option" where
  "write_subscribe_payload buf p [] qs = Some (buf, p)"
| "write_subscribe_payload buf p (f # fs) [] = None"
| "write_subscribe_payload buf p (f # fs) (q # qs) = do {
     (buf, p) \<leftarrow> mqtt_write_utf8_string buf p f;
     (buf, p) \<leftarrow> mqtt_write_char buf p (of_nat q);
     write_subscribe_payload buf p fs qs
   }"

definition serialize_subscribe_packet ::
  "u8 list \<Rightarrow> nat \<Rightarrow> u8 \<Rightarrow> u16 \<Rightarrow> nat \<Rightarrow> cstring \<Rightarrow> nat list \<Rightarrow> (int + u8 list \<times> nat) option" where
  "serialize_subscribe_packet buf buf_len dup packet_id count topicFilter requestedQoSs =
     (let rem_len = get_subscribe_packet_rem_len count topicFilter
      in if get_mqtt_packet_len (unat rem_len) > buf_len then Some (Inl QCLOUD_ERR_BUF_TOO_SHORT)
         else case mqtt_init_packet_header SUBSCRIBE QOS1 dup 0 of
           Inl rc \<Rightarrow> Some (Inl rc)
         | Inr header \<Rightarrow> do {
             (buf, p) \<leftarrow> mqtt_write_char buf 0 header;
             (buf, n) \<leftarrow> mqtt_write_packet_rem_len buf p rem_len 0;
             (buf, p) \<leftarrow> mqtt_write_uint_16 buf (p + n) packet_id;
             (buf, p) \<leftarrow> write_subscribe_payload buf p (subscribe_filters count topicFilter) requestedQoSs;
             Some (Inr (buf, p))
           })"

definition get_unsubscribe_packet_rem_len :: "nat \<Rightarrow> cstring \<Rightarrow> u32" where
  "get_unsubscribe_packet_rem_len count topicFilter =
     of_nat (2 + sum_list (map (\<lambda>f. 2 + length f) (subscribe_filters count topicFilter)))"

fun write_unsubscribe_payload :: "u8 list \<Rightarrow> nat \<Rightarrow> cstring list \<Rightarrow> (u8 list \<times> nat) option" where
  "write_unsubscribe_payload buf p [] = Some (buf, p)"
| "write_unsubscribe_payload buf p (f # fs) = do {
     (buf, p) \<leftarrow> mqtt_write_utf8_string buf p f;
     write_unsubscribe_payload buf p fs
   }"

definition serialize_unsubscribe_packet ::
  "u8 list \<Rightarrow> nat \<Rightarrow> u8 \<Rightarrow> u16 \<Rightarrow> nat \<Rightarrow> cstring \<Rightarrow> (int + u8 list \<times> nat) option" where
  "serialize_unsubscribe_packet buf buf_len dup packet_id count topicFilter =
     (let rem_len = get_unsubscribe_packet_rem_len count topicFilter
      in if get_mqtt_packet_len (unat rem_len) > buf_len then Some (Inl QCLOUD_ERR_BUF_TOO_SHORT)
         else case mqtt_init_packet_header UNSUBSCRIBE QOS1 dup 0 of
           Inl rc \<Rightarrow> Some (Inl rc)
         | Inr header \<Rightarrow> do {
             (buf, p) \<leftarrow> mqtt_write_char buf 0 header;
             (buf, n) \<leftarrow> mqtt_write_packet_rem_len buf p rem_len 0;
             (buf, p) \<leftarrow> mqtt_write_uint_16 buf (p + n) packet_id;
             (buf, p) \<leftarrow> write_unsubscribe_payload buf p (subscribe_filters count topicFilter);
             Some (Inr (buf, p))
           })"

section \<open>Deserializers\<close>

text \<open>
  The result \<open>Inl rc\<close> is the error code, \<open>Inr\<close> carries the output parameters. Subtracting two
  pointers gives a signed difference, so \<^verbatim>\<open>enddata - curdata\<close> is an integer.
\<close>

definition header_type :: "u8 \<Rightarrow> u8" where
  "header_type header = drop_bit 4 (header AND 0xF0)"

definition header_dup :: "u8 \<Rightarrow> u8" where
  "header_dup header = drop_bit 3 (header AND 0x08)"

definition header_qos :: "u8 \<Rightarrow> nat" where
  "header_qos header = unat (drop_bit 1 (header AND 0x06))"

definition deserialize_ack_packet :: "u8 list \<Rightarrow> nat \<Rightarrow> (int + u8 \<times> u8 \<times> u16) option" where
  "deserialize_ack_packet buf buf_len =
     (if 4 > buf_len then Some (Inl QCLOUD_ERR_BUF_TOO_SHORT)
      else do {
        (header, curdata) \<leftarrow> mqtt_read_char buf 0;
        let packet_type = header_type header;
        let dup = header_dup header;
        r \<leftarrow> mqtt_read_packet_rem_len_form_buf buf curdata;
        (case r of
           Inl rc \<Rightarrow> Some (Inl rc)
         | Inr (decodedLen, readBytesLen) \<Rightarrow>
             let curdata = curdata + readBytesLen; enddata = curdata + unat decodedLen
             in if int enddata - int curdata < 2 then Some (Inl QCLOUD_ERR_FAILURE)
                else do {
                  (packet_id, curdata) \<leftarrow> mqtt_read_uint16_t buf curdata;
                  if int enddata - int curdata \<ge> 1
                  then do {
                    (ack_code, curdata) \<leftarrow> mqtt_read_char buf curdata;
                    if ack_code \<noteq> 0 then Some (Inl QCLOUD_ERR_FAILURE)
                    else Some (Inr (packet_type, dup, packet_id))
                  }
                  else Some (Inr (packet_type, dup, packet_id))
                })
      })"

text \<open>
  The payload loop of the SUBACK reader stores at \<^verbatim>\<open>grantedQoSs[( *count)++]\<close>; the array is the
  caller's, and a store behind its end is \<open>None\<close>. The loop runs once a byte up to \<open>enddata\<close>.
\<close>

function suback_payload_loop ::
  "u8 list \<Rightarrow> nat \<Rightarrow> nat \<Rightarrow> nat \<Rightarrow> nat \<Rightarrow> nat list \<Rightarrow> (int + nat \<times> nat list) option" where
  "suback_payload_loop buf curdata enddata max_count count grantedQoSs =
     (if curdata < enddata
      then if count > max_count then Some (Inl QCLOUD_ERR_FAILURE)
           else do {
             (c, curdata') \<leftarrow> mqtt_read_char buf curdata;
             grantedQoSs \<leftarrow> buf_put grantedQoSs count (unat c);
             suback_payload_loop buf (curdata + 1) enddata max_count (count + 1) grantedQoSs
           }
      else Some (Inr (count, grantedQoSs)))"
  by pat_completeness auto
termination
  by (relation "measure (\<lambda>(buf, curdata, enddata, max_count, count, qs). enddata - curdata)") auto

declare suback_payload_loop.simps [simp del]

definition deserialize_suback_packet ::
  "nat \<Rightarrow> nat list \<Rightarrow> u8 list \<Rightarrow> nat \<Rightarrow> (int + u16 \<times> nat \<times> nat list) option" where
  "deserialize_suback_packet max_count grantedQoSs buf buf_len =
     (if 5 > buf_len then Some (Inl QCLOUD_ERR_BUF_TOO_SHORT)
      else do {
        (header, curdata) \<leftarrow> mqtt_read_char buf 0;
        if header_type header \<noteq> msg_code SUBACK then Some (Inl QCLOUD_ERR_FAILURE)
        else do {
          r \<leftarrow> mqtt_read_packet_rem_len_form_buf buf curdata;
          (case r of
             Inl rc \<Rightarrow> Some (Inl rc)
           | Inr (decodedLen, readBytesLen) \<Rightarrow>
               let curdata = curdata + readBytesLen; enddata = curdata + unat decodedLen
               in if int enddata - int curdata < 2 then Some (Inl QCLOUD_ERR_FAILURE)
                  else do {
                    (packet_id, curdata) \<leftarrow> mqtt_read_uint16_t buf curdata;
                    r \<leftarrow> suback_payload_loop buf curdata enddata max_count 0 grantedQoSs;
                    (case r of
                       Inl rc \<Rightarrow> Some (Inl rc)
                     | Inr (count, grantedQoSs) \<Rightarrow> Some (Inr (packet_id, count, grantedQoSs)))
                  })
        }
      })"

definition deserialize_unsuback_packet :: "u8 list \<Rightarrow> nat \<Rightarrow> (int + u16) option" where
  "deserialize_unsuback_packet buf buf_len = do {
     r \<leftarrow> deserialize_ack_packet buf buf_len;
     (case r of
        Inl rc \<Rightarrow> Some (Inl rc)
      | Inr (type, dup, packet_id) \<Rightarrow>
          if type \<noteq> msg_code UNSUBACK then Some (Inl QCLOUD_ERR_FAILURE) else Some (Inr packet_id))
   }"

text \<open>
  What a PUBLISH packet carries. \<^verbatim>\<open>topicName\<close> and \<^verbatim>\<open>payload\<close> point into the buffer;
  \<^verbatim>\<open>payload_len\<close> is the pointer difference converted to \<^verbatim>\<open>size_t\<close>, so a negative one wraps around.
  For QoS 0 the code leaves \<^verbatim>\<open>*packet_id\<close> unassigned, which is \<open>None\<close> here.
\<close>

record publish_fields =
  pf_dup :: u8
  pf_qos :: nat
  pf_retained :: u8
  pf_packet_id :: "u16 option"
  pf_topic :: nat
  pf_topic_len :: u16
  pf_payload :: nat
  pf_payload_len :: u64

definition deserialize_publish_packet :: "u8 list \<Rightarrow> nat \<Rightarrow> (int + publish_fields) option" where
  "deserialize_publish_packet buf buf_len =
     (if 4 > buf_len then Some (Inl QCLOUD_ERR_BUF_TOO_SHORT)
      else do {
        (header, curdata) \<leftarrow> mqtt_read_char buf 0;
        if header_type header \<noteq> msg_code PUBLISH then Some (Inl QCLOUD_ERR_FAILURE)
        else do {
          r \<leftarrow> mqtt_read_packet_rem_len_form_buf buf curdata;
          (case r of
             Inl rc \<Rightarrow> Some (Inl rc)
           | Inr (decodedLen, readBytesLen) \<Rightarrow>
               let curdata = curdata + readBytesLen; enddata = curdata + unat decodedLen
               in do {
                 r \<leftarrow> read_string_with_len buf curdata enddata;
                 (case r of
                    Inl rc \<Rightarrow> Some (Inl QCLOUD_ERR_FAILURE)
                  | Inr (topic, topic_len, curdata) \<Rightarrow>
                      if 0 > int enddata - int curdata then Some (Inl QCLOUD_ERR_FAILURE)
                      else do {
                        (packet_id, curdata) \<leftarrow>
                          (if header_qos header \<noteq> QOS0
                           then do { (i, c) \<leftarrow> mqtt_read_uint16_t buf curdata; Some (Some i, c) }
                           else Some (None, curdata));
                        Some (Inr \<lparr>pf_dup = header_dup header, pf_qos = header_qos header,
                                   pf_retained = header AND 0x01, pf_packet_id = packet_id,
                                   pf_topic = topic, pf_topic_len = topic_len, pf_payload = curdata,
                                   pf_payload_len = of_int (int enddata - int curdata)\<rparr>)
                      })
               })
        }
      })"

definition connack_code :: "u8 \<Rightarrow> int" where
  "connack_code c =
     (if c = 0 then QCLOUD_RET_MQTT_CONNACK_CONNECTION_ACCEPTED
      else if c = 1 then QCLOUD_ERR_MQTT_CONNACK_UNACCEPTABLE_PROTOCOL_VERSION
      else if c = 2 then QCLOUD_ERR_MQTT_CONNACK_IDENTIFIER_REJECTED
      else if c = 3 then QCLOUD_ERR_MQTT_CONNACK_SERVER_UNAVAILABLE
      else if c = 4 then QCLOUD_ERR_MQTT_CONNACK_BAD_USERDATA
      else if c = 5 then QCLOUD_ERR_MQTT_CONNACK_NOT_AUTHORIZED
      else QCLOUD_ERR_MQTT_CONNACK_UNKNOWN)"

definition deserialize_connack_packet :: "u8 list \<Rightarrow> nat \<Rightarrow> (int + u8 \<times> int) option" where
  "deserialize_connack_packet buf buflen =
     (if 4 > buflen then Some (Inl QCLOUD_ERR_BUF_TOO_SHORT)
      else do {
        (header, curdata) \<leftarrow> mqtt_read_char buf 0;
        if header_type header \<noteq> msg_code CONNACK then Some (Inl QCLOUD_ERR_FAILURE)
        else do {
          r \<leftarrow> mqtt_read_packet_rem_len_form_buf buf curdata;
          (case r of
             Inl rc \<Rightarrow> Some (Inl rc)
           | Inr (decodedLen, readBytesLen) \<Rightarrow>
               let curdata = curdata + readBytesLen; enddata = curdata + unat decodedLen
               in if int enddata - int curdata \<noteq> 2 then Some (Inl QCLOUD_ERR_FAILURE)
                  else do {
                    (flags, curdata) \<leftarrow> mqtt_read_char buf curdata;
                    (connack_rc_char, curdata) \<leftarrow> mqtt_read_char buf curdata;
                    Some (Inr (flags AND 0x01, connack_code connack_rc_char))
                  })
        }
      })"

end
