(* ===== verification/Mqtt_State.thy ===== *)
theory Mqtt_State
  imports Hal_Linux Mqtt_Packet
begin

text \<open>
  The state of the MQTT client: the structures of \<^verbatim>\<open>sdk_src/internal_inc/mqtt_client.h\<close> and
  \<^verbatim>\<open>include/exports/qcloud_iot_export_mqtt.h\<close>, the way the client reaches its environment (timers,
  memory, random numbers, user callbacks), and the list of unacknowledged requests.

  \<^item> A function pointer of the user is a number, a null pointer is \<open>None\<close>; a call is appended to the
    \<open>trace\<close>. User callbacks are not assumed to call back into the SDK.
  \<^item> The configuration has no threads: the mutex calls have no effect and are left out.
  \<^item> A node of a waiting list is its address and its value; the doubly linked list behind it is the
    subject of the theory of \<^verbatim>\<open>utils_list.c\<close>.
  \<^item> \<^verbatim>\<open>HAL_Malloc\<close> may fail at any call; the environment decides, so the size asked for plays no role.
    Releasing memory has no effect on the values modelled here.
\<close>

section \<open>Structures\<close>

datatype MQTTEventType =
  MQTT_EVENT_UNDEF | MQTT_EVENT_DISCONNECT | MQTT_EVENT_RECONNECT | MQTT_EVENT_SUBCRIBE_SUCCESS
| MQTT_EVENT_SUBCRIBE_TIMEOUT | MQTT_EVENT_SUBCRIBE_NACK | MQTT_EVENT_UNSUBCRIBE_SUCCESS
| MQTT_EVENT_UNSUBCRIBE_TIMEOUT | MQTT_EVENT_UNSUBCRIBE_NACK | MQTT_EVENT_PUBLISH_SUCCESS
| MQTT_EVENT_PUBLISH_TIMEOUT | MQTT_EVENT_PUBLISH_NACK | MQTT_EVENT_PUBLISH_RECVEIVED
| MQTT_EVENT_CLIENT_DESTROY | MQTT_EVENT_UNSUBSCRIBE

text \<open>
  A received message: \<open>msg_payload\<close> points into \<open>msg_buf\<close>, the receive buffer at the time of the call.
  \<^verbatim>\<open>id\<close> is unassigned (\<open>None\<close>) at QoS 0.
\<close>

record MQTTMessage =
  msg_qos :: nat
  msg_retained :: u8
  msg_dup :: u8
  msg_id :: "u16 option"
  msg_topic :: "u8 list"
  msg_topic_len :: nat
  msg_buf :: "u8 list"
  msg_payload :: nat
  msg_payload_len :: u64

record PublishParams =
  pp_qos :: nat
  pp_retained :: u8
  pp_id :: u16
  pp_payload :: "u8 list option"

record SubscribeParams =
  sp_qos :: nat
  on_message_handler :: "nat option"
  on_sub_event_handler :: "nat option"
  user_data :: nat

datatype event_arg = NoArg | PacketId u16 | Message MQTTMessage

record MQTTEventHandler =
  h_fp :: "nat option"
  h_context :: nat

record SubTopicHandle =
  topic_filter :: "cstring option"
  message_handler :: "nat option"
  sub_event_handler :: "nat option"
  handler_user_data :: nat
  sh_qos :: nat

definition null_handle :: SubTopicHandle where
  "null_handle = \<lparr>topic_filter = None, message_handler = None, sub_event_handler = None,
                  handler_user_data = 0, sh_qos = 0\<rparr>"

record MQTTConnectParams =
  client_id :: "cstring option"
  conn_id :: cstring
  mqtt_version :: u8
  keep_alive_interval :: u16
  clean_session :: u8
  auto_connect_enable :: u8
  device_secret :: "u8 list option"

datatype MQTTNodeState = MQTT_NODE_STATE_NORMANL | MQTT_NODE_STATE_INVALID

record QcloudIotPubInfo =
  pub_start_time :: Timer
  pub_node_state :: MQTTNodeState
  pub_msg_id :: u16
  pub_buf :: "u8 list"

record QcloudIotSubInfo =
  sub_type :: MessageTypes
  sub_msg_id :: u16
  sub_start_time :: Timer
  sub_node_state :: MQTTNodeState
  sub_handler :: SubTopicHandle
  sub_buf :: "u8 list"

record DeviceInfo =
  product_id :: cstring
  device_name :: cstring
  di_client_id :: cstring

text \<open>The client. \<^verbatim>\<open>is_connected\<close> and \<^verbatim>\<open>was_manually_disconnected\<close> only ever hold 0 or 1.\<close>

record 'w Qcloud_IoT_Client =
  is_connected :: bool
  was_manually_disconnected :: bool
  is_ping_outstanding :: u8
  next_packet_id :: u16
  command_timeout_ms :: nat
  current_reconnect_wait_interval :: u32
  counter_network_disconnected :: u32
  write_buf_size :: nat
  read_buf_size :: nat
  write_buf :: "u8 list"
  read_buf :: "u8 list"
  list_pub_wait_ack :: "(nat \<times> QcloudIotPubInfo) list"
  list_sub_wait_ack :: "(nat \<times> QcloudIotSubInfo) list"
  event_handle :: MQTTEventHandler
  options :: MQTTConnectParams
  network_stack :: "'w Network"
  ping_timer :: Timer
  reconnect_delay_timer :: Timer
  device_info :: DeviceInfo
  sub_handles :: "SubTopicHandle list"
  host_addr :: cstring
  psk_decode :: "u8 list"
  repeat_packet_id_buf :: "u16 list"
  current_packet_id_cnt :: nat

datatype callback =
  EventCb nat nat MQTTEventType event_arg
| MessageCb nat MQTTMessage nat
| SubEventCb nat MQTTEventType nat

text \<open>The client together with the outside world and the callbacks made so far, the latest last.\<close>

record 'w client = "'w Qcloud_IoT_Client" +
  world :: 'w
  trace :: "callback list"

abbreviation (input) MAX_MESSAGE_HANDLERS :: nat where "MAX_MESSAGE_HANDLERS \<equiv> 10"
abbreviation (input) MAX_REPUB_NUM :: nat where "MAX_REPUB_NUM \<equiv> 20"
abbreviation (input) MQTT_MAX_REPEAT_BUF_LEN :: nat where "MQTT_MAX_REPEAT_BUF_LEN \<equiv> 10"
abbreviation (input) MAX_PACKET_ID :: u16 where "MAX_PACKET_ID \<equiv> 65535"

section \<open>Reaching the environment\<close>

definition expired :: "'w os \<Rightarrow> Timer \<Rightarrow> 'w client \<Rightarrow> bool \<times> 'w client" where
  "expired os timer c = (let (b, w) = HAL_Timer_expired os timer (world c) in (b, c\<lparr>world := w\<rparr>))"

definition countdown_ms :: "'w os \<Rightarrow> Timer \<Rightarrow> nat \<Rightarrow> 'w client \<Rightarrow> Timer \<times> 'w client" where
  "countdown_ms os timer t c = (let (timer, w) = HAL_Timer_countdown_ms os timer t (world c) in (timer, c\<lparr>world := w\<rparr>))"

definition countdown :: "'w os \<Rightarrow> Timer \<Rightarrow> nat \<Rightarrow> 'w client \<Rightarrow> Timer \<times> 'w client" where
  "countdown os timer t c = (let (timer, w) = HAL_Timer_countdown os timer t (world c) in (timer, c\<lparr>world := w\<rparr>))"

definition left_ms :: "'w os \<Rightarrow> Timer \<Rightarrow> 'w client \<Rightarrow> int \<times> 'w client" where
  "left_ms os timer c = (let (t, w) = HAL_Timer_remain os timer (world c) in (t, c\<lparr>world := w\<rparr>))"

definition InitTimer :: Timer where
  "InitTimer = HAL_Timer_init"

definition HAL_Malloc :: "'w os \<Rightarrow> 'w client \<Rightarrow> nat option \<times> 'w client" where
  "HAL_Malloc os c = (let (p, w) = os_malloc os (world c) in (p, c\<lparr>world := w\<rparr>))"

definition HAL_rand :: "'w os \<Rightarrow> 'w client \<Rightarrow> nat \<times> 'w client" where
  "HAL_rand os c = (let (r, w) = os_rand os (world c) in (r, c\<lparr>world := w\<rparr>))"

text \<open>\<^verbatim>\<open>srand((unsigned)HAL_GetTimeMs())\<close>\<close>

definition srand_time :: "'w os \<Rightarrow> 'w client \<Rightarrow> 'w client" where
  "srand_time os c = (let (t, w) = HAL_GetTimeMs os (world c) in c\<lparr>world := os_srand os t w\<rparr>)"

text \<open>The calls through the function pointers of \<^verbatim>\<open>network_stack\<close>.\<close>

definition net_connect :: "'w client \<Rightarrow> int \<times> 'w client" where
  "net_connect c =
     (let net = network_stack c; ((rc, h), w) = nw_connect net (nw_host net) (nw_port net) (world c)
      in (rc, c\<lparr>network_stack := net\<lparr>nw_handle := h\<rparr>, world := w\<rparr>))"

definition net_read :: "nat \<Rightarrow> nat \<Rightarrow> 'w client \<Rightarrow> (int \<times> u8 list \<times> 'w client) option" where
  "net_read n t c = do {
     (rc, bs, w) \<leftarrow> nw_read (network_stack c) (nw_handle (network_stack c)) n t (world c);
     Some (rc, bs, c\<lparr>world := w\<rparr>)
   }"

definition net_write :: "u8 list \<Rightarrow> nat \<Rightarrow> 'w client \<Rightarrow> (int \<times> nat \<times> 'w client) option" where
  "net_write d t c = do {
     (rc, n, w) \<leftarrow> nw_write (network_stack c) (nw_handle (network_stack c)) d t (world c);
     Some (rc, n, c\<lparr>world := w\<rparr>)
   }"

definition net_disconnect :: "'w client \<Rightarrow> 'w client" where
  "net_disconnect c =
     (let net = network_stack c; (h, w) = nw_disconnect net (nw_handle net) (world c)
      in c\<lparr>network_stack := net\<lparr>nw_handle := h\<rparr>, world := w\<rparr>)"

text \<open>Callbacks into the application.\<close>

definition call :: "callback \<Rightarrow> 'w client \<Rightarrow> 'w client" where
  "call cb c = c\<lparr>trace := trace c @ [cb]\<rparr>"

text \<open>\<^verbatim>\<open>if (NULL != pClient->event_handle.h_fp) ... h_fp(pClient, context, &msg)\<close>\<close>

definition notify_event :: "MQTTEventType \<Rightarrow> event_arg \<Rightarrow> 'w client \<Rightarrow> 'w client" where
  "notify_event ev arg c =
     (case h_fp (event_handle c) of
        None \<Rightarrow> c
      | Some f \<Rightarrow> call (EventCb f (h_context (event_handle c)) ev arg) c)"

text \<open>\<^verbatim>\<open>if (NULL != h.sub_event_handler) h.sub_event_handler(pClient, ev, h.handler_user_data)\<close>\<close>

definition notify_subscriber :: "SubTopicHandle \<Rightarrow> MQTTEventType \<Rightarrow> 'w client \<Rightarrow> 'w client" where
  "notify_subscriber h ev c =
     (case sub_event_handler h of
        None \<Rightarrow> c
      | Some f \<Rightarrow> call (SubEventCb f ev (handler_user_data h)) c)"

section \<open>Waiting lists\<close>

text \<open>
  \<^verbatim>\<open>qcloud_list_rpush\<close>, \<^verbatim>\<open>qcloud_list_remove\<close> and an iteration from the tail, on the sequence of
  nodes. \<^verbatim>\<open>qcloud_list_iterator_new\<close> and \<^verbatim>\<open>list_node_new\<close> allocate.
\<close>

definition nodes_rpush :: "(nat \<times> 'a) list \<Rightarrow> nat \<Rightarrow> 'a \<Rightarrow> (nat \<times> 'a) list" where
  "nodes_rpush l a v = l @ [(a, v)]"

definition nodes_remove :: "(nat \<times> 'a) list \<Rightarrow> nat \<Rightarrow> (nat \<times> 'a) list" where
  "nodes_remove l a = filter (\<lambda>n. fst n \<noteq> a) l"

section \<open>Small operations\<close>

definition check_handle_is_identical :: "SubTopicHandle \<Rightarrow> SubTopicHandle \<Rightarrow> bool" where
  "check_handle_is_identical h1 h2 \<longleftrightarrow>
     topic_filter h1 = topic_filter h2 \<and> message_handler h1 = message_handler h2 \<and>
     sub_event_handler h1 = sub_event_handler h2"

definition get_next_packet_id :: "'w client \<Rightarrow> u16 \<times> 'w client" where
  "get_next_packet_id c =
     (let i = (if next_packet_id c = MAX_PACKET_ID then 1 else next_packet_id c + 1)
      in (i, c\<lparr>next_packet_id := i\<rparr>))"

definition set_client_conn_state :: "bool \<Rightarrow> 'w client \<Rightarrow> 'w client" where
  "set_client_conn_state connected c = c\<lparr>is_connected := connected\<rparr>"

definition get_client_conn_state :: "'w client \<Rightarrow> bool" where
  "get_client_conn_state c = is_connected c"

text \<open>One character of a connection id, then all five of them.\<close>

definition conn_id_char :: "'w os \<Rightarrow> 'w client \<Rightarrow> u8 \<times> 'w client" where
  "conn_id_char os c =
     (let (r, c) = HAL_rand os c; flag = r mod 3; (r, c) = HAL_rand os c
      in (if flag = 0 then of_nat (r mod 26) + 97
          else if flag = 1 then of_nat (r mod 26) + 65
          else of_nat (r mod 10) + 48, c))"

primrec conn_id_chars :: "'w os \<Rightarrow> nat \<Rightarrow> 'w client \<Rightarrow> cstring \<times> 'w client" where
  "conn_id_chars os 0 c = ([], c)"
| "conn_id_chars os (Suc n) c =
     (let (x, c) = conn_id_char os c; (xs, c) = conn_id_chars os n c in (x # xs, c))"

definition get_next_conn_id :: "'w os \<Rightarrow> 'w client \<Rightarrow> cstring \<times> 'w client" where
  "get_next_conn_id os c = conn_id_chars os 5 (srand_time os c)"

end
