(* ===== verification/Mqtt_Topic.thy ===== *)
theory Mqtt_Topic
  imports Prelude
begin

text \<open>
  Topic matching: \<^verbatim>\<open>_is_topic_equals\<close> and \<^verbatim>\<open>_is_topic_matched\<close> of
  \<^verbatim>\<open>sdk_src/protocol/mqtt/mqtt_client_common.c\<close>, against the matching rules of MQTT 3.1.1 (section
  4.7) stated on topic levels. The C code never misses a matching topic; it is exact for filters
  without \<open>#\<close> on topics that do not end in a separator; and it accepts some topics it should not.
\<close>

section \<open>The code\<close>

abbreviation (input) SLASH :: u8 where "SLASH \<equiv> 47"
abbreviation (input) PLUS :: u8 where "PLUS \<equiv> 43"
abbreviation (input) HASH :: u8 where "HASH \<equiv> 35"

text \<open>\<^verbatim>\<open>fix_topic\<close> is an array: without a zero in it \<^verbatim>\<open>strlen\<close> leaves it.\<close>

definition is_topic_equals :: "cstring \<Rightarrow> u8 list \<Rightarrow> bool option" where
  "is_topic_equals topic_filter topicName = do {
     name \<leftarrow> c_string topicName;
     Some (length topic_filter = length name \<and> topic_filter = name)
   }"

text \<open>The inner loop at \<open>+\<close>: the last position before the next separator or the end.\<close>

function skip_level :: "u8 list \<Rightarrow> nat \<Rightarrow> nat" where
  "skip_level topicName curn =
     (if curn + 1 < length topicName \<and> topicName ! (curn + 1) \<noteq> SLASH
      then skip_level topicName (curn + 1) else curn)"
  by pat_completeness auto
termination by (relation "measure (\<lambda>(n, i). length n - i)") auto

declare skip_level.simps [simp del]

text \<open>
  The main loop. \<^verbatim>\<open>curf\<close> is the rest of the filter, \<^verbatim>\<open>curn\<close> an offset into the topic name, whose
  length is \<^verbatim>\<open>topicNameLen\<close>. The result holds both pointers where the loop is left.
\<close>

fun topic_match_loop :: "cstring \<Rightarrow> u8 list \<Rightarrow> nat \<Rightarrow> cstring \<times> nat" where
  "topic_match_loop [] topicName curn = ([], curn)"
| "topic_match_loop (f # fs) topicName curn =
     (if curn < length topicName
      then if f = PLUS \<and> topicName ! curn = SLASH then topic_match_loop fs topicName curn
           else if topicName ! curn = SLASH \<and> f \<noteq> SLASH then (f # fs, curn)
           else if f \<noteq> PLUS \<and> f \<noteq> HASH \<and> f \<noteq> topicName ! curn then (f # fs, curn)
           else let curn = (if f = PLUS then skip_level topicName curn
                            else if f = HASH then length topicName - 1 else curn)
                in topic_match_loop fs topicName (curn + 1)
      else (f # fs, curn))"

text \<open>The final test reads \<^verbatim>\<open>*(curf + 1)\<close>, the filter's terminating zero at the latest, and \<^verbatim>\<open>*(curn - 1)\<close>.\<close>

definition is_topic_matched :: "cstring \<Rightarrow> u8 list \<Rightarrow> bool option" where
  "is_topic_matched topic_filter topicName =
     (case topic_match_loop topic_filter topicName 0 of
        ([], curn) \<Rightarrow> Some (curn = length topicName)
      | (f # fs, curn) \<Rightarrow>
          if f = HASH then Some True
          else if fs \<noteq> [] \<and> hd fs = HASH then Some True
          else if f = PLUS
          then (if curn = 0 then None else do { c \<leftarrow> buf_get topicName (curn - 1); Some (c = SLASH) })
          else Some False)"

section \<open>The specification\<close>

text \<open>Topics and filters are sequences of levels joined by separators.\<close>

fun join_levels :: "cstring list \<Rightarrow> cstring" where
  "join_levels [] = []"
| "join_levels [l] = l"
| "join_levels (l # ls) = l @ SLASH # join_levels ls"

fun level_match :: "cstring list \<Rightarrow> cstring list \<Rightarrow> bool" where
  "level_match [] [] = True"
| "level_match [] (n # ns) = False"
| "level_match (f # fs) [] = (f = [HASH] \<and> fs = [])"
| "level_match (f # fs) (n # ns) =
     (if f = [HASH] \<and> fs = [] then True else (f = [PLUS] \<or> f = n) \<and> level_match fs ns)"

definition plain_level :: "cstring \<Rightarrow> bool" where
  "plain_level l \<longleftrightarrow> SLASH \<notin> set l \<and> PLUS \<notin> set l \<and> HASH \<notin> set l"

fun filter_levels :: "cstring list \<Rightarrow> bool" where
  "filter_levels [] = False"
| "filter_levels [l] = (plain_level l \<or> l = [PLUS] \<or> l = [HASH])"
| "filter_levels (l # ls) = ((plain_level l \<or> l = [PLUS]) \<and> filter_levels ls)"

definition name_levels :: "cstring list \<Rightarrow> bool" where
  "name_levels ns \<longleftrightarrow> ns \<noteq> [] \<and> (\<forall>n \<in> set ns. plain_level n)"

section \<open>The loop over suffixes\<close>

text \<open>
  The same computation on the rest \<open>s\<close> of the topic name; \<open>p\<close> is the character before it, if any.
\<close>

definition match_end :: "u8 \<Rightarrow> cstring \<Rightarrow> u8 option \<Rightarrow> bool option" where
  "match_end f fs p =
     (if f = HASH \<or> (fs \<noteq> [] \<and> hd fs = HASH) then Some True
      else if f = PLUS then map_option (\<lambda>c. c = SLASH) p else Some False)"

fun match_suffix :: "cstring \<Rightarrow> u8 list \<Rightarrow> u8 option \<Rightarrow> bool option" where
  "match_suffix [] s p = Some (s = [])"
| "match_suffix (f # fs) [] p = match_end f fs p"
| "match_suffix (f # fs) (x # xs) p =
     (if f = PLUS \<and> x = SLASH then match_suffix fs (x # xs) p
      else if x = SLASH \<and> f \<noteq> SLASH then match_end f fs p
      else if f \<noteq> PLUS \<and> f \<noteq> HASH \<and> f \<noteq> x then match_end f fs p
      else if f = PLUS
      then match_suffix fs (dropWhile (\<lambda>c. c \<noteq> SLASH) xs) (Some (last (x # takeWhile (\<lambda>c. c \<noteq> SLASH) xs)))
      else if f = HASH then match_suffix fs [] (Some (last (x # xs)))
      else match_suffix fs xs (Some x))"

definition prev_char :: "u8 list \<Rightarrow> nat \<Rightarrow> u8 option" where
  "prev_char s i = (if i = 0 then None else buf_get s (i - 1))"

lemma skip_level_suffix:
  "i < length s \<Longrightarrow>
   drop (skip_level s i + 1) s = dropWhile (\<lambda>c. c \<noteq> SLASH) (drop (i + 1) s) \<and>
   skip_level s i < length s \<and>
   s ! skip_level s i = last (s ! i # takeWhile (\<lambda>c. c \<noteq> SLASH) (drop (i + 1) s))"
proof (induction s i rule: skip_level.induct)
  case (1 s i)
  show ?case
  proof (cases "i + 1 < length s \<and> s ! (i + 1) \<noteq> SLASH")
    case True
    then have d: "drop (Suc i) s = s ! Suc i # drop (Suc (Suc i)) s"
      by (simp add: Cons_nth_drop_Suc)
    from 1(1) [OF True] True d show ?thesis
      by (subst (1 2 3) skip_level.simps) simp
  next
    case False
    then have "drop (Suc i) s = [] \<or> (\<exists>ys. drop (Suc i) s = SLASH # ys)"
      by (cases "Suc i < length s") (auto simp: Cons_nth_drop_Suc [symmetric])
    with False 1(2) show ?thesis
      by (subst (1 2 3) skip_level.simps) auto
  qed
qed

lemma prev_char_Suc: "i < length s \<Longrightarrow> prev_char s (Suc i) = Some (s ! i)"
  by (simp add: prev_char_def buf_get_def)

lemma match_loop_suffix:
  "i \<le> length s \<Longrightarrow>
   (case topic_match_loop f s i of ([], j) \<Rightarrow> Some (j = length s)
    | (g # gs, j) \<Rightarrow> match_end g gs (prev_char s j)) = match_suffix f (drop i s) (prev_char s i)"
proof (induction f arbitrary: i)
  case (Cons g gs)
  show ?case
  proof (cases "i < length s")
    case True
    then have d: "drop i s = s ! i # drop (Suc i) s" by (simp add: Cons_nth_drop_Suc)
    note sk = skip_level_suffix [OF True]
    have last: "last (s ! i # drop (Suc i) s) = s ! (length s - 1)"
      using True by (metis d last_conv_nth last_drop length_greater_0_conv list.size(3) not_less0)
    consider "g = PLUS" "s ! i \<noteq> SLASH" | "g = HASH" "s ! i \<noteq> SLASH" | "g = PLUS" "s ! i = SLASH"
      | "g \<noteq> PLUS" "g \<noteq> HASH" | "g = HASH" "s ! i = SLASH" by blast
    then show ?thesis
    proof cases
      case 1
      with True sk Cons.IH [of "Suc (skip_level s i)"] show ?thesis
        by (simp add: d prev_char_Suc)
    next
      case 2
      from True have e: "Suc (length s - Suc 0) = length s" by simp
      from True prev_char_Suc [of "length s - 1" s]
      have "prev_char s (length s) = Some (s ! (length s - 1))" by (simp add: e)
      with 2 True last Cons.IH [of "length s"] show ?thesis
        by (simp add: d e)
    next
      case 3
      with True Cons.IH [of i] show ?thesis by (simp add: d)
    next
      case 4
      with True Cons.IH [of "Suc i"] show ?thesis by (auto simp: d prev_char_Suc)
    qed (simp add: d True)
  qed (use Cons.prems in simp)
qed auto

lemma is_topic_matched_suffix: "is_topic_matched f s = match_suffix f s None"
proof -
  obtain g j where l: "topic_match_loop f s 0 = (g, j)" by (cases "topic_match_loop f s 0")
  have last: "buf_get s i \<bind> (\<lambda>c. Some (c = SLASH)) = map_option (\<lambda>c. c = SLASH) (buf_get s i)" for i
    by (simp add: buf_get_def)
  show ?thesis
    using match_loop_suffix [of 0 s f] l
    by (cases g) (auto simp: is_topic_matched_def match_end_def prev_char_def last)
qed

section \<open>Level by level\<close>

lemma match_plain:
  "plain_level l \<Longrightarrow> match_suffix (l @ fs) (l @ s) p = match_suffix fs s (if l = [] then p else Some (last l))"
  by (induction l arbitrary: p) (auto simp: plain_level_def)

lemma plain_takeWhile: "plain_level l \<Longrightarrow> takeWhile (\<lambda>c. c \<noteq> SLASH) l = l \<and> dropWhile (\<lambda>c. c \<noteq> SLASH) l = []"
  by (induction l) (auto simp: plain_level_def)

lemma plain_dropWhile:
  "plain_level l \<Longrightarrow> dropWhile (\<lambda>c. c \<noteq> SLASH) (l @ SLASH # s) = SLASH # s"
  by (induction l) (auto simp: plain_level_def)

lemma plain_Cons: "plain_level (c # l) \<longleftrightarrow> c \<noteq> SLASH \<and> c \<noteq> PLUS \<and> c \<noteq> HASH \<and> plain_level l"
  by (auto simp: plain_level_def)

lemma match_plus_last:
  "plain_level n \<Longrightarrow> n \<noteq> [] \<or> p = Some SLASH \<Longrightarrow> match_suffix [PLUS] n p = Some True"
  by (cases n) (auto simp: match_end_def plain_Cons plain_takeWhile)

text \<open>One level and the separator behind it.\<close>

lemma match_level_sep:
  assumes "plain_level l \<and> l = n \<or> l = [PLUS]" and "plain_level n"
  shows "match_suffix (l @ SLASH # fs) (n @ SLASH # s) p = match_suffix fs s (Some SLASH)"
proof (cases "l = [PLUS]")
  case True
  with assms(2) show ?thesis
    by (cases n) (auto simp: plain_Cons plain_dropWhile)
next
  case False
  with assms show ?thesis by (auto simp: match_plain)
qed

lemma join_levels_Cons: "ls \<noteq> [] \<Longrightarrow> join_levels (l # ls) = l @ SLASH # join_levels ls"
  by (cases ls) simp_all

lemma filter_levels_Cons:
  "ls \<noteq> [] \<Longrightarrow> filter_levels (l # ls) \<longleftrightarrow> (plain_level l \<or> l = [PLUS]) \<and> filter_levels ls"
  by (cases ls) simp_all

lemma name_levels_Cons: "name_levels (n # ns) \<longleftrightarrow> plain_level n \<and> (ns = [] \<or> name_levels ns)"
  by (auto simp: name_levels_def)

lemma match_hash: "match_suffix [HASH] s p = Some True"
  by (cases s) (auto simp: match_end_def)

lemma level_match_complete:
  "filter_levels fs \<Longrightarrow> name_levels ns \<Longrightarrow> join_levels ns \<noteq> [] \<or> p = Some SLASH \<Longrightarrow>
   level_match fs ns \<Longrightarrow> match_suffix (join_levels fs) (join_levels ns) p = Some True"
proof (induction fs ns arbitrary: p rule: level_match.induct)
  case (4 f fs n ns)
  show ?case
  proof (cases "f = [HASH] \<and> fs = []")
    case True
    then show ?thesis by (simp add: match_hash)
  next
    case nohash: False
    with 4 have m: "f = [PLUS] \<or> f = n" "level_match fs ns" by auto
    from 4(3) have n: "plain_level n" "ns = [] \<or> name_levels ns" by (simp_all add: name_levels_Cons)
    consider "fs = []" | "fs \<noteq> []" "ns = []" | "fs \<noteq> []" "ns \<noteq> []" by blast
    then show ?thesis
    proof cases
      case 1
      with m have "ns = []" by (cases ns) auto
      with 1 4(4) m n match_plus_last [of n p] match_plain [of n "[]" "[]" p] show ?thesis by auto
    next
      case 2
      with m(2) have fs: "fs = [[HASH]]" by (cases fs) auto
      with 2 4(4) m(1) n(1) match_plain [of n "[SLASH, HASH]" "[]" p] show ?thesis
        by (cases n) (auto simp: match_end_def plain_Cons plain_takeWhile)
    next
      case 3
      with 4(2) have f: "plain_level f \<or> f = [PLUS]" "filter_levels fs" by (simp_all add: filter_levels_Cons)
      from 3 4(1) [OF nohash f(2)] n m(2)
      have "match_suffix (join_levels fs) (join_levels ns) (Some SLASH) = Some True" by simp
      moreover have "plain_level f \<and> f = n \<or> f = [PLUS]" using m(1) n(1) by auto
      ultimately show ?thesis using 3 n(1) by (simp add: join_levels_Cons match_level_sep)
    qed
  qed
qed (auto simp: name_levels_def)

text \<open>A plain level that differs from the name's level stops the loop with a mismatch.\<close>

lemma match_plain_differ:
  assumes "plain_level l" and "plain_level n" and "l \<noteq> n"
    and "fs = [] \<or> (\<exists>r. fs = SLASH # r \<and> (r = [] \<or> hd r \<noteq> HASH))" and "s = [] \<or> (\<exists>r. s = SLASH # r)"
  shows "match_suffix (l @ fs) (n @ s) p = Some False"
  using assms(1-3)
proof (induction l arbitrary: n p)
  case Nil
  then obtain x xs where n: "n = x # xs" by (cases n) auto
  with Nil assms(4) show ?case by (auto simp: plain_Cons match_end_def)
next
  case (Cons c cs)
  have c: "match_end c (cs @ fs) p = Some False"
    using Cons.prems(1) assms(4) by (cases cs) (auto simp: plain_Cons match_end_def)
  show ?case
  proof (cases n)
    case Nil
    with Cons.prems(1) assms(5) c show ?thesis by (auto simp: plain_Cons)
  next
    case (Cons x xs)
    with Cons.prems Cons.IH [of xs] c show ?thesis by (auto simp: plain_Cons)
  qed
qed

lemma hd_join_levels:
  "filter_levels fs \<Longrightarrow> [HASH] \<notin> set fs \<Longrightarrow> join_levels fs = [] \<or> hd (join_levels fs) \<noteq> HASH"
  by (cases fs rule: join_levels.cases) (auto simp: plain_level_def hd_append dest: hd_in_set)

lemma level_match_exact:
  "filter_levels fs \<Longrightarrow> [HASH] \<notin> set fs \<Longrightarrow> name_levels ns \<Longrightarrow> last ns \<noteq> [] \<Longrightarrow>
   match_suffix (join_levels fs) (join_levels ns) p = Some (level_match fs ns)"
proof (induction fs ns arbitrary: p rule: level_match.induct)
  case (4 f fs n ns)
  from 4(4) have n: "plain_level n" "ns = [] \<or> name_levels ns" by (simp_all add: name_levels_Cons)
  from 4(2,3) have f: "plain_level f \<or> f = [PLUS]" "fs = [] \<or> filter_levels fs"
    by (cases fs; simp)+
  from 4(3) have nohash: "\<not> (f = [HASH] \<and> fs = [])" "[HASH] \<notin> set fs" by auto
  define r where "r = (if fs = [] then [] else SLASH # join_levels fs)"
  define s where "s = (if ns = [] then [] else SLASH # join_levels ns)"
  have jf: "join_levels (f # fs) = f @ r" and jn: "join_levels (n # ns) = n @ s"
    by (simp_all add: r_def s_def join_levels_Cons)
  show ?case
  proof (cases "f = [PLUS] \<or> f = n")
    case False
    have "r = [] \<or> (\<exists>q. r = SLASH # q \<and> (q = [] \<or> hd q \<noteq> HASH))"
      using f(2) nohash(2) hd_join_levels [of fs] by (auto simp: r_def)
    with False f(1) n(1) have "match_suffix (f @ r) (n @ s) p = Some False"
      by (intro match_plain_differ) (auto simp: s_def)
    with False nohash show ?thesis by (simp add: jf jn)
  next
    case True
    then have hit: "plain_level f \<and> f = n \<or> f = [PLUS]" using f(1) n(1) by auto
    have sub: "match_suffix (join_levels fs) (join_levels ns) (Some SLASH) = Some (level_match fs ns)"
      if "fs \<noteq> []" and "ns \<noteq> []"
      using that 4(1) [OF nohash(1)] f(2) n(2) nohash(2) 4(5) by auto
    have ne: "ns = [] \<Longrightarrow> n \<noteq> []" using 4(5) by auto
    have nil: "match_suffix r [] q = Some (fs = [])" for q
      using f(2) nohash(2) hd_join_levels [of fs] by (auto simp: r_def match_end_def)
    have one: "match_suffix (f @ r) n p = Some (fs = [])" if "ns = []"
      using hit ne [OF that] n(1) nil match_plain [of n r "[]" p]
      by (cases n) (auto simp: plain_Cons plain_takeWhile)
    have lm: "level_match fs ns \<longleftrightarrow> fs = []" if "ns = []"
      using that nohash(2) by (cases fs) auto
    have stop: "match_suffix f (n @ SLASH # join_levels ns) p = Some False"
      using hit n(1) match_plain [of n "[]" "SLASH # join_levels ns" p]
      by (cases n) (auto simp: plain_Cons plain_dropWhile)
    from True nohash have goal: "level_match (f # fs) (n # ns) = level_match fs ns" by auto
    consider "ns = []" | "ns \<noteq> []" "fs = []" | "ns \<noteq> []" "fs \<noteq> []" by blast
    then show ?thesis
    proof cases
      case 1
      with one lm show ?thesis unfolding jf jn goal by (simp add: s_def)
    next
      case 2
      with stop show ?thesis unfolding jf jn goal by (cases ns) (simp_all add: s_def r_def)
    next
      case 3
      with sub hit n(1) show ?thesis unfolding jf jn goal by (simp add: s_def r_def match_level_sep)
    qed
  qed
qed (auto simp: name_levels_def)

section \<open>Properties\<close>

text \<open>
  The matcher never misses: if a topic name matches a filter by the rules of MQTT 3.1.1, level by
  level, then \<^verbatim>\<open>_is_topic_matched\<close> accepts it.
\<close>

lemma topic_match_complete:
  assumes "filter_levels fs" and "name_levels ns" and "join_levels ns \<noteq> []" and "level_match fs ns"
  shows "is_topic_matched (join_levels fs) (join_levels ns) = Some True"
  using level_match_complete [OF assms(1,2) _ assms(4)] assms(3) by (simp add: is_topic_matched_suffix)

text \<open>
  C31: For a filter without \<open>#\<close>, and a topic name whose last level is not empty, the matcher decides
  exactly the level-by-level rules of MQTT 3.1.1.
\<close>

theorem topic_match_exact:
  assumes "filter_levels fs" and "[HASH] \<notin> set fs" and "name_levels ns" and "last ns \<noteq> []"
  shows "is_topic_matched (join_levels fs) (join_levels ns) = Some (level_match fs ns)"
  using level_match_exact [OF assms] by (simp add: is_topic_matched_suffix)

theorem topic_match_exact_witness:
  "is_topic_matched (cstr ''a/+/c'') (cstr ''a/b/d'') = Some False"
  using topic_match_exact [of "[cstr ''a'', cstr ''+'', cstr ''c'']" "[cstr ''a'', cstr ''b'', cstr ''d'']"]
  by (simp add: cstr_def plain_level_def name_levels_def)

text \<open>
  Outside that class the matcher accepts names it should not: with a \<open>#\<close> at the end of the
  filter it accepts a longer last level (\<open>x/#\<close> accepts \<open>xy\<close>), with \<open>+\<close> in the filter it accepts a
  name that stops at a separator (\<open>a/+/b\<close> accepts \<open>a/\<close>), and for the filter \<open>+\<close> and an empty name it
  reads the byte before the name.
\<close>

lemma topic_match_too_wide:
  "is_topic_matched (join_levels [[120], [HASH]]) (join_levels [[120, 121]]) = Some True \<and>
   \<not> level_match [[120], [HASH]] [[120, 121]] \<and>
   is_topic_matched (join_levels [[97], [PLUS], [98]]) (join_levels [[97], []]) = Some True \<and>
   \<not> level_match [[97], [PLUS], [98]] [[97], []] \<and>
   is_topic_matched [PLUS] [] = None"
  by (simp add: is_topic_matched_def buf_get_def)

end
