(* ===== verification/Mqtt_Client.thy ===== *)
theory Mqtt_Client
  imports Mqtt_State Mqtt_Topic
begin

text \<open>
  The packet engine of \<^verbatim>\<open>sdk_src/protocol/mqtt/mqtt_client_common.c\<close>: sending a packet, reading one
  from the network, delivering messages, the handlers of the acknowledgements, duplicate
  suppression, and the two read loops \<^verbatim>\<open>cycle_for_read\<close> and \<^verbatim>\<open>wait_for_read\<close>.

  A function returns its C result and the new state, inside an option whose \<open>None\<close> stands for
  no defined result. A \<^verbatim>\<open>Timer *\<close> argument is passed in and returned.
\<close>

section \<open>Sending\<close>

text \<open>
  The loop of \<^verbatim>\<open>send_mqtt_packet\<close>: each round offers \<open>len\<close> bytes from position \<open>sent\<close> on to the
  network. The result is \<^verbatim>\<open>rc\<close> and \<^verbatim>\<open>sent\<close> where the loop is left.
\<close>

partial_function (option) send_loop ::
  "'w os \<Rightarrow> nat \<Rightarrow> Timer \<Rightarrow> nat \<Rightarrow> int \<Rightarrow> 'w client \<Rightarrow> (int \<times> nat \<times> 'w client) option" where
  "send_loop os len timer sent rc c =
     (if sent < len
      then let (e, c) = expired os timer c
           in if e then Some (rc, sent, c)
              else let (t, c) = left_ms os timer c
                   in do {
                     d \<leftarrow> buf_read (write_buf c) sent len;
                     (rc, sentLen, c) \<leftarrow> net_write d (nat t) c;
                     if rc \<noteq> QCLOUD_RET_SUCCESS then Some (rc, sent, c)
                     else send_loop os len timer (sent + sentLen) rc c
                   }
      else Some (rc, sent, c))"

definition send_mqtt_packet :: "'w os \<Rightarrow> nat \<Rightarrow> Timer \<Rightarrow> 'w client \<Rightarrow> (int \<times> 'w client) option" where
  "send_mqtt_packet os len timer c =
     (if len \<ge> write_buf_size c then Some (QCLOUD_ERR_BUF_TOO_SHORT, c)
      else do {
        (rc, sent, c) \<leftarrow> send_loop os len timer 0 QCLOUD_ERR_FAILURE c;
        Some (if sent = len then QCLOUD_RET_SUCCESS else rc, c)
      })"

section \<open>Reading a packet\<close>

text \<open>The timeout of a read: what the timer has left, at least one millisecond.\<close>

definition wait_ms :: "'w os \<Rightarrow> Timer \<Rightarrow> 'w client \<Rightarrow> nat \<times> 'w client" where
  "wait_ms os timer c = (let (t, c) = left_ms os timer c in (if t \<le> 0 then 1 else nat t, c))"

definition wait_rest_ms :: "'w os \<Rightarrow> Timer \<Rightarrow> 'w client \<Rightarrow> nat \<times> 'w client" where
  "wait_rest_ms os timer c = (let (t, c) = wait_ms os timer c in (t + 2000, c))"

text \<open>\<^verbatim>\<open>_decode_packet_rem_len_with_net_read\<close>; \<open>len\<close> counts the bytes read so far.\<close>

function decode_packet_rem_len_with_net_read ::
  "nat \<Rightarrow> u32 \<Rightarrow> u32 \<Rightarrow> nat \<Rightarrow> 'w client \<Rightarrow> ((int + u32) \<times> 'w client) option" where
  "decode_packet_rem_len_with_net_read timeout value multiplier len c =
     (if len + 1 > MAX_NO_OF_REMAINING_LENGTH_BYTES then Some (Inl QCLOUD_ERR_MQTT_PACKET_READ, c)
      else do {
        (rc, bs, c) \<leftarrow> net_read 1 timeout c;
        if rc \<noteq> QCLOUD_RET_SUCCESS then Some (Inl QCLOUD_ERR_FAILURE, c)
        else do {
          i \<leftarrow> buf_get bs 0;
          let value = value + ucast (i AND 127) * multiplier;
          if i AND 128 \<noteq> 0
          then decode_packet_rem_len_with_net_read timeout value (multiplier * 128) (len + 1) c
          else Some (Inr value, c)
        }
      })"
  by pat_completeness auto
termination
  by (relation "measure (\<lambda>(timeout, value, multiplier, len, c). 4 - len)") auto

declare decode_packet_rem_len_with_net_read.simps [simp del]

text \<open>
  The loop that discards a packet that the receive buffer cannot hold: reads of
  \<^verbatim>\<open>bytes_to_be_read\<close> bytes into the buffer until \<^verbatim>\<open>rem_len\<close> bytes are gone or a read fails.
\<close>

partial_function (option) discard_loop ::
  "nat \<Rightarrow> nat \<Rightarrow> nat \<Rightarrow> nat \<Rightarrow> 'w client \<Rightarrow> 'w client option" where
  "discard_loop rem_len timeout bytes_to_be_read total_bytes_read c = do {
     (rc, bs, c) \<leftarrow> net_read bytes_to_be_read timeout c;
     buf \<leftarrow> buf_write (read_buf c) 0 bs;
     let c = c\<lparr>read_buf := buf\<rparr>;
     if rc \<noteq> QCLOUD_RET_SUCCESS then Some c
     else let total_bytes_read = total_bytes_read + length bs;
              bytes_to_be_read = (if rem_len - total_bytes_read \<ge> read_buf_size c then read_buf_size c else rem_len - total_bytes_read)
          in if total_bytes_read < rem_len then discard_loop rem_len timeout bytes_to_be_read total_bytes_read c else Some c
   }"

text \<open>
  The rest of \<^verbatim>\<open>_read_mqtt_packet\<close>, once the remaining length is known: a packet that does not fit is
  discarded, any other one is stored behind its first byte and the length written out again.
\<close>

definition read_packet_body ::
  "'w os \<Rightarrow> Timer \<Rightarrow> u8 \<Rightarrow> u32 \<Rightarrow> 'w client \<Rightarrow> (int \<times> u8 \<times> 'w client) option" where
  "read_packet_body os timer packet_type rem c =
     (let rem_len = unat rem
      in if rem_len \<ge> read_buf_size c
         then do {
           let (timer_left_ms, c) = wait_rest_ms os timer c;
           c \<leftarrow> discard_loop rem_len timer_left_ms (read_buf_size c) 0 c;
           Some (QCLOUD_ERR_BUF_TOO_SHORT, packet_type, c)
         }
         else do {
           (buf, n) \<leftarrow> mqtt_write_packet_rem_len (read_buf c) 1 rem 0;
           let c = c\<lparr>read_buf := buf\<rparr>;
           let len = 1 + n;
           if rem_len > 0 \<and> len + rem_len > read_buf_size c
           then do {
             let (timer_left_ms, c) = wait_rest_ms os timer c;
             (rc, bs, c) \<leftarrow> net_read rem_len timer_left_ms c;
             buf \<leftarrow> buf_write (read_buf c) 0 bs;
             Some (QCLOUD_ERR_BUF_TOO_SHORT, packet_type, c\<lparr>read_buf := buf\<rparr>)
           }
           else do {
             (rc, c) \<leftarrow>
               (if rem_len > 0
                then do {
                  let (timer_left_ms, c) = wait_rest_ms os timer c;
                  (rc, bs, c) \<leftarrow> net_read rem_len timer_left_ms c;
                  buf \<leftarrow> buf_write (read_buf c) len bs;
                  Some (rc, c\<lparr>read_buf := buf\<rparr>)
                }
                else Some (QCLOUD_RET_SUCCESS, c));
             if rc \<noteq> QCLOUD_RET_SUCCESS then Some (rc, packet_type, c)
             else do {
               header \<leftarrow> buf_get (read_buf c) 0;
               Some (QCLOUD_RET_SUCCESS, header_type header, c)
             }
           }
         })"

definition read_mqtt_packet ::
  "'w os \<Rightarrow> Timer \<Rightarrow> u8 \<Rightarrow> 'w client \<Rightarrow> (int \<times> u8 \<times> 'w client) option" where
  "read_mqtt_packet os timer packet_type c =
     (let (timer_left_ms, c) = wait_ms os timer c
      in do {
        (rc, bs, c) \<leftarrow> net_read 1 timer_left_ms c;
        buf \<leftarrow> buf_write (read_buf c) 0 bs;
        let c = c\<lparr>read_buf := buf\<rparr>;
        if rc = QCLOUD_ERR_SSL_NOTHING_TO_READ \<or> rc = QCLOUD_ERR_TCP_NOTHING_TO_READ
        then Some (QCLOUD_ERR_MQTT_NOTHING_TO_READ, packet_type, c)
        else if rc \<noteq> QCLOUD_RET_SUCCESS then Some (rc, packet_type, c)
        else do {
          let (timer_left_ms, c) = wait_rest_ms os timer c;
          (r, c) \<leftarrow> decode_packet_rem_len_with_net_read timer_left_ms 0 1 0 c;
          (case r of
             Inl rc \<Rightarrow> Some (rc, packet_type, c)
           | Inr rem_len \<Rightarrow> read_packet_body os timer packet_type rem_len c)
        }
      })"

section \<open>Delivering a message\<close>

text \<open>The first handle whose filter matches and that has a message handler.\<close>

fun find_handler :: "SubTopicHandle list \<Rightarrow> u8 list \<Rightarrow> nat \<Rightarrow> SubTopicHandle option option" where
  "find_handler [] topicName topicNameLen = Some None"
| "find_handler (h # hs) topicName topicNameLen =
     (case topic_filter h of
        None \<Rightarrow> find_handler hs topicName topicNameLen
      | Some filt \<Rightarrow> do {
          eq \<leftarrow> is_topic_equals filt topicName;
          hit \<leftarrow> (if eq then Some True else is_topic_matched filt (take topicNameLen topicName));
          if hit \<and> message_handler h \<noteq> None then Some (Some h)
          else find_handler hs topicName topicNameLen
        })"

definition deliver_message ::
  "u8 list \<Rightarrow> nat \<Rightarrow> MQTTMessage \<Rightarrow> 'w client \<Rightarrow> (int \<times> 'w client) option" where
  "deliver_message topicName topicNameLen message c = do {
     let message = message\<lparr>msg_topic := topicName, msg_topic_len := topicNameLen\<rparr>;
     r \<leftarrow> find_handler (sub_handles c) topicName topicNameLen;
     (case r of
        Some h \<Rightarrow>
          (case message_handler h of
             Some f \<Rightarrow> Some (QCLOUD_RET_SUCCESS, call (MessageCb f message (handler_user_data h)) c)
           | None \<Rightarrow> None)
      | None \<Rightarrow>
          Some (QCLOUD_RET_SUCCESS, notify_event MQTT_EVENT_PUBLISH_RECVEIVED (Message message) c))
   }"

section \<open>Waiting lists\<close>

definition mask_pubInfo_from :: "'w os \<Rightarrow> u16 \<Rightarrow> 'w client \<Rightarrow> 'w client" where
  "mask_pubInfo_from os msgId c =
     (if list_pub_wait_ack c = [] then c
      else case HAL_Malloc os c of
             (None, c) \<Rightarrow> c
           | (Some iter, c) \<Rightarrow>
               c\<lparr>list_pub_wait_ack := map (\<lambda>(a, i). (a, if pub_msg_id i = msgId
                   then i\<lparr>pub_node_state := MQTT_NODE_STATE_INVALID\<rparr> else i)) (list_pub_wait_ack c)\<rparr>)"

text \<open>
  The iteration runs from the tail to the head and the last match wins, which is the first in
  the list. \<open>None\<close>: \<^verbatim>\<open>*messageHandler\<close> is not assigned.
\<close>

definition mask_sub_info_from :: "'w os \<Rightarrow> u16 \<Rightarrow> 'w client \<Rightarrow> SubTopicHandle option \<times> 'w client" where
  "mask_sub_info_from os msgId c =
     (if list_sub_wait_ack c = [] then (None, c)
      else case HAL_Malloc os c of
             (None, c) \<Rightarrow> (None, c)
           | (Some iter, c) \<Rightarrow>
               (map_option (\<lambda>(a, i). sub_handler i) (find (\<lambda>(a, i). sub_msg_id i = msgId) (list_sub_wait_ack c)),
                c\<lparr>list_sub_wait_ack := map (\<lambda>(a, i). (a, if sub_msg_id i = msgId
                   then i\<lparr>sub_node_state := MQTT_NODE_STATE_INVALID\<rparr> else i)) (list_sub_wait_ack c)\<rparr>))"

definition push_sub_info_to ::
  "'w os \<Rightarrow> nat \<Rightarrow> u16 \<Rightarrow> MessageTypes \<Rightarrow> SubTopicHandle \<Rightarrow> 'w client \<Rightarrow>
   ((int + nat) \<times> 'w client) option" where
  "push_sub_info_to os len msgId type handler c =
     (if length (list_sub_wait_ack c) \<ge> MAX_MESSAGE_HANDLERS
      then Some (Inl QCLOUD_ERR_MQTT_MAX_SUBSCRIPTIONS, c)
      else case HAL_Malloc os c of
             (None, c) \<Rightarrow> Some (Inl QCLOUD_ERR_FAILURE, c)
           | (Some sub_info, c) \<Rightarrow>
               (case countdown_ms os InitTimer (command_timeout_ms c) c of
                  (start, c) \<Rightarrow> do {
                    buf \<leftarrow> buf_read (write_buf c) 0 len;
                    let info = \<lparr>sub_type = type, sub_msg_id = msgId, sub_start_time = start,
                                sub_node_state = MQTT_NODE_STATE_NORMANL, sub_handler = handler, sub_buf = buf\<rparr>;
                    (case HAL_Malloc os c of
                       (None, c) \<Rightarrow> Some (Inl QCLOUD_ERR_FAILURE, c)
                     | (Some node, c) \<Rightarrow>
                         Some (Inr node, c\<lparr>list_sub_wait_ack := nodes_rpush (list_sub_wait_ack c) node info\<rparr>))
                  }))"

section \<open>Packet handlers\<close>

definition handle_puback_packet :: "'w os \<Rightarrow> 'w client \<Rightarrow> (int \<times> 'w client) option" where
  "handle_puback_packet os c = do {
     r \<leftarrow> deserialize_ack_packet (read_buf c) (read_buf_size c);
     (case r of
        Inl rc \<Rightarrow> Some (rc, c)
      | Inr (type, dup, packet_id) \<Rightarrow>
          let c = mask_pubInfo_from os packet_id c
          in Some (QCLOUD_RET_SUCCESS, notify_event MQTT_EVENT_PUBLISH_SUCCESS (PacketId packet_id) c))
   }"

text \<open>
  The search of \<^verbatim>\<open>_handle_suback_packet\<close> through the handles: the index of an identical handle, at
  which it stops, or else the first free place before.
\<close>

fun find_handle_place :: "SubTopicHandle list \<Rightarrow> SubTopicHandle \<Rightarrow> nat \<Rightarrow> nat option \<Rightarrow> nat + nat option" where
  "find_handle_place [] sub_handle i i_free = Inr i_free"
| "find_handle_place (h # hs) sub_handle i i_free =
     (if topic_filter h \<noteq> None
      then if check_handle_is_identical h sub_handle then Inl i
           else find_handle_place hs sub_handle (i + 1) i_free
      else find_handle_place hs sub_handle (i + 1) (if i_free = None then Some i else i_free))"

definition store_sub_handle :: "SubTopicHandle \<Rightarrow> 'w client \<Rightarrow> 'w client option" where
  "store_sub_handle sub_handle c =
     (case find_handle_place (sub_handles c) sub_handle 0 None of
        Inl i \<Rightarrow>
          Some (c\<lparr>sub_handles := (sub_handles c)
                   [i := (sub_handles c ! i)\<lparr>handler_user_data := handler_user_data sub_handle\<rparr>]\<rparr>)
      | Inr None \<Rightarrow> None
      | Inr (Some i) \<Rightarrow> Some (c\<lparr>sub_handles := (sub_handles c)[i := sub_handle]\<rparr>))"

text \<open>
  A NACK calls \<^verbatim>\<open>event_handle.h_fp\<close> without looking whether it is null. The array \<^verbatim>\<open>grantedQoS\<close> has
  three entries and the reader is told that it has one.
\<close>

definition handle_suback_packet :: "'w os \<Rightarrow> 'w client \<Rightarrow> (int \<times> 'w client) option" where
  "handle_suback_packet os c = do {
     r \<leftarrow> deserialize_suback_packet 1 [QOS0, QOS0, QOS0] (read_buf c) (read_buf_size c);
     (case r of
        Inl rc \<Rightarrow> Some (rc, c)
      | Inr (packet_id, count, grantedQoS) \<Rightarrow> do {
          let sub_nack = (grantedQoS ! 0 = 0x80);
          c \<leftarrow> (if sub_nack
               then (case h_fp (event_handle c) of
                       None \<Rightarrow> None
                     | Some f \<Rightarrow> Some (call (EventCb f (h_context (event_handle c)) MQTT_EVENT_SUBCRIBE_NACK
                                              (PacketId packet_id)) c))
               else Some c);
          let (found, c) = mask_sub_info_from os packet_id c;
          let sub_handle = (case found of None \<Rightarrow> null_handle | Some h \<Rightarrow> h);
          if topic_filter sub_handle = None then Some (QCLOUD_ERR_MQTT_SUB, c)
          else if sub_nack
          then Some (QCLOUD_ERR_MQTT_SUB, notify_subscriber sub_handle MQTT_EVENT_SUBCRIBE_NACK c)
          else (case store_sub_handle sub_handle c of
                  None \<Rightarrow> Some (QCLOUD_ERR_FAILURE, c)
                | Some c \<Rightarrow>
                    let c = notify_event MQTT_EVENT_SUBCRIBE_SUCCESS (PacketId packet_id) c
                    in Some (QCLOUD_RET_SUCCESS, notify_subscriber sub_handle MQTT_EVENT_SUBCRIBE_SUCCESS c))
        })
   }"

text \<open>\<^verbatim>\<open>messageHandler\<close> is not initialised: without a pending request of that id its value is garbage.\<close>

definition handle_unsuback_packet :: "'w os \<Rightarrow> 'w client \<Rightarrow> (int \<times> 'w client) option" where
  "handle_unsuback_packet os c = do {
     r \<leftarrow> deserialize_unsuback_packet (read_buf c) (read_buf_size c);
     (case r of
        Inl rc \<Rightarrow> Some (rc, c)
      | Inr packet_id \<Rightarrow>
          (case mask_sub_info_from os packet_id c of
             (None, c) \<Rightarrow> None
           | (Some messageHandler, c) \<Rightarrow>
               Some (QCLOUD_RET_SUCCESS, notify_event MQTT_EVENT_UNSUBCRIBE_SUCCESS (PacketId packet_id) c)))
   }"

text \<open>Duplicate suppression: a ring of the last ten packet ids received with QoS above 0.\<close>

definition get_packet_id_in_repeat_buf :: "u16 \<Rightarrow> 'w client \<Rightarrow> int" where
  "get_packet_id_in_repeat_buf packet_id c =
     (if packet_id \<in> set (repeat_packet_id_buf c) then uint packet_id else -1)"

definition add_packet_id_to_repeat_buf :: "u16 \<Rightarrow> 'w client \<Rightarrow> 'w client option" where
  "add_packet_id_to_repeat_buf packet_id c =
     (if get_packet_id_in_repeat_buf packet_id c > 0 then Some c
      else do {
        buf \<leftarrow> buf_put (repeat_packet_id_buf c) (current_packet_id_cnt c) packet_id;
        let cnt = current_packet_id_cnt c + 1;
        Some (c\<lparr>repeat_packet_id_buf := buf,
                current_packet_id_cnt := (if cnt \<ge> MQTT_MAX_REPEAT_BUF_LEN then cnt mod MQTT_MAX_REPEAT_BUF_LEN else cnt)\<rparr>)
      })"

definition reset_repeat_packet_id_buffer :: "'w client \<Rightarrow> 'w client" where
  "reset_repeat_packet_id_buffer c =
     c\<lparr>repeat_packet_id_buf := replicate MQTT_MAX_REPEAT_BUF_LEN 0, current_packet_id_cnt := 0\<rparr>"

text \<open>Serialize an acknowledgement into the write buffer and send it; the timer gets 100 ms if it has expired.\<close>

definition send_ack ::
  "'w os \<Rightarrow> MessageTypes \<Rightarrow> u16 \<Rightarrow> Timer \<Rightarrow> 'w client \<Rightarrow> (int \<times> Timer \<times> 'w client) option" where
  "send_ack os type packet_id timer c = do {
     r \<leftarrow> serialize_pub_ack_packet (write_buf c) (write_buf_size c) type 0 packet_id;
     (case r of
        Inl rc \<Rightarrow> Some (rc, timer, c)
      | Inr (buf, len) \<Rightarrow> do {
          let c = c\<lparr>write_buf := buf\<rparr>;
          let (e, c) = expired os timer c;
          let (timer, c) = (if e then countdown_ms os timer 100 c else (timer, c));
          (rc, c) \<leftarrow> send_mqtt_packet os len timer c;
          Some (rc, timer, c)
        })
   }"

text \<open>
  \<^verbatim>\<open>topicName\<close> is copied into \<^verbatim>\<open>fix_topic\<close>, an array of 128 zeros.
\<close>

definition fix_topic :: "u8 list \<Rightarrow> nat \<Rightarrow> u16 \<Rightarrow> (u8 list \<times> nat) option" where
  "fix_topic buf topic_name topic_len =
     (let topic_len = (if unat topic_len > MAX_SIZE_OF_CLOUD_TOPIC then MAX_SIZE_OF_CLOUD_TOPIC - 1 else unat topic_len)
      in do {
        t \<leftarrow> buf_read buf topic_name topic_len;
        a \<leftarrow> buf_write (replicate MAX_SIZE_OF_CLOUD_TOPIC 0) 0 t;
        Some (a, topic_len)
      })"

definition handle_publish_packet ::
  "'w os \<Rightarrow> Timer \<Rightarrow> 'w client \<Rightarrow> (int \<times> Timer \<times> 'w client) option" where
  "handle_publish_packet os timer c = do {
     r \<leftarrow> deserialize_publish_packet (read_buf c) (read_buf_size c);
     (case r of
        Inl rc \<Rightarrow> Some (rc, timer, c)
      | Inr f \<Rightarrow> do {
          (topic, topic_len) \<leftarrow> fix_topic (read_buf c) (pf_topic f) (pf_topic_len f);
          let msg = \<lparr>msg_qos = pf_qos f, msg_retained = pf_retained f, msg_dup = pf_dup f,
                     msg_id = pf_packet_id f, msg_topic = [], msg_topic_len = 0, msg_buf = read_buf c,
                     msg_payload = pf_payload f, msg_payload_len = pf_payload_len f\<rparr>;
          if pf_qos f = QOS0
          then do {
            (rc, c) \<leftarrow> deliver_message topic topic_len msg c;
            Some (rc, timer, c)
          }
          else do {
            packet_id \<leftarrow> pf_packet_id f;
            (rc, c) \<leftarrow> (if get_packet_id_in_repeat_buf packet_id c < 0
                        then deliver_message topic topic_len msg c else Some (QCLOUD_RET_SUCCESS, c));
            if rc \<noteq> QCLOUD_RET_SUCCESS then Some (rc, timer, c)
            else do {
              c \<leftarrow> add_packet_id_to_repeat_buf packet_id c;
              send_ack os (if pf_qos f = QOS1 then PUBACK else PUBREC) packet_id timer c
            }
          }
        })
   }"

definition handle_pubrec_packet ::
  "'w os \<Rightarrow> Timer \<Rightarrow> 'w client \<Rightarrow> (int \<times> Timer \<times> 'w client) option" where
  "handle_pubrec_packet os timer c = do {
     r \<leftarrow> deserialize_ack_packet (read_buf c) (read_buf_size c);
     (case r of
        Inl rc \<Rightarrow> Some (rc, timer, c)
      | Inr (type, dup, packet_id) \<Rightarrow> send_ack os PUBREL packet_id timer c)
   }"

definition handle_pingresp_packet :: "'w os \<Rightarrow> 'w client \<Rightarrow> 'w client" where
  "handle_pingresp_packet os c =
     (let c = c\<lparr>is_ping_outstanding := 0\<rparr>;
          (t, c) = countdown os (ping_timer c) (unat (keep_alive_interval (options c))) c
      in c\<lparr>ping_timer := t\<rparr>)"

section \<open>The read loops\<close>

text \<open>
  The two switches of \<^verbatim>\<open>cycle_for_read\<close>. The second one runs whatever the handler returned; only an
  unknown packet type leaves before it.
\<close>

definition dispatch_packet ::
  "'w os \<Rightarrow> Timer \<Rightarrow> u8 \<Rightarrow> 'w client \<Rightarrow> (int \<times> Timer \<times> 'w client) option" where
  "dispatch_packet os timer t c =
     (if t = msg_code PUBACK then do { (rc, c) \<leftarrow> handle_puback_packet os c; Some (rc, timer, c) }
      else if t = msg_code SUBACK then do { (rc, c) \<leftarrow> handle_suback_packet os c; Some (rc, timer, c) }
      else if t = msg_code UNSUBACK then do { (rc, c) \<leftarrow> handle_unsuback_packet os c; Some (rc, timer, c) }
      else if t = msg_code PUBLISH then handle_publish_packet os timer c
      else if t = msg_code PUBREC then handle_pubrec_packet os timer c
      else Some (QCLOUD_RET_SUCCESS, timer, c))"

definition note_ping :: "'w os \<Rightarrow> u8 \<Rightarrow> 'w client \<Rightarrow> 'w client" where
  "note_ping os t c =
     (if t \<in> {msg_code PUBACK, msg_code SUBACK, msg_code UNSUBACK, msg_code PINGRESP} then handle_pingresp_packet os c
      else if t = msg_code PUBLISH then c\<lparr>is_ping_outstanding := 0\<rparr>
      else c)"

definition known_packet :: "u8 \<Rightarrow> bool" where
  "known_packet t \<longleftrightarrow> t \<in> set (map msg_code [CONNACK, PUBACK, SUBACK, UNSUBACK, PUBLISH, PUBREC, PUBREL, PUBCOMP, PINGRESP])"

definition cycle_for_read ::
  "'w os \<Rightarrow> Timer \<Rightarrow> u8 \<Rightarrow> 'w client \<Rightarrow> (int \<times> Timer \<times> u8 \<times> 'w client) option" where
  "cycle_for_read os timer packet_type c = do {
     (rc, t, c) \<leftarrow> read_mqtt_packet os timer packet_type c;
     if rc = QCLOUD_ERR_MQTT_NOTHING_TO_READ then Some (QCLOUD_RET_SUCCESS, timer, t, c)
     else if rc \<noteq> QCLOUD_RET_SUCCESS then Some (rc, timer, t, c)
     else if \<not> known_packet t then Some (QCLOUD_ERR_RX_MESSAGE_INVAL, timer, t, c)
     else do {
       (rc, timer, c) \<leftarrow> dispatch_packet os timer t c;
       Some (rc, timer, t, note_ping os t c)
     }
   }"

text \<open>The do-while loop of \<^verbatim>\<open>wait_for_read\<close>.\<close>

partial_function (option) wait_for_read ::
  "'w os \<Rightarrow> u8 \<Rightarrow> Timer \<Rightarrow> u8 \<Rightarrow> 'w client \<Rightarrow> (int \<times> Timer \<times> 'w client) option" where
  "wait_for_read os packet_type timer read_packet_type c =
     (let (e, c) = expired os timer c
      in if e then Some (QCLOUD_ERR_MQTT_REQUEST_TIMEOUT, timer, c)
         else do {
           (rc, timer, read_packet_type, c) \<leftarrow> cycle_for_read os timer read_packet_type c;
           if rc = QCLOUD_RET_SUCCESS \<and> read_packet_type \<noteq> packet_type
           then wait_for_read os packet_type timer read_packet_type c
           else Some (rc, timer, c)
         })"

end
