(* ===== verification/Utils_Digest.thy ===== *)
theory Utils_Digest
  imports Prelude
begin

text \<open>
  What \<^verbatim>\<open>utils_sha1.c\<close> and \<^verbatim>\<open>utils_md5.c\<close> have in common: a context with a byte counter of two 32-bit
  words, a chaining state and a 64-byte buffer, fed in pieces and closed with padding and the length in bits.
  The functions are those of both files over the block function; the interface \<open>block_hash\<close> states that feeding in pieces is
  hashing the padded message block by block.
\<close>

section \<open>Feeding and closing a context\<close>

record 's digest_context =
  dg_total0 :: u32
  dg_total1 :: u32
  dg_state :: 's
  dg_buffer :: "u8 list"

text \<open>The loop over whole blocks of the input: the state after them and the bytes left over.\<close>

function absorb :: "('s \<Rightarrow> u8 list \<Rightarrow> 's) \<Rightarrow> 's \<Rightarrow> u8 list \<Rightarrow> 's \<times> u8 list" where
  "absorb f s input =
     (if length input \<ge> 64 then absorb f (f s (take 64 input)) (drop 64 input) else (s, input))"
  by pat_completeness auto
termination by (relation "measure (\<lambda>(f, s, input). length input)") auto

declare absorb.simps [simp del]

definition digest_update :: "('s \<Rightarrow> u8 list \<Rightarrow> 's) \<Rightarrow> 's digest_context \<Rightarrow> u8 list \<Rightarrow> 's digest_context" where
  "digest_update process ctx input =
     (if input = [] then ctx
      else let left = unat (dg_total0 ctx AND 0x3F); fill = 64 - left;
               ilen = of_nat (length input);
               total0 = dg_total0 ctx + ilen;
               total1 = (if total0 < ilen then dg_total1 ctx + 1 else dg_total1 ctx);
               ctx = ctx\<lparr>dg_total0 := total0, dg_total1 := total1\<rparr>;
               full = (left \<noteq> 0 \<and> length input \<ge> fill);
               buffer = (if full then take left (dg_buffer ctx) @ take fill input else dg_buffer ctx);
               st = (if full then process (dg_state ctx) buffer else dg_state ctx);
               rest = (if full then drop fill input else input);
               left = (if full then 0 else left);
               (st, rest) = absorb process st rest;
               buffer = (if rest \<noteq> [] then take left buffer @ rest @ drop (left + length rest) buffer
                         else buffer)
           in ctx\<lparr>dg_state := st, dg_buffer := buffer\<rparr>)"

definition digest_padding :: "u8 list" where
  "digest_padding = 0x80 # replicate 63 0"

text \<open>\<open>lenbytes\<close> writes the low and the high word of the length in the byte order of the hash.\<close>

definition digest_finish :: "('s \<Rightarrow> u8 list \<Rightarrow> 's) \<Rightarrow> (u32 \<Rightarrow> u32 \<Rightarrow> u8 list) \<Rightarrow> 's digest_context \<Rightarrow> 's digest_context" where
  "digest_finish process lenbytes ctx =
     (let high = drop_bit 29 (dg_total0 ctx) OR push_bit 3 (dg_total1 ctx);
          low = push_bit 3 (dg_total0 ctx);
          msglen = lenbytes low high;
          last = unat (dg_total0 ctx AND 0x3F);
          padn = (if last < 56 then 56 - last else 120 - last);
          ctx = digest_update process ctx (take padn digest_padding)
      in digest_update process ctx msglen)"

section \<open>What a closed context has hashed\<close>

text \<open>
  The message, a one bit, zeros up to 56 modulo 64, and the length in bits as \<open>lenbytes\<close> writes it, through the loop
  \<open>absorb\<close>: a middle layer between the code and the standards.
\<close>

definition digest_pad :: "(u32 \<Rightarrow> u32 \<Rightarrow> u8 list) \<Rightarrow> u8 list \<Rightarrow> u8 list" where
  "digest_pad lenbytes m =
     (let n = length m
      in m @ 0x80 # replicate ((119 - n mod 64) mod 64) 0 @ lenbytes (of_nat (8 * n)) (of_nat (8 * n div 2 ^ 32)))"

definition hash_blocks :: "('s \<Rightarrow> u8 list \<Rightarrow> 's) \<Rightarrow> 's \<Rightarrow> u8 list \<Rightarrow> 's" where
  "hash_blocks f s m = fst (absorb f s m)"

section \<open>Whole blocks\<close>

lemma absorb_short: "length x < 64 \<Longrightarrow> absorb f s x = (s, x)"
  by (simp add: absorb.simps)

lemma absorb_block: "length b = 64 \<Longrightarrow> absorb f s (b @ x) = absorb f (f s b) x"
  by (subst absorb.simps) simp

lemma absorb_rest_length: "length (snd (absorb f s x)) = length x mod 64"
proof (induction f s x rule: absorb.induct)
  case (1 f s x)
  show ?case
  proof (cases "length x \<ge> 64")
    case True
    with 1 [OF True] show ?thesis by (subst absorb.simps) (simp add: le_mod_geq)
  qed (simp add: absorb_short)
qed

lemma absorb_append: "absorb f s (x @ y) = absorb f (fst (absorb f s x)) (snd (absorb f s x) @ y)"
proof (induction f s x rule: absorb.induct)
  case (1 f s x)
  show ?case
  proof (cases "length x \<ge> 64")
    case True
    have "absorb f s (x @ y) = absorb f s (take 64 x @ drop 64 x @ y)"
      by (metis append.assoc append_take_drop_id)
    also have "\<dots> = absorb f (f s (take 64 x)) (drop 64 x @ y)"
      using True by (simp add: absorb_block)
    also have "\<dots> = absorb f (fst (absorb f s x)) (snd (absorb f s x) @ y)"
      unfolding 1 [OF True] using True by (simp add: absorb.simps [of f s x])
    finally show ?thesis .
  qed (simp add: absorb_short)
qed

lemma u32_and_63: "unat ((of_nat n :: u32) AND 0x3F) = n mod 64"
proof -
  have "(of_nat n :: u32) AND 0x3F = take_bit 6 (of_nat n)"
    by (simp add: take_bit_eq_mask mask_eq_exp_minus_1)
  then have eq: "(of_nat n :: u32) AND 0x3F = of_nat (n mod 64)" by (simp only: take_bit_of_nat [symmetric] take_bit_eq_mod [of 6 n, simplified, symmetric])
  have "n mod 64 < 64" by simp
  then have "n mod 64 < 4294967296" by linarith
  then show ?thesis unfolding eq by (simp only: unat_of_nat take_bit_eq_mod) simp
qed

lemma count_high:
  fixes n k :: nat
  assumes "k < 2 ^ 32"
  shows "(if of_nat n + of_nat k < (of_nat k :: u32) then of_nat (n div 2 ^ 32) + 1 else of_nat (n div 2 ^ 32))
         = (of_nat ((n + k) div 2 ^ 32) :: u32)"
proof -
  have less: "(of_nat n + of_nat k < (of_nat k :: u32)) \<longleftrightarrow> (n mod 2 ^ 32 + k) mod 2 ^ 32 < k"
    using assms by (simp add: word_less_nat_alt unat_of_nat take_bit_eq_mod mod_simps flip: of_nat_add)
  have "n mod 2 ^ 32 < (2 :: nat) ^ 32" by simp
  with assms consider "n mod 2 ^ 32 + k < 2 ^ 32" | "2 ^ 32 \<le> n mod 2 ^ 32 + k" "n mod 2 ^ 32 + k < 2 * 2 ^ 32"
    by linarith
  then show ?thesis
  proof cases
    case 1
    then have "(n + k) div 2 ^ 32 = n div 2 ^ 32"
      using div_add1_eq [of n k "2 ^ 32"] assms by simp
    with 1 less show ?thesis by simp
  next
    case 2
    then have m: "(n mod 2 ^ 32 + k) mod 2 ^ 32 = n mod 2 ^ 32 + k - 2 ^ 32"
      by (simp add: le_mod_geq)
    have "(n mod 2 ^ 32 + k) div 2 ^ 32 = 1" using 2 by (intro div_nat_eqI) simp_all
    then have "(n + k) div 2 ^ 32 = n div 2 ^ 32 + 1"
      using div_add1_eq [of n k "2 ^ 32"] assms by simp
    moreover have "(n mod 2 ^ 32 + k) mod 2 ^ 32 < k"
      unfolding m using 2 \<open>n mod 2 ^ 32 < 2 ^ 32\<close> by linarith
    ultimately show ?thesis using less by simp
  qed
qed

lemma bits_high:
  "drop_bit 29 (of_nat n :: u32) OR push_bit 3 (of_nat (n div 2 ^ 32)) = of_nat (8 * n div 2 ^ 32)"
proof -
  let ?a = "drop_bit 29 (of_nat n :: u32)" and ?b = "push_bit 3 (of_nat (n div 2 ^ 32) :: u32)"
  have "unat ?a = n mod 2 ^ 32 div 2 ^ 29"
    by (simp add: drop_bit_eq_div unat_div unat_of_nat take_bit_eq_mod)
  then have a: "?a = of_nat (n mod 2 ^ 32 div 2 ^ 29)" by (metis of_nat_unat ucast_id)
  have b: "?b = of_nat (n div 2 ^ 32 * 8)" by (simp add: push_bit_eq_mult)
  have "?a AND ?b = 0"
    by (rule bit_word_eqI) (auto simp: bit_simps)
  then have "?a OR ?b = ?a + ?b" by (rule disjunctive_add_eq_or [symmetric])
  also have "\<dots> = of_nat (n mod 2 ^ 32 div 2 ^ 29 + n div 2 ^ 32 * 8)" by (simp only: a b of_nat_add)
  also have "n mod 2 ^ 32 div 2 ^ 29 + n div 2 ^ 32 * 8 = 8 * n div 2 ^ 32"
  proof -
    have "n = n div 2 ^ 32 * 2 ^ 32 + n mod 2 ^ 32" by (simp only: div_mult_mod_eq)
    then have "8 * n div 2 ^ 32 = (n mod 2 ^ 32 + n div 2 ^ 32 * 2 ^ 32) div 2 ^ 29"
      by (simp add: div_mult2_eq [symmetric])
    also have "\<dots> = n mod 2 ^ 32 div 2 ^ 29 + n div 2 ^ 32 * 8"
      using div_mult_self1 [of "2 ^ 29" "n mod 2 ^ 32" "n div 2 ^ 32 * 8"] by (simp add: algebra_simps)
    finally show ?thesis by simp
  qed
  finally show ?thesis .
qed

lemma padding_bytes:
  assumes "l < (64 :: nat)"
  shows "take (if l < 56 then 56 - l else 120 - l) digest_padding = 0x80 # replicate ((119 - l) mod 64) 0"
proof (cases "l < 56")
  case True
  then have "119 - l = (55 - l) + 64" by simp
  then have "(119 - l) mod 64 = 55 - l" by (simp only: mod_add_self2) simp
  with True show ?thesis by (simp add: digest_padding_def take_Cons' min_def)
next
  case False
  with assms show ?thesis by (simp add: digest_padding_def take_Cons' min_def)
qed

section \<open>The interface\<close>

text \<open>A context that has been fed the message \<open>m\<close>.\<close>

definition digest_holds :: "('s \<Rightarrow> u8 list \<Rightarrow> 's) \<Rightarrow> 's \<Rightarrow> 's digest_context \<Rightarrow> u8 list \<Rightarrow> bool" where
  "digest_holds process IV ctx m \<longleftrightarrow>
     dg_total0 ctx = of_nat (length m) \<and> dg_total1 ctx = of_nat (length m div 2 ^ 32) \<and>
     length (dg_buffer ctx) = 64 \<and>
     absorb process IV m = (dg_state ctx, take (length m mod 64) (dg_buffer ctx))"

locale block_hash =
  fixes process :: "'s \<Rightarrow> u8 list \<Rightarrow> 's" and IV :: 's and lenbytes :: "u32 \<Rightarrow> u32 \<Rightarrow> u8 list"
  assumes length_lenbytes: "length (lenbytes low high) = 8"
begin

lemma holds_start:
  assumes "dg_total0 ctx = 0" and "dg_total1 ctx = 0" and "dg_state ctx = IV" and "length (dg_buffer ctx) = 64"
  shows "digest_holds process IV ctx []"
  using assms by (simp add: digest_holds_def absorb_short)

lemma holds_intro:
  assumes "absorb process IV m = (s, y)" and "length b = 64"
  shows "digest_holds process IV (ctx\<lparr>dg_total0 := of_nat (length m), dg_total1 := of_nat (length m div 2 ^ 32),
           dg_state := s, dg_buffer := (if y \<noteq> [] then y @ drop (length y) b else b)\<rparr>) m"
proof -
  have "length y = length m mod 64"
    using absorb_rest_length [of process IV m] assms(1) by simp
  with assms show ?thesis
    using mod_less_divisor [of 64 "length m"] by (auto simp: digest_holds_def)
qed

lemma update_holds:
  assumes "digest_holds process IV ctx m" and "length x < 2 ^ 32"
  shows "digest_holds process IV (digest_update process ctx x) (m @ x)"
proof (cases "x = []")
  case True
  with assms(1) show ?thesis by (simp add: digest_update_def)
next
  case False
  let ?left = "length m mod 64" and ?f = process
  let ?r = "take ?left (dg_buffer ctx)" and ?fill = "64 - length m mod 64"
  have r: "length ?r = ?left" and buf: "length (dg_buffer ctx) = 64"
    and st: "absorb ?f IV m = (dg_state ctx, ?r)"
    using assms(1) by (auto simp: digest_holds_def min_def)
  have lf: "unat (dg_total0 ctx AND 0x3F) = ?left"
    using assms(1) by (simp add: digest_holds_def u32_and_63)
  have t0: "dg_total0 ctx + of_nat (length x) = of_nat (length (m @ x))"
    and t1: "(if of_nat (length (m @ x)) < (of_nat (length x) :: u32) then dg_total1 ctx + 1
              else dg_total1 ctx) = of_nat (length (m @ x) div 2 ^ 32)"
    using assms count_high [of "length x" "length m"] by (simp_all add: digest_holds_def split: if_split_asm)
  define buffer where "buffer = (if ?left \<noteq> 0 \<and> length x \<ge> ?fill then ?r @ take ?fill x else dg_buffer ctx)"
  define sr where "sr = (if ?left \<noteq> 0 \<and> length x \<ge> ?fill then absorb ?f (?f (dg_state ctx) buffer) (drop ?fill x)
                         else absorb ?f (dg_state ctx) x)"
  define l where "l = (if ?left \<noteq> 0 \<and> length x \<ge> ?fill then 0 else ?left)"
  have upd: "digest_update process ctx x = ctx\<lparr>dg_total0 := of_nat (length (m @ x)),
            dg_total1 := of_nat (length (m @ x) div 2 ^ 32), dg_state := fst sr,
            dg_buffer := (if snd sr \<noteq> [] then take l buffer @ snd sr @ drop (l + length (snd sr)) buffer
                            else buffer)\<rparr>"
    unfolding digest_update_def Let_def lf t0 t1 using False
    by (auto simp: buffer_def sr_def l_def split: prod.splits)
  have goal: "absorb ?f IV (m @ x) = absorb ?f (dg_state ctx) (?r @ x)"
    using absorb_append [of ?f IV m x] st by simp
  have restlen: "length (snd (absorb ?f IV (m @ x))) = length (m @ x) mod 64"
    by (rule absorb_rest_length)
  consider (full) "?left \<noteq> 0" "length x \<ge> ?fill" | (part) "?left \<noteq> 0" "length x < ?fill" | (none) "?left = 0"
    by linarith
  then show ?thesis
  proof cases
    case full
    let ?b = "?r @ take ?fill x"
    have b: "length ?b = 64" using full r by simp
    have split: "?r @ x = ?b @ drop ?fill x" by simp
    obtain s' y where y: "absorb ?f (?f (dg_state ctx) ?b) (drop ?fill x) = (s', y)" by fastforce
    have ab: "absorb ?f IV (m @ x) = (s', y)"
      unfolding goal split by (simp only: absorb_block [OF b] y)
    have "digest_update process ctx x = ctx\<lparr>dg_total0 := of_nat (length (m @ x)),
            dg_total1 := of_nat (length (m @ x) div 2 ^ 32), dg_state := s',
            dg_buffer := (if y \<noteq> [] then y @ drop (length y) ?b else ?b)\<rparr>"
      unfolding upd using full y by (simp add: buffer_def sr_def l_def)
    then show ?thesis using holds_intro [OF ab b, of ctx] by simp
  next
    case part
    then have short: "length (?r @ x) < 64" and xs: "length x < 64" using r by simp_all
    have ab: "absorb ?f IV (m @ x) = (dg_state ctx, ?r @ x)"
      unfolding goal by (rule absorb_short [OF short])
    with restlen r have len: "length (m @ x) mod 64 = ?left + length x" by simp
    have "digest_update process ctx x = ctx\<lparr>dg_total0 := of_nat (length (m @ x)),
            dg_total1 := of_nat (length (m @ x) div 2 ^ 32),
            dg_buffer := ?r @ x @ drop (?left + length x) (dg_buffer ctx)\<rparr>"
      unfolding upd using False part by (simp add: buffer_def sr_def l_def absorb_short [OF xs])
    with ab len r buf short show ?thesis by (simp add: digest_holds_def)
  next
    case none
    obtain s' y where y: "absorb ?f (dg_state ctx) x = (s', y)" by fastforce
    with none goal have ab: "absorb ?f IV (m @ x) = (s', y)" by simp
    have "digest_update process ctx x = ctx\<lparr>dg_total0 := of_nat (length (m @ x)),
            dg_total1 := of_nat (length (m @ x) div 2 ^ 32), dg_state := s',
            dg_buffer := (if y \<noteq> [] then y @ drop (length y) (dg_buffer ctx) else dg_buffer ctx)\<rparr>"
      unfolding upd using none y by (simp add: buffer_def sr_def l_def)
    then show ?thesis using holds_intro [OF ab buf, of ctx] by simp
  qed
qed

text \<open>Closing a context that has been fed \<open>m\<close> hashes the padded message.\<close>

lemma finish_state:
  assumes "digest_holds process IV ctx m"
  shows "dg_state (digest_finish process lenbytes ctx) = hash_blocks process IV (digest_pad lenbytes m)"
proof -
  let ?n = "length m"
  let ?pad = "0x80 # replicate ((119 - ?n mod 64) mod 64) 0 :: u8 list"
  let ?len = "lenbytes (of_nat (8 * ?n)) (of_nat (8 * ?n div 2 ^ 32))"
  have t: "dg_total0 ctx = of_nat ?n" "dg_total1 ctx = of_nat (?n div 2 ^ 32)"
    using assms by (simp_all add: digest_holds_def)
  have low: "push_bit 3 (of_nat ?n :: u32) = of_nat (8 * ?n)" by (simp add: push_bit_eq_mult)
  have "(119 - ?n mod 64) mod 64 < 64" by simp
  then have small: "length ?pad < 2 ^ 32" "length ?len < 2 ^ 32" by (simp_all add: length_lenbytes)
  have lt: "?n mod 64 < 64" by simp
  have fin: "digest_finish process lenbytes ctx = digest_update process (digest_update process ctx ?pad) ?len"
    unfolding digest_finish_def Let_def t u32_and_63 bits_high low by (simp only: padding_bytes [OF lt])
  have "digest_holds process IV (digest_finish process lenbytes ctx) ((m @ ?pad) @ ?len)"
    unfolding fin by (intro update_holds assms small)
  then show ?thesis by (simp add: digest_holds_def digest_pad_def hash_blocks_def Let_def)
qed

lemma updates_holds:
  assumes "\<forall>x \<in> set chunks. length x < 2 ^ 32" and "digest_holds process IV ctx m"
  shows "digest_holds process IV (foldl (digest_update process) ctx chunks) (m @ concat chunks)"
  using assms
proof (induction chunks arbitrary: ctx m)
  case (Cons x xs)
  then show ?case using Cons.IH [of "digest_update process ctx x" "m @ x"] by (simp add: update_holds)
qed simp

end

section \<open>The words and the padding of the standards\<close>

text \<open>
  FIPS 180-4 and RFC 1321 in their own terms, with nothing of the code: a number as bytes, the lowest first and the
  highest first.
\<close>

definition le_bytes :: "nat \<Rightarrow> nat \<Rightarrow> u8 list" where
  "le_bytes k n = map (\<lambda>i. of_nat (n div 256 ^ i)) [0 ..< k]"

definition be_bytes :: "nat \<Rightarrow> nat \<Rightarrow> u8 list" where
  "be_bytes k n = rev (le_bytes k n)"

text \<open>
  The padding of both standards: a one bit, zeros up to 448 modulo 512 bits, and the length in bits as eight bytes;
  and the blocks of 512 bits.
\<close>

definition padded :: "(nat \<Rightarrow> u8 list) \<Rightarrow> u8 list \<Rightarrow> u8 list" where
  "padded len64 m = m @ 0x80 # replicate (nat ((55 - int (length m)) mod 64)) 0 @ len64 (8 * length m)"

definition message_blocks :: "u8 list \<Rightarrow> u8 list list" where
  "message_blocks m = map (\<lambda>i. take 64 (drop (64 * i) m)) [0 ..< length m div 64]"

text \<open>The shifts of the code write and read such bytes and rotate.\<close>

lemma byte_of_number:
  assumes "k \<le> 24"
  shows "ucast (drop_bit k (of_nat n :: u32)) = (of_nat (n div 2 ^ k) :: u8)"
proof -
  have "(of_nat (n div 2 ^ k) :: u8) = of_nat (drop_bit k n)" by (simp add: drop_bit_eq_div)
  also have "\<dots> = ucast (drop_bit k (of_nat n :: u32))"
    using assms by (intro bit_word_eqI) (auto simp: bit_simps)
  finally show ?thesis by simp
qed

lemma number_of_word: "ucast (drop_bit k (w :: u32)) = (of_nat (unat w div 2 ^ k) :: u8)" if "k \<le> 24"
  using byte_of_number [OF that, of "unat w"] by simp

lemma upt_4: "[0 ..< 4] = [0, 1, 2, 3 :: nat]" and upt_8: "[0 ..< 8] = [0, 1, 2, 3, 4, 5, 6, 7 :: nat]"
  by (simp_all add: upt_rec)

lemma rotl_shifts:
  fixes x :: u32
  assumes "0 < n" and "n < 32"
  shows "push_bit n x OR drop_bit (32 - n) x = word_rotl n x"
proof (rule bit_word_eqI)
  fix i
  assume "i < LENGTH(32)"
  then have i: "i < 32" by simp
  have r: "(i + 32 - n) mod 32 = (if n \<le> i then i - n else i + 32 - n)"
  proof (cases "n \<le> i")
    case True
    then have "i + 32 - n = (i - n) + 32" by simp
    then have "(i + 32 - n) mod 32 = (i - n) mod 32" by (simp only: mod_add_self2)
    with True i show ?thesis by simp
  qed (use i assms in simp)
  have "\<not> bit x (i + 32 - n)" if "n \<le> i" using that by (auto dest: bit_imp_le_length)
  then have "bit (push_bit n x OR drop_bit (32 - n) x) i \<longleftrightarrow> (if n \<le> i then bit x (i - n) else bit x (i + 32 - n))"
    using i assms by (simp add: bit_or_iff bit_push_bit_iff bit_drop_bit_eq add.commute)
  also have "\<dots> \<longleftrightarrow> bit (word_rotl n x) i"
    using i assms by (simp add: bit_word_rotl_iff r)
  finally show "bit (push_bit n x OR drop_bit (32 - n) x) i = bit (word_rotl n x) i" .
qed

lemma bit_rcat: "bit (word_rcat ws :: u32) n \<longleftrightarrow> n < 32 \<and> n div 8 < length ws \<and> bit (rev ws ! (n div 8)) (n mod 8)"
  for ws :: "u8 list"
  using bit_horner_sum_uint_exp_iff [of "rev ws" n] by (simp add: word_rcat_def bit_word_of_int_iff)

lemma rcat_4:
  fixes a b c d :: u8
  shows "(word_rcat [a, b, c, d] :: u32) = push_bit 24 (ucast a) OR push_bit 16 (ucast b) OR push_bit 8 (ucast c) OR ucast d"
    (is "_ = ?w")
proof (rule bit_word_eqI)
  fix n
  assume "n < LENGTH(32)"
  then have n: "n < 32" by simp
  have w: "bit ?w n \<longleftrightarrow> 24 \<le> n \<and> bit a (n - 24) \<or> 16 \<le> n \<and> bit b (n - 16) \<or> 8 \<le> n \<and> bit c (n - 8) \<or> bit d n"
    using n by (auto simp: bit_simps)
  have byte: "\<not> bit x i" if "8 \<le> i" for x :: u8 and i using that by (auto dest: bit_imp_le_length)
  have m: "n mod 8 = n - 8 * (n div 8)" "8 * (n div 8) \<le> n" "n < 8 * (n div 8) + 8"
    by (simp_all add: minus_mult_div_eq_mod dividend_less_times_div)
  have "n div 8 < 4" using n by simp
  then consider "n div 8 = 0" | "n div 8 = 1" | "n div 8 = 2" | "n div 8 = 3" by linarith
  then show "bit (word_rcat [a, b, c, d] :: u32) n \<longleftrightarrow> bit ?w n"
    unfolding w bit_rcat using n m by cases (simp_all add: byte)
qed

lemma digest_pad_padded:
  assumes "\<And>n. lenbytes (of_nat n) (of_nat (n div 2 ^ 32)) = len64 n"
  shows "digest_pad lenbytes m = padded len64 m"
proof -
  have "nat ((55 - int (length m)) mod 64) = (119 - length m mod 64) mod 64"
  proof -
    have "int ((119 - length m mod 64) mod 64) = (119 - int (length m mod 64)) mod 64"
      using mod_less_divisor [of 64 "length m"] by (simp add: zmod_int of_nat_diff)
    also have "\<dots> = (119 - int (length m)) mod 64" by (simp add: zmod_int mod_diff_right_eq)
    also have "\<dots> = (55 - int (length m)) mod 64" 
      using mod_add_self2 [of "55 - int (length m)" 64] by (simp add: algebra_simps)
    finally show ?thesis by simp
  qed
  then show ?thesis using assms [of "8 * length m"] by (simp add: digest_pad_def padded_def Let_def)
qed

lemma message_block_length: "b \<in> set (message_blocks m) \<Longrightarrow> length b = 64"
proof -
  have "64 * i + 64 \<le> length m" if "i < length m div 64" for i
    using that mult_le_mono2 [of "Suc i" "length m div 64" 64] times_div_less_eq_dividend [of 64 "length m"] by linarith
  then show "b \<in> set (message_blocks m) \<Longrightarrow> length b = 64" by (force simp: message_blocks_def)
qed

lemma hash_blocks_fold: "hash_blocks f s m = foldl f s (message_blocks m)"
proof (induction f s m rule: absorb.induct)
  case (1 f s m)
  show ?case
  proof (cases "length m \<ge> 64")
    case True
    then have n: "length m div 64 = Suc (length (drop 64 m) div 64)" by (simp add: le_div_geq)
    have "message_blocks m = take 64 m # message_blocks (drop 64 m)"
      unfolding message_blocks_def n by (simp add: upt_conv_Cons map_Suc_upt [symmetric] o_def add.commute del: upt_Suc map_Suc_upt)
    then show ?thesis using 1 [OF True] True by (simp add: hash_blocks_def absorb.simps [of f s m])
  qed (simp add: hash_blocks_def absorb_short message_blocks_def)
qed

end
