(* ===== verification/Utils_Sha1.thy ===== *)
theory Utils_Sha1
  imports Utils_Digest
begin

text \<open>
  SHA-1 as \<^verbatim>\<open>sdk_src/utils/utils_sha1.c\<close> computes it: a context with a byte counter of two 32-bit
  words, five chaining words and a 64-byte buffer, fed by \<^verbatim>\<open>utils_sha1_update\<close> and closed by
  \<^verbatim>\<open>utils_sha1_finish\<close>. The block function keeps a circular window of 16 schedule words. The
  reference is FIPS 180-4 written out on its own, so that a wrong constant, rotation, function or byte order in the model
  would not go through.
\<close>

section \<open>The context and the block function\<close>

type_synonym sha1_state = "u32 \<times> u32 \<times> u32 \<times> u32 \<times> u32"

type_synonym iot_sha1_context = "sha1_state digest_context"

text \<open>The macros of the file: big-endian words, rotation by \<open>n\<close>, the schedule step \<^verbatim>\<open>R\<close>.\<close>

definition SHA1_GET_UINT32_BE :: "u8 list \<Rightarrow> nat \<Rightarrow> u32" where
  "SHA1_GET_UINT32_BE b i =
     push_bit 24 (ucast (b ! i)) OR push_bit 16 (ucast (b ! (i + 1))) OR
     push_bit 8 (ucast (b ! (i + 2))) OR ucast (b ! (i + 3))"

definition SHA1_PUT_UINT32_BE :: "u32 \<Rightarrow> u8 list" where
  "SHA1_PUT_UINT32_BE n = [ucast (drop_bit 24 n), ucast (drop_bit 16 n), ucast (drop_bit 8 n), ucast n]"

definition sha1_S :: "u32 \<Rightarrow> nat \<Rightarrow> u32" where
  "sha1_S x n = push_bit n x OR drop_bit (32 - n) x"

text \<open>\<^verbatim>\<open>R(t)\<close> overwrites the oldest word of the window and yields it; indices are taken modulo 16.\<close>

definition sha1_R :: "nat \<Rightarrow> u32 list \<Rightarrow> u32 list" where
  "sha1_R t W =
     (let temp = W ! ((t - 3) mod 16) XOR W ! ((t - 8) mod 16) XOR W ! ((t - 14) mod 16) XOR W ! (t mod 16)
      in W[t mod 16 := sha1_S temp 1])"

definition sha1_F :: "nat \<Rightarrow> u32 \<Rightarrow> u32 \<Rightarrow> u32 \<Rightarrow> u32" where
  "sha1_F t x y z =
     (if t < 20 then z XOR (x AND (y XOR z))
      else if t < 40 then x XOR y XOR z
      else if t < 60 then (x AND y) OR (z AND (x OR y))
      else x XOR y XOR z)"

definition sha1_K :: "nat \<Rightarrow> u32" where
  "sha1_K t = (if t < 20 then 0x5A827999 else if t < 40 then 0x6ED9EBA1
               else if t < 60 then 0x8F1BBCDC else 0xCA62C1D6)"

text \<open>
  The macro \<^verbatim>\<open>P\<close>. The source rotates the roles of its five variables from call to call; here the tuple
  rotates instead: its components are the arguments \<^verbatim>\<open>a, b, c, d, e\<close> of the next call. After 80
  calls every variable has its own place again.
\<close>

definition sha1_P :: "nat \<Rightarrow> u32 \<Rightarrow> sha1_state \<Rightarrow> sha1_state" where
  "sha1_P t x = (\<lambda>(a, b, c, d, e).
     (e + (sha1_S a 5 + sha1_F t b c d + sha1_K t + x), a, sha1_S b 30, c, d))"

text \<open>Rounds \<open>t\<close> up to 79; the first 16 take their word from the block, the others from \<^verbatim>\<open>R(t)\<close>.\<close>

function sha1_rounds :: "nat \<Rightarrow> u32 list \<Rightarrow> sha1_state \<Rightarrow> sha1_state" where
  "sha1_rounds t W s =
     (if t < 80
      then let W = (if t < 16 then W else sha1_R t W) in sha1_rounds (t + 1) W (sha1_P t (W ! (t mod 16)) s)
      else s)"
  by pat_completeness auto
termination by (relation "measure (\<lambda>(t, W, s). 80 - t)") auto

declare sha1_rounds.simps [simp del]

definition sha1_add :: "sha1_state \<Rightarrow> sha1_state \<Rightarrow> sha1_state" where
  "sha1_add = (\<lambda>(a, b, c, d, e) (a', b', c', d', e'). (a + a', b + b', c + c', d + d', e + e'))"

definition utils_sha1_process :: "sha1_state \<Rightarrow> u8 list \<Rightarrow> sha1_state" where
  "utils_sha1_process s data =
     sha1_add s (sha1_rounds 0 (map (\<lambda>i. SHA1_GET_UINT32_BE data (4 * i)) [0 ..< 16]) s)"

section \<open>Feeding and closing a context\<close>

definition utils_sha1_init :: iot_sha1_context where
  "utils_sha1_init = \<lparr>dg_total0 = 0, dg_total1 = 0, dg_state = (0, 0, 0, 0, 0), dg_buffer = replicate 64 0\<rparr>"

definition sha1_IV :: sha1_state where
  "sha1_IV = (0x67452301, 0xEFCDAB89, 0x98BADCFE, 0x10325476, 0xC3D2E1F0)"

definition utils_sha1_starts :: "iot_sha1_context \<Rightarrow> iot_sha1_context" where
  "utils_sha1_starts ctx = ctx\<lparr>dg_total0 := 0, dg_total1 := 0, dg_state := sha1_IV\<rparr>"

definition utils_sha1_update :: "iot_sha1_context \<Rightarrow> u8 list \<Rightarrow> iot_sha1_context" where
  "utils_sha1_update ctx input = digest_update utils_sha1_process ctx input"

text \<open>The length is written with the high word first.\<close>

definition sha1_lenbytes :: "u32 \<Rightarrow> u32 \<Rightarrow> u8 list" where
  "sha1_lenbytes low high = SHA1_PUT_UINT32_BE high @ SHA1_PUT_UINT32_BE low"

definition sha1_output :: "sha1_state \<Rightarrow> u8 list" where
  "sha1_output = (\<lambda>(a, b, c, d, e). concat (map SHA1_PUT_UINT32_BE [a, b, c, d, e]))"

definition utils_sha1_finish :: "iot_sha1_context \<Rightarrow> u8 list \<times> iot_sha1_context" where
  "utils_sha1_finish ctx =
     (let ctx = digest_finish utils_sha1_process sha1_lenbytes ctx in (sha1_output (dg_state ctx), ctx))"

definition utils_sha1 :: "u8 list \<Rightarrow> u8 list" where
  "utils_sha1 input =
     fst (utils_sha1_finish (utils_sha1_update (utils_sha1_starts utils_sha1_init) input))"

section \<open>The reference\<close>

text \<open>
  FIPS 180-4, section 6.1, in its own terms: the functions Ch, Parity and Maj, the constants, the schedule of 80 words,
  the step with its rotations, the initial hash value, and the digest of the padded message. None of the code's macros
  occurs in it.
\<close>

definition fips_f :: "nat \<Rightarrow> u32 \<Rightarrow> u32 \<Rightarrow> u32 \<Rightarrow> u32" where
  "fips_f t x y z =
     (if t \<le> 19 then (x AND y) XOR (NOT x AND z)
      else if 40 \<le> t \<and> t \<le> 59 then (x AND y) XOR (x AND z) XOR (y AND z)
      else x XOR y XOR z)"

definition fips_K :: "nat \<Rightarrow> u32" where
  "fips_K t = [0x5a827999, 0x6ed9eba1, 0x8f1bbcdc, 0xca62c1d6] ! (t div 20)"

fun fips_W :: "u32 list \<Rightarrow> nat \<Rightarrow> u32" where
  "fips_W M t =
     (if t < 16 then M ! t
      else word_rotl 1 (fips_W M (t - 3) XOR fips_W M (t - 8) XOR fips_W M (t - 14) XOR fips_W M (t - 16)))"

declare fips_W.simps [simp del]

definition fips_step :: "u32 list \<Rightarrow> sha1_state \<Rightarrow> nat \<Rightarrow> sha1_state" where
  "fips_step M = (\<lambda>(a, b, c, d, e) t.
     (word_rotl 5 a + fips_f t b c d + e + fips_K t + fips_W M t, a, word_rotl 30 b, c, d))"

definition fips_block :: "sha1_state \<Rightarrow> u8 list \<Rightarrow> sha1_state" where
  "fips_block = (\<lambda>(H0, H1, H2, H3, H4) block.
     let M = map (\<lambda>i. word_rcat (take 4 (drop (4 * i) block))) [0 ..< 16];
         (a, b, c, d, e) = foldl (fips_step M) (H0, H1, H2, H3, H4) [0 ..< 80]
     in (a + H0, b + H1, c + H2, d + H3, e + H4))"

definition fips_H0 :: sha1_state where
  "fips_H0 = (0x67452301, 0xefcdab89, 0x98badcfe, 0x10325476, 0xc3d2e1f0)"

definition sha1_ref :: "u8 list \<Rightarrow> u8 list" where
  "sha1_ref m =
     (let (H0, H1, H2, H3, H4) = foldl fips_block fips_H0 (message_blocks (padded (be_bytes 8) m))
      in concat (map (\<lambda>H. be_bytes 4 (unat H)) [H0, H1, H2, H3, H4]))"

section \<open>The macros and the standard\<close>

lemma sha1_F_ref: "t < 80 \<Longrightarrow> sha1_F t x y z = fips_f t x y z"
  by (rule bit_word_eqI) (auto simp: sha1_F_def fips_f_def bit_simps)

lemma sha1_K_ref: "t < 80 \<Longrightarrow> sha1_K t = fips_K t"
proof -
  have "\<forall>t \<in> set [0 ..< 80]. sha1_K t = fips_K t" by code_simp
  then show "t < 80 \<Longrightarrow> sha1_K t = fips_K t" by simp
qed

lemma sha1_S_rotl: "0 < n \<Longrightarrow> n < 32 \<Longrightarrow> sha1_S x n = word_rotl n x"
  unfolding sha1_S_def by (rule rotl_shifts)

lemma sha1_P_ref: "t < 80 \<Longrightarrow> sha1_P t (fips_W M t) st = fips_step M st t"
  by (simp add: sha1_P_def fips_step_def sha1_S_rotl sha1_F_ref sha1_K_ref algebra_simps split: prod.split)

lemma take_4: "4 * i + 4 \<le> length b \<Longrightarrow> take 4 (drop (4 * i) b) = [b ! (4 * i), b ! (4 * i + 1), b ! (4 * i + 2), b ! (4 * i + 3)]"
  by (rule nth_equalityI) (auto simp: less_Suc_eq numeral_eq_Suc)

lemma sha1_words_ref:
  assumes "length data = 64"
  shows "map (\<lambda>i. SHA1_GET_UINT32_BE data (4 * i)) [0 ..< 16] = map (\<lambda>i. word_rcat (take 4 (drop (4 * i) data))) [0 ..< 16]"
  using assms by (intro map_cong) (simp_all add: SHA1_GET_UINT32_BE_def take_4 rcat_4)

lemma be_4: "SHA1_PUT_UINT32_BE w = be_bytes 4 (unat w)"
  using number_of_word [of 24 w] number_of_word [of 16 w] number_of_word [of 8 w] number_of_word [of 0 w]
  by (simp add: SHA1_PUT_UINT32_BE_def be_bytes_def le_bytes_def upt_4)

lemma sha1_length_ref: "sha1_lenbytes (of_nat n) (of_nat (n div 2 ^ 32)) = be_bytes 8 n"
  using byte_of_number [of 24 n] byte_of_number [of 16 n] byte_of_number [of 8 n] byte_of_number [of 0 n]
    byte_of_number [of 24 "n div 2 ^ 32"] byte_of_number [of 16 "n div 2 ^ 32"] byte_of_number [of 8 "n div 2 ^ 32"] byte_of_number [of 0 "n div 2 ^ 32"]
  by (simp add: sha1_lenbytes_def SHA1_PUT_UINT32_BE_def be_bytes_def le_bytes_def upt_8 div_mult2_eq [symmetric])

section \<open>The circular window computes the schedule\<close>

definition sha1_window :: "u32 list \<Rightarrow> nat \<Rightarrow> u32 list \<Rightarrow> bool" where
  "sha1_window M t W \<longleftrightarrow> length W = 16 \<and> (\<forall>u. u < t \<and> t \<le> u + 16 \<longrightarrow> W ! (u mod 16) = fips_W M u)"

lemma sha1_window_R:
  assumes "sha1_window M t W" and "16 \<le> t"
  shows "sha1_window M (t + 1) (sha1_R t W)" and "sha1_R t W ! (t mod 16) = fips_W M t"
proof -
  from assms have W: "length W = 16" and w: "\<And>u. u < t \<Longrightarrow> t \<le> u + 16 \<Longrightarrow> W ! (u mod 16) = fips_W M u"
    by (auto simp: sha1_window_def)
  have "W ! (t mod 16) = fips_W M (t - 16)"
    using w [of "t - 16"] assms(2) by (simp add: le_mod_geq)
  then have new: "sha1_R t W = W[t mod 16 := fips_W M t]"
    using w [of "t - 3"] w [of "t - 8"] w [of "t - 14"] assms(2)
    by (simp add: sha1_R_def fips_W.simps [of M t] sha1_S_rotl)
  then show cur: "sha1_R t W ! (t mod 16) = fips_W M t" by (simp add: W)
  have "sha1_R t W ! (u mod 16) = fips_W M u" if "u < t + 1" and "t + 1 \<le> u + 16" for u
  proof (cases "u = t")
    case False
    with that have "u < t" "t \<le> u + 16" by auto
    moreover have "u mod 16 \<noteq> t mod 16"
    proof
      assume "u mod 16 = t mod 16"
      then have "(t - u) mod 16 = 0"
        using \<open>u < t\<close> by (metis less_imp_le mod_eq_dvd_iff_nat mod_0_imp_dvd dvd_imp_mod_0)
      with that \<open>u < t\<close> show False by simp
    qed
    ultimately show ?thesis using w [of u] by (simp add: new)
  qed (use cur in simp)
  then show "sha1_window M (t + 1) (sha1_R t W)" by (simp add: sha1_window_def new W)
qed

lemma sha1_window_start: "length M = 16 \<Longrightarrow> t \<le> 16 \<Longrightarrow> sha1_window M t M"
  by (auto simp: sha1_window_def fips_W.simps)

lemma upt_80: "t < 80 \<Longrightarrow> [t ..< 80] = t # [Suc t ..< 80]"
  by (simp add: upt_conv_Cons)

lemma sha1_rounds_ref:
  "length M = 16 \<Longrightarrow> (if t < 16 then W = M else sha1_window M t W) \<Longrightarrow>
   sha1_rounds t W s = foldl (\<lambda>s t. sha1_P t (fips_W M t) s) s [t ..< 80]"
proof (induction t W s rule: sha1_rounds.induct)
  case (1 t W s)
  show ?case
  proof (cases "t < 80")
    case True
    define W' where "W' = (if t < 16 then W else sha1_R t W)"
    have cur: "W' ! (t mod 16) = fips_W M t"
      and next_W: "if t + 1 < 16 then W' = M else sha1_window M (t + 1) W'"
      using "1.prems" sha1_window_R [of M t W] sha1_window_start [of M "t + 1"]
      by (auto simp: W'_def fips_W.simps split: if_splits)
    with True show ?thesis
      using "1.IH" [OF True W'_def "1.prems"(1) next_W]
      by (subst sha1_rounds.simps) (simp add: W'_def upt_80)
  qed (simp add: sha1_rounds.simps)
qed

lemma utils_sha1_process_ref:
  assumes "length data = 64"
  shows "utils_sha1_process s data = fips_block s data"
proof -
  define M where "M = map (\<lambda>i. word_rcat (take 4 (drop (4 * i) data)) :: u32) [0 ..< 16]"
  have "sha1_rounds 0 M s = foldl (\<lambda>s t. sha1_P t (fips_W M t) s) s [0 ..< 80]"
    by (rule sha1_rounds_ref) (simp_all add: M_def)
  also have "\<dots> = foldl (fips_step M) s [0 ..< 80]"
    by (rule foldl_cong) (simp_all add: sha1_P_ref)
  finally have rounds: "sha1_rounds 0 M s = foldl (fips_step M) s [0 ..< 80]" .
  show ?thesis
    unfolding utils_sha1_process_def sha1_words_ref [OF assms] M_def [symmetric] rounds
    by (cases s) (simp add: fips_block_def M_def [symmetric] sha1_add_def add.commute split: prod.split)
qed

lemma sha1_pad_ref: "digest_pad sha1_lenbytes m = padded (be_bytes 8) m"
  by (rule digest_pad_padded) (rule sha1_length_ref)

section \<open>Streaming\<close>

interpretation sha1: block_hash utils_sha1_process sha1_IV sha1_lenbytes
  by unfold_locales (simp add: sha1_lenbytes_def SHA1_PUT_UINT32_BE_def)

lemma sha1_holds_starts: "digest_holds utils_sha1_process sha1_IV (utils_sha1_starts utils_sha1_init) []"
  by (rule sha1.holds_start) (simp_all add: utils_sha1_starts_def utils_sha1_init_def)

text \<open>Closing a context that has been fed \<open>m\<close> gives the FIPS 180 digest of \<open>m\<close>.\<close>

lemma sha1_finish_ref:
  assumes "digest_holds utils_sha1_process sha1_IV ctx m"
  shows "fst (utils_sha1_finish ctx) = sha1_ref m"
proof -
  have "dg_state (digest_finish utils_sha1_process sha1_lenbytes ctx) =
      foldl utils_sha1_process sha1_IV (message_blocks (padded (be_bytes 8) m))"
    by (simp add: sha1.finish_state [OF assms] hash_blocks_fold sha1_pad_ref)
  also have "\<dots> = foldl fips_block fips_H0 (message_blocks (padded (be_bytes 8) m))"
    by (rule foldl_cong) (auto simp: utils_sha1_process_ref message_block_length sha1_IV_def fips_H0_def)
  finally show ?thesis by (simp add: utils_sha1_finish_def Let_def sha1_output_def sha1_ref_def be_4 split: prod.split)
qed

lemma utils_sha1_updates: "foldl utils_sha1_update ctx chunks = foldl (digest_update utils_sha1_process) ctx chunks"
  by (induction chunks arbitrary: ctx) (simp_all add: utils_sha1_update_def)

lemma sha1_chunks:
  assumes "\<forall>x \<in> set chunks. length x < 2 ^ 32"
  shows "fst (utils_sha1_finish (foldl utils_sha1_update (utils_sha1_starts utils_sha1_init) chunks)) = sha1_ref (concat chunks)"
  using sha1_finish_ref [OF sha1.updates_holds [OF assms sha1_holds_starts]] by (simp add: utils_sha1_updates)

section \<open>Properties\<close>

text \<open>
  C32: SHA-1 as the SDK computes it, with its rewritten functions, shifts for rotations, a window of sixteen words, and fed in
  any number of pieces, each shorter than 2^32 bytes (only the low 32 bits of a length are counted), is the digest of the whole message as FIPS 180-4 defines it.
\<close>

theorem sha1_streaming:
  assumes "\<forall>x \<in> set chunks. length x < 2 ^ 32"
  shows "fst (utils_sha1_finish (foldl utils_sha1_update (utils_sha1_starts utils_sha1_init) chunks)) =
     sha1_ref (concat chunks)"
  using assms by (rule sha1_chunks)

theorem sha1_streaming_witness:
  "fst (utils_sha1_finish (utils_sha1_update (utils_sha1_update (utils_sha1_starts utils_sha1_init) (cstr ''ab'')) (cstr ''c''))) =
     sha1_ref (cstr ''abc'')"
  using sha1_streaming [of "[cstr ''ab'', cstr ''c'']"] by (simp add: cstr_def)

end
