(* ===== verification/Utils_Hmac.thy ===== *)
theory Utils_Hmac
  imports Utils_Sha1
begin

text \<open>
  HMAC-SHA1 and the hexadecimal digest of \<^verbatim>\<open>sdk_src/utils/utils_hmac.c\<close>, which signs the user name of
  the CONNECT packet. The reference is RFC 2104 over the digest of FIPS 180-4.
\<close>

section \<open>The code\<close>

definition utils_hb2hex :: "u8 \<Rightarrow> u8" where
  "utils_hb2hex hb = (let hb = hb AND 0xF in if hb < 10 then 48 + hb else hb - 10 + 97)"

definition hex_digits :: "u8 list \<Rightarrow> u8 list" where
  "hex_digits out = concat (map (\<lambda>b. [utils_hb2hex (drop_bit 4 b), utils_hb2hex b]) out)"

text \<open>\<^verbatim>\<open>k_ipad\<close> and \<^verbatim>\<open>k_opad\<close>: the key in a zeroed array of 64 bytes, every byte xored.\<close>

definition hmac_pad :: "u8 \<Rightarrow> u8 list \<Rightarrow> u8 list" where
  "hmac_pad v key = map (\<lambda>b. b XOR v) (key @ replicate (64 - length key) 0)"

definition hmac_sha1_out :: "u8 list \<Rightarrow> u8 list \<Rightarrow> u8 list" where
  "hmac_sha1_out msg key =
     (let context = utils_sha1_starts utils_sha1_init;
          context = utils_sha1_update context (hmac_pad 0x36 key);
          context = utils_sha1_update context msg;
          (out, context) = utils_sha1_finish context;
          context = utils_sha1_starts utils_sha1_init;
          context = utils_sha1_update context (hmac_pad 0x5c key);
          context = utils_sha1_update context out;
          (out, context) = utils_sha1_finish context
      in out)"

text \<open>A key longer than the pads leaves the caller's digest array as it is.\<close>

definition utils_hmac_sha1 :: "u8 list \<Rightarrow> u8 list \<Rightarrow> u8 list \<Rightarrow> u8 list option" where
  "utils_hmac_sha1 msg digest key =
     (if length key > 64 then Some digest
      else buf_write digest 0 (hex_digits (hmac_sha1_out msg key)))"

definition utils_hmac_sha1_hex :: "u8 list \<Rightarrow> u8 list \<Rightarrow> u8 list \<Rightarrow> (nat \<times> u8 list) option" where
  "utils_hmac_sha1_hex msg digest key =
     (if length key > 64 then Some (0, digest)
      else do { digest \<leftarrow> buf_write digest 0 (hmac_sha1_out msg key); Some (20, digest) })"

section \<open>The reference\<close>

text \<open>
  RFC 2104 for a hash function with blocks of 64 bytes, and the hexadecimal digits of bytes, the high half of a byte first,
  both in their own terms.
\<close>

definition rfc2104 :: "(u8 list \<Rightarrow> u8 list) \<Rightarrow> u8 list \<Rightarrow> u8 list \<Rightarrow> u8 list" where
  "rfc2104 H key message =
     (let K = (if length key > 64 then H key else key);
          K = K @ replicate (64 - length K) 0;
          ipad = replicate 64 0x36;
          opad = replicate 64 0x5C
      in H (map2 (XOR) K opad @ H (map2 (XOR) K ipad @ message)))"

definition hex_string :: "u8 list \<Rightarrow> cstring" where
  "hex_string bytes =
     concat (map (\<lambda>b. [cstr ''0123456789abcdef'' ! (unat b div 16), cstr ''0123456789abcdef'' ! (unat b mod 16)]) bytes)"

definition hmac_sha1_ref :: "u8 list \<Rightarrow> u8 list \<Rightarrow> u8 list" where
  "hmac_sha1_ref key msg = rfc2104 sha1_ref key msg"

lemma xor_pad: "length key \<le> 64 \<Longrightarrow> map2 (XOR) (key @ replicate (64 - length key) 0) (replicate 64 v) = hmac_pad v key"
  by (rule nth_equalityI) (simp_all add: hmac_pad_def nth_append)

lemma rfc2104_pads: "length key \<le> 64 \<Longrightarrow> rfc2104 H key msg = H (hmac_pad 0x5C key @ H (hmac_pad 0x36 key @ msg))"
  by (simp add: rfc2104_def Let_def xor_pad)

text \<open>A digit depends on the low half of the byte only.\<close>

lemma hb2hex_digit: "utils_hb2hex b = cstr ''0123456789abcdef'' ! (unat b mod 16)"
proof -
  have "b AND 0xF = take_bit 4 b" by (simp add: take_bit_eq_mask mask_eq_exp_minus_1)
  then have "unat (b AND 0xF) = unat b mod 16" by (simp only: unsigned_take_bit_eq) (simp add: take_bit_eq_mod)
  then have low: "b AND 0xF = of_nat (unat b mod 16)" by (metis of_nat_unat ucast_id)
  have "\<forall>n \<in> set [0 ..< 16]. (let hb = of_nat n :: u8 in if hb < 10 then 48 + hb else hb - 10 + 97) = cstr ''0123456789abcdef'' ! n"
    by code_simp
  then show ?thesis by (simp add: utils_hb2hex_def low)
qed

lemma hex_digits_ref: "hex_digits bs = hex_string bs"
proof -
  have "unat b < 2 ^ LENGTH(8)" for b :: u8 by (rule unsigned_less)
  then have "unat (drop_bit 4 b) mod 16 = unat b div 16" for b :: u8
    by (simp add: drop_bit_eq_div unat_div less_mult_imp_div_less)
  then show ?thesis by (simp add: hex_digits_def hex_string_def hb2hex_digit)
qed

lemma length_sha1_ref [simp]: "length (sha1_ref m) = 20"
  by (simp add: sha1_ref_def be_bytes_def le_bytes_def split: prod.split)

lemma length_hmac_pad [simp]: "length key \<le> 64 \<Longrightarrow> length (hmac_pad v key) = 64"
  by (simp add: hmac_pad_def)

text \<open>Two updates and a finish: the digest of the concatenation.\<close>

lemma sha1_two_updates:
  assumes "length a < 2 ^ 32" and "length b < 2 ^ 32"
  shows "fst (utils_sha1_finish (utils_sha1_update (utils_sha1_update
           (utils_sha1_starts utils_sha1_init) a) b)) = sha1_ref (a @ b)"
  using sha1_chunks [of "[a, b]"] assms by simp

lemma hmac_sha1_out_ref:
  assumes "length key \<le> 64" and "length msg < 2 ^ 32"
  shows "hmac_sha1_out msg key = hmac_sha1_ref key msg"
  using sha1_two_updates [of "hmac_pad 0x36 key" msg]
    sha1_two_updates [of "hmac_pad 0x5c key" "sha1_ref (hmac_pad 0x36 key @ msg)"] assms
  by (simp add: hmac_sha1_out_def hmac_sha1_ref_def rfc2104_pads case_prod_beta')

lemma length_hex_digits [simp]: "length (hex_digits bs) = 2 * length bs"
  by (induction bs) (simp_all add: hex_digits_def)

text \<open>A hexadecimal digit is never zero, so the digest is a C string of 40 characters.\<close>

lemma utils_hb2hex_cases: "utils_hb2hex b \<in> set (cstr ''0123456789abcdef'')"
  unfolding hb2hex_digit by (rule nth_mem) (simp add: cstr_def)

lemma zero_notin_hex_digits: "0 \<notin> set (hex_digits bs)"
proof -
  have "0 \<notin> set (cstr ''0123456789abcdef'')" by code_simp
  then have "utils_hb2hex b \<noteq> 0" for b using utils_hb2hex_cases [of b] by metis
  then show ?thesis by (auto simp: hex_digits_def)
qed

section \<open>Properties\<close>

text \<open>
  C33: The signature of the user name is HMAC-SHA1 as RFC 2104 and FIPS 180-4 define it, for every key of at most 64 bytes and message shorter than 2^32 bytes,
  written as 40 lower-case hexadecimal digits, the high half of each byte first; the zeroed array of 41 bytes that the
  caller passes then holds a C string of exactly these digits.
\<close>

theorem hmac_signature:
  assumes "length key \<le> 64" and "length msg < 2 ^ 32"
  shows "\<exists>a. utils_hmac_sha1 msg (replicate 41 0) key = Some a \<and>
     c_string a = Some (hex_string (hmac_sha1_ref key msg)) \<and>
     length (hex_string (hmac_sha1_ref key msg)) = 40"
proof -
  let ?d = "hex_digits (hmac_sha1_ref key msg)"
  have len: "length ?d = 40" by (simp add: hmac_sha1_ref_def rfc2104_def Let_def)
  have "utils_hmac_sha1 msg (replicate 41 0) key = Some (?d @ [0])"
    using assms len by (simp add: utils_hmac_sha1_def hmac_sha1_out_ref buf_write_def)
  moreover have "c_string (?d @ [0]) = Some ?d"
    by (rule c_string_terminated) (rule zero_notin_hex_digits)
  ultimately show ?thesis using len by (simp add: hex_digits_ref)
qed

theorem hmac_signature_witness:
  "\<exists>a. utils_hmac_sha1 (cstr ''Hi There'') (replicate 41 0) (replicate 20 0x0b) = Some a \<and>
     c_string a = Some (hex_string (hmac_sha1_ref (replicate 20 0x0b) (cstr ''Hi There'')))"
proof -
  have "length (replicate 20 (0x0b :: u8)) \<le> 64" and "length (cstr ''Hi There'') < 2 ^ 32"
    by (simp_all add: cstr_def)
  from hmac_signature [OF this] show ?thesis by blast
qed

end
