(* ===== verification/Utils_Base64.thy ===== *)
theory Utils_Base64
  imports Prelude
begin

text \<open>
  Base64 of \<^verbatim>\<open>sdk_src/utils/utils_base64.c\<close>, which decodes the device secret. The encoder and the
  decoder write into the caller's buffer \<open>dst\<close>, whose length is \<^verbatim>\<open>dlen\<close>; \<open>None\<close> is a write behind its
  end. The result is the return code, \<^verbatim>\<open>*olen\<close> where the code assigns it, and the buffer.
\<close>

section \<open>Tables\<close>

definition base64_enc_map :: "u8 list" where
  "base64_enc_map = cstr ''ABCDEFGHIJKLMNOPQRSTUVWXYZabcdefghijklmnopqrstuvwxyz0123456789+/''"

definition base64_dec_map :: "u8 list" where
  "base64_dec_map = [
    127, 127, 127, 127, 127, 127, 127, 127, 127, 127, 127, 127, 127, 127, 127, 127, 127, 127, 127, 127, 127, 127,
    127, 127, 127, 127, 127, 127, 127, 127, 127, 127, 127, 127, 127, 127, 127, 127, 127, 127, 127, 127, 127, 62,
    127, 127, 127, 63,  52,  53,  54,  55,  56,  57,  58,  59,  60,  61,  127, 127, 127, 64,  127, 127, 127, 0,
    1,   2,   3,   4,   5,   6,   7,   8,   9,   10,  11,  12,  13,  14,  15,  16,  17,  18,  19,  20,  21,  22,
    23,  24,  25,  127, 127, 127, 127, 127, 127, 26,  27,  28,  29,  30,  31,  32,  33,  34,  35,  36,  37,  38,
    39,  40,  41,  42,  43,  44,  45,  46,  47,  48,  49,  50,  51,  127, 127, 127, 127, 127]"

abbreviation (input) PAD :: u8 where "PAD \<equiv> 61"

definition enc :: "u32 \<Rightarrow> u8" where
  "enc v = base64_enc_map ! unat (v AND 0x3F)"

definition dec :: "u8 \<Rightarrow> u8" where
  "dec c = base64_dec_map ! unat c"

section \<open>Encoding\<close>

text \<open>The loop over whole groups of three bytes, and the last group of one or two.\<close>

fun base64_groups :: "u8 list \<Rightarrow> u8 list" where
  "base64_groups (a # b # c # src) =
     (let C1 = (ucast a :: u32); C2 = ucast b; C3 = ucast c
      in [enc (drop_bit 2 C1), enc (push_bit 4 (C1 AND 3) + drop_bit 4 C2),
          enc (push_bit 2 (C2 AND 15) + drop_bit 6 C3), enc C3] @ base64_groups src)"
| "base64_groups [a, b] =
     (let C1 = (ucast a :: u32); C2 = ucast b
      in [enc (drop_bit 2 C1), enc (push_bit 4 (C1 AND 3) + drop_bit 4 C2), enc (push_bit 2 (C2 AND 15)), PAD])"
| "base64_groups [a] =
     (let C1 = (ucast a :: u32); C2 = 0
      in [enc (drop_bit 2 C1), enc (push_bit 4 (C1 AND 3) + drop_bit 4 C2), PAD, PAD])"
| "base64_groups [] = []"

definition qcloud_iot_utils_base64encode :: "u8 list \<Rightarrow> u8 list \<Rightarrow> (int \<times> nat \<times> u8 list) option" where
  "qcloud_iot_utils_base64encode dst src =
     (let slen = length src; n = slen div 3 + (if slen mod 3 \<noteq> 0 then 1 else 0)
      in if slen = 0 then Some (0, 0, dst)
         else if n > (2 ^ 64 - 2) div 4 then Some (QCLOUD_ERR_FAILURE, 2 ^ 64 - 1, dst)
         else if length dst < n * 4 + 1 then Some (QCLOUD_ERR_FAILURE, n * 4 + 1, dst)
         else do {
           dst \<leftarrow> buf_write dst 0 (base64_groups src);
           let olen = length (base64_groups src);
           dst \<leftarrow> buf_put dst olen 0;
           Some (0, olen, dst)
         })"

section \<open>Decoding\<close>

text \<open>
  The first pass, over the rest of the source: \<open>x\<close> counts the spaces skipped since the last
  character, \<open>n\<close> characters, \<open>j\<close> padding characters. It stops at the end of the source or with an
  error.
\<close>

fun base64_scan :: "u8 list \<Rightarrow> nat \<Rightarrow> nat \<Rightarrow> nat \<Rightarrow> (nat \<times> nat) option" where
  "base64_scan [] x n j = Some (n, j)"
| "base64_scan (c # cs) x n j =
     (if c = 32 then base64_scan cs (x + 1) n j
      else if cs \<noteq> [] \<and> c = 13 \<and> hd cs = 10 then base64_scan cs 0 n j
      else if c = 10 then base64_scan cs 0 n j
      else if x \<noteq> 0 then None
      else let j = (if c = PAD then j + 1 else j)
           in if c = PAD \<and> j > 2 then None
              else if c > 127 \<or> dec c = 127 then None
              else if dec c < 64 \<and> j \<noteq> 0 then None
              else base64_scan cs 0 (n + 1) j)"

text \<open>The second pass: \<open>j\<close> starts at 3, four characters make a group of up to three bytes.\<close>

fun base64_emit :: "u8 list \<Rightarrow> nat \<Rightarrow> nat \<Rightarrow> u32 \<Rightarrow> u8 list" where
  "base64_emit [] j n x = []"
| "base64_emit (c # src) j n x =
     (if c = 13 \<or> c = 10 \<or> c = 32 then base64_emit src j n x
      else let j = (if dec c = 64 then j - 1 else j);
               x = push_bit 6 x OR ucast (dec c AND 0x3F)
           in if n + 1 = 4
              then (if j > 0 then [ucast (drop_bit 16 x)] else []) @ (if j > 1 then [ucast (drop_bit 8 x)] else []) @
                   (if j > 2 then [ucast x] else []) @ base64_emit src j 0 x
              else base64_emit src j (n + 1) x)"

definition qcloud_iot_utils_base64decode ::
  "u8 list \<Rightarrow> u8 list \<Rightarrow> (int \<times> nat option \<times> u8 list) option" where
  "qcloud_iot_utils_base64decode dst src =
     (case base64_scan src 0 0 0 of
        None \<Rightarrow> Some (QCLOUD_ERR_FAILURE, None, dst)
      | Some (n, j) \<Rightarrow>
          if n = 0 then Some (0, Some 0, dst)
          else let n = (n * 6 + 7) div 8 - j
               in if length dst < n then Some (QCLOUD_ERR_FAILURE, Some n, dst)
                  else do {
                    let out = base64_emit src 3 0 0;
                    dst \<leftarrow> buf_write dst 0 out;
                    Some (0, Some (length out), dst)
                  })"

section \<open>The tables are inverse to each other\<close>

definition base64_blank :: "u8 \<Rightarrow> bool" where
  "base64_blank c \<longleftrightarrow> c = 13 \<or> c = 10 \<or> c = 32"

lemma all_sextets: "(\<forall>i \<in> set [0 ..< 64]. P i) \<Longrightarrow> P (unat ((v :: u32) AND 0x3F))"
proof -
  have "v AND 0x3F = take_bit 6 v" by (simp add: take_bit_eq_mask mask_eq_exp_minus_1)
  then have "unat (v AND 0x3F) < 64" using take_bit_nat_less_exp [of 6 "unat v"]
    by (simp add: unsigned_take_bit_eq)
  then show "(\<forall>i \<in> set [0 ..< 64]. P i) \<Longrightarrow> P (unat (v AND 0x3F))" by simp
qed

lemma base64_enc_map_codes: "base64_enc_map =
    [65, 66, 67, 68, 69, 70, 71, 72, 73, 74, 75, 76, 77, 78, 79, 80, 81, 82, 83, 84, 85, 86, 87, 88, 89,
    90, 97, 98, 99, 100, 101, 102, 103, 104, 105, 106, 107, 108, 109, 110, 111, 112, 113, 114, 115, 116,
    117, 118, 119, 120, 121, 122, 48, 49, 50, 51, 52, 53, 54, 55, 56, 57, 43, 47]"
  by (simp add: base64_enc_map_def cstr_def)

lemma enc_facts:
  "dec (enc v) = ucast (v AND 0x3F)" "enc v \<noteq> PAD" "\<not> base64_blank (enc v)" "enc v \<le> 127" "dec (enc v) < 64"
proof -
  have "\<forall>i \<in> set [0 ..< 64]. dec (base64_enc_map ! i) = of_nat i \<and> base64_enc_map ! i \<noteq> PAD \<and>
          \<not> base64_blank (base64_enc_map ! i) \<and> base64_enc_map ! i \<le> 127 \<and> dec (base64_enc_map ! i) < 64"
    unfolding base64_enc_map_codes by code_simp
  note all_sextets [OF this, of v]
  moreover have "(of_nat (unat (v AND 0x3F)) :: u8) = ucast (v AND 0x3F)" by simp
  ultimately show "dec (enc v) = ucast (v AND 0x3F)" "enc v \<noteq> PAD" "\<not> base64_blank (enc v)" "enc v \<le> 127" "dec (enc v) < 64"
    unfolding enc_def by auto
qed

lemma dec_PAD: "dec PAD = 64"
  by code_simp

lemma dec_CR: "dec 13 = 127"
  by code_simp

lemma dec_cases: "c \<le> 127 \<Longrightarrow> dec c \<noteq> 127 \<Longrightarrow> c = PAD \<or> dec c < 64"
proof -
  assume "c \<le> 127" and "dec c \<noteq> 127"
  have all: "\<forall>i \<in> set [0 ..< 128]. base64_dec_map ! i = 127 \<or> i = 61 \<or> base64_dec_map ! i < 64"
    by code_simp
  have "unat c \<in> set [0 ..< 128]" using \<open>c \<le> 127\<close> by (simp add: word_le_nat_alt)
  with all have "dec c = 127 \<or> unat c = 61 \<or> dec c < 64" unfolding dec_def by blast
  with \<open>dec c \<noteq> 127\<close> show ?thesis by (auto simp: word_unat_eq_iff)
qed

section \<open>The decoder stays within its buffer\<close>

text \<open>
  What the first pass accepts, blanks aside: sextets followed by at most two padding characters.
\<close>

lemma base64_scan_Some:
  "base64_scan src x n j = Some (n', j') \<Longrightarrow> j \<le> 2 \<Longrightarrow>
   \<exists>body k. filter (\<lambda>c. \<not> base64_blank c) src = body @ replicate k PAD \<and> (\<forall>c \<in> set body. dec c < 64) \<and>
     n' = n + length body + k \<and> j' = j + k \<and> j' \<le> 2 \<and> (j > 0 \<longrightarrow> body = [])"
proof (induction src x n j rule: base64_scan.induct)
  case (2 c cs x n j)
  show ?case
  proof (cases "base64_blank c")
    case True
    with 2 show ?thesis by (auto simp: base64_blank_def dec_CR split: if_splits)
  next
    case False
    then have nb: "c \<noteq> 32" "c \<noteq> 13" "c \<noteq> 10" by (simp_all add: base64_blank_def)
    let ?j = "if c = PAD then j + 1 else j"
    from 2(5) nb have ok: "x = 0" "\<not> (c = PAD \<and> ?j > 2)" "\<not> (c > 127 \<or> dec c = 127)" "\<not> (dec c < 64 \<and> ?j \<noteq> 0)"
      and rec: "base64_scan cs 0 (n + 1) ?j = Some (n', j')"
      by (auto simp: Let_def split: if_splits)
    from ok 2(6) have j: "?j \<le> 2" by (auto split: if_splits)
    obtain body k where b: "filter (\<lambda>c. \<not> base64_blank c) cs = body @ replicate k PAD"
        "\<forall>c \<in> set body. dec c < 64" "n' = n + 1 + length body + k" "j' = ?j + k" "j' \<le> 2" "?j > 0 \<longrightarrow> body = []"
      using 2(4) [of ?j] nb ok rec j by auto
    show ?thesis
    proof (cases "c = PAD")
      case True
      with b False show ?thesis
        by (intro exI [of _ "[]"] exI [of _ "Suc k"]) (auto simp: replicate_append_same)
    next
      case notpad: False
      with dec_cases [of c] ok have "dec c < 64" "j = 0" by (auto simp: not_less)
      with b False notpad show ?thesis
        by (intro exI [of _ "c # body"] exI [of _ k]) auto
    qed
  qed
qed simp

lemma base64_emit_filter:
  "base64_emit src j n x = base64_emit (filter (\<lambda>c. \<not> base64_blank c) src) j n x"
  by (induction src j n x rule: base64_emit.induct) (auto simp: base64_blank_def Let_def)

lemma base64_emit_pads:
  "n < 4 \<Longrightarrow> k \<le> 2 \<Longrightarrow> length (base64_emit (replicate k PAD) 3 n x) \<le> ((n + k) * 6 + 7) div 8 - k"
  by (cases k; cases "k - 1") (auto simp: dec_PAD Let_def numeral_2_eq_2)

lemma base64_emit_length:
  "\<forall>c \<in> set body. dec c < 64 \<and> \<not> base64_blank c \<Longrightarrow> n < 4 \<Longrightarrow> k \<le> 2 \<Longrightarrow>
   length (base64_emit (body @ replicate k PAD) 3 n x) \<le> ((n + length body + k) * 6 + 7) div 8 - k"
proof (induction body arbitrary: n x)
  case Nil
  then show ?case using base64_emit_pads [of n k x] by simp
next
  case (Cons c cs)
  then have c: "c \<noteq> 13" "c \<noteq> 10" "c \<noteq> 32" "dec c \<noteq> 64" by (auto simp: base64_blank_def)
  let ?x = "push_bit 6 x OR ucast (dec c AND 0x3F)"
  show ?case
  proof (cases "n = 3")
    case True
    have "length (base64_emit (cs @ replicate k PAD) 3 0 ?x) \<le> ((0 + length cs + k) * 6 + 7) div 8 - k"
      using Cons.prems by (intro Cons.IH) auto
    moreover have "((n + length (c # cs) + k) * 6 + 7) div 8 = 3 + ((length cs + k) * 6 + 7) div 8"
    proof -
      have "(n + length (c # cs) + k) * 6 + 7 = (length cs + k) * 6 + 7 + 3 * 8" using True by simp
      then show ?thesis by (simp only: div_mult_self3)
    qed
    moreover have "k \<le> ((length cs + k) * 6 + 7) div 8"
      using Cons.prems(3) by (simp add: div_le_mono le_div_geq less_eq_div_iff_mult_less_eq)
    ultimately show ?thesis using True c by (simp add: Let_def)
  next
    case False
    with Cons.prems have "length (base64_emit (cs @ replicate k PAD) 3 (n + 1) ?x)
        \<le> ((n + 1 + length cs + k) * 6 + 7) div 8 - k"
      by (intro Cons.IH) auto
    with False c show ?thesis by (simp add: Let_def)
  qed
qed

lemma base64decode_in_bounds: "\<exists>r. qcloud_iot_utils_base64decode dst src = Some r"
proof (cases "base64_scan src 0 0 0")
  case (Some p)
  obtain n j where p: "p = (n, j)" by (cases p)
  from base64_scan_Some [OF Some [unfolded p]] obtain body k
    where b: "filter (\<lambda>c. \<not> base64_blank c) src = body @ replicate k PAD" "\<forall>c \<in> set body. dec c < 64"
      "n = length body + k" "j = k" "k \<le> 2"
    by auto
  have "\<forall>c \<in> set body. \<not> base64_blank c"
  proof
    fix c assume "c \<in> set body"
    then have "c \<in> set (filter (\<lambda>c. \<not> base64_blank c) src)" unfolding b(1) by simp
    then show "\<not> base64_blank c" by simp
  qed
  with b base64_emit_length [of body 0 k 0]
  have "length (base64_emit src 3 0 0) \<le> (n * 6 + 7) div 8 - j"
    by (subst base64_emit_filter) simp
  then show ?thesis using Some p
    by (auto simp: qcloud_iot_utils_base64decode_def Let_def buf_write_def)
qed (simp add: qcloud_iot_utils_base64decode_def)

section \<open>Decoding inverts encoding\<close>

lemma length_base64_groups: "length (base64_groups src) = 4 * (length src div 3 + (if length src mod 3 \<noteq> 0 then 1 else 0))"
  by (induction src rule: base64_groups.induct) (auto simp: Let_def div_add_self1)

lemma enc_not_blank: "enc v \<noteq> 13" "enc v \<noteq> 10" "enc v \<noteq> 32" "dec (enc v) \<noteq> 64" "\<not> enc v > 127" "dec (enc v) \<noteq> 127"
  using enc_facts [of v] by (auto simp: base64_blank_def)

lemma base64_scan_enc: "base64_scan (enc v # cs) 0 n 0 = base64_scan cs 0 (n + 1) 0"
  using enc_not_blank [of v] enc_facts [of v] by (simp add: Let_def)

lemma base64_scan_groups:
  "base64_scan (base64_groups src) 0 m 0 =
     Some (m + length (base64_groups src), (3 - length src mod 3) mod 3)"
proof (induction src arbitrary: m rule: base64_groups.induct)
  case (1 a b c src)
  then show ?case by (simp add: Let_def base64_scan_enc del: base64_scan.simps)
next
  case (2 a b)
  then show ?case by (simp add: Let_def base64_scan_enc del: base64_scan.simps) (simp add: dec_PAD)
next
  case (3 a)
  then show ?case by (simp add: Let_def base64_scan_enc del: base64_scan.simps) (simp add: dec_PAD)
qed simp

lemma sextet_masks:
  "x AND 0x3F = take_bit 6 (x :: u32)" "y AND 0x3F = take_bit 6 (y :: u8)" "x AND 3 = take_bit 2 x" "x AND 15 = take_bit 4 x"
  by (simp_all add: take_bit_eq_mask mask_eq_exp_minus_1)

lemma base64_emit_enc:
  "base64_emit (enc v # cs) j n x =
     (let x = push_bit 6 x OR (v AND 0x3F)
      in if n + 1 = 4
         then (if j > 0 then [ucast (drop_bit 16 x)] else []) @ (if j > 1 then [ucast (drop_bit 8 x)] else []) @
              (if j > 2 then [ucast x] else []) @ base64_emit cs j 0 x
         else base64_emit cs j (n + 1) x)"
proof -
  have "(ucast ((ucast (v AND 0x3F) :: u8) AND 0x3F) :: u32) = v AND 0x3F"
    unfolding sextet_masks by (rule bit_word_eqI) (auto simp: bit_simps)
  then show ?thesis
    using enc_not_blank [of v] enc_facts(1) [of v] by (simp add: Let_def)
qed

text \<open>Three bytes packed into four sextets and unpacked again.\<close>

lemma sextets_add:
  "push_bit 4 ((ucast (a :: u8) :: u32) AND 3) + drop_bit 4 (ucast (b :: u8)) =
     push_bit 4 (ucast a AND 3) OR drop_bit 4 (ucast b)"
  "push_bit 2 ((ucast (b :: u8) :: u32) AND 15) + drop_bit 6 (ucast (c :: u8)) =
     push_bit 2 (ucast b AND 15) OR drop_bit 6 (ucast c)"
  unfolding sextet_masks
  by (rule disjunctive_add_eq_or, rule bit_word_eqI, auto simp: bit_simps dest: bit_imp_le_length)+

lemma sextets_bytes:
  fixes a b c :: u8 and x p q r s :: u32
  assumes "p = drop_bit 2 (ucast a) AND 0x3F" and "q = (push_bit 4 (ucast a AND 3) + drop_bit 4 (ucast b)) AND 0x3F"
    and "r = (push_bit 2 (ucast b AND 15) + drop_bit 6 (ucast c)) AND 0x3F" and "s = ucast c AND 0x3F"
  defines "X \<equiv> push_bit 6 (push_bit 6 (push_bit 6 (push_bit 6 x OR p) OR q) OR r) OR s"
  shows "ucast (drop_bit 16 X) = a" and "ucast (drop_bit 8 X) = b" and "ucast X = c"
proof -
  have X: "X = push_bit 6 (push_bit 6 (push_bit 6 (push_bit 6 x OR take_bit 6 (drop_bit 2 (ucast a))) OR
      take_bit 6 (push_bit 4 (take_bit 2 (ucast a)) OR drop_bit 4 (ucast b))) OR
      take_bit 6 (push_bit 2 (take_bit 4 (ucast b)) OR drop_bit 6 (ucast c))) OR take_bit 6 (ucast c)"
    unfolding X_def assms(1-4) sextets_add unfolding sextet_masks ..
  show "ucast (drop_bit 16 X) = a"
    unfolding X by (rule u8_bit_eqI, elim insertE emptyE) (auto simp: bit_simps simp del: push_bit_Suc dest: bit_imp_le_length)
  show "ucast (drop_bit 8 X) = b"
    unfolding X by (rule u8_bit_eqI, elim insertE emptyE) (auto simp: bit_simps simp del: push_bit_Suc dest: bit_imp_le_length)
  show "ucast X = c"
    unfolding X by (rule u8_bit_eqI, elim insertE emptyE) (simp_all add: bit_simps del: push_bit_Suc)
qed

lemma base64_emit_groups: "base64_emit (base64_groups src) 3 0 x = src"
proof (induction src arbitrary: x rule: base64_groups.induct)
  case (1 a b c src)
  note bytes = sextets_bytes [OF refl refl refl refl, where a = a and b = b and c = c and x = x]
  show ?case
    using bytes 1 by (simp add: Let_def base64_emit_enc del: base64_emit.simps)
next
  case (2 a b)
  note bytes = sextets_bytes [OF refl refl refl refl, where a = a and b = b and c = 0 and x = x]
  then show ?case
    by (simp add: Let_def base64_emit_enc del: base64_emit.simps) (simp add: dec_PAD)
next
  case (3 a)
  note bytes = sextets_bytes [OF refl refl refl refl, where a = a and b = 0 and c = 0 and x = x]
  then show ?case
    by (simp add: Let_def base64_emit_enc del: base64_emit.simps) (simp add: dec_PAD)
qed simp

lemma base64decode_groups:
  assumes "src \<noteq> []" and "length src \<le> length dst"
  shows "qcloud_iot_utils_base64decode dst (base64_groups src) =
           Some (0, Some (length src), src @ drop (length src) dst)"
proof -
  let ?q = "length src div 3 + (if length src mod 3 \<noteq> 0 then 1 else 0)"
  have len: "(length (base64_groups src) * 6 + 7) div 8 = 3 * ?q"
    unfolding length_base64_groups by simp
  have size: "3 * ?q - (3 - length src mod 3) mod 3 = length src"
  proof -
    have "length src = 3 * (length src div 3) + length src mod 3" by simp
    moreover have "length src mod 3 = 0 \<or> length src mod 3 = 1 \<or> length src mod 3 = 2" by linarith
    ultimately show ?thesis by (elim disjE) simp_all
  qed
  have ne: "length (base64_groups src) \<noteq> 0"
  proof
    assume "length (base64_groups src) = 0"
    then have q: "?q = 0" unfolding length_base64_groups by (simp only: mult_eq_0_iff) simp
    have "length src = 3 * ?q - (3 - length src mod 3) mod 3" by (rule size [symmetric])
    also have "\<dots> = 0" unfolding q by simp
    finally show False using assms(1) by simp
  qed
  have "base64_scan (base64_groups src) 0 0 0 = Some (length (base64_groups src), (3 - length src mod 3) mod 3)"
    by (simp add: base64_scan_groups)
  with assms(2) len size ne show ?thesis
    by (simp add: qcloud_iot_utils_base64decode_def Let_def base64_emit_groups buf_write_def)
qed

text \<open>The encoder's output: the groups and a terminating zero, exactly when the buffer has room for both.\<close>

lemma base64encode_groups:
  assumes "src \<noteq> []" and "length src < 2 ^ 62"
  shows "length dst \<ge> length (base64_groups src) + 1 \<Longrightarrow>
           qcloud_iot_utils_base64encode dst src =
             Some (0, length (base64_groups src), base64_groups src @ 0 # drop (length (base64_groups src) + 1) dst)"
    and "length dst < length (base64_groups src) + 1 \<Longrightarrow>
           qcloud_iot_utils_base64encode dst src =
             Some (QCLOUD_ERR_FAILURE, length (base64_groups src) + 1, dst)"
proof -
  let ?g = "base64_groups src" and ?q = "length src div 3 + (if length src mod 3 \<noteq> 0 then 1 else 0)"
  have "length src div 3 < 2 ^ 61" using assms(2) by (simp add: div_less_iff_less_mult)
  then have "?q < 2 ^ 62 - 1" by simp
  then have q: "\<not> (2 ^ 64 - 2) div 4 < ?q" by (simp only: not_less) simp
  have g: "?q * 4 = length ?g" unfolding length_base64_groups by (rule mult.commute)
  have unfold: "qcloud_iot_utils_base64encode dst src =
      (if length dst < length ?g + 1 then Some (QCLOUD_ERR_FAILURE, length ?g + 1, dst)
       else buf_write dst 0 ?g \<bind> (\<lambda>dst. buf_put dst (length ?g) 0 \<bind> (\<lambda>dst. Some (0, length ?g, dst))))"
    using assms(1) q unfolding qcloud_iot_utils_base64encode_def Let_def g by simp
  show "qcloud_iot_utils_base64encode dst src = Some (0, length ?g, ?g @ 0 # drop (length ?g + 1) dst)"
    if "length dst \<ge> length ?g + 1"
    using that unfolding unfold
    by (simp add: buf_put_eq_write buf_write_append_at) (simp add: buf_write_def)
  show "qcloud_iot_utils_base64encode dst src = Some (QCLOUD_ERR_FAILURE, length ?g + 1, dst)"
    if "length dst < length ?g + 1"
    using that unfolding unfold by simp
qed

section \<open>Properties\<close>

text \<open>
  C36: Base64 decoding undoes encoding: what the encoder leaves in its array, up to the terminating
  zero, decodes to the source.
\<close>

theorem base64_roundtrip:
  assumes "src \<noteq> []" and "length src < 2 ^ 62" and "4 * (length src div 3 + 1) < length dst" and "length src \<le> length out"
  shows "\<exists>olen enc_out. qcloud_iot_utils_base64encode dst src = Some (0, olen, enc_out) \<and> olen < length enc_out \<and>
     enc_out ! olen = 0 \<and>
     qcloud_iot_utils_base64decode out (take olen enc_out) = Some (0, Some (length src), src @ drop (length src) out)"
proof -
  let ?g = "base64_groups src"
  have "length ?g + 1 \<le> length dst"
    using assms(3) by (simp add: length_base64_groups split: if_splits)
  with base64encode_groups(1) [OF assms(1,2)]
  have enc: "qcloud_iot_utils_base64encode dst src = Some (0, length ?g, ?g @ 0 # drop (length ?g + 1) dst)" by simp
  from base64decode_groups [OF assms(1,4)] show ?thesis
    by (intro exI [of _ "length ?g"] exI [of _ "?g @ 0 # drop (length ?g + 1) dst"]) (simp add: enc)
qed

theorem base64_roundtrip_witness:
  "\<exists>olen enc_out. qcloud_iot_utils_base64encode (replicate 16 0) (cstr ''hello'') = Some (0, olen, enc_out) \<and>
     qcloud_iot_utils_base64decode (replicate 8 0) (take olen enc_out) = Some (0, Some 5, cstr ''hello'' @ [0, 0, 0])"
proof -
  have "cstr ''hello'' \<noteq> []" "length (cstr ''hello'') < 2 ^ 62"
    "4 * (length (cstr ''hello'') div 3 + 1) < length (replicate 16 (0 :: u8))"
    "length (cstr ''hello'') \<le> length (replicate 8 (0 :: u8))"
    by (simp_all add: cstr_def)
  note rt = base64_roundtrip [OF this]
  have "drop (length (cstr ''hello'')) (replicate 8 0) = ([0, 0, 0] :: u8 list)" "length (cstr ''hello'') = 5"
    by (simp_all add: cstr_def drop_replicate numeral_3_eq_3)
  with rt show ?thesis by auto
qed

text \<open>
  Decoding is safe on every input: for any source bytes and any destination array it returns and
  never writes outside the array, which keeps its size.
\<close>

lemma base64decode_safe:
  "\<exists>rc olen out. qcloud_iot_utils_base64decode dst src = Some (rc, olen, out) \<and> length out = length dst \<and>
     (rc = 0 \<longrightarrow> (\<exists>n. olen = Some n \<and> n \<le> length dst \<and> drop n out = drop n dst))"
proof -
  obtain rc olen out where r: "qcloud_iot_utils_base64decode dst src = Some (rc, olen, out)"
    using base64decode_in_bounds [of dst src] by auto
  then have "length out = length dst \<and> (rc = 0 \<longrightarrow> (\<exists>n. olen = Some n \<and> n \<le> length dst \<and> drop n out = drop n dst))"
    by (auto simp: qcloud_iot_utils_base64decode_def Let_def bind_Some_iff buf_write_def split: option.splits if_splits)
  with r show ?thesis by blast
qed

end
