(* ===== verification/Mqtt_Api.thy ===== *)
theory Mqtt_Api
  imports Mqtt_Client Utils_Hmac Utils_Base64
begin

text \<open>
  The operations of the MQTT client: \<^verbatim>\<open>mqtt_client_publish.c\<close>, \<^verbatim>\<open>mqtt_client_subscribe.c\<close>,
  \<^verbatim>\<open>mqtt_client_unsubscribe.c\<close>, \<^verbatim>\<open>mqtt_client_connect.c\<close>, \<^verbatim>\<open>mqtt_client_yield.c\<close> and
  \<^verbatim>\<open>mqtt_client.c\<close> under \<^verbatim>\<open>sdk_src/protocol/mqtt\<close>, with \<^verbatim>\<open>iot_device_info_set\<close> and
  \<^verbatim>\<open>iot_get_mqtt_domain\<close> of \<^verbatim>\<open>sdk_src/utils\<close>.

  A string argument is \<open>None\<close> for a null pointer.
\<close>

section \<open>Publishing\<close>

definition mask_push_pubInfo_to ::
  "'w os \<Rightarrow> nat \<Rightarrow> u16 \<Rightarrow> 'w client \<Rightarrow> ((int + nat) \<times> 'w client) option" where
  "mask_push_pubInfo_to os len msgId c =
     (if len > write_buf_size c then Some (Inl QCLOUD_ERR_FAILURE, c)
      else if length (list_pub_wait_ack c) \<ge> MAX_REPUB_NUM then Some (Inl QCLOUD_ERR_FAILURE, c)
      else case HAL_Malloc os c of
             (None, c) \<Rightarrow> Some (Inl QCLOUD_ERR_FAILURE, c)
           | (Some repubInfo, c) \<Rightarrow>
               (case countdown_ms os InitTimer (command_timeout_ms c) c of
                  (start, c) \<Rightarrow> do {
                    buf \<leftarrow> buf_read (write_buf c) 0 len;
                    let info = \<lparr>pub_start_time = start, pub_node_state = MQTT_NODE_STATE_NORMANL,
                                pub_msg_id = msgId, pub_buf = buf\<rparr>;
                    (case HAL_Malloc os c of
                       (None, c) \<Rightarrow> Some (Inl QCLOUD_ERR_FAILURE, c)
                     | (Some node, c) \<Rightarrow>
                         Some (Inr node, c\<lparr>list_pub_wait_ack := nodes_rpush (list_pub_wait_ack c) node info\<rparr>))
                  }))"

text \<open>The result is the packet id, which for QoS 0 is whatever the caller left in \<^verbatim>\<open>pParams->id\<close>.\<close>

definition qcloud_iot_mqtt_publish ::
  "'w os \<Rightarrow> cstring option \<Rightarrow> PublishParams \<Rightarrow> 'w client \<Rightarrow> (int \<times> PublishParams \<times> 'w client) option" where
  "qcloud_iot_mqtt_publish os topicName pParams c =
     (case topicName of
        None \<Rightarrow> Some (QCLOUD_ERR_INVAL, pParams, c)
      | Some topicName \<Rightarrow>
          if length topicName = 0 then Some (QCLOUD_ERR_INVAL, pParams, c)
          else if length topicName > MAX_SIZE_OF_CLOUD_TOPIC then Some (QCLOUD_ERR_MAX_TOPIC_LENGTH, pParams, c)
          else if pp_qos pParams = QOS2 then Some (QCLOUD_ERR_MQTT_QOS_NOT_SUPPORT, pParams, c)
          else if \<not> get_client_conn_state c then Some (QCLOUD_ERR_MQTT_NO_CONN, pParams, c)
          else do {
            let (timer, c) = countdown_ms os InitTimer (command_timeout_ms c) c;
            let (pParams, c) = (if pp_qos pParams = QOS1
                                then let (i, c) = get_next_packet_id c in (pParams\<lparr>pp_id := i\<rparr>, c)
                                else (pParams, c));
            r \<leftarrow> serialize_publish_packet (write_buf c) (write_buf_size c) 0 (pp_qos pParams) (pp_retained pParams)
                   (pp_id pParams) topicName (pp_payload pParams);
            (case r of
               Inl rc \<Rightarrow> Some (rc, pParams, c)
             | Inr (buf, len) \<Rightarrow> do {
                 let c = c\<lparr>write_buf := buf\<rparr>;
                 (p, c) \<leftarrow> (if pp_qos pParams > QOS0 then mask_push_pubInfo_to os len (pp_id pParams) c
                           else Some (Inr 0, c));
                 (case p of
                    Inl rc \<Rightarrow> Some (rc, pParams, c)
                  | Inr node \<Rightarrow> do {
                      (rc, c) \<leftarrow> send_mqtt_packet os len timer c;
                      if rc \<noteq> QCLOUD_RET_SUCCESS
                      then Some (rc, pParams,
                             if pp_qos pParams > QOS0
                             then c\<lparr>list_pub_wait_ack := nodes_remove (list_pub_wait_ack c) node\<rparr> else c)
                      else Some (uint (pp_id pParams), pParams, c)
                    })
               })
          })"

section \<open>Subscribing\<close>

definition qcloud_iot_mqtt_subscribe ::
  "'w os \<Rightarrow> cstring option \<Rightarrow> SubscribeParams \<Rightarrow> 'w client \<Rightarrow> (int \<times> 'w client) option" where
  "qcloud_iot_mqtt_subscribe os topicFilter pParams c =
     (case topicFilter of
        None \<Rightarrow> Some (QCLOUD_ERR_INVAL, c)
      | Some topicFilter \<Rightarrow>
          if length topicFilter = 0 then Some (QCLOUD_ERR_INVAL, c)
          else if length topicFilter > MAX_SIZE_OF_CLOUD_TOPIC then Some (QCLOUD_ERR_MAX_TOPIC_LENGTH, c)
          else if sp_qos pParams = QOS2 then Some (QCLOUD_ERR_MQTT_QOS_NOT_SUPPORT, c)
          else if \<not> get_client_conn_state c then Some (QCLOUD_ERR_MQTT_NO_CONN, c)
          else case HAL_Malloc os c of
                 (None, c) \<Rightarrow> Some (QCLOUD_ERR_FAILURE, c)
               | (Some topic_filter_stored, c) \<Rightarrow> do {
                   let (timer, c) = countdown_ms os InitTimer (command_timeout_ms c) c;
                   let (packet_id, c) = get_next_packet_id c;
                   r \<leftarrow> serialize_subscribe_packet (write_buf c) (write_buf_size c) 0 packet_id 1 topicFilter
                          [sp_qos pParams];
                   (case r of
                      Inl rc \<Rightarrow> Some (rc, c)
                    | Inr (buf, len) \<Rightarrow> do {
                        let c = c\<lparr>write_buf := buf\<rparr>;
                        let sub_handle = \<lparr>topic_filter = Some topicFilter,
                              message_handler = on_message_handler pParams,
                              sub_event_handler = on_sub_event_handler pParams,
                              handler_user_data = user_data pParams, sh_qos = sp_qos pParams\<rparr>;
                        (p, c) \<leftarrow> push_sub_info_to os len packet_id SUBSCRIBE sub_handle c;
                        (case p of
                           Inl rc \<Rightarrow> Some (rc, c)
                         | Inr node \<Rightarrow> do {
                             (rc, c) \<leftarrow> send_mqtt_packet os len timer c;
                             if rc \<noteq> QCLOUD_RET_SUCCESS
                             then Some (rc, c\<lparr>list_sub_wait_ack := nodes_remove (list_sub_wait_ack c) node\<rparr>)
                             else Some (uint packet_id, c)
                           })
                      })
                 })"

primrec resubscribe_loop :: "'w os \<Rightarrow> nat list \<Rightarrow> 'w client \<Rightarrow> (int \<times> 'w client) option" where
  "resubscribe_loop os [] c = Some (QCLOUD_RET_SUCCESS, c)"
| "resubscribe_loop os (itr # itrs) c = do {
     h \<leftarrow> buf_get (sub_handles c) itr;
     (case topic_filter h of
        None \<Rightarrow> resubscribe_loop os itrs c
      | Some topic \<Rightarrow> do {
          let temp_param = \<lparr>sp_qos = sh_qos h, on_message_handler = message_handler h,
                            on_sub_event_handler = sub_event_handler h, user_data = handler_user_data h\<rparr>;
          (rc, c) \<leftarrow> qcloud_iot_mqtt_subscribe os (Some topic) temp_param c;
          if rc < 0 then Some (rc, c) else resubscribe_loop os itrs c
        })
   }"

definition qcloud_iot_mqtt_resubscribe :: "'w os \<Rightarrow> 'w client \<Rightarrow> (int \<times> 'w client) option" where
  "qcloud_iot_mqtt_resubscribe os c =
     (if \<not> get_client_conn_state c then Some (QCLOUD_ERR_MQTT_NO_CONN, c)
      else resubscribe_loop os [0 ..< MAX_MESSAGE_HANDLERS] c)"

text \<open>\<^verbatim>\<open>strstr(s, "/#") != NULL || strstr(s, "/+") != NULL\<close>\<close>

fun has_wildcard_level :: "cstring \<Rightarrow> bool" where
  "has_wildcard_level (a # b # s) = ((a = SLASH \<and> (b = HASH \<or> b = PLUS)) \<or> has_wildcard_level (b # s))"
| "has_wildcard_level s = False"

definition qcloud_iot_mqtt_is_sub_ready :: "cstring option \<Rightarrow> 'w client \<Rightarrow> bool" where
  "qcloud_iot_mqtt_is_sub_ready topicFilter c =
     (case topicFilter of
        None \<Rightarrow> False
      | Some topicFilter \<Rightarrow>
          if length topicFilter = 0 then False
          else if length topicFilter > MAX_SIZE_OF_CLOUD_TOPIC then False
          else \<exists>h \<in> set (sub_handles c). topic_filter h = Some topicFilter \<or> has_wildcard_level topicFilter)"

section \<open>Unsubscribing\<close>

text \<open>
  The loop over the handles: each one that goes is announced to its subscriber, if it has one.
  A filter with a wildcard level makes every handle go, the empty ones too.
\<close>

fun drop_handles ::
  "cstring \<Rightarrow> SubTopicHandle list \<Rightarrow> 'w client \<Rightarrow> bool \<times> SubTopicHandle list \<times> 'w client" where
  "drop_handles topicFilter [] c = (False, [], c)"
| "drop_handles topicFilter (h # hs) c =
     (if topic_filter h = Some topicFilter \<or> has_wildcard_level topicFilter
      then let c = notify_subscriber h MQTT_EVENT_UNSUBSCRIBE c;
               (suber_exists, hs, c) = drop_handles topicFilter hs c
           in (True, h\<lparr>topic_filter := None\<rparr> # hs, c)
      else let (suber_exists, hs, c) = drop_handles topicFilter hs c in (suber_exists, h # hs, c))"

definition qcloud_iot_mqtt_unsubscribe ::
  "'w os \<Rightarrow> cstring option \<Rightarrow> 'w client \<Rightarrow> (int \<times> 'w client) option" where
  "qcloud_iot_mqtt_unsubscribe os topicFilter c =
     (case topicFilter of
        None \<Rightarrow> Some (QCLOUD_ERR_INVAL, c)
      | Some topicFilter \<Rightarrow>
          if length topicFilter = 0 then Some (QCLOUD_ERR_INVAL, c)
          else if length topicFilter > MAX_SIZE_OF_CLOUD_TOPIC then Some (QCLOUD_ERR_MAX_TOPIC_LENGTH, c)
          else let (suber_exists, hs, c) = drop_handles topicFilter (sub_handles c) c;
                   c = c\<lparr>sub_handles := hs\<rparr>
               in if \<not> suber_exists then Some (QCLOUD_ERR_MQTT_UNSUB_FAIL, c)
                  else if \<not> get_client_conn_state c then Some (QCLOUD_ERR_MQTT_NO_CONN, c)
                  else (case HAL_Malloc os c of
                    (None, c) \<Rightarrow> Some (QCLOUD_ERR_FAILURE, c)
                  | (Some topic_filter_stored, c) \<Rightarrow> do {
                      let (timer, c) = countdown_ms os InitTimer (command_timeout_ms c) c;
                      let (packet_id, c) = get_next_packet_id c;
                      r \<leftarrow> serialize_unsubscribe_packet (write_buf c) (write_buf_size c) 0 packet_id 1 topicFilter;
                      (case r of
                         Inl rc \<Rightarrow> Some (rc, c)
                       | Inr (buf, len) \<Rightarrow> do {
                           let c = c\<lparr>write_buf := buf\<rparr>;
                           let sub_handle = null_handle\<lparr>topic_filter := Some topicFilter\<rparr>;
                           (p, c) \<leftarrow> push_sub_info_to os len packet_id UNSUBSCRIBE sub_handle c;
                           (case p of
                              Inl rc \<Rightarrow> Some (rc, c)
                            | Inr node \<Rightarrow> do {
                                (rc, c) \<leftarrow> send_mqtt_packet os len timer c;
                                if rc \<noteq> QCLOUD_RET_SUCCESS
                                then Some (rc, c\<lparr>list_sub_wait_ack := nodes_remove (list_sub_wait_ack c) node\<rparr>)
                                else Some (uint packet_id, c)
                              })
                         })
                    }))"

section \<open>Connecting\<close>

definition get_packet_connect_rem_len :: "u8 \<Rightarrow> cstring \<Rightarrow> cstring option \<Rightarrow> cstring option \<Rightarrow> u32" where
  "get_packet_connect_rem_len version cid username password =
     (let len = (if version = 3 then 12 else if version = 4 then 10 else 0);
          len = len + (length cid + 2);
          len = (case username of None \<Rightarrow> len | Some u \<Rightarrow> len + (length u + 2));
          len = (case password of None \<Rightarrow> len | Some p \<Rightarrow> len + (length p + 2))
      in of_nat len)"

text \<open>
  \<^verbatim>\<open>HAL_Snprintf\<close> into an array of \<open>n\<close> bytes keeps the first \<open>n - 1\<close> characters.
  \<^verbatim>\<open>MAX_ACCESS_EXPIRE_TIMEOUT\<close> is 0 in \<^verbatim>\<open>include/qcloud_iot_export_variables.h\<close>, so \<^verbatim>\<open>cur_timesec\<close> is always
  \<^verbatim>\<open>LONG_MAX\<close>.
\<close>

definition snprintf :: "nat \<Rightarrow> cstring \<Rightarrow> cstring" where
  "snprintf n s = take (n - 1) s"

definition connect_username :: "cstring \<Rightarrow> cstring \<Rightarrow> cstring" where
  "connect_username cid conn =
     snprintf (length cid + 8 + 6 + 20)
       (cid @ cstr '';'' @ cstr ''21010406'' @ cstr '';'' @ conn @ cstr '';'' @ cstr ''9223372036854775807'')"

text \<open>The password: the hexadecimal signature in an array of 41 zero bytes, and the method's name.\<close>

definition connect_password :: "cstring \<Rightarrow> u8 list \<Rightarrow> cstring option" where
  "connect_password username secret = do {
     sign \<leftarrow> utils_hmac_sha1 username (replicate 41 0) secret;
     s \<leftarrow> c_string sign;
     Some (snprintf 51 (s @ cstr '';hmacsha1''))
   }"

text \<open>
  \<^verbatim>\<open>username\<close> and \<^verbatim>\<open>password\<close> are fields of the options only between their allocation and the end of
  this function, which resets both to null on every path; here they are local.
\<close>

definition serialize_connect_packet ::
  "'w os \<Rightarrow> 'w client \<Rightarrow> ((int + nat) \<times> 'w client) option" where
  "serialize_connect_packet os c =
     (case client_id (options c) of
        None \<Rightarrow> Some (Inl QCLOUD_ERR_INVAL, c)
      | Some cid \<Rightarrow>
          if length cid = 0 then Some (Inl QCLOUD_ERR_INVAL, c)
          else
            let (sec, w) = HAL_Timer_current_sec os (world c); c = c\<lparr>world := w\<rparr>
            in case HAL_Malloc os c of
              (None, c) \<Rightarrow> Some (Inl QCLOUD_ERR_MALLOC, c)
            | (Some user_mem, c) \<Rightarrow> do {
                let (conn, c) = get_next_conn_id os c;
                let c = c\<lparr>options := (options c)\<lparr>conn_id := conn\<rparr>\<rparr>;
                let username = connect_username cid conn;
                let opts = options c;
                (pw, c) \<leftarrow>
                  (case device_secret opts of
                     None \<Rightarrow> Some (Inr None, c)
                   | Some secret \<Rightarrow> do {
                       password \<leftarrow> connect_password username secret;
                       (case HAL_Malloc os c of
                          (None, c) \<Rightarrow> Some (Inl QCLOUD_ERR_MALLOC, c)
                        | (Some pass_mem, c) \<Rightarrow> Some (Inr (Some password), c))
                     });
                (case pw of
                   Inl rc \<Rightarrow> Some (Inl rc, c)
                 | Inr password \<Rightarrow>
                     let rem_len = get_packet_connect_rem_len (mqtt_version opts) cid (Some username) password
                     in if get_mqtt_packet_len (unat rem_len) > write_buf_size c
                        then Some (Inl QCLOUD_ERR_BUF_TOO_SHORT, c)
                        else case mqtt_init_packet_header CONNECT QOS0 0 0 of
                               Inl rc \<Rightarrow> Some (Inl rc, c)
                             | Inr header \<Rightarrow> do {
                                 let flags = (if clean_session opts \<noteq> 0 then 0x02 else 0) OR 0x80 OR (0x40 :: u8);
                                 (buf, p) \<leftarrow> mqtt_write_char (write_buf c) 0 header;
                                 (buf, n) \<leftarrow> mqtt_write_packet_rem_len buf p rem_len 0;
                                 let p = p + n;
                                 (buf, p) \<leftarrow> mqtt_write_utf8_string buf p
                                              (if mqtt_version opts = 4 then cstr ''MQTT'' else cstr ''MQIsdp'');
                                 (buf, p) \<leftarrow> mqtt_write_char buf p (if mqtt_version opts = 4 then 4 else 3);
                                 (buf, p) \<leftarrow> mqtt_write_char buf p flags;
                                 (buf, p) \<leftarrow> mqtt_write_uint_16 buf p (keep_alive_interval opts);
                                 (buf, p) \<leftarrow> mqtt_write_utf8_string buf p cid;
                                 (buf, p) \<leftarrow> mqtt_write_utf8_string buf p username;
                                 (buf, p) \<leftarrow> (case password of None \<Rightarrow> Some (buf, p)
                                             | Some pass \<Rightarrow> mqtt_write_utf8_string buf p pass);
                                 Some (Inr p, c\<lparr>write_buf := buf\<rparr>)
                               })
              })"

text \<open>\<^verbatim>\<open>_copy_connect_params\<close>: the fields that are copied; \<^verbatim>\<open>conn_id\<close> is not.\<close>

definition copy_connect_params :: "MQTTConnectParams \<Rightarrow> MQTTConnectParams \<Rightarrow> MQTTConnectParams" where
  "copy_connect_params dst src =
     dst\<lparr>mqtt_version := mqtt_version src, client_id := client_id src,
         keep_alive_interval := keep_alive_interval src, clean_session := clean_session src,
         auto_connect_enable := auto_connect_enable src, device_secret := device_secret src\<rparr>"

definition mqtt_connect ::
  "'w os \<Rightarrow> MQTTConnectParams \<Rightarrow> 'w client \<Rightarrow> (int \<times> 'w client) option" where
  "mqtt_connect os params c =
     (let (connect_timer, c) = countdown_ms os InitTimer (command_timeout_ms c) c;
          c = c\<lparr>options := copy_connect_params (options c) params\<rparr>;
          (rc, c) = net_connect c
      in if rc \<noteq> QCLOUD_RET_SUCCESS then Some (rc, c)
         else do {
           (r, c) \<leftarrow> serialize_connect_packet os c;
           (case r of
              Inl rc \<Rightarrow> Some (rc, c)
            | Inr len \<Rightarrow>
                if len = 0 then Some (QCLOUD_RET_SUCCESS, c)
                else do {
                  (rc, c) \<leftarrow> send_mqtt_packet os len connect_timer c;
                  if rc \<noteq> QCLOUD_RET_SUCCESS then Some (rc, c)
                  else do {
                    (rc, connect_timer, c) \<leftarrow> wait_for_read os (msg_code CONNACK) connect_timer 0 c;
                    if rc \<noteq> QCLOUD_RET_SUCCESS then Some (rc, c)
                    else do {
                      r \<leftarrow> deserialize_connack_packet (read_buf c) (read_buf_size c);
                      (case r of
                         Inl rc \<Rightarrow> Some (rc, c)
                       | Inr (sessionPresent, connack_rc) \<Rightarrow>
                           if connack_rc \<noteq> QCLOUD_RET_MQTT_CONNACK_CONNECTION_ACCEPTED then Some (connack_rc, c)
                           else let c = set_client_conn_state True c;
                                    c = c\<lparr>was_manually_disconnected := False, is_ping_outstanding := 0\<rparr>;
                                    (t, c) = countdown os (ping_timer c) (unat (keep_alive_interval (options c))) c
                                in Some (QCLOUD_RET_SUCCESS, c\<lparr>ping_timer := t\<rparr>))
                    }
                  }
                })
         })"

definition qcloud_iot_mqtt_connect ::
  "'w os \<Rightarrow> MQTTConnectParams \<Rightarrow> 'w client \<Rightarrow> (int \<times> 'w client) option" where
  "qcloud_iot_mqtt_connect os params c =
     (if get_client_conn_state c then Some (QCLOUD_RET_MQTT_ALREADY_CONNECTED, c)
      else do {
        (rc, c) \<leftarrow> mqtt_connect os params c;
        Some (rc, if rc \<noteq> QCLOUD_RET_SUCCESS then net_disconnect c else c)
      })"

definition qcloud_iot_mqtt_attempt_reconnect :: "'w os \<Rightarrow> 'w client \<Rightarrow> (int \<times> 'w client) option" where
  "qcloud_iot_mqtt_attempt_reconnect os c =
     (if get_client_conn_state c then Some (QCLOUD_RET_MQTT_ALREADY_CONNECTED, c)
      else do {
        (rc, c) \<leftarrow> qcloud_iot_mqtt_connect os (options c) c;
        if \<not> get_client_conn_state c then Some (rc, c)
        else do {
          (rc, c) \<leftarrow> qcloud_iot_mqtt_resubscribe os c;
          Some (if rc \<noteq> QCLOUD_RET_SUCCESS then rc else QCLOUD_RET_MQTT_RECONNECTED, c)
        }
      })"

definition qcloud_iot_mqtt_disconnect :: "'w os \<Rightarrow> 'w client \<Rightarrow> (int \<times> 'w client) option" where
  "qcloud_iot_mqtt_disconnect os c =
     (if \<not> get_client_conn_state c then Some (QCLOUD_ERR_MQTT_NO_CONN, c)
      else do {
        r \<leftarrow> serialize_packet_with_zero_payload (write_buf c) (write_buf_size c) DISCONNECT;
        (case r of
           Inl rc \<Rightarrow> Some (rc, c)
         | Inr (buf, serialized_len) \<Rightarrow> do {
             let c = c\<lparr>write_buf := buf\<rparr>;
             let (timer, c) = countdown_ms os InitTimer (command_timeout_ms c) c;
             (rc, c) \<leftarrow> (if serialized_len > 0 then send_mqtt_packet os serialized_len timer c
                         else Some (QCLOUD_RET_SUCCESS, c));
             if rc \<noteq> QCLOUD_RET_SUCCESS then Some (rc, c)
             else let c = set_client_conn_state False (net_disconnect c)
                  in Some (QCLOUD_RET_SUCCESS, c\<lparr>was_manually_disconnected := True\<rparr>)
           })
      })"

end
