(* ===== verification/Mqtt_Yield.thy ===== *)
theory Mqtt_Yield
  imports Mqtt_Api
begin

text \<open>
  Keeping a connection alive and taking it up again (\<^verbatim>\<open>mqtt_client_yield.c\<close>), and the life cycle of a
  client (\<^verbatim>\<open>mqtt_client.c\<close>), both under \<^verbatim>\<open>sdk_src/protocol/mqtt\<close>.
\<close>

abbreviation (input) MAX_RECONNECT_WAIT_INTERVAL :: u32 where "MAX_RECONNECT_WAIT_INTERVAL \<equiv> 60000"

section \<open>Losing and regaining the connection\<close>

definition get_random_interval :: "'w os \<Rightarrow> 'w client \<Rightarrow> u32 \<times> 'w client" where
  "get_random_interval os c =
     (let (r, c) = HAL_rand os (srand_time os c) in (of_nat ((r mod 100 + 100) * 10), c))"

definition iot_disconnect_callback :: "'w client \<Rightarrow> 'w client" where
  "iot_disconnect_callback c = notify_event MQTT_EVENT_DISCONNECT NoArg c"

definition reconnect_callback :: "'w client \<Rightarrow> 'w client" where
  "reconnect_callback c = notify_event MQTT_EVENT_RECONNECT NoArg c"

definition handle_disconnect :: "'w os \<Rightarrow> 'w client \<Rightarrow> (int \<times> 'w client) option" where
  "handle_disconnect os c =
     (if \<not> get_client_conn_state c then Some (QCLOUD_ERR_MQTT_NO_CONN, c)
      else do {
        (rc, c) \<leftarrow> qcloud_iot_mqtt_disconnect os c;
        let c = (if rc \<noteq> QCLOUD_RET_SUCCESS then set_client_conn_state False (net_disconnect c) else c);
        let c = iot_disconnect_callback c;
        Some (QCLOUD_ERR_MQTT_NO_CONN, c\<lparr>was_manually_disconnected := False\<rparr>)
      })"

definition set_reconnect_delay :: "'w os \<Rightarrow> 'w client \<Rightarrow> 'w client" where
  "set_reconnect_delay os c =
     (let (t, c) = countdown_ms os (reconnect_delay_timer c) (unat (current_reconnect_wait_interval c)) c
      in c\<lparr>reconnect_delay_timer := t\<rparr>)"

definition handle_reconnect :: "'w os \<Rightarrow> 'w client \<Rightarrow> (int \<times> 'w client) option" where
  "handle_reconnect os c =
     (let (e, c) = expired os (reconnect_delay_timer c) c
      in if \<not> e then Some (QCLOUD_ERR_MQTT_ATTEMPTING_RECONNECT, c)
         else do {
           let isPhysicalLayerConnected = (nw_is_connected (network_stack c) (nw_handle (network_stack c)) \<noteq> 0);
           (rc, c) \<leftarrow> (if isPhysicalLayerConnected then qcloud_iot_mqtt_attempt_reconnect os c
                       else Some (QCLOUD_RET_MQTT_RECONNECTED, c));
           if isPhysicalLayerConnected \<and> rc = QCLOUD_RET_MQTT_RECONNECTED then Some (rc, reconnect_callback c)
           else do {
             let rc = (if isPhysicalLayerConnected then QCLOUD_ERR_MQTT_ATTEMPTING_RECONNECT else rc);
             let c = c\<lparr>current_reconnect_wait_interval := current_reconnect_wait_interval c * 2\<rparr>;
             if MAX_RECONNECT_WAIT_INTERVAL < current_reconnect_wait_interval c
             then Some (QCLOUD_ERR_MQTT_RECONNECT_TIMEOUT, c)
             else Some (rc, set_reconnect_delay os c)
           }
         })"

section \<open>Keep alive\<close>

text \<open>The do-while loop around the PINGREQ: a first attempt and up to \<open>retries\<close> more.\<close>

primrec send_ping_loop :: "'w os \<Rightarrow> nat \<Rightarrow> nat \<Rightarrow> Timer \<Rightarrow> 'w client \<Rightarrow> (int \<times> 'w client) option" where
  "send_ping_loop os 0 len timer c = do {
     let (timer, c) = countdown_ms os timer (command_timeout_ms c) c;
     send_mqtt_packet os len timer c
   }"
| "send_ping_loop os (Suc retries) len timer c = do {
     let (timer, c) = countdown_ms os timer (command_timeout_ms c) c;
     (rc, c) \<leftarrow> send_mqtt_packet os len timer c;
     if rc \<noteq> QCLOUD_RET_SUCCESS then send_ping_loop os retries len timer c else Some (rc, c)
   }"

definition mqtt_keep_alive :: "'w os \<Rightarrow> 'w client \<Rightarrow> (int \<times> 'w client) option" where
  "mqtt_keep_alive os c =
     (if keep_alive_interval (options c) = 0 then Some (QCLOUD_RET_SUCCESS, c)
      else let (e, c) = expired os (ping_timer c) c
           in if \<not> e then Some (QCLOUD_RET_SUCCESS, c)
              else if is_ping_outstanding c \<ge> 2 then handle_disconnect os c
              else do {
                r \<leftarrow> serialize_packet_with_zero_payload (write_buf c) (write_buf_size c) PINGREQ;
                (case r of
                   Inl rc \<Rightarrow> Some (rc, c)
                 | Inr (buf, serialized_len) \<Rightarrow> do {
                     let c = c\<lparr>write_buf := buf\<rparr>;
                     (rc, c) \<leftarrow> send_ping_loop os 3 serialized_len InitTimer c;
                     if rc \<noteq> QCLOUD_RET_SUCCESS then handle_disconnect os c
                     else do {
                       let c = c\<lparr>is_ping_outstanding := is_ping_outstanding c + 1\<rparr>;
                       let (t, c) = countdown os (ping_timer c) (min 5 (unat (keep_alive_interval (options c)) div 2)) c;
                       Some (QCLOUD_RET_SUCCESS, c\<lparr>ping_timer := t\<rparr>)
                     }
                   })
              })"

section \<open>Requests that wait for an acknowledgement\<close>

text \<open>
  The iterations of \<^verbatim>\<open>qcloud_iot_mqtt_pub_info_proc\<close> and \<^verbatim>\<open>qcloud_iot_mqtt_sub_info_proc\<close> run from the
  tail over the nodes that were in the list when they started. A node that goes is removed when
  the next one has been fetched.
\<close>

primrec pub_info_loop :: "'w os \<Rightarrow> (nat \<times> QcloudIotPubInfo) list \<Rightarrow> 'w client \<Rightarrow> 'w client" where
  "pub_info_loop os [] c = c"
| "pub_info_loop os (node # nodes) c =
     (let (a, repubInfo) = node
      in if pub_node_state repubInfo = MQTT_NODE_STATE_INVALID
         then pub_info_loop os nodes (c\<lparr>list_pub_wait_ack := nodes_remove (list_pub_wait_ack c) a\<rparr>)
         else if \<not> is_connected c then pub_info_loop os nodes c
         else let (t, c) = left_ms os (pub_start_time repubInfo) c
              in if t > 0 then pub_info_loop os nodes c
                 else let (start, c) = countdown_ms os (pub_start_time repubInfo) (command_timeout_ms c) c;
                          c = notify_event MQTT_EVENT_PUBLISH_TIMEOUT (PacketId (pub_msg_id repubInfo)) c
                      in pub_info_loop os nodes (c\<lparr>list_pub_wait_ack := nodes_remove (list_pub_wait_ack c) a\<rparr>))"

definition qcloud_iot_mqtt_pub_info_proc :: "'w os \<Rightarrow> 'w client \<Rightarrow> 'w client" where
  "qcloud_iot_mqtt_pub_info_proc os c =
     (if list_pub_wait_ack c = [] then c
      else case HAL_Malloc os c of
             (None, c) \<Rightarrow> c
           | (Some iter, c) \<Rightarrow> pub_info_loop os (rev (list_pub_wait_ack c)) c)"

definition sub_timeout_notify :: "QcloudIotSubInfo \<Rightarrow> 'w client \<Rightarrow> 'w client" where
  "sub_timeout_notify sub_info c =
     (if h_fp (event_handle c) = None then c
      else if sub_type sub_info = SUBSCRIBE
      then notify_event MQTT_EVENT_SUBCRIBE_TIMEOUT (PacketId (sub_msg_id sub_info))
             (notify_subscriber (sub_handler sub_info) MQTT_EVENT_SUBCRIBE_TIMEOUT c)
      else notify_event MQTT_EVENT_UNSUBCRIBE_TIMEOUT (PacketId (sub_msg_id sub_info)) c)"

primrec sub_info_loop :: "'w os \<Rightarrow> (nat \<times> QcloudIotSubInfo) list \<Rightarrow> 'w client \<Rightarrow> 'w client" where
  "sub_info_loop os [] c = c"
| "sub_info_loop os (node # nodes) c =
     (let (a, sub_info) = node
      in if sub_node_state sub_info = MQTT_NODE_STATE_INVALID
         then sub_info_loop os nodes (c\<lparr>list_sub_wait_ack := nodes_remove (list_sub_wait_ack c) a\<rparr>)
         else if \<not> is_connected c then sub_info_loop os nodes c
         else let (t, c) = left_ms os (sub_start_time sub_info) c
              in if t > 0 then sub_info_loop os nodes c
                 else let c = sub_timeout_notify sub_info c
                      in sub_info_loop os nodes (c\<lparr>list_sub_wait_ack := nodes_remove (list_sub_wait_ack c) a\<rparr>))"

definition qcloud_iot_mqtt_sub_info_proc :: "'w os \<Rightarrow> 'w client \<Rightarrow> 'w client" where
  "qcloud_iot_mqtt_sub_info_proc os c =
     (if list_sub_wait_ack c = [] then c
      else case HAL_Malloc os c of
             (None, c) \<Rightarrow> c
           | (Some iter, c) \<Rightarrow> sub_info_loop os (rev (list_sub_wait_ack c)) c)"

section \<open>The main loop\<close>

text \<open>One packet and the chores after it: the body of the loop while connected, up to the last test.\<close>

definition yield_step :: "'w os \<Rightarrow> Timer \<Rightarrow> 'w client \<Rightarrow> (int \<times> Timer \<times> 'w client) option" where
  "yield_step os timer c = do {
     (rc, timer, packet_type, c) \<leftarrow> cycle_for_read os timer 0 c;
     (rc, c) \<leftarrow>
       (if rc = QCLOUD_RET_SUCCESS
        then mqtt_keep_alive os (qcloud_iot_mqtt_sub_info_proc os (qcloud_iot_mqtt_pub_info_proc os c))
        else if rc = QCLOUD_ERR_SSL_READ_TIMEOUT \<or> rc = QCLOUD_ERR_SSL_READ \<or>
                rc = QCLOUD_ERR_TCP_PEER_SHUTDOWN \<or> rc = QCLOUD_ERR_TCP_READ_FAIL
        then handle_disconnect os c
        else Some (rc, c));
     Some (rc, timer, c)
   }"

definition schedule_reconnect :: "'w os \<Rightarrow> 'w client \<Rightarrow> 'w client" where
  "schedule_reconnect os c =
     (let (i, c) = get_random_interval os c in set_reconnect_delay os (c\<lparr>current_reconnect_wait_interval := i\<rparr>))"

partial_function (option) yield_loop ::
  "'w os \<Rightarrow> Timer \<Rightarrow> int \<Rightarrow> 'w client \<Rightarrow> (int \<times> 'w client) option" where
  "yield_loop os timer rc c =
     (let (e, c) = expired os timer c
      in if e then Some (rc, c)
         else if \<not> get_client_conn_state c
         then if current_reconnect_wait_interval c > MAX_RECONNECT_WAIT_INTERVAL
              then Some (QCLOUD_ERR_MQTT_RECONNECT_TIMEOUT, c)
              else do {
                (rc, c) \<leftarrow> handle_reconnect os c;
                yield_loop os timer rc c
              }
         else do {
           (rc, timer, c) \<leftarrow> yield_step os timer c;
           if rc = QCLOUD_ERR_MQTT_NO_CONN
           then let c = c\<lparr>counter_network_disconnected := counter_network_disconnected c + 1\<rparr>
                in if auto_connect_enable (options c) \<noteq> 1 then Some (rc, c)
                   else yield_loop os timer QCLOUD_ERR_MQTT_ATTEMPTING_RECONNECT (schedule_reconnect os c)
           else if rc \<noteq> QCLOUD_RET_SUCCESS then Some (rc, c)
           else yield_loop os timer rc c
         })"

definition qcloud_iot_mqtt_yield :: "'w os \<Rightarrow> nat \<Rightarrow> 'w client \<Rightarrow> (int \<times> 'w client) option" where
  "qcloud_iot_mqtt_yield os timeout_ms c =
     (if timeout_ms = 0 then Some (QCLOUD_ERR_INVAL, c)
      else if \<not> get_client_conn_state c \<and> was_manually_disconnected c
      then Some (QCLOUD_RET_MQTT_MANUALLY_DISCONNECTED, c)
      else if \<not> get_client_conn_state c \<and> auto_connect_enable (options c) = 0
      then Some (QCLOUD_ERR_MQTT_NO_CONN, c)
      else let (timer, c) = countdown_ms os InitTimer timeout_ms c
           in yield_loop os timer QCLOUD_RET_SUCCESS c)"

partial_function (option) reconnect_loop :: "'w os \<Rightarrow> 'w client \<Rightarrow> (int \<times> 'w client) option" where
  "reconnect_loop os c =
     (if \<not> get_client_conn_state c
      then if current_reconnect_wait_interval c > MAX_RECONNECT_WAIT_INTERVAL
           then Some (QCLOUD_ERR_MQTT_RECONNECT_TIMEOUT, c)
           else do {
             (rc, c) \<leftarrow> handle_reconnect os c;
             reconnect_loop os c
           }
      else Some (QCLOUD_RET_MQTT_RECONNECTED, c))"

definition qcloud_iot_mqtt_reconnect :: "'w os \<Rightarrow> 'w client \<Rightarrow> (int \<times> 'w client) option" where
  "qcloud_iot_mqtt_reconnect os c =
     (if \<not> get_client_conn_state c \<and> auto_connect_enable (options c) = 1
      then Some (QCLOUD_ERR_MQTT_RECONNECTING, c)
      else do {
        (rc, c) \<leftarrow> handle_disconnect os c;
        reconnect_loop os (schedule_reconnect os c)
      })"

section \<open>The life of a client\<close>

record MQTTInitParams =
  ip_region :: "cstring option"
  ip_product_id :: "cstring option"
  ip_device_name :: "cstring option"
  ip_device_secret :: "cstring option"
  ip_command_timeout :: nat
  ip_keep_alive_interval_ms :: nat
  ip_clean_session :: u8
  ip_auto_connect_enable :: u8
  ip_event_handle :: MQTTEventHandler

definition iot_get_mqtt_domain :: "cstring option \<Rightarrow> cstring" where
  "iot_get_mqtt_domain region =
     (let table = [(cstr ''china'', cstr ''iotcloud.tencentdevices.com''),
                   (cstr ''us-east'', cstr ''us-east.iotcloud.tencentdevices.com''),
                   (cstr ''europe'', cstr ''europe.iothub.tencentdevices.com''),
                   (cstr ''ap-bangkok'', cstr ''ap-bangkok.iothub.tencentdevices.com'')]
      in case region of
           None \<Rightarrow> snd (table ! 0)
         | Some r \<Rightarrow> (case map_of table r of None \<Rightarrow> snd (table ! 0) | Some d \<Rightarrow> d))"

definition iot_device_info_set :: "cstring \<Rightarrow> cstring \<Rightarrow> int + DeviceInfo" where
  "iot_device_info_set pid name =
     (if 10 < length pid then Inl QCLOUD_ERR_FAILURE
      else if 48 < length name then Inl QCLOUD_ERR_FAILURE
      else if length (pid @ name) \<ge> 80 then Inl QCLOUD_ERR_FAILURE
      else Inr \<lparr>product_id = take 10 pid, device_name = take 48 name, di_client_id = snprintf 80 (pid @ name)\<rparr>)"

definition get_random_start_packet_id :: "'w os \<Rightarrow> 'w \<Rightarrow> u16 \<times> 'w" where
  "get_random_start_packet_id os w =
     (let (t, w) = HAL_GetTimeMs os w; w = os_srand os t w; (r, w) = os_rand os w
      in (of_nat (r mod 65536 + 1), w))"

text \<open>The zeroed \<^verbatim>\<open>Network\<close> of a fresh client: calling through a null pointer has no defined result.\<close>

definition null_network :: "'w Network" where
  "null_network = \<lparr>nw_init = 0, nw_connect = (\<lambda>h p w. ((-1, 0), w)), nw_read = (\<lambda>h n t w. None),
     nw_write = (\<lambda>h d t w. None), nw_disconnect = (\<lambda>h w. (h, w)), nw_is_connected = (\<lambda>h. 0),
     nw_handle = 0, nw_host = [], nw_port = 0, nw_type = NETWORK_TCP\<rparr>"

definition null_options :: MQTTConnectParams where
  "null_options = \<lparr>client_id = None, conn_id = [], mqtt_version = 0, keep_alive_interval = 0,
     clean_session = 0, auto_connect_enable = 0, device_secret = None\<rparr>"

text \<open>
  \<^verbatim>\<open>qcloud_iot_mqtt_init\<close>: \<open>Inl\<close> is an error code and the world, everything allocated being released
  again; the mutexes cannot fail in this configuration, the two lists can.
\<close>

definition qcloud_iot_mqtt_init ::
  "'w os \<Rightarrow> MQTTInitParams \<Rightarrow> cstring \<Rightarrow> cstring \<Rightarrow> 'w \<Rightarrow> (int \<times> 'w) + 'w client" where
  "qcloud_iot_mqtt_init os pParams pid name w =
     (case iot_device_info_set pid name of
        Inl rc \<Rightarrow> Inl (rc, w)
      | Inr info \<Rightarrow>
          let host = pid @ cstr ''.'' @ iot_get_mqtt_domain (ip_region pParams)
          in if length host > 63 then Inl (QCLOUD_ERR_FAILURE, w)
             else let timeout = (if ip_command_timeout pParams < 500 then 500 else ip_command_timeout pParams);
                      timeout = (if timeout > 20000 then 20000 else timeout);
                      (start_id, w) = get_random_start_packet_id os w;
                      (pub_list, w) = os_malloc os w
                  in if pub_list = None then Inl (QCLOUD_ERR_FAILURE, w)
                     else let (sub_list, w) = os_malloc os w
                          in if sub_list = None then Inl (QCLOUD_ERR_FAILURE, w)
                             else let (rc, net) = qcloud_iot_mqtt_network_init os
                                        (null_network\<lparr>nw_host := snprintf 64 host, nw_port := 1883\<rparr>)
                                  in Inr \<lparr>is_connected = False, was_manually_disconnected = False,
                                       is_ping_outstanding = 0, next_packet_id = start_id,
                                       command_timeout_ms = timeout, current_reconnect_wait_interval = 0,
                                       counter_network_disconnected = 0,
                                       write_buf_size = QCLOUD_IOT_MQTT_TX_BUF_LEN,
                                       read_buf_size = QCLOUD_IOT_MQTT_RX_BUF_LEN,
                                       write_buf = replicate QCLOUD_IOT_MQTT_TX_BUF_LEN 0,
                                       read_buf = replicate QCLOUD_IOT_MQTT_RX_BUF_LEN 0,
                                       list_pub_wait_ack = [], list_sub_wait_ack = [],
                                       event_handle = ip_event_handle pParams, options = null_options,
                                       network_stack = net, ping_timer = InitTimer,
                                       reconnect_delay_timer = InitTimer, device_info = info,
                                       sub_handles = replicate MAX_MESSAGE_HANDLERS null_handle,
                                       host_addr = snprintf 64 host, psk_decode = replicate 48 0,
                                       repeat_packet_id_buf = replicate MQTT_MAX_REPEAT_BUF_LEN 0,
                                       current_packet_id_cnt = 0, world = w, trace = []\<rparr>)"

text \<open>
  \<^verbatim>\<open>IOT_MQTT_Construct\<close>: the connected client, or \<open>Inl\<close> and the world where it returns null.
  \<^verbatim>\<open>DEFAULT_MQTTCONNECT_PARAMS\<close> sets version 4; the keep-alive interval is at most 690 seconds.
\<close>

definition IOT_MQTT_Construct :: "'w os \<Rightarrow> MQTTInitParams \<Rightarrow> 'w \<Rightarrow> ('w + 'w client) option" where
  "IOT_MQTT_Construct os pParams w =
     (case (ip_product_id pParams, ip_device_name pParams) of
        (Some pid, Some name) \<Rightarrow>
          if pid = [] \<or> name = [] then Some (Inl w)
          else (case os_malloc os w of
            (None, w) \<Rightarrow> Some (Inl w)
          | (Some mqtt_client, w) \<Rightarrow>
              (case qcloud_iot_mqtt_init os pParams pid name w of
                 Inl (rc, w) \<Rightarrow> Some (Inl w)
               | Inr c \<Rightarrow>
                   (case HAL_Malloc os c of
                      (None, c) \<Rightarrow> Some (Inl (world c))
                    | (Some client_id_mem, c) \<Rightarrow>
                        (case ip_device_secret pParams of
                           None \<Rightarrow> Some (Inl (world c))
                         | Some secret \<Rightarrow> do {
                             (rc, len, psk) \<leftarrow> qcloud_iot_utils_base64decode (replicate 48 0) secret;
                             if rc \<noteq> QCLOUD_RET_SUCCESS then Some (Inl (world c))
                             else do {
                               len \<leftarrow> len;
                               let c = c\<lparr>psk_decode := psk\<rparr>;
                               let connect_params = \<lparr>client_id = Some (snprintf 80 (pid @ name)), conn_id = [],
                                     mqtt_version = 4,
                                     keep_alive_interval = of_nat (min (ip_keep_alive_interval_ms pParams div 1000) 690),
                                     clean_session = ip_clean_session pParams,
                                     auto_connect_enable = ip_auto_connect_enable pParams,
                                     device_secret = Some (take len psk)\<rparr>;
                               (rc, c) \<leftarrow> qcloud_iot_mqtt_connect os connect_params c;
                               Some (if rc \<noteq> QCLOUD_RET_SUCCESS then Inl (world c) else Inr c)
                             }
                           }))))
      | _ \<Rightarrow> Some (Inl w))"

primrec destroy_handles :: "SubTopicHandle list \<Rightarrow> 'w client \<Rightarrow> SubTopicHandle list \<times> 'w client" where
  "destroy_handles [] c = ([], c)"
| "destroy_handles (h # hs) c =
     (let c = (if topic_filter h \<noteq> None then notify_subscriber h MQTT_EVENT_CLIENT_DESTROY c else c);
          (hs, c) = destroy_handles hs c
      in (h\<lparr>topic_filter := None\<rparr> # hs, c))"

text \<open>The state just before the structure is released; the callbacks have been made by then.\<close>

definition IOT_MQTT_Destroy :: "'w os \<Rightarrow> 'w client \<Rightarrow> (int \<times> 'w client) option" where
  "IOT_MQTT_Destroy os c = do {
     (rc, c) \<leftarrow> qcloud_iot_mqtt_disconnect os c;
     let c = (if rc \<noteq> QCLOUD_RET_SUCCESS then set_client_conn_state False (net_disconnect c) else c);
     let (hs, c) = destroy_handles (sub_handles c) c;
     let c = reset_repeat_packet_id_buffer (c\<lparr>sub_handles := hs\<rparr>);
     Some (rc, c\<lparr>list_pub_wait_ack := [], list_sub_wait_ack := []\<rparr>)
   }"

definition IOT_MQTT_SetEventHandler :: "MQTTEventHandler \<Rightarrow> 'w client \<Rightarrow> 'w client" where
  "IOT_MQTT_SetEventHandler evt_handler c =
     c\<lparr>event_handle := \<lparr>h_fp = h_fp evt_handler, h_context = h_context evt_handler\<rparr>\<rparr>"

definition IOT_MQTT_Yield :: "'w os \<Rightarrow> nat \<Rightarrow> 'w client \<Rightarrow> (int \<times> 'w client) option" where
  "IOT_MQTT_Yield os timeout_ms c = qcloud_iot_mqtt_yield os timeout_ms c"

definition IOT_MQTT_IsConnected :: "'w client \<Rightarrow> bool" where
  "IOT_MQTT_IsConnected c = get_client_conn_state c"

definition qcloud_iot_mqtt_set_autoreconnect :: "bool \<Rightarrow> 'w client \<Rightarrow> 'w client" where
  "qcloud_iot_mqtt_set_autoreconnect value c =
     c\<lparr>options := (options c)\<lparr>auto_connect_enable := (if value then 1 else 0)\<rparr>\<rparr>"

definition qcloud_iot_mqtt_is_autoreconnect_enabled :: "'w client \<Rightarrow> bool" where
  "qcloud_iot_mqtt_is_autoreconnect_enabled c = (auto_connect_enable (options c) = 1)"

definition qcloud_iot_mqtt_get_network_disconnected_count :: "'w client \<Rightarrow> u32" where
  "qcloud_iot_mqtt_get_network_disconnected_count c = counter_network_disconnected c"

definition qcloud_iot_mqtt_reset_network_disconnected_count :: "'w client \<Rightarrow> 'w client" where
  "qcloud_iot_mqtt_reset_network_disconnected_count c = c\<lparr>counter_network_disconnected := 0\<rparr>"

end
