(* ===== verification/Mqtt_Codec.thy ===== *)
theory Mqtt_Codec
  imports Mqtt_Packet
begin

text \<open>
  Correctness of the packet codec of \<open>Mqtt_Packet\<close>. The wire format of MQTT 3.1.1 is written down
  independently of the code (\<open>rem_len_bytes\<close>, \<open>u16_bytes\<close>, \<open>utf8_bytes\<close>, \<open>packet_bytes\<close> and the packet
  bodies); every serializer is shown to write exactly these bytes at the start of its buffer, and
  every deserializer to recover the fields from them.
\<close>

section \<open>The wire format\<close>

definition emit :: "u8 list \<Rightarrow> nat \<Rightarrow> u8 list \<Rightarrow> (u8 list \<times> nat) option" where
  "emit buf p xs = buf_write buf p xs \<bind> (\<lambda>b. Some (b, p + length xs))"

fun rem_len_bytes :: "nat \<Rightarrow> u8 list" where
  "rem_len_bytes n =
     (if n < 128 then [of_nat n] else of_nat (n mod 128 + 128) # rem_len_bytes (n div 128))"

declare rem_len_bytes.simps [simp del]

definition u16_bytes :: "u16 \<Rightarrow> u8 list" where
  "u16_bytes i = [ucast (i div 256), ucast (i mod 256)]"

definition utf8_bytes :: "cstring \<Rightarrow> u8 list" where
  "utf8_bytes s = u16_bytes (of_nat (length s)) @ s"

definition packet_bytes :: "u8 \<Rightarrow> u8 list \<Rightarrow> u8 list" where
  "packet_bytes h body = h # rem_len_bytes (length body) @ body"

definition publish_body :: "nat \<Rightarrow> u16 \<Rightarrow> cstring \<Rightarrow> u8 list \<Rightarrow> u8 list" where
  "publish_body qos packet_id topic payload =
     utf8_bytes topic @ (if qos > 0 then u16_bytes packet_id else []) @ payload"

definition subscribe_body :: "u16 \<Rightarrow> cstring \<Rightarrow> nat \<Rightarrow> u8 list" where
  "subscribe_body packet_id topic qos = u16_bytes packet_id @ utf8_bytes topic @ [of_nat qos]"

definition unsubscribe_body :: "u16 \<Rightarrow> cstring \<Rightarrow> u8 list" where
  "unsubscribe_body packet_id topic = u16_bytes packet_id @ utf8_bytes topic"

section \<open>The remaining length\<close>

lemma emit_emit: "emit buf p xs \<bind> (\<lambda>(b, q). emit b q ys) = emit buf p (xs @ ys)"
  using buf_write_append [of buf p xs ys]
  by (cases "buf_write buf p xs") (auto simp: emit_def add.assoc dest: sym)

lemma emit_emit_bind:
  "emit buf p xs \<bind> (\<lambda>(b, q). emit b q ys \<bind> f) = emit buf p (xs @ ys) \<bind> f"
proof -
  have "emit buf p xs \<bind> (\<lambda>(b, q). emit b q ys \<bind> f) =
        (emit buf p xs \<bind> (\<lambda>(b, q). emit b q ys)) \<bind> f"
    by (cases "emit buf p xs") auto
  then show ?thesis by (simp add: emit_emit)
qed

lemma unat_of_nat_u8: "n < 256 \<Longrightarrow> unat (of_nat n :: u8) = n"
  by (simp add: unat_of_nat take_bit_eq_mod)

lemma u8_and_127: "unat ((x :: u8) AND 127) = unat x mod 128"
proof -
  have "x AND 127 = take_bit 7 x" by (simp add: take_bit_eq_mask mask_eq_exp_minus_1)
  then show ?thesis by (simp add: unat_mod take_bit_eq_mod)
qed

lemma u8_and_128: "(x :: u8) AND 128 = 0 \<longleftrightarrow> unat x < 128"
proof -
  have "x AND 128 = 0 \<longleftrightarrow> \<not> bit x 7" using and_exp_eq_0_iff_not_bit [of x 7] by simp
  also have "bit x 7 \<longleftrightarrow> bit (unat x) 7" by (simp add: bit_unsigned_iff)
  also have "\<dots> \<longleftrightarrow> odd (unat x div 128)" by (simp add: bit_iff_odd)
  also have "(\<not> odd (unat x div 128)) \<longleftrightarrow> unat x < 128"
  proof (cases "unat x < 128")
    case False
    have "unat x < 256" using unsigned_less [of x, where ?'a = nat] by simp
    with False have "unat x div 128 = 1" by (simp add: div_nat_eqI)
    with False show ?thesis by simp
  qed simp
  finally show ?thesis .
qed

lemma ucast_mod_128: "(ucast (len mod 128) :: u8) = of_nat (unat (len :: u32) mod 128)"
proof -
  have "unat (len mod 128) = unat len mod 128" by (simp add: unat_mod)
  then show ?thesis by (metis of_nat_unat)
qed


lemma or_128: "n < 128 \<Longrightarrow> (of_nat n :: u8) OR 0x80 = of_nat (n + 128)"
  using u8_and_128 [of "of_nat n"] by (simp add: unat_of_nat_u8 flip: disjunctive_add_eq_or)

lemma mqtt_write_packet_rem_len_eq:
  "mqtt_write_packet_rem_len buf p len outLen =
     buf_write buf (p + outLen) (rem_len_bytes (unat len)) \<bind>
       (\<lambda>b. Some (b, outLen + length (rem_len_bytes (unat len))))"
proof (induction buf p len outLen rule: mqtt_write_packet_rem_len.induct)
  case (1 buf p len outLen)
  have byte: "(ucast (len mod 128) :: u8) OR 0x80 = of_nat (unat len mod 128 + 128)"
    by (subst ucast_mod_128) (rule or_128, simp)
  show ?case
  proof (cases "len div 128 > 0")
    case True
    then have ge: "\<not> unat len < 128"
      by (auto simp: word_gt_0 unat_div div_eq_0_iff simp flip: unat_eq_0)
    have rest: "unat (len div 128) = unat len div 128" by (simp add: unat_div)
    show ?thesis
    proof (cases "buf_put buf (p + outLen) (of_nat (unat len mod 128 + 128))")
      case None
      with True ge show ?thesis
        by (auto simp: mqtt_write_packet_rem_len.simps [of buf] rem_len_bytes.simps [of "unat len"]
            byte buf_put_def buf_write_def split: if_splits)
    next
      case (Some b)
      with True byte "1.IH" [OF refl refl refl, of b]
      have "mqtt_write_packet_rem_len buf p len outLen =
            buf_write b (p + (outLen + 1)) (rem_len_bytes (unat len div 128)) \<bind>
              (\<lambda>b. Some (b, outLen + 1 + length (rem_len_bytes (unat len div 128))))"
        by (simp add: mqtt_write_packet_rem_len.simps [of buf] rest)
      also have "\<dots> = buf_put buf (p + outLen) (of_nat (unat len mod 128 + 128)) \<bind> (\<lambda>b.
            buf_write b (p + (outLen + 1)) (rem_len_bytes (unat len div 128)) \<bind>
              (\<lambda>b. Some (b, outLen + 1 + length (rem_len_bytes (unat len div 128)))))"
        by (simp only: Some Option.bind_lunit)
      finally show ?thesis
        using ge by (simp add: rem_len_bytes.simps [of "unat len"] buffer_simps add.assoc)
    qed
  next
    case False
    then have "unat len < 128"
      by (auto simp: word_gt_0 unat_div div_eq_0_iff simp flip: unat_eq_0)
    with False ucast_mod_128 [of len] show ?thesis
      by (simp add: mqtt_write_packet_rem_len.simps [of buf] rem_len_bytes.simps [of "unat len"] buf_put_eq_write)
  qed
qed

section \<open>Cursors and primitives\<close>

lemma buf_get_cursor: "drop p buf = x # xs \<Longrightarrow> buf_get buf p = Some x"
  by (metis buf_get_def drop_all hd_drop_conv_nth leI list.distinct(1) list.sel(1))

lemma cursor_Suc: "drop p buf = x # xs \<Longrightarrow> drop (Suc p) buf = xs"
  by (metis drop_Suc list.sel(3) tl_drop)

lemma cursor_append: "drop p buf = xs @ ys \<Longrightarrow> drop (p + length xs) buf = ys"
  by (metis add.commute append_eq_conv_conj drop_drop)

lemma length_u16_bytes [simp]: "length (u16_bytes i) = 2"
  by (simp add: u16_bytes_def)

lemma length_utf8_bytes [simp]: "length (utf8_bytes s) = 2 + length s"
  by (simp add: utf8_bytes_def)

lemma u16_bytes_value: "(ucast (ucast (i mod 256) :: u8) + 256 * ucast (ucast (i div 256) :: u8) :: u16) = i"
proof -
  have cast: "(ucast (ucast x :: u8) :: u16) = take_bit 8 x" for x :: u16
    by (rule bit_word_eqI) (auto simp: bit_simps)
  have "(i div 256) mod 256 = i div 256"
  proof -
    have "unat i div 256 mod 256 = unat i div 256" using unsigned_less [of i, where ?'a = nat] by simp
    then have "unat ((i div 256) mod 256) = unat (i div 256)" by (simp add: unat_div unat_mod)
    then show ?thesis by (simp only: word_unat_eq_iff)
  qed
  moreover have "take_bit 8 (i mod 256) = i mod 256"
  proof -
    have "i mod 256 = take_bit 8 i" by (simp add: take_bit_eq_mod)
    then show ?thesis by (simp only: take_bit_take_bit min.idem)
  qed
  ultimately show ?thesis
    using mod_mult_div_eq [of i 256] by (simp add: cast take_bit_eq_mod)
qed

lemma mqtt_write_char_emit: "mqtt_write_char buf p c = emit buf p [c]"
  by (simp add: mqtt_write_char_def emit_def buf_put_eq_write)

lemma mqtt_write_uint_16_emit: "mqtt_write_uint_16 buf p i = emit buf p (u16_bytes i)"
  using buf_write_append_at [of "p+1" p "[ucast (i div 256)]" buf "[ucast (i mod 256)]" "\<lambda>b. Some (b, p+2)"]
  by (simp add: mqtt_write_uint_16_def emit_def buf_put_eq_write u16_bytes_def)

lemma mqtt_write_utf8_string_emit: "mqtt_write_utf8_string buf p s = emit buf p (utf8_bytes s)"
proof -
  have "mqtt_write_utf8_string buf p s = emit buf p (u16_bytes (of_nat (length s))) \<bind> (\<lambda>(b, q). emit b q s)"
    by (simp add: mqtt_write_utf8_string_def mqtt_write_uint_16_emit emit_def [of _ _ s])
  then show ?thesis by (simp only: emit_emit utf8_bytes_def)
qed

lemma mqtt_write_packet_rem_len_emit:
  "mqtt_write_packet_rem_len buf p len 0 \<bind> (\<lambda>(b, n). emit b (p + n) xs \<bind> f) =
     emit buf p (rem_len_bytes (unat len) @ xs) \<bind> f"
proof -
  have "mqtt_write_packet_rem_len buf p len 0 \<bind> (\<lambda>(b, n). emit b (p + n) xs \<bind> f) =
        emit buf p (rem_len_bytes (unat len)) \<bind> (\<lambda>(b, q). emit b q xs \<bind> f)"
    by (cases "buf_write buf p (rem_len_bytes (unat len))")
      (simp_all add: mqtt_write_packet_rem_len_eq emit_def)
  then show ?thesis by (simp only: emit_emit_bind)
qed

lemma mqtt_read_uint16_t_cursor:
  "drop p buf = u16_bytes i @ xs \<Longrightarrow> mqtt_read_uint16_t buf p = Some (i, p + 2)"
  using buf_get_cursor [of p buf] buf_get_cursor [of "Suc p" buf] cursor_Suc [of p buf]
  by (simp add: mqtt_read_uint16_t_def u16_bytes_def u16_bytes_value)

lemma mqtt_read_char_cursor: "drop p buf = c # xs \<Longrightarrow> mqtt_read_char buf p = Some (c, p + 1)"
  by (simp add: mqtt_read_char_def buf_get_cursor)

lemma rem_len_bytes_not_Nil [simp]: "rem_len_bytes n \<noteq> []"
  by (subst rem_len_bytes.simps) simp

lemma ucast_and_127: "(ucast ((of_nat n :: u8) AND 127) :: u32) = of_nat (n mod 128)"
proof -
  have "unat ((of_nat n :: u8) AND 127) = n mod 256 mod 128"
    by (simp add: u8_and_127 unat_of_nat take_bit_eq_mod)
  also have "\<dots> = n mod 128" by (simp add: mod_mod_cancel)
  finally show ?thesis by (metis of_nat_unat)
qed

lemma decode_packet_rem_len_cursor:
  "n < 128 ^ (4 - k) \<Longrightarrow> k < 4 \<Longrightarrow> drop p buf = rem_len_bytes n @ xs \<Longrightarrow>
   decode_packet_rem_len_from_buf_read buf p v m k =
     Some (Inr (v + of_nat n * m, k + length (rem_len_bytes n)))"
proof (induction n arbitrary: k p v m rule: rem_len_bytes.induct)
  case (1 n)
  show ?case
  proof (cases "n < 128")
    case True
    with 1(4) have c: "buf_get buf p = Some (of_nat n)"
      by (simp add: rem_len_bytes.simps [of n] buf_get_cursor)
    have "(of_nat n :: u8) AND 128 = 0"
      using True by (simp add: u8_and_128 unat_of_nat_u8)
    with True c 1(3) show ?thesis
      by (simp add: decode_packet_rem_len_from_buf_read.simps [of buf p] rem_len_bytes.simps [of n]
          ucast_and_127 algebra_simps)
  next
    case False
    let ?c = "of_nat (n mod 128 + 128) :: u8"
    from False 1(4) have cur: "drop p buf = ?c # rem_len_bytes (n div 128) @ xs"
      by (simp add: rem_len_bytes.simps [of n])
    have small: "n mod 128 + 128 < 256" by simp
    have hi: "?c AND 128 \<noteq> 0"
      using unat_of_nat_u8 [OF small] by (simp add: u8_and_128 del: of_nat_add)
    have lo: "(ucast (?c AND 127) :: u32) = of_nat (n mod 128)"
      by (simp add: ucast_and_127 del: of_nat_add)
    have k: "k < 3" 
    proof (rule ccontr)
      assume "\<not> k < 3" with 1(3) have "k = 3" by simp
      with 1(2) False show False by simp
    qed
    then have pow: "(128::nat) ^ (4 - k) = 128 ^ (4 - Suc k) * 128"
    proof -
      from k have "4 - k = Suc (4 - Suc k)" by simp
      then show ?thesis by (simp only: power_Suc mult.commute)
    qed
    with 1(2) have div: "n div 128 < 128 ^ (4 - Suc k)" by (simp add: less_mult_imp_div_less)
    have IH: "decode_packet_rem_len_from_buf_read buf (Suc p) (v + of_nat (n mod 128) * m) (m * 128) (Suc k) =
      Some (Inr (v + of_nat (n mod 128) * m + of_nat (n div 128) * (m * 128),
                 Suc k + length (rem_len_bytes (n div 128))))"
      using 1(1) [OF False div _ cursor_Suc [OF cur]] k by simp
    have sum: "v + of_nat (n mod 128) * m + of_nat (n div 128) * (m * 128) = v + of_nat n * m"
    proof -
      have "(of_nat n :: u32) = of_nat (n mod 128 + n div 128 * 128)" by simp
      also have "\<dots> = of_nat (n mod 128) + of_nat (n div 128) * 128" by (simp only: of_nat_add of_nat_mult of_nat_numeral)
      finally show ?thesis by (simp add: algebra_simps)
    qed
    show ?thesis
      using False k hi lo IH sum buf_get_cursor [OF cur]
      by (simp add: decode_packet_rem_len_from_buf_read.simps [of buf p] rem_len_bytes.simps [of n] del: of_nat_add)
  qed
qed

section \<open>The fixed header\<close>

text \<open>The four fields of the fixed header do not overlap.\<close>

lemma header_bits:
  fixes t d q r :: u8
  defines "h \<equiv> (push_bit 4 t AND 0xF0) OR (push_bit 3 d AND 0x08) OR (push_bit 1 q AND 0x06) OR (r AND 0x01)"
  shows "drop_bit 4 (h AND 0xF0) = t AND 0x0F" and "drop_bit 3 (h AND 0x08) = d AND 1"
    and "drop_bit 1 (h AND 0x06) = q AND 3" and "h AND 1 = r AND 1"
proof -
  show "drop_bit 4 (h AND 0xF0) = t AND 0x0F"
    unfolding h_def by (rule u8_bit_eqI, elim insertE emptyE) (simp_all add: bit_simps del: push_bit_Suc)
  show "drop_bit 3 (h AND 0x08) = d AND 1"
    unfolding h_def by (rule u8_bit_eqI, elim insertE emptyE) (simp_all add: bit_simps del: push_bit_Suc)
  show "drop_bit 1 (h AND 0x06) = q AND 3"
    unfolding h_def by (rule u8_bit_eqI, elim insertE emptyE) (simp_all add: bit_simps del: push_bit_Suc)
  show "h AND 1 = r AND 1"
    unfolding h_def by (rule u8_bit_eqI, elim insertE emptyE) (simp_all add: bit_simps del: push_bit_Suc)
qed

lemma mqtt_init_packet_header_fields:
  assumes "mqtt_init_packet_header mt qos dup retained = Inr h"
  shows "header_type h = msg_code mt" and "header_dup h = dup AND 1"
    and "qos \<le> 2 \<Longrightarrow> header_qos h = qos" and "h AND 1 = retained AND 1"
proof -
  let ?q = "if qos \<le> 2 then of_nat qos else 0 :: u8"
  have h: "h = (push_bit 4 (msg_code mt) AND 0xF0) OR (push_bit 3 dup AND 0x08) OR (push_bit 1 ?q AND 0x06)
               OR (retained AND 0x01)"
    using assms by (auto simp: mqtt_init_packet_header_def Let_def split: if_splits)
  show "header_type h = msg_code mt"
    unfolding header_type_def h header_bits(1) by (cases mt) simp_all
  show "header_dup h = dup AND 1"
    unfolding header_dup_def h header_bits(2) ..
  show "header_qos h = qos" if "qos \<le> 2"
    unfolding header_qos_def h header_bits(3) proof -
    from that consider "qos = 0" | "qos = 1" | "qos = 2" by linarith
    then show "unat (?q AND 3) = qos" by cases simp_all
  qed
  show "h AND 1 = retained AND 1"
    unfolding h header_bits(4) ..
qed

lemma length_rem_len_bytes:
  "length (rem_len_bytes n) = (if n < 128 then 1 else Suc (length (rem_len_bytes (n div 128))))"
  by (subst rem_len_bytes.simps) simp

lemma length_rem_len_bytes_range:
  assumes "n < 268435456"
  shows "length (rem_len_bytes n) =
     (if n < 128 then 1 else if n < 16384 then 2 else if n < 2097152 then 3 else 4)"
proof -
  have "length (rem_len_bytes (n div 2097152)) = 1"
    using assms by (simp add: length_rem_len_bytes [of "n div 2097152"] div_less_iff_less_mult)
  then have "length (rem_len_bytes (n div 16384)) = (if n < 2097152 then 1 else 2)"
    by (simp add: length_rem_len_bytes [of "n div 16384"] div_mult2_eq [symmetric] div_less_iff_less_mult)
  then have "length (rem_len_bytes (n div 128)) = (if n < 16384 then 1 else if n < 2097152 then 2 else 3)"
    by (simp add: length_rem_len_bytes [of "n div 128"] div_mult2_eq [symmetric] div_less_iff_less_mult)
  then show ?thesis by (simp add: length_rem_len_bytes [of n])
qed

lemma get_mqtt_packet_len_bounds:
  assumes "n < 268435456"
  shows "1 + length (rem_len_bytes n) + n \<le> get_mqtt_packet_len n"
    and "get_mqtt_packet_len n \<le> 2 + length (rem_len_bytes n) + n"
  using assms by (simp_all add: length_rem_len_bytes_range get_mqtt_packet_len_def Let_def)

section \<open>Whole packets\<close>

lemma emit_start: "length xs \<le> length buf \<Longrightarrow> emit buf 0 xs = Some (xs @ drop (length xs) buf, length xs)"
  by (simp add: emit_def buf_write_def)

lemma length_packet_bytes_le:
  "length body < 268435456 \<Longrightarrow> \<not> get_mqtt_packet_len (length body) > n \<Longrightarrow> length (packet_bytes h body) \<le> n"
  using get_mqtt_packet_len_bounds(1) [of "length body"] by (simp add: packet_bytes_def)

lemma framing:
  assumes "drop 0 buf = packet_bytes h body @ xs" and "length body < 268435456"
  shows "mqtt_read_char buf 0 = Some (h, 1)"
    and "mqtt_read_packet_rem_len_form_buf buf 1 =
           Some (Inr (of_nat (length body), length (rem_len_bytes (length body))))"
    and "drop (1 + length (rem_len_bytes (length body))) buf = body @ xs"
proof -
  from assms(1) have c0: "drop 0 buf = h # rem_len_bytes (length body) @ body @ xs"
    by (simp add: packet_bytes_def)
  then show "mqtt_read_char buf 0 = Some (h, 1)" by (simp add: mqtt_read_char_cursor)
  from cursor_Suc [OF c0] have c1: "drop 1 buf = rem_len_bytes (length body) @ body @ xs" by simp
  then show "mqtt_read_packet_rem_len_form_buf buf 1 =
           Some (Inr (of_nat (length body), length (rem_len_bytes (length body))))"
    using assms(2) decode_packet_rem_len_cursor [of "length body" 0 1 buf]
    by (simp add: mqtt_read_packet_rem_len_form_buf_def)
  from cursor_append [OF c1] show "drop (1 + length (rem_len_bytes (length body))) buf = body @ xs" .
qed

lemma unat_of_nat_u32: "n < 268435456 \<Longrightarrow> unat (of_nat n :: u32) = n"
  by (simp add: unat_of_nat take_bit_eq_mod)

lemma emit_option:
  "(if c then emit b p xs else Some (b, p)) \<bind> (\<lambda>(b, p). emit b p ys \<bind> f) =
     emit b p ((if c then xs else []) @ ys) \<bind> f"
  by (simp add: emit_emit_bind)

lemmas emit_simps = mqtt_write_char_emit mqtt_write_uint_16_emit mqtt_write_utf8_string_emit
  mqtt_write_packet_rem_len_emit emit_emit_bind

lemma serialize_publish_packet_eq:
  assumes "mqtt_init_packet_header PUBLISH qos dup retained = Inr h"
    and "length (publish_body qos packet_id topic payload) < 268435456" and "length buf = n"
  defines "body \<equiv> publish_body qos packet_id topic payload"
  shows "serialize_publish_packet buf n dup qos retained packet_id topic (Some payload) =
     (if get_mqtt_packet_len (length body) > n then Some (Inl QCLOUD_ERR_BUF_TOO_SHORT)
      else Some (Inr (packet_bytes h body @ drop (length (packet_bytes h body)) buf, length (packet_bytes h body))))"
proof -
  have "get_publish_packet_len qos topic (length payload) = of_nat (length body)"
    by (simp add: get_publish_packet_len_def body_def publish_body_def Let_def)
  with assms(2) have len: "unat (get_publish_packet_len qos topic (length payload)) = length body"
    by (simp add: body_def unat_of_nat_u32)
  show ?thesis
  proof (cases "get_mqtt_packet_len (length body) > n")
    case True
    then show ?thesis by (simp add: serialize_publish_packet_def len)
  next
    case False
    with assms have le: "length (packet_bytes h body) \<le> length buf"
      by (simp add: length_packet_bytes_le body_def)
    have pk: "packet_bytes h body = [h] @ rem_len_bytes (length body) @ utf8_bytes topic @
            (if qos > 0 then u16_bytes packet_id else []) @ payload"
      by (simp add: packet_bytes_def body_def publish_body_def)
    have out: "(buf_write b p payload \<bind> (\<lambda>b. Some (Inr (b, p + length payload) :: int + _))) =
               emit b p payload \<bind> (\<lambda>r. Some (Inr r))" for b p
      by (simp add: emit_def)
    have "serialize_publish_packet buf n dup qos retained packet_id topic (Some payload) =
          emit buf 0 (packet_bytes h body) \<bind> (\<lambda>r. Some (Inr r))"
      using False assms(1)
      by (simp add: serialize_publish_packet_def len emit_simps emit_option out pk)
    with le False show ?thesis by (simp add: emit_start)
  qed
qed

lemma bind_Inr_prod: "(m \<bind> (\<lambda>(b, p). Some (Inr (b, p)))) = m \<bind> (\<lambda>r. Some (Inr r))"
  by (simp add: case_prod_beta')

lemma serialize_pub_ack_packet_eq:
  assumes "mqtt_init_packet_header pt (if pt = PUBREL then QOS1 else QOS0) dup 0 = Inr h" and "length buf = n"
  shows "serialize_pub_ack_packet buf n pt dup packet_id =
     (if 4 > n then Some (Inl QCLOUD_ERR_BUF_TOO_SHORT)
      else Some (Inr (packet_bytes h (u16_bytes packet_id) @ drop 4 buf, 4)))"
proof -
  have len: "length (packet_bytes h (u16_bytes packet_id)) = 4"
    by (simp add: packet_bytes_def length_rem_len_bytes)
  have out: "serialize_pub_ack_packet buf n pt dup packet_id =
          emit buf 0 (packet_bytes h (u16_bytes packet_id)) \<bind> (\<lambda>r. Some (Inr r))" if "\<not> 4 > n"
    using that assms(1)
    by (simp add: serialize_pub_ack_packet_def Let_def emit_simps bind_Inr_prod packet_bytes_def)
  then show ?thesis using assms(2) len by (auto simp: emit_start serialize_pub_ack_packet_def Let_def)
qed

lemma serialize_packet_with_zero_payload_eq:
  assumes "mqtt_init_packet_header pt QOS0 0 0 = Inr h" and "length buf = n"
  shows "serialize_packet_with_zero_payload buf n pt =
     (if 4 > n then Some (Inl QCLOUD_ERR_BUF_TOO_SHORT)
      else Some (Inr (packet_bytes h [] @ drop 2 buf, 2)))"
  using assms
  by (auto simp: serialize_packet_with_zero_payload_def mqtt_write_char_emit emit_start
      mqtt_write_packet_rem_len_eq rem_len_bytes.simps packet_bytes_def buf_write_def Suc_le_eq numeral_2_eq_2)

lemma write_subscribe_payload_one:
  "write_subscribe_payload buf p (subscribe_filters 1 topic) [q] = emit buf p (utf8_bytes topic @ [of_nat q])"
  by (simp add: mqtt_write_utf8_string_emit mqtt_write_char_emit case_prod_beta' emit_emit flip: emit_emit)

lemma write_unsubscribe_payload_one:
  "write_unsubscribe_payload buf p (subscribe_filters 1 topic) = emit buf p (utf8_bytes topic)"
  by (simp add: mqtt_write_utf8_string_emit case_prod_beta')

lemma serialize_subscribe_packet_eq:
  assumes "mqtt_init_packet_header SUBSCRIBE QOS1 dup 0 = Inr h"
    and "length (subscribe_body packet_id topic q) < 268435456" and "length buf = n"
  defines "body \<equiv> subscribe_body packet_id topic q"
  shows "serialize_subscribe_packet buf n dup packet_id 1 topic [q] =
     (if get_mqtt_packet_len (length body) > n then Some (Inl QCLOUD_ERR_BUF_TOO_SHORT)
      else Some (Inr (packet_bytes h body @ drop (length (packet_bytes h body)) buf, length (packet_bytes h body))))"
proof -
  have "get_subscribe_packet_rem_len 1 topic = of_nat (length body)"
    by (simp add: get_subscribe_packet_rem_len_def body_def subscribe_body_def)
  with assms(2) have len: "unat (get_subscribe_packet_rem_len 1 topic) = length body"
    by (simp add: body_def unat_of_nat_u32)
  show ?thesis
  proof (cases "get_mqtt_packet_len (length body) > n")
    case True
    then show ?thesis by (simp add: serialize_subscribe_packet_def len del: One_nat_def)
  next
    case False
    with assms have le: "length (packet_bytes h body) \<le> length buf"
      by (simp add: length_packet_bytes_le body_def)
    have "serialize_subscribe_packet buf n dup packet_id 1 topic [q] =
          emit buf 0 (packet_bytes h body) \<bind> (\<lambda>r. Some (Inr r))"
      using False assms(1)
      by (simp add: serialize_subscribe_packet_def len emit_simps packet_bytes_def body_def subscribe_body_def
        write_subscribe_payload_one bind_Inr_prod del: One_nat_def subscribe_filters.simps)
    with le False show ?thesis by (simp add: emit_start)
  qed
qed

lemma serialize_unsubscribe_packet_eq:
  assumes "mqtt_init_packet_header UNSUBSCRIBE QOS1 dup 0 = Inr h"
    and "length (unsubscribe_body packet_id topic) < 268435456" and "length buf = n"
  defines "body \<equiv> unsubscribe_body packet_id topic"
  shows "serialize_unsubscribe_packet buf n dup packet_id 1 topic =
     (if get_mqtt_packet_len (length body) > n then Some (Inl QCLOUD_ERR_BUF_TOO_SHORT)
      else Some (Inr (packet_bytes h body @ drop (length (packet_bytes h body)) buf, length (packet_bytes h body))))"
proof -
  have "get_unsubscribe_packet_rem_len 1 topic = of_nat (length body)"
    by (simp add: get_unsubscribe_packet_rem_len_def body_def unsubscribe_body_def)
  with assms(2) have len: "unat (get_unsubscribe_packet_rem_len 1 topic) = length body"
    by (simp add: body_def unat_of_nat_u32)
  show ?thesis
  proof (cases "get_mqtt_packet_len (length body) > n")
    case True
    then show ?thesis by (simp add: serialize_unsubscribe_packet_def len del: One_nat_def)
  next
    case False
    with assms have le: "length (packet_bytes h body) \<le> length buf"
      by (simp add: length_packet_bytes_le body_def)
    have "serialize_unsubscribe_packet buf n dup packet_id 1 topic =
          emit buf 0 (packet_bytes h body) \<bind> (\<lambda>r. Some (Inr r))"
      using False assms(1)
      by (simp add: serialize_unsubscribe_packet_def len emit_simps packet_bytes_def body_def unsubscribe_body_def
        write_unsubscribe_payload_one bind_Inr_prod del: One_nat_def subscribe_filters.simps)
    with le False show ?thesis by (simp add: emit_start)
  qed
qed

lemma unat_of_nat_u16: "n < 65536 \<Longrightarrow> unat (of_nat n :: u16) = n"
  by (simp add: unat_of_nat take_bit_eq_mod)

lemma deserialize_ack_packet_eq:
  assumes "drop 0 buf = packet_bytes h (u16_bytes packet_id) @ xs" and "4 \<le> n"
  shows "deserialize_ack_packet buf n = Some (Inr (header_type h, header_dup h, packet_id))"
proof -
  note f = framing [OF assms(1), simplified]
  have len: "length (rem_len_bytes 2) = 1" by (simp add: rem_len_bytes.simps)
  have id: "mqtt_read_uint16_t buf (Suc (Suc 0)) = Some (packet_id, 4)"
    using f(3) len mqtt_read_uint16_t_cursor [of 2 buf packet_id xs] by (simp add: numeral_2_eq_2)
  show ?thesis
    using assms(2) f(1,2) len id by (simp add: deserialize_ack_packet_def Let_def)
qed

lemma read_string_with_len_cursor:
  assumes "drop p buf = utf8_bytes s @ xs" and "length s \<le> QCLOUD_IOT_MQTT_RX_BUF_LEN"
    and "p + 2 + length s \<le> enddata"
  shows "read_string_with_len buf p enddata = Some (Inr (p + 2, of_nat (length s), p + 2 + length s))"
proof -
  from assms(1) have "mqtt_read_uint16_t buf p = Some (of_nat (length s), p + 2)"
    by (intro mqtt_read_uint16_t_cursor [where xs = "s @ xs"]) (simp add: utf8_bytes_def)
  moreover have "unat (of_nat (length s) :: u16) = length s"
    using assms(2) by (simp add: unat_of_nat_u16)
  ultimately show ?thesis
    using assms(2,3) by (simp add: read_string_with_len_def)
qed

text \<open>
  A PUBLISH packet on the wire is read back into its fields, with the topic and the payload
  as slices of the buffer.
\<close>

lemma deserialize_publish_packet_eq:
  assumes "drop 0 buf = packet_bytes h (publish_body qos packet_id topic payload) @ xs"
    and h: "mqtt_init_packet_header PUBLISH qos dup retained = Inr h" and "qos \<le> 2"
    and "length topic \<le> QCLOUD_IOT_MQTT_RX_BUF_LEN"
    and "length (publish_body qos packet_id topic payload) < 268435456" and "4 \<le> n"
  shows "\<exists>f. deserialize_publish_packet buf n = Some (Inr f) \<and>
     pf_dup f = dup AND 1 \<and> pf_qos f = qos \<and> pf_retained f = retained AND 1 \<and>
     pf_packet_id f = (if qos > 0 then Some packet_id else None) \<and>
     pf_topic_len f = of_nat (length topic) \<and> take (length topic) (drop (pf_topic f) buf) = topic \<and>
     pf_payload_len f = of_nat (length payload) \<and> drop (pf_payload f) buf = payload @ xs"
proof -
  let ?body = "publish_body qos packet_id topic payload"
  let ?p = "1 + length (rem_len_bytes (length ?body))"
  let ?q = "?p + 2 + length topic"
  note fr = framing [OF assms(1,5)] and hd = mqtt_init_packet_header_fields [OF h]
  from fr(3) have top: "drop ?p buf = utf8_bytes topic @ (if qos > 0 then u16_bytes packet_id else []) @ payload @ xs"
    by (simp add: publish_body_def)
  from cursor_append [OF top] have rest: "drop ?q buf = (if qos > 0 then u16_bytes packet_id else []) @ payload @ xs"
    by simp
  from top have topic: "drop (?p + 2) buf = topic @ (if qos > 0 then u16_bytes packet_id else []) @ payload @ xs"
    using cursor_append [of ?p buf "u16_bytes (of_nat (length topic))"] by (simp add: utf8_bytes_def)
  have str: "read_string_with_len buf ?p (?p + length ?body) = Some (Inr (?p + 2, of_nat (length topic), ?q))"
    using read_string_with_len_cursor [OF top assms(4), of "?p + length ?body"] by (simp add: publish_body_def)
  have len: "length ?body = 2 + length topic + (if qos > 0 then 2 else 0) + length payload"
    by (simp add: publish_body_def)
  have un: "unat (of_nat (length ?body) :: u32) = length ?body"
    using assms(5) by (simp add: unat_of_nat_u32)
  show ?thesis
  proof (cases "qos > 0")
    case True
    with rest have id: "mqtt_read_uint16_t buf ?q = Some (packet_id, ?q + 2)"
      by (simp add: mqtt_read_uint16_t_cursor)
    have pay: "drop (?q + 2) buf = payload @ xs"
      using True rest cursor_append [of ?q buf "u16_bytes packet_id"] by simp
    show ?thesis
      using True assms(3,6) fr(1,2) hd str un len id pay topic
      by (simp add: deserialize_publish_packet_def Let_def)
  next
    case False
    then show ?thesis
      using assms(3,6) fr(1,2) hd str un len rest topic
      by (simp add: deserialize_publish_packet_def Let_def)
  qed
qed

section \<open>Reading packets back\<close>

lemma suback_payload_loop_ok:
  "drop p buf = codes @ xs \<Longrightarrow> count + length codes \<le> max_count + 1 \<Longrightarrow> count \<le> length qs \<Longrightarrow>
   suback_payload_loop buf p (p + length codes) max_count count qs =
     buf_write qs count (map unat codes) \<bind> (\<lambda>qs. Some (Inr (count + length codes, qs)))"
proof (induction codes arbitrary: p count qs)
  case Nil
  then show ?case by (simp add: suback_payload_loop.simps buf_write_Nil)
next
  case (Cons c cs)
  have rd: "mqtt_read_char buf p = Some (c, p + 1)"
    using Cons.prems(1) by (simp add: mqtt_read_char_cursor)
  have unfold: "suback_payload_loop buf p (p + length (c # cs)) max_count count qs =
      buf_write qs count [unat c] \<bind> (\<lambda>qs. suback_payload_loop buf (p + 1) (p + 1 + length cs) max_count (count + 1) qs)"
    using Cons.prems(2) rd by (subst suback_payload_loop.simps) (simp add: buf_put_eq_write)
  have step: "suback_payload_loop buf (p + 1) (p + 1 + length cs) max_count (count + 1) q =
      buf_write q (count + 1) (map unat cs) \<bind> (\<lambda>qs. Some (Inr (count + 1 + length cs, qs)))"
    if "buf_write qs count [unat c] = Some q" for q
    using Cons.prems(2) that cursor_Suc [of p buf c "cs @ xs"] Cons.prems(1)
    by (intro Cons.IH) (auto simp: length_buf_write [OF that] buf_write_def split: if_splits)
  show ?case
  proof (cases "buf_write qs count [unat c]")
    case None
    then show ?thesis unfolding unfold by (auto simp: buf_write_def split: if_splits)
  next
    case (Some q)
    with buf_write_append_at [of "count + 1" count "[unat c]" qs "map unat cs"
        "\<lambda>qs. Some (Inr (count + 1 + length cs, qs) :: int + nat \<times> nat list)"]
      step [OF Some]
    show ?thesis unfolding unfold by simp
  qed
qed

lemma suback_payload_loop_too_many:
  "drop p buf = codes @ xs \<Longrightarrow> max_count + 1 < count + length codes \<Longrightarrow> count \<le> max_count + 1 \<Longrightarrow>
   max_count < length qs \<Longrightarrow>
   suback_payload_loop buf p (p + length codes) max_count count qs = Some (Inl QCLOUD_ERR_FAILURE)"
proof (induction codes arbitrary: p count qs)
  case (Cons c cs)
  have rd: "mqtt_read_char buf p = Some (c, p + 1)"
    using Cons.prems(1) by (simp add: mqtt_read_char_cursor)
  show ?case
  proof (cases "count > max_count")
    case True
    then show ?thesis by (subst suback_payload_loop.simps) simp
  next
    case False
    with Cons.prems have "suback_payload_loop buf (p + 1) (p + 1 + length cs) max_count (count + 1) (qs[count := unat c])
        = Some (Inl QCLOUD_ERR_FAILURE)"
      using cursor_Suc [of p buf c "cs @ xs"] by (intro Cons.IH) simp_all
    with False rd Cons.prems(4) show ?thesis by (subst suback_payload_loop.simps) (simp add: buf_put_def)
  qed
qed simp

text \<open>
  The SUBACK reader on a well-formed packet. Up to \<open>max_count + 1\<close> return codes are accepted and
  stored; only beyond that the packet is refused.
\<close>

lemma deserialize_suback_packet_eq:
  assumes "drop 0 buf = packet_bytes h (u16_bytes packet_id @ codes) @ xs"
    and "header_type h = msg_code SUBACK" and "length codes < 268435454" and "5 \<le> n"
  shows "length codes \<le> max_count + 1 \<Longrightarrow>
           deserialize_suback_packet max_count qs buf n =
             buf_write qs 0 (map unat codes) \<bind> (\<lambda>qs. Some (Inr (packet_id, length codes, qs)))"
    and "length codes > max_count + 1 \<Longrightarrow> max_count < length qs \<Longrightarrow>
           deserialize_suback_packet max_count qs buf n = Some (Inl QCLOUD_ERR_FAILURE)"
proof -
  let ?body = "u16_bytes packet_id @ codes"
  let ?p = "1 + length (rem_len_bytes (length ?body))"
  have lt: "length ?body < 268435456" using assms(3) by simp
  note fr = framing [OF assms(1) lt]
  have id: "mqtt_read_uint16_t buf ?p = Some (packet_id, ?p + 2)"
    using fr(3) by (simp add: mqtt_read_uint16_t_cursor)
  have cur: "drop (?p + 2) buf = codes @ xs"
    using fr(3) cursor_append [of ?p buf "u16_bytes packet_id" "codes @ xs"] by simp
  have un: "unat (of_nat (length ?body) :: u32) = length ?body"
    by (rule unat_of_nat_u32 [OF lt])
  have "uint (of_nat (length ?body) :: u32) = int (unat (of_nat (length ?body) :: u32))" by simp
  then have ui: "uint (of_nat (length ?body) :: u32) = int (length ?body)" by (simp only: un)
  have eq: "deserialize_suback_packet max_count qs buf n =
      suback_payload_loop buf (?p + 2) (?p + 2 + length codes) max_count 0 qs \<bind>
        (\<lambda>r. case r of Inl rc \<Rightarrow> Some (Inl rc)
             | Inr (count, qs) \<Rightarrow> Some (Inr (packet_id, count, qs)))"
    using assms(2,4) fr(1,2) id un ui by (simp add: deserialize_suback_packet_def Let_def add.assoc)
  show "deserialize_suback_packet max_count qs buf n =
          buf_write qs 0 (map unat codes) \<bind> (\<lambda>qs. Some (Inr (packet_id, length codes, qs)))"
    if "length codes \<le> max_count + 1"
    unfolding eq using suback_payload_loop_ok [OF cur, of 0 max_count qs] that by simp
  show "deserialize_suback_packet max_count qs buf n = Some (Inl QCLOUD_ERR_FAILURE)"
    if "length codes > max_count + 1" and "max_count < length qs"
    unfolding eq using suback_payload_loop_too_many [OF cur, of max_count 0 qs] that by simp
qed

lemma deserialize_connack_packet_eq:
  assumes "drop 0 buf = packet_bytes h [flags, c] @ xs" and "header_type h = msg_code CONNACK" and "4 \<le> n"
  shows "deserialize_connack_packet buf n = Some (Inr (flags AND 1, connack_code c))"
proof -
  note f = framing [OF assms(1), simplified]
  have len: "length (rem_len_bytes (Suc (Suc 0))) = 1" by (simp add: rem_len_bytes.simps)
  have cur: "drop (Suc (Suc 0)) buf = flags # c # xs" using f(3) len by simp
  from cursor_Suc [OF cur] have cur': "drop (Suc (Suc (Suc 0))) buf = c # xs" .
  show ?thesis
    using assms(2,3) f(1,2) len mqtt_read_char_cursor [OF cur] mqtt_read_char_cursor [OF cur']
    by (simp add: deserialize_connack_packet_def Let_def)
qed


lemma decode_packet_rem_len_safe:
  "p + (4 - k) \<le> length buf \<Longrightarrow>
   \<exists>r. decode_packet_rem_len_from_buf_read buf p v m k = Some r"
proof (induction buf p v m k rule: decode_packet_rem_len_from_buf_read.induct)
  case (1 buf p v m k)
  show ?case
  proof (cases "k < 4")
    case True
    with 1(2) have c: "buf_get buf p = Some (buf ! p)" by (simp add: buf_get_def)
    from True have "\<not> 4 < k + 1" by simp
    from 1(1) [OF this] c True 1(2) show ?thesis
      by (subst decode_packet_rem_len_from_buf_read.simps) (auto simp: Let_def)
  qed (simp add: decode_packet_rem_len_from_buf_read.simps)
qed

lemma decode_packet_rem_len_count:
  "decode_packet_rem_len_from_buf_read buf p v m k = Some (Inr (l, r)) \<Longrightarrow> k < r \<and> r \<le> 4"
proof (induction buf p v m k rule: decode_packet_rem_len_from_buf_read.induct)
  case (1 buf p v m k)
  from 1(2) show ?case
    by (subst (asm) decode_packet_rem_len_from_buf_read.simps)
      (auto simp: Let_def bind_Some_iff split: if_splits dest: 1(1) [simplified])
qed

lemma read_string_with_len_inside:
  assumes "enddata \<le> length buf" and "p \<le> enddata"
  shows "\<exists>r. read_string_with_len buf p enddata = Some r"
    and "read_string_with_len buf p enddata = Some (Inr (s, n, q)) \<Longrightarrow> p + 2 = s \<and> q = s + unat n \<and> q \<le> enddata"
  using assms
  by (auto simp: read_string_with_len_def mqtt_read_uint16_t_def buf_get_def bind_Some_iff split: if_splits)

text \<open>
  Reading any PUBLISH packet that the receive buffer holds completely: the reader stays inside
  the buffer and the slices it returns lie inside the packet, unless the packet has a QoS above 0
  and ends before its packet identifier.
\<close>

lemma deserialize_publish_packet_inside:
  assumes "5 \<le> length buf" and "mqtt_read_packet_rem_len_form_buf buf 1 = Some (Inr (l, r))"
    and "1 + r + unat l \<le> length buf"
  shows "header_qos (buf ! 0) = 0 \<Longrightarrow> \<exists>x. deserialize_publish_packet buf n = Some x"
    and "deserialize_publish_packet buf n = Some (Inr f) \<Longrightarrow>
         header_qos (buf ! 0) = 0 \<or> pf_topic f + unat (pf_topic_len f) + 2 \<le> 1 + r + unat l \<Longrightarrow>
         pf_topic f + unat (pf_topic_len f) \<le> pf_payload f \<and>
         pf_payload f + unat (pf_payload_len f) = 1 + r + unat l"
proof -
  let ?e = "1 + r + unat l"
  have rd: "mqtt_read_char buf 0 = Some (buf ! 0, 1)"
    using assms(1) by (auto simp: mqtt_read_char_def buf_get_def)
  note str = read_string_with_len_inside [of ?e buf "1 + r"]
  show "\<exists>x. deserialize_publish_packet buf n = Some x" if "header_qos (buf ! 0) = 0"
    using assms rd that str
    by (auto simp: deserialize_publish_packet_def Let_def split: sum.splits)
  show "pf_topic f + unat (pf_topic_len f) \<le> pf_payload f \<and>
         pf_payload f + unat (pf_payload_len f) = 1 + r + unat l"
    if "deserialize_publish_packet buf n = Some (Inr f)"
      and "header_qos (buf ! 0) = 0 \<or> pf_topic f + unat (pf_topic_len f) + 2 \<le> 1 + r + unat l"
  proof -
    from str(1) [OF assms(3)] obtain x where x: "read_string_with_len buf (1 + r) ?e = Some x" by auto
    with that(1) assms(2) rd obtain t k q where "x = Inr (t, k, q)"
      by (cases x) (auto simp: deserialize_publish_packet_def Let_def split: if_splits)
    with x have t: "read_string_with_len buf (1 + r) ?e = Some (Inr (t, k, q))" by simp
    with that(1) assms(2) rd have f: "pf_topic f = t" "pf_topic_len f = k"
        "pf_payload f = (if header_qos (buf ! 0) = 0 then q else q + 2)"
        "pf_payload_len f = of_int (int ?e - int (pf_payload f))"
      by (auto simp: deserialize_publish_packet_def Let_def mqtt_read_uint16_t_def bind_Some_iff
          split: if_splits)
    from str(2) [OF assms(3) _ t] have q: "q = t + unat k" "q \<le> ?e" by auto
    with that(2) f have pay: "pf_payload f \<le> ?e" by (auto split: if_splits)
    have big: "?e - pf_payload f < 2 ^ 64"
    proof -
      have "unat l < 2 ^ 32" using unsigned_less [of l, where ?'a = nat] by simp
      moreover have "r \<le> 4"
        using decode_packet_rem_len_count assms(2) by (auto simp: mqtt_read_packet_rem_len_form_buf_def)
      ultimately show ?thesis by simp
    qed
    have "of_int (int ?e - int (pf_payload f)) = (of_nat (?e - pf_payload f) :: u64)"
      using pay by (simp add: of_nat_diff)
    then have "unat (pf_payload_len f) = ?e - pf_payload f"
      using f(4) big by (simp add: unat_of_nat take_bit_eq_mod)
    with pay f q show ?thesis by (auto split: if_splits)
  qed
qed

text \<open>
  The exception is real: a PUBLISH packet of QoS 1 that ends right after its topic is accepted with
  a payload of \<open>2 ^ 64 - 2\<close> bytes that starts behind the packet.
\<close>

lemma deserialize_publish_packet_no_id:
  assumes "drop 0 buf = packet_bytes h (utf8_bytes topic) @ a # b # xs"
    and "mqtt_init_packet_header PUBLISH 1 dup retained = Inr h"
    and "length topic \<le> QCLOUD_IOT_MQTT_RX_BUF_LEN" and "4 \<le> n"
  shows "\<exists>f. deserialize_publish_packet buf n = Some (Inr f) \<and> unat (pf_payload_len f) = 2 ^ 64 - 2 \<and>
             pf_payload f = length (packet_bytes h (utf8_bytes topic)) + 2"
proof -
  let ?body = "utf8_bytes topic"
  let ?p = "1 + length (rem_len_bytes (length ?body))"
  let ?q = "?p + 2 + length topic"
  have lt: "length ?body < 268435456" using assms(3) by simp
  note fr = framing [OF assms(1) lt] and hd = mqtt_init_packet_header_fields [OF assms(2)]
  have un: "unat (of_nat (length ?body) :: u32) = length ?body" by (rule unat_of_nat_u32 [OF lt])
  have str: "read_string_with_len buf ?p (?p + length ?body) = Some (Inr (?p + 2, of_nat (length topic), ?q))"
    using read_string_with_len_cursor [OF fr(3) assms(3), of "?p + length ?body"] by simp
  from cursor_append [OF fr(3)] have rest: "drop ?q buf = [a, b] @ xs" by simp
  from buf_get_cursor [of ?q buf a] buf_get_cursor [of "Suc ?q" buf b] cursor_Suc [of ?q buf a] rest
  have id: "mqtt_read_uint16_t buf ?q = Some (ucast b + 256 * ucast a, ?q + 2)"
    by (simp add: mqtt_read_uint16_t_def)
  show ?thesis
    using assms(4) fr(1,2) hd un str id
    by (simp add: deserialize_publish_packet_def Let_def packet_bytes_def)
qed

section \<open>Properties of the codec\<close>

text \<open>
  A PUBLISH packet that the client serializes is read back with the same flags, topic, packet
  identifier and payload, and the packet is exactly its wire format followed by the old bytes.
\<close>

lemma publish_roundtrip:
  assumes "qos \<le> QOS2" and "length topic \<le> MAX_SIZE_OF_CLOUD_TOPIC" and "length buf = n" and "4 \<le> n" and "n < 268435456"
    and "get_mqtt_packet_len (length (publish_body qos i topic payload)) \<le> n"
  shows "\<exists>b k f. serialize_publish_packet buf n dup qos retained i topic (Some payload) = Some (Inr (b, k)) \<and>
     length b = n \<and> k \<le> n \<and> drop k b = drop k buf \<and>
     deserialize_publish_packet b n = Some (Inr f) \<and>
     pf_dup f = dup AND 1 \<and> pf_qos f = qos \<and> pf_retained f = retained AND 1 \<and>
     pf_packet_id f = (if qos > 0 then Some i else None) \<and>
     take (unat (pf_topic_len f)) (drop (pf_topic f) b) = topic \<and>
     take (unat (pf_payload_len f)) (drop (pf_payload f) b) = payload"
proof -
  let ?body = "publish_body qos i topic payload"
  have body: "length ?body < n"
    using assms(5,6) by (simp add: get_mqtt_packet_len_def Let_def split: if_splits)
  then have lt: "length ?body < 268435456" using assms(5) by simp
  obtain h where h: "mqtt_init_packet_header PUBLISH qos dup retained = Inr h"
    by (simp add: mqtt_init_packet_header_def Let_def)
  let ?k = "length (packet_bytes h ?body)" and ?b = "packet_bytes h ?body @ drop (length (packet_bytes h ?body)) buf"
  have fit: "?k \<le> n" using length_packet_bytes_le [OF lt] assms(6) by simp
  have "serialize_publish_packet buf n dup qos retained i topic (Some payload) = Some (Inr (?b, ?k))"
    using serialize_publish_packet_eq [OF h lt assms(3)] assms(6) by simp
  moreover obtain f where f: "deserialize_publish_packet ?b n = Some (Inr f)"
    "pf_dup f = dup AND 1" "pf_qos f = qos" "pf_retained f = retained AND 1"
    "pf_packet_id f = (if qos > 0 then Some i else None)" "pf_topic_len f = of_nat (length topic)"
    "take (length topic) (drop (pf_topic f) ?b) = topic" "pf_payload_len f = of_nat (length payload)"
    "drop (pf_payload f) ?b = payload @ drop ?k buf"
    using deserialize_publish_packet_eq [of ?b h qos i topic payload "drop ?k buf" dup retained n] h lt assms(1,2,4)
    by auto
  moreover have "unat (of_nat (length payload) :: u64) = length payload"
    using lt by (simp add: publish_body_def unat_of_nat)
  moreover have "unat (of_nat (length topic) :: u16) = length topic"
    using assms(2) by (simp add: unat_of_nat)
  ultimately show ?thesis
    using fit assms(3) by (intro exI [of _ ?b] exI [of _ ?k] exI [of _ f]) simp
qed

text \<open>
  Every remaining length that MQTT allows is written in at most four bytes inside the buffer
  and read back unchanged, from the same place and with the same number of bytes.
\<close>

lemma rem_len_roundtrip:
  assumes "len < 268435456" and "p + 4 \<le> length buf"
  shows "\<exists>b k. mqtt_write_packet_rem_len buf p (of_nat len) 0 = Some (b, k) \<and> 1 \<le> k \<and> k \<le> 4 \<and>
     take p b = take p buf \<and> drop (p + k) b = drop (p + k) buf \<and>
     mqtt_read_packet_rem_len_form_buf b p = Some (Inr (of_nat len, k))"
proof -
  let ?l = "rem_len_bytes len"
  have k: "1 \<le> length ?l" "length ?l \<le> 4"
    using length_rem_len_bytes_range [OF assms(1)] by (simp_all split: if_splits)
  let ?b = "take p buf @ ?l @ drop (p + length ?l) buf"
  have "mqtt_write_packet_rem_len buf p (of_nat len) 0 = Some (?b, length ?l)"
    using assms k by (simp add: mqtt_write_packet_rem_len_eq unat_of_nat_u32 buf_write_def)
  moreover have "mqtt_read_packet_rem_len_form_buf ?b p = Some (Inr (of_nat len, length ?l))"
    unfolding mqtt_read_packet_rem_len_form_buf_def
    using decode_packet_rem_len_cursor [of len 0 p ?b "drop (p + length ?l) buf" 0 1] assms by simp
  ultimately show ?thesis
    using k assms(2) by (intro exI [of _ ?b] exI [of _ "length ?l"]) simp
qed

text \<open>
  An acknowledgement (PUBACK, PUBREC, PUBREL, PUBCOMP, UNSUBACK) takes four bytes and is read
  back with its type, duplicate flag and packet identifier.
\<close>

lemma ack_roundtrip:
  assumes "pt \<noteq> RESERVED" and "length buf = n" and "4 \<le> n"
  shows "\<exists>b. serialize_pub_ack_packet buf n pt dup i = Some (Inr (b, 4)) \<and> length b = n \<and>
     deserialize_ack_packet b n = Some (Inr (msg_code pt, dup AND 1, i))"
proof -
  obtain h where h: "mqtt_init_packet_header pt (if pt = PUBREL then QOS1 else QOS0) dup 0 = Inr h"
    using assms(1) by (simp add: mqtt_init_packet_header_def Let_def)
  let ?b = "packet_bytes h (u16_bytes i) @ drop 4 buf"
  have "deserialize_ack_packet ?b n = Some (Inr (header_type h, header_dup h, i))"
    by (rule deserialize_ack_packet_eq) (simp_all add: assms(3))
  then have "deserialize_ack_packet ?b n = Some (Inr (msg_code pt, dup AND 1, i))"
    using mqtt_init_packet_header_fields(1,2) [OF h] by simp
  moreover have "length ?b = n"
    using assms(2,3) length_rem_len_bytes [of 2] by (simp add: packet_bytes_def)
  ultimately show ?thesis
    using serialize_pub_ack_packet_eq [OF h assms(2)] assms(3) by (intro exI [of _ ?b]) simp
qed

text \<open>
  A SUBSCRIBE for one filter and an UNSUBSCRIBE have the wire format of MQTT 3.1.1: first byte
  0x82 or 0xA2, remaining length, packet identifier, length-prefixed filter (and the requested QoS).
  The client's transmit buffer always holds them when the filter has a legal length.
\<close>

lemma subscribe_wire_format:
  assumes "length topic \<le> MAX_SIZE_OF_CLOUD_TOPIC" and "length buf = QCLOUD_IOT_MQTT_TX_BUF_LEN"
  shows "(let s = packet_bytes 0x82 (u16_bytes i @ utf8_bytes topic @ [of_nat q])
          in serialize_subscribe_packet buf QCLOUD_IOT_MQTT_TX_BUF_LEN 0 i 1 topic [q] = Some (Inr (s @ drop (length s) buf, length s))) \<and>
         (let s = packet_bytes 0xA2 (u16_bytes i @ utf8_bytes topic)
          in serialize_unsubscribe_packet buf QCLOUD_IOT_MQTT_TX_BUF_LEN 0 i 1 topic = Some (Inr (s @ drop (length s) buf, length s)))"
proof -
  have h: "mqtt_init_packet_header SUBSCRIBE QOS1 0 0 = Inr 0x82" "mqtt_init_packet_header UNSUBSCRIBE QOS1 0 0 = Inr 0xA2"
    by (simp_all add: mqtt_init_packet_header_def)
  have len: "length (subscribe_body i topic q) \<le> 133" "length (unsubscribe_body i topic) \<le> 132"
    using assms(1) by (simp_all add: subscribe_body_def unsubscribe_body_def)
  then have "get_mqtt_packet_len (length (subscribe_body i topic q)) \<le> 2048"
    "get_mqtt_packet_len (length (unsubscribe_body i topic)) \<le> 2048"
    by (simp_all add: get_mqtt_packet_len_def Let_def)
  then show ?thesis
    using serialize_subscribe_packet_eq [OF h(1) _ assms(2), of i topic q] len
      serialize_unsubscribe_packet_eq [OF h(2) _ assms(2), of i topic]
    by (simp add: Let_def subscribe_body_def unsubscribe_body_def)
qed

text \<open>
  The SUBACK reader limits the number of return codes off by one: told that the caller's array
  has \<open>max_count\<close> entries it stores \<open>max_count + 1\<close> codes, which leaves an array of that size, and
  refuses only a packet with more.
\<close>

lemma suback_count_off_by_one:
  assumes "header_type h = msg_code SUBACK" and "length codes = max_count + 1" and "length codes < 268435454"
    and "length granted = max_count"
  shows "deserialize_suback_packet max_count granted (packet_bytes h (u16_bytes i @ codes) @ xs) n =
           (if 5 \<le> n then None else Some (Inl QCLOUD_ERR_BUF_TOO_SHORT)) \<and>
         (5 \<le> n \<longrightarrow> deserialize_suback_packet max_count (granted @ [g]) (packet_bytes h (u16_bytes i @ codes) @ xs) n =
           Some (Inr (i, max_count + 1, map unat codes)))"
proof (cases "5 \<le> n")
  case True
  let ?buf = "packet_bytes h (u16_bytes i @ codes) @ xs"
  have "drop 0 ?buf = packet_bytes h (u16_bytes i @ codes) @ xs" by simp
  from deserialize_suback_packet_eq(1) [OF this assms(1,3) True] assms(2,4) True show ?thesis
    by (simp add: buf_write_def)
qed (simp add: deserialize_suback_packet_def)

text \<open>
  A PUBLISH with QoS 1 that ends right after its topic is accepted: the packet identifier is taken
  from the two bytes behind the packet, and the payload length is \<open>2 ^ 64 - 2\<close>.
\<close>

lemma publish_without_id_accepted:
  assumes "length topic \<le> MAX_SIZE_OF_CLOUD_TOPIC" and "4 \<le> n"
  shows "\<exists>f. deserialize_publish_packet (packet_bytes 0x32 (utf8_bytes topic) @ a # b # xs) n = Some (Inr f) \<and>
     unat (pf_payload_len f) = 2 ^ 64 - 2 \<and> pf_payload f = length (packet_bytes 0x32 (utf8_bytes topic)) + 2"
proof (rule deserialize_publish_packet_no_id)
  show "mqtt_init_packet_header PUBLISH 1 0 0 = Inr 0x32" by (simp add: mqtt_init_packet_header_def)
qed (use assms in simp_all)

text \<open>
  Reading a PUBLISH packet that the buffer holds completely never touches a byte outside the
  buffer at QoS 0, and the topic and the payload it reports then lie inside the packet, one after
  the other, the payload up to the packet's last byte; at a higher QoS the same holds if there is
  room for the packet identifier.
\<close>

lemma publish_reader_inside:
  assumes "5 \<le> length buf" and "mqtt_read_packet_rem_len_form_buf buf 1 = Some (Inr (l, r))"
    and "1 + r + unat l \<le> length buf"
  shows "(header_qos (buf ! 0) = 0 \<longrightarrow> (\<exists>x. deserialize_publish_packet buf n = Some x)) \<and>
     (\<forall>f. deserialize_publish_packet buf n = Some (Inr f) \<longrightarrow>
        header_qos (buf ! 0) = 0 \<or> pf_topic f + unat (pf_topic_len f) + 2 \<le> 1 + r + unat l \<longrightarrow>
        pf_topic f + unat (pf_topic_len f) \<le> pf_payload f \<and> pf_payload f + unat (pf_payload_len f) = 1 + r + unat l)"
  using deserialize_publish_packet_inside [OF assms] by blast

text \<open>
  A CONNACK is read as its session-present flag and the code's meaning for every one of the
  256 return codes, and only code 0 is read as an accepted connection.
\<close>

lemma connack_reader:
  assumes "header_type h = msg_code CONNACK" and "4 \<le> n"
  shows "\<exists>rc. deserialize_connack_packet (packet_bytes h [flags, code] @ xs) n = Some (Inr (flags AND 1, rc)) \<and>
     (rc = QCLOUD_RET_MQTT_CONNACK_CONNECTION_ACCEPTED \<longleftrightarrow> code = 0) \<and>
     (code \<noteq> 0 \<longrightarrow> rc < 0) \<and> (5 < code \<longrightarrow> rc = QCLOUD_ERR_MQTT_CONNACK_UNKNOWN)"
proof -
  have "deserialize_connack_packet (packet_bytes h [flags, code] @ xs) n = Some (Inr (flags AND 1, connack_code code))"
    by (rule deserialize_connack_packet_eq) (use assms in simp_all)
  then show ?thesis by (auto simp: connack_code_def)
qed

end
