(* ===== verification/Hal_Model.thy ===== *)
theory Hal_Model
  imports Hal_Linux
begin

text \<open>
  A kernel that keeps the promises of \<^const>\<open>kernel_ok\<close>, so that the theorems about the SDK can be
  instantiated: the peer's bytes are a list, every byte written is recorded, a clock advances by a
  millisecond at each look, and memory is never short. Then the properties of the socket layer and
  of the timers.
\<close>

section \<open>A kernel\<close>

record sim =
  sim_in :: "u8 list"
  sim_out :: "u8 list"
  sim_ms :: nat
  sim_next :: nat

definition tick :: "nat \<Rightarrow> sim \<Rightarrow> sim" where
  "tick n w = w\<lparr>sim_ms := sim_ms w + n\<rparr>"

definition sim_os :: "sim os" where
  "sim_os = \<lparr>
     os_gettimeofday = (\<lambda>w. (\<lparr>tv_sec = int (sim_ms w div 1000), tv_usec = int (sim_ms w mod 1000) * 1000\<rparr>, tick 1 w)),
     os_select_write = (\<lambda>fd tv w. (SelReady, w)),
     os_select_read = (\<lambda>fd tv w. if sim_in w = [] then (SelTimeout, tick (nat (tv_sec tv * 1000 + tv_usec tv div 1000)) w)
                                 else (SelReady, w)),
     os_send = (\<lambda>fd bs w. (SendOk (length bs), w\<lparr>sim_out := sim_out w @ bs\<rparr>)),
     os_recv = (\<lambda>fd n w. if n = 0 \<or> sim_in w = [] then (RecvClosed, w)
                         else (RecvData (take n (sim_in w)), w\<lparr>sim_in := drop n (sim_in w)\<rparr>)),
     os_getaddrinfo = (\<lambda>h p w. (Some [1], w)),
     os_socket = (\<lambda>a w. (3, w)),
     os_connect = (\<lambda>fd a w. (True, w)),
     os_shutdown = (\<lambda>fd w. (0, w)),
     os_close = (\<lambda>fd w. (0, w)),
     os_malloc = (\<lambda>w. (Some (sim_next w), w\<lparr>sim_next := sim_next w + 1\<rparr>)),
     os_srand = (\<lambda>s w. w),
     os_rand = (\<lambda>w. (sim_next w, w\<lparr>sim_next := sim_next w + 1\<rparr>))\<rparr>"

text \<open>The world with the bytes the peer will send, and the clock.\<close>

definition sim_world :: "u8 list \<Rightarrow> nat \<Rightarrow> sim" where
  "sim_world bs ms = \<lparr>sim_in = bs, sim_out = [], sim_ms = ms, sim_next = 1\<rparr>"

lemma sim_world_fields [simp]:
  "sim_in (sim_world bs ms) = bs" "sim_out (sim_world bs ms) = []" "sim_ms (sim_world bs ms) = ms"
  "sim_next (sim_world bs ms) = 1"
  by (simp_all add: sim_world_def)

lemma sim_os_calls [simp]:
  "os_gettimeofday sim_os w = (\<lparr>tv_sec = int (sim_ms w div 1000), tv_usec = int (sim_ms w mod 1000) * 1000\<rparr>, tick 1 w)"
  "os_select_write sim_os fd tv w = (SelReady, w)"
  "os_select_read sim_os fd tv w =
     (if sim_in w = [] then (SelTimeout, tick (nat (tv_sec tv * 1000 + tv_usec tv div 1000)) w) else (SelReady, w))"
  "os_send sim_os fd bs w = (SendOk (length bs), w\<lparr>sim_out := sim_out w @ bs\<rparr>)"
  "os_recv sim_os fd n w = (if n = 0 \<or> sim_in w = [] then (RecvClosed, w)
     else (RecvData (take n (sim_in w)), w\<lparr>sim_in := drop n (sim_in w)\<rparr>))"
  "os_malloc sim_os w = (Some (sim_next w), w\<lparr>sim_next := sim_next w + 1\<rparr>)"
  "os_rand sim_os w = (sim_next w, w\<lparr>sim_next := sim_next w + 1\<rparr>)"
  "os_srand sim_os x w = w"
  by (simp_all add: sim_os_def)

lemma sim_kernel_ok [simp]: "kernel_ok sim_os"
  by (auto simp: kernel_ok_def split: if_splits)

lemma sim_no_recv_eintr [simp]: "no_recv_eintr sim_os"
  by (auto simp: no_recv_eintr_def)

section \<open>Properties of the socket layer and the timers\<close>

text \<open>
  A read on a socket returns, where no signal interrupts it; it never stores more bytes than were
  asked for, and it reports success exactly if all of them have arrived.
\<close>

lemma tcp_read_contract:
  assumes "kernel_ok os" and "no_recv_eintr os"
  shows "\<exists>rc bs w'. HAL_TCP_Read os fd n t w = Some (rc, bs, w') \<and> length bs \<le> n \<and> (rc = QCLOUD_RET_SUCCESS \<longleftrightarrow> length bs = n)"
proof -
  obtain now w1 where g: "linux_get_time_ms os w = (now, w1)" by fastforce
  obtain r where r: "tcp_read_loop os fd n (now + of_nat t) [] w1 = Some r"
    using tcp_read_loop_returns [OF assms] by blast
  have "length (fst (snd r)) \<le> n \<and> (fst r = 0 \<longrightarrow> length (fst (snd r)) = n)"
    by (rule tcp_read_loop_length [OF r assms(1)]) simp
  with g r show ?thesis
    by (cases r) (auto simp: HAL_TCP_Read_def)
qed

text \<open>
  A countdown of \<open>n\<close> milliseconds expires exactly when the clock has advanced by \<open>n\<close> milliseconds
  since it was started, and until then the remaining time is the rest, rounded down.
\<close>

lemma timer_measures_elapsed_time:
  assumes "os_gettimeofday os w = (t0, w1)" and "tv_norm t0" and "os_gettimeofday os w2 = (t1, w3)" and "tv_norm t1"
  shows "\<exists>timer. HAL_Timer_countdown_ms os t n w = (timer, w1) \<and>
     HAL_Timer_expired os timer w2 = (tv_us t0 + 1000 * int n \<le> tv_us t1, w3) \<and>
     HAL_Timer_remain os timer w2 = (max 0 ((tv_us t0 + 1000 * int n - tv_us t1) div 1000), w3)"
proof -
  obtain timer where c: "HAL_Timer_countdown_ms os t n w = (timer, w1)"
    and norm: "tv_norm (end_time timer)" and us: "tv_us (end_time timer) = tv_us t0 + 1000 * int n"
    using HAL_Timer_countdown_ms_us [OF assms(1,2)] by blast
  let ?r = "timersub (end_time timer) t1"
  have r: "tv_norm ?r" "tv_us ?r = tv_us t0 + 1000 * int n - tv_us t1"
    using timersub_norm [OF norm assms(4)] by (simp_all add: timersub_us us)
  have "(if tv_sec ?r < 0 then 0 else tv_sec ?r * 1000 + tv_usec ?r div 1000) = max 0 (tv_us ?r div 1000)"
    using r(1) by (auto simp: tv_norm_def tv_us_def)
  then show ?thesis
    using c HAL_Timer_expired_us [OF norm assms(3,4)] us r(2) assms(3)
    by (simp add: HAL_Timer_remain_def)
qed

section \<open>The socket layer on this kernel\<close>

lemma sim_time_ms: "linux_get_time_ms sim_os w = (of_nat (sim_ms w), tick 1 w)"
proof -
  have "(of_nat (sim_ms w div 1000) * 1000 + of_nat (sim_ms w mod 1000) :: u64) = of_nat (sim_ms w div 1000 * 1000 + sim_ms w mod 1000)"
    by (simp only: of_nat_add of_nat_mult of_nat_numeral)
  then show ?thesis by (simp add: linux_get_time_ms_def)
qed

lemma tick_fields [simp]:
  "sim_in (tick n w) = sim_in w" "sim_out (tick n w) = sim_out w" "sim_ms (tick n w) = sim_ms w + n"
  "sim_next (tick n w) = sim_next w"
  by (simp_all add: tick_def)

lemma sim_left:
  assumes "a < b" and "b < 2 ^ 63"
  shows "linux_time_left (of_nat b) (of_nat a) = of_nat (b - a)" and "(of_nat (b - a) :: u64) \<noteq> 0"
proof -
  have u: "unat (of_nat a :: u64) = a" "unat (of_nat b :: u64) = b" "unat (of_nat (b - a) :: u64) = b - a"
    using assms by (simp_all add: unat_of_nat del: of_nat_diff)
  then show "linux_time_left (of_nat b) (of_nat a) = of_nat (b - a)"
    using assms by (simp add: linux_time_left_def word_less_nat_alt of_nat_diff)
  show "(of_nat (b - a) :: u64) \<noteq> 0" using u(3) assms(1) by (metis unat_0 zero_less_diff less_irrefl)
qed

lemma sim_tcp_write:
  assumes "1 < t" and "sim_ms w + t < 2 ^ 63" and "buf \<noteq> []"
  shows "HAL_TCP_Write sim_os fd buf t w = Some (0, length buf, tick 2 w\<lparr>sim_out := sim_out w @ buf\<rparr>)"
proof -
  have "of_nat (sim_ms w) + of_nat t = (of_nat (sim_ms w + t) :: u64)" by simp
  moreover have "(of_nat (sim_ms w + 1) :: u64) = 1 + of_nat (sim_ms w)" by simp
  ultimately show ?thesis
    using assms sim_left [of "sim_ms w + 1" "sim_ms w + t"]
    by (subst HAL_TCP_Write_def, subst tcp_write_loop.simps)
      (simp add: tcp_write_step_def sim_time_ms Let_def del: of_nat_add)
qed

lemma sim_tcp_read:
  assumes "1 < t" and "sim_ms w + t < 2 ^ 63" and "0 < n" and "n \<le> length (sim_in w)"
  shows "HAL_TCP_Read sim_os fd n t w = Some (0, take n (sim_in w), tick 2 w\<lparr>sim_in := drop n (sim_in w)\<rparr>)"
proof -
  have "of_nat (sim_ms w) + of_nat t = (of_nat (sim_ms w + t) :: u64)" by simp
  then show ?thesis
    using assms sim_left [of "sim_ms w + 1" "sim_ms w + t"]
    by (subst HAL_TCP_Read_def, subst tcp_read_loop.simps)
      (auto simp add: tcp_read_step_def sim_time_ms Let_def simp del: of_nat_add)
qed

end
