(* ===== verification/Mqtt_Inv.thy ===== *)
theory Mqtt_Inv
  imports Mqtt_Yield Mqtt_Codec Hal_Model
begin

text \<open>
  The invariant of the MQTT client (sizes of its buffers, bounds of its lists, well-formed
  subscriptions, the transport that the client talks to) and the proof that every operation of
  \<^verbatim>\<open>sdk_src/protocol/mqtt\<close> keeps it. The lemmas are stated with \<^const>\<open>wp\<close>: they hold of the result
  of an operation, if it has one.
\<close>

section \<open>The invariant\<close>

definition net_ok :: "'w os \<Rightarrow> 'w Network \<Rightarrow> bool" where
  "net_ok os net \<longleftrightarrow>
     nw_read net = network_tcp_read os \<and> nw_write net = network_tcp_write os \<and>
     nw_connect net = network_tcp_connect os \<and> nw_disconnect net = network_tcp_disconnect os \<and>
     nw_is_connected net = qcloud_iot_mqtt_tls_is_connected"

definition good_filter :: "SubTopicHandle \<Rightarrow> bool" where
  "good_filter h \<longleftrightarrow> (\<forall>f. topic_filter h = Some f \<longrightarrow> 0 < length f \<and> length f \<le> MAX_SIZE_OF_CLOUD_TOPIC)"

definition client_inv :: "'w os \<Rightarrow> 'w client \<Rightarrow> bool" where
  "client_inv os c \<longleftrightarrow>
     net_ok os (network_stack c) \<and>
     write_buf_size c = QCLOUD_IOT_MQTT_TX_BUF_LEN \<and> length (write_buf c) = QCLOUD_IOT_MQTT_TX_BUF_LEN \<and>
     read_buf_size c = QCLOUD_IOT_MQTT_RX_BUF_LEN \<and> length (read_buf c) = QCLOUD_IOT_MQTT_RX_BUF_LEN \<and>
     length (list_pub_wait_ack c) \<le> MAX_REPUB_NUM \<and>
     length (list_sub_wait_ack c) \<le> MAX_MESSAGE_HANDLERS \<and>
     (\<forall>(a, i) \<in> set (list_sub_wait_ack c). topic_filter (sub_handler i) \<noteq> None \<and> good_filter (sub_handler i)) \<and>
     length (sub_handles c) = MAX_MESSAGE_HANDLERS \<and> (\<forall>h \<in> set (sub_handles c). good_filter h) \<and>
     length (repeat_packet_id_buf c) = MQTT_MAX_REPEAT_BUF_LEN \<and>
     current_packet_id_cnt c < MQTT_MAX_REPEAT_BUF_LEN \<and>
     500 \<le> command_timeout_ms c \<and> command_timeout_ms c \<le> 20000"

text \<open>Fields that the invariant does not mention.\<close>

lemma client_inv_frame [simp]:
  "client_inv os (c\<lparr>world := w\<rparr>) = client_inv os c"
  "client_inv os (c\<lparr>trace := t\<rparr>) = client_inv os c"
  "client_inv os (c\<lparr>is_connected := b\<rparr>) = client_inv os c"
  "client_inv os (c\<lparr>was_manually_disconnected := b\<rparr>) = client_inv os c"
  "client_inv os (c\<lparr>is_ping_outstanding := n\<rparr>) = client_inv os c"
  "client_inv os (c\<lparr>next_packet_id := i\<rparr>) = client_inv os c"
  "client_inv os (c\<lparr>current_reconnect_wait_interval := u\<rparr>) = client_inv os c"
  "client_inv os (c\<lparr>counter_network_disconnected := u\<rparr>) = client_inv os c"
  "client_inv os (c\<lparr>event_handle := e\<rparr>) = client_inv os c"
  "client_inv os (c\<lparr>options := p\<rparr>) = client_inv os c"
  "client_inv os (c\<lparr>ping_timer := t'\<rparr>) = client_inv os c"
  "client_inv os (c\<lparr>reconnect_delay_timer := t'\<rparr>) = client_inv os c"
  "client_inv os (c\<lparr>psk_decode := k\<rparr>) = client_inv os c"
  by (simp_all add: client_inv_def)

lemma client_inv_write_buf:
  "client_inv os c \<Longrightarrow> length b = length (write_buf c) \<Longrightarrow> client_inv os (c\<lparr>write_buf := b\<rparr>)"
  by (simp add: client_inv_def)

lemma client_inv_read_buf:
  "client_inv os c \<Longrightarrow> length b = length (read_buf c) \<Longrightarrow> client_inv os (c\<lparr>read_buf := b\<rparr>)"
  by (simp add: client_inv_def)

section \<open>The environment changes only the world\<close>

lemmas env_defs = expired_def countdown_ms_def countdown_def left_ms_def HAL_Malloc_def HAL_rand_def
  srand_time_def Let_def

lemma call_frame: "call cb c = c\<lparr>trace := trace c @ [cb]\<rparr>"
  by (simp add: call_def)

lemma notify_event_frame: "\<exists>t. notify_event ev arg c = c\<lparr>trace := t\<rparr>"
  by (cases "h_fp (event_handle c)") (auto simp: notify_event_def call_def intro: exI [of _ "trace c"])

lemma notify_subscriber_frame: "\<exists>t. notify_subscriber h ev c = c\<lparr>trace := t\<rparr>"
  by (cases "sub_event_handler h") (auto simp: notify_subscriber_def call_def intro: exI [of _ "trace c"])

lemma notify_inv [simp]:
  "client_inv os (notify_event ev arg c) = client_inv os c"
  "client_inv os (notify_subscriber h ev c) = client_inv os c"
  "client_inv os (call cb c) = client_inv os c"
  using notify_event_frame [of ev arg c] notify_subscriber_frame [of h ev c] by (auto simp: call_def)

text \<open>A network read or write through a transport that keeps its contract.\<close>

lemma wp_net_read:
  assumes "kernel_ok os" and "net_ok os (network_stack c)"
    and "\<And>rc bs w. length bs \<le> n \<Longrightarrow> (rc = 0 \<Longrightarrow> length bs = n) \<Longrightarrow> P (rc, bs, c\<lparr>world := w\<rparr>)"
  shows "wp (net_read n t c) P"
proof (rule wp_I)
  fix x
  assume "net_read n t c = Some x"
  with assms(2) obtain rc bs w where r: "network_tcp_read os (nw_handle (network_stack c)) n t (world c) = Some (rc, bs, w)"
    and x: "x = (rc, bs, c\<lparr>world := w\<rparr>)"
    by (auto simp: net_read_def net_ok_def bind_Some_iff)
  show "P x" unfolding x
  proof (rule assms(3))
    show "length bs \<le> n" by (rule tcp.rd_bound [OF assms(1) r])
    show "rc = 0 \<Longrightarrow> length bs = n" using tcp.rd_complete [OF assms(1)] r by metis
  qed
qed

lemma wp_net_write:
  assumes "kernel_ok os" and "net_ok os (network_stack c)"
    and "\<And>rc k w. k \<le> length d \<Longrightarrow> P (rc, k, c\<lparr>world := w\<rparr>)"
  shows "wp (net_write d t c) P"
  using assms(2,3) tcp.wr_bound [OF assms(1)]
  by (auto simp: net_write_def wp_def net_ok_def bind_Some_iff)

lemma send_loop_frame: "wp (send_loop os len timer sent rc c) (\<lambda>(rc', sent', c'). \<exists>w. c' = c\<lparr>world := w\<rparr>)"
proof -
  let ?P = "\<lambda>os len timer sent rc c r. \<exists>w. snd (snd r) = c\<lparr>world := w\<rparr>"
  have "?P os len timer sent rc c r" if "send_loop os len timer sent rc c = Some r" for r
  proof (rule send_loop.raw_induct [where P = ?P, OF _ that])
    fix loop and os :: "'a os" and len timer sent rc and c :: "'a client" and r
    assume IH: "\<And>os len timer sent rc c r. loop os len timer sent rc c = Some r \<Longrightarrow> ?P os len timer sent rc c r"
      and eq: "(if sent < len
        then let (e, c) = expired os timer c
             in if e then Some (rc, sent, c)
                else let (t, c) = left_ms os timer c
                     in do {
                       d \<leftarrow> buf_read (write_buf c) sent len;
                       (rc, sentLen, c) \<leftarrow> net_write d (nat t) c;
                       if rc \<noteq> QCLOUD_RET_SUCCESS then Some (rc, sent, c)
                       else loop os len timer (sent + sentLen) rc c
                     }
        else Some (rc, sent, c)) = Some r"
    from eq show "?P os len timer sent rc c r"
      by (fastforce simp: env_defs net_write_def bind_Some_iff split: if_splits prod.splits
          dest!: IH intro: exI [of _ "world c"])
  qed
  then show ?thesis by (force simp: wp_def)
qed

lemma send_mqtt_packet_frame:
  "wp (send_mqtt_packet os len timer c) (\<lambda>(rc, c'). \<exists>w. c' = c\<lparr>world := w\<rparr>)"
  using send_loop_frame [of os len timer 0 QCLOUD_ERR_FAILURE c]
  by (auto simp: send_mqtt_packet_def intro: exI [of _ "world c"] elim!: wp_mono)

section \<open>Reading a packet\<close>

lemma world_last [simp]:
  "c\<lparr>world := w, read_buf := b\<rparr> = c\<lparr>read_buf := b, world := w\<rparr>"
  "c\<lparr>world := w, write_buf := b\<rparr> = c\<lparr>write_buf := b, world := w\<rparr>"
  by (cases c; simp)+

text \<open>A step that changes at most the contents of the receive buffer and the world.\<close>

definition io_step :: "'w client \<Rightarrow> 'w client \<Rightarrow> bool" where
  "io_step c c' \<longleftrightarrow> (\<exists>b w. length b = length (read_buf c) \<and> c' = c\<lparr>read_buf := b, world := w\<rparr>)"

lemma io_stepE:
  assumes "io_step c c'"
  obtains b w where "length b = length (read_buf c)" and "c' = c\<lparr>read_buf := b, world := w\<rparr>"
  using assms unfolding io_step_def by blast

lemma io_step_I: "length b = length (read_buf c) \<Longrightarrow> io_step c (c\<lparr>read_buf := b, world := w\<rparr>)"
  unfolding io_step_def by blast

lemma io_step_refl: "io_step c c"
  using io_step_I [of "read_buf c" c "world c"] by simp

lemma io_step_world: "io_step c c' \<Longrightarrow> io_step c (c'\<lparr>world := w\<rparr>)"
  by (erule io_stepE) (use io_step_I in simp)

lemma io_step_buf: "io_step c c' \<Longrightarrow> length b = length (read_buf c') \<Longrightarrow> io_step c (c'\<lparr>read_buf := b\<rparr>)"
proof (erule io_stepE)
  fix b' w
  assume "length b = length (read_buf c')" "length b' = length (read_buf c)" "c' = c\<lparr>read_buf := b', world := w\<rparr>"
  then show "io_step c (c'\<lparr>read_buf := b\<rparr>)" using io_step_I [of b c w] by simp
qed

lemma io_step_trans: "io_step c c' \<Longrightarrow> io_step c' c'' \<Longrightarrow> io_step c c''"
  by (erule io_stepE, erule io_stepE) (simp add: io_step_I)

lemma io_step_inv: "io_step c c' \<Longrightarrow> client_inv os c \<Longrightarrow> client_inv os c'"
  by (erule io_stepE) (simp add: client_inv_read_buf)

lemma io_step_fields:
  assumes "io_step c c'"
  shows "network_stack c' = network_stack c" "read_buf_size c' = read_buf_size c"
    "length (read_buf c') = length (read_buf c)" "trace c' = trace c" "sub_handles c' = sub_handles c"
    "list_pub_wait_ack c' = list_pub_wait_ack c" "list_sub_wait_ack c' = list_sub_wait_ack c"
    "is_connected c' = is_connected c"
  by (rule io_stepE [OF assms], simp)+

lemma ex_world [simp]: "\<exists>w'. c\<lparr>world := w\<rparr> = c\<lparr>world := w'\<rparr>"
  by blast

lemma ex_world_same: "\<exists>w. c = c\<lparr>world := w\<rparr>"
  by (rule exI [of _ "world c"]) simp

lemma decode_net_step:
  assumes "kernel_ok os"
  shows "net_ok os (network_stack c) \<Longrightarrow>
    wp (decode_packet_rem_len_with_net_read timeout v m len c) (\<lambda>(r, c'). r \<noteq> Inl 0 \<and> (\<exists>w. c' = c\<lparr>world := w\<rparr>))"
proof (induction "4 - len" arbitrary: v m len c rule: less_induct)
  case less
  show ?case
  proof (cases "len + 1 > 4")
    case True
    then show ?thesis
      by (subst decode_packet_rem_len_with_net_read.simps) (auto intro: exI [of _ "world c"])
  next
    case False
    have IH: "wp (decode_packet_rem_len_with_net_read timeout v' m' (len + 1) (c\<lparr>world := w\<rparr>))
            (\<lambda>(r, c'). r \<noteq> Inl 0 \<and> (\<exists>w. c' = c\<lparr>world := w\<rparr>))" for v' m' w
      using less(1) [of "len + 1" "c\<lparr>world := w\<rparr>" v' m'] less(2) False by simp
    have step: "wp (if rc \<noteq> 0 then Some (Inl QCLOUD_ERR_FAILURE, c\<lparr>world := w\<rparr>)
        else buf_get bs 0 \<bind> (\<lambda>i. let value = v + ucast (i AND 127) * m
             in if i AND 128 \<noteq> 0
                then decode_packet_rem_len_with_net_read timeout value (m * 128) (len + 1) (c\<lparr>world := w\<rparr>)
                else Some (Inr value, c\<lparr>world := w\<rparr>)))
      (\<lambda>(r, c'). r \<noteq> Inl 0 \<and> (\<exists>w. c' = c\<lparr>world := w\<rparr>))" for rc :: int and bs w
      by (cases "buf_get bs 0") (simp_all add: Let_def IH [simplified])
    show ?thesis
      by (subst decode_packet_rem_len_with_net_read.simps, simp only: False if_False wp_bind,
          rule wp_net_read [OF assms less(2)])
        (simp only: prod.case, rule step)
  qed
qed

lemma buf_write_len: "wp (buf_write b i xs) (\<lambda>b'. length b' = length b)"
  by (auto simp: wp_def dest: length_buf_write)

lemma discard_loop_step:
  assumes "kernel_ok os"
  shows "net_ok os (network_stack c) \<Longrightarrow> wp (discard_loop rem timeout n k c) (io_step c)"
proof -
  let ?P = "\<lambda>rem timeout n k c c'. net_ok os (network_stack c) \<longrightarrow> io_step c c'"
  have "?P rem timeout n k c c'" if "discard_loop rem timeout n k c = Some c'" for c'
  proof (rule discard_loop.raw_induct [where P = ?P, OF _ that])
    fix loop rem timeout n k and c c' :: "'a client"
    assume IH: "\<And>rem timeout n k c c'. loop rem timeout n k c = Some c' \<Longrightarrow> ?P rem timeout n k c c'"
      and eq: "do {
          (rc, bs, c) \<leftarrow> net_read n timeout c;
          buf \<leftarrow> buf_write (read_buf c) 0 bs;
          let c = c\<lparr>read_buf := buf\<rparr>;
          if rc \<noteq> QCLOUD_RET_SUCCESS then Some c
          else let k = k + length bs; n = (if rem - k \<ge> read_buf_size c then read_buf_size c else rem - k)
               in if k < rem then loop rem timeout n k c else Some c
        } = Some c'"
    from eq obtain rc bs w buf where b: "buf_write (read_buf c) 0 bs = Some buf"
      and r: "(let c = c\<lparr>read_buf := buf, world := w\<rparr>
               in if rc \<noteq> QCLOUD_RET_SUCCESS then Some c
                  else let k = k + length bs; n = (if rem - k \<ge> read_buf_size c then read_buf_size c else rem - k)
                       in if k < rem then loop rem timeout n k c else Some c) = Some c'"
      by (auto simp: net_read_def bind_Some_iff)
    then have c': "c' = c\<lparr>read_buf := buf, world := w\<rparr> \<or>
              (\<exists>n k. loop rem timeout n k (c\<lparr>read_buf := buf, world := w\<rparr>) = Some c')"
      by (simp add: Let_def split: if_splits) blast+
    from length_buf_write [OF b] have "io_step c (c\<lparr>read_buf := buf, world := w\<rparr>)" by (rule io_step_I)
    with c' show "?P rem timeout n k c c'" 
      by (auto dest!: IH intro: io_step_trans)
  qed
  then show "net_ok os (network_stack c) \<Longrightarrow> wp (discard_loop rem timeout n k c) (io_step c)"
    by (auto simp: wp_def)
qed

definition holds_packet :: "u8 list \<Rightarrow> u8 \<Rightarrow> bool" where
  "holds_packet b t \<longleftrightarrow> (\<exists>h body xs. b = packet_bytes h body @ xs \<and> t = header_type h)"

lemma wait_frame:
  "\<exists>n w. wait_ms os timer c = (n, c\<lparr>world := w\<rparr>)"
  "\<exists>n w. wait_rest_ms os timer c = (n, c\<lparr>world := w\<rparr>)"
  by (auto simp: wait_ms_def wait_rest_ms_def env_defs split: prod.splits)

lemma read_packet_body_spec:
  assumes "kernel_ok os" and "client_inv os c" and "buf_get (read_buf c) 0 = Some h"
  shows "wp (read_packet_body os timer t rem c)
    (\<lambda>(rc, t', c'). io_step c c' \<and> (rc = 0 \<longrightarrow> holds_packet (read_buf c') t') \<and> (rc \<noteq> 0 \<longrightarrow> t' = t))"
proof -
  have net: "net_ok os (network_stack c)" and buf: "length (read_buf c) = 2048" and size: "read_buf_size c = 2048"
    using assms(2) by (simp_all add: client_inv_def)
  obtain xs where xs: "read_buf c = h # xs" using assms(3) by (cases "read_buf c") (simp_all add: buf_get_def)
  obtain n1 w1 where w1: "wait_rest_ms os timer c = (n1, c\<lparr>world := w1\<rparr>)"
    using wait_frame(2) [of os timer c] by blast
  show ?thesis
  proof (cases "unat rem \<ge> 2048")
    case True
    have "wp (discard_loop (unat rem) n1 2048 0 (c\<lparr>world := w1\<rparr>)) (io_step (c\<lparr>world := w1\<rparr>))"
      by (rule discard_loop_step [OF assms(1)]) (simp add: net)
    moreover have "io_step c (c\<lparr>world := w1\<rparr>)" by (intro io_step_world io_step_refl)
    ultimately show ?thesis
      using True w1 size by (auto simp: read_packet_body_def elim!: wp_mono intro: io_step_trans)
  next
    case False
    define r where "r = rem_len_bytes (unat rem)"
    have rlen: "length r \<le> 2" using False by (simp add: r_def length_rem_len_bytes_range)
    define b1 where "b1 = (h # r) @ drop (1 + length r) (read_buf c)"
    have len1: "length b1 = 2048" using buf rlen by (simp add: b1_def)
    have b1: "mqtt_write_packet_rem_len (read_buf c) 1 rem 0 = Some (b1, length r)"
      using buf rlen by (simp add: mqtt_write_packet_rem_len_eq buf_write_def r_def b1_def xs)
    obtain n2 w2 where w2: "wait_rest_ms os timer (c\<lparr>read_buf := b1\<rparr>) = (n2, c\<lparr>read_buf := b1, world := w2\<rparr>)"
      using wait_frame(2) [of os timer "c\<lparr>read_buf := b1\<rparr>"] by blast
    have io: "length b = 2048 \<Longrightarrow> io_step c (c\<lparr>read_buf := b, world := w\<rparr>)" for b w
      using buf by (intro io_step_I) simp
    have io1: "io_step c (c\<lparr>read_buf := b1\<rparr>)" using io [OF len1, of "world c"] by simp
    have rd: "wp (net_read (unat rem) n2 (c\<lparr>read_buf := b1, world := w2\<rparr>)) (\<lambda>(rc, bs, c').
        \<exists>w. c' = c\<lparr>read_buf := b1, world := w\<rparr> \<and> length bs \<le> unat rem \<and> (rc = 0 \<longrightarrow> length bs = unat rem))"
      by (rule wp_net_read [OF assms(1)]) (auto simp: net)
    consider (big) "unat rem > 0" "1 + length r + unat rem > 2048" | (fits) "unat rem > 0" "1 + length r + unat rem \<le> 2048"
      | (empty) "unat rem = 0" by linarith
    then show ?thesis
    proof cases
      case big
      show ?thesis
        using False big rd b1 w2 size io len1
        by (auto simp: read_packet_body_def wp_def bind_Some_iff dest!: length_buf_write)
    next
      case fits
      have hold: "holds_packet b' (header_type h) \<and> io_step c (c\<lparr>read_buf := b', world := w\<rparr>) \<and> buf_get b' 0 = Some h"
        if "length bs = unat rem" "buf_write b1 (1 + length r) bs = Some b'" for bs b' w
      proof -
        from that(2) have b': "b' = packet_bytes h bs @ drop (1 + length r + length bs) b1"
          using that(1) by (auto simp: buf_write_def packet_bytes_def r_def b1_def split: if_splits)
        with length_buf_write [OF that(2)] len1 io show ?thesis
          by (auto simp: holds_packet_def packet_bytes_def buf_get_def)
      qed
      have len': "buf_write b1 i bs = Some b' \<Longrightarrow> io_step c (c\<lparr>read_buf := b', world := w\<rparr>)" for i bs b' w
        using len1 io by (auto dest: length_buf_write)
      show ?thesis
        using False fits rd b1 w2 size hold len'
        by (fastforce simp: read_packet_body_def wp_def bind_Some_iff)
    next
      case empty
      then have "b1 = packet_bytes h [] @ drop (1 + length r) (read_buf c)"
        by (simp add: packet_bytes_def b1_def r_def)
      then have "holds_packet b1 (header_type h)" unfolding holds_packet_def by blast
      then show ?thesis
        using False empty b1 size io1 by (auto simp: read_packet_body_def b1_def buf_get_def)
    qed
  qed
qed

lemma read_mqtt_packet_spec:
  assumes "kernel_ok os" and "client_inv os c"
  shows "wp (read_mqtt_packet os timer t c)
    (\<lambda>(rc, t', c'). io_step c c' \<and> (rc = 0 \<longrightarrow> holds_packet (read_buf c') t') \<and> (rc \<noteq> 0 \<longrightarrow> t' = t))"
proof -
  have net: "net_ok os (network_stack c)" and buf: "length (read_buf c) = 2048"
    using assms(2) by (simp_all add: client_inv_def)
  obtain n1 w1 where w1: "wait_ms os timer c = (n1, c\<lparr>world := w1\<rparr>)"
    using wait_frame(1) [of os timer c] by blast
  let ?Q = "\<lambda>(rc, t', c'). io_step c c' \<and> (rc = 0 \<longrightarrow> holds_packet (read_buf c') t') \<and> (rc \<noteq> 0 \<longrightarrow> t' = t)"
  have rest: "wp (let (n, c) = wait_rest_ms os timer (c\<lparr>read_buf := b, world := w\<rparr>)
       in do { (r, c) \<leftarrow> decode_packet_rem_len_with_net_read n 0 1 0 c;
               (case r of Inl rc \<Rightarrow> Some (rc, t, c) | Inr rem_len \<Rightarrow> read_packet_body os timer t rem_len c) }) ?Q"
    if b: "buf_write (read_buf c) 0 [h] = Some b" for b h w
  proof -
    have len: "length b = length (read_buf c)" and h: "buf_get b 0 = Some h"
      using b by (auto simp: buf_write_def buf_get_def split: if_splits)
    obtain n2 w2 where w2: "wait_rest_ms os timer (c\<lparr>read_buf := b, world := w\<rparr>) = (n2, c\<lparr>read_buf := b, world := w2\<rparr>)"
      using wait_frame(2) [of os timer "c\<lparr>read_buf := b, world := w\<rparr>"] by fastforce
    have io: "io_step c (c\<lparr>read_buf := b, world := w'\<rparr>)" for w' by (rule io_step_I [OF len])
    have body: "wp (read_packet_body os timer t rem (c\<lparr>read_buf := b, world := w'\<rparr>)) ?Q" for rem w'
      using read_packet_body_spec [OF assms(1) io_step_inv [OF io assms(2)], of w' h timer t rem] h
      by (auto elim!: wp_mono intro: io_step_trans [OF io])
    have "wp (decode_packet_rem_len_with_net_read n2 0 1 0 (c\<lparr>read_buf := b, world := w2\<rparr>))
            (\<lambda>(r, c'). r \<noteq> Inl 0 \<and> (\<exists>w. c' = c\<lparr>read_buf := b, world := w\<rparr>))"
      using decode_net_step [OF assms(1), of "c\<lparr>read_buf := b, world := w2\<rparr>" n2 0 1 0] net by simp
    then show ?thesis
      using body io by (auto simp: w2 elim!: wp_mono split: sum.splits)
  qed
  have rd: "wp (net_read 1 n1 (c\<lparr>world := w1\<rparr>)) (\<lambda>(rc, bs, c'). \<exists>w. c' = c\<lparr>world := w\<rparr> \<and> length bs \<le> 1 \<and>
      (rc = 0 \<longrightarrow> (\<exists>h. bs = [h])))"
    by (rule wp_net_read [OF assms(1)]) (auto simp: net length_Suc_conv)
  have io: "buf_write (read_buf c) 0 bs = Some b \<Longrightarrow> io_step c (c\<lparr>read_buf := b, world := w\<rparr>)" for bs b w
    by (intro io_step_I length_buf_write)
  have step: "wp (buf_write (read_buf (c\<lparr>world := w\<rparr>)) 0 bs \<bind> (\<lambda>buf. let c = (c\<lparr>world := w\<rparr>)\<lparr>read_buf := buf\<rparr>
      in if rc = QCLOUD_ERR_SSL_NOTHING_TO_READ \<or> rc = QCLOUD_ERR_TCP_NOTHING_TO_READ
         then Some (QCLOUD_ERR_MQTT_NOTHING_TO_READ, t, c)
         else if rc \<noteq> QCLOUD_RET_SUCCESS then Some (rc, t, c)
         else let (n, c) = wait_rest_ms os timer c
              in do { (r, c) \<leftarrow> decode_packet_rem_len_with_net_read n 0 1 0 c;
               (case r of Inl rc \<Rightarrow> Some (rc, t, c) | Inr rem_len \<Rightarrow> read_packet_body os timer t rem_len c) })) ?Q"
    if "rc = 0 \<longrightarrow> (\<exists>h. bs = [h])" for rc :: int and bs w
  proof (cases "buf_write (read_buf c) 0 bs")
    case (Some b)
    show ?thesis
    proof (cases "rc = 0")
      case True
      with that obtain h where "bs = [h]" by blast
      with rest [of h b w] Some True show ?thesis by simp
    qed (use io [OF Some, of w] Some in \<open>auto simp: Let_def\<close>)
  qed simp
  show ?thesis
  proof (cases "net_read 1 n1 (c\<lparr>world := w1\<rparr>)")
    case None
    then show ?thesis by (simp add: read_mqtt_packet_def w1)
  next
    case (Some x)
    obtain rc bs c' where x: "x = (rc, bs, c')" by (cases x)
    from wp_D [OF rd Some] obtain w where c': "c' = c\<lparr>world := w\<rparr>" and h: "rc = 0 \<longrightarrow> (\<exists>h. bs = [h])"
      unfolding x prod.case by blast
    have nr: "net_read 1 n1 (c\<lparr>world := w1\<rparr>) = Some (rc, bs, c\<lparr>world := w\<rparr>)" by (simp only: Some x c')
    have eq: "read_mqtt_packet os timer t c = (buf_write (read_buf (c\<lparr>world := w\<rparr>)) 0 bs \<bind> (\<lambda>buf. let c = (c\<lparr>world := w\<rparr>)\<lparr>read_buf := buf\<rparr>
      in if rc = QCLOUD_ERR_SSL_NOTHING_TO_READ \<or> rc = QCLOUD_ERR_TCP_NOTHING_TO_READ
         then Some (QCLOUD_ERR_MQTT_NOTHING_TO_READ, t, c)
         else if rc \<noteq> QCLOUD_RET_SUCCESS then Some (rc, t, c)
         else let (n, c) = wait_rest_ms os timer c
              in do { (r, c) \<leftarrow> decode_packet_rem_len_with_net_read n 0 1 0 c;
               (case r of Inl rc \<Rightarrow> Some (rc, t, c) | Inr rem_len \<Rightarrow> read_packet_body os timer t rem_len c) }))"
      using nr by (simp add: read_mqtt_packet_def w1)
    show ?thesis unfolding eq by (rule step [OF h])
  qed
qed

section \<open>Serializers keep the size of the buffer\<close>

lemma writer_length:
  "mqtt_write_char buf p x = Some (b, q) \<Longrightarrow> length b = length buf"
  "mqtt_write_uint_16 buf p i = Some (b, q) \<Longrightarrow> length b = length buf"
  "mqtt_write_utf8_string buf p s = Some (b, q) \<Longrightarrow> length b = length buf"
  "mqtt_write_packet_rem_len buf p l k = Some (b, q) \<Longrightarrow> length b = length buf"
  by (auto simp: mqtt_write_char_emit mqtt_write_uint_16_emit mqtt_write_utf8_string_emit emit_def
      mqtt_write_packet_rem_len_eq bind_Some_iff dest: length_buf_write)

lemma write_payload_length:
  "write_subscribe_payload buf p fs qs = Some (b, q) \<Longrightarrow> length b = length buf"
  "write_unsubscribe_payload buf p fs = Some (b, q) \<Longrightarrow> length b = length buf"
proof -
  show "write_subscribe_payload buf p fs qs = Some (b, q) \<Longrightarrow> length b = length buf"
    by (induction buf p fs qs rule: write_subscribe_payload.induct)
      (fastforce simp: bind_Some_iff dest: writer_length)+
  show "write_unsubscribe_payload buf p fs = Some (b, q) \<Longrightarrow> length b = length buf"
    by (induction buf p fs rule: write_unsubscribe_payload.induct)
      (fastforce simp: bind_Some_iff dest: writer_length)+
qed

lemma serialize_length:
  "serialize_packet_with_zero_payload buf n pt = Some (Inr (b, k)) \<Longrightarrow> length b = length buf"
  "serialize_pub_ack_packet buf n pt dup i = Some (Inr (b, k)) \<Longrightarrow> length b = length buf"
  "serialize_publish_packet buf n dup qos ret i topic payload = Some (Inr (b, k)) \<Longrightarrow> length b = length buf"
  "serialize_subscribe_packet buf n dup i cnt topic qs = Some (Inr (b, k)) \<Longrightarrow> length b = length buf"
  "serialize_unsubscribe_packet buf n dup i cnt topic = Some (Inr (b, k)) \<Longrightarrow> length b = length buf"
  by (auto simp: serialize_packet_with_zero_payload_def serialize_pub_ack_packet_def serialize_publish_packet_def
      serialize_subscribe_packet_def serialize_unsubscribe_packet_def Let_def bind_Some_iff
      split: if_split_asm sum.split_asm option.split_asm dest!: writer_length write_payload_length length_buf_write)

section \<open>The operations keep the invariant\<close>

lemma env_inv:
  "expired os timer c = (b, c') \<Longrightarrow> client_inv os' c' = client_inv os' c"
  "countdown_ms os timer t c = (timer', c') \<Longrightarrow> client_inv os' c' = client_inv os' c"
  "countdown os timer t c = (timer', c') \<Longrightarrow> client_inv os' c' = client_inv os' c"
  "left_ms os timer c = (i, c') \<Longrightarrow> client_inv os' c' = client_inv os' c"
  "HAL_Malloc os c = (p, c') \<Longrightarrow> client_inv os' c' = client_inv os' c"
  "HAL_rand os c = (r, c') \<Longrightarrow> client_inv os' c' = client_inv os' c"
  "client_inv os' (srand_time os c) = client_inv os' c"
  "get_next_packet_id c = (i', c') \<Longrightarrow> client_inv os' c' = client_inv os' c"
  by (auto simp: env_defs get_next_packet_id_def split: prod.splits)

lemma send_inv: "send_mqtt_packet os len timer c = Some (rc, c') \<Longrightarrow> client_inv os' c' = client_inv os' c"
  using wp_D [OF send_mqtt_packet_frame] by fastforce

lemma send_fields:
  assumes "send_mqtt_packet os len timer c = Some (rc, c')"
  shows "list_pub_wait_ack c' = list_pub_wait_ack c" "list_sub_wait_ack c' = list_sub_wait_ack c"
    "sub_handles c' = sub_handles c" "trace c' = trace c" "is_connected c' = is_connected c"
    "write_buf c' = write_buf c" "next_packet_id c' = next_packet_id c" "network_stack c' = network_stack c"
    "repeat_packet_id_buf c' = repeat_packet_id_buf c" "current_packet_id_cnt c' = current_packet_id_cnt c"
    "options c' = options c" "event_handle c' = event_handle c" "command_timeout_ms c' = command_timeout_ms c"
    "is_ping_outstanding c' = is_ping_outstanding c" "write_buf_size c' = write_buf_size c"
  using wp_D [OF send_mqtt_packet_frame assms] by auto

lemma mask_pubInfo_from_inv: "client_inv os' c \<Longrightarrow> client_inv os' (mask_pubInfo_from os i c)"
  by (auto simp: mask_pubInfo_from_def env_defs client_inv_def split: option.splits prod.splits)

lemma mask_sub_info_from_inv:
  assumes "mask_sub_info_from os i c = (h, c')" and "client_inv os' c"
  shows "client_inv os' c'" and "h = Some h' \<Longrightarrow> topic_filter h' \<noteq> None \<and> good_filter h'"
proof -
  show "client_inv os' c'"
    using assms by (auto simp: mask_sub_info_from_def env_defs client_inv_def split: option.splits prod.splits if_splits)
  have all: "topic_filter (sub_handler j) \<noteq> None \<and> good_filter (sub_handler j)"
    if "(a, j) \<in> set (list_sub_wait_ack c)" for a j
    using assms(2) that by (auto simp: client_inv_def)
  show "topic_filter h' \<noteq> None \<and> good_filter h'" if "h = Some h'"
  proof -
    from assms(1) that obtain a j where "find (\<lambda>(a, j). sub_msg_id j = i) (list_sub_wait_ack c) = Some (a, j)"
      and h': "h' = sub_handler j"
      by (auto simp: mask_sub_info_from_def env_defs split: option.split_asm prod.split_asm if_split_asm)
    then have "(a, j) \<in> set (list_sub_wait_ack c)" by (auto simp: find_Some_iff in_set_conv_nth)
    then show ?thesis unfolding h' by (rule all)
  qed
qed

lemma push_sub_info_to_inv:
  assumes "push_sub_info_to os len i type h c = Some (r, c')" and "client_inv os' c"
    and "topic_filter h \<noteq> None" and "good_filter h"
  shows "client_inv os' c'"
  using assms
  by (auto simp: push_sub_info_to_def env_defs bind_Some_iff client_inv_def nodes_rpush_def
      split: option.splits prod.splits if_splits)

lemma nodes_remove_length: "length (nodes_remove l a) \<le> length l"
  by (simp add: nodes_remove_def)

lemma nodes_remove_subset: "set (nodes_remove l a) \<subseteq> set l"
  by (auto simp: nodes_remove_def)

lemma nodes_remove_inv:
  "client_inv os' c \<Longrightarrow> client_inv os' (c\<lparr>list_pub_wait_ack := nodes_remove (list_pub_wait_ack c) a\<rparr>)"
  "client_inv os' c \<Longrightarrow> client_inv os' (c\<lparr>list_sub_wait_ack := nodes_remove (list_sub_wait_ack c) a\<rparr>)"
  using nodes_remove_length [of "list_pub_wait_ack c" a] nodes_remove_length [of "list_sub_wait_ack c" a]
    nodes_remove_subset [of "list_sub_wait_ack c" a]
  by (auto simp: client_inv_def)

lemma find_handle_place_bound:
  "find_handle_place hs h i f = Inl j \<Longrightarrow> i \<le> j \<and> j < i + length hs"
  "find_handle_place hs h i f = Inr (Some j) \<Longrightarrow> f = Some j \<or> (i \<le> j \<and> j < i + length hs)"
  by (induction hs h i f rule: find_handle_place.induct) (auto split: if_splits)

lemma store_sub_handle_inv:
  assumes "store_sub_handle h c = Some c'" and "client_inv os' c" and "good_filter h"
  shows "client_inv os' c'"
proof -
  have upd: "client_inv os' (c\<lparr>sub_handles := (sub_handles c)[i := h']\<rparr>)" if "good_filter h'" for i h'
    using assms(2) that set_update_subset_insert [of "sub_handles c" i h'] by (auto simp: client_inv_def)
  have same: "good_filter ((sub_handles c ! i)\<lparr>handler_user_data := u\<rparr>)" if "i < length (sub_handles c)" for i u
    using assms(2) that by (auto simp: client_inv_def good_filter_def)
  show ?thesis
    using assms(1) upd [OF assms(3)] upd [OF same] find_handle_place_bound(1) [of "sub_handles c" h 0 None]
    by (auto simp: store_sub_handle_def split: sum.splits option.splits)
qed

lemma wp_D2: "wp m (\<lambda>(a, b). P a b) \<Longrightarrow> m = Some (a, b) \<Longrightarrow> P a b"
  and wp_D3: "wp m' (\<lambda>(a, b, c). Q a b c) \<Longrightarrow> m' = Some (a, b, c) \<Longrightarrow> Q a b c"
  and wp_D4: "wp m'' (\<lambda>(a, b, c, d). R a b c d) \<Longrightarrow> m'' = Some (a, b, c, d) \<Longrightarrow> R a b c d"
  by (auto simp: wp_def)

lemma mask_sub_info_from_good:
  assumes "mask_sub_info_from os i c = (h, c')" and "client_inv os' c"
  shows "good_filter (case h of None \<Rightarrow> null_handle | Some h \<Rightarrow> h)"
  using mask_sub_info_from_inv(2) [OF assms] by (auto simp: good_filter_def null_handle_def split: option.split)

lemma handle_puback_wp: "client_inv os' c \<Longrightarrow> wp (handle_puback_packet os c) (\<lambda>(rc, c'). client_inv os' c')"
  by (auto simp: handle_puback_packet_def Let_def split: sum.split intro!: wp_I mask_pubInfo_from_inv)

lemma handle_suback_wp: "client_inv os' c \<Longrightarrow> wp (handle_suback_packet os c) (\<lambda>(rc, c'). client_inv os' c')"
  unfolding handle_suback_packet_def Let_def
  by (auto split: sum.split option.split intro!: wp_I
      dest: mask_sub_info_from_inv(1) store_sub_handle_inv intro: mask_sub_info_from_good) 

lemma handle_unsuback_wp: "client_inv os' c \<Longrightarrow> wp (handle_unsuback_packet os c) (\<lambda>(rc, c'). client_inv os' c')"
  by (auto simp: handle_unsuback_packet_def split: sum.split option.split intro!: wp_I dest: mask_sub_info_from_inv(1))

lemma add_packet_id_wp: "client_inv os' c \<Longrightarrow> wp (add_packet_id_to_repeat_buf i c) (client_inv os')"
  by (auto simp: add_packet_id_to_repeat_buf_def Let_def client_inv_def dest!: length_buf_put intro!: wp_I)

lemma deliver_message_wp: "client_inv os' c \<Longrightarrow> wp (deliver_message t n m c) (\<lambda>(rc, c'). client_inv os' c')"
  by (auto simp: deliver_message_def Let_def split: option.split intro!: wp_I)

lemma send_ack_wp: "client_inv os' c \<Longrightarrow> wp (send_ack os type i timer c) (\<lambda>(rc, timer', c'). client_inv os' c')"
  by (auto simp: send_ack_def Let_def env_inv client_inv_write_buf serialize_length send_inv
      split: sum.split intro!: wp_I)

lemmas handler_invs = handle_puback_wp [THEN wp_D2, rotated] handle_suback_wp [THEN wp_D2, rotated]
  handle_unsuback_wp [THEN wp_D2, rotated] add_packet_id_wp [THEN wp_D, rotated]
  deliver_message_wp [THEN wp_D2, rotated] send_ack_wp [THEN wp_D3, rotated]

lemma handle_publish_wp:
  "client_inv os' c \<Longrightarrow> wp (handle_publish_packet os timer c) (\<lambda>(rc, timer', c'). client_inv os' c')"
  unfolding handle_publish_packet_def Let_def
  by (auto split: sum.split intro!: wp_I dest!: handler_invs split: if_splits)

lemma handle_pubrec_wp:
  "client_inv os' c \<Longrightarrow> wp (handle_pubrec_packet os timer c) (\<lambda>(rc, timer', c'). client_inv os' c')"
  unfolding handle_pubrec_packet_def
  by (auto split: sum.split intro!: wp_I dest: handler_invs)

lemma handle_pingresp_inv: "client_inv os' (handle_pingresp_packet os c) = client_inv os' c"
  by (auto simp: handle_pingresp_packet_def env_inv Let_def split: prod.split)

lemma note_ping_inv: "client_inv os' (note_ping os t c) = client_inv os' c"
  by (simp add: note_ping_def handle_pingresp_inv)

lemma dispatch_packet_wp:
  "client_inv os' c \<Longrightarrow> wp (dispatch_packet os timer t c) (\<lambda>(rc, timer', c'). client_inv os' c')"
  unfolding dispatch_packet_def
  by (auto intro!: wp_I dest: handler_invs handle_publish_wp [THEN wp_D3, rotated] handle_pubrec_wp [THEN wp_D3, rotated] split: if_splits)

lemma cycle_for_read_wp:
  assumes "kernel_ok os" and "client_inv os c"
  shows "wp (cycle_for_read os timer t c) (\<lambda>(rc, timer', t', c'). client_inv os c')"
proof -
  have inv: "client_inv os c1" if "read_mqtt_packet os timer t c = Some (rc, t1, c1)" for rc t1 c1
    using wp_D3 [OF read_mqtt_packet_spec [OF assms] that] assms(2) by (auto intro: io_step_inv)
  then show ?thesis
    unfolding cycle_for_read_def
    by (auto intro!: wp_I simp: note_ping_inv dest: dispatch_packet_wp [THEN wp_D3, rotated])
qed

lemma wait_for_read_inv:
  assumes "wait_for_read os pt timer rpt c = Some r" and "kernel_ok os" and "client_inv os c"
  shows "client_inv os (snd (snd r))"
proof -
  let ?P = "\<lambda>os pt timer rpt c r. kernel_ok os \<longrightarrow> client_inv os c \<longrightarrow> client_inv os (snd (snd r))"
  have "?P os pt timer rpt c r"
  proof (rule wait_for_read.raw_induct [where P = ?P, OF _ assms(1)])
    fix loop and os :: "'a os" and pt timer rpt and c :: "'a client" and r
    assume IH: "\<And>os pt timer rpt c r. loop os pt timer rpt c = Some r \<Longrightarrow> ?P os pt timer rpt c r"
      and eq: "(let (e, c) = expired os timer c
        in if e then Some (QCLOUD_ERR_MQTT_REQUEST_TIMEOUT, timer, c)
           else do {
             (rc, timer, read_packet_type, c) \<leftarrow> cycle_for_read os timer rpt c;
             if rc = QCLOUD_RET_SUCCESS \<and> read_packet_type \<noteq> pt
             then loop os pt timer read_packet_type c else Some (rc, timer, c)
           }) = Some r"
    show "?P os pt timer rpt c r"
    proof (intro impI)
      assume k: "kernel_ok os" and inv: "client_inv os c"
      obtain e c1 where e: "expired os timer c = (e, c1)" by fastforce
      with inv have inv1: "client_inv os c1" by (simp add: env_inv)
      show "client_inv os (snd (snd r))"
        using eq e inv1 wp_D4 [OF cycle_for_read_wp [OF k inv1]] k
        by (auto simp: bind_Some_iff split: if_splits dest!: IH)
    qed
  qed
  with assms show ?thesis by blast
qed

end
