(* ===== verification/Mqtt_Service.thy ===== *)
theory Mqtt_Service
  imports Mqtt_Inv
begin

text \<open>
  Every operation that an application can call keeps the invariant of the client: publishing,
  subscribing, connecting, the yield loop with its chores, reconnecting. The client is then a
  service whose invariant holds in every reachable state.
\<close>

section \<open>Publishing and subscribing\<close>

lemma push_pubInfo_inv:
  assumes "mask_push_pubInfo_to os len i c = Some (r, c')" and "client_inv os' c"
  shows "client_inv os' c'"
  using assms
  by (auto simp: mask_push_pubInfo_to_def env_defs bind_Some_iff client_inv_def nodes_rpush_def
      split: option.splits prod.splits if_splits)

lemma write_buf_inv:
  "serialize_publish_packet (write_buf c) n dup qos ret i topic payload = Some (Inr (b, k)) \<Longrightarrow>
     client_inv os c \<Longrightarrow> client_inv os (c\<lparr>write_buf := b\<rparr>)"
  "serialize_subscribe_packet (write_buf c) n dup i cnt topic qs = Some (Inr (b, k)) \<Longrightarrow>
     client_inv os c \<Longrightarrow> client_inv os (c\<lparr>write_buf := b\<rparr>)"
  "serialize_unsubscribe_packet (write_buf c) n dup i cnt topic = Some (Inr (b, k)) \<Longrightarrow>
     client_inv os c \<Longrightarrow> client_inv os (c\<lparr>write_buf := b\<rparr>)"
  "serialize_packet_with_zero_payload (write_buf c) n pt = Some (Inr (b, k)) \<Longrightarrow>
     client_inv os c \<Longrightarrow> client_inv os (c\<lparr>write_buf := b\<rparr>)"
  by (auto intro: client_inv_write_buf dest: serialize_length)

lemma publish_inv:
  assumes "client_inv os' c"
  shows "wp (qcloud_iot_mqtt_publish os t p c) (\<lambda>(r, p', c'). client_inv os' c')"
proof -
  note steps = push_pubInfo_inv [where os' = os'] write_buf_inv [where os = os']
  show ?thesis
    unfolding qcloud_iot_mqtt_publish_def Let_def
    using assms
    by (auto split: option.split sum.split prod.split intro!: wp_I dest!: steps simp: env_inv send_inv nodes_remove_inv)
qed

lemma subscribe_inv:
  assumes "client_inv os' c"
  shows "wp (qcloud_iot_mqtt_subscribe os t p c) (\<lambda>(r, c'). client_inv os' c')"
proof -
  note steps = push_sub_info_to_inv [where os' = os'] write_buf_inv [where os = os']
  show ?thesis
    unfolding qcloud_iot_mqtt_subscribe_def Let_def
    using assms
    by (auto split: option.split sum.split prod.split intro!: wp_I dest!: steps
        simp: env_inv send_inv nodes_remove_inv good_filter_def)
qed

lemma resubscribe_loop_inv:
  "client_inv os' c \<Longrightarrow> wp (resubscribe_loop os is c) (\<lambda>(r, c'). client_inv os' c')"
proof (induction "is" arbitrary: c)
  case (Cons i "is")
  note sub = wp_mono [OF subscribe_inv [OF Cons.prems]]
  show ?case
    by (auto simp: Let_def Cons.prems split: option.split intro!: wp_I [of "buf_get _ _"] sub Cons.IH)
qed simp

lemma resubscribe_inv:
  "client_inv os' c \<Longrightarrow> wp (qcloud_iot_mqtt_resubscribe os c) (\<lambda>(r, c'). client_inv os' c')"
  by (simp add: qcloud_iot_mqtt_resubscribe_def resubscribe_loop_inv)

lemma drop_handles_spec:
  "drop_handles t hs c = (e, hs', c') \<Longrightarrow>
     (\<exists>tr. c' = c\<lparr>trace := tr\<rparr>) \<and> length hs' = length hs \<and> ((\<forall>h \<in> set hs. good_filter h) \<longrightarrow> (\<forall>h \<in> set hs'. good_filter h))"
proof (induction hs arbitrary: c e hs' c')
  case Nil
  then show ?case by (auto intro: exI [of _ "trace c"])
next
  case (Cons h hs)
  obtain tr where tr: "notify_subscriber h MQTT_EVENT_UNSUBSCRIBE c = c\<lparr>trace := tr\<rparr>"
    using notify_subscriber_frame by blast
  let ?c = "if topic_filter h = Some t \<or> has_wildcard_level t then c\<lparr>trace := tr\<rparr> else c"
  obtain e1 hs1 c1 where r: "drop_handles t hs ?c = (e1, hs1, c1)" by (cases "drop_handles t hs ?c") auto
  from Cons.IH [OF this] Cons.prems r tr show ?case
    by (auto simp: good_filter_def split: if_splits)
qed

lemma unsubscribe_inv:
  assumes "client_inv os' c"
  shows "wp (qcloud_iot_mqtt_unsubscribe os t c) (\<lambda>(r, c'). client_inv os' c')"
proof -
  note steps = push_sub_info_to_inv [where os' = os'] write_buf_inv [where os = os']
  have drop: "client_inv os' (c1\<lparr>sub_handles := hs\<rparr>)" if "drop_handles f (sub_handles c) c = (e, hs, c1)" for f e hs c1
    using drop_handles_spec [OF that] assms by (auto simp: client_inv_def)
  show ?thesis
    unfolding qcloud_iot_mqtt_unsubscribe_def Let_def
    using assms
    by (auto split: option.split sum.split prod.split intro!: wp_I dest!: steps drop
        simp: env_inv send_inv nodes_remove_inv good_filter_def null_handle_def)
qed

section \<open>Connecting\<close>

lemma net_connect_inv: "net_connect c = (rc, c') \<Longrightarrow> client_inv os c' = client_inv os c"
  by (auto simp: net_connect_def Let_def client_inv_def net_ok_def split: prod.splits)

lemma net_disconnect_inv: "client_inv os (net_disconnect c) = client_inv os c"
  by (auto simp: net_disconnect_def Let_def client_inv_def net_ok_def split: prod.splits)

lemma set_conn_state_inv: "client_inv os (set_client_conn_state b c) = client_inv os c"
  by (simp add: set_client_conn_state_def)

lemma conn_id_chars_frame: "\<exists>xs w. conn_id_chars os n c = (xs, c\<lparr>world := w\<rparr>) \<and> length xs = n"
proof (induction n arbitrary: c)
  case 0
  show ?case by (auto intro: exI [of _ "world c"])
next
  case (Suc n)
  obtain x w where x: "conn_id_char os c = (x, c\<lparr>world := w\<rparr>)"
    by (cases "conn_id_char os c") (auto simp: conn_id_char_def env_defs case_prod_beta')
  obtain xs w' where "conn_id_chars os n (c\<lparr>world := w\<rparr>) = (xs, c\<lparr>world := w\<rparr>\<lparr>world := w'\<rparr>)" "length xs = n"
    using Suc by blast
  with x show ?case by simp
qed

lemma get_next_conn_id_frame: "\<exists>xs w. get_next_conn_id os c = (xs, c\<lparr>world := w\<rparr>) \<and> length xs = 5"
proof -
  obtain w where "srand_time os c = c\<lparr>world := w\<rparr>" by (simp add: srand_time_def case_prod_beta' Let_def)
  then show ?thesis
    using conn_id_chars_frame [of os 5 "c\<lparr>world := w\<rparr>"] by (auto simp: get_next_conn_id_def)
qed

lemma get_next_conn_id_inv: "get_next_conn_id os c = (xs, c') \<Longrightarrow> client_inv os' c' = client_inv os' c"
  using get_next_conn_id_frame [of os c] by auto

lemma get_next_conn_id_write_buf: "get_next_conn_id os c = (xs, c') \<Longrightarrow> write_buf c' = write_buf c"
  using get_next_conn_id_frame [of os c] by auto

text \<open>The chain of writers of the CONNECT packet keeps the size of the buffer.\<close>

lemma serialize_connect_inv:
  assumes "client_inv os' c"
  shows "wp (serialize_connect_packet os c) (\<lambda>(r, c'). client_inv os' c')"
  unfolding serialize_connect_packet_def Let_def
  using assms
  by (auto split: option.split sum.split prod.split intro!: wp_I simp: env_inv get_next_conn_id_inv
      dest!: writer_length intro!: client_inv_write_buf)


lemma mqtt_connect_inv:
  assumes k: "kernel_ok os" and "client_inv os c"
  shows "wp (mqtt_connect os params c) (\<lambda>(r, c'). client_inv os c')"
proof -
  note steps = serialize_connect_inv [where os' = os, THEN wp_D2, rotated] wait_for_read_inv [OF _ k]
  show ?thesis
    unfolding mqtt_connect_def Let_def
    using assms(2)
    by (auto split: option.split sum.split prod.split intro!: wp_I dest!: steps
        simp: env_inv net_connect_inv send_inv set_conn_state_inv)
qed

lemma connect_inv:
  assumes "kernel_ok os" and "client_inv os c"
  shows "wp (qcloud_iot_mqtt_connect os params c) (\<lambda>(r, c'). client_inv os c')"
  using assms
  by (auto simp: qcloud_iot_mqtt_connect_def net_disconnect_inv intro!: wp_mono [OF mqtt_connect_inv])

lemma attempt_reconnect_inv:
  assumes "kernel_ok os" and "client_inv os c"
  shows "wp (qcloud_iot_mqtt_attempt_reconnect os c) (\<lambda>(r, c'). client_inv os c')"
  using assms
  by (auto simp: qcloud_iot_mqtt_attempt_reconnect_def intro!: wp_mono [OF connect_inv] wp_mono [OF resubscribe_inv])

lemma disconnect_inv:
  assumes "client_inv os' c"
  shows "wp (qcloud_iot_mqtt_disconnect os c) (\<lambda>(r, c'). client_inv os' c')"
proof -
  note steps = write_buf_inv [where os = os']
  show ?thesis
    unfolding qcloud_iot_mqtt_disconnect_def Let_def
    using assms
    by (auto split: sum.split prod.split intro!: wp_I dest!: steps
        simp: env_inv send_inv set_conn_state_inv net_disconnect_inv)
qed

section \<open>Keeping the connection\<close>

lemma handle_disconnect_inv:
  assumes "client_inv os' c"
  shows "wp (handle_disconnect os c) (\<lambda>(r, c'). client_inv os' c')"
  using assms
  by (auto simp: handle_disconnect_def Let_def iot_disconnect_callback_def set_conn_state_inv net_disconnect_inv
      intro!: wp_mono [OF disconnect_inv])

lemma set_reconnect_delay_inv: "client_inv os' (set_reconnect_delay os c) = client_inv os' c"
  by (auto simp: set_reconnect_delay_def env_inv Let_def split: prod.split)

lemma handle_reconnect_inv:
  assumes "kernel_ok os" and "client_inv os c"
  shows "wp (handle_reconnect os c) (\<lambda>(r, c'). client_inv os c')"
  using assms
  by (auto simp: handle_reconnect_def Let_def env_inv set_reconnect_delay_inv reconnect_callback_def
      split: prod.split intro!: wp_mono [OF attempt_reconnect_inv])

lemma send_ping_loop_inv:
  "client_inv os' c \<Longrightarrow> wp (send_ping_loop os n len timer c) (\<lambda>(r, c'). client_inv os' c')"
  by (induction n arbitrary: timer c)
    (auto simp: env_inv send_inv Let_def split: prod.split intro!: wp_I [of "send_mqtt_packet _ _ _ _"])

lemma keep_alive_inv:
  assumes "client_inv os' c"
  shows "wp (mqtt_keep_alive os c) (\<lambda>(r, c'). client_inv os' c')"
proof -
  note steps = write_buf_inv [where os = os'] send_ping_loop_inv [where os' = os', THEN wp_D2, rotated]
    handle_disconnect_inv [where os' = os', THEN wp_D2, rotated]
  show ?thesis
    unfolding mqtt_keep_alive_def Let_def
    using assms
    by (auto split: sum.split prod.split intro!: wp_I dest!: steps simp: env_inv)
qed

lemma pub_info_loop_inv: "client_inv os' c \<Longrightarrow> client_inv os' (pub_info_loop os nodes c)"
  by (induction nodes arbitrary: c) (auto simp: env_inv Let_def nodes_remove_inv split: prod.split)

lemma sub_info_loop_inv: "client_inv os' c \<Longrightarrow> client_inv os' (sub_info_loop os nodes c)"
  by (induction nodes arbitrary: c)
    (auto simp: env_inv Let_def nodes_remove_inv sub_timeout_notify_def split: prod.split)

lemma info_proc_inv:
  "client_inv os' c \<Longrightarrow> client_inv os' (qcloud_iot_mqtt_pub_info_proc os c)"
  "client_inv os' c \<Longrightarrow> client_inv os' (qcloud_iot_mqtt_sub_info_proc os c)"
  by (auto simp: qcloud_iot_mqtt_pub_info_proc_def qcloud_iot_mqtt_sub_info_proc_def env_inv
      split: prod.split option.split intro!: pub_info_loop_inv sub_info_loop_inv)

lemma yield_step_inv:
  assumes "kernel_ok os" and "client_inv os c"
  shows "wp (yield_step os timer c) (\<lambda>(r, timer', c'). client_inv os c')"
  using assms
  by (auto simp: yield_step_def info_proc_inv
      intro!: wp_mono [OF cycle_for_read_wp] wp_mono [OF keep_alive_inv] wp_mono [OF handle_disconnect_inv])

lemma schedule_reconnect_inv: "client_inv os' (schedule_reconnect os c) = client_inv os' c"
  by (auto simp: schedule_reconnect_def get_random_interval_def env_inv set_reconnect_delay_inv Let_def split: prod.split)

lemma yield_loop_inv:
  assumes "yield_loop os timer rc c = Some r" and "kernel_ok os" and "client_inv os c"
  shows "client_inv os (snd r)"
proof -
  let ?P = "\<lambda>os timer rc c r. kernel_ok os \<longrightarrow> client_inv os c \<longrightarrow> client_inv os (snd r)"
  have "?P os timer rc c r"
  proof (rule yield_loop.raw_induct [where P = ?P, OF _ assms(1)])
    fix loop and os :: "'a os" and timer rc and c :: "'a client" and r
    assume IH: "\<And>os timer rc c r. loop os timer rc c = Some r \<Longrightarrow> ?P os timer rc c r"
      and eq: "(let (e, c) = expired os timer c
        in if e then Some (rc, c)
           else if \<not> get_client_conn_state c
           then if current_reconnect_wait_interval c > MAX_RECONNECT_WAIT_INTERVAL
                then Some (QCLOUD_ERR_MQTT_RECONNECT_TIMEOUT, c)
                else do {
                  (rc, c) \<leftarrow> handle_reconnect os c;
                  loop os timer rc c
                }
           else do {
             (rc, timer, c) \<leftarrow> yield_step os timer c;
             if rc = QCLOUD_ERR_MQTT_NO_CONN
             then let c = c\<lparr>counter_network_disconnected := counter_network_disconnected c + 1\<rparr>
                  in if auto_connect_enable (options c) \<noteq> 1 then Some (rc, c)
                     else loop os timer QCLOUD_ERR_MQTT_ATTEMPTING_RECONNECT (schedule_reconnect os c)
             else if rc \<noteq> QCLOUD_RET_SUCCESS then Some (rc, c)
             else loop os timer rc c
           }) = Some r"
    show "?P os timer rc c r"
    proof (intro impI)
      assume k: "kernel_ok os" and inv: "client_inv os c"
      obtain e c1 where e: "expired os timer c = (e, c1)" by fastforce
      with inv have inv1: "client_inv os c1" by (simp add: env_inv)
      show "client_inv os (snd r)"
        using eq e inv1 wp_D2 [OF handle_reconnect_inv [OF k inv1]] wp_D3 [OF yield_step_inv [OF k inv1]] k
        by (auto simp: bind_Some_iff Let_def schedule_reconnect_inv split: if_splits dest!: IH)
    qed
  qed
  with assms show ?thesis by blast
qed

lemma yield_inv:
  assumes "kernel_ok os" and "client_inv os c"
  shows "wp (qcloud_iot_mqtt_yield os t c) (\<lambda>(r, c'). client_inv os c')"
  unfolding qcloud_iot_mqtt_yield_def Let_def
  using assms by (auto simp: env_inv split: prod.split intro!: wp_I dest!: yield_loop_inv)

lemma reconnect_loop_inv:
  assumes "reconnect_loop os c = Some r" and "kernel_ok os" and "client_inv os c"
  shows "client_inv os (snd r)"
proof -
  let ?P = "\<lambda>os c r. kernel_ok os \<longrightarrow> client_inv os c \<longrightarrow> client_inv os (snd r)"
  have "?P os c r"
  proof (rule reconnect_loop.raw_induct [where P = ?P, OF _ assms(1)])
    fix loop and os :: "'a os" and c :: "'a client" and r
    assume IH: "\<And>os c r. loop os c = Some r \<Longrightarrow> ?P os c r"
      and eq: "(if \<not> get_client_conn_state c
        then if current_reconnect_wait_interval c > MAX_RECONNECT_WAIT_INTERVAL
             then Some (QCLOUD_ERR_MQTT_RECONNECT_TIMEOUT, c)
             else do {
               (rc, c) \<leftarrow> handle_reconnect os c;
               loop os c
             }
        else Some (QCLOUD_RET_MQTT_RECONNECTED, c)) = Some r"
    show "?P os c r"
    proof (intro impI)
      assume k: "kernel_ok os" and inv: "client_inv os c"
      show "client_inv os (snd r)"
        using eq inv wp_D2 [OF handle_reconnect_inv [OF k inv]] k
        by (auto simp: bind_Some_iff split: if_splits dest!: IH)
    qed
  qed
  with assms show ?thesis by blast
qed

lemma reconnect_inv:
  assumes "kernel_ok os" and "client_inv os c"
  shows "wp (qcloud_iot_mqtt_reconnect os c) (\<lambda>(r, c'). client_inv os c')"
proof -
  have "wp (reconnect_loop os (schedule_reconnect os c1)) (\<lambda>(r, c'). client_inv os c')" if "client_inv os c1" for c1
    using reconnect_loop_inv [OF _ assms(1)] that by (auto simp: wp_def schedule_reconnect_inv)
  then show ?thesis
    using assms by (auto simp: qcloud_iot_mqtt_reconnect_def intro!: wp_mono [OF handle_disconnect_inv])
qed

section \<open>The life of a client\<close>

lemma mqtt_network_init_ok:
  "qcloud_iot_mqtt_network_init os net = (rc, net') \<Longrightarrow> net_ok os net'"
  by (auto simp: qcloud_iot_mqtt_network_init_def qcloud_iot_network_init_def net_ok_def Let_def)

lemma init_inv:
  assumes "qcloud_iot_mqtt_init os params pid name w = Inr c"
  shows "client_inv os c"
  using assms
  by (auto simp: qcloud_iot_mqtt_init_def Let_def client_inv_def good_filter_def null_handle_def
      split: sum.split_asm prod.split_asm if_split_asm dest: mqtt_network_init_ok)

lemma construct_inv:
  assumes k: "kernel_ok os" and "IOT_MQTT_Construct os params w = Some (Inr c)"
  shows "client_inv os c"
proof -
  note steps = connect_inv [OF k, THEN wp_D2, rotated]
  show ?thesis
    using assms(2)
    by (auto simp: IOT_MQTT_Construct_def Let_def bind_Some_iff env_inv dest!: init_inv steps
        split: sum.split_asm prod.split_asm if_split_asm option.split_asm)
qed

lemma destroy_handles_spec:
  "destroy_handles hs c = (hs', c') \<Longrightarrow>
     (\<exists>tr. c' = c\<lparr>trace := tr\<rparr>) \<and> hs' = map (\<lambda>h. h\<lparr>topic_filter := None\<rparr>) hs"
proof (induction hs arbitrary: c hs' c')
  case Nil
  then show ?case by (auto intro: exI [of _ "trace c"])
next
  case (Cons h hs)
  obtain tr where tr: "(if topic_filter h \<noteq> None then notify_subscriber h MQTT_EVENT_CLIENT_DESTROY c else c) = c\<lparr>trace := tr\<rparr>"
    using notify_subscriber_frame [of h MQTT_EVENT_CLIENT_DESTROY c] that [of "trace c"]
    by (cases "topic_filter h") auto
  obtain hs1 c1 where r: "destroy_handles hs (c\<lparr>trace := tr\<rparr>) = (hs1, c1)" by fastforce
  from Cons.IH [OF this] Cons.prems r tr show ?case by auto
qed

section \<open>The client as a service\<close>

text \<open>The client as a service: the calls of the application, in any order and with any arguments.\<close>

inductive client_step :: "'w os \<Rightarrow> 'w client \<Rightarrow> 'w client \<Rightarrow> bool" for os where
  step_publish: "qcloud_iot_mqtt_publish os topic params c = Some (rc, params', c') \<Longrightarrow> client_step os c c'"
| step_subscribe: "qcloud_iot_mqtt_subscribe os topic sparams c = Some (rc, c') \<Longrightarrow> client_step os c c'"
| step_resubscribe: "qcloud_iot_mqtt_resubscribe os c = Some (rc, c') \<Longrightarrow> client_step os c c'"
| step_unsubscribe: "qcloud_iot_mqtt_unsubscribe os topic c = Some (rc, c') \<Longrightarrow> client_step os c c'"
| step_connect: "qcloud_iot_mqtt_connect os cparams c = Some (rc, c') \<Longrightarrow> client_step os c c'"
| step_disconnect: "qcloud_iot_mqtt_disconnect os c = Some (rc, c') \<Longrightarrow> client_step os c c'"
| step_yield: "IOT_MQTT_Yield os ms c = Some (rc, c') \<Longrightarrow> client_step os c c'"
| step_reconnect: "qcloud_iot_mqtt_reconnect os c = Some (rc, c') \<Longrightarrow> client_step os c c'"
| step_handler: "client_step os c (IOT_MQTT_SetEventHandler eh c)"
| step_auto: "client_step os c (qcloud_iot_mqtt_set_autoreconnect b c)"
| step_count: "client_step os c (qcloud_iot_mqtt_reset_network_disconnected_count c)"

text \<open>A client starts as \<^verbatim>\<open>qcloud_iot_mqtt_init\<close> leaves it, or connected, as \<^verbatim>\<open>IOT_MQTT_Construct\<close> returns it.\<close>

definition client_started :: "'w os \<Rightarrow> 'w client \<Rightarrow> bool" where
  "client_started os c \<longleftrightarrow> (\<exists>params pid name w. qcloud_iot_mqtt_init os params pid name w = Inr c) \<or>
     (\<exists>params w. IOT_MQTT_Construct os params w = Some (Inr c))"

inductive_cases client_stepE: "client_step os c c'"

lemma client_step_inv:
  assumes "kernel_ok os" and "client_inv os c" and "client_step os c c'"
  shows "client_inv os c'"
  using assms(3)
proof cases
  case step_publish
  then show ?thesis using wp_D [OF publish_inv [OF assms(2)]] by fastforce
next
  case step_subscribe
  then show ?thesis using wp_D2 [OF subscribe_inv [OF assms(2)]] by blast
next
  case step_resubscribe
  then show ?thesis using wp_D2 [OF resubscribe_inv [OF assms(2)]] by blast
next
  case step_unsubscribe
  then show ?thesis using wp_D2 [OF unsubscribe_inv [OF assms(2)]] by blast
next
  case step_connect
  then show ?thesis using wp_D2 [OF connect_inv [OF assms(1,2)]] by blast
next
  case step_disconnect
  then show ?thesis using wp_D2 [OF disconnect_inv [OF assms(2)]] by blast
next
  case step_yield
  then show ?thesis using wp_D2 [OF yield_inv [OF assms(1,2)]] by (simp add: IOT_MQTT_Yield_def)
next
  case step_reconnect
  then show ?thesis using wp_D2 [OF reconnect_inv [OF assms(1,2)]] by blast
qed (use assms(2) in \<open>simp_all add: IOT_MQTT_SetEventHandler_def qcloud_iot_mqtt_set_autoreconnect_def
      qcloud_iot_mqtt_reset_network_disconnected_count_def\<close>)

interpretation mqtt: service kernel_ok client_started client_step client_inv
  by unfold_locales (auto simp: client_started_def intro: init_inv construct_inv client_step_inv)

end
