(* ===== verification/Mqtt_Sim.thy ===== *)
theory Mqtt_Sim
  imports Mqtt_Service
begin

text \<open>
  The client on the kernel of the theory \<^verbatim>\<open>Hal_Model\<close>, where every layer can be executed: what it puts on the
  wire when it publishes and what it takes off the wire when it reads. These theorems run through
  all layers, from the packet codec down to the loops around \<^verbatim>\<open>send\<close> and \<^verbatim>\<open>recv\<close>.
\<close>

section \<open>The client on this kernel\<close>

definition sim_deadline :: "Timer \<Rightarrow> nat \<Rightarrow> bool" where
  "sim_deadline timer ms \<longleftrightarrow> tv_norm (end_time timer) \<and> tv_us (end_time timer) = 1000 * int ms"

lemma sim_now: "os_gettimeofday sim_os w = (\<lparr>tv_sec = int (sim_ms w div 1000), tv_usec = int ((sim_ms w mod 1000) * 1000)\<rparr>, tick 1 w)"
  by simp

lemma sim_now_us: "tv_us \<lparr>tv_sec = int (n div 1000), tv_usec = int (n mod 1000) * 1000\<rparr> = 1000 * int n"
  using interval_us [of n] by simp

lemma remain_ms:
  "tv_norm r \<Longrightarrow> tv_us r = 1000 * k \<Longrightarrow> (if tv_sec r < 0 then 0 else tv_sec r * 1000 + tv_usec r div 1000) = max 0 k"
  by (cases r) (auto simp: tv_norm_def tv_us_def)

lemma sim_expired:
  "sim_deadline timer ms \<Longrightarrow> expired sim_os timer c = (ms \<le> sim_ms (world c), c\<lparr>world := tick 1 (world c)\<rparr>)"
  using HAL_Timer_expired_us [OF _ sim_now interval_norm, of timer "world c"]
  by (simp add: expired_def sim_deadline_def sim_now_us del: sim_os_calls)

lemma sim_left_ms:
  assumes "sim_deadline timer ms"
  shows "left_ms sim_os timer c = (max 0 (int ms - int (sim_ms (world c))), c\<lparr>world := tick 1 (world c)\<rparr>)"
proof -
  let ?now = "\<lparr>tv_sec = int (sim_ms (world c) div 1000), tv_usec = int ((sim_ms (world c) mod 1000) * 1000)\<rparr>"
  let ?r = "timersub (end_time timer) ?now"
  have r: "tv_norm ?r" "tv_us ?r = 1000 * (int ms - int (sim_ms (world c)))"
    using assms timersub_norm [OF _ interval_norm] by (simp_all only: sim_deadline_def timersub_us interval_us) simp
  from remain_ms [OF this] show ?thesis
    by (simp only: left_ms_def HAL_Timer_remain_def sim_now Let_def prod.case)
qed

lemma sim_countdown_ms:
  "\<exists>timer'. countdown_ms sim_os timer t c = (timer', c\<lparr>world := tick 1 (world c)\<rparr>) \<and> sim_deadline timer' (sim_ms (world c) + t)"
proof -
  obtain t' where "HAL_Timer_countdown_ms sim_os timer t (world c) = (t', tick 1 (world c))"
    "tv_norm (end_time t')" "tv_us (end_time t') = 1000 * int (sim_ms (world c)) + 1000 * int t"
    using HAL_Timer_countdown_ms_us [OF sim_now interval_norm, of timer t "world c"] by (auto simp: sim_now_us simp del: sim_os_calls)
  then show ?thesis by (simp add: countdown_ms_def sim_deadline_def algebra_simps)
qed

lemma sim_net_write:
  assumes "net_ok sim_os (network_stack c)" and "1 < t" and "sim_ms (world c) + t < 2 ^ 63" and "d \<noteq> []"
  shows "net_write d t c = Some (0, length d, c\<lparr>world := tick 2 (world c)\<lparr>sim_out := sim_out (world c) @ d\<rparr>\<rparr>)"
  using assms sim_tcp_write [OF assms(2,3,4)] by (simp add: net_write_def net_ok_def network_tcp_write_def)

lemma sim_net_read:
  assumes "net_ok sim_os (network_stack c)" and "1 < t" and "sim_ms (world c) + t < 2 ^ 63" and "0 < n" and "n \<le> length (sim_in (world c))"
  shows "net_read n t c = Some (0, take n (sim_in (world c)), c\<lparr>world := tick 2 (world c)\<lparr>sim_in := drop n (sim_in (world c))\<rparr>\<rparr>)"
  using assms sim_tcp_read [OF assms(2-5)] by (simp add: net_read_def net_ok_def network_tcp_read_def)

text \<open>
  Sending a packet: every byte goes out, in order and exactly once.
\<close>

lemma tick_tick [simp]: "tick a (tick b w) = tick (a + b) w" "tick a (w\<lparr>sim_out := x\<rparr>) = (tick a w)\<lparr>sim_out := x\<rparr>"
  "tick a (w\<lparr>sim_in := x\<rparr>) = (tick a w)\<lparr>sim_in := x\<rparr>"
  by (simp_all add: tick_def)

lemma sim_send:
  assumes "net_ok sim_os (network_stack c)" and "sim_deadline timer ms" and "sim_ms (world c) + 3 < ms" and "ms < 2 ^ 62"
    and "0 < len" and "len < write_buf_size c" and "len \<le> length (write_buf c)"
  shows "send_mqtt_packet sim_os len timer c =
     Some (0, c\<lparr>world := tick 4 (world c)\<lparr>sim_out := sim_out (world c) @ take len (write_buf c)\<rparr>\<rparr>)"
proof -
  let ?w = "tick 4 (world c)\<lparr>sim_out := sim_out (world c) @ take len (write_buf c)\<rparr>"
  let ?c2 = "c\<lparr>world := tick 2 (world c)\<rparr>"
  have d: "buf_read (write_buf c) 0 len = Some (take len (write_buf c))" "take len (write_buf c) \<noteq> []"
    using assms(5,7) by (auto simp: buf_read_def)
  have w: "net_write (take len (write_buf c)) (nat (max 0 (int ms - int (Suc (sim_ms (world c)))))) ?c2 = Some (0, len, c\<lparr>world := ?w\<rparr>)"
    using sim_net_write [of ?c2 "nat (max 0 (int ms - int (Suc (sim_ms (world c)))))" "take len (write_buf c)"] d assms
    by simp
  have "send_loop sim_os len timer 0 QCLOUD_ERR_FAILURE c = send_loop sim_os len timer (0 + len) 0 (c\<lparr>world := ?w\<rparr>)"
    using assms w d by (subst send_loop.simps) (simp add: sim_expired sim_left_ms numeral_2_eq_2)
  also have "\<dots> = Some (0, len, c\<lparr>world := ?w\<rparr>)" by (subst send_loop.simps) simp
  finally show ?thesis using assms(6) by (simp add: send_mqtt_packet_def)
qed

lemma sim_malloc: "HAL_Malloc sim_os c = (Some (sim_next (world c)), c\<lparr>world := (world c)\<lparr>sim_next := sim_next (world c) + 1\<rparr>\<rparr>)"
  by (simp add: HAL_Malloc_def)

lemma publish_header:
  assumes "qos \<le> 1"
  shows "mqtt_init_packet_header PUBLISH qos 0 r = Inr ((if qos = 0 then 0x30 else 0x32) OR (r AND 1))"
proof -
  from assms consider "qos = 0" | "qos = 1" by linarith
  then show ?thesis by cases (simp_all add: mqtt_init_packet_header_def flip: or.assoc)
qed

lemma sim_push_pubInfo:
  assumes "len \<le> write_buf_size c" and "len \<le> length (write_buf c)" and "length (list_pub_wait_ack c) < MAX_REPUB_NUM"
  shows "\<exists>start node w. mask_push_pubInfo_to sim_os len i c =
     Some (Inr node, c\<lparr>world := w, list_pub_wait_ack := list_pub_wait_ack c @
       [(node, \<lparr>pub_start_time = start, pub_node_state = MQTT_NODE_STATE_NORMANL, pub_msg_id = i, pub_buf = take len (write_buf c)\<rparr>)]\<rparr>) \<and>
     sim_ms w = sim_ms (world c) + 1 \<and> sim_out w = sim_out (world c) \<and> sim_in w = sim_in (world c)"
proof -
  let ?c = "c\<lparr>world := (world c)\<lparr>sim_next := sim_next (world c) + 1\<rparr>\<rparr>"
  obtain start where s: "countdown_ms sim_os InitTimer (command_timeout_ms c) ?c = (start, ?c\<lparr>world := tick 1 (world ?c)\<rparr>)"
    using sim_countdown_ms [of InitTimer "command_timeout_ms c" ?c] by blast
  have b: "buf_read (write_buf c) 0 len = Some (take len (write_buf c))" using assms(2) by (simp add: buf_read_def)
  show ?thesis
    using assms s b
    by (intro exI [of _ start] exI [of _ "sim_next (world c) + 1"]
        exI [of _ "tick 1 (world c\<lparr>sim_next := sim_next (world c) + 1\<rparr>)\<lparr>sim_next := sim_next (world c) + 2\<rparr>"])
      (simp add: mask_push_pubInfo_to_def sim_malloc Let_def nodes_rpush_def)
qed

section \<open>Receiving on this kernel\<close>

lemma sim_decode:
  "n < 128 ^ (4 - k) \<Longrightarrow> k < 4 \<Longrightarrow> sim_in (world c) = rem_len_bytes n @ rest \<Longrightarrow> net_ok sim_os (network_stack c) \<Longrightarrow>
   1 < t \<Longrightarrow> sim_ms (world c) + t + 8 < 2 ^ 63 + 2 * k \<Longrightarrow>
   decode_packet_rem_len_with_net_read t v m k c =
     Some (Inr (v + of_nat n * m), c\<lparr>world := tick (2 * length (rem_len_bytes n)) (world c)\<lparr>sim_in := rest\<rparr>\<rparr>)"
proof (induction n arbitrary: v m k c rule: rem_len_bytes.induct)
  case (1 n)
  let ?w = "\<lambda>r. tick 2 (world c)\<lparr>sim_in := r\<rparr>"
  have rd: "net_read 1 t c = Some (0, [b], c\<lparr>world := ?w bs\<rparr>)" if "sim_in (world c) = b # bs" for b bs
    using sim_net_read [of c t 1] that 1(3,5,6,7) by simp
  show ?case
  proof (cases "n < 128")
    case True
    with 1(4) have bs: "sim_in (world c) = of_nat n # rest" by (simp add: rem_len_bytes.simps)
    have "(of_nat n :: u8) AND 128 = 0" "(ucast ((of_nat n :: u8) AND 127) :: u32) = of_nat n"
      using True u8_and_128 [of "of_nat n"] ucast_and_127 [of n] by (simp_all add: unat_of_nat)
    with rd [OF bs] 1(3) True show ?thesis
      by (subst decode_packet_rem_len_with_net_read.simps) (simp add: buf_get_def length_rem_len_bytes)
  next
    case False
    let ?b = "of_nat (n mod 128 + 128) :: u8" and ?c = "c\<lparr>world := ?w (rem_len_bytes (n div 128) @ rest)\<rparr>"
    from False 1(4) have bs: "sim_in (world c) = ?b # rem_len_bytes (n div 128) @ rest"
      by (subst (asm) rem_len_bytes.simps) simp
    have k: "k + 1 < 4" 
    proof (rule ccontr)
      assume "\<not> k + 1 < 4"
      with 1(3) have "k = 3" by simp
      with 1(2) False show False by simp
    qed
    have small: "n div 128 < 128 ^ (4 - (k + 1))"
    proof -
      have "128 ^ (4 - k) = 128 * (128 :: nat) ^ (4 - (k + 1))" using k by (simp flip: power_Suc)
      with 1(2) show ?thesis by (simp add: div_less_iff_less_mult mult.commute)
    qed
    have b: "?b AND 128 \<noteq> 0" "(ucast (?b AND 127) :: u32) = of_nat (n mod 128)"
      using u8_and_128 [of ?b] ucast_and_127 [of "n mod 128 + 128"] by (simp_all add: unat_of_nat_u8 del: of_nat_add)
    have "decode_packet_rem_len_with_net_read t (v + of_nat (n mod 128) * m) (m * 128) (k + 1) ?c =
        Some (Inr (v + of_nat (n mod 128) * m + of_nat (n div 128) * (m * 128)),
          ?c\<lparr>world := tick (2 * length (rem_len_bytes (n div 128))) (world ?c)\<lparr>sim_in := rest\<rparr>\<rparr>)"
      by (rule 1(1) [OF False small k]) (use 1(5-7) in auto)
    moreover have "v + of_nat (n mod 128) * m + of_nat (n div 128) * (m * 128) = v + (of_nat n :: u32) * m"
    proof -
      have "(of_nat n :: u32) = of_nat (n mod 128) + of_nat (n div 128) * 128"
        by (metis mod_div_mult_eq of_nat_add of_nat_mult of_nat_numeral)
      then show ?thesis by (simp add: algebra_simps)
    qed
    ultimately show ?thesis
      using rd [OF bs] 1(3) b False
      by (subst decode_packet_rem_len_with_net_read.simps) (simp add: buf_get_def length_rem_len_bytes [of n] Let_def algebra_simps)
  qed
qed

lemma sim_discard:
  assumes "sim_in (world c) = xs @ rest" and "length xs = rem - k" and "k < rem" and "n = min (rem - k) (read_buf_size c)"
    and "net_ok sim_os (network_stack c)" and "read_buf_size c \<le> length (read_buf c)" and "0 < read_buf_size c" and "1 < t"
    and "sim_ms (world c) + 2 * (rem - k) + t < 2 ^ 63"
  shows "\<exists>c'. discard_loop rem t n k c = Some c' \<and> sim_in (world c') = rest \<and> io_step c c'"
  using assms
proof (induction "rem - k" arbitrary: k n xs c rule: less_induct)
  case less
  let ?w = "tick 2 (world c)\<lparr>sim_in := drop n (sim_in (world c))\<rparr>"
  have n: "0 < n" "n \<le> length xs" "n \<le> length (read_buf c)" using less.prems by auto
  have rd: "net_read n t c = Some (0, take n xs, c\<lparr>world := ?w\<rparr>)"
    using sim_net_read [OF less.prems(5,8), of n] less.prems n by simp
  obtain b where b: "buf_write (read_buf c) 0 (take n xs) = Some b"
    using n buf_write_Some_iff [of "read_buf c" 0 "take n xs"] by auto
  note b = b length_buf_write [OF b]
  let ?c = "c\<lparr>read_buf := b, world := ?w\<rparr>"
  have step: "io_step c ?c" using b(2) by (rule io_step_I)
  have unfold: "discard_loop rem t n k c =
      (if k + n < rem then discard_loop rem t (min (rem - (k + n)) (read_buf_size c)) (k + n) ?c else Some ?c)"
    using rd b n by (subst discard_loop.simps) (simp add: Let_def min_def)
  show ?case
  proof (cases "k + n < rem")
    case True
    have "\<exists>c'. discard_loop rem t (min (rem - (k + n)) (read_buf_size c)) (k + n) ?c = Some c' \<and> sim_in (world c') = rest \<and> io_step ?c c'"
      by (rule less.hyps [where xs = "drop n xs"]) (use True less.prems n b(2) in auto)
    with unfold True step show ?thesis by (auto intro: io_step_trans)
  next
    case False
    with less.prems n have "n = length xs" by auto
    with unfold False step less.prems(1) show ?thesis by simp
  qed
qed

lemma sim_wait_rest:
  assumes "sim_deadline timer ms"
  shows "\<exists>t. wait_rest_ms sim_os timer c = (t, c\<lparr>world := tick 1 (world c)\<rparr>) \<and> 2000 < t \<and> t \<le> ms + 2001"
  using assms by (auto simp: wait_rest_ms_def wait_ms_def sim_left_ms)

lemma sim_read_body:
  assumes inv: "client_inv sim_os c" and dl: "sim_deadline timer ms" and ms: "sim_ms (world c) < 2 ^ 61" "ms < 2 ^ 61"
    and "in": "sim_in (world c) = body @ rest" and len: "length body < 268435456" and h: "read_buf c = h # xs"
  shows "\<exists>rc t' c'. read_packet_body sim_os timer t (of_nat (length body)) c = Some (rc, t', c') \<and> sim_in (world c') = rest \<and>
     (if length (packet_bytes h body) \<le> QCLOUD_IOT_MQTT_RX_BUF_LEN
      then rc = QCLOUD_RET_SUCCESS \<and> t' = header_type h \<and>
           take (length (packet_bytes h body)) (read_buf c') = packet_bytes h body
      else rc = QCLOUD_ERR_BUF_TOO_SHORT \<and> t' = t)"
proof -
  let ?n = "length body" and ?l = "rem_len_bytes (length body)"
  have net: "net_ok sim_os (network_stack c)" and size: "read_buf_size c = 2048" and buf: "length (read_buf c) = 2048"
    using inv by (simp_all add: client_inv_def)
  have u: "unat (of_nat ?n :: u32) = ?n" using len by (rule unat_of_nat_u32)
  have l: "length ?l \<le> 4" "1 \<le> length ?l" using length_rem_len_bytes_range [OF len] by (simp_all split: if_splits)
  obtain t0 where t0: "wait_rest_ms sim_os timer c' = (t0 c', c'\<lparr>world := tick 1 (world c')\<rparr>)" "2000 < t0 c'" "t0 c' \<le> ms + 2001" for c'
    using sim_wait_rest [OF dl] by metis
  show ?thesis
  proof (cases "?n \<ge> 2048")
    case True
    let ?c = "c\<lparr>world := tick 1 (world c)\<rparr>"
    have "\<exists>c'. discard_loop ?n (t0 c) 2048 0 ?c = Some c' \<and> sim_in (world c') = rest \<and> io_step ?c c'"
      by (rule sim_discard [where xs = body]) (use "in" True net size buf t0(2,3) [of c] ms len in auto)
    then obtain c' where d: "discard_loop ?n (t0 c) 2048 0 ?c = Some c'" "sim_in (world c') = rest" by blast
    have "\<not> length (packet_bytes h body) \<le> 2048" using True by (simp add: packet_bytes_def)
    with d True u size t0(1) show ?thesis by (simp add: read_packet_body_def)
  next
    case False
    let ?b = "h # ?l @ drop (1 + length ?l) (read_buf c)" and ?c1 = "c\<lparr>read_buf := h # ?l @ drop (1 + length ?l) (read_buf c)\<rparr>"
    have wr: "mqtt_write_packet_rem_len (read_buf c) 1 (of_nat ?n) 0 = Some (?b, length ?l)"
      using l buf h by (simp add: mqtt_write_packet_rem_len_eq u buf_write_def)
    have lb: "length ?b = 2048" using l buf by simp
    show ?thesis
    proof (cases "?n = 0")
      case True
      with wr lb "in" size show ?thesis
        by (simp add: read_packet_body_def buf_get_def packet_bytes_def length_rem_len_bytes)
    next
      case nz: False
      have rd: "net_read ?n (t0 ?c1) (?c1\<lparr>world := tick 1 (world c)\<rparr>) =
          Some (0, body, ?c1\<lparr>world := tick 3 (world c)\<lparr>sim_in := rest\<rparr>\<rparr>)"
        using sim_net_read [of "?c1\<lparr>world := tick 1 (world c)\<rparr>" "t0 ?c1" ?n] net "in" nz t0(2,3) [of ?c1] ms by simp
      show ?thesis
      proof (cases "1 + length ?l + ?n > 2048")
        case True
        then obtain b' where b': "buf_write ?b 0 body = Some b'"
          using buf_write_Some_iff [of ?b 0 body] lb False by auto
        have "\<not> length (packet_bytes h body) \<le> 2048" using True by (simp add: packet_bytes_def)
        with True False nz wr u size t0(1) [of ?c1] rd b' show ?thesis by (simp add: read_packet_body_def Let_def)
      next
        case fits: False
        have b': "buf_write ?b (1 + length ?l) body = Some (packet_bytes h body @ drop (1 + length ?l + ?n) (read_buf c))"
          using fits buf by (simp add: buf_write_def packet_bytes_def ac_simps)
        from fits have "length (packet_bytes h body) \<le> 2048" by (simp add: packet_bytes_def)
        with fits False nz wr u size t0(1) [of ?c1] rd b' show ?thesis
          by (simp add: read_packet_body_def Let_def buf_get_def packet_bytes_def)
      qed
    qed
  qed
qed

lemma sim_read_packet:
  assumes "client_inv sim_os c" and "sim_deadline timer ms" and "sim_ms (world c) + 1 < ms" and "ms < 2 ^ 60"
    and "sim_in (world c) = packet_bytes h body @ rest" and "length body < 268435456"
  shows "\<exists>rc t' c'. read_mqtt_packet sim_os timer t c = Some (rc, t', c') \<and> sim_in (world c') = rest \<and>
     (if length (packet_bytes h body) \<le> QCLOUD_IOT_MQTT_RX_BUF_LEN
      then rc = QCLOUD_RET_SUCCESS \<and> t' = header_type h \<and>
           take (length (packet_bytes h body)) (read_buf c') = packet_bytes h body
      else rc = QCLOUD_ERR_BUF_TOO_SHORT \<and> t' = t)"
proof -
  have net: "net_ok sim_os (network_stack c)" and buf: "length (read_buf c) = 2048"
    using assms(1) by (simp_all add: client_inv_def)
  obtain x xs where xs: "read_buf c = x # xs" using buf by (cases "read_buf c") auto
  let ?l = "rem_len_bytes (length body)" and ?t = "ms - sim_ms (world c)"
  let ?c1 = "c\<lparr>read_buf := h # xs, world := tick 3 (world c)\<lparr>sim_in := ?l @ body @ rest\<rparr>\<rparr>"
  have l: "length ?l \<le> 4" using length_rem_len_bytes_range [OF assms(6)] by (simp split: if_splits)
  have w: "wait_ms sim_os timer c = (?t, c\<lparr>world := tick 1 (world c)\<rparr>)"
    using assms(3) by (simp add: wait_ms_def sim_left_ms [OF assms(2)])
  have rd: "net_read 1 ?t (c\<lparr>world := tick 1 (world c)\<rparr>) = Some (0, [h], c\<lparr>world := tick 3 (world c)\<lparr>sim_in := ?l @ body @ rest\<rparr>\<rparr>)"
    using sim_net_read [of "c\<lparr>world := tick 1 (world c)\<rparr>" ?t 1] net assms(3-5) by (simp add: packet_bytes_def)
  obtain t1 where t1: "wait_rest_ms sim_os timer ?c1 = (t1, ?c1\<lparr>world := tick 1 (world ?c1)\<rparr>)" "2000 < t1" "t1 \<le> ms + 2001"
    using sim_wait_rest [OF assms(2)] by blast
  let ?c2 = "?c1\<lparr>world := tick (2 * length ?l) (tick 1 (world ?c1))\<lparr>sim_in := body @ rest\<rparr>\<rparr>"
  have dec: "decode_packet_rem_len_with_net_read t1 0 1 0 (?c1\<lparr>world := tick 1 (world ?c1)\<rparr>) = Some (Inr (of_nat (length body)), ?c2)"
    using sim_decode [of "length body" 0 "?c1\<lparr>world := tick 1 (world ?c1)\<rparr>" "body @ rest" t1 0 1] assms net t1 by simp
  have inv2: "client_inv sim_os ?c2"
    using assms(1) client_inv_read_buf [of sim_os c "h # xs"] xs by simp
  obtain rc t' c' where body: "read_packet_body sim_os timer t (of_nat (length body)) ?c2 = Some (rc, t', c')" "sim_in (world c') = rest"
      "if length (packet_bytes h body) \<le> 2048 then rc = 0 \<and> t' = header_type h \<and>
           take (length (packet_bytes h body)) (read_buf c') = packet_bytes h body else rc = QCLOUD_ERR_BUF_TOO_SHORT \<and> t' = t"
    using sim_read_body [OF inv2 assms(2), of body rest h xs t] assms(3,4,6) l by auto
  have "buf_write (read_buf c) 0 [h] = Some (h # xs)" using xs by (simp add: buf_write_def)
  then have "read_mqtt_packet sim_os timer t c = Some (rc, t', c')"
    using w rd t1(1) dec body(1) by (simp add: read_mqtt_packet_def)
  with body(2,3) show ?thesis by blast
qed

section \<open>A connected client\<close>

text \<open>A client as \<^verbatim>\<open>qcloud_iot_mqtt_init\<close> leaves it, connected, with a subscription and an event handler.\<close>

definition demo_handle :: SubTopicHandle where
  "demo_handle = \<lparr>topic_filter = Some [97], message_handler = Some 11, sub_event_handler = Some 12, handler_user_data = 13, sh_qos = 1\<rparr>"

definition demo_client :: "u8 list \<Rightarrow> u8 list \<Rightarrow> sim client" where
  "demo_client rx peer = \<lparr>is_connected = True, was_manually_disconnected = False, is_ping_outstanding = 0, next_packet_id = 7,
     command_timeout_ms = 5000, current_reconnect_wait_interval = 0, counter_network_disconnected = 0,
     write_buf_size = QCLOUD_IOT_MQTT_TX_BUF_LEN, read_buf_size = QCLOUD_IOT_MQTT_RX_BUF_LEN,
     write_buf = replicate QCLOUD_IOT_MQTT_TX_BUF_LEN 0,
     read_buf = rx @ replicate (QCLOUD_IOT_MQTT_RX_BUF_LEN - length rx) 0,
     list_pub_wait_ack = [], list_sub_wait_ack = [], event_handle = \<lparr>h_fp = Some 1, h_context = 2\<rparr>, options = null_options,
     network_stack = (snd (qcloud_iot_mqtt_network_init sim_os null_network))\<lparr>nw_handle := 3\<rparr>,
     ping_timer = InitTimer, reconnect_delay_timer = InitTimer,
     device_info = \<lparr>product_id = [80], device_name = [100], di_client_id = [80, 100]\<rparr>,
     sub_handles = demo_handle # replicate 9 null_handle, host_addr = [], psk_decode = replicate 48 0,
     repeat_packet_id_buf = replicate MQTT_MAX_REPEAT_BUF_LEN 0, current_packet_id_cnt = 0,
     world = sim_world peer 0, trace = []\<rparr>"

lemma demo_net: "net_ok sim_os ((snd (qcloud_iot_mqtt_network_init sim_os net))\<lparr>nw_handle := n\<rparr>)"
  by (simp add: net_ok_def qcloud_iot_mqtt_network_init_def qcloud_iot_network_init_def Let_def)

lemma demo_client_inv [simp]: "length rx \<le> QCLOUD_IOT_MQTT_RX_BUF_LEN \<Longrightarrow> client_inv sim_os (demo_client rx peer)"
  by (simp add: client_inv_def demo_client_def demo_net good_filter_def null_handle_def demo_handle_def)

lemma demo_client_fields [simp]:
  "is_connected (demo_client rx peer)" "world (demo_client rx peer) = sim_world peer 0" "trace (demo_client rx peer) = []"
  "list_pub_wait_ack (demo_client rx peer) = []" "list_sub_wait_ack (demo_client rx peer) = []"
  "next_packet_id (demo_client rx peer) = 7" "read_buf_size (demo_client rx peer) = QCLOUD_IOT_MQTT_RX_BUF_LEN"
  "read_buf (demo_client rx peer) = rx @ replicate (QCLOUD_IOT_MQTT_RX_BUF_LEN - length rx) 0"
  "sub_handles (demo_client rx peer) = demo_handle # replicate 9 null_handle"
  "event_handle (demo_client rx peer) = \<lparr>h_fp = Some 1, h_context = 2\<rparr>"
  "repeat_packet_id_buf (demo_client rx peer) = replicate MQTT_MAX_REPEAT_BUF_LEN 0" "current_packet_id_cnt (demo_client rx peer) = 0"
  "options (demo_client rx peer) = null_options" "command_timeout_ms (demo_client rx peer) = 5000"
  "is_ping_outstanding (demo_client rx peer) = 0"
  by (simp_all add: demo_client_def)

section \<open>Publishing on this kernel\<close>

text \<open>At QoS 0 nothing but the write buffer and the world changes.\<close>

lemma publish_serialized:
  assumes "client_inv os c" and "length topic \<le> MAX_SIZE_OF_CLOUD_TOPIC" and "pp_qos p \<le> QOS1" and "length payload \<le> 1900"
  defines "packet i \<equiv> packet_bytes ((if pp_qos p = QOS0 then 0x30 else 0x32) OR (pp_retained p AND 1)) (publish_body (pp_qos p) i topic payload)"
  shows "serialize_publish_packet (write_buf c) 2048 0 (pp_qos p) (pp_retained p) i topic (Some payload) =
      Some (Inr (packet i @ drop (length (packet i)) (write_buf c), length (packet i)))"
    and "length (packet i) < 2048" and "0 < length (packet i)"
proof -
  have inv: "length (write_buf c) = 2048" using assms(1) by (simp add: client_inv_def)
  let ?body = "publish_body (pp_qos p) i topic payload"
  let ?h = "(if pp_qos p = QOS0 then 0x30 else 0x32) OR (pp_retained p AND 1)"
  have body: "length ?body \<le> 2040" using assms(2,4) by (simp add: publish_body_def)
  have h: "mqtt_init_packet_header PUBLISH (pp_qos p) 0 (pp_retained p) = Inr ?h" using publish_header assms(3) by simp
  show "length (packet i) < 2048" "0 < length (packet i)"
    using body assms(2,4) length_rem_len_bytes_range [of "length ?body"]
    by (auto simp: packet_def packet_bytes_def publish_body_def split: if_splits)
  have fits: "get_mqtt_packet_len (length ?body) \<le> 2048"
    using assms(2,4) by (auto simp: get_mqtt_packet_len_def Let_def publish_body_def)
  show "serialize_publish_packet (write_buf c) 2048 0 (pp_qos p) (pp_retained p) i topic (Some payload) =
      Some (Inr (packet i @ drop (length (packet i)) (write_buf c), length (packet i)))"
    using serialize_publish_packet_eq [OF h _ inv, of i topic payload] body fits by (simp add: packet_def)
qed

lemma sim_publish_qos0:
  assumes "client_inv sim_os c" and "is_connected c" and "sim_ms (world c) < 2 ^ 61"
    and "0 < length topic" and "length topic \<le> MAX_SIZE_OF_CLOUD_TOPIC" and "pp_qos p = QOS0" and "pp_payload p = Some payload"
    and "length payload \<le> 1900"
  defines "packet \<equiv> packet_bytes (0x30 OR (pp_retained p AND 1)) (publish_body QOS0 (pp_id p) topic payload)"
  shows "qcloud_iot_mqtt_publish sim_os (Some topic) p c = Some (uint (pp_id p), p,
     c\<lparr>write_buf := packet @ drop (length packet) (write_buf c), world := tick 5 (world c)\<lparr>sim_out := sim_out (world c) @ packet\<rparr>\<rparr>)"
proof -
  have inv: "net_ok sim_os (network_stack c)" "write_buf_size c = 2048" "length (write_buf c) = 2048"
    "500 \<le> command_timeout_ms c" "command_timeout_ms c \<le> 20000"
    using assms(1) by (simp_all add: client_inv_def)
  let ?b = "packet @ drop (length packet) (write_buf c)"
  have "pp_qos p \<le> QOS1" using assms(6) by simp
  note ser = publish_serialized [OF assms(1,5) this assms(8), of "pp_id p"]
  have len: "length packet < 2048" "0 < length packet" using ser(2,3) assms(6) by (simp_all add: packet_def)
  have ser0: "serialize_publish_packet (write_buf c) 2048 0 0 (pp_retained p) (pp_id p) topic (Some payload) = Some (Inr (?b, length packet))"
    using ser(1) assms(6) by (simp add: packet_def)
  obtain timer where t: "countdown_ms sim_os InitTimer (command_timeout_ms c) c = (timer, c\<lparr>world := tick 1 (world c)\<rparr>)"
    and dl: "sim_deadline timer (sim_ms (world c) + command_timeout_ms c)"
    using sim_countdown_ms by blast
  let ?c1 = "c\<lparr>write_buf := ?b, world := tick 1 (world c)\<rparr>"
  have "send_mqtt_packet sim_os (length packet) timer ?c1 =
      Some (0, ?c1\<lparr>world := tick 4 (world ?c1)\<lparr>sim_out := sim_out (world ?c1) @ take (length packet) (write_buf ?c1)\<rparr>\<rparr>)"
    by (rule sim_send [OF _ dl]) (use inv len assms(3) in auto)
  then show ?thesis
    using assms(2,4-7) inv t ser0 by (simp add: qcloud_iot_mqtt_publish_def get_client_conn_state_def)
qed

lemma sim_publish:
  assumes "client_inv sim_os c" and "is_connected c" and "sim_ms (world c) < 2 ^ 61"
    and "0 < length topic" and "length topic \<le> MAX_SIZE_OF_CLOUD_TOPIC" and "pp_qos p \<le> QOS1" and "pp_payload p = Some payload"
    and "length payload \<le> 1900" and "length (list_pub_wait_ack c) < MAX_REPUB_NUM"
  defines "i \<equiv> (if pp_qos p = QOS1 then fst (get_next_packet_id c) else pp_id p)"
  defines "packet \<equiv> packet_bytes ((if pp_qos p = QOS0 then 0x30 else 0x32) OR (pp_retained p AND 1)) (publish_body (pp_qos p) i topic payload)"
  shows "\<exists>node start c'. qcloud_iot_mqtt_publish sim_os (Some topic) p c = Some (uint i, p\<lparr>pp_id := i\<rparr>, c') \<and>
     sim_out (world c') = sim_out (world c) @ packet \<and>
     list_pub_wait_ack c' = list_pub_wait_ack c @ (if pp_qos p = QOS0 then []
       else [(node, \<lparr>pub_start_time = start, pub_node_state = MQTT_NODE_STATE_NORMANL, pub_msg_id = i, pub_buf = packet\<rparr>)])"
proof -
  have inv: "net_ok sim_os (network_stack c)" "write_buf_size c = 2048" "length (write_buf c) = 2048"
    "500 \<le> command_timeout_ms c" "command_timeout_ms c \<le> 20000"
    using assms(1) by (simp_all add: client_inv_def)
  let ?b = "packet @ drop (length packet) (write_buf c)"
  note ser' = publish_serialized [OF assms(1,5,6,8), of i]
  have len: "length packet < 2048" "0 < length packet" using ser'(2,3) by (simp_all add: packet_def)
  have ser: "serialize_publish_packet (write_buf c) 2048 0 (pp_qos p) (pp_retained p) i topic (Some payload) = Some (Inr (?b, length packet))"
    using ser'(1) by (simp add: packet_def)
  obtain timer where t: "countdown_ms sim_os InitTimer (command_timeout_ms c) c = (timer, c\<lparr>world := tick 1 (world c)\<rparr>)"
    and dl: "sim_deadline timer (sim_ms (world c) + command_timeout_ms c)"
    using sim_countdown_ms by blast
  show ?thesis
  proof (cases "pp_qos p = QOS0")
    case True
    then show ?thesis using sim_publish_qos0 [OF assms(1-5) _ assms(7,8)] by (simp add: i_def packet_def)
  next
    case False
    with assms(6) have q: "pp_qos p = 1" by simp
    then have i: "i = fst (get_next_packet_id c)" by (simp add: i_def)
    let ?c1 = "c\<lparr>world := tick 1 (world c), next_packet_id := i, write_buf := ?b\<rparr>"
    obtain start node w where push: "mask_push_pubInfo_to sim_os (length packet) i ?c1 =
        Some (Inr node, ?c1\<lparr>world := w, list_pub_wait_ack := list_pub_wait_ack ?c1 @
          [(node, \<lparr>pub_start_time = start, pub_node_state = MQTT_NODE_STATE_NORMANL, pub_msg_id = i, pub_buf = take (length packet) (write_buf ?c1)\<rparr>)]\<rparr>)"
      and w: "sim_ms w = sim_ms (world ?c1) + 1" "sim_out w = sim_out (world ?c1)"
      using sim_push_pubInfo [of "length packet" ?c1 i] inv len assms(9) by auto
    let ?c2 = "?c1\<lparr>world := w, list_pub_wait_ack := list_pub_wait_ack ?c1 @
          [(node, \<lparr>pub_start_time = start, pub_node_state = MQTT_NODE_STATE_NORMANL, pub_msg_id = i, pub_buf = packet\<rparr>)]\<rparr>"
    have send: "send_mqtt_packet sim_os (length packet) timer ?c2 =
        Some (0, ?c2\<lparr>world := tick 4 (world ?c2)\<lparr>sim_out := sim_out (world ?c2) @ take (length packet) (write_buf ?c2)\<rparr>\<rparr>)"
      by (rule sim_send [OF _ dl]) (use inv len assms(3) w in auto)
    have next_id: "get_next_packet_id (c\<lparr>world := tick 1 (world c)\<rparr>) = (i, c\<lparr>world := tick 1 (world c), next_packet_id := i\<rparr>)"
      by (simp add: i get_next_packet_id_def Let_def)
    show ?thesis
      using q assms(2,4,5,7) inv t ser push send w next_id
      by (simp add: qcloud_iot_mqtt_publish_def get_client_conn_state_def)
  qed
qed

section \<open>Properties\<close>

text \<open>
  C16: Publishing with QoS 0 or 1 on a connected client puts exactly the packet of MQTT 3.1.1 on the wire,
  once and in order, through serializer, network stack and socket code, and returns its packet
  identifier; at QoS 1 the identifier is the next one and the packet waits for its acknowledgement,
  at QoS 0 nothing waits.
\<close>

theorem publish_reaches_the_wire:
  assumes "client_inv sim_os c" and "is_connected c" and "sim_ms (world c) < 2 ^ 61"
    and "0 < length topic" and "length topic \<le> MAX_SIZE_OF_CLOUD_TOPIC" and "pp_qos p \<le> QOS1" and "pp_payload p = Some payload"
    and "length payload \<le> 1900" and "length (list_pub_wait_ack c) < MAX_REPUB_NUM"
  defines "i \<equiv> (if pp_qos p = QOS1 then fst (get_next_packet_id c) else pp_id p)"
  defines "packet \<equiv> packet_bytes ((if pp_qos p = QOS0 then 0x30 else 0x32) OR (pp_retained p AND 1)) (publish_body (pp_qos p) i topic payload)"
  shows "\<exists>node start c'. qcloud_iot_mqtt_publish sim_os (Some topic) p c = Some (uint i, p\<lparr>pp_id := i\<rparr>, c') \<and>
     sim_out (world c') = sim_out (world c) @ packet \<and>
     list_pub_wait_ack c' = list_pub_wait_ack c @ (if pp_qos p = QOS0 then []
       else [(node, \<lparr>pub_start_time = start, pub_node_state = MQTT_NODE_STATE_NORMANL, pub_msg_id = i, pub_buf = packet\<rparr>)])"
  using sim_publish [OF assms(1-9)] unfolding i_def packet_def .

theorem publish_reaches_the_wire_witness:
  "\<exists>p' c'. qcloud_iot_mqtt_publish sim_os (Some [97, 98]) \<lparr>pp_qos = 1, pp_retained = 0, pp_id = 0, pp_payload = Some [1]\<rparr> (demo_client [] []) =
     Some (8, p', c') \<and> sim_out (world c') = packet_bytes 0x32 (publish_body 1 8 [97, 98] [1]) \<and> length (list_pub_wait_ack c') = 1"
  using publish_reaches_the_wire [of "demo_client [] []" "[97, 98]" "\<lparr>pp_qos = 1, pp_retained = 0, pp_id = 0, pp_payload = Some [1]\<rparr>" "[1]"]
  by (auto simp: get_next_packet_id_def)

text \<open>
  C17: Reading the byte stream of the peer packet by packet: whatever the packet, exactly its bytes are
  taken off the stream. If it fits into the receive buffer it lies there completely and its type
  is reported; otherwise it is skipped, the error says so, and the next read starts at the next packet.
\<close>

theorem read_frames_the_stream:
  assumes "client_inv sim_os c" and "sim_deadline timer ms" and "sim_ms (world c) + 1 < ms" and "ms < 2 ^ 60"
    and "sim_in (world c) = packet_bytes h body @ rest" and "length body < 268435456"
  shows "\<exists>rc t' c'. read_mqtt_packet sim_os timer t c = Some (rc, t', c') \<and> sim_in (world c') = rest \<and>
     (if length (packet_bytes h body) \<le> QCLOUD_IOT_MQTT_RX_BUF_LEN
      then rc = QCLOUD_RET_SUCCESS \<and> t' = header_type h \<and>
           take (length (packet_bytes h body)) (read_buf c') = packet_bytes h body
      else rc = QCLOUD_ERR_BUF_TOO_SHORT \<and> t' = t)"
  by (rule sim_read_packet [OF assms])

theorem read_frames_the_stream_witness:
  "\<exists>c'. read_mqtt_packet sim_os \<lparr>end_time = \<lparr>tv_sec = 1, tv_usec = 0\<rparr>\<rparr> 0 (demo_client [] (packet_bytes 0x40 [0, 7] @ [1, 2])) =
     Some (0, 4, c') \<and> sim_in (world c') = [1, 2]"
  using read_frames_the_stream [of "demo_client [] (packet_bytes 0x40 [0, 7] @ [1, 2])" "\<lparr>end_time = \<lparr>tv_sec = 1, tv_usec = 0\<rparr>\<rparr>" 1000
      "0x40" "[0, 7]" "[1, 2]" 0]
  by (auto simp: sim_deadline_def tv_norm_def tv_us_def packet_bytes_def length_rem_len_bytes header_type_def)

end
