(* ===== verification/Mqtt_Delivery.thy ===== *)
theory Mqtt_Delivery
  imports Mqtt_Sim
begin

text \<open>
  What happens to a packet that has arrived: which handler gets a message, duplicates, the
  acknowledgements and the requests that wait for them
  (\<^verbatim>\<open>sdk_src/protocol/mqtt/mqtt_client_common.c\<close> and \<^verbatim>\<open>mqtt_client_yield.c\<close>).
\<close>

section \<open>Which handler gets a message\<close>

definition handles_topic :: "cstring \<Rightarrow> SubTopicHandle \<Rightarrow> bool" where
  "handles_topic topic h \<longleftrightarrow>
     (case topic_filter h of None \<Rightarrow> False | Some f \<Rightarrow> f = topic \<or> is_topic_matched f topic = Some True) \<and>
     message_handler h \<noteq> None"

definition delivered :: "MQTTMessage \<Rightarrow> cstring \<Rightarrow> 'w client \<Rightarrow> 'w client" where
  "delivered msg topic c =
     (case find (handles_topic topic) (sub_handles c) of
        Some h \<Rightarrow> call (MessageCb (the (message_handler h)) msg (handler_user_data h)) c
      | None \<Rightarrow> notify_event MQTT_EVENT_PUBLISH_RECVEIVED (Message msg) c)"

lemma match_suffix_defined: "s \<noteq> [] \<or> p \<noteq> None \<Longrightarrow> \<exists>r. match_suffix f s p = Some r"
  by (induction f s p rule: match_suffix.induct) (auto simp: match_end_def)

lemma is_topic_matched_defined: "topic \<noteq> [] \<Longrightarrow> \<exists>r. is_topic_matched f topic = Some r"
  by (simp add: is_topic_matched_suffix match_suffix_defined)

lemma find_handler_spec:
  assumes "0 \<notin> set topic" and "topic \<noteq> []"
  shows "find_handler hs (topic @ 0 # xs) (length topic) = Some (find (handles_topic topic) hs)"
proof (induction hs)
  case (Cons h hs)
  have name: "c_string (topic @ 0 # xs) = Some topic" by (rule c_string_terminated [OF assms(1)])
  obtain r where "\<And>f. is_topic_matched f topic = Some (r f)"
    using is_topic_matched_defined [OF assms(2)] by metis
  then show ?case
    using Cons.IH name
    by (cases "topic_filter h") (auto simp: handles_topic_def is_topic_equals_def)
qed simp

lemma deliver_message_spec:
  assumes "0 \<notin> set topic" and "topic \<noteq> []"
  shows "deliver_message (topic @ 0 # xs) (length topic) msg c =
     Some (0, delivered (msg\<lparr>msg_topic := topic @ 0 # xs, msg_topic_len := length topic\<rparr>) topic c)"
proof -
  have "message_handler h \<noteq> None" if "find (handles_topic topic) (sub_handles c) = Some h" for h
    using that by (auto simp: find_Some_iff handles_topic_def)
  then show ?thesis
    using find_handler_spec [OF assms, of "sub_handles c" xs]
    by (auto simp: deliver_message_def delivered_def split: option.split)
qed

lemma fix_topic_spec:
  assumes "take (length topic) (drop p buf) = topic" and "topic \<noteq> []" and "length topic < MAX_SIZE_OF_CLOUD_TOPIC"
  shows "fix_topic buf p (of_nat (length topic)) =
     Some (topic @ 0 # replicate (MAX_SIZE_OF_CLOUD_TOPIC - 1 - length topic) 0, length topic)"
proof -
  have u: "unat (of_nat (length topic) :: u16) = length topic" using assms(3) by (simp add: unat_of_nat_u16)
  have "p + length topic \<le> length buf"
    using arg_cong [OF assms(1), of length] assms(2) by (cases topic) (auto simp: min_def split: if_splits)
  then have "buf_read buf p (length topic) = Some topic" using assms(1) by (simp add: buf_read_def)
  moreover have "buf_write (replicate 128 0) 0 topic = Some (topic @ 0 # replicate (127 - length topic) 0)"
    using assms(3) by (simp add: buf_write_def Suc_diff_Suc flip: replicate_Suc)
  ultimately show ?thesis using u assms(3) by (simp add: fix_topic_def Let_def)
qed

text \<open>What the application is told about a PUBLISH packet.\<close>

definition message_of :: "nat \<Rightarrow> u8 \<Rightarrow> u8 \<Rightarrow> u16 \<Rightarrow> cstring \<Rightarrow> u8 list \<Rightarrow> MQTTMessage \<Rightarrow> bool" where
  "message_of qos dup retained i topic payload m \<longleftrightarrow>
     msg_qos m = qos \<and> msg_dup m = dup AND 1 \<and> msg_retained m = retained AND 1 \<and>
     msg_id m = (if qos > 0 then Some i else None) \<and> c_string (msg_topic m) = Some topic \<and> msg_topic_len m = length topic \<and>
     unat (msg_payload_len m) = length payload \<and> take (unat (msg_payload_len m)) (drop (msg_payload m) (msg_buf m)) = payload"

lemma handle_publish_spec:
  assumes buf: "read_buf c = packet_bytes h (publish_body qos i topic payload) @ xs" "read_buf_size c \<ge> 4"
    and h: "mqtt_init_packet_header PUBLISH qos dup retained = Inr h" and "qos \<le> QOS2"
    and topic: "0 \<notin> set topic" "topic \<noteq> []" "length topic < MAX_SIZE_OF_CLOUD_TOPIC"
    and len: "length (publish_body qos i topic payload) < 268435456"
  shows "\<exists>m. message_of qos dup retained i topic payload m \<and>
     handle_publish_packet os timer c =
       (if qos = QOS0 then Some (0, timer, delivered m topic c)
        else do {
          c \<leftarrow> add_packet_id_to_repeat_buf i
                 (if i \<in> set (repeat_packet_id_buf c) then c else delivered m topic c);
          send_ack os (if qos = QOS1 then PUBACK else PUBREC) i timer c
        })"
proof -
  obtain f where f: "deserialize_publish_packet (read_buf c) (read_buf_size c) = Some (Inr f)"
    "pf_dup f = dup AND 1" "pf_qos f = qos" "pf_retained f = retained AND 1"
    "pf_packet_id f = (if qos > 0 then Some i else None)" "pf_topic_len f = of_nat (length topic)"
    "take (length topic) (drop (pf_topic f) (read_buf c)) = topic" "pf_payload_len f = of_nat (length payload)"
    "drop (pf_payload f) (read_buf c) = payload @ xs"
    using deserialize_publish_packet_eq [of "read_buf c" h qos i topic payload xs dup retained "read_buf_size c"] assms by auto
  let ?t = "topic @ 0 # replicate (127 - length topic) 0"
  have ft: "fix_topic (read_buf c) (pf_topic f) (of_nat (length topic)) = Some (?t, length topic)"
    using fix_topic_spec [OF f(7) topic(2,3)] by simp
  define m where "m = \<lparr>msg_qos = qos, msg_retained = retained AND 1, msg_dup = dup AND 1, msg_id = pf_packet_id f,
    msg_topic = ?t, msg_topic_len = length topic, msg_buf = read_buf c, msg_payload = pf_payload f,
    msg_payload_len = of_nat (length payload)\<rparr>"
  have "unat (of_nat (length payload) :: u64) = length payload"
    using len by (simp add: publish_body_def unat_of_nat)
  then have "message_of qos dup retained i topic payload m"
    using f c_string_terminated [OF topic(1)] by (simp add: message_of_def m_def)
  moreover have "deliver_message ?t (length topic) (m\<lparr>msg_topic := [], msg_topic_len := 0\<rparr>) c = Some (0, delivered m topic c)"
    using deliver_message_spec [OF topic(1,2), of "replicate (127 - length topic) 0" "m\<lparr>msg_topic := [], msg_topic_len := 0\<rparr>" c]
    by (simp add: m_def)
  ultimately show ?thesis
    using f ft
    by (intro exI [of _ m]) (auto simp: handle_publish_packet_def m_def get_packet_id_in_repeat_buf_def)
qed

section \<open>The window of remembered identifiers\<close>

text \<open>Receiving a sequence of identifiers.\<close>

primrec add_packet_ids :: "u16 list \<Rightarrow> 'w client \<Rightarrow> 'w client option" where
  "add_packet_ids [] c = Some c"
| "add_packet_ids (i # is) c = add_packet_id_to_repeat_buf i c \<bind> add_packet_ids is"

definition ring_ok :: "'w client \<Rightarrow> bool" where
  "ring_ok c \<longleftrightarrow> length (repeat_packet_id_buf c) = MQTT_MAX_REPEAT_BUF_LEN \<and> current_packet_id_cnt c < MQTT_MAX_REPEAT_BUF_LEN"

lemma add_packet_id_ring:
  assumes "ring_ok c"
  shows "\<exists>c'. add_packet_id_to_repeat_buf i c = Some c' \<and> ring_ok c' \<and> i \<in> set (repeat_packet_id_buf c') \<and>
     (c' = c \<or> current_packet_id_cnt c' = (current_packet_id_cnt c + 1) mod 10 \<and>
       repeat_packet_id_buf c' = (repeat_packet_id_buf c)[current_packet_id_cnt c := i])"
proof (cases "get_packet_id_in_repeat_buf i c > 0")
  case True
  with assms show ?thesis by (auto simp: add_packet_id_to_repeat_buf_def get_packet_id_in_repeat_buf_def split: if_splits)
next
  case False
  with assms show ?thesis
    by (auto simp: add_packet_id_to_repeat_buf_def ring_ok_def buf_put_def set_update_memI mod_Suc)
qed

text \<open>An identifier stays in its place until the write position comes round again.\<close>

lemma add_packet_ids_keep:
  assumes "ring_ok c" and "p < 10" and "repeat_packet_id_buf c ! p = i"
    and "length is \<le> (p + 10 - current_packet_id_cnt c) mod 10"
  shows "\<exists>c'. add_packet_ids is c = Some c' \<and> ring_ok c' \<and> i \<in> set (repeat_packet_id_buf c')"
  using assms
proof (induction "is" arbitrary: c)
  case Nil
  then have "p < length (repeat_packet_id_buf c)" by (simp add: ring_ok_def)
  with Nil show ?case by (auto intro: nth_mem)
next
  case (Cons j js)
  obtain c1 where c1: "add_packet_id_to_repeat_buf j c = Some c1" "ring_ok c1"
    and cases: "c1 = c \<or> current_packet_id_cnt c1 = (current_packet_id_cnt c + 1) mod 10 \<and>
       repeat_packet_id_buf c1 = (repeat_packet_id_buf c)[current_packet_id_cnt c := j]"
    using add_packet_id_ring [OF Cons.prems(1)] by blast
  have cnt: "current_packet_id_cnt c < 10" using Cons.prems(1) by (simp add: ring_ok_def)
  have ne: "p \<noteq> current_packet_id_cnt c" using Cons.prems(4) by auto
  from cases have "repeat_packet_id_buf c1 ! p = i \<and> length js \<le> (p + 10 - current_packet_id_cnt c1) mod 10"
  proof
    assume "c1 = c"
    with Cons.prems show ?thesis by simp
  next
    assume c1: "current_packet_id_cnt c1 = (current_packet_id_cnt c + 1) mod 10 \<and>
       repeat_packet_id_buf c1 = (repeat_packet_id_buf c)[current_packet_id_cnt c := j]"
    have "(p + 10 - (current_packet_id_cnt c + 1) mod 10) mod 10 + 1 = (p + 10 - current_packet_id_cnt c) mod 10"
      using ne cnt Cons.prems(2) by (auto simp: mod_Suc le_mod_geq mod_if split: if_splits)
    with c1 Cons.prems(3,4) ne show ?thesis by simp
  qed
  with Cons.IH [OF c1(2) Cons.prems(2)] c1(1) show ?case by simp
qed

section \<open>Requests that wait for an acknowledgement\<close>

text \<open>What the loops over the waiting lists leave: no node that was marked, and nothing new.\<close>

lemma nodes_remove_address: "(b, m) \<in> set (nodes_remove l a) \<longleftrightarrow> (b, m) \<in> set l \<and> b \<noteq> a"
  by (auto simp: nodes_remove_def)

lemma notify_lists [simp]:
  "list_pub_wait_ack (notify_event ev arg c) = list_pub_wait_ack c" "list_sub_wait_ack (notify_event ev arg c) = list_sub_wait_ack c"
  "list_pub_wait_ack (notify_subscriber h ev c) = list_pub_wait_ack c" "list_sub_wait_ack (notify_subscriber h ev c) = list_sub_wait_ack c"
  "sub_handles (notify_event ev arg c) = sub_handles c" "sub_handles (notify_subscriber h ev c) = sub_handles c"
  "world (notify_event ev arg c) = world c" "world (notify_subscriber h ev c) = world c"
  "is_connected (notify_event ev arg c) = is_connected c" "is_connected (notify_subscriber h ev c) = is_connected c"
  "options (notify_event ev arg c) = options c" "options (notify_subscriber h ev c) = options c"
  using notify_event_frame [of ev arg c] notify_subscriber_frame [of h ev c] by auto

lemma env_lists:
  "left_ms os timer c = (i, c') \<Longrightarrow> list_pub_wait_ack c' = list_pub_wait_ack c"
  "countdown_ms os timer t c = (timer', c') \<Longrightarrow> list_pub_wait_ack c' = list_pub_wait_ack c"
  "HAL_Malloc os c = (p, c') \<Longrightarrow> list_pub_wait_ack c' = list_pub_wait_ack c"
  by (auto simp: env_defs split: prod.splits)

lemma pub_info_loop_removes:
  "set (list_pub_wait_ack (pub_info_loop os nodes c)) \<subseteq> set (list_pub_wait_ack c) \<and>
   (\<forall>(a, n) \<in> set nodes. pub_node_state n = MQTT_NODE_STATE_INVALID \<longrightarrow> (\<forall>m. (a, m) \<notin> set (list_pub_wait_ack (pub_info_loop os nodes c))))"
proof (induction nodes arbitrary: c)
  case (Cons node nodes)
  obtain a n where node: "node = (a, n)" by (cases node)
  define c1 where "c1 = (if pub_node_state n = MQTT_NODE_STATE_INVALID then c\<lparr>list_pub_wait_ack := nodes_remove (list_pub_wait_ack c) a\<rparr>
      else if \<not> is_connected c then c
      else let (t, c) = left_ms os (pub_start_time n) c
           in if t > 0 then c
              else let (start, c) = countdown_ms os (pub_start_time n) (command_timeout_ms c) c;
                       c = notify_event MQTT_EVENT_PUBLISH_TIMEOUT (PacketId (pub_msg_id n)) c
                   in c\<lparr>list_pub_wait_ack := nodes_remove (list_pub_wait_ack c) a\<rparr>)"
  have loop: "pub_info_loop os (node # nodes) c = pub_info_loop os nodes c1"
    by (simp add: node c1_def Let_def split: prod.split)
  have sub: "set (list_pub_wait_ack c1) \<subseteq> set (list_pub_wait_ack c)"
    by (auto simp: c1_def Let_def env_lists nodes_remove_def split: prod.splits if_splits)
  have gone: "(a, m) \<notin> set (list_pub_wait_ack c1)" if "pub_node_state n = MQTT_NODE_STATE_INVALID" for m
    using that by (simp add: c1_def nodes_remove_address)
  show ?case
    unfolding loop using Cons.IH [of c1] sub gone by (auto simp: node)
qed simp

lemma puback_settles:
  assumes buf: "read_buf c = packet_bytes h (u16_bytes i) @ xs" and "4 \<le> read_buf_size c"
    and malloc: "\<And>w. fst (os_malloc os w) \<noteq> None"
  shows "\<exists>c1. handle_puback_packet os c = Some (QCLOUD_RET_SUCCESS, c1) \<and>
     (\<forall>(a, n) \<in> set (list_pub_wait_ack (qcloud_iot_mqtt_pub_info_proc os c1)). pub_msg_id n \<noteq> i)"
proof -
  have ack: "deserialize_ack_packet (read_buf c) (read_buf_size c) = Some (Inr (header_type h, header_dup h, i))"
    by (rule deserialize_ack_packet_eq) (simp_all add: assms)
  define c1 where "c1 = notify_event MQTT_EVENT_PUBLISH_SUCCESS (PacketId i) (mask_pubInfo_from os i c)"
  have handle: "handle_puback_packet os c = Some (0, c1)" by (simp add: handle_puback_packet_def ack c1_def)
  have some: "\<exists>p c'. HAL_Malloc os c0 = (Some p, c') \<and> list_pub_wait_ack c' = list_pub_wait_ack c0" for c0
  proof -
    obtain p w where "os_malloc os (world c0) = (Some p, w)" using malloc [of "world c0"] by (metis option.exhaust prod.collapse)
    then have "HAL_Malloc os c0 = (Some p, c0\<lparr>world := w\<rparr>)" by (simp add: HAL_Malloc_def)
    then show ?thesis by (intro exI [of _ p] exI [of _ "c0\<lparr>world := w\<rparr>"]) simp
  qed
  have masked: "pub_node_state n = MQTT_NODE_STATE_INVALID" if "(a, n) \<in> set (list_pub_wait_ack c1)" "pub_msg_id n = i" for a n
  proof -
    obtain p c0 where c0: "HAL_Malloc os c = (Some p, c0)" using some by blast
    have "list_pub_wait_ack c \<noteq> []" using that(1) by (auto simp: c1_def mask_pubInfo_from_def)
    with that(1) c0 have "(a, n) \<in> (\<lambda>(a, j). (a, if pub_msg_id j = i then j\<lparr>pub_node_state := MQTT_NODE_STATE_INVALID\<rparr> else j)) `
        set (list_pub_wait_ack c0)"
      by (simp add: c1_def mask_pubInfo_from_def)
    then obtain j where "n = (if pub_msg_id j = i then j\<lparr>pub_node_state := MQTT_NODE_STATE_INVALID\<rparr> else j)" by fast
    with that(2) show ?thesis by (cases "pub_msg_id j = i") simp_all
  qed
  have "pub_msg_id n \<noteq> i" if r: "(a, n) \<in> set (list_pub_wait_ack (qcloud_iot_mqtt_pub_info_proc os c1))" for a n
  proof (cases "list_pub_wait_ack c1 = []")
    case True
    with r show ?thesis by (simp add: qcloud_iot_mqtt_pub_info_proc_def)
  next
    case False
    obtain p c2 where c2: "HAL_Malloc os c1 = (Some p, c2)" "list_pub_wait_ack c2 = list_pub_wait_ack c1" using some by blast
    with False r have r: "(a, n) \<in> set (list_pub_wait_ack (pub_info_loop os (rev (list_pub_wait_ack c2)) c2))"
      by (simp add: qcloud_iot_mqtt_pub_info_proc_def)
    with pub_info_loop_removes [of os "rev (list_pub_wait_ack c2)" c2] c2(2) masked show ?thesis by fastforce
  qed
  with handle show ?thesis by blast
qed

text \<open>On the executable kernel every node whose time has passed goes.\<close>

lemma sim_pub_info_loop:
  assumes "is_connected c" and "\<forall>(a, n) \<in> set nodes. \<exists>d. sim_deadline (pub_start_time n) d \<and> d \<le> sim_ms (world c)"
  shows "set (list_pub_wait_ack (pub_info_loop sim_os nodes c)) \<subseteq> {(a, n) \<in> set (list_pub_wait_ack c). a \<notin> fst ` set nodes}"
  using assms
proof (induction nodes arbitrary: c)
  case (Cons node nodes)
  obtain a n where node: "node = (a, n)" by (cases node)
  obtain d where d: "sim_deadline (pub_start_time n) d" "d \<le> sim_ms (world c)" using Cons.prems(2) node by auto
  define c1 where "c1 = (if pub_node_state n = MQTT_NODE_STATE_INVALID then c
      else notify_event MQTT_EVENT_PUBLISH_TIMEOUT (PacketId (pub_msg_id n)) (c\<lparr>world := tick 2 (world c)\<rparr>))"
  define c2 where "c2 = c1\<lparr>list_pub_wait_ack := nodes_remove (list_pub_wait_ack c) a\<rparr>"
  obtain start where st: "countdown_ms sim_os (pub_start_time n) (command_timeout_ms c) (c\<lparr>world := tick 1 (world c)\<rparr>) = (start, c\<lparr>world := tick 2 (world c)\<rparr>)"
    using sim_countdown_ms [of "pub_start_time n" "command_timeout_ms c" "c\<lparr>world := tick 1 (world c)\<rparr>"] by auto
  have loop: "pub_info_loop sim_os (node # nodes) c = pub_info_loop sim_os nodes c2"
    using Cons.prems(1) d st by (auto simp: node c1_def c2_def sim_left_ms Let_def)
  have "set (list_pub_wait_ack (pub_info_loop sim_os nodes c2)) \<subseteq> {(a, n) \<in> set (list_pub_wait_ack c2). a \<notin> fst ` set nodes}"
  proof (rule Cons.IH)
    show "is_connected c2" using Cons.prems(1) by (simp add: c2_def c1_def)
    have "sim_ms (world c) \<le> sim_ms (world c2)" by (simp add: c2_def c1_def)
    then show "\<forall>(a, n) \<in> set nodes. \<exists>d. sim_deadline (pub_start_time n) d \<and> d \<le> sim_ms (world c2)"
      using Cons.prems(2) le_trans by fastforce
  qed
  then show ?case unfolding loop by (auto simp: c2_def node nodes_remove_address)
qed auto

lemma pending_time_out:
  assumes "is_connected c"
    and "\<forall>(a, n) \<in> set (list_pub_wait_ack c). \<exists>d. sim_deadline (pub_start_time n) d \<and> d \<le> sim_ms (world c)"
  shows "list_pub_wait_ack (qcloud_iot_mqtt_pub_info_proc sim_os c) = []"
proof (cases "list_pub_wait_ack c = []")
  case False
  let ?c = "c\<lparr>world := (world c)\<lparr>sim_next := sim_next (world c) + 1\<rparr>\<rparr>"
  have "set (list_pub_wait_ack (pub_info_loop sim_os (rev (list_pub_wait_ack c)) ?c)) \<subseteq>
      {(a, n) \<in> set (list_pub_wait_ack ?c). a \<notin> fst ` set (rev (list_pub_wait_ack c))}"
    by (rule sim_pub_info_loop) (use assms in simp_all)
  also have "\<dots> = {}" by (auto intro: rev_image_eqI)
  finally have "set (list_pub_wait_ack (pub_info_loop sim_os (rev (list_pub_wait_ack c)) ?c)) = {}" by simp
  with False show ?thesis by (simp add: qcloud_iot_mqtt_pub_info_proc_def sim_malloc)
qed (simp add: qcloud_iot_mqtt_pub_info_proc_def)

section \<open>Installing a subscription\<close>

lemma find_handle_place_identical:
  "find_handle_place hs h i f = Inl j \<Longrightarrow> i \<le> j \<and> j - i < length hs \<and> check_handle_is_identical (hs ! (j - i)) h"
proof (induction hs h i f rule: find_handle_place.induct)
  case (2 g hs h i f)
  show ?case
  proof (cases "topic_filter g \<noteq> None \<and> check_handle_is_identical g h")
    case False
    with 2(3) obtain f' where "find_handle_place hs h (i + 1) f' = Inl j" 
      and "i + 1 \<le> j \<and> j - (i + 1) < length hs \<and> check_handle_is_identical (hs ! (j - (i + 1))) h"
      using 2(1,2) by (auto split: if_splits)
    then show ?thesis by (auto simp: nth_Cons' Suc_diff_Suc)
  qed (use 2(3) in auto)
qed simp

lemma find_handle_place_free:
  "find_handle_place hs h i f = Inr None \<Longrightarrow> f = None \<and> (\<forall>g \<in> set hs. topic_filter g \<noteq> None)"
proof (induction hs arbitrary: i f)
  case (Cons g hs)
  show ?case
  proof (cases "topic_filter g")
    case None
    with Cons.prems Cons.IH [of "i + 1" "if f = None then Some i else f"] show ?thesis
      by (cases f) simp_all
  next
    case (Some t)
    with Cons.prems Cons.IH [of "i + 1" f] show ?thesis by (simp split: if_split_asm)
  qed
qed simp

lemma store_sub_handle_spec:
  assumes "\<exists>g \<in> set (sub_handles c). topic_filter g = None"
  shows "\<exists>hs. store_sub_handle h c = Some (c\<lparr>sub_handles := hs\<rparr>) \<and> length hs = length (sub_handles c) \<and>
     (\<exists>g \<in> set hs. check_handle_is_identical g h \<and> handler_user_data g = handler_user_data h)"
proof (cases "find_handle_place (sub_handles c) h 0 None")
  case (Inl j)
  with find_handle_place_identical [OF this]
  have j: "j < length (sub_handles c)" "check_handle_is_identical (sub_handles c ! j) h" by simp_all
  let ?g = "(sub_handles c ! j)\<lparr>handler_user_data := handler_user_data h\<rparr>"
  have "check_handle_is_identical ?g h" using j(2) by (simp add: check_handle_is_identical_def)
  with Inl j(1) show ?thesis
    by (intro exI [of _ "(sub_handles c)[j := ?g]"]) (auto simp: store_sub_handle_def intro!: bexI [of _ ?g] set_update_memI)
next
  case (Inr r)
  obtain j where r: "r = Some j"
    using find_handle_place_free [of "sub_handles c" h 0 None] Inr assms by (cases r) auto
  then have j: "j < length (sub_handles c)" using find_handle_place_bound(2) [of "sub_handles c" h 0 None j] Inr by simp
  with Inr r show ?thesis
    by (intro exI [of _ "(sub_handles c)[j := h]"])
      (auto simp: store_sub_handle_def check_handle_is_identical_def intro!: bexI [of _ h] set_update_memI)
qed

text \<open>The callbacks of an event, as a list.\<close>

lemma notify_event_trace: "h_fp (event_handle c) = Some f \<Longrightarrow>
   trace (notify_event ev arg c) = trace c @ [EventCb f (h_context (event_handle c)) ev arg]"
  by (simp add: notify_event_def call_def)

lemma suback_spec:
  assumes buf: "read_buf c = packet_bytes h (u16_bytes i @ [q]) @ xs" "5 \<le> read_buf_size c" and type: "header_type h = msg_code SUBACK"
    and q: "q \<noteq> 0x80" and malloc: "\<And>w. fst (os_malloc os w) \<noteq> None"
    and pending: "find (\<lambda>(a, n). sub_msg_id n = i) (list_sub_wait_ack c) = Some (a, n)" "sub_handler n = sh" "topic_filter sh \<noteq> None"
    and free: "\<exists>g \<in> set (sub_handles c). topic_filter g = None"
  shows "\<exists>c'. handle_suback_packet os c = Some (QCLOUD_RET_SUCCESS, c') \<and>
     (\<exists>g \<in> set (sub_handles c'). check_handle_is_identical g sh \<and> handler_user_data g = handler_user_data sh) \<and>
     (\<forall>(a, n) \<in> set (list_sub_wait_ack c'). sub_msg_id n = i \<longrightarrow> sub_node_state n = MQTT_NODE_STATE_INVALID)"
proof -
  have "deserialize_suback_packet 1 [0, 0, 0] (read_buf c) (read_buf_size c) =
      buf_write [0, 0, 0] 0 (map unat [q]) \<bind> (\<lambda>qs. Some (Inr (i, length [q], qs)))"
    by (rule deserialize_suback_packet_eq(1)) (use buf type in simp_all)
  then have suback: "deserialize_suback_packet 1 [0, 0, 0] (read_buf c) (read_buf_size c) = Some (Inr (i, 1, [unat q, 0, 0]))"
    by (simp add: buf_write_def)
  have nack: "unat q \<noteq> 0x80"
    using q by (simp add: word_unat_eq_iff)
  obtain p w where "os_malloc os (world c) = (Some p, w)" using malloc [of "world c"] by (metis option.exhaust prod.collapse)
  then have m: "HAL_Malloc os c = (Some p, c\<lparr>world := w\<rparr>)" by (simp add: HAL_Malloc_def)
  let ?l = "map (\<lambda>(a, n). (a, if sub_msg_id n = i then n\<lparr>sub_node_state := MQTT_NODE_STATE_INVALID\<rparr> else n)) (list_sub_wait_ack c)"
  let ?c1 = "c\<lparr>world := w, list_sub_wait_ack := ?l\<rparr>"
  have ne: "list_sub_wait_ack c \<noteq> []" using pending(1) by auto
  have mask: "mask_sub_info_from os i c = (Some sh, ?c1)"
    using ne m pending by (simp add: mask_sub_info_from_def)
  obtain hs where hs: "store_sub_handle sh ?c1 = Some (?c1\<lparr>sub_handles := hs\<rparr>)"
    "\<exists>g \<in> set hs. check_handle_is_identical g sh \<and> handler_user_data g = handler_user_data sh"
    using store_sub_handle_spec [of ?c1 sh] free by auto
  let ?c2 = "notify_subscriber sh MQTT_EVENT_SUBCRIBE_SUCCESS
    (notify_event MQTT_EVENT_SUBCRIBE_SUCCESS (PacketId i) (?c1\<lparr>sub_handles := hs\<rparr>))"
  have "handle_suback_packet os c = Some (0, ?c2)"
    using suback nack mask hs(1) pending(3) by (simp add: handle_suback_packet_def)
  moreover have "\<forall>(a, n) \<in> set ?l. sub_msg_id n = i \<longrightarrow> sub_node_state n = MQTT_NODE_STATE_INVALID"
    by (auto split: if_splits)
  ultimately show ?thesis using hs(2) by (intro exI [of _ ?c2]) simp
qed

lemma delivered_trace:
  "trace (delivered m topic c) = trace c @
     (case find (handles_topic topic) (sub_handles c) of
        Some h \<Rightarrow> [MessageCb (the (message_handler h)) m (handler_user_data h)]
      | None \<Rightarrow> (case h_fp (event_handle c) of None \<Rightarrow> []
                | Some f \<Rightarrow> [EventCb f (h_context (event_handle c)) MQTT_EVENT_PUBLISH_RECVEIVED (Message m)]))"
  by (simp add: delivered_def notify_event_def call_def split: option.split)

lemma delivered_frame: "\<exists>tr. delivered m topic c = c\<lparr>trace := tr\<rparr>"
proof (cases "find (handles_topic topic) (sub_handles c)")
  case None
  then show ?thesis using notify_event_frame [of _ _ c] by (simp add: delivered_def)
qed (auto simp: delivered_def call_def)

section \<open>From one client to another\<close>

lemma receive_publish:
  assumes inv: "client_inv sim_os c" and dl: "sim_deadline timer ms" "sim_ms (world c) + 1 < ms" "ms < 2 ^ 60"
    and "in": "sim_in (world c) = packet_bytes h (publish_body QOS0 i topic payload) @ rest"
    and h: "mqtt_init_packet_header PUBLISH QOS0 dup retained = Inr h"
    and topic: "0 \<notin> set topic" "topic \<noteq> []" "length topic < MAX_SIZE_OF_CLOUD_TOPIC" and payload: "length payload \<le> 1900"
  shows "\<exists>m c'. cycle_for_read sim_os timer t c = Some (0, timer, msg_code PUBLISH, c') \<and> sim_in (world c') = rest \<and>
     message_of QOS0 dup retained i topic payload m \<and> trace c' = trace (delivered m topic c) \<and>
     (\<exists>b w. c' = c\<lparr>read_buf := b, world := w, is_ping_outstanding := 0, trace := trace c'\<rparr>)"
proof -
  let ?body = "publish_body 0 i topic payload"
  let ?p = "packet_bytes h ?body"
  have body: "length ?body \<le> 2040" using topic payload by (simp add: publish_body_def)
  then have fit: "length ?p \<le> 2048"
    using length_rem_len_bytes_range [of "length ?body"] topic payload by (auto simp: packet_bytes_def publish_body_def split: if_splits)
  have type: "header_type h = 3" using mqtt_init_packet_header_fields(1) [OF h] by simp
  obtain c1 where rd: "read_mqtt_packet sim_os timer t c = Some (0, 3, c1)" "sim_in (world c1) = rest"
    and buf: "take (length ?p) (read_buf c1) = ?p"
    using sim_read_packet [OF inv dl "in", of t] body fit type by auto
  have step: "io_step c c1"
    using wp_D3 [OF read_mqtt_packet_spec [OF sim_kernel_ok inv] rd(1)] by simp
  have inv1: "client_inv sim_os c1" by (rule io_step_inv [OF step inv])
  have buf1: "read_buf c1 = ?p @ drop (length ?p) (read_buf c1)" using buf by (metis append_take_drop_id)
  obtain m where m: "message_of 0 dup retained i topic payload m" "handle_publish_packet sim_os timer c1 = Some (0, timer, delivered m topic c1)"
    using handle_publish_spec [OF buf1 _ h _ topic, where os = sim_os and timer = timer] inv1 body by (auto simp: client_inv_def)
  obtain b w where c1: "c1 = c\<lparr>read_buf := b, world := w\<rparr>" using step by (rule io_stepE)
  have tr: "trace (delivered m topic c1) = trace (delivered m topic c)"
    unfolding delivered_trace by (simp add: c1 split: option.split)
  obtain tr where fr: "delivered m topic c1 = c1\<lparr>trace := tr\<rparr>" using delivered_frame by blast
  let ?c' = "(delivered m topic c1)\<lparr>is_ping_outstanding := 0\<rparr>"
  have "cycle_for_read sim_os timer t c = Some (0, timer, 3, ?c')"
    using rd(1) m(2) by (simp add: cycle_for_read_def known_packet_def dispatch_packet_def note_ping_def)
  with m(1) tr fr rd(2) show ?thesis by (intro exI [of _ m] exI [of _ ?c']) (auto simp: c1 intro!: exI [of _ b] exI [of _ w])
qed

section \<open>Properties\<close>

text \<open>
  C15: A PUBLISH packet in the receive buffer is handed to the application once. The message carries the
  packet's topic, payload and flags; it goes to the message handler of the first subscription whose
  filter equals or matches the topic, and to the event handler if there is none. Above QoS 0 it
  goes nowhere if its identifier is remembered; in either case the identifier is remembered and the
  acknowledgement sent (PUBACK at QoS 1, PUBREC at QoS 2).
\<close>

theorem publish_handled_once:
  assumes "read_buf c = packet_bytes h (publish_body qos i topic payload) @ xs" and "read_buf_size c \<ge> 4"
    and "mqtt_init_packet_header PUBLISH qos dup retained = Inr h" and "qos \<le> QOS2"
    and "0 \<notin> set topic" and "topic \<noteq> []" and "length topic < MAX_SIZE_OF_CLOUD_TOPIC"
    and "length (publish_body qos i topic payload) < 268435456"
  shows "\<exists>m. message_of qos dup retained i topic payload m \<and>
     handle_publish_packet os timer c =
       (if qos = QOS0 then Some (0, timer, delivered m topic c)
        else do {
          c \<leftarrow> add_packet_id_to_repeat_buf i
                 (if i \<in> set (repeat_packet_id_buf c) then c else delivered m topic c);
          send_ack os (if qos = QOS1 then PUBACK else PUBREC) i timer c
        })"
  by (rule handle_publish_spec [OF assms])

theorem publish_handled_once_witness:
  "\<exists>m. message_of 0 0 0 0 [97] [1, 2] m \<and>
     handle_publish_packet sim_os InitTimer (demo_client (packet_bytes 0x30 (publish_body 0 0 [97] [1, 2])) []) =
       Some (0, InitTimer, delivered m [97] (demo_client (packet_bytes 0x30 (publish_body 0 0 [97] [1, 2])) []))"
  using publish_handled_once [where c = "demo_client (packet_bytes 0x30 (publish_body 0 0 [97] [1, 2])) []" and h = "0x30" and qos = 0
      and i = 0 and topic = "[97]" and payload = "[1, 2]" and dup = 0 and retained = 0 and os = sim_os and timer = InitTimer]
  by (simp add: mqtt_init_packet_header_def publish_body_def)

text \<open>
  C28: A fresh identifier is remembered through at least nine more arrivals: a retransmission among the
  next ten messages above QoS 0 is recognised.
\<close>

theorem repeat_window:
  assumes "ring_ok c" and "i \<notin> set (repeat_packet_id_buf c)" and "length later \<le> 9"
  shows "\<exists>c'. add_packet_ids (i # later) c = Some c' \<and> ring_ok c' \<and> get_packet_id_in_repeat_buf i c' = uint i"
proof -
  obtain c1 where c1: "add_packet_id_to_repeat_buf i c = Some c1" "ring_ok c1"
    "current_packet_id_cnt c1 = (current_packet_id_cnt c + 1) mod 10"
    "repeat_packet_id_buf c1 = (repeat_packet_id_buf c)[current_packet_id_cnt c := i]"
    using add_packet_id_ring [OF assms(1), of i] assms(2) by auto
  have p: "current_packet_id_cnt c < 10" "current_packet_id_cnt c < length (repeat_packet_id_buf c)"
    using assms(1) by (simp_all add: ring_ok_def)
  have "(current_packet_id_cnt c + 10 - current_packet_id_cnt c1) mod 10 = 9"
    using p(1) by (auto simp: c1(3) mod_Suc)
  with add_packet_ids_keep [OF c1(2) p(1), of i later] assms(3) c1 p(2) show ?thesis
    by (auto simp: get_packet_id_in_repeat_buf_def)
qed

theorem repeat_window_witness:
  "\<exists>c'. add_packet_ids [5, 6, 7] (demo_client [] []) = Some c' \<and> get_packet_id_in_repeat_buf 5 c' = 5"
  using repeat_window [of "demo_client [] []" 5 "[6, 7]"] by (auto simp: ring_ok_def)

text \<open>
  C30: A PUBACK settles its request: once the client has handled it and looked through its list, no
  published packet with that identifier waits any more.
\<close>

theorem puback_settles_publish:
  assumes "read_buf c = packet_bytes h (u16_bytes i) @ xs" and "4 \<le> read_buf_size c" and "\<And>w. fst (os_malloc os w) \<noteq> None"
  shows "\<exists>c1. handle_puback_packet os c = Some (QCLOUD_RET_SUCCESS, c1) \<and>
     (\<forall>(a, n) \<in> set (list_pub_wait_ack (qcloud_iot_mqtt_pub_info_proc os c1)). pub_msg_id n \<noteq> i)"
  by (rule puback_settles [OF assms])

definition demo_pending :: "u8 list \<Rightarrow> nat \<Rightarrow> sim client" where
  "demo_pending rx ms = (demo_client rx [])\<lparr>world := sim_world [] ms, list_pub_wait_ack :=
     [(5, \<lparr>pub_start_time = \<lparr>end_time = \<lparr>tv_sec = 1, tv_usec = 0\<rparr>\<rparr>, pub_node_state = MQTT_NODE_STATE_NORMANL, pub_msg_id = 9, pub_buf = []\<rparr>)]\<rparr>"

theorem puback_settles_publish_witness:
  "\<exists>c1. handle_puback_packet sim_os (demo_pending (packet_bytes 0x40 (u16_bytes 9)) 0) = Some (0, c1) \<and>
     (\<forall>(a, n) \<in> set (list_pub_wait_ack (qcloud_iot_mqtt_pub_info_proc sim_os c1)). pub_msg_id n \<noteq> 9)"
  using puback_settles_publish [of "demo_pending (packet_bytes 0x40 (u16_bytes 9)) 0" "0x40" 9
      "replicate (2048 - length (packet_bytes 0x40 (u16_bytes 9))) 0" sim_os]
  by (simp add: demo_pending_def)

text \<open>
  C18: No published packet waits for ever: when the time of every waiting packet has passed and the
  client is connected, one look through the list empties it, with or without acknowledgements.
\<close>

theorem pending_publishes_time_out:
  assumes "is_connected c"
    and "\<forall>(a, n) \<in> set (list_pub_wait_ack c). \<exists>d. sim_deadline (pub_start_time n) d \<and> d \<le> sim_ms (world c)"
  shows "list_pub_wait_ack (qcloud_iot_mqtt_pub_info_proc sim_os c) = []"
  by (rule pending_time_out [OF assms])

theorem pending_publishes_time_out_witness:
  "list_pub_wait_ack (demo_pending [] 2000) \<noteq> [] \<and> list_pub_wait_ack (qcloud_iot_mqtt_pub_info_proc sim_os (demo_pending [] 2000)) = []"
proof -
  have "sim_deadline \<lparr>end_time = \<lparr>tv_sec = 1, tv_usec = 0\<rparr>\<rparr> 1000" by (simp add: sim_deadline_def tv_norm_def tv_us_def)
  then have "\<forall>(a, n) \<in> set (list_pub_wait_ack (demo_pending [] 2000)).
      \<exists>d. sim_deadline (pub_start_time n) d \<and> d \<le> sim_ms (world (demo_pending [] 2000))"
    by (auto simp: demo_pending_def intro!: exI [of _ 1000])
  with pending_publishes_time_out [of "demo_pending [] 2000"] show ?thesis by (simp add: demo_pending_def)
qed

text \<open>
  A SUBACK that grants a subscription installs it: the pending request of that identifier ends, and
  the client's table holds a handle with its filter and its callbacks. The table must have a free place.
\<close>

lemma suback_installs_subscription:
  assumes "read_buf c = packet_bytes h (u16_bytes i @ [q]) @ xs" and "5 \<le> read_buf_size c" and "header_type h = msg_code SUBACK"
    and "q \<noteq> 0x80" and "\<And>w. fst (os_malloc os w) \<noteq> None"
    and "find (\<lambda>(a, n). sub_msg_id n = i) (list_sub_wait_ack c) = Some (a, n)" and "sub_handler n = sh" and "topic_filter sh \<noteq> None"
    and "\<exists>g \<in> set (sub_handles c). topic_filter g = None"
  shows "\<exists>c'. handle_suback_packet os c = Some (QCLOUD_RET_SUCCESS, c') \<and>
     (\<exists>g \<in> set (sub_handles c'). check_handle_is_identical g sh \<and> handler_user_data g = handler_user_data sh) \<and>
     (\<forall>(a, n) \<in> set (list_sub_wait_ack c'). sub_msg_id n = i \<longrightarrow> sub_node_state n = MQTT_NODE_STATE_INVALID)"
  by (rule suback_spec [OF assms])

text \<open>
  C14: What one client publishes at QoS 0, another client delivers: if the bytes that the first one wrote
  arrive at the second one, its next read hands exactly this message to the application, by the
  rules of a PUBLISH packet above, and leaves nothing on the stream.
\<close>

theorem publish_arrives:
  assumes a: "client_inv sim_os a" "is_connected a" "sim_ms (world a) < 2 ^ 61" "sim_out (world a) = []"
      "length (list_pub_wait_ack a) < MAX_REPUB_NUM"
    and b: "client_inv sim_os b" "sim_deadline timer ms" "sim_ms (world b) + 1 < ms" "ms < 2 ^ 60"
    and topic: "0 \<notin> set topic" "topic \<noteq> []" "length topic < MAX_SIZE_OF_CLOUD_TOPIC"
    and payload: "pp_qos p = QOS0" "pp_payload p = Some payload" "length payload \<le> 1900"
    and wire: "qcloud_iot_mqtt_publish sim_os (Some topic) p a = Some (rc, p', a')" "sim_in (world b) = sim_out (world a')"
  shows "rc \<ge> 0 \<and> (\<exists>m b'. cycle_for_read sim_os timer t b = Some (0, timer, msg_code PUBLISH, b') \<and> sim_in (world b') = [] \<and>
     message_of QOS0 0 (pp_retained p) (pp_id p) topic payload m \<and> trace b' = trace (delivered m topic b))"
proof -
  have "rc = uint (pp_id p) \<and> sim_out (world a') = packet_bytes (0x30 OR (pp_retained p AND 1)) (publish_body 0 (pp_id p) topic payload)"
    using sim_publish [OF a(1-3), of topic p payload] a(4,5) topic payload wire(1) by simp
  then show ?thesis
    using receive_publish [OF b, of "0x30 OR (pp_retained p AND 1)" "pp_id p" topic payload "[]" 0 "pp_retained p" t]
      publish_header [of 0 "pp_retained p"] topic payload wire(2) by (simp; blast)
qed

theorem publish_arrives_witness:
  "\<exists>m b'. cycle_for_read sim_os \<lparr>end_time = \<lparr>tv_sec = 1, tv_usec = 0\<rparr>\<rparr> 0
      (demo_client [] (packet_bytes 0x30 (publish_body 0 0 [97] [1]))) =
      Some (0, \<lparr>end_time = \<lparr>tv_sec = 1, tv_usec = 0\<rparr>\<rparr>, 3, b') \<and>
     trace b' = [MessageCb 11 m 13]"
proof -
  let ?p = "\<lparr>pp_qos = 0, pp_retained = 0, pp_id = 0, pp_payload = Some [1]\<rparr>" and ?t = "\<lparr>end_time = \<lparr>tv_sec = 1, tv_usec = 0\<rparr>\<rparr>"
  let ?b = "demo_client [] (packet_bytes 0x30 (publish_body 0 0 [97] [1]))"
  obtain a' where a': "qcloud_iot_mqtt_publish sim_os (Some [97]) ?p (demo_client [] []) = Some (0, ?p, a')"
    "sim_out (world a') = packet_bytes 0x30 (publish_body 0 0 [97] [1])"
    using sim_publish [of "demo_client [] []" "[97]" ?p "[1]"] by auto
  have "\<exists>m b'. cycle_for_read sim_os ?t 0 ?b = Some (0, ?t, msg_code PUBLISH, b') \<and> sim_in (world b') = [] \<and>
      message_of QOS0 0 0 0 [97] [1] m \<and> trace b' = trace (delivered m [97] ?b)"
    using publish_arrives [OF _ _ _ _ _ _ _ _ _ _ _ _ _ _ _ a'(1), of ?b ?t 1000 "[1]" 0] a'(2)
    by (simp add: sim_deadline_def tv_norm_def tv_us_def)
  then show ?thesis
    by (auto simp: delivered_trace handles_topic_def demo_handle_def)
qed

end
