(* ===== verification/Mqtt_Requests.thy ===== *)
theory Mqtt_Requests
  imports Mqtt_Delivery
begin

text \<open>
  The requests of the application: packet identifiers, sending, unsubscribing and the user name of the
  CONNECT packet.
\<close>

section \<open>Packet identifiers\<close>

lemma next_packet_id_step:
  assumes "next_packet_id c \<noteq> 0"
  shows "unat (next_packet_id (snd (get_next_packet_id c))) = unat (next_packet_id c) mod 65535 + 1"
proof (cases "next_packet_id c = 65535")
  case True
  then show ?thesis by (simp add: get_next_packet_id_def)
next
  case False
  have lt: "unat (next_packet_id c) < 65536" using unsigned_less [of "next_packet_id c", where ?'a = nat] by simp
  moreover have "unat (next_packet_id c) \<noteq> 65535" using False by (simp add: word_unat_eq_iff)
  ultimately have "unat (next_packet_id c) < 65535" by simp
  with False show ?thesis by (simp add: get_next_packet_id_def Let_def unat_word_ariths(1))
qed

lemma next_packet_id_nonzero: "next_packet_id c \<noteq> 0 \<Longrightarrow> next_packet_id (snd (get_next_packet_id c)) \<noteq> 0"
  using next_packet_id_step [of c] by (auto simp: word_unat_eq_iff)

section \<open>Sending\<close>

lemma send_loop_step:
  assumes "sent < len" and "expired os timer c = (False, c1)" and "left_ms os timer c1 = (t, c2)"
    and "sent + len \<le> length (write_buf c2)"
  shows "send_loop os len timer sent rc c = net_write (take len (drop sent (write_buf c2))) (nat t) c2 \<bind>
     (\<lambda>(rc, n, c). if rc \<noteq> 0 then Some (rc, sent, c) else send_loop os len timer (sent + n) rc c)"
  using assms by (subst send_loop.simps) (simp add: buf_read_def)

section \<open>Unsubscribing\<close>

lemma drop_handles_wildcard:
  assumes "has_wildcard_level f"
  shows "\<exists>c'. drop_handles f hs c = (hs \<noteq> [], map (\<lambda>h. h\<lparr>topic_filter := None\<rparr>) hs, c')"
proof (induction hs arbitrary: c)
  case (Cons h hs)
  then obtain c' where "drop_handles f hs (notify_subscriber h MQTT_EVENT_UNSUBSCRIBE c) = (hs \<noteq> [], map (\<lambda>h. h\<lparr>topic_filter := None\<rparr>) hs, c')"
    by blast
  with assms show ?case by simp
qed simp

lemma drop_handles_exact:
  assumes "\<not> has_wildcard_level f"
  shows "\<exists>c'. drop_handles f hs c = (\<exists>h \<in> set hs. topic_filter h = Some f,
     map (\<lambda>h. if topic_filter h = Some f then h\<lparr>topic_filter := None\<rparr> else h) hs, c')"
proof (induction hs arbitrary: c)
  case (Cons h hs)
  let ?c = "if topic_filter h = Some f then notify_subscriber h MQTT_EVENT_UNSUBSCRIBE c else c"
  obtain c' where "drop_handles f hs ?c = (\<exists>h \<in> set hs. topic_filter h = Some f,
     map (\<lambda>h. if topic_filter h = Some f then h\<lparr>topic_filter := None\<rparr> else h) hs, c')"
    using Cons by blast
  with assms show ?case by (simp split: if_splits)
qed simp


lemma sub_handles_frame:
  "expired os timer c = (b, c') \<Longrightarrow> sub_handles c' = sub_handles c"
  "countdown_ms os timer t c = (timer', c') \<Longrightarrow> sub_handles c' = sub_handles c"
  "HAL_Malloc os c = (p, c') \<Longrightarrow> sub_handles c' = sub_handles c"
  "get_next_packet_id c = (i, c') \<Longrightarrow> sub_handles c' = sub_handles c"
  "push_sub_info_to os len i type h c = Some (r, c') \<Longrightarrow> sub_handles c' = sub_handles c"
  "send_mqtt_packet os len timer c = Some (rc, c') \<Longrightarrow> sub_handles c' = sub_handles c"
  by (auto simp: env_defs get_next_packet_id_def push_sub_info_to_def bind_Some_iff
      split: prod.splits option.splits if_splits dest: send_fields)

lemma drop_handles_spec':
  "\<exists>c'. drop_handles f hs c = (hs \<noteq> [] \<and> has_wildcard_level f \<or> (\<exists>h \<in> set hs. topic_filter h = Some f),
     map (\<lambda>h. if topic_filter h = Some f \<or> has_wildcard_level f then h\<lparr>topic_filter := None\<rparr> else h) hs, c')"
  using drop_handles_wildcard [of f hs c] drop_handles_exact [of f hs c] by (cases "has_wildcard_level f") auto

lemma unsubscribe_table:
  assumes "0 < length f" and "length f \<le> MAX_SIZE_OF_CLOUD_TOPIC"
  shows "wp (qcloud_iot_mqtt_unsubscribe os (Some f) c) (\<lambda>(rc, c').
     sub_handles c' = map (\<lambda>h. if topic_filter h = Some f \<or> has_wildcard_level f then h\<lparr>topic_filter := None\<rparr> else h) (sub_handles c) \<and>
     (\<not> (sub_handles c \<noteq> [] \<and> has_wildcard_level f \<or> (\<exists>h \<in> set (sub_handles c). topic_filter h = Some f)) \<longrightarrow>
       rc = QCLOUD_ERR_MQTT_UNSUB_FAIL \<and> world c' = world c))"
proof -
  obtain c0 where d: "drop_handles f (sub_handles c) c =
      (sub_handles c \<noteq> [] \<and> has_wildcard_level f \<or> (\<exists>h \<in> set (sub_handles c). topic_filter h = Some f),
       map (\<lambda>h. if topic_filter h = Some f \<or> has_wildcard_level f then h\<lparr>topic_filter := None\<rparr> else h) (sub_handles c), c0)"
    using drop_handles_spec' by blast
  have w: "world c0 = world c" using drop_handles_spec [OF d] by auto
  define some where "some \<longleftrightarrow> sub_handles c \<noteq> [] \<and> has_wildcard_level f \<or> (\<exists>h \<in> set (sub_handles c). topic_filter h = Some f)"
  define hs where "hs = map (\<lambda>h. if topic_filter h = Some f \<or> has_wildcard_level f then h\<lparr>topic_filter := None\<rparr> else h) (sub_handles c)"
  have d': "drop_handles f (sub_handles c) c = (some, hs, c0)" using d by (simp only: some_def hs_def)
  have "wp (qcloud_iot_mqtt_unsubscribe os (Some f) c) (\<lambda>(rc, c'). sub_handles c' = hs \<and>
      (\<not> some \<longrightarrow> rc = QCLOUD_ERR_MQTT_UNSUB_FAIL \<and> world c' = world c))"
    unfolding qcloud_iot_mqtt_unsubscribe_def Let_def option.case d' prod.case
    using assms w
    by (auto split: option.split sum.split prod.split intro!: wp_I dest!: sub_handles_frame)
  then show ?thesis unfolding some_def hs_def .
qed

section \<open>Properties\<close>

text \<open>
  C29: Packet identifiers run through 1 to 65535 and start again: after \<open>k\<close> requests from a non-zero
  identifier the identifier is the \<open>k\<close>-th one after it on this cycle. So none is ever zero and
  65535 requests in a row have different identifiers.
\<close>

theorem packet_id_cycle:
  assumes "next_packet_id c \<noteq> 0"
  shows "unat (next_packet_id (((\<lambda>c. snd (get_next_packet_id c)) ^^ k) c)) = (unat (next_packet_id c) - 1 + k) mod 65535 + 1"
  using assms
proof (induction k arbitrary: c)
  case 0
  have "unat (next_packet_id c) < 65536" using unsigned_less [of "next_packet_id c", where ?'a = nat] by simp
  moreover have "0 < unat (next_packet_id c)" using 0 by (simp add: unat_gt_0)
  ultimately show ?case by simp
next
  case (Suc k)
  let ?n = "unat (next_packet_id c)"
  have "0 < ?n" using Suc.prems by (simp add: unat_gt_0)
  have "unat (next_packet_id (((\<lambda>c. snd (get_next_packet_id c)) ^^ Suc k) c)) = (?n mod 65535 + k) mod 65535 + 1"
    using Suc.IH [OF next_packet_id_nonzero [OF Suc.prems]] next_packet_id_step [OF Suc.prems]
    by (simp add: funpow_Suc_right del: funpow.simps)
  also have "(?n mod 65535 + k) mod 65535 = (?n - 1 + Suc k) mod 65535" using \<open>0 < ?n\<close> by (simp add: mod_simps)
  finally show ?case .
qed

theorem packet_id_cycle_witness:
  "unat (next_packet_id (((\<lambda>c. snd (get_next_packet_id c)) ^^ 65534) (demo_client [] []))) = 6"
  using packet_id_cycle [of "demo_client [] []" 65534] by (simp del: funpow.simps)

text \<open>
  C37: If the network takes only the first \<open>k\<close> bytes of a packet, the sender offers it \<open>len\<close> more bytes
  instead of the remaining \<open>len - k\<close>; when these are taken, \<open>k\<close> bytes beyond the packet have gone
  out and the result is success.
\<close>

theorem send_after_partial_write:
  assumes "0 < k" and "k < len" and "len < write_buf_size c" and "write_buf_size c = length (write_buf c)" and "k + len \<le> length (write_buf c)"
    and "expired os timer c = (False, c1)" and "left_ms os timer c1 = (t, c2)"
    and "net_write (take len (write_buf c)) (nat t) c2 = Some (0, k, c3)"
    and "expired os timer c3 = (False, c4)" and "left_ms os timer c4 = (t', c5)"
    and "net_write (take len (drop k (write_buf c))) (nat t') c5 = Some (0, len, c6)"
  shows "send_mqtt_packet os len timer c = Some (QCLOUD_RET_SUCCESS, c6)"
proof -
  have wb: "write_buf c2 = write_buf c" "write_buf c5 = write_buf c"
    using assms(6-10) by (auto simp: env_defs net_write_def bind_Some_iff split: prod.splits)
  have "send_loop os len timer 0 QCLOUD_ERR_FAILURE c = send_loop os len timer k 0 c3"
    using send_loop_step [OF _ assms(6,7), of 0 len] assms(2,3,4,8) wb by simp
  also have "\<dots> = send_loop os len timer (k + len) 0 c6"
    using send_loop_step [OF assms(2,9,10)] assms(5,11) wb by simp
  also have "\<dots> = Some (0, k + len, c6)" by (subst send_loop.simps) simp
  finally show ?thesis using assms(3) by (simp add: send_mqtt_packet_def)
qed

text \<open>A kernel whose first \<^verbatim>\<open>send\<close> takes three bytes and whose second one fails.\<close>

definition stutter_os :: "sim os" where
  "stutter_os = sim_os\<lparr>os_send := (\<lambda>fd bs w.
     if sim_next w = 2 then (SendErr, w\<lparr>sim_next := 3\<rparr>)
     else if sim_next w = 1 then (SendOk (min 3 (length bs)), w\<lparr>sim_next := 2, sim_out := sim_out w @ take 3 bs\<rparr>)
     else (SendOk (length bs), w\<lparr>sim_out := sim_out w @ bs\<rparr>))\<rparr>"

text \<open>
  Unsubscribing from a filter without wildcard levels takes out exactly the subscriptions of that
  filter; with a wildcard level (\<open>/#\<close> or \<open>/+\<close> anywhere in it) it takes out every subscription of the
  client. With none to take out it fails, and the outside world is not touched.
\<close>

lemma unsubscribe_drops:
  assumes "0 < length f" and "length f \<le> MAX_SIZE_OF_CLOUD_TOPIC" and "qcloud_iot_mqtt_unsubscribe os (Some f) c = Some (rc, c')"
  shows "sub_handles c' = map (\<lambda>h. if topic_filter h = Some f \<or> has_wildcard_level f then h\<lparr>topic_filter := None\<rparr> else h) (sub_handles c) \<and>
     (\<not> (sub_handles c \<noteq> [] \<and> has_wildcard_level f \<or> (\<exists>h \<in> set (sub_handles c). topic_filter h = Some f)) \<longrightarrow>
       rc = QCLOUD_ERR_MQTT_UNSUB_FAIL \<and> world c' = world c)"
  using wp_D2 [OF unsubscribe_table [OF assms(1,2)] assms(3)] .

text \<open>
  The user name of the CONNECT packet loses the end of its expiry time: the array that
  \<^verbatim>\<open>_serialize_connect_packet\<close> allocates is two bytes short, so that \<open>9223372036854775807\<close> becomes
  \<open>92233720368547758\<close>, whatever the client and the connection identifier are.
\<close>

lemma username_truncated:
  assumes "length conn = 5"
  shows "connect_username cid conn = cid @ cstr '';21010406;'' @ conn @ cstr '';92233720368547758''"
  using assms by (simp add: connect_username_def snprintf_def cstr_def)

lemma stutter_calls [simp]:
  "os_gettimeofday stutter_os w = (\<lparr>tv_sec = int (sim_ms w div 1000), tv_usec = int (sim_ms w mod 1000) * 1000\<rparr>, tick 1 w)"
  "os_select_write stutter_os fd tv w = (SelReady, w)"
  "os_send stutter_os fd bs w =
     (if sim_next w = 2 then (SendErr, w\<lparr>sim_next := 3\<rparr>)
      else if sim_next w = 1 then (SendOk (min 3 (length bs)), w\<lparr>sim_next := 2, sim_out := sim_out w @ take 3 bs\<rparr>)
      else (SendOk (length bs), w\<lparr>sim_out := sim_out w @ bs\<rparr>))"
  by (simp_all add: stutter_os_def sim_os_def)

lemmas stutter_eval = tcp_write_step_def linux_get_time_ms_def tick_def linux_time_left_def

lemma stutter_write_1:
  "HAL_TCP_Write stutter_os 3 [1, 2, 3, 4, 5] 999 \<lparr>sim_in = [], sim_out = [], sim_ms = 2, sim_next = 1\<rparr> =
     Some (0, 3, \<lparr>sim_in = [], sim_out = [1, 2, 3], sim_ms = 6, sim_next = 3\<rparr>)"
  by (simp add: HAL_TCP_Write_def linux_get_time_ms_def tick_def, subst tcp_write_loop.simps, simp add: stutter_eval,
      subst tcp_write_loop.simps, simp add: stutter_eval)

lemma stutter_write_2:
  "HAL_TCP_Write stutter_os 3 [4, 5, 6, 7, 8] 993 \<lparr>sim_in = [], sim_out = [1, 2, 3], sim_ms = 8, sim_next = 3\<rparr> =
     Some (0, 5, \<lparr>sim_in = [], sim_out = [1, 2, 3, 4, 5, 6, 7, 8], sim_ms = 10, sim_next = 3\<rparr>)"
  by (simp add: HAL_TCP_Write_def linux_get_time_ms_def tick_def, subst tcp_write_loop.simps, simp add: stutter_eval)

theorem send_after_partial_write_witness:
  "\<exists>c c'. take 5 (write_buf c) = [1, 2, 3, 4, 5] \<and> sim_out (world c) = [] \<and>
     send_mqtt_packet stutter_os 5 \<lparr>end_time = \<lparr>tv_sec = 1, tv_usec = 0\<rparr>\<rparr> c = Some (0, c') \<and>
     sim_out (world c') = [1, 2, 3, 4, 5, 6, 7, 8]"
proof -
  define c where "c = (demo_client [] [])\<lparr>write_buf := [1, 2, 3, 4, 5, 6, 7, 8, 9], write_buf_size := 9,
    network_stack := (snd (qcloud_iot_mqtt_network_init stutter_os null_network))\<lparr>nw_handle := 3\<rparr>\<rparr>"
  let ?w = "\<lambda>out ms n. c\<lparr>world := \<lparr>sim_in = [], sim_out = out, sim_ms = ms, sim_next = n\<rparr>\<rparr>"
  let ?t = "\<lparr>end_time = \<lparr>tv_sec = 1, tv_usec = 0\<rparr>\<rparr>"
  note eval = c_def sim_world_def tick_def env_defs HAL_Timer_expired_def HAL_Timer_remain_def timersub_def
    net_write_def qcloud_iot_mqtt_network_init_def qcloud_iot_network_init_def network_tcp_write_def
  have "send_mqtt_packet stutter_os 5 ?t c = Some (0, ?w [1, 2, 3, 4, 5, 6, 7, 8] 10 3)"
  proof (rule send_after_partial_write [where k = 3])
    show "expired stutter_os ?t c = (False, ?w [] 1 1)" by (simp add: eval)
    show "left_ms stutter_os ?t (?w [] 1 1) = (999, ?w [] 2 1)" by (simp add: eval)
    show "net_write (take 5 (write_buf c)) (nat 999) (?w [] 2 1) = Some (0, 3, ?w [1, 2, 3] 6 3)"
      by (simp add: eval stutter_write_1 [unfolded One_nat_def])
    show "expired stutter_os ?t (?w [1, 2, 3] 6 3) = (False, ?w [1, 2, 3] 7 3)" by (simp add: eval)
    show "left_ms stutter_os ?t (?w [1, 2, 3] 7 3) = (993, ?w [1, 2, 3] 8 3)" by (simp add: eval)
    show "net_write (take 5 (drop 3 (write_buf c))) (nat 993) (?w [1, 2, 3] 8 3) = Some (0, 5, ?w [1, 2, 3, 4, 5, 6, 7, 8] 10 3)"
      by (simp add: eval stutter_write_2)
  qed (simp_all add: c_def)
  then show ?thesis
    by (intro exI [of _ c] exI [of _ "?w [1, 2, 3, 4, 5, 6, 7, 8] 10 3"]) (simp add: c_def)
qed

end
