(* ===== verification/Mqtt_Connection.thy ===== *)
theory Mqtt_Connection
  imports Mqtt_Requests
begin

text \<open>
  What becomes of the connection: connecting, losing the connection, taking it up again and the main
  loop \<^verbatim>\<open>qcloud_iot_mqtt_yield\<close>.
\<close>

section \<open>The state of the connection\<close>

text \<open>
  The part of the client that says whether and how it is connected, without the random connection
  identifier. Handling packets and serving
  requests leaves it alone; only connecting, disconnecting and the reconnection logic change it.
\<close>

definition link :: "'w client \<Rightarrow> bool \<times> bool \<times> 'w Network \<times> MQTTConnectParams \<times> u32 \<times> u32" where
  "link c = (is_connected c, was_manually_disconnected c, network_stack c, (options c)\<lparr>conn_id := []\<rparr>,
     current_reconnect_wait_interval c, counter_network_disconnected c)"

lemma link_frame [simp]:
  "link (c\<lparr>world := w\<rparr>) = link c" "link (c\<lparr>trace := t\<rparr>) = link c" "link (c\<lparr>read_buf := b\<rparr>) = link c"
  "link (c\<lparr>write_buf := b\<rparr>) = link c" "link (c\<lparr>list_pub_wait_ack := pl\<rparr>) = link c" "link (c\<lparr>list_sub_wait_ack := sl\<rparr>) = link c"
  "link (c\<lparr>sub_handles := hs\<rparr>) = link c" "link (c\<lparr>is_ping_outstanding := n\<rparr>) = link c" "link (c\<lparr>ping_timer := ti\<rparr>) = link c"
  "link (c\<lparr>reconnect_delay_timer := ti\<rparr>) = link c" "link (c\<lparr>next_packet_id := i\<rparr>) = link c"
  "link (c\<lparr>repeat_packet_id_buf := rb\<rparr>) = link c" "link (c\<lparr>current_packet_id_cnt := k\<rparr>) = link c"
  by (simp_all add: link_def)

lemma link_conn_id_field [simp]: "link (c\<lparr>options := (options c)\<lparr>conn_id := x\<rparr>\<rparr>) = link c"
  by (simp add: link_def)

lemma link_D:
  assumes "link c' = link c"
  shows "is_connected c' = is_connected c" "was_manually_disconnected c' = was_manually_disconnected c"
    "network_stack c' = network_stack c" "current_reconnect_wait_interval c' = current_reconnect_wait_interval c"
    "counter_network_disconnected c' = counter_network_disconnected c"
    "auto_connect_enable (options c') = auto_connect_enable (options c)" "keep_alive_interval (options c') = keep_alive_interval (options c)"
proof -
  from assms have "(options c')\<lparr>conn_id := []\<rparr> = (options c)\<lparr>conn_id := []\<rparr>" by (simp add: link_def)
  from arg_cong [OF this, of auto_connect_enable] arg_cong [OF this, of keep_alive_interval]
  show "auto_connect_enable (options c') = auto_connect_enable (options c)" "keep_alive_interval (options c') = keep_alive_interval (options c)"
    by simp_all
qed (use assms in \<open>simp_all add: link_def\<close>)

lemma link_notify [simp]:
  "link (notify_event ev arg c) = link c" "link (notify_subscriber h ev c) = link c" "link (call cb c) = link c"
  using notify_event_frame [of ev arg c] notify_subscriber_frame [of h ev c] by (auto simp: call_def)

lemma link_timers:
  "expired os timer c = (b, c') \<Longrightarrow> link c' = link c"
  "countdown_ms os timer t c = (timer', c') \<Longrightarrow> link c' = link c"
  "countdown os timer t c = (timer', c') \<Longrightarrow> link c' = link c"
  "left_ms os timer c = (i, c') \<Longrightarrow> link c' = link c"
  "HAL_Malloc os c = (p, c') \<Longrightarrow> link c' = link c"
  "get_next_packet_id c = (j, c') \<Longrightarrow> link c' = link c"
  by (auto simp: env_defs get_next_packet_id_def split: prod.splits)

lemma link_conn_id: "get_next_conn_id os c = (xs, c') \<Longrightarrow> link c' = link c"
  using get_next_conn_id_frame [of os c] by auto

lemma link_send: "send_mqtt_packet os len timer c = Some (rc, c') \<Longrightarrow> link c' = link c"
  using wp_D2 [OF send_mqtt_packet_frame, of os len timer c rc c'] by auto

lemma link_mask_sub: "mask_sub_info_from os i c = (h, c') \<Longrightarrow> link c' = link c"
  by (auto simp: mask_sub_info_from_def link_timers split: option.split_asm prod.split_asm if_split_asm)

lemma link_push:
  "wp (push_sub_info_to os len i type h c) (\<lambda>(r, c'). link c' = link c)"
  "wp (mask_push_pubInfo_to os len i c) (\<lambda>(r, c'). link c' = link c)"
  unfolding push_sub_info_to_def mask_push_pubInfo_to_def Let_def
  by (auto split: option.split prod.split intro!: wp_I simp: link_timers)

lemma link_store: "store_sub_handle h c = Some c' \<Longrightarrow> link c' = link c"
  by (auto simp: store_sub_handle_def split: option.split_asm sum.split_asm)

lemma link_add_id: "add_packet_id_to_repeat_buf i c = Some c' \<Longrightarrow> link c' = link c"
  by (auto simp: add_packet_id_to_repeat_buf_def bind_Some_iff split: if_split_asm)

lemmas link_env = link_timers link_conn_id link_send link_mask_sub link_push [THEN wp_D2] link_store link_add_id

lemma link_mask_pub [simp]: "link (mask_pubInfo_from os i c) = link c"
  by (auto simp: mask_pubInfo_from_def link_env split: option.splits prod.splits)


lemma link_handlers:
  "wp (handle_puback_packet os c) (\<lambda>(rc, c'). link c' = link c)"
  "wp (handle_suback_packet os c) (\<lambda>(rc, c'). link c' = link c)"
  "wp (handle_unsuback_packet os c) (\<lambda>(rc, c'). link c' = link c)"
  "wp (deliver_message t n m c) (\<lambda>(rc, c'). link c' = link c)"
  "wp (send_ack os type i timer c) (\<lambda>(rc, timer', c'). link c' = link c)"
proof -
  show "wp (handle_puback_packet os c) (\<lambda>(rc, c'). link c' = link c)"
    by (auto simp: handle_puback_packet_def Let_def split: sum.split intro!: wp_I)
  show "wp (handle_suback_packet os c) (\<lambda>(rc, c'). link c' = link c)"
    unfolding handle_suback_packet_def Let_def
    by (auto split: sum.split option.split intro!: wp_I dest!: link_env)
  show "wp (handle_unsuback_packet os c) (\<lambda>(rc, c'). link c' = link c)"
    by (auto simp: handle_unsuback_packet_def split: sum.split option.split intro!: wp_I dest!: link_env)
  show "wp (deliver_message t n m c) (\<lambda>(rc, c'). link c' = link c)"
    by (auto simp: deliver_message_def Let_def split: option.split intro!: wp_I)
  show "wp (send_ack os type i timer c) (\<lambda>(rc, timer', c'). link c' = link c)"
    by (auto simp: send_ack_def Let_def split: sum.split intro!: wp_I dest!: link_env)
qed

lemmas link_handlers_D = link_handlers(1) [THEN wp_D2] link_handlers(2) [THEN wp_D2] link_handlers(3) [THEN wp_D2]
  link_handlers(4) [THEN wp_D2] link_handlers(5) [THEN wp_D3]

lemma link_publish: "wp (handle_publish_packet os timer c) (\<lambda>(rc, timer', c'). link c' = link c)"
  unfolding handle_publish_packet_def Let_def
  by (auto split: sum.split if_splits intro!: wp_I dest!: link_handlers_D link_env)

lemma link_pubrec: "wp (handle_pubrec_packet os timer c) (\<lambda>(rc, timer', c'). link c' = link c)"
  unfolding handle_pubrec_packet_def by (auto split: sum.split intro!: wp_I dest!: link_handlers_D)

lemma link_note_ping [simp]: "link (note_ping os t c) = link c"
  by (auto simp: note_ping_def handle_pingresp_packet_def Let_def link_env split: prod.split)

lemma link_dispatch: "wp (dispatch_packet os timer t c) (\<lambda>(rc, timer', c'). link c' = link c)"
  unfolding dispatch_packet_def
  by (auto intro!: wp_I dest!: link_handlers_D link_publish [THEN wp_D3] link_pubrec [THEN wp_D3])

lemma io_step_link: "io_step c c' \<Longrightarrow> link c' = link c"
  by (erule io_stepE) simp

lemma link_cycle:
  assumes "kernel_ok os" and "client_inv os c"
  shows "wp (cycle_for_read os timer t c) (\<lambda>(rc, timer', t', c'). client_inv os c' \<and> link c' = link c)"
proof -
  have "link c1 = link c" if "read_mqtt_packet os timer t c = Some (rc, t1, c1)" for rc t1 c1
    using wp_D3 [OF read_mqtt_packet_spec [OF assms] that] by (auto intro: io_step_link)
  then have "wp (cycle_for_read os timer t c) (\<lambda>(rc, timer', t', c'). link c' = link c)"
    unfolding cycle_for_read_def
    by (auto intro!: wp_I dest!: link_dispatch [THEN wp_D3])
  with cycle_for_read_wp [OF assms] show ?thesis by (auto simp: wp_def)
qed

lemma link_wait_for_read:
  assumes "wait_for_read os pt timer rpt c = Some r" and "kernel_ok os" and "client_inv os c"
  shows "link (snd (snd r)) = link c"
proof -
  let ?P = "\<lambda>os pt timer rpt c r. kernel_ok os \<longrightarrow> client_inv os c \<longrightarrow> link (snd (snd r)) = link c"
  have "?P os pt timer rpt c r"
  proof (rule wait_for_read.raw_induct [where P = ?P, OF _ assms(1)])
    fix loop and os :: "'a os" and pt timer rpt and c :: "'a client" and r
    assume IH: "\<And>os pt timer rpt c r. loop os pt timer rpt c = Some r \<Longrightarrow> ?P os pt timer rpt c r"
      and eq: "(let (e, c) = expired os timer c
        in if e then Some (QCLOUD_ERR_MQTT_REQUEST_TIMEOUT, timer, c)
           else do {
             (rc, timer, read_packet_type, c) \<leftarrow> cycle_for_read os timer rpt c;
             if rc = QCLOUD_RET_SUCCESS \<and> read_packet_type \<noteq> pt
             then loop os pt timer read_packet_type c else Some (rc, timer, c)
           }) = Some r"
    show "?P os pt timer rpt c r"
    proof (intro impI)
      assume k: "kernel_ok os" and inv: "client_inv os c"
      obtain e c1 where e: "expired os timer c = (e, c1)" by fastforce
      with inv have inv1: "client_inv os c1" and l1: "link c1 = link c" by (simp_all add: env_inv link_env)
      show "link (snd (snd r)) = link c"
        using eq e l1 wp_D4 [OF link_cycle [OF k inv1]] k
        by (auto simp: bind_Some_iff split: if_splits dest!: IH)
    qed
  qed
  with assms show ?thesis by blast
qed

section \<open>Connecting\<close>

lemma writer_progress:
  "mqtt_write_char buf p x = Some (b, q) \<Longrightarrow> q = p + 1"
  "mqtt_write_uint_16 buf p i = Some (b, q) \<Longrightarrow> q = p + 2"
  "mqtt_write_utf8_string buf p s = Some (b, q) \<Longrightarrow> q = p + 2 + length s"
  by (auto simp: mqtt_write_char_emit mqtt_write_uint_16_emit mqtt_write_utf8_string_emit emit_def bind_Some_iff)

lemma link_serialize_connect:
  "wp (serialize_connect_packet os c) (\<lambda>(r, c'). link c' = link c \<and> r \<noteq> Inr 0 \<and> r \<noteq> Inl 0)"
proof -
  have header: "mqtt_init_packet_header CONNECT QOS0 0 0 = Inr 0x10" by (simp add: mqtt_init_packet_header_def)
  show ?thesis
    unfolding serialize_connect_packet_def Let_def header sum.case
    by (auto split: option.split sum.split prod.split intro!: wp_I simp: link_env dest!: writer_progress)
qed

lemma net_connect_state:
  "net_connect c = (rc, c') \<Longrightarrow> is_connected c' = is_connected c \<and> current_reconnect_wait_interval c' = current_reconnect_wait_interval c
     \<and> counter_network_disconnected c' = counter_network_disconnected c \<and> options c' = options c"
  by (auto simp: net_connect_def Let_def split: prod.splits)

text \<open>What connecting leaves, and that it does not touch the reconnection schedule.\<close>

definition conn_outcome :: "'w client \<Rightarrow> int \<Rightarrow> 'w client \<Rightarrow> bool" where
  "conn_outcome c rc c' \<longleftrightarrow>
     (rc = QCLOUD_RET_SUCCESS \<longleftrightarrow> is_connected c') \<and>
     (is_connected c' \<longrightarrow> \<not> was_manually_disconnected c' \<and> is_ping_outstanding c' = 0) \<and>
     current_reconnect_wait_interval c' = current_reconnect_wait_interval c \<and>
     counter_network_disconnected c' = counter_network_disconnected c"

lemma connack_code_not_success: "connack_code x \<noteq> 0"
  by (simp add: connack_code_def)

lemma decode_rem_len_error:
  "decode_packet_rem_len_from_buf_read buf p v m k = Some (Inl rc) \<Longrightarrow> rc = QCLOUD_ERR_MQTT_PACKET_READ"
proof (induction buf p v m k rule: decode_packet_rem_len_from_buf_read.induct)
  case (1 buf p v m k)
  from 1(2) show ?case
    by (subst (asm) decode_packet_rem_len_from_buf_read.simps)
      (auto simp: Let_def bind_Some_iff split: if_splits dest: 1(1) [simplified])
qed

lemma deserialize_connack_not_success:
  "wp (deserialize_connack_packet buf n) (\<lambda>r. r \<noteq> Inl 0 \<and> (\<forall>f. r \<noteq> Inr (f, 0)))"
  unfolding deserialize_connack_packet_def Let_def mqtt_read_packet_rem_len_form_buf_def
  by (auto split: sum.split intro!: wp_I dest!: decode_rem_len_error simp: connack_code_not_success)

lemma mqtt_connect_outcome:
  assumes k: "kernel_ok os" and "client_inv os c" and "\<not> is_connected c"
  shows "wp (mqtt_connect os params c) (\<lambda>(rc, c'). conn_outcome c rc c')"
proof -
  obtain timer c1 where c1: "countdown_ms os InitTimer (command_timeout_ms c) c = (timer, c1)" by fastforce
  let ?c1 = "c1\<lparr>options := copy_connect_params (options c1) params\<rparr>"
  obtain rc c2 where c2: "net_connect ?c1 = (rc, c2)" by fastforce
  have same: "is_connected c2 = is_connected c" "current_reconnect_wait_interval c2 = current_reconnect_wait_interval c"
    "counter_network_disconnected c2 = counter_network_disconnected c"
    using link_timers(2) [OF c1] net_connect_state [OF c2] by (auto dest: link_D)
  have inv2: "client_inv os c2" using assms(2) c1 c2 by (simp add: env_inv net_connect_inv)
  define rest where "rest c5 = deserialize_connack_packet (read_buf c5) (read_buf_size c5) \<bind> (\<lambda>r. case r of Inl rc \<Rightarrow> Some (rc, c5)
      | Inr (sp, code) \<Rightarrow> if code \<noteq> QCLOUD_RET_MQTT_CONNACK_CONNECTION_ACCEPTED then Some (code, c5)
          else let c = set_client_conn_state True c5; c = c\<lparr>was_manually_disconnected := False, is_ping_outstanding := 0\<rparr>;
                   (t, c) = countdown os (ping_timer c) (unat (keep_alive_interval (options c))) c
               in Some (QCLOUD_RET_SUCCESS, c\<lparr>ping_timer := t\<rparr>))" for c5 :: "'a client"
  define after where "after len c3 = send_mqtt_packet os len timer c3 \<bind> (\<lambda>(rc, c4). if rc \<noteq> 0 then Some (rc, c4)
        else wait_for_read os (msg_code CONNACK) timer 0 c4 \<bind> (\<lambda>(rc, t, c5). if rc \<noteq> 0 then Some (rc, c5) else rest c5))" for len c3
  have eq: "mqtt_connect os params c = (if rc \<noteq> 0 then Some (rc, c2) else serialize_connect_packet os c2 \<bind> (\<lambda>(r, c3). case r of
      Inl rc \<Rightarrow> Some (rc, c3)
    | Inr len \<Rightarrow> if len = 0 then Some (0, c3) else after len c3))"
    by (simp only: mqtt_connect_def Let_def c1 c2 prod.case rest_def after_def)
  have fail: "conn_outcome c rc' c'" if "rc' \<noteq> 0" "link c' = link c2" for rc' c'
    using that same assms(3) link_D [OF that(2)] by (simp add: conn_outcome_def)
  have rest: "wp (rest c5) (\<lambda>(rc, c'). conn_outcome c rc c')" if "link c5 = link c2" for c5
    unfolding rest_def using fail [OF _ that] same link_D [OF that]
    by (auto split: sum.split prod.split intro!: wp_mono [OF deserialize_connack_not_success]
        simp: conn_outcome_def set_client_conn_state_def countdown_def Let_def)
  have ser: "wp (serialize_connect_packet os c2) (\<lambda>(r, c3). link c3 = link c2 \<and> client_inv os c3 \<and> r \<noteq> Inr 0 \<and> r \<noteq> Inl 0)"
    using link_serialize_connect [of os c2] serialize_connect_inv [OF inv2, of os] by (auto simp: wp_def)
  have mid: "wp (after len c3) (\<lambda>(rc, c'). conn_outcome c rc c')" if "link c3 = link c2" "client_inv os c3" for len c3
    unfolding after_def
    using that fail rest by (auto intro!: wp_I [of "send_mqtt_packet _ _ _ _"] wp_I [of "wait_for_read _ _ _ _ _"]
        dest!: link_wait_for_read [OF _ k] simp: send_inv link_send)
  show ?thesis
    unfolding eq using fail [of rc c2] fail mid
    by (auto split: sum.split intro!: wp_mono [OF ser])
qed

lemma net_disconnect_state:
  "is_connected (net_disconnect c) = is_connected c" "current_reconnect_wait_interval (net_disconnect c) = current_reconnect_wait_interval c"
  "counter_network_disconnected (net_disconnect c) = counter_network_disconnected c" "trace (net_disconnect c) = trace c"
  "event_handle (net_disconnect c) = event_handle c" "was_manually_disconnected (net_disconnect c) = was_manually_disconnected c"
  "is_ping_outstanding (net_disconnect c) = is_ping_outstanding c"
  by (auto simp: net_disconnect_def Let_def split: prod.splits)

lemma net_disconnect_handle: "net_ok os (network_stack c) \<Longrightarrow> nw_handle (network_stack (net_disconnect c)) = 0"
  by (auto simp: net_disconnect_def net_ok_def network_tcp_disconnect_def Let_def split: prod.splits)

lemma client_inv_net: "client_inv os c \<Longrightarrow> net_ok os (network_stack c)"
  by (simp add: client_inv_def)

lemma connect_outcome:
  assumes k: "kernel_ok os" and inv: "client_inv os c" and off: "\<not> is_connected c"
  shows "wp (qcloud_iot_mqtt_connect os params c)
     (\<lambda>(rc, c'). conn_outcome c rc c' \<and> client_inv os c' \<and> (rc \<noteq> 0 \<longrightarrow> nw_handle (network_stack c') = 0))"
proof -
  have "wp (mqtt_connect os params c) (\<lambda>(rc, c'). conn_outcome c rc c' \<and> client_inv os c')"
    using mqtt_connect_outcome [OF assms] mqtt_connect_inv [OF k inv] by (auto simp: wp_def)
  then show ?thesis
    unfolding qcloud_iot_mqtt_connect_def using off
    by (auto simp: get_client_conn_state_def conn_outcome_def net_disconnect_state net_disconnect_inv
        intro: net_disconnect_handle dest: client_inv_net elim!: wp_mono)
qed

section \<open>Subscribing again\<close>

lemma link_subscribe: "wp (qcloud_iot_mqtt_subscribe os t p c) (\<lambda>(rc, c'). link c' = link c)"
  unfolding qcloud_iot_mqtt_subscribe_def Let_def
  by (auto split: option.split sum.split prod.split intro!: wp_I simp: link_timers dest!: link_push [THEN wp_D2] link_send)

lemma link_resubscribe_loop: "wp (resubscribe_loop os is c) (\<lambda>(rc, c'). link c' = link c)"
proof (induction "is" arbitrary: c)
  case (Cons i "is")
  have "wp (resubscribe_loop os is c') (\<lambda>(rc, c''). link c'' = link c)" if "link c' = link c" for c'
    using Cons.IH [of c'] that by simp
  then show ?case
    by (auto simp: Let_def split: option.split intro!: wp_I [of "buf_get _ _"] wp_mono [OF link_subscribe])
qed simp

lemma attempt_reconnect_outcome:
  assumes k: "kernel_ok os" and inv: "client_inv os c" and off: "\<not> is_connected c"
  shows "wp (qcloud_iot_mqtt_attempt_reconnect os c) (\<lambda>(rc, c').
     current_reconnect_wait_interval c' = current_reconnect_wait_interval c \<and>
     counter_network_disconnected c' = counter_network_disconnected c)"
proof -
  have resub: "wp (qcloud_iot_mqtt_resubscribe os c1) (\<lambda>(rc, c'). link c' = link c1)" for c1
    by (simp add: qcloud_iot_mqtt_resubscribe_def link_resubscribe_loop)
  show ?thesis
    unfolding qcloud_iot_mqtt_attempt_reconnect_def using off
    by (auto simp: get_client_conn_state_def conn_outcome_def
        intro!: wp_mono [OF connect_outcome [OF k inv off]] wp_mono [OF resub] dest: link_D)
qed

section \<open>Results of requests are never positive\<close>

text \<open>
  The positive codes tell states of the client and are never what sending, receiving or connecting comes back with. So
  the code for a finished reconnection cannot be mistaken for the result of a failed one.
\<close>

lemma tcp_write_step_result:
  "tcp_write_step os fd buf t n w = Inl (rc, k, w') \<Longrightarrow> rc \<le> int k"
  "tcp_write_step os fd buf t n w = Inr (rc, k, w') \<Longrightarrow> rc \<le> int k"
  by (auto simp: tcp_write_step_def Let_def split: prod.splits if_splits select_ret.splits send_ret.splits)

lemma tcp_write_loop_result:
  assumes "tcp_write_loop os fd buf t n w = Some r"
  shows "fst r \<le> int (fst (snd r))"
proof (rule tcp_write_loop.raw_induct [where P = "\<lambda>os fd buf t n w r. fst r \<le> int (fst (snd r))", OF _ assms])
  fix loop and os :: "'a os" and fd buf t n w r
  assume IH: "\<And>os fd buf t n w r. loop os fd buf t n w = Some r \<Longrightarrow> fst r \<le> int (fst (snd r))"
    and eq: "(case tcp_write_step os fd buf t n w of Inl r \<Rightarrow> Some r
          | Inr (ret, len_sent, w) \<Rightarrow>
              if len_sent < length buf
              then let (now, w) = linux_get_time_ms os w
                   in if linux_time_left t now > 0 then loop os fd buf t len_sent w else Some (ret, len_sent, w)
              else Some (ret, len_sent, w)) = Some r"
  show "fst r \<le> int (fst (snd r))"
    using eq by (auto simp: Let_def split: sum.splits if_splits prod.splits dest: IH tcp_write_step_result)
qed

lemma net_write_result: "net_ok os (network_stack c) \<Longrightarrow> net_write d t c = Some (rc, n, c') \<Longrightarrow> rc \<le> 0"
  by (auto simp: net_write_def net_ok_def network_tcp_write_def HAL_TCP_Write_def Let_def bind_Some_iff split: prod.splits if_splits
      dest!: tcp_write_loop_result)

lemma tcp_read_loop_result:
  assumes "tcp_read_loop os fd n t got w = Some r"
  shows "fst r \<le> 0"
proof (rule tcp_read_loop.raw_induct [where P = "\<lambda>os fd n t got w r. fst r \<le> 0", OF _ assms])
  fix loop and os :: "'a os" and fd n t got w r
  assume "\<And>os fd n t got w r. loop os fd n t got w = Some r \<Longrightarrow> fst r \<le> 0"
    and "(case tcp_read_step os fd n t got w of Inl r \<Rightarrow> Some r
          | Inr (got, w) \<Rightarrow> if length got < n then loop os fd n t got w else Some (0, got, w)) = Some r"
  then show "fst r \<le> 0"
    by (auto simp: tcp_read_step_def Let_def split: sum.splits if_splits prod.splits recv_ret.splits)
qed

lemma net_read_result: "net_ok os (network_stack c) \<Longrightarrow> net_read n t c = Some (rc, bs, c') \<Longrightarrow> rc \<le> 0 \<and> network_stack c' = network_stack c"
  by (auto simp: net_read_def net_ok_def network_tcp_read_def HAL_TCP_Read_def Let_def bind_Some_iff split: prod.splits if_splits
      dest!: tcp_read_loop_result)

lemma send_loop_result:
  assumes "send_loop os len timer sent rc c = Some r" and "net_ok os (network_stack c)" and "rc \<le> 0"
  shows "fst r \<le> 0"
proof -
  let ?P = "\<lambda>os len timer sent rc c r. net_ok os (network_stack c) \<longrightarrow> rc \<le> 0 \<longrightarrow> fst r \<le> 0"
  have "?P os len timer sent rc c r"
  proof (rule send_loop.raw_induct [where P = ?P, OF _ assms(1)])
    fix loop and os :: "'a os" and len timer sent rc and c :: "'a client" and r
    assume IH: "\<And>os len timer sent rc c r. loop os len timer sent rc c = Some r \<Longrightarrow> ?P os len timer sent rc c r"
      and eq: "(if sent < len
          then let (e, c) = expired os timer c
               in if e then Some (rc, sent, c)
                  else let (t, c) = left_ms os timer c
                       in do {
                         d \<leftarrow> buf_read (write_buf c) sent len;
                         (rc, sentLen, c) \<leftarrow> net_write d (nat t) c;
                         if rc \<noteq> QCLOUD_RET_SUCCESS then Some (rc, sent, c)
                         else loop os len timer (sent + sentLen) rc c
                       }
          else Some (rc, sent, c)) = Some r"
    show "?P os len timer sent rc c r"
    proof (intro impI)
      assume net: "net_ok os (network_stack c)" and "rc \<le> 0"
      obtain e c1 i c2 where t: "expired os timer c = (e, c1)" "left_ms os timer c1 = (i, c2)" by (metis surj_pair)
      have "net_ok os (network_stack c2)" using net link_D(3) [OF link_timers(1) [OF t(1)]] link_D(3) [OF link_timers(4) [OF t(2)]] by simp
      moreover have "network_stack c'' = network_stack c'" if "net_write d t c' = Some (r, n, c'')" for d t and c' :: "'a client" and r n c''
        using that by (auto simp: net_write_def bind_Some_iff)
      ultimately show "fst r \<le> 0"
        using eq \<open>rc \<le> 0\<close>
        by (auto simp: t bind_Some_iff split: if_splits dest: IH net_write_result)
    qed
  qed
  with assms show ?thesis by blast
qed

lemma send_result: "net_ok os (network_stack c) \<Longrightarrow> send_mqtt_packet os len timer c = Some (rc, c') \<Longrightarrow> rc \<le> 0"
  by (auto simp: send_mqtt_packet_def bind_Some_iff split: if_splits dest!: send_loop_result)


lemma decode_rem_len_result:
  "wp (decode_packet_rem_len_with_net_read t v m n c) (\<lambda>(r, c'). network_stack c' = network_stack c \<and> (\<forall>rc. r = Inl rc \<longrightarrow> rc < 0))"
proof (induction "4 - n" arbitrary: v m n c rule: less_induct)
  case less
  have st: "network_stack c' = network_stack c" if "net_read k t c = Some (r, bs, c')" for k r bs c'
    using that by (auto simp: net_read_def bind_Some_iff)
  show ?case
  proof (cases "n < 4")
    case True
    have IH: "wp (decode_packet_rem_len_with_net_read t v' m' (n + 1) c') (\<lambda>(r, c''). network_stack c'' = network_stack c' \<and> (\<forall>rc. r = Inl rc \<longrightarrow> rc < 0))"
      for v' m' and c' :: "'a client" by (rule less) (use True in simp)
    show ?thesis
      by (subst decode_packet_rem_len_with_net_read.simps) (auto simp: Let_def intro!: wp_I dest!: st IH [unfolded Suc_eq_plus1 [symmetric], THEN wp_D2])
  qed (subst decode_packet_rem_len_with_net_read.simps, simp)
qed

lemma read_packet_result:
  assumes "net_ok os (network_stack c)"
  shows "wp (read_mqtt_packet os timer t c) (\<lambda>(rc, t', c'). rc \<le> 0)"
proof -
  have w: "network_stack c' = network_stack c" if "wait_ms os timer c = (n, c')" for n and c :: "'a client" and c'
    using that link_D(3) [OF link_timers(4)] by (auto simp: wait_ms_def split: prod.splits)
  have wr: "network_stack c' = network_stack c" if "wait_rest_ms os timer c = (n, c')" for n and c :: "'a client" and c'
    using that w by (auto simp: wait_rest_ms_def split: prod.splits)
  have body: "wp (read_packet_body os timer t r c) (\<lambda>(rc, t', c'). rc \<le> 0)" if "net_ok os (network_stack c)" for r and c :: "'a client"
    unfolding read_packet_body_def Let_def
    by (auto split: prod.split intro!: wp_I dest!: net_read_result [where os = os, rotated] wr simp: that)
  show ?thesis
    unfolding read_mqtt_packet_def Let_def
    by (auto split: prod.split sum.split intro!: wp_I dest!: net_read_result [where os = os, rotated] wr w decode_rem_len_result [THEN wp_D2] body [THEN wp_D3, rotated] simp: assms)
qed


lemma rem_len_form_result: "mqtt_read_packet_rem_len_form_buf buf p = Some (Inl rc) \<Longrightarrow> rc < 0"
  by (auto simp: mqtt_read_packet_rem_len_form_buf_def dest!: decode_rem_len_error)

lemma suback_loop_result: "suback_payload_loop buf p e m k qs = Some (Inl rc) \<Longrightarrow> rc < 0"
proof (induction buf p e m k qs rule: suback_payload_loop.induct)
  case (1 buf p e m k qs)
  from 1(2) show ?case
    by (subst (asm) suback_payload_loop.simps) (auto simp: bind_Some_iff split: if_splits dest: 1(1) [simplified])
qed

lemma deserialize_ack_result: "wp (deserialize_ack_packet buf n) (\<lambda>r. \<forall>rc. r = Inl rc \<longrightarrow> rc < 0)"
  unfolding deserialize_ack_packet_def Let_def
  by (auto split: sum.split intro!: wp_I dest: rem_len_form_result)

lemmas deserialize_ack_result_D = deserialize_ack_result [THEN wp_D, rule_format, OF _ refl]

lemma deserialize_results:
  "wp (deserialize_suback_packet k g buf n) (\<lambda>r. \<forall>rc. r = Inl rc \<longrightarrow> rc < 0)"
  "wp (deserialize_unsuback_packet buf n) (\<lambda>r. \<forall>rc. r = Inl rc \<longrightarrow> rc < 0)"
  "wp (deserialize_publish_packet buf n) (\<lambda>r. \<forall>rc. r = Inl rc \<longrightarrow> rc < 0)"
  "wp (deserialize_connack_packet buf n) (\<lambda>r. (\<forall>rc. r = Inl rc \<longrightarrow> rc < 0) \<and> (\<forall>f code. r = Inr (f, code) \<longrightarrow> code \<noteq> QCLOUD_RET_MQTT_CONNACK_CONNECTION_ACCEPTED \<longrightarrow> code < 0))"
proof -
  show "wp (deserialize_suback_packet k g buf n) (\<lambda>r. \<forall>rc. r = Inl rc \<longrightarrow> rc < 0)"
    unfolding deserialize_suback_packet_def Let_def
    by (auto split: sum.split intro!: wp_I) (erule rem_len_form_result suback_loop_result)+
  show "wp (deserialize_unsuback_packet buf n) (\<lambda>r. \<forall>rc. r = Inl rc \<longrightarrow> rc < 0)"
    unfolding deserialize_unsuback_packet_def by (auto split: sum.split intro!: wp_I dest: deserialize_ack_result_D)
  show "wp (deserialize_publish_packet buf n) (\<lambda>r. \<forall>rc. r = Inl rc \<longrightarrow> rc < 0)"
    unfolding deserialize_publish_packet_def Let_def
    by (auto split: sum.split intro!: wp_I dest: rem_len_form_result)
  show "wp (deserialize_connack_packet buf n) (\<lambda>r. (\<forall>rc. r = Inl rc \<longrightarrow> rc < 0) \<and> (\<forall>f code. r = Inr (f, code) \<longrightarrow> code \<noteq> QCLOUD_RET_MQTT_CONNACK_CONNECTION_ACCEPTED \<longrightarrow> code < 0))"
    unfolding deserialize_connack_packet_def connack_code_def Let_def
    by (auto split: sum.split intro!: wp_I) (erule rem_len_form_result)
qed

lemmas deserialize_results_D = deserialize_results(1-3) [THEN wp_D, rule_format, OF _ refl]

lemma send_ack_result:
  assumes "net_ok os (network_stack c)"
  shows "wp (send_ack os type i timer c) (\<lambda>(rc, t, c'). rc \<le> 0)"
proof -
  have ser: "wp (serialize_pub_ack_packet b n type d i) (\<lambda>r. \<forall>rc. r = Inl rc \<longrightarrow> rc < 0)" for b n d
    unfolding serialize_pub_ack_packet_def mqtt_init_packet_header_def Let_def
    by (auto split: sum.split MessageTypes.split intro!: wp_I)
  have send: "rc \<le> 0" if "expired os timer (c\<lparr>write_buf := b\<rparr>) = (e, c1)" "(if e then countdown_ms os timer 100 c1 else (timer, c1)) = (t, c2)"
    "send_mqtt_packet os n t c2 = Some (rc, c')" for b e c1 t c2 n rc c'
  proof -
    have "link c1 = link c" using link_timers(1) [OF that(1)] by simp
    moreover have "link c2 = link c1" using that(2) link_timers(2) by (auto split: if_split_asm)
    ultimately show ?thesis using send_result [OF _ that(3)] assms link_D(3) [of c2 c] by simp
  qed
  show ?thesis
    unfolding send_ack_def Let_def
    by (auto split: sum.split prod.split intro!: wp_I dest: ser [THEN wp_D, rule_format, OF _ refl] intro: send)
qed

lemma handler_results:
  assumes "net_ok os (network_stack c)"
  shows "wp (handle_puback_packet os c) (\<lambda>(rc, c'). rc \<le> 0)"
    and "wp (handle_suback_packet os c) (\<lambda>(rc, c'). rc \<le> 0)"
    and "wp (handle_unsuback_packet os c) (\<lambda>(rc, c'). rc \<le> 0)"
    and "wp (handle_pubrec_packet os timer c) (\<lambda>(rc, timer', c'). rc \<le> 0)"
proof -
  show "wp (handle_puback_packet os c) (\<lambda>(rc, c'). rc \<le> 0)"
    unfolding handle_puback_packet_def Let_def by (auto split: sum.split intro!: wp_I dest: deserialize_ack_result_D)
  show "wp (handle_suback_packet os c) (\<lambda>(rc, c'). rc \<le> 0)"
    unfolding handle_suback_packet_def Let_def
    by (auto split: sum.split option.split prod.split intro!: wp_I dest: deserialize_results_D)
  show "wp (handle_unsuback_packet os c) (\<lambda>(rc, c'). rc \<le> 0)"
    unfolding handle_unsuback_packet_def
    by (auto split: sum.split option.split prod.split intro!: wp_I dest: deserialize_results_D)
  show "wp (handle_pubrec_packet os timer c) (\<lambda>(rc, timer', c'). rc \<le> 0)"
    unfolding handle_pubrec_packet_def
    by (auto split: sum.split intro!: wp_I dest: deserialize_ack_result_D send_ack_result [OF assms, THEN wp_D3])
qed

lemma publish_result:
  assumes "net_ok os (network_stack c)"
  shows "wp (handle_publish_packet os timer c) (\<lambda>(rc, timer', c'). rc \<le> 0)"
proof -
  have del: "wp (deliver_message tn n m c) (\<lambda>(rc, c'). rc = 0)" for tn n m
    unfolding deliver_message_def Let_def by (auto split: option.split intro!: wp_I)
  have ack: "rc \<le> 0" if "add_packet_id_to_repeat_buf i c1 = Some c2" "send_ack os ty i timer c2 = Some (rc, t, c3)" "link c1 = link c"
    for c1 i c2 ty rc t c3
    using link_add_id [OF that(1)] that(3) assms link_D(3) [of c2 c] wp_D3 [OF send_ack_result that(2)] by simp
  have ack': "rc \<le> 0" if "add_packet_id_to_repeat_buf i c1 = Some c2" "send_ack os ty i timer c2 = Some (rc, t, c3)" "deliver_message tn n m c = Some (0, c1)"
    for c1 i c2 ty rc t c3 tn n m
    using ack [OF that(1,2) link_handlers_D(4) [OF that(3)]] .
  show ?thesis
    unfolding handle_publish_packet_def Let_def
    by (auto split: sum.split intro!: wp_I dest: deserialize_results_D del [THEN wp_D2] ack ack')
qed

lemma dispatch_result:
  assumes "net_ok os (network_stack c)"
  shows "wp (dispatch_packet os timer t c) (\<lambda>(rc, timer', c'). rc \<le> 0)"
  unfolding dispatch_packet_def
  using handler_results [OF assms] publish_result [OF assms] by (auto intro!: wp_I dest: wp_D2 wp_D3)

lemma cycle_result:
  assumes "kernel_ok os" and "client_inv os c"
  shows "wp (cycle_for_read os timer t c) (\<lambda>(rc, timer', t', c'). rc \<le> 0)"
proof -
  have net: "net_ok os (network_stack c)" by (rule client_inv_net [OF assms(2)])
  have "net_ok os (network_stack c1)" if "read_mqtt_packet os timer t c = Some (rc, t1, c1)" for rc t1 c1
    using wp_D3 [OF read_mqtt_packet_spec [OF assms] that] link_D(3) [OF io_step_link, of c c1] net by simp
  then show ?thesis
    unfolding cycle_for_read_def
    by (auto intro!: wp_I dest: read_packet_result [OF net, THEN wp_D3] dispatch_result [THEN wp_D3, rotated])
qed

lemma wait_for_read_result:
  assumes "wait_for_read os pt timer rpt c = Some r" and "kernel_ok os" and "client_inv os c"
  shows "fst r \<le> 0"
proof -
  let ?P = "\<lambda>os pt timer rpt c r. kernel_ok os \<longrightarrow> client_inv os c \<longrightarrow> fst r \<le> 0"
  have "?P os pt timer rpt c r"
  proof (rule wait_for_read.raw_induct [where P = ?P, OF _ assms(1)])
    fix loop and os :: "'a os" and pt timer rpt and c :: "'a client" and r
    assume IH: "\<And>os pt timer rpt c r. loop os pt timer rpt c = Some r \<Longrightarrow> ?P os pt timer rpt c r"
      and eq: "(let (e, c) = expired os timer c
        in if e then Some (QCLOUD_ERR_MQTT_REQUEST_TIMEOUT, timer, c)
           else do {
             (rc, timer, read_packet_type, c) \<leftarrow> cycle_for_read os timer rpt c;
             if rc = QCLOUD_RET_SUCCESS \<and> read_packet_type \<noteq> pt
             then loop os pt timer read_packet_type c else Some (rc, timer, c)
           }) = Some r"
    show "?P os pt timer rpt c r"
    proof (intro impI)
      assume k: "kernel_ok os" and inv: "client_inv os c"
      obtain e c1 where e: "expired os timer c = (e, c1)" by fastforce
      with inv have inv1: "client_inv os c1" by (simp add: env_inv)
      show "fst r \<le> 0"
        using eq e wp_D4 [OF link_cycle [OF k inv1]] wp_D4 [OF cycle_result [OF k inv1]] k
        by (auto simp: bind_Some_iff split: if_split_asm dest!: IH)
    qed
  qed
  with assms show ?thesis by blast
qed

lemma connect_not_positive:
  assumes k: "kernel_ok os" and inv: "client_inv os c"
  shows "wp (qcloud_iot_mqtt_connect os params c) (\<lambda>(rc, c'). \<not> is_connected c \<longrightarrow> rc \<le> 0)"
proof -
  obtain timer c1 where c1: "countdown_ms os InitTimer (command_timeout_ms c) c = (timer, c1)" by fastforce
  let ?c1 = "c1\<lparr>options := copy_connect_params (options c1) params\<rparr>"
  obtain rc c2 where c2: "net_connect ?c1 = (rc, c2)" by fastforce
  have inv2: "client_inv os c2" using inv c1 c2 by (simp add: env_inv net_connect_inv)
  have "client_inv os c1" using inv c1 by (simp add: env_inv)
  then have rc: "rc \<le> 0" using c2 client_inv_net [of os c1]
    by (auto simp: net_connect_def net_ok_def network_tcp_connect_def Let_def split: prod.split_asm)
  have inv_ser: "client_inv os c3" if "serialize_connect_packet os c2 = Some (r, c3)" for r c3
    using wp_D2 [OF serialize_connect_inv [OF inv2] that] .
  have ser: "wp (serialize_connect_packet os c2) (\<lambda>(r, c3). \<forall>rc. r = Inl rc \<longrightarrow> rc \<le> 0)"
    unfolding serialize_connect_packet_def Let_def mqtt_init_packet_header_def
    by (auto split: option.split sum.split prod.split intro!: wp_I)
  have send: "rc \<le> 0 \<and> client_inv os c4" if "send_mqtt_packet os n timer c3 = Some (rc, c4)" "client_inv os c3" for n c3 rc c4
    using send_result [OF client_inv_net [OF that(2)] that(1)] that by (simp add: send_inv)
  have wait: "rc \<le> 0" if "wait_for_read os pt timer t c3 = Some (rc, timer', c4)" "client_inv os c3" for pt t c3 rc timer' c4
    using wait_for_read_result [OF that(1) k that(2)] by simp
  have ack: "deserialize_connack_packet b n = Some (Inl rc) \<Longrightarrow> rc \<le> 0"
    "deserialize_connack_packet b n = Some (Inr (f, code)) \<Longrightarrow> code \<noteq> QCLOUD_RET_MQTT_CONNACK_CONNECTION_ACCEPTED \<Longrightarrow> code \<le> 0"
    for b n rc f code using deserialize_results(4) [THEN wp_D] by fastforce+
  have "wp (mqtt_connect os params c) (\<lambda>(rc, c'). rc \<le> 0)"
    unfolding mqtt_connect_def Let_def c1 c2 prod.case using rc
    by (auto split: sum.split prod.split intro!: wp_I dest: ser [THEN wp_D2, rule_format, OF _ refl] inv_ser send wait ack)
  then show ?thesis unfolding qcloud_iot_mqtt_connect_def by (auto simp: get_client_conn_state_def elim!: wp_mono)
qed

section \<open>Waiting longer and longer\<close>

lemma set_reconnect_delay_link [simp]: "link (set_reconnect_delay os c) = link c"
  by (auto simp: set_reconnect_delay_def link_timers Let_def split: prod.split)

lemma handle_reconnect_outcome:
  assumes k: "kernel_ok os" and inv: "client_inv os c" and off: "\<not> is_connected c"
  shows "wp (handle_reconnect os c) (\<lambda>(rc, c').
     counter_network_disconnected c' = counter_network_disconnected c \<and>
     (rc = QCLOUD_ERR_MQTT_ATTEMPTING_RECONNECT \<and> link c' = link c \<or>
      rc = QCLOUD_RET_MQTT_RECONNECTED \<and> current_reconnect_wait_interval c' = current_reconnect_wait_interval c \<or>
      current_reconnect_wait_interval c' = 2 * current_reconnect_wait_interval c \<and>
      rc = (if MAX_RECONNECT_WAIT_INTERVAL < current_reconnect_wait_interval c'
            then QCLOUD_ERR_MQTT_RECONNECT_TIMEOUT else QCLOUD_ERR_MQTT_ATTEMPTING_RECONNECT)))"
proof -
  obtain e c1 where e: "expired os (reconnect_delay_timer c) c = (e, c1)" by fastforce
  have l: "link c1 = link c" by (rule link_timers(1) [OF e])
  have inv1: "client_inv os c1" using inv e by (simp add: env_inv)
  have off1: "\<not> is_connected c1" using off link_D(1) [OF l] by simp
  have phys: "nw_is_connected (network_stack c1) (nw_handle (network_stack c1)) \<noteq> 0"
    using client_inv_net [OF inv1] by (simp add: net_ok_def qcloud_iot_mqtt_tls_is_connected_def)
  have delay: "current_reconnect_wait_interval (set_reconnect_delay os c') = current_reconnect_wait_interval c'"
    "counter_network_disconnected (set_reconnect_delay os c') = counter_network_disconnected c'" for c' :: "'a client"
    using link_D(4,5) [OF set_reconnect_delay_link] by blast+
  have cb: "current_reconnect_wait_interval (reconnect_callback c') = current_reconnect_wait_interval c'"
    "counter_network_disconnected (reconnect_callback c') = counter_network_disconnected c'" for c' :: "'a client"
    using link_D(4,5) [of "reconnect_callback c'" c'] by (simp_all add: reconnect_callback_def)
  show ?thesis
    unfolding handle_reconnect_def Let_def e prod.case using phys link_D(4,5) [OF l] l
    by (auto simp: delay cb intro!: wp_mono [OF attempt_reconnect_outcome [OF k inv1 off1]])
qed

text \<open>What a failed attempt leaves: the interval doubled modulo \<open>2\<^sup>3\<^sup>2\<close>, and beyond a minute the final timeout.\<close>

definition backed_off :: "'w os \<Rightarrow> u32 \<Rightarrow> 'w client \<Rightarrow> int \<Rightarrow> 'w client \<Rightarrow> bool" where
  "backed_off os i c rc c' \<longleftrightarrow>
     (let d = c\<lparr>current_reconnect_wait_interval := 2 * i\<rparr>
      in if MAX_RECONNECT_WAIT_INTERVAL < 2 * i then rc = QCLOUD_ERR_MQTT_RECONNECT_TIMEOUT \<and> c' = d
         else rc = QCLOUD_ERR_MQTT_ATTEMPTING_RECONNECT \<and> c' = set_reconnect_delay os d)"

lemma backed_off_connected: "backed_off os i c rc c' \<Longrightarrow> is_connected c' = is_connected c"
  using link_D(1) [OF set_reconnect_delay_link [of os "c\<lparr>current_reconnect_wait_interval := 2 * i\<rparr>"]]
  by (auto simp: backed_off_def Let_def split: if_splits)

lemma resubscribe_link: "qcloud_iot_mqtt_resubscribe os c = Some (r, c') \<Longrightarrow> link c' = link c"
  using wp_D2 [OF link_resubscribe_loop] by (auto simp: qcloud_iot_mqtt_resubscribe_def split: if_split_asm)

lemma resubscribe_result:
  assumes "qcloud_iot_mqtt_resubscribe os c = Some (r, c')"
  shows "r \<le> 0"
proof -
  have "wp (resubscribe_loop os is c) (\<lambda>(r, c'). r \<le> 0)" for "is" and c :: "'a client"
    by (induction "is" arbitrary: c) (auto simp: Let_def split: option.split intro!: wp_I dest: wp_D2)
  then show ?thesis using assms by (auto simp: qcloud_iot_mqtt_resubscribe_def split: if_split_asm dest: wp_D2)
qed

lemma reconnect_callback_connected: "is_connected (reconnect_callback c) = is_connected c"
  "current_reconnect_wait_interval (reconnect_callback c) = current_reconnect_wait_interval c"
  using link_D [of "reconnect_callback c" c] by (simp_all add: reconnect_callback_def)

lemma random_interval_bounds:
  assumes "get_random_interval os c = (i, c')"
  shows "1000 \<le> unat i" "unat i \<le> 1990" "unat i mod 10 = 0"
proof -
  from assms obtain r where r: "i = of_nat ((r mod 100 + 100) * 10)"
    by (auto simp: get_random_interval_def Let_def split: prod.splits)
  have lt: "r mod 100 < 100" by simp
  then have "unat (of_nat ((r mod 100 + 100) * 10) :: u32) = (r mod 100 + 100) * 10"
    by (intro unat_of_nat_u32) simp
  with r lt show "1000 \<le> unat i" "unat i \<le> 1990" "unat i mod 10 = 0" by simp_all
qed

section \<open>Losing the connection\<close>

lemma env_trace:
  "countdown_ms os timer t c = (timer', c') \<Longrightarrow> trace c' = trace c \<and> event_handle c' = event_handle c"
  by (auto simp: env_defs split: prod.splits)

lemma disconnect_outcome:
  assumes "is_connected c"
  shows "wp (qcloud_iot_mqtt_disconnect os c) (\<lambda>(rc, c'). (rc = 0 \<longrightarrow> \<not> is_connected c' \<and> was_manually_disconnected c') \<and>
     trace c' = trace c \<and> event_handle c' = event_handle c)"
proof -
  have ser: "serialize_packet_with_zero_payload b n DISCONNECT \<noteq> Some (Inl 0)" for b n
    by (auto simp: serialize_packet_with_zero_payload_def mqtt_init_packet_header_def bind_Some_iff)
  have send: "wp (send_mqtt_packet os len timer c1) (\<lambda>(rc, c2). trace c2 = trace c1 \<and> event_handle c2 = event_handle c1)" for len timer c1
    by (rule wp_mono [OF send_mqtt_packet_frame]) auto
  show ?thesis
    unfolding qcloud_iot_mqtt_disconnect_def Let_def using assms ser
    by (auto simp: get_client_conn_state_def set_client_conn_state_def net_disconnect_state split: sum.split prod.split
        intro!: wp_I dest!: wp_D2 [OF send] env_trace)
qed

lemma handle_disconnect_outcome:
  assumes "is_connected c"
  shows "wp (handle_disconnect os c) (\<lambda>(rc, c'). rc = QCLOUD_ERR_MQTT_NO_CONN \<and> \<not> is_connected c' \<and> \<not> was_manually_disconnected c' \<and>
     trace c' = trace c @ (case h_fp (event_handle c) of None \<Rightarrow> []
       | Some f \<Rightarrow> [EventCb f (h_context (event_handle c)) MQTT_EVENT_DISCONNECT NoArg]))"
  unfolding handle_disconnect_def Let_def using assms
  by (auto simp: get_client_conn_state_def set_client_conn_state_def net_disconnect_state iot_disconnect_callback_def
      notify_event_def call_def split: option.split intro!: wp_mono [OF disconnect_outcome])

section \<open>The main loop\<close>

lemma link_ping_loop: "wp (send_ping_loop os n len timer c) (\<lambda>(rc, c'). link c' = link c)"
proof (induction n arbitrary: timer c)
  case 0
  show ?case by (auto simp: Let_def link_timers split: prod.split intro!: wp_I dest!: link_send)
next
  case (Suc n)
  have "wp (send_ping_loop os n len timer c') (\<lambda>(rc, c''). link c'' = link c)" if "link c' = link c" for timer c'
    using Suc.IH [of timer c'] that by simp
  then show ?case
    by (auto simp: Let_def link_timers link_send split: prod.split intro!: wp_I [of "send_mqtt_packet _ _ _ _"])
qed

lemma keep_alive_connected:
  assumes "is_connected c"
  shows "wp (mqtt_keep_alive os c) (\<lambda>(rc, c'). rc = 0 \<longrightarrow> is_connected c')"
proof -
  have dis: "wp (handle_disconnect os c') (\<lambda>(rc, c''). rc = 0 \<longrightarrow> is_connected c'')" if "link c' = link c" for c'
    using wp_mono [OF handle_disconnect_outcome [of c']] link_D(1) [OF that] assms by auto
  have ser: "serialize_packet_with_zero_payload b n PINGREQ \<noteq> Some (Inl 0)" for b n
    by (auto simp: serialize_packet_with_zero_payload_def mqtt_init_packet_header_def bind_Some_iff)
  have ping: "wp (send_ping_loop os 3 len timer c1) (\<lambda>(rc, c'). link c' = link c)" if "link c1 = link c" for len timer c1
    using link_ping_loop [of os 3 len timer c1] that by simp
  have up: "is_connected c'" if "link c' = link c" for c' using link_D(1) [OF that] assms by simp
  show ?thesis
    unfolding mqtt_keep_alive_def Let_def using assms ser
    by (auto split: sum.split prod.split simp: link_timers intro!: dis wp_I [of "serialize_packet_with_zero_payload _ _ _"]
        wp_mono [OF ping] up)
qed

lemma pub_loop_link [simp]: "link (pub_info_loop os nodes c) = link c"
  by (induction nodes arbitrary: c) (auto simp: link_timers Let_def split: prod.split)

lemma sub_loop_link [simp]: "link (sub_info_loop os nodes c) = link c"
  by (induction nodes arbitrary: c) (auto simp: link_timers Let_def sub_timeout_notify_def split: prod.split)

lemma info_proc_link [simp]:
  "link (qcloud_iot_mqtt_pub_info_proc os c) = link c" "link (qcloud_iot_mqtt_sub_info_proc os c) = link c"
  by (auto simp: qcloud_iot_mqtt_pub_info_proc_def qcloud_iot_mqtt_sub_info_proc_def link_timers split: prod.split option.split)

lemma yield_step_connected:
  assumes "kernel_ok os" and "client_inv os c" and "is_connected c"
  shows "wp (yield_step os timer c) (\<lambda>(rc, timer', c'). rc = 0 \<longrightarrow> is_connected c')"
proof -
  have up: "is_connected c'" if "link c' = link c" for c' using link_D(1) [OF that] assms by simp
  have alive: "wp (mqtt_keep_alive os (qcloud_iot_mqtt_sub_info_proc os (qcloud_iot_mqtt_pub_info_proc os c')))
      (\<lambda>(rc, c''). rc = 0 \<longrightarrow> is_connected c'')" if "link c' = link c" for c'
    by (rule keep_alive_connected) (rule up, simp add: that)
  have dis: "wp (handle_disconnect os c') (\<lambda>(rc, c''). rc = 0 \<longrightarrow> is_connected c'')" if "link c' = link c" for c'
    using wp_mono [OF handle_disconnect_outcome [of c']] up [OF that] by auto
  show ?thesis
    unfolding yield_step_def
    by (auto intro!: wp_mono [OF link_cycle [OF assms(1,2)]] alive dis)
qed

lemma yield_loop_success:
  assumes "yield_loop os timer rc c = Some r" and "kernel_ok os" and "client_inv os c" and "rc = 0 \<longrightarrow> is_connected c"
  shows "fst r = 0 \<longrightarrow> is_connected (snd r)"
proof -
  let ?P = "\<lambda>os timer rc c r. kernel_ok os \<longrightarrow> client_inv os c \<longrightarrow> (rc = 0 \<longrightarrow> is_connected c) \<longrightarrow> fst r = 0 \<longrightarrow> is_connected (snd r)"
  have "?P os timer rc c r"
  proof (rule yield_loop.raw_induct [where P = ?P, OF _ assms(1)])
    fix loop and os :: "'a os" and timer rc and c :: "'a client" and r
    assume IH: "\<And>os timer rc c r. loop os timer rc c = Some r \<Longrightarrow> ?P os timer rc c r"
      and eq: "(let (e, c) = expired os timer c
        in if e then Some (rc, c)
           else if \<not> get_client_conn_state c
           then if current_reconnect_wait_interval c > MAX_RECONNECT_WAIT_INTERVAL
                then Some (QCLOUD_ERR_MQTT_RECONNECT_TIMEOUT, c)
                else do {
                  (rc, c) \<leftarrow> handle_reconnect os c;
                  loop os timer rc c
                }
           else do {
             (rc, timer, c) \<leftarrow> yield_step os timer c;
             if rc = QCLOUD_ERR_MQTT_NO_CONN
             then let c = c\<lparr>counter_network_disconnected := counter_network_disconnected c + 1\<rparr>
                  in if auto_connect_enable (options c) \<noteq> 1 then Some (rc, c)
                     else loop os timer QCLOUD_ERR_MQTT_ATTEMPTING_RECONNECT (schedule_reconnect os c)
             else if rc \<noteq> QCLOUD_RET_SUCCESS then Some (rc, c)
             else loop os timer rc c
           }) = Some r"
    show "?P os timer rc c r"
    proof (intro impI)
      assume k: "kernel_ok os" and inv: "client_inv os c" and up: "rc = 0 \<longrightarrow> is_connected c" and z: "fst r = 0"
      obtain e c1 where e: "expired os timer c = (e, c1)" by fastforce
      then have inv1: "client_inv os c1" and up1: "is_connected c1 = is_connected c"
        using inv link_D(1) [OF link_timers(1) [OF e]] by (simp_all add: env_inv)
      show "is_connected (snd r)"
      proof (cases "is_connected c1")
        case True
        with eq e z k up up1 wp_D3 [OF yield_step_inv [OF k inv1]] wp_D3 [OF yield_step_connected [OF k inv1 True]] show ?thesis
          by (auto simp: bind_Some_iff Let_def get_client_conn_state_def schedule_reconnect_inv split: if_splits dest!: IH)
      next
        case False
        with eq e z k up up1 wp_D2 [OF handle_reconnect_inv [OF k inv1]] wp_D2 [OF handle_reconnect_outcome [OF k inv1 False]] show ?thesis
          by (auto simp: bind_Some_iff get_client_conn_state_def split: if_splits dest!: IH)
      qed
    qed
  qed
  with assms show ?thesis by blast
qed

lemma yield_loop_unconnected:
  assumes "kernel_ok os" and "client_inv os c" and "\<not> is_connected c" and "yield_loop os timer rc c = Some (0, c')"
  shows "is_connected c' \<or> expired os timer c = (True, c')"
proof -
  obtain e c1 where e: "expired os timer c = (e, c1)" by fastforce
  have inv1: "client_inv os c1" and off1: "\<not> is_connected c1"
    using assms e link_D(1) [OF link_timers(1) [OF e]] by (simp_all add: env_inv)
  have loop: "is_connected c'" if "handle_reconnect os c1 = Some (r, c2)" "yield_loop os timer r c2 = Some (0, c')" for r c2
  proof -
    have "r \<noteq> 0 \<and> client_inv os c2"
      using wp_D2 [OF handle_reconnect_outcome [OF assms(1) inv1 off1] that(1)] wp_D2 [OF handle_reconnect_inv [OF assms(1) inv1] that(1)]
      by (auto split: if_splits)
    then show ?thesis using yield_loop_success [OF that(2) assms(1)] by simp
  qed
  show ?thesis
    using assms(4) off1 by (subst (asm) yield_loop.simps) (auto simp: e bind_Some_iff get_client_conn_state_def split: if_splits dest: loop)
qed

section \<open>An idle connection\<close>

definition sim_idle :: "sim client \<Rightarrow> sim client \<Rightarrow> bool" where
  "sim_idle c c' \<longleftrightarrow> sim_in (world c') = sim_in (world c) \<and> sim_ms (world c) \<le> sim_ms (world c')"

lemma sim_idle_refl [simp]: "sim_idle c c" by (simp add: sim_idle_def)
lemma sim_idle_trans: "sim_idle c c' \<Longrightarrow> sim_idle c' c'' \<Longrightarrow> sim_idle c c''" by (auto simp: sim_idle_def)

lemma sim_tcp_read_idle:
  assumes "sim_in w = []" and "0 < n"
  shows "\<exists>m \<ge> 2. HAL_TCP_Read sim_os fd n t w = Some (QCLOUD_ERR_TCP_NOTHING_TO_READ, [], tick m w)"
proof -
  let ?left = "linux_time_left (of_nat (sim_ms w) + of_nat t) (of_nat (sim_ms w + 1))"
  let ?m = "if ?left = 0 then 2 else 2 + nat (tv_sec (ms_timeval ?left) * 1000 + tv_usec (ms_timeval ?left) div 1000)"
  have "HAL_TCP_Read sim_os fd n t w = Some (QCLOUD_ERR_TCP_NOTHING_TO_READ, [], tick ?m w)"
    using assms by (subst HAL_TCP_Read_def, subst tcp_read_loop.simps)
      (auto simp: tcp_read_step_def sim_time_ms Let_def numeral_2_eq_2 add.commute simp del: of_nat_Suc of_nat_add)
  then show ?thesis by (intro exI [of _ ?m]) auto
qed

lemma sim_left_any: "\<exists>i. left_ms sim_os timer c = (i, c\<lparr>world := tick 1 (world c)\<rparr>)"
  by (simp add: left_ms_def HAL_Timer_remain_def Let_def)

lemma sim_cycle_idle:
  assumes "net_ok sim_os (network_stack c)" and "sim_in (world c) = []"
  shows "\<exists>m \<ge> 1. cycle_for_read sim_os timer t c = Some (0, timer, t, c\<lparr>world := tick m (world c)\<rparr>)"
proof -
  let ?c = "c\<lparr>world := tick 1 (world c)\<rparr>"
  obtain i where w: "wait_ms sim_os timer c = (i, ?c)"
    using sim_left_any [of timer c] by (auto simp: wait_ms_def)
  obtain m where m: "m \<ge> 2" "HAL_TCP_Read sim_os (nw_handle (network_stack c)) 1 i (tick 1 (world c)) =
      Some (QCLOUD_ERR_TCP_NOTHING_TO_READ, [], tick m (tick 1 (world c)))"
    using sim_tcp_read_idle [of "tick 1 (world c)" 1] assms(2) by auto
  then have rd: "net_read 1 i ?c = Some (QCLOUD_ERR_TCP_NOTHING_TO_READ, [], c\<lparr>world := tick (m + 1) (world c)\<rparr>)"
    using assms(1) by (simp add: net_read_def net_ok_def network_tcp_read_def)
  have "read_mqtt_packet sim_os timer t c = Some (QCLOUD_ERR_MQTT_NOTHING_TO_READ, t, c\<lparr>world := tick (m + 1) (world c)\<rparr>)"
    using w rd [unfolded One_nat_def] by (simp add: read_mqtt_packet_def buf_write_def)
  then show ?thesis by (intro exI [of _ "m + 1"]) (simp add: cycle_for_read_def)
qed

lemma sim_idle_world: "sim_idle c (c'\<lparr>world := w\<rparr>) \<longleftrightarrow> sim_in w = sim_in (world c) \<and> sim_ms (world c) \<le> sim_ms w"
  by (simp add: sim_idle_def)

lemma sim_countdown_any: "\<exists>timer'. countdown_ms sim_os timer t c = (timer', c\<lparr>world := tick 1 (world c)\<rparr>)"
  using sim_countdown_ms by blast

lemma sim_idle_from [simp]: "sim_idle (c\<lparr>list_pub_wait_ack := x\<rparr>) c' = sim_idle c c'" "sim_idle (c\<lparr>list_sub_wait_ack := y\<rparr>) c' = sim_idle c c'"
  "sim_idle (notify_event ev arg c) c' = sim_idle c c'" "sim_idle (notify_subscriber h ev c) c' = sim_idle c c'"
  by (simp_all add: sim_idle_def)

lemma sim_idle_tick: "sim_idle (c\<lparr>world := tick n (world c)\<rparr>) c' \<Longrightarrow> sim_idle c c'"
  by (simp add: sim_idle_def)

lemma pub_loop_idle: "sim_idle c (pub_info_loop sim_os nodes c)"
proof (induction nodes arbitrary: c)
  case (Cons node nodes)
  obtain a n where node: "node = (a, n)" by (cases node)
  obtain i where i: "left_ms sim_os (pub_start_time n) c = (i, c\<lparr>world := tick 1 (world c)\<rparr>)" using sim_left_any by blast
  obtain s where s: "countdown_ms sim_os (pub_start_time n) (command_timeout_ms c) (c\<lparr>world := tick 1 (world c)\<rparr>) =
      (s, c\<lparr>world := tick 2 (world c)\<rparr>)"
    using sim_countdown_any [of "pub_start_time n" "command_timeout_ms c" "c\<lparr>world := tick 1 (world c)\<rparr>"] by auto
  have IH: "sim_idle c (pub_info_loop sim_os nodes c')" if "sim_idle c c'" for c'
    using sim_idle_trans [OF that Cons.IH] .
  have "sim_idle c ((notify_event ev arg (c\<lparr>world := tick k (world c)\<rparr>))\<lparr>list_pub_wait_ack := l\<rparr>)"
    "sim_idle c (c\<lparr>list_pub_wait_ack := l\<rparr>)" "sim_idle c (c\<lparr>world := tick k (world c)\<rparr>)" for ev arg k l
    by (simp_all add: sim_idle_def)
  with IH i s show ?case by (auto simp: node Let_def)
qed simp

lemma sub_loop_idle: "sim_idle c (sub_info_loop sim_os nodes c)"
proof (induction nodes arbitrary: c)
  case (Cons node nodes)
  obtain a n where node: "node = (a, n)" by (cases node)
  obtain i where i: "left_ms sim_os (sub_start_time n) c = (i, c\<lparr>world := tick 1 (world c)\<rparr>)" using sim_left_any by blast
  have IH: "sim_idle c (sub_info_loop sim_os nodes c')" if "sim_idle c c'" for c'
    using sim_idle_trans [OF that Cons.IH] .
  have "sim_idle c ((sub_timeout_notify n (c\<lparr>world := tick k (world c)\<rparr>))\<lparr>list_sub_wait_ack := l\<rparr>)"
    "sim_idle c (c\<lparr>list_sub_wait_ack := l\<rparr>)" "sim_idle c (c\<lparr>world := tick k (world c)\<rparr>)" for k l
    by (simp_all add: sim_idle_def sub_timeout_notify_def)
  with IH i show ?case by (auto simp: node Let_def)
qed simp

lemma info_proc_idle: "sim_idle c (qcloud_iot_mqtt_sub_info_proc sim_os (qcloud_iot_mqtt_pub_info_proc sim_os c))"
proof -
  have m: "sim_idle c (c\<lparr>world := (world c)\<lparr>sim_next := k\<rparr>\<rparr>)" for c k by (simp add: sim_idle_def)
  have "sim_idle c (qcloud_iot_mqtt_pub_info_proc sim_os c)" for c
    using sim_idle_trans [OF m pub_loop_idle] by (simp add: qcloud_iot_mqtt_pub_info_proc_def sim_malloc)
  moreover have "sim_idle c (qcloud_iot_mqtt_sub_info_proc sim_os c)" for c
    using sim_idle_trans [OF m sub_loop_idle] by (simp add: qcloud_iot_mqtt_sub_info_proc_def sim_malloc)
  ultimately show ?thesis using sim_idle_trans by blast
qed

lemma sim_yield_step_idle:
  assumes "net_ok sim_os (network_stack c)" and "sim_in (world c) = []" and "keep_alive_interval (options c) = 0"
  shows "\<exists>c'. yield_step sim_os timer c = Some (0, timer, c') \<and> link c' = link c \<and> sim_in (world c') = [] \<and> sim_ms (world c) < sim_ms (world c')"
proof -
  obtain m where m: "m \<ge> 1" "cycle_for_read sim_os timer 0 c = Some (0, timer, 0, c\<lparr>world := tick m (world c)\<rparr>)"
    using sim_cycle_idle [OF assms(1,2)] by blast
  let ?c = "c\<lparr>world := tick m (world c)\<rparr>"
  let ?c' = "qcloud_iot_mqtt_sub_info_proc sim_os (qcloud_iot_mqtt_pub_info_proc sim_os ?c)"
  have l: "link ?c' = link c" by simp
  have "mqtt_keep_alive sim_os ?c' = Some (0, ?c')" using link_D(7) [OF l] assms(3) by (simp add: mqtt_keep_alive_def)
  with m info_proc_idle [of ?c] l assms(2) show ?thesis
    by (intro exI [of _ ?c']) (auto simp: yield_step_def sim_idle_def)
qed

lemma sim_yield_loop_idle:
  assumes "net_ok sim_os (network_stack c)" and "sim_in (world c) = []" and "keep_alive_interval (options c) = 0" and "is_connected c"
    and "sim_deadline timer d"
  shows "\<exists>c'. yield_loop sim_os timer 0 c = Some (0, c') \<and> link c' = link c \<and> d \<le> sim_ms (world c')"
  using assms
proof (induction "d - sim_ms (world c)" arbitrary: c rule: less_induct)
  case less
  let ?c1 = "c\<lparr>world := tick 1 (world c)\<rparr>"
  have e: "expired sim_os timer c = (d \<le> sim_ms (world c), ?c1)" by (rule sim_expired [OF less.prems(5)])
  show ?case
  proof (cases "d \<le> sim_ms (world c)")
    case True
    then show ?thesis by (subst yield_loop.simps) (simp add: e)
  next
    case False
    obtain c2 where s: "yield_step sim_os timer ?c1 = Some (0, timer, c2)" and l: "link c2 = link ?c1"
      and w: "sim_in (world c2) = []" "sim_ms (world ?c1) < sim_ms (world c2)"
      using sim_yield_step_idle [of ?c1 timer] less.prems by auto
    have l2: "link c2 = link c" using l by simp
    have "\<exists>c'. yield_loop sim_os timer 0 c2 = Some (0, c') \<and> link c' = link c2 \<and> d \<le> sim_ms (world c')"
      by (rule less.hyps) (use False w link_D [OF l2] less.prems in auto)
    then obtain c' where "yield_loop sim_os timer 0 c2 = Some (0, c')" "link c' = link c2" "d \<le> sim_ms (world c')" by blast
    moreover have "yield_loop sim_os timer 0 c = yield_loop sim_os timer 0 c2"
      using False s less.prems(4) by (subst yield_loop.simps) (simp add: e get_client_conn_state_def)
    ultimately show ?thesis using l2 by simp
  qed
qed

section \<open>A client without a network\<close>

text \<open>The kernel of the theory \<^verbatim>\<open>Hal_Model\<close>, where no name can be resolved, and a client that lost its connection on it.\<close>

definition offline_os :: "sim os" where
  "offline_os = sim_os\<lparr>os_getaddrinfo := (\<lambda>h p w. (None, w))\<rparr>"

definition offline_client :: "sim client" where
  "offline_client = (demo_client [] [])\<lparr>is_connected := False, current_reconnect_wait_interval := 1500,
     network_stack := (snd (qcloud_iot_mqtt_network_init offline_os null_network))\<lparr>nw_handle := 3\<rparr>\<rparr>"

lemma offline_calls [simp]:
  "os_getaddrinfo offline_os h p w = (None, w)" "os_gettimeofday offline_os w = os_gettimeofday sim_os w"
  "os_send offline_os fd bs w = os_send sim_os fd bs w" "os_recv offline_os fd n w = os_recv sim_os fd n w"
  "os_shutdown offline_os sd w = (0, w)" "os_close offline_os sd w = (0, w)"
  by (simp_all only: offline_os_def sim_os_def os.simps)

lemma offline_kernel_ok [simp]: "kernel_ok offline_os"
  using sim_kernel_ok unfolding kernel_ok_def offline_calls .

lemma offline_client_inv [simp]: "client_inv offline_os offline_client"
  using demo_client_inv [of "[]" "[]"]
  by (simp add: client_inv_def offline_client_def net_ok_def qcloud_iot_mqtt_network_init_def qcloud_iot_network_init_def Let_def)

lemma offline_connect:
  "\<exists>c'. qcloud_iot_mqtt_connect offline_os params (offline_client\<lparr>world := w\<rparr>) = Some (-1, c')
     \<and> \<not> is_connected c' \<and> current_reconnect_wait_interval c' = 1500"
  by (auto simp: qcloud_iot_mqtt_connect_def offline_client_def get_client_conn_state_def mqtt_connect_def countdown_ms_def HAL_Timer_countdown_ms_def
      net_connect_def qcloud_iot_mqtt_network_init_def qcloud_iot_network_init_def network_tcp_connect_def HAL_TCP_Connect_def net_disconnect_def Let_def
      split: prod.split)

lemma sim_yield_idle:
  assumes "client_inv sim_os c" and "is_connected c" and "sim_in (world c) = []" and "keep_alive_interval (options c) = 0" and "0 < t"
  shows "\<exists>c'. qcloud_iot_mqtt_yield sim_os t c = Some (QCLOUD_RET_SUCCESS, c') \<and> link c' = link c \<and> sim_ms (world c) + t \<le> sim_ms (world c')"
proof -
  obtain timer where tm: "countdown_ms sim_os InitTimer t c = (timer, c\<lparr>world := tick 1 (world c)\<rparr>)" "sim_deadline timer (sim_ms (world c) + t)"
    using sim_countdown_ms by blast
  have "\<exists>c'. yield_loop sim_os timer 0 (c\<lparr>world := tick 1 (world c)\<rparr>) = Some (0, c') \<and> link c' = link (c\<lparr>world := tick 1 (world c)\<rparr>) \<and>
      sim_ms (world c) + t \<le> sim_ms (world c')"
    by (rule sim_yield_loop_idle) (use assms tm client_inv_net in auto)
  with tm(1) assms show ?thesis by (simp add: qcloud_iot_mqtt_yield_def get_client_conn_state_def)
qed

lemma demo_options: "options (demo_client rx peer) = null_options"
  "keep_alive_interval null_options = 0"
  by (simp_all add: demo_client_def null_options_def)

section \<open>Properties\<close>

text \<open>
  C21: Connecting an unconnected client returns success exactly if the client is connected afterwards;
  then no ping is outstanding and the disconnection does not count as manual. On any failure the
  socket has been closed and its descriptor forgotten. The reconnection schedule is not touched.
\<close>

theorem connect_result:
  assumes "kernel_ok os" and "client_inv os c" and "\<not> is_connected c" and "qcloud_iot_mqtt_connect os params c = Some (rc, c')"
  shows "(rc = QCLOUD_RET_SUCCESS \<longleftrightarrow> is_connected c') \<and>
     (is_connected c' \<longrightarrow> \<not> was_manually_disconnected c' \<and> is_ping_outstanding c' = 0) \<and>
     (rc \<noteq> QCLOUD_RET_SUCCESS \<longrightarrow> nw_handle (network_stack c') = 0) \<and>
     current_reconnect_wait_interval c' = current_reconnect_wait_interval c"
  using wp_D2 [OF connect_outcome [OF assms(1-3)] assms(4)] by (simp add: conn_outcome_def)

theorem connect_result_witness:
  "\<exists>c'. qcloud_iot_mqtt_connect offline_os null_options offline_client = Some (-1, c') \<and>
     \<not> is_connected c' \<and> nw_handle (network_stack c') = 0"
proof -
  obtain c' where r: "qcloud_iot_mqtt_connect offline_os null_options offline_client = Some (-1, c')"
    using offline_connect [of null_options "world offline_client"] by auto
  have "\<not> is_connected offline_client" by (simp add: offline_client_def)
  from connect_result [OF _ _ this r] r show ?thesis by simp
qed

text \<open>
  Losing the connection: whatever becomes of the DISCONNECT packet, the client is unconnected
  afterwards, the disconnection does not count as manual, and the application's event handler, if
  there is one, has been told exactly once.
\<close>

lemma disconnect_is_reported:
  assumes "is_connected c" and "handle_disconnect os c = Some (rc, c')"
  shows "rc = QCLOUD_ERR_MQTT_NO_CONN \<and> \<not> is_connected c' \<and> \<not> was_manually_disconnected c' \<and>
     trace c' = trace c @ (case h_fp (event_handle c) of None \<Rightarrow> []
       | Some f \<Rightarrow> [EventCb f (h_context (event_handle c)) MQTT_EVENT_DISCONNECT NoArg])"
  using wp_D2 [OF handle_disconnect_outcome [OF assms(1)] assms(2)] .

text \<open>
  C22: One round of the reconnection logic on an unconnected client. Before the waiting time is over it does nothing but look
  at the clock. Then it connects. If that fails the client stays unconnected and backs off: the interval is doubled, and either
  it exceeds a minute and the result is the final timeout, or the delay timer is set to it. If it succeeds the
  subscriptions are renewed, and the client is connected from then on: with success the round reports the reconnection, tells the
  application and leaves the interval; a failed renewal counts as a failed attempt, and the connected client backs off
  all the same.
\<close>

theorem reconnect_backoff:
  assumes "kernel_ok os" and "client_inv os c" and "\<not> is_connected c" and "handle_reconnect os c = Some (rc, c')"
    and "expired os (reconnect_delay_timer c) c = (e, c1)"
  shows "if \<not> e then rc = QCLOUD_ERR_MQTT_ATTEMPTING_RECONNECT \<and> c' = c1
     else \<exists>r c2. qcloud_iot_mqtt_connect os (options c1) c1 = Some (r, c2) \<and>
       (if r \<noteq> QCLOUD_RET_SUCCESS
        then backed_off os (current_reconnect_wait_interval c) c2 rc c' \<and> \<not> is_connected c'
        else \<exists>s c3. qcloud_iot_mqtt_resubscribe os c2 = Some (s, c3) \<and> is_connected c' \<and>
          (if s \<noteq> QCLOUD_RET_SUCCESS then backed_off os (current_reconnect_wait_interval c) c3 rc c'
           else rc = QCLOUD_RET_MQTT_RECONNECTED \<and> c' = reconnect_callback c3 \<and>
             current_reconnect_wait_interval c' = current_reconnect_wait_interval c))"
proof (cases e)
  case False
  then show ?thesis using assms(4,5) by (simp add: handle_reconnect_def)
next
  case True
  have l: "link c1 = link c" by (rule link_timers(1) [OF assms(5)])
  have inv1: "client_inv os c1" using assms(2,5) by (simp add: env_inv)
  have off1: "\<not> is_connected c1" and i: "current_reconnect_wait_interval c1 = current_reconnect_wait_interval c"
    using assms(3) link_D [OF l] by simp_all
  have phys: "nw_is_connected (network_stack c1) (nw_handle (network_stack c1)) \<noteq> 0"
    using client_inv_net [OF inv1] by (simp add: net_ok_def qcloud_iot_mqtt_tls_is_connected_def)
  obtain r c2 where r: "qcloud_iot_mqtt_connect os (options c1) c1 = Some (r, c2)"
    using assms(4) True off1 phys
    by (auto simp: handle_reconnect_def assms(5) qcloud_iot_mqtt_attempt_reconnect_def get_client_conn_state_def bind_Some_iff)
  have out: "(r = 0) = is_connected c2" "current_reconnect_wait_interval c2 = current_reconnect_wait_interval c"
    using wp_D2 [OF connect_outcome [OF assms(1) inv1 off1] r] i by (simp_all add: conn_outcome_def)
  show ?thesis
  proof (cases "r = 0")
    case False
    have "r \<noteq> QCLOUD_RET_MQTT_RECONNECTED" using wp_D2 [OF connect_not_positive [OF assms(1) inv1] r] off1 by auto
    with False out have "backed_off os (current_reconnect_wait_interval c) c2 rc c'"
      using assms(4) True off1 phys r
      by (auto simp: handle_reconnect_def assms(5) qcloud_iot_mqtt_attempt_reconnect_def get_client_conn_state_def backed_off_def Let_def mult.commute split: if_splits)
    with False True r out backed_off_connected [OF this] show ?thesis by auto
  next
    case z: True
    obtain s c3 where s: "qcloud_iot_mqtt_resubscribe os c2 = Some (s, c3)"
      using assms(4) True off1 phys r out z
      by (auto simp: handle_reconnect_def assms(5) qcloud_iot_mqtt_attempt_reconnect_def get_client_conn_state_def bind_Some_iff)
    have "s \<noteq> QCLOUD_RET_MQTT_RECONNECTED" using resubscribe_result [OF s] by simp
    note s = s this
    have l3: "is_connected c3" "current_reconnect_wait_interval c3 = current_reconnect_wait_interval c"
      using link_D [OF resubscribe_link [OF s(1)]] out z by simp_all
    have "backed_off os (current_reconnect_wait_interval c) c3 rc c'" if "s \<noteq> QCLOUD_RET_SUCCESS"
      using assms(4) True off1 phys r out z s l3 that
      by (auto simp: handle_reconnect_def assms(5) qcloud_iot_mqtt_attempt_reconnect_def get_client_conn_state_def backed_off_def Let_def mult.commute split: if_splits)
    moreover have "rc = QCLOUD_RET_MQTT_RECONNECTED \<and> c' = reconnect_callback c3" if "s = QCLOUD_RET_SUCCESS"
      using assms(4) True off1 phys r out z s that
      by (auto simp: handle_reconnect_def assms(5) qcloud_iot_mqtt_attempt_reconnect_def get_client_conn_state_def split: if_splits)
    ultimately show ?thesis using True z r s l3 by (auto simp: reconnect_callback_connected dest: backed_off_connected)
  qed
qed

theorem reconnect_backoff_witness:
  "\<exists>c'. handle_reconnect offline_os offline_client = Some (QCLOUD_ERR_MQTT_ATTEMPTING_RECONNECT, c') \<and>
     current_reconnect_wait_interval c' = 3000 \<and> \<not> is_connected c'"
proof -
  let ?c = "offline_client\<lparr>world := tick 1 (world offline_client)\<rparr>"
  have off: "\<not> is_connected offline_client" and i: "current_reconnect_wait_interval offline_client = 1500"
    and off_timer: "reconnect_delay_timer offline_client = InitTimer" "world offline_client = sim_world [] 0"
    by (simp_all add: offline_client_def demo_client_def)
  have t: "expired offline_os (reconnect_delay_timer offline_client) offline_client = (True, ?c)"
    by (simp add: expired_def HAL_Timer_expired_def timersub_def off_timer InitTimer_def HAL_Timer_init_def)
  obtain c1 where c1: "qcloud_iot_mqtt_connect offline_os (options ?c) ?c = Some (-1, c1)" "\<not> is_connected c1"
    using offline_connect by blast
  have "qcloud_iot_mqtt_attempt_reconnect offline_os ?c = Some (-1, c1)"
    using c1 off by (simp add: qcloud_iot_mqtt_attempt_reconnect_def get_client_conn_state_def)
  then have "handle_reconnect offline_os offline_client \<noteq> None"
    using t client_inv_net [OF offline_client_inv]
    by (auto simp: handle_reconnect_def Let_def net_ok_def qcloud_iot_mqtt_tls_is_connected_def)
  then obtain rc c' where r: "handle_reconnect offline_os offline_client = Some (rc, c')" by auto
  have "backed_off offline_os 1500 c1 rc c' \<and> \<not> is_connected c'"
    using reconnect_backoff [OF _ _ off r t] c1(1) i by auto
  then show ?thesis
    using r link_D(4) [OF set_reconnect_delay_link [of offline_os "c1\<lparr>current_reconnect_wait_interval := 3000\<rparr>"]]
    by (auto simp: backed_off_def)
qed

text \<open>
  The first waiting time is between 1 and 1.99 seconds, and doubling it takes it past the limit of a
  minute after five or six failed attempts, without overflow.
\<close>

lemma reconnect_attempts_bounded:
  assumes "get_random_interval os c = (i, c')"
  shows "1000 \<le> i \<and> i \<le> 1990 \<and> (\<forall>k \<le> 4. unat (i * 2 ^ k) = unat i * 2 ^ k \<and> i * 2 ^ k \<le> MAX_RECONNECT_WAIT_INTERVAL) \<and>
     MAX_RECONNECT_WAIT_INTERVAL < i * 2 ^ 6"
proof -
  note b = random_interval_bounds [OF assms]
  have u: "unat (i * 2 ^ k) = unat i * 2 ^ k" if "k \<le> 6" for k
  proof -
    have "unat i * 2 ^ k \<le> 1990 * 2 ^ 6" by (rule mult_mono) (use b that power_increasing [of k 6 "2::nat"] in simp_all)
    then have small: "unat i * 2 ^ k < 268435456" by simp
    have "i * 2 ^ k = of_nat (unat i * 2 ^ k)" by simp
    then show ?thesis using small unat_of_nat_u32 [of "unat i * 2 ^ k"] by simp
  qed
  show ?thesis
  proof (intro conjI allI impI)
    show "1000 \<le> i" "i \<le> 1990" using b by (simp_all add: word_le_nat_alt)
    show "MAX_RECONNECT_WAIT_INTERVAL < i * 2 ^ 6" using b u [of 6] by (simp add: word_less_nat_alt)
    fix k :: nat assume k: "k \<le> 4"
    then show "unat (i * 2 ^ k) = unat i * 2 ^ k" by (intro u) simp
    have "unat i * 2 ^ k \<le> 1990 * 2 ^ 4" by (rule mult_mono) (use b k power_increasing [of k 4 "2::nat"] in simp_all)
    then show "i * 2 ^ k \<le> MAX_RECONNECT_WAIT_INTERVAL" using u [of k] k by (simp add: word_le_nat_alt)
  qed
qed

text \<open>
  C20: When the main loop returns success, the client is connected, with one exception: a client that was unconnected when the
  loop was called and whose time was over when the loop first looked at the clock, so that nothing was tried. It never reports
  success over a connection lost on the way.
\<close>

theorem yield_success_means_connected:
  assumes "kernel_ok os" and "client_inv os c" and "qcloud_iot_mqtt_yield os t c = Some (QCLOUD_RET_SUCCESS, c')"
  shows "is_connected c' \<or>
     \<not> is_connected c \<and> (let (timer, c1) = countdown_ms os InitTimer t c in expired os timer c1 = (True, c'))"
proof -
  obtain timer c1 where t: "countdown_ms os InitTimer t c = (timer, c1)" by fastforce
  have inv1: "client_inv os c1" and same: "is_connected c1 = is_connected c"
    using assms(2) t link_D(1) [OF link_timers(2) [OF t]] by (simp_all add: env_inv)
  have "yield_loop os timer 0 c1 = Some (0, c')"
    using assms(3) by (auto simp: qcloud_iot_mqtt_yield_def t split: if_splits)
  then show ?thesis
    using yield_loop_success [OF _ assms(1) inv1] yield_loop_unconnected [OF assms(1) inv1] same t by fastforce
qed

theorem yield_success_means_connected_witness:
  "\<exists>c'. qcloud_iot_mqtt_yield sim_os 200 (demo_client [] []) = Some (0, c') \<and> is_connected c'"
proof -
  obtain c' where r: "qcloud_iot_mqtt_yield sim_os 200 (demo_client [] []) = Some (0, c')"
    using sim_yield_idle [of "demo_client [] []" 200] demo_client_inv [of "[]" "[]"] by (auto simp: demo_options)
  from yield_success_means_connected [OF _ _ r] r show ?thesis by simp
qed

text \<open>
  C19: The main loop returns: on a connected client whose peer is silent and whose keep-alive is off,
  it comes back with success once the time asked for has passed, and not before, the connection
  as it was.
\<close>

theorem idle_yield_returns:
  assumes "client_inv sim_os c" and "is_connected c" and "sim_in (world c) = []" and "keep_alive_interval (options c) = 0" and "0 < t"
  shows "\<exists>c'. qcloud_iot_mqtt_yield sim_os t c = Some (QCLOUD_RET_SUCCESS, c') \<and> link c' = link c \<and> sim_ms (world c) + t \<le> sim_ms (world c')"
  using sim_yield_idle [OF assms] .

theorem idle_yield_returns_witness:
  "\<exists>c'. qcloud_iot_mqtt_yield sim_os 200 (demo_client [] []) = Some (0, c') \<and> 200 \<le> sim_ms (world c')"
  using idle_yield_returns [of "demo_client [] []" 200] demo_client_inv [of "[]" "[]"] by (auto simp: demo_options)

end
