(* ===== verification/Sine_Table.thy ===== *)
theory Sine_Table
  imports Complex_Main
begin

text \<open>
  The constants of MD5 are digits of sines. This theory computes the sines of the integers up to 64 in exact integer
  arithmetic, with a bound on the error, so that the integer parts can be checked by evaluation.
\<close>

text \<open>
  Sine and cosine of the integers in fixed-point numbers with 110 binary digits, by the addition theorems from those of 1. The
  error doubles from step to step.
\<close>

definition fix_unit :: int where "fix_unit = 2 ^ 110"
definition sin_1 :: int where "sin_1 = 0x35DAA91E1219DC0831BA7A427143"
definition cos_1 :: int where "cos_1 = 0x2294501F6A0D172470919B65DA1C"

definition sin_cos_step :: "int \<times> int \<Rightarrow> int \<times> int" where
  "sin_cos_step = (\<lambda>(s, c). (drop_bit 110 (s * cos_1 + c * sin_1), drop_bit 110 (c * cos_1 - s * sin_1)))"

fun sin_cos :: "nat \<Rightarrow> int \<times> int" where
  "sin_cos 0 = (0, fix_unit)"
| "sin_cos (Suc n) = sin_cos_step (sin_cos n)"

abbreviation fix_real :: "int \<Rightarrow> real" where "fix_real n \<equiv> real_of_int n / real_of_int fix_unit"

lemma sin_1_close: "\<bar>fix_real sin_1 - sin 1\<bar> \<le> 2 / real_of_int fix_unit"
proof -
  have "\<bar>sin 1 - (\<Sum>m<36. sin_coeff m * (1 :: real) ^ m)\<bar> \<le> inverse (fact 36)"
    using Maclaurin_sin_bound [of 1 36] by simp
  then have "sin 1 - (\<Sum>m<36. sin_coeff m * (1 :: real) ^ m) \<le> inverse (fact 36)" "(\<Sum>m<36. sin_coeff m * (1 :: real) ^ m) - sin 1 \<le> inverse (fact 36)"
    by linarith+
  then show ?thesis
    unfolding abs_le_iff by (simp_all add: sin_coeff_def lessThan_nat_numeral fact_numeral sin_1_def fix_unit_def field_simps)
qed

lemma cos_1_close: "\<bar>fix_real cos_1 - cos 1\<bar> \<le> 2 / real_of_int fix_unit"
proof -
  obtain t :: real where t: "cos 1 = (\<Sum>m<36. cos_coeff m * (1 :: real) ^ m) + cos (t + 1 / 2 * real 36 * pi) / fact 36 * 1 ^ 36"
    using Maclaurin_cos_expansion [of 1 36] by blast
  define r where "r = cos (t + 1 / 2 * real 36 * pi)"
  have r: "cos 1 = (\<Sum>m<36. cos_coeff m * (1 :: real) ^ m) + r / fact 36" "\<bar>r\<bar> \<le> 1"
    unfolding r_def using t by (simp_all only: power_one mult_1_right abs_cos_le_one)
  have "\<bar>r / fact 36\<bar> \<le> 1 / fact 36" using r(2) by (simp add: abs_divide divide_right_mono)
  with r(1) have "\<bar>cos 1 - (\<Sum>m<36. cos_coeff m * (1 :: real) ^ m)\<bar> \<le> 1 / fact 36" by linarith
  then have "cos 1 - (\<Sum>m<36. cos_coeff m * (1 :: real) ^ m) \<le> 1 / fact 36" "(\<Sum>m<36. cos_coeff m * (1 :: real) ^ m) - cos 1 \<le> 1 / fact 36"
    by linarith+
  then show ?thesis
    unfolding abs_le_iff by (simp_all add: cos_coeff_def lessThan_nat_numeral fact_numeral cos_1_def fix_unit_def field_simps)
qed

text \<open>One use of an addition theorem: products of numbers of absolute value at most 1, and a rounding.\<close>

lemma product_close:
  fixes a b x y :: real
  assumes "\<bar>a - x\<bar> \<le> e" and "\<bar>b - y\<bar> \<le> d" and "\<bar>b\<bar> \<le> 1" and "\<bar>x\<bar> \<le> 1"
  shows "\<bar>a * b - x * y\<bar> \<le> e + d"
proof -
  have "a * b - x * y = (a - x) * b + x * (b - y)" by (simp add: algebra_simps)
  then have "\<bar>a * b - x * y\<bar> \<le> \<bar>a - x\<bar> * \<bar>b\<bar> + \<bar>x\<bar> * \<bar>b - y\<bar>" by (metis abs_mult abs_triangle_ineq)
  also have "\<dots> \<le> e * 1 + 1 * d" using assms by (intro add_mono mult_mono) auto
  finally show ?thesis by simp
qed

lemma round_close: "\<bar>fix_real (n div fix_unit) - real_of_int n / (real_of_int fix_unit * real_of_int fix_unit)\<bar> \<le> 1 / real_of_int fix_unit"
proof -
  let ?u = "real_of_int fix_unit" and ?q = "real_of_int (n div fix_unit)"
  have u: "0 < fix_unit" "0 < ?u" by (simp_all add: fix_unit_def)
  have "real_of_int n = ?q * ?u + real_of_int (n mod fix_unit)"
    by (metis div_mult_mod_eq of_int_add of_int_mult)
  moreover have "0 \<le> n mod fix_unit" "n mod fix_unit \<le> fix_unit" using u(1) by (simp_all add: order.strict_implies_order)
  then have "\<bar>real_of_int (n mod fix_unit)\<bar> \<le> ?u" by simp
  ultimately have "\<bar>?q * ?u - real_of_int n\<bar> \<le> ?u" by simp
  then have "\<bar>?q * ?u - real_of_int n\<bar> / (?u * ?u) \<le> ?u / (?u * ?u)" using u(2) by (intro divide_right_mono) simp_all
  moreover have "\<bar>?q * ?u - real_of_int n\<bar> / (?u * ?u) = \<bar>(?q * ?u - real_of_int n) / (?u * ?u)\<bar>" using u(2) by (simp add: abs_divide abs_mult)
  moreover have "(?q * ?u - real_of_int n) / (?u * ?u) = ?q / ?u - real_of_int n / (?u * ?u)" using u(2) by (simp add: diff_divide_distrib)
  ultimately show ?thesis using u(2) by simp
qed

lemma sin_cos_close:
  "sin_cos n = (s, c) \<Longrightarrow> \<bar>fix_real s - sin (real n)\<bar> \<le> 5 * (2 ^ n - 1) / real_of_int fix_unit \<and> \<bar>fix_real c - cos (real n)\<bar> \<le> 5 * (2 ^ n - 1) / real_of_int fix_unit"
proof (induction n arbitrary: s c)
  case 0
  then show ?case by (auto simp: fix_unit_def)
next
  case (Suc n)
  obtain s' c' where p: "sin_cos n = (s', c')" by fastforce
  let ?u = "real_of_int fix_unit"
  define S C s1 c1 e d where "S = fix_real s'" and "C = fix_real c'" and "s1 = fix_real sin_1" and "c1 = fix_real cos_1"
    and "e = 5 * (2 ^ n - 1) / ?u" and "d = 2 / ?u"
  have one: "\<bar>s1\<bar> \<le> 1" "\<bar>c1\<bar> \<le> 1" "\<bar>s1 - sin 1\<bar> \<le> d" "\<bar>c1 - cos 1\<bar> \<le> d"
    using sin_1_close cos_1_close by (simp_all add: sin_1_def cos_1_def s1_def c1_def d_def fix_unit_def)
  have IH: "\<bar>S - sin n\<bar> \<le> e" "\<bar>C - cos n\<bar> \<le> e" using Suc.IH [OF p] by (simp_all add: S_def C_def e_def)
  have s: "s = (s' * cos_1 + c' * sin_1) div fix_unit" "c = (c' * cos_1 - s' * sin_1) div fix_unit" using Suc.prems p by (simp_all add: sin_cos_step_def drop_bit_eq_div fix_unit_def)
  have e: "5 * (2 ^ Suc n - 1) / ?u = (e + d) + (e + d) + 1 / ?u" by (simp add: e_def d_def diff_divide_distrib add_divide_distrib [symmetric])
  have split: "real_of_int (s' * cos_1 + c' * sin_1) / (?u * ?u) = S * c1 + C * s1" "real_of_int (c' * cos_1 - s' * sin_1) / (?u * ?u) = C * c1 - S * s1"
    by (simp_all add: S_def C_def s1_def c1_def add_divide_distrib diff_divide_distrib)
  have r: "\<bar>fix_real s - (S * c1 + C * s1)\<bar> \<le> 1 / ?u" "\<bar>fix_real c - (C * c1 - S * s1)\<bar> \<le> 1 / ?u"
    using round_close [of "s' * cos_1 + c' * sin_1"] round_close [of "c' * cos_1 - s' * sin_1"] unfolding s split by simp_all
  have a: "\<bar>S * c1 - sin n * cos 1\<bar> \<le> e + d" "\<bar>C * s1 - cos n * sin 1\<bar> \<le> e + d" "\<bar>C * c1 - cos n * cos 1\<bar> \<le> e + d" "\<bar>S * s1 - sin n * sin 1\<bar> \<le> e + d"
    by (rule product_close; use IH one in simp)+
  have t: "sin (real (Suc n)) = sin n * cos 1 + cos n * sin 1" "cos (real (Suc n)) = cos n * cos 1 - sin n * sin 1"
    using sin_add [of "real n" 1] cos_add [of "real n" 1] by (simp_all add: add.commute)
  show ?case unfolding e t using r a by linarith
qed

text \<open>A number whose distance to the approximation excludes every other integer part.\<close>

definition sine_digit :: "int \<Rightarrow> int \<Rightarrow> bool" where
  "sine_digit s t \<longleftrightarrow> t * fix_unit \<le> (\<bar>s\<bar> - 5 * 2 ^ 64) * 2 ^ 32 \<and> (\<bar>s\<bar> + 5 * 2 ^ 64) * 2 ^ 32 < (t + 1) * fix_unit"

lemma sine_digit_floor:
  assumes "sin_cos n = (s, c)" and "n \<le> 64" and "sine_digit s t"
  shows "\<lfloor>2 ^ 32 * \<bar>sin (real n)\<bar>\<rfloor> = t"
proof -
  let ?u = "real_of_int fix_unit" and ?e = "5 * 2 ^ 64 :: real"
  have u: "0 < ?u" by (simp add: fix_unit_def)
  have "(2 :: real) ^ n \<le> 2 ^ 64" using assms(2) by (intro power_increasing) simp_all
  then have "5 * (2 ^ n - 1) / ?u \<le> ?e / ?u" using u by (intro divide_right_mono) simp_all
  with sin_cos_close [OF assms(1)] have "\<bar>fix_real s - sin (real n)\<bar> \<le> ?e / ?u" by linarith
  then have "\<bar>\<bar>fix_real s\<bar> - \<bar>sin (real n)\<bar>\<bar> \<le> ?e / ?u" by linarith
  moreover have "\<bar>fix_real s\<bar> = real_of_int \<bar>s\<bar> / ?u" using u by (simp add: abs_divide)
  ultimately have "\<bar>sin (real n)\<bar> \<le> (real_of_int \<bar>s\<bar> + ?e) / ?u" "(real_of_int \<bar>s\<bar> - ?e) / ?u \<le> \<bar>sin (real n)\<bar>"
    unfolding add_divide_distrib diff_divide_distrib by linarith+
  then have b: "?u * \<bar>sin (real n)\<bar> \<le> real_of_int \<bar>s\<bar> + ?e" "real_of_int \<bar>s\<bar> - ?e \<le> ?u * \<bar>sin (real n)\<bar>"
    using u by (simp_all add: field_simps)
  have "real_of_int (t * fix_unit) \<le> real_of_int ((\<bar>s\<bar> - 5 * 2 ^ 64) * 2 ^ 32)" "real_of_int ((\<bar>s\<bar> + 5 * 2 ^ 64) * 2 ^ 32) < real_of_int ((t + 1) * fix_unit)"
    using assms(3) unfolding sine_digit_def of_int_le_iff of_int_less_iff by blast+
  then have l: "real_of_int t * ?u \<le> (real_of_int \<bar>s\<bar> - ?e) * 2 ^ 32" "(real_of_int \<bar>s\<bar> + ?e) * 2 ^ 32 < (real_of_int t + 1) * ?u" by simp_all
  have m: "(real_of_int \<bar>s\<bar> - ?e) * 2 ^ 32 \<le> (?u * \<bar>sin (real n)\<bar>) * 2 ^ 32" "(?u * \<bar>sin (real n)\<bar>) * 2 ^ 32 \<le> (real_of_int \<bar>s\<bar> + ?e) * 2 ^ 32"
    using b by (intro mult_right_mono; simp)+
  have "real_of_int t * ?u \<le> (?u * \<bar>sin (real n)\<bar>) * 2 ^ 32" "(?u * \<bar>sin (real n)\<bar>) * 2 ^ 32 < (real_of_int t + 1) * ?u"
    by (rule order_trans [OF l(1) m(1)], rule order_le_less_trans [OF m(2) l(2)])
  moreover have "(?u * \<bar>sin (real n)\<bar>) * 2 ^ 32 = (2 ^ 32 * \<bar>sin (real n)\<bar>) * ?u" by (simp only: ac_simps)
  ultimately have "real_of_int t * ?u \<le> (2 ^ 32 * \<bar>sin (real n)\<bar>) * ?u" "(2 ^ 32 * \<bar>sin (real n)\<bar>) * ?u < (real_of_int t + 1) * ?u"
    by (simp_all only:)
  then have "real_of_int t \<le> 2 ^ 32 * \<bar>sin (real n)\<bar>" "2 ^ 32 * \<bar>sin (real n)\<bar> < real_of_int t + 1"
    using u by (simp_all only: mult_le_cancel_right_pos mult_less_cancel_right_pos)
  then show ?thesis by (intro floor_unique) simp_all
qed

fun check_sines :: "int \<times> int \<Rightarrow> int list \<Rightarrow> bool" where
  "check_sines p [] = True"
| "check_sines p (t # ts) = (let p = sin_cos_step p in sine_digit (fst p) t \<and> check_sines p ts)"

lemma check_sines_floor:
  assumes "check_sines (sin_cos n) ts" and "n + length ts \<le> 64" and "i < length ts"
  shows "\<lfloor>2 ^ 32 * \<bar>sin (real (n + i + 1))\<bar>\<rfloor> = ts ! i"
  using assms
proof (induction ts arbitrary: n i)
  case (Cons t ts)
  have step: "sin_cos (Suc n) = sin_cos_step (sin_cos n)" by simp
  show ?case
  proof (cases i)
    case 0
    have "sine_digit (fst (sin_cos (Suc n))) t" using Cons.prems(1) by (simp add: Let_def)
    then show ?thesis using sine_digit_floor [OF prod.collapse [symmetric], of "Suc n" t] Cons.prems(2) 0 by simp
  next
    case (Suc j)
    have "check_sines (sin_cos (Suc n)) ts" using Cons.prems(1) by (simp add: Let_def)
    from Cons.IH [OF this, of j] Cons.prems Suc show ?thesis by simp
  qed
qed simp

end
