(* ===== verification/Utils_Md5.thy ===== *)
theory Utils_Md5
  imports Sine_Table Utils_Hmac
begin

text \<open>
  MD5 and HMAC-MD5 as \<^verbatim>\<open>utils_md5.c\<close> and \<^verbatim>\<open>utils_hmac.c\<close> compute them; firmware images are checked with the digest as a
  string. The reference is RFC 1321, with the constants given by the sine function, and RFC 2104.
\<close>

section \<open>The context and the block function\<close>

type_synonym md5_state = "u32 \<times> u32 \<times> u32 \<times> u32"

type_synonym iot_md5_context = "md5_state digest_context"

text \<open>The macros of the file: little-endian words and the rotation.\<close>

definition MD5_GET_UINT32_LE :: "u8 list \<Rightarrow> nat \<Rightarrow> u32" where
  "MD5_GET_UINT32_LE b i =
     ucast (b ! i) OR push_bit 8 (ucast (b ! (i + 1))) OR push_bit 16 (ucast (b ! (i + 2))) OR push_bit 24 (ucast (b ! (i + 3)))"

definition MD5_PUT_UINT32_LE :: "u32 \<Rightarrow> u8 list" where
  "MD5_PUT_UINT32_LE n =
     [ucast (n AND 0xFF), ucast (drop_bit 8 n AND 0xFF), ucast (drop_bit 16 n AND 0xFF), ucast (drop_bit 24 n AND 0xFF)]"

definition md5_S :: "u32 \<Rightarrow> nat \<Rightarrow> u32" where
  "md5_S x n = push_bit n x OR drop_bit (32 - n) (x AND 0xFFFFFFFF)"

text \<open>The four definitions of the macro \<^verbatim>\<open>F\<close>, by the number of the step.\<close>

definition md5_F :: "nat \<Rightarrow> u32 \<Rightarrow> u32 \<Rightarrow> u32 \<Rightarrow> u32" where
  "md5_F i x y z =
     (if i < 16 then z XOR (x AND (y XOR z))
      else if i < 32 then y XOR (z AND (x XOR y))
      else if i < 48 then x XOR y XOR z
      else y XOR (x OR NOT z))"

text \<open>
  The macro \<^verbatim>\<open>P\<close>. As with SHA-1 the tuple rotates instead of the variables: its components are the arguments
  \<^verbatim>\<open>a, b, c, d\<close> of the next call, and after 64 calls every variable has its own place again.
\<close>

definition md5_P :: "u32 list \<Rightarrow> nat \<Rightarrow> nat \<times> nat \<times> u32 \<Rightarrow> md5_state \<Rightarrow> md5_state" where
  "md5_P X i = (\<lambda>(k, s, t) (a, b, c, d). (d, md5_S (a + (md5_F i b c d + X ! k + t)) s + b, b, c))"

text \<open>The 64 calls: the word of the block, the rotation and the constant.\<close>

definition md5_calls :: "(nat \<times> nat \<times> u32) list" where
  "md5_calls = [
    (0, 7, 0xD76AA478), (1, 12, 0xE8C7B756), (2, 17, 0x242070DB), (3, 22, 0xC1BDCEEE),
    (4, 7, 0xF57C0FAF), (5, 12, 0x4787C62A), (6, 17, 0xA8304613), (7, 22, 0xFD469501),
    (8, 7, 0x698098D8), (9, 12, 0x8B44F7AF), (10, 17, 0xFFFF5BB1), (11, 22, 0x895CD7BE),
    (12, 7, 0x6B901122), (13, 12, 0xFD987193), (14, 17, 0xA679438E), (15, 22, 0x49B40821),
    (1, 5, 0xF61E2562), (6, 9, 0xC040B340), (11, 14, 0x265E5A51), (0, 20, 0xE9B6C7AA),
    (5, 5, 0xD62F105D), (10, 9, 0x02441453), (15, 14, 0xD8A1E681), (4, 20, 0xE7D3FBC8),
    (9, 5, 0x21E1CDE6), (14, 9, 0xC33707D6), (3, 14, 0xF4D50D87), (8, 20, 0x455A14ED),
    (13, 5, 0xA9E3E905), (2, 9, 0xFCEFA3F8), (7, 14, 0x676F02D9), (12, 20, 0x8D2A4C8A),
    (5, 4, 0xFFFA3942), (8, 11, 0x8771F681), (11, 16, 0x6D9D6122), (14, 23, 0xFDE5380C),
    (1, 4, 0xA4BEEA44), (4, 11, 0x4BDECFA9), (7, 16, 0xF6BB4B60), (10, 23, 0xBEBFBC70),
    (13, 4, 0x289B7EC6), (0, 11, 0xEAA127FA), (3, 16, 0xD4EF3085), (6, 23, 0x04881D05),
    (9, 4, 0xD9D4D039), (12, 11, 0xE6DB99E5), (15, 16, 0x1FA27CF8), (2, 23, 0xC4AC5665),
    (0, 6, 0xF4292244), (7, 10, 0x432AFF97), (14, 15, 0xAB9423A7), (5, 21, 0xFC93A039),
    (12, 6, 0x655B59C3), (3, 10, 0x8F0CCC92), (10, 15, 0xFFEFF47D), (1, 21, 0x85845DD1),
    (8, 6, 0x6FA87E4F), (15, 10, 0xFE2CE6E0), (6, 15, 0xA3014314), (13, 21, 0x4E0811A1),
    (4, 6, 0xF7537E82), (11, 10, 0xBD3AF235), (2, 15, 0x2AD7D2BB), (9, 21, 0xEB86D391)]"

definition md5_add :: "md5_state \<Rightarrow> md5_state \<Rightarrow> md5_state" where
  "md5_add = (\<lambda>(a, b, c, d) (a', b', c', d'). (a + a', b + b', c + c', d + d'))"

definition utils_md5_process :: "md5_state \<Rightarrow> u8 list \<Rightarrow> md5_state" where
  "utils_md5_process st data =
     (let X = map (\<lambda>i. MD5_GET_UINT32_LE data (4 * i)) [0 ..< 16]
      in md5_add st (foldl (\<lambda>st (i, call). md5_P X i call st) st (zip [0 ..< 64] md5_calls)))"

section \<open>Feeding and closing a context\<close>

definition utils_md5_init :: iot_md5_context where
  "utils_md5_init = \<lparr>dg_total0 = 0, dg_total1 = 0, dg_state = (0, 0, 0, 0), dg_buffer = replicate 64 0\<rparr>"

definition md5_IV :: md5_state where
  "md5_IV = (0x67452301, 0xEFCDAB89, 0x98BADCFE, 0x10325476)"

definition utils_md5_starts :: "iot_md5_context \<Rightarrow> iot_md5_context" where
  "utils_md5_starts ctx = ctx\<lparr>dg_total0 := 0, dg_total1 := 0, dg_state := md5_IV\<rparr>"

definition utils_md5_update :: "iot_md5_context \<Rightarrow> u8 list \<Rightarrow> iot_md5_context" where
  "utils_md5_update ctx input = digest_update utils_md5_process ctx input"

definition md5_lenbytes :: "u32 \<Rightarrow> u32 \<Rightarrow> u8 list" where
  "md5_lenbytes low high = MD5_PUT_UINT32_LE low @ MD5_PUT_UINT32_LE high"

definition md5_output :: "md5_state \<Rightarrow> u8 list" where
  "md5_output = (\<lambda>(a, b, c, d). concat (map MD5_PUT_UINT32_LE [a, b, c, d]))"

definition utils_md5_finish :: "iot_md5_context \<Rightarrow> u8 list \<times> iot_md5_context" where
  "utils_md5_finish ctx =
     (let ctx = digest_finish utils_md5_process md5_lenbytes ctx in (md5_output (dg_state ctx), ctx))"

definition utils_md5 :: "u8 list \<Rightarrow> u8 list" where
  "utils_md5 input = fst (utils_md5_finish (utils_md5_update (utils_md5_starts utils_md5_init) input))"

text \<open>The digest as a string, of a buffer and of a context that was created before.\<close>

definition utils_md5_str :: "u8 list \<Rightarrow> u8 list \<Rightarrow> u8 list option" where
  "utils_md5_str input output = do {
     output \<leftarrow> buf_write output 0 (hex_digits (utils_md5 input));
     buf_put output 32 0
   }"

definition utils_md5_finish_str :: "iot_md5_context \<Rightarrow> u8 list \<Rightarrow> (u8 list \<times> iot_md5_context) option" where
  "utils_md5_finish_str ctx output_str = do {
     let (out, ctx) = utils_md5_finish ctx;
     output_str \<leftarrow> buf_write output_str 0 (hex_digits out);
     output_str \<leftarrow> buf_put output_str 32 0;
     Some (output_str, ctx)
   }"

definition utils_md5_reset :: "iot_md5_context \<Rightarrow> iot_md5_context" where
  "utils_md5_reset ctx = utils_md5_starts utils_md5_init"

definition hmac_md5_out :: "u8 list \<Rightarrow> u8 list \<Rightarrow> u8 list" where
  "hmac_md5_out msg key =
     (let context = utils_md5_starts utils_md5_init;
          context = utils_md5_update context (hmac_pad 0x36 key);
          context = utils_md5_update context msg;
          (out, context) = utils_md5_finish context;
          context = utils_md5_starts utils_md5_init;
          context = utils_md5_update context (hmac_pad 0x5c key);
          context = utils_md5_update context out;
          (out, context) = utils_md5_finish context
      in out)"

definition utils_hmac_md5 :: "u8 list \<Rightarrow> u8 list \<Rightarrow> u8 list \<Rightarrow> u8 list option" where
  "utils_hmac_md5 msg digest key =
     (if length key > 64 then Some digest else buf_write digest 0 (hex_digits (hmac_md5_out msg key)))"

section \<open>The reference\<close>

text \<open>
  RFC 1321 in its own terms: the auxiliary functions as tables of truth, the order of the words, the rotations, the constants
  as the integer parts of 4294967296 times the absolute value of the sine, words, lengths and the digest with the lowest byte
  first, and the initial words by their bytes.
\<close>

definition md5_fun :: "nat \<Rightarrow> u32 \<Rightarrow> u32 \<Rightarrow> u32 \<Rightarrow> u32" where
  "md5_fun i x y z =
     (if i < 16 then (x AND y) OR (NOT x AND z)
      else if i < 32 then (x AND z) OR (y AND NOT z)
      else if i < 48 then x XOR y XOR z
      else y XOR (x OR NOT z))"

definition md5_word :: "nat \<Rightarrow> nat" where
  "md5_word i = (if i < 16 then i else if i < 32 then (5 * i + 1) mod 16 else if i < 48 then (3 * i + 5) mod 16 else 7 * i mod 16)"

definition md5_shift :: "nat \<Rightarrow> nat" where
  "md5_shift i = [[7, 12, 17, 22], [5, 9, 14, 20], [4, 11, 16, 23], [6, 10, 15, 21]] ! (i div 16) ! (i mod 4)"

definition md5_T :: "nat \<Rightarrow> u32" where
  "md5_T i = of_int \<lfloor>2 ^ 32 * \<bar>sin (real (i + 1))\<bar>\<rfloor>"

definition md5_step_ref :: "u32 list \<Rightarrow> md5_state \<Rightarrow> nat \<Rightarrow> md5_state" where
  "md5_step_ref X = (\<lambda>(a, b, c, d) i.
     (d, b + word_rotl (md5_shift i) (a + md5_fun i b c d + X ! md5_word i + md5_T i), b, c))"

definition md5_block_ref :: "md5_state \<Rightarrow> u8 list \<Rightarrow> md5_state" where
  "md5_block_ref = (\<lambda>(AA, BB, CC, DD) block.
     let X = map (\<lambda>i. word_rcat (rev (take 4 (drop (4 * i) block)))) [0 ..< 16];
         (a, b, c, d) = foldl (md5_step_ref X) (AA, BB, CC, DD) [0 ..< 64]
     in (a + AA, b + BB, c + CC, d + DD))"

definition md5_start_ref :: md5_state where
  "md5_start_ref = (word_rcat (rev [0x01, 0x23, 0x45, 0x67 :: u8]), word_rcat (rev [0x89, 0xAB, 0xCD, 0xEF :: u8]),
     word_rcat (rev [0xFE, 0xDC, 0xBA, 0x98 :: u8]), word_rcat (rev [0x76, 0x54, 0x32, 0x10 :: u8]))"

definition md5_ref :: "u8 list \<Rightarrow> u8 list" where
  "md5_ref m =
     (let (a, b, c, d) = foldl md5_block_ref md5_start_ref (message_blocks (padded (le_bytes 8) m))
      in concat (map (\<lambda>w. le_bytes 4 (unat w)) [a, b, c, d]))"

section \<open>The block function\<close>

lemma md5_F_ref: "md5_F i x y z = md5_fun i x y z"
  by (rule bit_word_eqI) (auto simp: md5_F_def md5_fun_def bit_simps)

lemma md5_S_rotl:
  assumes "0 < n" and "n < 32"
  shows "md5_S x n = word_rotl n x"
proof -
  have "x AND 0xFFFFFFFF = take_bit 32 x" by (simp add: take_bit_eq_mask mask_eq_exp_minus_1)
  then have "x AND 0xFFFFFFFF = x" by (simp add: take_bit_word_eq_self)
  then show ?thesis unfolding md5_S_def using rotl_shifts [OF assms] by simp
qed

lemma md5_words_ref:
  assumes "length data = 64"
  shows "map (\<lambda>i. MD5_GET_UINT32_LE data (4 * i)) [0 ..< 16] = map (\<lambda>i. word_rcat (rev (take 4 (drop (4 * i) data)))) [0 ..< 16]"
  using assms by (intro map_cong) (simp_all add: MD5_GET_UINT32_LE_def take_4 rcat_4 or.commute or.assoc or.left_commute)

lemma put_le: "MD5_PUT_UINT32_LE w = [ucast w, ucast (drop_bit 8 w), ucast (drop_bit 16 w), ucast (drop_bit 24 w)]"
proof -
  have "x AND 0xFF = take_bit 8 x" for x :: u32 by (simp add: take_bit_eq_mask mask_eq_exp_minus_1)
  moreover have "ucast (take_bit 8 x) = (ucast x :: u8)" for x :: u32 by (rule bit_word_eqI) (auto simp: bit_simps)
  ultimately show ?thesis by (simp add: MD5_PUT_UINT32_LE_def)
qed

lemma le_4: "MD5_PUT_UINT32_LE w = le_bytes 4 (unat w)"
  using number_of_word [of 24 w] number_of_word [of 16 w] number_of_word [of 8 w] number_of_word [of 0 w]
  by (simp add: put_le le_bytes_def upt_4)

lemma md5_length_ref: "md5_lenbytes (of_nat n) (of_nat (n div 2 ^ 32)) = le_bytes 8 n"
  using byte_of_number [of 24 n] byte_of_number [of 16 n] byte_of_number [of 8 n] byte_of_number [of 0 n]
    byte_of_number [of 24 "n div 2 ^ 32"] byte_of_number [of 16 "n div 2 ^ 32"] byte_of_number [of 8 "n div 2 ^ 32"] byte_of_number [of 0 "n div 2 ^ 32"]
  by (simp add: md5_lenbytes_def put_le le_bytes_def upt_8 div_mult2_eq [symmetric])

lemma md5_pad_ref: "digest_pad md5_lenbytes m = padded (le_bytes 8) m"
  by (rule digest_pad_padded) (rule md5_length_ref)

lemma md5_start: "md5_IV = md5_start_ref"
  by (simp add: md5_IV_def md5_start_ref_def rcat_4)

text \<open>The constants of the calls are those of the reference.\<close>

lemma md5_sines: "check_sines (0, fix_unit) (map (\<lambda>(k, s, t). uint t) md5_calls)"
  by code_simp

lemma length_md5_calls: "length md5_calls = 64"
  by (simp add: md5_calls_def)

lemma md5_T_table:
  assumes "i < 64"
  shows "md5_T i = (case md5_calls ! i of (k, s, t) \<Rightarrow> t)"
proof -
  have "\<lfloor>2 ^ 32 * \<bar>sin (real (0 + i + 1))\<bar>\<rfloor> = map (\<lambda>(k, s, t). uint t) md5_calls ! i"
    using md5_sines assms by (intro check_sines_floor) (simp_all add: length_md5_calls)
  then show ?thesis using assms by (simp add: md5_T_def length_md5_calls split: prod.split)
qed

lemma md5_order: "map (\<lambda>i. (md5_word i, md5_shift i)) [0 ..< 64] = map (\<lambda>(k, s, t). (k, s)) md5_calls"
  by code_simp

lemma md5_shift_range: "i < 64 \<Longrightarrow> 0 < md5_shift i \<and> md5_shift i < 32"
proof -
  have "\<forall>i \<in> set [0 ..< 64]. 0 < md5_shift i \<and> md5_shift i < 32" by code_simp
  then show "i < 64 \<Longrightarrow> 0 < md5_shift i \<and> md5_shift i < 32" by simp
qed

lemma md5_call_ref:
  assumes "i < 64"
  shows "md5_calls ! i = (md5_word i, md5_shift i, md5_T i)"
proof -
  have "map (\<lambda>i. (md5_word i, md5_shift i)) [0 ..< 64] ! i = map (\<lambda>(k, s, t). (k, s)) md5_calls ! i" by (simp only: md5_order)
  then show ?thesis using assms md5_T_table [OF assms] by (simp add: length_md5_calls split: prod.splits)
qed

lemma md5_step_eq: "i < 64 \<Longrightarrow> md5_P X i (md5_calls ! i) st = md5_step_ref X st i"
  using md5_shift_range [of i]
  by (simp add: md5_call_ref md5_P_def md5_step_ref_def md5_F_ref md5_S_rotl algebra_simps split: prod.splits)

lemma utils_md5_process_ref:
  assumes "length data = 64"
  shows "utils_md5_process st data = md5_block_ref st data"
proof -
  define X where "X = map (\<lambda>i. word_rcat (rev (take 4 (drop (4 * i) data))) :: u32) [0 ..< 16]"
  have "zip [0 ..< 64] md5_calls = map (\<lambda>i. (i, md5_calls ! i)) [0 ..< 64]"
    by (rule nth_equalityI) (simp_all add: length_md5_calls)
  then have "foldl (\<lambda>st (i, call). md5_P X i call st) st (zip [0 ..< 64] md5_calls) = foldl (\<lambda>st i. md5_P X i (md5_calls ! i) st) st [0 ..< 64]"
    by (simp only: foldl_map case_prod_conv)
  also have "\<dots> = foldl (md5_step_ref X) st [0 ..< 64]"
    by (rule foldl_cong) (simp_all add: md5_step_eq)
  finally have calls: "foldl (\<lambda>st (i, call). md5_P X i call st) st (zip [0 ..< 64] md5_calls) = foldl (md5_step_ref X) st [0 ..< 64]" .
  show ?thesis
    unfolding utils_md5_process_def md5_words_ref [OF assms] X_def [symmetric] Let_def calls
    by (cases st) (simp add: md5_block_ref_def X_def [symmetric] md5_add_def add.commute split: prod.split)
qed

section \<open>Streaming and HMAC\<close>

interpretation md5: block_hash utils_md5_process md5_IV md5_lenbytes
  by unfold_locales (simp add: md5_lenbytes_def MD5_PUT_UINT32_LE_def)

lemma md5_holds_starts: "digest_holds utils_md5_process md5_IV (utils_md5_starts utils_md5_init) []"
  by (rule md5.holds_start) (simp_all add: utils_md5_starts_def utils_md5_init_def)

lemma md5_finish_ref:
  assumes "digest_holds utils_md5_process md5_IV ctx m"
  shows "fst (utils_md5_finish ctx) = md5_ref m"
proof -
  have "dg_state (digest_finish utils_md5_process md5_lenbytes ctx) =
      foldl utils_md5_process md5_IV (message_blocks (padded (le_bytes 8) m))"
    by (simp add: md5.finish_state [OF assms] hash_blocks_fold md5_pad_ref)
  also have "\<dots> = foldl md5_block_ref md5_start_ref (message_blocks (padded (le_bytes 8) m))"
    by (rule foldl_cong) (auto simp: utils_md5_process_ref message_block_length md5_start)
  finally show ?thesis by (simp add: utils_md5_finish_def Let_def md5_output_def md5_ref_def le_4 split: prod.split)
qed

lemma utils_md5_updates: "foldl utils_md5_update ctx chunks = foldl (digest_update utils_md5_process) ctx chunks"
  by (induction chunks arbitrary: ctx) (simp_all add: utils_md5_update_def)

lemma md5_chunks:
  assumes "\<forall>x \<in> set chunks. length x < 2 ^ 32"
  shows "fst (utils_md5_finish (foldl utils_md5_update (utils_md5_starts utils_md5_init) chunks)) = md5_ref (concat chunks)"
  using md5_finish_ref [OF md5.updates_holds [OF assms md5_holds_starts]] by (simp add: utils_md5_updates)

lemma length_md5_ref [simp]: "length (md5_ref m) = 16"
  by (simp add: md5_ref_def le_bytes_def split: prod.split)

definition hmac_md5_ref :: "u8 list \<Rightarrow> u8 list \<Rightarrow> u8 list" where
  "hmac_md5_ref key msg = rfc2104 md5_ref key msg"

lemma hmac_md5_out_ref:
  assumes "length key \<le> 64" and "length msg < 2 ^ 32"
  shows "hmac_md5_out msg key = hmac_md5_ref key msg"
  using md5_chunks [of "[hmac_pad 0x36 key, msg]"] md5_chunks [of "[hmac_pad 0x5c key, md5_ref (hmac_pad 0x36 key @ msg)]"] assms
  by (simp add: hmac_md5_out_def hmac_md5_ref_def rfc2104_pads case_prod_beta')

section \<open>Properties\<close>

text \<open>
  C40: MD5 as the SDK computes it, with unrolled rounds, rewritten auxiliary functions and literal constants, fed in any number
  of pieces, each shorter than 2^32 bytes, is the digest of RFC 1321, whose constants are integer parts of sines; and the digest string of a
  context, which firmware images are checked with, is its 32 hexadecimal digits, written into an array of at least 33 bytes.
\<close>

theorem md5_streaming:
  assumes "\<forall>x \<in> set chunks. length x < 2 ^ 32" and "33 \<le> length output"
  defines "ctx \<equiv> foldl utils_md5_update (utils_md5_starts utils_md5_init) chunks"
  shows "fst (utils_md5_finish ctx) = md5_ref (concat chunks) \<and>
     (\<exists>a ctx'. utils_md5_finish_str ctx output = Some (a, ctx') \<and> c_string a = Some (hex_string (md5_ref (concat chunks))))"
proof -
  have fin: "fst (utils_md5_finish ctx) = md5_ref (concat chunks)" unfolding ctx_def by (rule md5_chunks [OF assms(1)])
  let ?d = "hex_digits (md5_ref (concat chunks))"
  have len: "length ?d = 32" by simp
  obtain ctx' where ctx': "utils_md5_finish ctx = (md5_ref (concat chunks), ctx')" using fin by (cases "utils_md5_finish ctx") auto
  let ?a = "(?d @ drop 32 output)[32 := 0]"
  have "utils_md5_finish_str ctx output = Some (?a, ctx')"
    using assms(2) len by (simp add: utils_md5_finish_str_def ctx' buf_write_def buf_put_def)
  moreover have "?a = ?d @ 0 # drop 33 output"
    using assms(2) len by (simp add: list_update_append Cons_nth_drop_Suc [symmetric])
  then have "c_string ?a = Some ?d"
    using zero_notin_hex_digits by (simp add: c_string_def takeWhile_append)
  ultimately show ?thesis using fin by (auto simp: hex_digits_ref)
qed

theorem md5_streaming_witness:
  "fst (utils_md5_finish (utils_md5_update (utils_md5_update (utils_md5_starts utils_md5_init) (cstr ''ab'')) (cstr ''c''))) = md5_ref (cstr ''abc'')"
  using md5_streaming [of "[cstr ''ab'', cstr ''c'']" "replicate 33 0"] by (simp add: cstr_def)

text \<open>HMAC-MD5 is RFC 2104 over this digest.\<close>

lemma hmac_md5_digest:
  assumes "length key \<le> 64" and "length msg < 2 ^ 32" and "32 \<le> length digest"
  shows "utils_hmac_md5 msg digest key = Some (hex_string (hmac_md5_ref key msg) @ drop 32 digest)"
  using assms by (simp add: utils_hmac_md5_def hmac_md5_out_ref buf_write_def hmac_md5_ref_def rfc2104_def Let_def flip: hex_digits_ref)

end
