(* ===== verification/Utils_Aes.thy ===== *)
theory Utils_Aes
  imports Prelude
begin

text \<open>
  AES as \<^verbatim>\<open>sdk_src/utils/utils_aes.c\<close> computes it: ten static tables that the first key schedule fills
  (\<^verbatim>\<open>aes_gen_tables\<close>), the key schedules of both directions, the block functions with their rounds by
  table look-up, and the CBC mode of \<^verbatim>\<open>utils_aes_crypt_cbc\<close> and \<^verbatim>\<open>utils_aes_cbc\<close>, which the dynamic
  registration calls. The tables in ROM are left out: \<^verbatim>\<open>UTILS_AES_ROM_TABLES\<close> is not defined in the
  repository. The theory holds the code, \<open>Aes_Field\<close> and the theories behind it the proofs.
\<close>

section \<open>The static tables\<close>

record aes_statics =
  FSb :: "u8 list"
  FT0 :: "u32 list"
  FT1 :: "u32 list"
  FT2 :: "u32 list"
  FT3 :: "u32 list"
  RSb :: "u8 list"
  RT0 :: "u32 list"
  RT1 :: "u32 list"
  RT2 :: "u32 list"
  RT3 :: "u32 list"
  RCON :: "u32 list"
  aes_init_done :: bool

text \<open>Static objects start as zero.\<close>

definition aes_start :: aes_statics where
  "aes_start = \<lparr>FSb = replicate 256 0,
     FT0 = replicate 256 0, FT1 = replicate 256 0, FT2 = replicate 256 0, FT3 = replicate 256 0,
     RSb = replicate 256 0,
     RT0 = replicate 256 0, RT1 = replicate 256 0, RT2 = replicate 256 0, RT3 = replicate 256 0,
     RCON = replicate 10 0, aes_init_done = False\<rparr>"

text \<open>
  The macros of the table generator. Its \<^verbatim>\<open>int\<close> variables hold values from 0 to 511, so that their 32
  bits are an unsigned word here.
\<close>

definition aes_ROTL8 :: "u32 \<Rightarrow> u32" where
  "aes_ROTL8 x = (push_bit 8 x AND 0xFFFFFFFF) OR drop_bit 24 x"

definition XTIME :: "u32 \<Rightarrow> u32" where
  "XTIME x = push_bit 1 x XOR (if x AND 0x80 \<noteq> 0 then 0x1B else 0)"

definition aes_MUL :: "u32 list \<Rightarrow> u32 list \<Rightarrow> u32 \<Rightarrow> u32 \<Rightarrow> u32" where
  "aes_MUL pow log x y =
     (if x \<noteq> 0 \<and> y \<noteq> 0 then pow ! unat ((log ! unat x + log ! unat y) mod 255) else 0)"

text \<open>
  The loops of \<^verbatim>\<open>aes_gen_tables\<close>, a step for each body. \<^verbatim>\<open>pow\<close> and \<^verbatim>\<open>log\<close> are local and not
  initialised; the only entry that stays so, \<^verbatim>\<open>log[0]\<close>, is never read.
\<close>

definition gen_pow_step :: "nat \<Rightarrow> u32 list \<times> u32 list \<times> u32 \<Rightarrow> u32 list \<times> u32 list \<times> u32" where
  "gen_pow_step i = (\<lambda>(pow, log, x). (pow[i := x], log[unat x := of_nat i], (x XOR XTIME x) AND 0xFF))"

definition gen_rcon_step :: "nat \<Rightarrow> u32 list \<times> u32 \<Rightarrow> u32 list \<times> u32" where
  "gen_rcon_step i = (\<lambda>(rcon, x). (rcon[i := x], XTIME x AND 0xFF))"

definition gen_rotate :: "u32 \<Rightarrow> u32" where
  "gen_rotate y = (push_bit 1 y OR drop_bit 7 y) AND 0xFF"

definition gen_affine :: "u32 \<Rightarrow> u32" where
  "gen_affine x =
     (let y = x; y = gen_rotate y; x = x XOR y;
          y = gen_rotate y; x = x XOR y;
          y = gen_rotate y; x = x XOR y;
          y = gen_rotate y; x = x XOR (y XOR 0x63)
      in x)"

definition gen_sbox_step :: "u32 list \<Rightarrow> u32 list \<Rightarrow> nat \<Rightarrow> aes_statics \<Rightarrow> aes_statics" where
  "gen_sbox_step pow log i s =
     (let x = gen_affine (pow ! unat (255 - log ! i))
      in s\<lparr>FSb := (FSb s)[i := ucast x], RSb := (RSb s)[unat x := of_nat i]\<rparr>)"

definition gen_forward_step :: "nat \<Rightarrow> aes_statics \<Rightarrow> aes_statics" where
  "gen_forward_step i s =
     (let x = ucast (FSb s ! i); y = XTIME x AND 0xFF; z = (y XOR x) AND 0xFF;
          ft0 = (FT0 s)[i := y XOR push_bit 8 x XOR push_bit 16 x XOR push_bit 24 z];
          ft1 = (FT1 s)[i := aes_ROTL8 (ft0 ! i)];
          ft2 = (FT2 s)[i := aes_ROTL8 (ft1 ! i)];
          ft3 = (FT3 s)[i := aes_ROTL8 (ft2 ! i)]
      in s\<lparr>FT0 := ft0, FT1 := ft1, FT2 := ft2, FT3 := ft3\<rparr>)"

definition gen_reverse_step :: "u32 list \<Rightarrow> u32 list \<Rightarrow> nat \<Rightarrow> aes_statics \<Rightarrow> aes_statics" where
  "gen_reverse_step pow log i s =
     (let x = ucast (RSb s ! i); mul = aes_MUL pow log;
          rt0 = (RT0 s)[i := mul 0x0E x XOR push_bit 8 (mul 0x09 x) XOR push_bit 16 (mul 0x0D x) XOR
                             push_bit 24 (mul 0x0B x)];
          rt1 = (RT1 s)[i := aes_ROTL8 (rt0 ! i)];
          rt2 = (RT2 s)[i := aes_ROTL8 (rt1 ! i)];
          rt3 = (RT3 s)[i := aes_ROTL8 (rt2 ! i)]
      in s\<lparr>RT0 := rt0, RT1 := rt1, RT2 := rt2, RT3 := rt3\<rparr>)"

definition gen_tables_step :: "u32 list \<Rightarrow> u32 list \<Rightarrow> nat \<Rightarrow> aes_statics \<Rightarrow> aes_statics" where
  "gen_tables_step pow log i s = gen_reverse_step pow log i (gen_forward_step i s)"

definition gen_pow_log :: "u32 list \<times> u32 list" where
  "gen_pow_log =
     (let (pow, log, x) = fold gen_pow_step [0 ..< 256] (replicate 256 0, replicate 256 0, 1) in (pow, log))"

definition aes_gen_tables :: "aes_statics \<Rightarrow> aes_statics" where
  "aes_gen_tables s =
     (let (pow, log) = gen_pow_log;
          s = s\<lparr>RCON := fst (fold gen_rcon_step [0 ..< 10] (RCON s, 1))\<rparr>;
          s = s\<lparr>FSb := (FSb s)[0 := 0x63], RSb := (RSb s)[0x63 := 0]\<rparr>;
          s = fold (gen_sbox_step pow log) [1 ..< 256] s
      in fold (gen_tables_step pow log) [0 ..< 256] s)"

section \<open>Contexts and key schedules\<close>

text \<open>
  \<^verbatim>\<open>rk\<close> points into the context's own \<^verbatim>\<open>buf\<close>: it is an offset there, \<open>None\<close> for the null pointer.
  The validation macros expand to nothing (\<^verbatim>\<open>utils_aes.h\<close>).
\<close>

record utils_aes_context =
  aes_nr :: nat
  aes_rk :: "nat option"
  aes_buf :: "u32 list"

definition utils_aes_init :: utils_aes_context where
  "utils_aes_init = \<lparr>aes_nr = 0, aes_rk = None, aes_buf = replicate 68 0\<rparr>"

definition utils_aes_free :: "utils_aes_context option \<Rightarrow> utils_aes_context option" where
  "utils_aes_free = map_option (\<lambda>ctx. utils_aes_init)"

definition AES_GET_UINT32_LE :: "u8 list \<Rightarrow> nat \<Rightarrow> u32" where
  "AES_GET_UINT32_LE b i =
     ucast (b ! i) OR push_bit 8 (ucast (b ! (i + 1))) OR
     push_bit 16 (ucast (b ! (i + 2))) OR push_bit 24 (ucast (b ! (i + 3)))"

definition AES_PUT_UINT32_LE :: "u32 \<Rightarrow> u8 list" where
  "AES_PUT_UINT32_LE n =
     [ucast (n AND 0xFF), ucast (drop_bit 8 n AND 0xFF),
      ucast (drop_bit 16 n AND 0xFF), ucast (drop_bit 24 n AND 0xFF)]"

text \<open>The index of byte \<open>n div 8\<close> of a word, and the look-up of it in an S-box.\<close>

definition at_byte :: "nat \<Rightarrow> u32 \<Rightarrow> nat" where
  "at_byte n w = unat (drop_bit n w AND 0xFF)"

definition S_at :: "u8 list \<Rightarrow> nat \<Rightarrow> u32 \<Rightarrow> u32" where
  "S_at sb n w = ucast (sb ! at_byte n w)"

text \<open>The two ways in which the schedules send a word through the S-box: with and without rotation.\<close>

definition aes_sub_rot :: "aes_statics \<Rightarrow> u32 \<Rightarrow> u32" where
  "aes_sub_rot s w = S_at (FSb s) 8 w XOR push_bit 8 (S_at (FSb s) 16 w) XOR
     push_bit 16 (S_at (FSb s) 24 w) XOR push_bit 24 (S_at (FSb s) 0 w)"

definition aes_sub :: "aes_statics \<Rightarrow> u32 \<Rightarrow> u32" where
  "aes_sub s w = S_at (FSb s) 0 w XOR push_bit 8 (S_at (FSb s) 8 w) XOR
     push_bit 16 (S_at (FSb s) 16 w) XOR push_bit 24 (S_at (FSb s) 24 w)"

text \<open>\<open>RK[k + n] = RK[k] ^ RK[k + n - 1]\<close>: the plain step of the schedules.\<close>

definition rk_plain :: "nat \<Rightarrow> nat \<Rightarrow> u32 list \<Rightarrow> u32 list" where
  "rk_plain n k b = b[k + n := b ! k XOR b ! (k + n - 1)]"

definition aes_schedule10 :: "aes_statics \<Rightarrow> nat \<Rightarrow> u32 list \<times> nat \<Rightarrow> u32 list \<times> nat" where
  "aes_schedule10 s i = (\<lambda>(b, RK).
     let b = b[RK + 4 := b ! RK XOR RCON s ! i XOR aes_sub_rot s (b ! (RK + 3))];
         b = rk_plain 4 (RK + 1) b; b = rk_plain 4 (RK + 2) b; b = rk_plain 4 (RK + 3) b
     in (b, RK + 4))"

definition aes_schedule12 :: "aes_statics \<Rightarrow> nat \<Rightarrow> u32 list \<times> nat \<Rightarrow> u32 list \<times> nat" where
  "aes_schedule12 s i = (\<lambda>(b, RK).
     let b = b[RK + 6 := b ! RK XOR RCON s ! i XOR aes_sub_rot s (b ! (RK + 5))];
         b = rk_plain 6 (RK + 1) b; b = rk_plain 6 (RK + 2) b; b = rk_plain 6 (RK + 3) b;
         b = rk_plain 6 (RK + 4) b; b = rk_plain 6 (RK + 5) b
     in (b, RK + 6))"

definition aes_schedule14 :: "aes_statics \<Rightarrow> nat \<Rightarrow> u32 list \<times> nat \<Rightarrow> u32 list \<times> nat" where
  "aes_schedule14 s i = (\<lambda>(b, RK).
     let b = b[RK + 8 := b ! RK XOR RCON s ! i XOR aes_sub_rot s (b ! (RK + 7))];
         b = rk_plain 8 (RK + 1) b; b = rk_plain 8 (RK + 2) b; b = rk_plain 8 (RK + 3) b;
         b = b[RK + 12 := b ! (RK + 4) XOR aes_sub s (b ! (RK + 11))];
         b = rk_plain 8 (RK + 5) b; b = rk_plain 8 (RK + 6) b; b = rk_plain 8 (RK + 7) b
     in (b, RK + 8))"

abbreviation (input) UTILS_ERR_AES_INVALID_KEY_LENGTH :: int where "UTILS_ERR_AES_INVALID_KEY_LENGTH \<equiv> -0x20"
abbreviation (input) UTILS_ERR_AES_INVALID_INPUT_LENGTH :: int where "UTILS_ERR_AES_INVALID_INPUT_LENGTH \<equiv> -0x22"

definition aes_rounds :: "nat \<Rightarrow> nat option" where
  "aes_rounds keybits = (if keybits = 128 then Some 10 else if keybits = 192 then Some 12
     else if keybits = 256 then Some 14 else None)"

definition aes_init_tables :: "aes_statics \<Rightarrow> aes_statics" where
  "aes_init_tables s = (if \<not> aes_init_done s then (aes_gen_tables s)\<lparr>aes_init_done := True\<rparr> else s)"

definition utils_aes_setkey_enc ::
    "aes_statics \<Rightarrow> utils_aes_context \<Rightarrow> u8 list \<Rightarrow> nat \<Rightarrow> int \<times> utils_aes_context \<times> aes_statics" where
  "utils_aes_setkey_enc s ctx key keybits = (case aes_rounds keybits of
     None \<Rightarrow> (UTILS_ERR_AES_INVALID_KEY_LENGTH, ctx, s)
   | Some n \<Rightarrow>
       let s = aes_init_tables s;
           b = fold (\<lambda>i b. b[i := AES_GET_UINT32_LE key (4 * i)]) [0 ..< keybits div 32] (aes_buf ctx);
           b = (if n = 10 then fst (fold (aes_schedule10 s) [0 ..< 10] (b, 0))
                else if n = 12 then fst (fold (aes_schedule12 s) [0 ..< 8] (b, 0))
                else fst (fold (aes_schedule14 s) [0 ..< 7] (b, 0)))
       in (0, ctx\<lparr>aes_nr := n, aes_rk := Some 0, aes_buf := b\<rparr>, s))"

text \<open>
  The schedule of the decryption: the round keys in reverse order, the inner ones sent through the
  reverse tables. \<^verbatim>\<open>SK\<close> walks over the temporary encryption context, \<^verbatim>\<open>RK\<close> over the context itself.
\<close>

definition dec_word :: "aes_statics \<Rightarrow> u32 \<Rightarrow> u32" where
  "dec_word s w = RT0 s ! unat (FSb s ! at_byte 0 w) XOR RT1 s ! unat (FSb s ! at_byte 8 w) XOR
     RT2 s ! unat (FSb s ! at_byte 16 w) XOR RT3 s ! unat (FSb s ! at_byte 24 w)"

definition copy_words :: "(u32 \<Rightarrow> u32) \<Rightarrow> u32 list \<Rightarrow> nat \<Rightarrow> nat \<Rightarrow> u32 list \<Rightarrow> u32 list" where
  "copy_words f sk SK RK b = fold (\<lambda>j b. b[RK + j := f (sk ! (SK + j))]) [0 ..< 4] b"

fun dec_rounds :: "aes_statics \<Rightarrow> u32 list \<Rightarrow> nat \<Rightarrow> nat \<times> nat \<times> u32 list \<Rightarrow> nat \<times> nat \<times> u32 list" where
  "dec_rounds s sk 0 (SK, RK, b) = (SK, RK, b)"
| "dec_rounds s sk (Suc i) (SK, RK, b) =
     dec_rounds s sk i (SK + 4 - 8, RK + 4, copy_words (dec_word s) sk SK RK b)"

definition utils_aes_setkey_dec ::
    "aes_statics \<Rightarrow> utils_aes_context \<Rightarrow> u8 list \<Rightarrow> nat \<Rightarrow> int \<times> utils_aes_context \<times> aes_statics" where
  "utils_aes_setkey_dec s ctx key keybits =
     (let ctx = ctx\<lparr>aes_rk := Some 0\<rparr>;
          (ret, cty, s) = utils_aes_setkey_enc s utils_aes_init key keybits
      in if ret \<noteq> 0 then (ret, ctx, s)
         else let n = aes_nr cty; sk = aes_buf cty; SK = n * 4;
                  b = copy_words (\<lambda>w. w) sk SK 0 (aes_buf ctx);
                  (SK, RK, b) = dec_rounds s sk (n - 1) (SK + 4 - 8, 4, b);
                  b = copy_words (\<lambda>w. w) sk SK RK b
              in (ret, ctx\<lparr>aes_nr := n, aes_buf := b\<rparr>, s))"

section \<open>The block functions\<close>

type_synonym aes_words = "u32 \<times> u32 \<times> u32 \<times> u32"

definition AES_FROUND :: "aes_statics \<Rightarrow> u32 list \<Rightarrow> nat \<Rightarrow> aes_words \<Rightarrow> aes_words" where
  "AES_FROUND s b RK = (\<lambda>(Y0, Y1, Y2, Y3).
     (b ! RK XOR FT0 s ! at_byte 0 Y0 XOR FT1 s ! at_byte 8 Y1 XOR FT2 s ! at_byte 16 Y2 XOR FT3 s ! at_byte 24 Y3,
      b ! (RK + 1) XOR FT0 s ! at_byte 0 Y1 XOR FT1 s ! at_byte 8 Y2 XOR FT2 s ! at_byte 16 Y3 XOR FT3 s ! at_byte 24 Y0,
      b ! (RK + 2) XOR FT0 s ! at_byte 0 Y2 XOR FT1 s ! at_byte 8 Y3 XOR FT2 s ! at_byte 16 Y0 XOR FT3 s ! at_byte 24 Y1,
      b ! (RK + 3) XOR FT0 s ! at_byte 0 Y3 XOR FT1 s ! at_byte 8 Y0 XOR FT2 s ! at_byte 16 Y1 XOR FT3 s ! at_byte 24 Y2))"

definition AES_RROUND :: "aes_statics \<Rightarrow> u32 list \<Rightarrow> nat \<Rightarrow> aes_words \<Rightarrow> aes_words" where
  "AES_RROUND s b RK = (\<lambda>(Y0, Y1, Y2, Y3).
     (b ! RK XOR RT0 s ! at_byte 0 Y0 XOR RT1 s ! at_byte 8 Y3 XOR RT2 s ! at_byte 16 Y2 XOR RT3 s ! at_byte 24 Y1,
      b ! (RK + 1) XOR RT0 s ! at_byte 0 Y1 XOR RT1 s ! at_byte 8 Y0 XOR RT2 s ! at_byte 16 Y3 XOR RT3 s ! at_byte 24 Y2,
      b ! (RK + 2) XOR RT0 s ! at_byte 0 Y2 XOR RT1 s ! at_byte 8 Y1 XOR RT2 s ! at_byte 16 Y0 XOR RT3 s ! at_byte 24 Y3,
      b ! (RK + 3) XOR RT0 s ! at_byte 0 Y3 XOR RT1 s ! at_byte 8 Y2 XOR RT2 s ! at_byte 16 Y1 XOR RT3 s ! at_byte 24 Y0))"

text \<open>The words of the input with the first round key.\<close>

definition aes_load :: "u32 list \<Rightarrow> nat \<Rightarrow> u8 list \<Rightarrow> aes_words" where
  "aes_load b RK input =
     (AES_GET_UINT32_LE input 0 XOR b ! RK, AES_GET_UINT32_LE input 4 XOR b ! (RK + 1),
      AES_GET_UINT32_LE input 8 XOR b ! (RK + 2), AES_GET_UINT32_LE input 12 XOR b ! (RK + 3))"

definition aes_store :: "aes_words \<Rightarrow> u8 list" where
  "aes_store = (\<lambda>(X0, X1, X2, X3).
     AES_PUT_UINT32_LE X0 @ AES_PUT_UINT32_LE X1 @ AES_PUT_UINT32_LE X2 @ AES_PUT_UINT32_LE X3)"

text \<open>The loop over pairs of rounds: \<^verbatim>\<open>i\<close> counts down, \<^verbatim>\<open>RK\<close> moves four words with each round.\<close>

fun aes_round_pairs :: "(nat \<Rightarrow> aes_words \<Rightarrow> aes_words) \<Rightarrow> nat \<Rightarrow> nat \<times> aes_words \<Rightarrow> nat \<times> aes_words" where
  "aes_round_pairs round 0 (RK, X) = (RK, X)"
| "aes_round_pairs round (Suc i) (RK, X) =
     (let Y = round RK X; X = round (RK + 4) Y in aes_round_pairs round i (RK + 8, X))"

definition aes_last_forward :: "aes_statics \<Rightarrow> u32 list \<Rightarrow> nat \<Rightarrow> aes_words \<Rightarrow> aes_words" where
  "aes_last_forward s b RK = (\<lambda>(Y0, Y1, Y2, Y3).
     let S = S_at (FSb s) in
     (b ! RK XOR S 0 Y0 XOR push_bit 8 (S 8 Y1) XOR push_bit 16 (S 16 Y2) XOR push_bit 24 (S 24 Y3),
      b ! (RK + 1) XOR S 0 Y1 XOR push_bit 8 (S 8 Y2) XOR push_bit 16 (S 16 Y3) XOR push_bit 24 (S 24 Y0),
      b ! (RK + 2) XOR S 0 Y2 XOR push_bit 8 (S 8 Y3) XOR push_bit 16 (S 16 Y0) XOR push_bit 24 (S 24 Y1),
      b ! (RK + 3) XOR S 0 Y3 XOR push_bit 8 (S 8 Y0) XOR push_bit 16 (S 16 Y1) XOR push_bit 24 (S 24 Y2)))"

definition aes_last_reverse :: "aes_statics \<Rightarrow> u32 list \<Rightarrow> nat \<Rightarrow> aes_words \<Rightarrow> aes_words" where
  "aes_last_reverse s b RK = (\<lambda>(Y0, Y1, Y2, Y3).
     let S = S_at (RSb s) in
     (b ! RK XOR S 0 Y0 XOR push_bit 8 (S 8 Y3) XOR push_bit 16 (S 16 Y2) XOR push_bit 24 (S 24 Y1),
      b ! (RK + 1) XOR S 0 Y1 XOR push_bit 8 (S 8 Y0) XOR push_bit 16 (S 16 Y3) XOR push_bit 24 (S 24 Y2),
      b ! (RK + 2) XOR S 0 Y2 XOR push_bit 8 (S 8 Y1) XOR push_bit 16 (S 16 Y0) XOR push_bit 24 (S 24 Y3),
      b ! (RK + 3) XOR S 0 Y3 XOR push_bit 8 (S 8 Y2) XOR push_bit 16 (S 16 Y1) XOR push_bit 24 (S 24 Y0)))"

text \<open>
  Both block functions read the whole input before they write the output, so that they are functions
  of the sixteen bytes, whether the two overlap or not. Without a key, \<^verbatim>\<open>ctx->rk\<close> is null: \<open>None\<close>.
\<close>

definition aes_block ::
    "(nat \<Rightarrow> aes_words \<Rightarrow> aes_words) \<Rightarrow> (nat \<Rightarrow> aes_words \<Rightarrow> aes_words) \<Rightarrow> nat \<Rightarrow> u32 list \<Rightarrow> nat \<Rightarrow> u8 list \<Rightarrow> u8 list" where
  "aes_block round final n b RK input =
     (let X = aes_load b RK input;
          (RK, X) = aes_round_pairs round (n div 2 - 1) (RK + 4, X);
          Y = round RK X
      in aes_store (final (RK + 4) Y))"

definition utils_internal_aes_encrypt :: "aes_statics \<Rightarrow> utils_aes_context \<Rightarrow> u8 list \<Rightarrow> u8 list option" where
  "utils_internal_aes_encrypt s ctx input =
     do { RK \<leftarrow> aes_rk ctx;
          let b = aes_buf ctx in
          Some (aes_block (AES_FROUND s b) (aes_last_forward s b) (aes_nr ctx) b RK input) }"

definition utils_internal_aes_decrypt :: "aes_statics \<Rightarrow> utils_aes_context \<Rightarrow> u8 list \<Rightarrow> u8 list option" where
  "utils_internal_aes_decrypt s ctx input =
     do { RK \<leftarrow> aes_rk ctx;
          let b = aes_buf ctx in
          Some (aes_block (AES_RROUND s b) (aes_last_reverse s b) (aes_nr ctx) b RK input) }"

abbreviation (input) UTILS_AES_ENCRYPT :: nat where "UTILS_AES_ENCRYPT \<equiv> 1"
abbreviation (input) UTILS_AES_DECRYPT :: nat where "UTILS_AES_DECRYPT \<equiv> 0"
abbreviation (input) UTILS_AES_BLOCK_LEN :: u32 where "UTILS_AES_BLOCK_LEN \<equiv> 16"

definition utils_aes_crypt_ecb :: "aes_statics \<Rightarrow> utils_aes_context \<Rightarrow> nat \<Rightarrow> u8 list \<Rightarrow> u8 list option" where
  "utils_aes_crypt_ecb s ctx mode input =
     (if mode = UTILS_AES_ENCRYPT then utils_internal_aes_encrypt s ctx input
      else utils_internal_aes_decrypt s ctx input)"

section \<open>The CBC mode\<close>

text \<open>
  Input and output lie in one memory and may be the same buffer, so that the bytes are read and
  written in the order of the code. The initial vector is an array of its own.
\<close>

type_synonym aes_memory = "nat \<Rightarrow> u8"

definition mem_read :: "aes_memory \<Rightarrow> nat \<Rightarrow> nat \<Rightarrow> u8 list" where
  "mem_read m a n = map (\<lambda>i. m (a + i)) [0 ..< n]"

definition mem_write :: "aes_memory \<Rightarrow> nat \<Rightarrow> u8 list \<Rightarrow> aes_memory" where
  "mem_write m a bs = fold (\<lambda>i m. m(a + i := bs ! i)) [0 ..< length bs] m"

definition mem_xor :: "aes_memory \<Rightarrow> nat \<Rightarrow> nat \<Rightarrow> u8 list \<Rightarrow> aes_memory" where
  "mem_xor m output input iv = fold (\<lambda>i m. m(output + i := m (input + i) XOR iv ! i)) [0 ..< 16] m"

fun cbc_decrypt_blocks ::
    "aes_statics \<Rightarrow> utils_aes_context \<Rightarrow> nat \<Rightarrow> nat \<Rightarrow> u8 list \<Rightarrow> nat \<Rightarrow> nat \<Rightarrow> aes_memory \<Rightarrow> (u8 list \<times> aes_memory) option" where
  "cbc_decrypt_blocks s ctx mode 0 iv input output m = Some (iv, m)"
| "cbc_decrypt_blocks s ctx mode (Suc n) iv input output m =
     do { let temp = mem_read m input 16;
          block \<leftarrow> utils_aes_crypt_ecb s ctx mode (mem_read m input 16);
          let m = mem_xor (mem_write m output block) output output iv;
          cbc_decrypt_blocks s ctx mode n temp (input + 16) (output + 16) m }"

fun cbc_encrypt_blocks ::
    "aes_statics \<Rightarrow> utils_aes_context \<Rightarrow> nat \<Rightarrow> nat \<Rightarrow> u8 list \<Rightarrow> nat \<Rightarrow> nat \<Rightarrow> aes_memory \<Rightarrow> (u8 list \<times> aes_memory) option" where
  "cbc_encrypt_blocks s ctx mode 0 iv input output m = Some (iv, m)"
| "cbc_encrypt_blocks s ctx mode (Suc n) iv input output m =
     do { let m = mem_xor m output input iv;
          block \<leftarrow> utils_aes_crypt_ecb s ctx mode (mem_read m output 16);
          let m = mem_write m output block;
          cbc_encrypt_blocks s ctx mode n (mem_read m output 16) (input + 16) (output + 16) m }"

definition utils_aes_crypt_cbc ::
    "aes_statics \<Rightarrow> utils_aes_context \<Rightarrow> nat \<Rightarrow> nat \<Rightarrow> u8 list \<Rightarrow> nat \<Rightarrow> nat \<Rightarrow> aes_memory \<Rightarrow> (int \<times> u8 list \<times> aes_memory) option" where
  "utils_aes_crypt_cbc s ctx mode len iv input output m =
     (if len mod 16 \<noteq> 0 then Some (UTILS_ERR_AES_INVALID_INPUT_LENGTH, iv, m)
      else do {
        (iv, m) \<leftarrow> (if mode = UTILS_AES_DECRYPT then cbc_decrypt_blocks s ctx mode (len div 16) iv input output m
                     else cbc_encrypt_blocks s ctx mode (len div 16) iv input output m);
        Some (0, iv, m) })"

text \<open>
  \<^verbatim>\<open>utils_aes_cbc\<close>: lengths are 32-bit words. The encryption writes the padded input to the output
  buffer, but hands the \<^emph>\<open>input\<close> buffer to \<^verbatim>\<open>utils_aes_crypt_cbc\<close>, with the padded length.
\<close>

record aes_result =
  aes_ret :: int
  aes_iv :: "u8 list"
  aes_mem :: aes_memory
  aes_stat :: aes_statics

definition aes_run :: "aes_statics \<Rightarrow> utils_aes_context \<Rightarrow> nat \<Rightarrow> u32 \<Rightarrow> u8 list \<Rightarrow> nat \<Rightarrow> nat \<Rightarrow> aes_memory \<Rightarrow> aes_result option" where
  "aes_run s ctx mode datalen iv pInData pOutData m =
     do { (ret, iv, m) \<leftarrow> utils_aes_crypt_cbc s ctx mode (unat datalen) iv pInData pOutData m;
          Some \<lparr>aes_ret = (if ret \<noteq> 0 then QCLOUD_ERR_FAILURE else QCLOUD_RET_SUCCESS),
                aes_iv = iv, aes_mem = m, aes_stat = s\<rparr> }"

definition utils_aes_cbc ::
    "aes_statics \<Rightarrow> aes_memory \<Rightarrow> nat \<Rightarrow> u32 \<Rightarrow> nat \<Rightarrow> u32 \<Rightarrow> nat \<Rightarrow> u8 list \<Rightarrow> nat \<Rightarrow> u8 list \<Rightarrow> aes_result option" where
  "utils_aes_cbc s m pInData datalen pOutData outBuffLen mode pKey keybits iv =
     (if mode = UTILS_AES_ENCRYPT then
        let (ret, ctx, s) = utils_aes_setkey_enc s utils_aes_init pKey keybits;
            failed = Some \<lparr>aes_ret = QCLOUD_ERR_FAILURE, aes_iv = iv, aes_mem = m, aes_stat = s\<rparr>
        in if ret \<noteq> 0 then failed
           else if outBuffLen < datalen + UTILS_AES_BLOCK_LEN then failed
           else let padlen = UTILS_AES_BLOCK_LEN - datalen mod UTILS_AES_BLOCK_LEN;
                    m = mem_write m pOutData (mem_read m pInData (unat datalen));
                    m = mem_write m (pOutData + unat datalen) (replicate (unat padlen) 0)
                in aes_run s ctx mode (datalen + padlen) iv pInData pOutData m
      else
        let (ret, ctx, s) = utils_aes_setkey_dec s utils_aes_init pKey keybits
        in if ret \<noteq> 0 then Some \<lparr>aes_ret = QCLOUD_ERR_FAILURE, aes_iv = iv, aes_mem = m, aes_stat = s\<rparr>
           else aes_run s ctx mode datalen iv pInData pOutData m)"

end
