(* ===== verification/Aes_Field.thy ===== *)
theory Aes_Field
  imports Utils_Aes
begin

text \<open>
  The field of AES, for the reference and for the tables: bytes as polynomials over two elements, modulo
  \<open>x^8 + x^4 + x^3 + x + 1\<close>. Multiplication is by shifts; three generates the multiplicative group, so that
  \<open>gf_exp\<close> has period 255 and reaches every byte but zero; \<open>gf_inv\<close> is the inverse; \<open>sub_byte\<close> is the S-box
  of FIPS 197, the inverse followed by an affine map.
\<close>

section \<open>The field\<close>

definition gf_xtime :: "u8 \<Rightarrow> u8" where
  "gf_xtime b = push_bit 1 b XOR (if bit b 7 then 0x1B else 0)"

definition gf_mul :: "u8 \<Rightarrow> u8 \<Rightarrow> u8" where
  "gf_mul a b = fold (\<lambda>i c. c XOR (if bit a i then (gf_xtime ^^ i) b else 0)) [0 ..< 8] 0"

definition gf_gen :: "u8 \<Rightarrow> u8" where
  "gf_gen b = b XOR gf_xtime b"

definition gf_inv :: "u8 \<Rightarrow> u8" where
  "gf_inv x = (gf_mul x ^^ 254) 1"

definition sub_affine :: "u8 \<Rightarrow> u8" where
  "sub_affine y = y XOR word_rotl 1 y XOR word_rotl 2 y XOR word_rotl 3 y XOR word_rotl 4 y XOR 0x63"

definition sub_byte :: "u8 \<Rightarrow> u8" where
  "sub_byte x = sub_affine (gf_inv x)"


section \<open>Bits\<close>

lemma less_8: "n < 8 \<longleftrightarrow> n = 0 \<or> n = 1 \<or> n = 2 \<or> n = 3 \<or> n = 4 \<or> n = 5 \<or> n = 6 \<or> n = (7 :: nat)"
  by arith

lemma bit_1B_32: "bit (0x1B :: u32) n \<longleftrightarrow> n \<in> {0, 1, 3, 4}"
proof -
  have "(0x1B :: u32) = push_bit 0 1 OR push_bit 1 1 OR push_bit 3 1 OR push_bit 4 1" by code_simp
  then show ?thesis by (simp only: bit_or_iff bit_push_bit_iff bit_1_iff) auto
qed
lemma bit_1B_8: "bit (0x1B :: u8) n \<longleftrightarrow> n \<in> {0, 1, 3, 4}"
proof -
  have "(0x1B :: u8) = push_bit 0 1 OR push_bit 1 1 OR push_bit 3 1 OR push_bit 4 1" by code_simp
  then show ?thesis by (simp only: bit_or_iff bit_push_bit_iff bit_1_iff) auto
qed
lemma bit_63_32: "bit (0x63 :: u32) n \<longleftrightarrow> n \<in> {0, 1, 5, 6}"
proof -
  have "(0x63 :: u32) = push_bit 0 1 OR push_bit 1 1 OR push_bit 5 1 OR push_bit 6 1" by code_simp
  then show ?thesis by (simp only: bit_or_iff bit_push_bit_iff bit_1_iff) auto
qed
lemma bit_63_8: "bit (0x63 :: u8) n \<longleftrightarrow> n \<in> {0, 1, 5, 6}"
proof -
  have "(0x63 :: u8) = push_bit 0 1 OR push_bit 1 1 OR push_bit 5 1 OR push_bit 6 1" by code_simp
  then show ?thesis by (simp only: bit_or_iff bit_push_bit_iff bit_1_iff) auto
qed

lemma and_80: "x AND 0x80 \<noteq> 0 \<longleftrightarrow> bit x 7" for x :: u32
proof -
  have "(0x80 :: u32) = push_bit 7 1" by code_simp
  then show ?thesis by (metis bit_iff_and_push_bit_not_eq_0)
qed
lemma and_FF: "x AND 0xFF = take_bit 8 x" for x :: u32
proof -
  have "(0xFF :: u32) = mask 8" by code_simp
  then show ?thesis by (simp only: take_bit_eq_mask)
qed
lemma bit_gf_xtime: "bit (gf_xtime b) n \<longleftrightarrow> n < 8 \<and> ((1 \<le> n \<and> bit b (n - 1)) \<noteq> (bit b 7 \<and> n \<in> {0, 1, 3, 4}))"
  by (auto simp: gf_xtime_def bit_xor_iff bit_push_bit_iff bit_1B_8 simp del: push_bit_Suc bit_numeral_word_iff dest: bit_imp_le_length)

lemma bit_XTIME: "bit (XTIME b) n \<longleftrightarrow> n < 32 \<and> ((1 \<le> n \<and> bit b (n - 1)) \<noteq> (bit b 7 \<and> n \<in> {0, 1, 3, 4}))"
  unfolding XTIME_def and_80
  by (auto simp: bit_xor_iff bit_push_bit_iff bit_1B_32 simp del: push_bit_Suc bit_numeral_word_iff dest: bit_imp_le_length)

lemma XTIME_ucast: "XTIME (ucast b) AND 0xFF = ucast (gf_xtime b)"
  by (rule bit_word_eqI) (auto simp: and_FF bit_take_bit_iff bit_ucast_iff bit_XTIME bit_gf_xtime)
lemma gf_gen_ucast: "(ucast (b::u8) XOR XTIME (ucast b)) AND 0xFF = ucast (gf_gen b)"
  by (rule bit_word_eqI) (auto simp: gf_gen_def and_FF bit_take_bit_iff bit_ucast_iff bit_xor_iff bit_XTIME bit_gf_xtime dest: bit_imp_le_length)

lemma byte_cases: "(\<And>n. n < 8 \<Longrightarrow> bit a n = bit b n) \<Longrightarrow> a = (b :: u8)"
  by (rule bit_word_eqI) simp
lemma gen_rotate_ucast: "gen_rotate (ucast y) = ucast (word_rotl 1 (y::u8))"
  by (rule bit_word_eqI) (auto simp: gen_rotate_def and_FF bit_take_bit_iff bit_or_iff bit_push_bit_iff bit_drop_bit_eq bit_ucast_iff bit_word_rotl_iff less_8 simp del: push_bit_Suc drop_bit_Suc bit_numeral_word_iff dest: bit_imp_le_length)
lemma gf_xtime_xor: "gf_xtime (a XOR b) = gf_xtime a XOR gf_xtime b"
  by (rule bit_word_eqI) (auto simp: bit_gf_xtime bit_xor_iff)

lemma gf_xtime_pow_xor: "(gf_xtime ^^ n) (a XOR b) = (gf_xtime ^^ n) a XOR (gf_xtime ^^ n) b"
  by (induction n) (simp_all add: gf_xtime_xor)

lemma gf_mul_expand:
  "gf_mul a b = (if bit a 0 then b else 0) XOR (if bit a 1 then gf_xtime b else 0) XOR
     (if bit a 2 then (gf_xtime ^^ 2) b else 0) XOR (if bit a 3 then (gf_xtime ^^ 3) b else 0) XOR
     (if bit a 4 then (gf_xtime ^^ 4) b else 0) XOR (if bit a 5 then (gf_xtime ^^ 5) b else 0) XOR
     (if bit a 6 then (gf_xtime ^^ 6) b else 0) XOR (if bit a 7 then (gf_xtime ^^ 7) b else 0)"
  by (simp add: gf_mul_def upt_rec numeral_eq_Suc ac_simps)

lemma gf_xtime_0: "gf_xtime 0 = 0" by (simp add: gf_xtime_def)

lemma gf_sum_xor:
  "fold (\<lambda>i c. c XOR (if P i then (gf_xtime ^^ i) (b XOR b') else 0)) is (u XOR v) =
   fold (\<lambda>i c. c XOR (if P i then (gf_xtime ^^ i) b else 0)) is u XOR
   fold (\<lambda>i c. c XOR (if P i then (gf_xtime ^^ i) b' else 0)) is v"
proof (induction "is" arbitrary: u v)
  case (Cons i "is")
  have "(u XOR v) XOR ((gf_xtime ^^ i) b XOR (gf_xtime ^^ i) b') =
      (u XOR (gf_xtime ^^ i) b) XOR (v XOR (gf_xtime ^^ i) b')"
    by (simp add: xor.assoc xor.left_commute)
  then show ?case using Cons by (cases "P i") (simp_all add: gf_xtime_pow_xor)
qed simp

lemma gf_sum_xtime:
  "fold (\<lambda>i c. c XOR (if P i then (gf_xtime ^^ i) (gf_xtime b) else 0)) is (gf_xtime u) =
   gf_xtime (fold (\<lambda>i c. c XOR (if P i then (gf_xtime ^^ i) b else 0)) is u)"
proof (induction "is" arbitrary: u)
  case (Cons i "is")
  show ?case using Cons [of "u XOR (if P i then (gf_xtime ^^ i) b else 0)"]
    by (simp add: gf_xtime_xor funpow_swap1 gf_xtime_0 split: if_splits)
qed simp

lemma gf_mul_xor_right: "gf_mul a (b XOR c) = gf_mul a b XOR gf_mul a c"
  using gf_sum_xor [of "bit a" b c "[0 ..< 8]" 0 0] by (simp add: gf_mul_def)

lemma gf_mul_xtime: "gf_mul a (gf_xtime b) = gf_xtime (gf_mul a b)"
  using gf_sum_xtime [of "bit a" b "[0 ..< 8]" 0] by (simp add: gf_mul_def gf_xtime_0)

lemma gf_mul_gen: "gf_mul a (gf_gen b) = gf_gen (gf_mul a b)"
  by (simp add: gf_gen_def gf_mul_xor_right gf_mul_xtime)

lemma gf_xtime_exp: "i < 8 \<Longrightarrow> (gf_xtime ^^ i) 1 = 2 ^ i"
proof (induction i)
  case (Suc i)
  then have "gf_xtime (2 ^ i) = 2 ^ Suc i"
    by (intro byte_cases) (auto simp: bit_gf_xtime bit_exp_iff simp del: power_Suc)
  then show ?case using Suc by simp
qed simp

lemma bit_sum_exp:
  "k \<le> 8 \<Longrightarrow> bit (fold (\<lambda>i c. c XOR (if P i then 2 ^ i else 0)) [0 ..< k] (0 :: u8)) n \<longleftrightarrow> n < k \<and> P n"
  by (induction k) (auto simp: bit_xor_iff bit_exp_iff less_Suc_eq)

lemma gf_mul_1: "gf_mul a 1 = a"
proof -
  have "gf_mul a 1 = fold (\<lambda>i c. c XOR (if bit a i then 2 ^ i else 0)) [0 ..< 8] 0"
    unfolding gf_mul_def by (rule fold_cong) (auto simp: gf_xtime_exp)
  then show ?thesis by (intro byte_cases) (simp only: bit_sum_exp, simp)
qed

lemma gf_mul_pow: "gf_mul a ((gf_gen ^^ k) b) = (gf_gen ^^ k) (gf_mul a b)"
  by (induction k) (simp_all add: gf_mul_gen)

definition gf_exp :: "nat \<Rightarrow> u8" where
  "gf_exp k = (gf_gen ^^ k) 1"

lemma gf_exp_0 [simp]: "gf_exp 0 = 1" by (simp add: gf_exp_def)
lemma gf_exp_Suc: "gf_exp (Suc k) = gf_gen (gf_exp k)" by (simp add: gf_exp_def)



lemma gf_exp_add: "gf_exp (m + n) = gf_mul (gf_exp m) (gf_exp n)"
  by (simp add: gf_exp_def gf_mul_pow gf_mul_1 add.commute [of m] funpow_add)

lemma gf_mul_1_left [simp]: "gf_mul 1 b = b" by (simp add: gf_mul_expand)
lemma gf_mul_0_left: "gf_mul 0 b = 0" by (simp add: gf_mul_expand)

lemma gf_exp_values: "gf_exp 15 = 53" "gf_exp 51 = 12" "gf_exp 85 = 189" "gf_exp 255 = 1"
proof -
  have e1: "gf_exp 1 = 3" by (simp add: gf_exp_def gf_gen_def gf_xtime_def)
  have m2: "gf_mul 3 3 = 5" by code_simp
  have "gf_exp (1 + 1) = 5" unfolding gf_exp_add using e1 m2 by simp
  then have e2: "gf_exp 2 = 5" by (simp only: one_add_one)
  have m4: "gf_mul 5 5 = 17" by code_simp
  have e4: "gf_exp 4 = 17" using gf_exp_add [of 2 2] e2 e2 m4 by simp
  have m5: "gf_mul 3 17 = 51" by code_simp
  have e5: "gf_exp 5 = 51" using gf_exp_add [of 1 4] e1 e4 m5 by simp
  have m10: "gf_mul 51 51 = 114" by code_simp
  have e10: "gf_exp 10 = 114" using gf_exp_add [of 5 5] e5 e5 m10 by simp
  have m15: "gf_mul 51 114 = 53" by code_simp
  have e15: "gf_exp 15 = 53" using gf_exp_add [of 5 10] e5 e10 m15 by simp
  have m17: "gf_mul 5 53 = 225" by code_simp
  have e17: "gf_exp 17 = 225" using gf_exp_add [of 2 15] e2 e15 m17 by simp
  have m34: "gf_mul 225 225 = 92" by code_simp
  have e34: "gf_exp 34 = 92" using gf_exp_add [of 17 17] e17 e17 m34 by simp
  have m51: "gf_mul 225 92 = 12" by code_simp
  have e51: "gf_exp 51 = 12" using gf_exp_add [of 17 34] e17 e34 m51 by simp
  have m85: "gf_mul 92 12 = 189" by code_simp
  have e85: "gf_exp 85 = 189" using gf_exp_add [of 34 51] e34 e51 m85 by simp
  have m170: "gf_mul 189 189 = 188" by code_simp
  have e170: "gf_exp 170 = 188" using gf_exp_add [of 85 85] e85 e85 m170 by simp
  have m255: "gf_mul 189 188 = 1" by code_simp
  have e255: "gf_exp 255 = 1" using gf_exp_add [of 85 170] e85 e170 m255 by simp
  show "gf_exp 15 = 53" "gf_exp 51 = 12" "gf_exp 85 = 189" "gf_exp 255 = 1"
    using e15 e51 e85 e255 by simp_all
qed

lemma gf_exp_mult: "gf_exp m = 1 \<Longrightarrow> gf_exp (m * k) = 1"
  by (induction k) (simp_all add: gf_exp_add)

lemma gf_exp_dvd: "gf_exp m = 1 \<Longrightarrow> m dvd n \<Longrightarrow> gf_exp n = 1"
  using gf_exp_mult by (auto elim: dvdE)

lemma divisors_255:
  assumes "g dvd (255::nat)" "g < 255"
  shows "g dvd 15 \<or> g dvd 51 \<or> g dvd 85"
proof -
  have "list_all (\<lambda>g. g dvd 255 \<longrightarrow> g dvd 15 \<or> g dvd 51 \<or> g dvd 85) [0 ..< 255]" by code_simp
  then show ?thesis using assms by (auto simp: list_all_iff)
qed

lemma gf_exp_order: assumes "0 < d" "d < 255" shows "gf_exp d \<noteq> 1"
proof
  assume d: "gf_exp d = 1"
  obtain x y where xy: "d * x = 255 * y + gcd d 255" using bezout_nat [of d 255] assms(1) by auto
  let ?g = "gcd d 255"
  have "gf_exp (255 * y + ?g) = 1" using gf_exp_mult [OF d] xy by metis
  then have g: "gf_exp ?g = 1"
    using gf_exp_mult [OF gf_exp_values(4), of y] by (simp add: gf_exp_add)
  have "?g dvd 255" "?g < 255" using assms gcd_le1_nat [of d 255] by (simp, linarith)
  from this have "?g dvd 15 \<or> ?g dvd 51 \<or> ?g dvd 85" by (rule divisors_255)
  then show False using gf_exp_dvd [OF g, of 15] gf_exp_dvd [OF g, of 51] gf_exp_dvd [OF g, of 85] gf_exp_values by auto
qed

lemma gf_mul_0_right: "gf_mul a 0 = 0"
  using gf_mul_xor_right [of a 0 0] by simp

lemma gf_exp_nonzero: "gf_exp k \<noteq> 0"
proof
  assume "gf_exp k = 0"
  then have "gf_exp (254 * k + k) = 0"
    by (simp only: gf_exp_add gf_mul_0_right)
  then show False using gf_exp_mult [OF gf_exp_values(4), of k] by simp
qed

lemma gf_exp_inj: assumes "gf_exp i = gf_exp j" "i < j" "j < i + 255" shows False
proof -
  let ?d = "j - i"
  have "gf_exp (j + (255 * i - i)) = gf_exp (i + (255 * i - i))"
    using assms(1) by (simp only: gf_exp_add)
  moreover have "i + (255 * i - i) = 255 * i" "j + (255 * i - i) = 255 * i + ?d" using assms by simp_all
  ultimately have "gf_exp (255 * i + ?d) = gf_exp (255 * i)" by (simp only:)
  then have "gf_exp ?d = 1"
    unfolding gf_exp_add using gf_exp_mult [OF gf_exp_values(4), of i] by simp
  then show False using gf_exp_order [of ?d] assms by simp
qed

lemma gf_exp_surj: assumes "x \<noteq> 0" shows "\<exists>k. 1 \<le> k \<and> k \<le> 255 \<and> x = gf_exp k"
proof -
  have "inj_on gf_exp {1 .. 255}"
  proof (rule inj_onI)
    fix i j assume "i \<in> {1 .. 255}" "j \<in> {1 .. 255}" "gf_exp i = gf_exp j"
    then show "i = j" using gf_exp_inj [of i j] gf_exp_inj [of j i] by (cases i j rule: linorder_cases) auto
  qed
  then have "card (gf_exp ` {1 .. 255}) = 255" by (simp add: card_image)
  moreover have "gf_exp ` {1 .. 255} \<subseteq> UNIV - {0}" by (auto simp: gf_exp_nonzero)
  moreover have "card (UNIV - {0 :: u8}) = 255" by (simp add: card_Diff_subset card_word)
  ultimately have "gf_exp ` {1 .. 255} = UNIV - {0}" by (intro card_subset_eq) simp_all
  then have "x \<in> gf_exp ` {1 .. 255}" using assms by blast
  then show ?thesis by auto
qed

lemma gf_exp_mod: "gf_exp (k mod 255) = gf_exp k"
proof -
  have "gf_exp k = gf_exp (255 * (k div 255) + k mod 255)" by simp
  also have "\<dots> = gf_exp (k mod 255)"
    using gf_exp_mult [OF gf_exp_values(4), of "k div 255"] by (simp only: gf_exp_add gf_mul_1_left)
  finally show ?thesis ..
qed

lemma gf_inv_0: "gf_inv 0 = 0" 
  by (simp add: gf_inv_def numeral_eq_Suc gf_mul_0_left)

lemma gf_inv_exp: assumes "k \<le> 255" shows "gf_inv (gf_exp k) = gf_exp (255 - k)"
proof -
  have "(gf_mul (gf_exp k) ^^ n) 1 = gf_exp (k * n)" for n
    by (induction n) (simp_all flip: gf_exp_add)
  then have "gf_inv (gf_exp k) = gf_exp (k * 254)" by (simp add: gf_inv_def)
  also have "\<dots> = gf_exp (k * 254 mod 255)" by (simp only: gf_exp_mod)
  also have "k * 254 mod 255 = (255 - k) mod 255"
  proof -
    obtain d where "255 = k + d" using assms by (metis le_add_diff_inverse)
    then have "k * 254 = (255 - k) + 255 * (k - 1)" if "0 < k" using that by (cases k) auto
    then show ?thesis by (cases "k = 0") (simp, simp only: mod_mult_self2)
  qed
  finally show ?thesis by (simp only: gf_exp_mod)
qed

lemma gf_inverse: assumes "x \<noteq> 0" shows "gf_mul x (gf_inv x) = 1"
proof -
  obtain k where "k \<le> 255" "x = gf_exp k" using gf_exp_surj [OF assms] by auto
  then show ?thesis using gf_exp_values by (simp add: gf_inv_exp flip: gf_exp_add)
qed

end
