(* ===== verification/Aes_Tables.thy ===== *)
theory Aes_Tables
  imports Aes_Field
begin

text \<open>
  What \<^verbatim>\<open>aes_gen_tables\<close> leaves in the static tables: powers and logarithms of the generator, the S-box and its
  inverse, and the look-up tables that join them with the columns of MixColumns. \<open>aes_tables_ok\<close> is all that
  the key schedules and the block functions rely on, and \<open>aes_statics_ok\<close> the invariant of the static state.
\<close>

section \<open>Powers, logarithms and the S-box\<close>

lemma unat_ucast32: "unat (ucast (b :: u8) :: u32) = unat b"
  using unsigned_less [where 'a = nat, of b] by (simp add: unsigned_ucast_eq take_bit_nat_eq_self)

lemma gen_pow_loop:
  assumes "n \<le> 256"
  shows "\<exists>pow log. fold gen_pow_step [0 ..< n] (replicate 256 0, replicate 256 0, 1) = (pow, log, ucast (gf_exp n)) \<and>
    length pow = 256 \<and> length log = 256 \<and> (\<forall>i < n. pow ! i = ucast (gf_exp i)) \<and>
    (\<forall>i. 1 \<le> i \<and> i < n \<longrightarrow> log ! unat (gf_exp i) = of_nat i)"
  using assms
proof (induction n)
  case (Suc n)
  then obtain pow log where IH: "fold gen_pow_step [0 ..< n] (replicate 256 0, replicate 256 0, 1) = (pow, log, ucast (gf_exp n))"
    "length pow = 256" "length log = 256" "\<forall>i < n. pow ! i = ucast (gf_exp i)"
    "\<forall>i. 1 \<le> i \<and> i < n \<longrightarrow> log ! unat (gf_exp i) = of_nat i"
    by auto
  have u: "unat (ucast (gf_exp i) :: u32) = unat (gf_exp i)" for i by (rule unat_ucast32)
  have lt: "unat (gf_exp i) < 256" for i using unsigned_less [where 'a = nat, of "gf_exp i"] by simp
  have inj: "unat (gf_exp i) \<noteq> unat (gf_exp n)" if "1 \<le> i" "i < n" for i
    using gf_exp_inj [of i n] that Suc.prems by (auto simp flip: word_unat_eq_iff)
  have "fold gen_pow_step [0 ..< Suc n] (replicate 256 0, replicate 256 0, 1) =
      (pow[n := ucast (gf_exp n)], log[unat (gf_exp n) := of_nat n], ucast (gf_exp (Suc n)))"
    by (simp add: IH(1)) (simp add: gen_pow_step_def gf_gen_ucast gf_exp_Suc u)
  then show ?case using IH(2-) Suc.prems inj inj [THEN not_sym] lt
    by (auto simp: nth_list_update less_Suc_eq simp del: upt_Suc)
qed simp

definition pow_log_ok :: "u32 list \<Rightarrow> u32 list \<Rightarrow> bool" where
  "pow_log_ok pow log \<longleftrightarrow> (\<forall>i \<le> 255. pow ! i = ucast (gf_exp i)) \<and>
     (\<forall>i. 1 \<le> i \<and> i \<le> 255 \<longrightarrow> log ! unat (gf_exp i) = of_nat i)"

lemma gen_pow_log_ok: "case gen_pow_log of (pow, log) \<Rightarrow> pow_log_ok pow log"
  using gen_pow_loop [of 256] by (auto simp: gen_pow_log_def pow_log_ok_def)

lemma aes_MUL_gf:
  assumes "pow_log_ok pow log"
  shows "aes_MUL pow log (ucast c) (ucast x) = ucast (gf_mul c x)"
proof (cases "c = 0 \<or> x = 0")
  case True
  then show ?thesis by (auto simp: aes_MUL_def gf_mul_0_left gf_mul_0_right)
next
  case False
  then obtain i k where ik: "1 \<le> i" "i \<le> 255" "c = gf_exp i" "1 \<le> k" "k \<le> 255" "x = gf_exp k"
    using gf_exp_surj by meson
  have "ucast c \<noteq> (0 :: u32)" "ucast x \<noteq> (0 :: u32)"
    using False unat_ucast32 [of c] unat_ucast32 [of x] by (auto simp: unat_eq_0)
  moreover have "unat ((of_nat i + of_nat k) mod 255 :: u32) = (i + k) mod 255"
    using ik by (simp add: unat_mod_distrib unat_add_lem [THEN iffD1] unat_of_nat)
  moreover have "(i + k) mod 255 \<le> 255" using mod_less_divisor [of 255 "i + k"] by simp
  ultimately show ?thesis
    using assms ik by (simp add: aes_MUL_def pow_log_ok_def unat_ucast32 gf_exp_mod gf_exp_add)
qed

lemma rotl_1:
  "word_rotl 1 (word_rotl 1 y) = word_rotl 2 y" "word_rotl 1 (word_rotl 2 y) = word_rotl 3 y"
  "word_rotl 1 (word_rotl 3 y) = word_rotl 4 y" for y :: u8
  by (rule byte_cases, auto simp: bit_word_rotl_iff less_8 simp flip: numeral_2_eq_2)+

lemma ucast32_xor: "(ucast (a XOR b) :: u32) = ucast a XOR ucast b" for a b :: u8
  by (rule bit_word_eqI) (auto simp: bit_ucast_iff bit_xor_iff)

lemma gen_affine_ucast: "gen_affine (ucast y) = ucast (sub_affine y)"
  by (simp add: gen_affine_def gen_rotate_ucast rotl_1 [simplified] sub_affine_def Let_def ucast32_xor xor.assoc)

definition inv_affine :: "u8 \<Rightarrow> u8" where
  "inv_affine z = word_rotl 1 z XOR word_rotl 3 z XOR word_rotl 6 z XOR 0x05"

lemma inv_affine_sub: "inv_affine (sub_affine y) = y"
proof (rule byte_cases)
  fix n :: nat assume "n < 8"
  then show "bit (inv_affine (sub_affine y)) n = bit y n"
    unfolding less_8
    by (elim disjE; hypsubst;
        simp add: inv_affine_def sub_affine_def bit_xor_iff bit_word_rotl_iff flip: numeral_2_eq_2; argo)
qed

lemma gf_inv_inv: "gf_inv (gf_inv x) = x"
proof (cases "x = 0")
  case False
  then obtain k where "k \<le> 255" "x = gf_exp k" using gf_exp_surj by auto
  then show ?thesis by (simp add: gf_inv_exp)
qed (simp add: gf_inv_0)

lemma sub_byte_inj: "sub_byte x = sub_byte y \<longleftrightarrow> x = y"
  by (metis sub_byte_def inv_affine_sub gf_inv_inv)

lemma sbox_value:
  assumes "pow_log_ok pow log" "1 \<le> i" "i < 256"
  shows "gen_affine (pow ! unat (255 - log ! i)) = ucast (sub_byte (of_nat i))"
proof -
  define x :: u8 where "x = of_nat i"
  have x: "unat x = i" "x \<noteq> 0" using assms(2,3) by (auto simp: x_def unat_of_nat word_of_nat_eq_0_iff)
  then obtain k where k: "1 \<le> k" "k \<le> 255" "x = gf_exp k" using gf_exp_surj by meson
  have "log ! i = of_nat k" using assms(1) k x by (auto simp: pow_log_ok_def)
  moreover have "unat (255 - of_nat k :: u32) = 255 - k"
    using k by (simp add: unat_sub word_le_nat_alt unat_of_nat)
  ultimately have "pow ! unat (255 - log ! i) = ucast (gf_inv x)"
    using assms(1) k by (simp add: pow_log_ok_def gf_inv_exp)
  then show ?thesis by (simp add: gen_affine_ucast sub_byte_def x_def)
qed

section \<open>The S-boxes after the generator\<close>

text \<open>The static arrays keep the lengths they are declared with.\<close>

definition aes_sized :: "aes_statics \<Rightarrow> bool" where
  "aes_sized s \<longleftrightarrow> length (FSb s) = 256 \<and> length (RSb s) = 256 \<and>
     length (FT0 s) = 256 \<and> length (FT1 s) = 256 \<and> length (FT2 s) = 256 \<and> length (FT3 s) = 256 \<and>
     length (RT0 s) = 256 \<and> length (RT1 s) = 256 \<and> length (RT2 s) = 256 \<and> length (RT3 s) = 256 \<and>
     length (RCON s) = 10"

lemma ucast_ucast8: "ucast (ucast b :: u32) = b" for b :: u8
  by (rule bit_word_eqI) (simp add: bit_ucast_iff)

definition sbox_upto :: "nat \<Rightarrow> aes_statics \<Rightarrow> bool" where
  "sbox_upto n s \<longleftrightarrow> (\<forall>i < n. FSb s ! i = sub_byte (of_nat i) \<and> RSb s ! unat (sub_byte (of_nat i)) = of_nat i)"

lemma byte_of_nat_eq: "i < 256 \<Longrightarrow> j < 256 \<Longrightarrow> (of_nat i :: u8) = of_nat j \<longleftrightarrow> i = j"
  by (simp add: word_of_nat_eq_iff take_bit_nat_eq_self)

lemma byte_less_256: "unat (b :: u8) < 256"
  using unsigned_less [where 'a = nat, of b] by simp

lemma gen_sbox_step_ok:
  assumes "pow_log_ok pow log" "aes_sized s" "sbox_upto n s" "1 \<le> n" "n < 256"
  shows "aes_sized (gen_sbox_step pow log n s) \<and> sbox_upto (Suc n) (gen_sbox_step pow log n s)"
proof -
  have "(of_nat i :: u8) \<noteq> of_nat n" if "i < n" for i
    using byte_of_nat_eq [of i n] that assms(5) by simp
  then have *: "unat (sub_byte (of_nat i)) \<noteq> unat (sub_byte (of_nat n))" if "i < n" for i
    using that by (simp add: sub_byte_inj flip: word_unat_eq_iff)
  show ?thesis
    using * * [THEN not_sym] assms byte_less_256 [of "sub_byte (of_nat n)"]
    by (auto simp: gen_sbox_step_def sbox_value unat_ucast32 ucast_ucast8 aes_sized_def sbox_upto_def less_Suc_eq
        nth_list_update Let_def)
qed

lemma gen_sbox_loop:
  assumes "pow_log_ok pow log" "aes_sized s" "sbox_upto 1 s"
  shows "n \<le> 255 \<Longrightarrow> aes_sized (fold (gen_sbox_step pow log) [1 ..< Suc n] s) \<and>
    sbox_upto (Suc n) (fold (gen_sbox_step pow log) [1 ..< Suc n] s)"
proof (induction n)
  case (Suc n)
  then show ?case using gen_sbox_step_ok [OF assms(1), of _ "Suc n"] by simp
qed (use assms in simp)

section \<open>The look-up tables after the generator\<close>

text \<open>A word from its four bytes, the lowest first.\<close>

definition pack :: "u8 \<Rightarrow> u8 \<Rightarrow> u8 \<Rightarrow> u8 \<Rightarrow> u32" where
  "pack a b c d = ucast a XOR push_bit 8 (ucast b) XOR push_bit 16 (ucast c) XOR push_bit 24 (ucast d)"

text \<open>The columns of the matrices of MixColumns and of its inverse, applied to one byte.\<close>

definition mix_byte :: "u8 \<Rightarrow> u32" where
  "mix_byte y = pack (gf_mul 2 y) y y (gf_mul 3 y)"

definition inv_mix_byte :: "u8 \<Rightarrow> u32" where
  "inv_mix_byte y = pack (gf_mul 0x0E y) (gf_mul 0x09 y) (gf_mul 0x0D y) (gf_mul 0x0B y)"

definition tables_upto :: "nat \<Rightarrow> aes_statics \<Rightarrow> bool" where
  "tables_upto n s \<longleftrightarrow> (\<forall>i < n.
     FT0 s ! i = mix_byte (FSb s ! i) \<and> FT1 s ! i = aes_ROTL8 (FT0 s ! i) \<and>
     FT2 s ! i = aes_ROTL8 (FT1 s ! i) \<and> FT3 s ! i = aes_ROTL8 (FT2 s ! i) \<and>
     RT0 s ! i = inv_mix_byte (RSb s ! i) \<and> RT1 s ! i = aes_ROTL8 (RT0 s ! i) \<and>
     RT2 s ! i = aes_ROTL8 (RT1 s ! i) \<and> RT3 s ! i = aes_ROTL8 (RT2 s ! i))"

lemma gf_mul_2: "gf_mul 2 y = gf_xtime y"
  by (simp add: gf_mul_expand)

lemma gf_mul_3: "gf_mul 3 y = gf_gen y"
  by (simp add: gf_mul_expand gf_gen_def)

lemma gen_tables_step_ok:
  assumes "pow_log_ok pow log" "aes_sized s" "sbox_upto 256 s" "tables_upto n s" "n < 256"
  shows "aes_sized (gen_tables_step pow log n s) \<and> sbox_upto 256 (gen_tables_step pow log n s) \<and>
    tables_upto (Suc n) (gen_tables_step pow log n s)"
proof -
  have mul: "aes_MUL pow log 0x0E (ucast x) = ucast (gf_mul 0x0E x)"
    "aes_MUL pow log 0x09 (ucast x) = ucast (gf_mul 0x09 x)"
    "aes_MUL pow log 0x0D (ucast x) = ucast (gf_mul 0x0D x)"
    "aes_MUL pow log 0x0B (ucast x) = ucast (gf_mul 0x0B x)" for x
    using aes_MUL_gf [OF assms(1), of "0x0E" x] aes_MUL_gf [OF assms(1), of "0x09" x]
      aes_MUL_gf [OF assms(1), of "0x0D" x] aes_MUL_gf [OF assms(1), of "0x0B" x] by simp_all
  have z: "(ucast (gf_xtime y) XOR ucast y) AND 0xFF = (ucast (gf_gen y) :: u32)" for y :: u8
    by (rule bit_word_eqI)
      (auto simp: and_FF gf_gen_def bit_take_bit_iff bit_ucast_iff bit_xor_iff dest: bit_imp_le_length)
  have ft: "(let x = ucast y; y = XTIME x AND 0xFF; z = (y XOR x) AND 0xFF in
      y XOR push_bit 8 x XOR push_bit 16 x XOR push_bit 24 z) = mix_byte y" for y
    by (simp only: Let_def XTIME_ucast z mix_byte_def pack_def gf_mul_2 gf_mul_3)
  show ?thesis
    using assms ft mul
    by (auto simp: gen_tables_step_def gen_forward_step_def gen_reverse_step_def Let_def aes_sized_def
        sbox_upto_def tables_upto_def less_Suc_eq nth_list_update inv_mix_byte_def pack_def)
qed


lemma gen_tables_loop:
  assumes "pow_log_ok pow log" "aes_sized s" "sbox_upto 256 s"
  shows "n \<le> 256 \<Longrightarrow> aes_sized (fold (gen_tables_step pow log) [0 ..< n] s) \<and>
    sbox_upto 256 (fold (gen_tables_step pow log) [0 ..< n] s) \<and>
    tables_upto n (fold (gen_tables_step pow log) [0 ..< n] s)"
proof (induction n)
  case (Suc n)
  then show ?case using gen_tables_step_ok [OF assms(1), of _ n] by simp
qed (use assms in \<open>simp add: tables_upto_def\<close>)

lemma gen_rcon_loop:
  "length r = 10 \<Longrightarrow> n \<le> 10 \<Longrightarrow> \<exists>r'. fold gen_rcon_step [0 ..< n] (r, 1) = (r', ucast ((gf_xtime ^^ n) 1)) \<and>
     length r' = 10 \<and> (\<forall>i < n. r' ! i = ucast ((gf_xtime ^^ i) 1))"
proof (induction n)
  case (Suc n)
  then obtain r' where IH: "fold gen_rcon_step [0 ..< n] (r, 1) = (r', ucast ((gf_xtime ^^ n) 1))"
    "length r' = 10" "\<forall>i < n. r' ! i = ucast ((gf_xtime ^^ i) 1)" by auto
  have "fold gen_rcon_step [0 ..< Suc n] (r, 1) = (r'[n := ucast ((gf_xtime ^^ n) 1)], ucast ((gf_xtime ^^ Suc n) 1))"
    by (simp add: IH(1)) (simp add: gen_rcon_step_def XTIME_ucast)
  then show ?case using IH(2-) Suc.prems by (auto simp: nth_list_update less_Suc_eq simp del: upt_Suc)
qed simp

text \<open>What the block functions rely on.\<close>

definition aes_tables_ok :: "aes_statics \<Rightarrow> bool" where
  "aes_tables_ok s \<longleftrightarrow> aes_sized s \<and> (\<forall>x. FSb s ! unat x = sub_byte x) \<and> (\<forall>x. RSb s ! unat (sub_byte x) = x) \<and>
     (\<forall>x. FT0 s ! unat x = mix_byte (sub_byte x)) \<and>
     (\<forall>x. FT1 s ! unat x = aes_ROTL8 (mix_byte (sub_byte x))) \<and>
     (\<forall>x. FT2 s ! unat x = aes_ROTL8 (aes_ROTL8 (mix_byte (sub_byte x)))) \<and>
     (\<forall>x. FT3 s ! unat x = aes_ROTL8 (aes_ROTL8 (aes_ROTL8 (mix_byte (sub_byte x))))) \<and>
     (\<forall>x. RT0 s ! unat (sub_byte x) = inv_mix_byte x) \<and>
     (\<forall>x. RT1 s ! unat (sub_byte x) = aes_ROTL8 (inv_mix_byte x)) \<and>
     (\<forall>x. RT2 s ! unat (sub_byte x) = aes_ROTL8 (aes_ROTL8 (inv_mix_byte x))) \<and>
     (\<forall>x. RT3 s ! unat (sub_byte x) = aes_ROTL8 (aes_ROTL8 (aes_ROTL8 (inv_mix_byte x)))) \<and>
     (\<forall>i < 10. RCON s ! i = ucast ((gf_xtime ^^ i) 1))"

lemma aes_gen_tables_ok: assumes "aes_sized s" shows "aes_tables_ok (aes_gen_tables s)"
proof -
  obtain pow log where pl: "gen_pow_log = (pow, log)" "pow_log_ok pow log"
    using gen_pow_log_ok by (cases gen_pow_log) auto
  obtain rc where rc: "fst (fold gen_rcon_step [0 ..< 10] (RCON s, 1)) = rc" "length rc = 10"
    "\<forall>i < 10. rc ! i = ucast ((gf_xtime ^^ i) 1)"
    using gen_rcon_loop [where r = "RCON s" and n = 10] assms by (auto simp: aes_sized_def)
  define s1 where "s1 = s\<lparr>RCON := rc, FSb := (FSb s)[0 := 0x63], RSb := (RSb s)[0x63 := 0]\<rparr>"
  define s2 where "s2 = fold (gen_sbox_step pow log) [1 ..< 256] s1"
  define s3 where "s3 = fold (gen_tables_step pow log) [0 ..< 256] s2"
  have "sub_byte 0 = 0x63" by (simp add: sub_byte_def gf_inv_0 sub_affine_def)
  then have "aes_sized s1" "sbox_upto 1 s1"
    using assms rc by (auto simp: s1_def aes_sized_def sbox_upto_def)
  then have s2: "aes_sized s2" "sbox_upto 256 s2"
    using gen_sbox_loop [OF pl(2), of s1 255] by (simp_all add: s2_def)
  have s3: "aes_sized s3" "sbox_upto 256 s3" "tables_upto 256 s3"
    using gen_tables_loop [OF pl(2) s2, of 256] by (simp_all add: s3_def)
  have "RCON (gen_sbox_step pow log i t) = RCON t" "RCON (gen_tables_step pow log i t) = RCON t" for i t
    by (simp_all add: gen_sbox_step_def gen_tables_step_def gen_forward_step_def gen_reverse_step_def Let_def)
  then have "RCON (fold (gen_sbox_step pow log) is t) = RCON t" "RCON (fold (gen_tables_step pow log) is t) = RCON t" for "is" t
    by (induction "is" arbitrary: t) simp_all
  then have "RCON s3 = rc" by (simp add: s1_def s2_def s3_def)
  moreover have "aes_gen_tables s = s3"
    by (simp add: aes_gen_tables_def pl rc Let_def s1_def s2_def s3_def)
  moreover have F: "FSb s3 ! unat x = sub_byte x" "RSb s3 ! unat (sub_byte x) = x" for x
    using s3(2) byte_less_256 [of x] by (force simp: sbox_upto_def)+
  ultimately show ?thesis
    using s3 rc(3) byte_less_256 by (simp add: aes_tables_ok_def tables_upto_def)
qed

text \<open>The flag says whether the tables have been generated; every key schedule keeps the two in step.\<close>

definition aes_statics_ok :: "aes_statics \<Rightarrow> bool" where
  "aes_statics_ok s \<longleftrightarrow> aes_sized s \<and> (aes_init_done s \<longrightarrow> aes_tables_ok s)"

lemma aes_start_ok: "aes_statics_ok aes_start"
  by (simp add: aes_statics_ok_def aes_start_def aes_sized_def)

lemma aes_init_tables_ok: "aes_statics_ok s \<Longrightarrow> aes_tables_ok (aes_init_tables s) \<and> aes_statics_ok (aes_init_tables s)"
  using aes_gen_tables_ok [of s]
  by (auto simp: aes_init_tables_def aes_statics_ok_def aes_tables_ok_def aes_sized_def)

end
