(* ===== verification/Aes_Cipher.thy ===== *)
theory Aes_Cipher
  imports Aes_Tables
begin

text \<open>
  The block functions and the key schedules. A round by table look-up is the composition of the S-box with ShiftRows,
  MixColumns and the round key; the reference of FIPS 197 (KeyExpansion and Cipher, on lists of bytes) is
  the same function; and with the reversed schedule, the decryption takes back round after round.
\<close>

section \<open>Words and their bytes\<close>

definition byte_at :: "nat \<Rightarrow> u32 \<Rightarrow> u8" where
  "byte_at n w = ucast (drop_bit n w)"

lemma at_byte_unat: "at_byte n w = unat (byte_at n w)"
proof -
  have "drop_bit n w AND 0xFF = ucast (byte_at n w)"
    by (rule bit_word_eqI) (auto simp: and_FF byte_at_def bit_take_bit_iff bit_ucast_iff bit_drop_bit_eq dest: bit_imp_le_length)
  then show ?thesis by (simp add: at_byte_def unat_ucast32)
qed

lemma bit_byte_at: "bit (byte_at n w) i \<longleftrightarrow> i < 8 \<and> bit w (n + i)"
  by (simp add: byte_at_def bit_ucast_iff bit_drop_bit_eq)

lemma bit_pack: "bit (pack a b c d) i \<longleftrightarrow> (if i < 8 then bit a i else if i < 16 then bit b (i - 8)
    else if i < 24 then bit c (i - 16) else i < 32 \<and> bit d (i - 24))"
  by (auto simp: pack_def bit_xor_iff bit_push_bit_iff bit_ucast_iff dest: bit_imp_le_length)

lemma byte_at_pack [simp]: "byte_at 0 (pack a b c d) = a" "byte_at 8 (pack a b c d) = b"
  "byte_at 16 (pack a b c d) = c" "byte_at 24 (pack a b c d) = d"
  by (rule byte_cases, simp add: bit_byte_at bit_pack)+

lemma byte_at_xor [simp]: "byte_at n (v XOR w) = byte_at n v XOR byte_at n w"
  by (rule byte_cases) (simp add: bit_byte_at bit_xor_iff)

lemma pack_byte_at [simp]: "pack (byte_at 0 w) (byte_at 8 w) (byte_at 16 w) (byte_at 24 w) = w"
  by (rule bit_word_eqI) (auto simp: bit_byte_at bit_pack)

lemma pack_xor [simp]: "pack a b c d XOR pack a' b' c' d' = pack (a XOR a') (b XOR b') (c XOR c') (d XOR d')"
  by (rule bit_word_eqI) (auto simp: bit_pack bit_xor_iff)

lemma pack_eq [simp]: "pack a b c d = pack a' b' c' d' \<longleftrightarrow> a = a' \<and> b = b' \<and> c = c' \<and> d = d'"
  by (metis byte_at_pack)

lemma ROTL8_pack [simp]: "aes_ROTL8 (pack a b c d) = pack d a b c"
proof -
  have F: "(0xFFFFFFFF :: u32) = mask 32" by code_simp
  show ?thesis
    unfolding aes_ROTL8_def F
    by (rule bit_word_eqI) (auto simp: bit_pack bit_or_iff bit_and_iff bit_mask_iff bit_push_bit_iff bit_drop_bit_eq)
qed

lemma AES_GET_pack: "AES_GET_UINT32_LE b i = pack (b ! i) (b ! (i + 1)) (b ! (i + 2)) (b ! (i + 3))"
  by (rule bit_word_eqI)
    (auto simp: AES_GET_UINT32_LE_def bit_pack bit_or_iff bit_push_bit_iff bit_ucast_iff dest: bit_imp_le_length)

lemma AES_PUT_bytes: "AES_PUT_UINT32_LE w = [byte_at 0 w, byte_at 8 w, byte_at 16 w, byte_at 24 w]"
proof -
  have "ucast (v AND 0xFF) = (ucast v :: u8)" for v :: u32
    by (rule byte_cases) (auto simp: and_FF bit_take_bit_iff bit_ucast_iff)
  then show ?thesis by (simp add: AES_PUT_UINT32_LE_def byte_at_def)
qed

section \<open>Columns\<close>

text \<open>MixColumns and its inverse on a word, and the S-box on the four bytes of a word.\<close>

definition mix_word :: "u32 \<Rightarrow> u32" where
  "mix_word w = (let a = byte_at 0 w; b = byte_at 8 w; c = byte_at 16 w; d = byte_at 24 w in
     pack (gf_mul 2 a XOR gf_mul 3 b XOR c XOR d) (a XOR gf_mul 2 b XOR gf_mul 3 c XOR d)
          (a XOR b XOR gf_mul 2 c XOR gf_mul 3 d) (gf_mul 3 a XOR b XOR c XOR gf_mul 2 d))"

definition inv_mix_word :: "u32 \<Rightarrow> u32" where
  "inv_mix_word w = (let a = byte_at 0 w; b = byte_at 8 w; c = byte_at 16 w; d = byte_at 24 w in
     pack (gf_mul 0x0E a XOR gf_mul 0x0B b XOR gf_mul 0x0D c XOR gf_mul 0x09 d)
          (gf_mul 0x09 a XOR gf_mul 0x0E b XOR gf_mul 0x0B c XOR gf_mul 0x0D d)
          (gf_mul 0x0D a XOR gf_mul 0x09 b XOR gf_mul 0x0E c XOR gf_mul 0x0B d)
          (gf_mul 0x0B a XOR gf_mul 0x0D b XOR gf_mul 0x09 c XOR gf_mul 0x0E d))"

lemma inv_mix_word_xor: "inv_mix_word (v XOR w) = inv_mix_word v XOR inv_mix_word w"
  by (simp add: inv_mix_word_def Let_def gf_mul_xor_right xor.assoc xor.left_commute)

lemma gf_mul_consts: "gf_mul 2 y = gf_xtime y" "gf_mul 3 y = y XOR gf_xtime y"
  "gf_mul 0x09 y = y XOR gf_xtime (gf_xtime (gf_xtime y))"
  "gf_mul 0x0B y = y XOR gf_xtime y XOR gf_xtime (gf_xtime (gf_xtime y))"
  "gf_mul 0x0D y = y XOR gf_xtime (gf_xtime y) XOR gf_xtime (gf_xtime (gf_xtime y))"
  "gf_mul 0x0E y = gf_xtime y XOR gf_xtime (gf_xtime y) XOR gf_xtime (gf_xtime (gf_xtime y))"
  by (simp_all add: gf_mul_expand numeral_2_eq_2 numeral_3_eq_3 xor.assoc)

lemma inv_mix_mix: "inv_mix_word (mix_word w) = w"
  unfolding mix_word_def inv_mix_word_def Let_def byte_at_pack gf_mul_consts gf_xtime_xor
  by (simp add: xor.assoc xor.left_commute)

section \<open>Rounds\<close>

text \<open>
  The parts of a round on four words: the S-box with ShiftRows, MixColumns on every word, the round
  key. A round of the code is their composition, for either direction.
\<close>

definition sub_shift :: "aes_words \<Rightarrow> aes_words" where
  "sub_shift = (\<lambda>(Y0, Y1, Y2, Y3). let S = (\<lambda>n w. sub_byte (byte_at n w)) in
     (pack (S 0 Y0) (S 8 Y1) (S 16 Y2) (S 24 Y3), pack (S 0 Y1) (S 8 Y2) (S 16 Y3) (S 24 Y0),
      pack (S 0 Y2) (S 8 Y3) (S 16 Y0) (S 24 Y1), pack (S 0 Y3) (S 8 Y0) (S 16 Y1) (S 24 Y2)))"

definition words_map :: "(u32 \<Rightarrow> u32) \<Rightarrow> aes_words \<Rightarrow> aes_words" where
  "words_map f = (\<lambda>(a, b, c, d). (f a, f b, f c, f d))"

definition add_key :: "u32 list \<Rightarrow> nat \<Rightarrow> aes_words \<Rightarrow> aes_words" where
  "add_key b RK = (\<lambda>(X0, X1, X2, X3). (b ! RK XOR X0, b ! (RK + 1) XOR X1, b ! (RK + 2) XOR X2, b ! (RK + 3) XOR X3))"

lemmas table_simps = aes_tables_ok_def at_byte_unat mix_byte_def inv_mix_byte_def

lemma FROUND_eq: "aes_tables_ok s \<Longrightarrow> AES_FROUND s b RK X = add_key b RK (words_map mix_word (sub_shift X))"
  by (cases X) (simp add: AES_FROUND_def add_key_def words_map_def mix_word_def sub_shift_def table_simps
      Let_def xor.assoc xor.left_commute xor.commute)

lemma RROUND_eq: "aes_tables_ok s \<Longrightarrow> AES_RROUND s b RK (sub_shift X) = add_key b RK (words_map inv_mix_word X)"
  by (cases X) (simp add: AES_RROUND_def add_key_def words_map_def inv_mix_word_def sub_shift_def table_simps
      Let_def xor.assoc xor.left_commute xor.commute)

lemma S_pack: "ucast a XOR push_bit 8 (ucast b) XOR push_bit 16 (ucast c) XOR push_bit 24 (ucast d) = pack a b c d"
  by (simp add: pack_def)

lemma last_forward_eq: "aes_tables_ok s \<Longrightarrow> aes_last_forward s b RK X = add_key b RK (sub_shift X)"
  by (cases X) (simp add: aes_last_forward_def add_key_def sub_shift_def S_at_def aes_tables_ok_def at_byte_unat
      Let_def pack_def xor.assoc)

lemma last_reverse_eq: "aes_tables_ok s \<Longrightarrow> aes_last_reverse s b RK (sub_shift X) = add_key b RK X"
  by (cases X) (simp add: aes_last_reverse_def add_key_def sub_shift_def S_at_def aes_tables_ok_def at_byte_unat
      Let_def xor.assoc S_pack)

lemma dec_word_eq: "aes_tables_ok s \<Longrightarrow> dec_word s w = inv_mix_word w"
  by (simp add: dec_word_def table_simps inv_mix_word_def Let_def xor.assoc xor.left_commute xor.commute)

lemma inv_mix_words: "words_map inv_mix_word (words_map mix_word X) = X"
  by (cases X) (simp add: words_map_def inv_mix_mix)

text \<open>The states of a run of rounds, and the loop over pairs of rounds.\<close>

fun round_seq :: "(nat \<Rightarrow> aes_words \<Rightarrow> aes_words) \<Rightarrow> aes_words \<Rightarrow> nat \<Rightarrow> aes_words" where
  "round_seq f X 0 = X"
| "round_seq f X (Suc r) = f (4 * Suc r) (round_seq f X r)"

lemma round_pairs_seq:
  "aes_round_pairs f i (4 * Suc r, round_seq f X r) = (4 * Suc (r + 2 * i), round_seq f X (r + 2 * i))"
proof (induction i arbitrary: r)
  case (Suc i)
  have "aes_round_pairs f (Suc i) (4 * Suc r, round_seq f X r) =
      aes_round_pairs f i (4 * Suc (Suc (Suc r)), round_seq f X (Suc (Suc r)))"
    by (simp add: Let_def add.commute)
  then show ?case using Suc [of "Suc (Suc r)"] by (simp add: algebra_simps)
qed simp

lemma aes_block_seq:
  assumes "2 \<le> n" "even n"
  shows "aes_block f g n b 0 input = aes_store (g (4 * n) (round_seq f (aes_load b 0 input) (n - 1)))"
proof -
  obtain m where n: "n = 2 * Suc m" using assms by (metis dvd_def Suc_pred' mult_0_right not_numeral_le_zero zero_less_iff_neq_zero)
  show ?thesis
    using round_pairs_seq [of f m 0 "aes_load b 0 input"] by (simp add: aes_block_def n Let_def)
qed

section \<open>The reference: FIPS 197\<close>

text \<open>A word is a list of four bytes, the state one of sixteen, column after column.\<close>

definition xor_bytes :: "u8 list \<Rightarrow> u8 list \<Rightarrow> u8 list" where
  "xor_bytes = map2 (XOR)"

definition rot_word :: "u8 list \<Rightarrow> u8 list" where
  "rot_word w = [w ! 1, w ! 2, w ! 3, w ! 0]"

definition rcon_word :: "nat \<Rightarrow> u8 list" where
  "rcon_word i = [(gf_xtime ^^ (i - 1)) 1, 0, 0, 0]"

text \<open>KeyExpansion: word \<open>i\<close> of the schedule of a key of \<open>Nk\<close> words.\<close>

function key_word :: "u8 list \<Rightarrow> nat \<Rightarrow> nat \<Rightarrow> u8 list" where
  "key_word key Nk i =
     (if i < Nk \<or> Nk = 0 then take 4 (drop (4 * i) key)
      else let temp = key_word key Nk (i - 1);
               temp = (if i mod Nk = 0 then xor_bytes (map sub_byte (rot_word temp)) (rcon_word (i div Nk))
                       else if 6 < Nk \<and> i mod Nk = 4 then map sub_byte temp else temp)
           in xor_bytes (key_word key Nk (i - Nk)) temp)"
  by pat_completeness auto
termination by (relation "measure (\<lambda>(key, Nk, i). i)") auto

declare key_word.simps [simp del]

definition shift_rows :: "u8 list \<Rightarrow> u8 list" where
  "shift_rows s = map (\<lambda>i. s ! ((i + 4 * (i mod 4)) mod 16)) [0 ..< 16]"

definition mix_column :: "u8 list \<Rightarrow> u8 list" where
  "mix_column s = (let a = s ! 0; b = s ! 1; c = s ! 2; d = s ! 3 in
     [gf_mul 2 a XOR gf_mul 3 b XOR c XOR d, a XOR gf_mul 2 b XOR gf_mul 3 c XOR d,
      a XOR b XOR gf_mul 2 c XOR gf_mul 3 d, gf_mul 3 a XOR b XOR c XOR gf_mul 2 d])"

definition mix_columns :: "u8 list \<Rightarrow> u8 list" where
  "mix_columns s = concat (map (\<lambda>c. mix_column (take 4 (drop (4 * c) s))) [0 ..< 4])"

definition add_round_key :: "(nat \<Rightarrow> u8 list) \<Rightarrow> nat \<Rightarrow> u8 list \<Rightarrow> u8 list" where
  "add_round_key w r s = xor_bytes s (concat (map w [4 * r ..< 4 * r + 4]))"

text \<open>Cipher: \<open>r\<close> full rounds, then the last one without MixColumns.\<close>

fun cipher_rounds :: "(nat \<Rightarrow> u8 list) \<Rightarrow> nat \<Rightarrow> u8 list \<Rightarrow> u8 list" where
  "cipher_rounds w 0 s = add_round_key w 0 s"
| "cipher_rounds w (Suc r) s =
     add_round_key w (Suc r) (mix_columns (shift_rows (map sub_byte (cipher_rounds w r s))))"

definition aes_cipher :: "u8 list \<Rightarrow> u8 list \<Rightarrow> u8 list" where
  "aes_cipher key input =
     (let Nk = length key div 4; Nr = Nk + 6; w = key_word key Nk
      in add_round_key w Nr (shift_rows (map sub_byte (cipher_rounds w (Nr - 1) input))))"

section \<open>The rounds implement the reference\<close>

definition holds_key :: "(nat \<Rightarrow> u8 list) \<Rightarrow> nat \<Rightarrow> u32 list \<Rightarrow> bool" where
  "holds_key w n b \<longleftrightarrow> length b = 68 \<and> (\<forall>i < n. AES_PUT_UINT32_LE (b ! i) = w i)"

lemma upto4: "[4 * r ..< 4 * r + 4] = [4 * r, 4 * r + 1, 4 * r + 2, 4 * r + 3]"
  by (simp add: upt_rec)

lemma store_add_key:
  assumes "holds_key w n b" "4 * r + 4 \<le> n"
  shows "aes_store (add_key b (4 * r) X) = add_round_key w r (aes_store X)"
proof -
  have "w (4 * r + j) = AES_PUT_UINT32_LE (b ! (4 * r + j))" if "j < 4" for j
    using assms that by (simp add: holds_key_def)
  from this [of 0] this [of 1] this [of 2] this [of 3] show ?thesis
    by (cases X) (simp add: add_round_key_def upto4 add_key_def aes_store_def AES_PUT_bytes xor_bytes_def xor.commute)
qed

lemma store_sub_shift: "aes_store (sub_shift X) = shift_rows (map sub_byte (aes_store X))"
  by (cases X) (simp add: sub_shift_def aes_store_def AES_PUT_bytes shift_rows_def upt_rec Let_def)

lemma store_mix: "aes_store (words_map mix_word X) = mix_columns (aes_store X)"
  by (cases X) (simp add: words_map_def mix_word_def aes_store_def AES_PUT_bytes mix_columns_def mix_column_def
      upt_rec Let_def)

text \<open>The four words of an input of sixteen bytes.\<close>

definition load_words :: "u8 list \<Rightarrow> aes_words" where
  "load_words input = (AES_GET_UINT32_LE input 0, AES_GET_UINT32_LE input 4,
     AES_GET_UINT32_LE input 8, AES_GET_UINT32_LE input 12)"

lemma aes_load_eq: "aes_load b RK input = add_key b RK (load_words input)"
  by (simp add: aes_load_def load_words_def add_key_def xor.commute)

lemma list_16: "length xs = 16 \<Longrightarrow> map (\<lambda>i. xs ! i) [0, 1, 2, 3, 4, 5, 6, 7, 8, 9, 10, 11, 12, 13, 14, 15] = xs"
proof -
  have "[0, 1, 2, 3, 4, 5, 6, 7, 8, 9, 10, 11, 12, 13, 14, 15] = [0 ..< 16]" by code_simp
  then show "length xs = 16 \<Longrightarrow> ?thesis" by (metis map_nth)
qed

lemma store_load_words: "length input = 16 \<Longrightarrow> aes_store (load_words input) = input"
  using list_16 [of input]
  by (simp add: aes_store_def load_words_def AES_PUT_bytes AES_GET_pack flip: numeral_2_eq_2)

lemma store_load:
  assumes "holds_key w n b" "4 \<le> n" "length input = 16"
  shows "aes_store (aes_load b 0 input) = add_round_key w 0 input"
  using store_add_key [OF assms(1), of 0] assms(2,3) by (simp add: aes_load_eq store_load_words)

lemma aes_encrypt_rounds:
  assumes "aes_tables_ok s" "holds_key w n b" "length input = 16"
  shows "4 * r + 4 \<le> n \<Longrightarrow> aes_store (round_seq (AES_FROUND s b) (aes_load b 0 input) r) = cipher_rounds w r input"
proof (induction r)
  case 0
  then show ?case using store_load [OF assms(2) _ assms(3)] by simp
next
  case (Suc r)
  then show ?case
    using store_add_key [OF assms(2), of "Suc r"]
    by (simp add: FROUND_eq [OF assms(1)] store_mix store_sub_shift)
qed

section \<open>The key schedules\<close>

lemma AES_PUT_xor: "AES_PUT_UINT32_LE (v XOR w) = xor_bytes (AES_PUT_UINT32_LE v) (AES_PUT_UINT32_LE w)"
  by (simp add: AES_PUT_bytes xor_bytes_def)

lemma AES_PUT_sub: "aes_tables_ok s \<Longrightarrow> AES_PUT_UINT32_LE (aes_sub s w) = map sub_byte (AES_PUT_UINT32_LE w)"
  by (simp add: AES_PUT_bytes aes_sub_def S_at_def aes_tables_ok_def at_byte_unat S_pack)

lemma AES_PUT_sub_rot:
  "aes_tables_ok s \<Longrightarrow> AES_PUT_UINT32_LE (aes_sub_rot s w) = map sub_byte (rot_word (AES_PUT_UINT32_LE w))"
  by (simp add: AES_PUT_bytes aes_sub_rot_def S_at_def aes_tables_ok_def at_byte_unat S_pack rot_word_def)

lemma AES_PUT_rcon: "aes_tables_ok s \<Longrightarrow> i < 10 \<Longrightarrow> AES_PUT_UINT32_LE (RCON s ! i) = rcon_word (Suc i)"
proof -
  assume "aes_tables_ok s" "i < 10"
  then have "RCON s ! i = pack ((gf_xtime ^^ i) 1) 0 0 0" by (simp add: aes_tables_ok_def pack_def)
  then show ?thesis by (simp add: AES_PUT_bytes rcon_word_def)
qed

lemma holds_key_append:
  "holds_key w n b \<Longrightarrow> n < 68 \<Longrightarrow> AES_PUT_UINT32_LE v = w n \<Longrightarrow> holds_key w (Suc n) (b[n := v])"
  by (auto simp: holds_key_def nth_list_update less_Suc_eq)

lemma holds_key_nth: "holds_key w n b \<Longrightarrow> i < n \<Longrightarrow> AES_PUT_UINT32_LE (b ! i) = w i"
  by (simp add: holds_key_def)

text \<open>One step of a schedule for each way in which KeyExpansion makes a word.\<close>

lemma schedule_plain:
  assumes "holds_key (key_word key Nk) n b" "n < 68" "0 < Nk" "n = k + Nk" "n mod Nk \<noteq> 0" "\<not> (6 < Nk \<and> n mod Nk = 4)" "m = Suc n"
  shows "holds_key (key_word key Nk) m (rk_plain Nk k b)"
  using assms key_word.simps [of key Nk n]
  by (auto simp: rk_plain_def AES_PUT_xor holds_key_nth Let_def intro!: holds_key_append)

lemma schedule_rot:
  assumes "aes_tables_ok s" "holds_key (key_word key Nk) n b" "n < 68" "0 < Nk" "n = k + Nk" "n mod Nk = 0"
    "n div Nk = Suc i" "i < 10" "k' = n - 1" "m = Suc n"
  shows "holds_key (key_word key Nk) m (b[n := b ! k XOR RCON s ! i XOR aes_sub_rot s (b ! k')])"
unfolding \<open>m = Suc n\<close>
proof (rule holds_key_append [OF assms(2,3)])
  have w: "AES_PUT_UINT32_LE (b ! k) = key_word key Nk (n - Nk)" "AES_PUT_UINT32_LE (b ! k') = key_word key Nk (n - 1)"
    using assms(2,4,5,9) by (simp_all add: holds_key_nth)
  have "b ! k XOR RCON s ! i XOR aes_sub_rot s (b ! k') = b ! k XOR (aes_sub_rot s (b ! k') XOR RCON s ! i)"
    by (simp add: xor.assoc xor.commute)
  then show "AES_PUT_UINT32_LE (b ! k XOR RCON s ! i XOR aes_sub_rot s (b ! k')) = key_word key Nk n"
    using key_word.simps [of key Nk n] assms(4-8)
    by (simp add: AES_PUT_xor AES_PUT_sub_rot [OF assms(1)] AES_PUT_rcon [OF assms(1)] w)
qed

lemma schedule_sub:
  assumes "aes_tables_ok s" "holds_key (key_word key Nk) n b" "n < 68" "6 < Nk" "n = k + Nk" "n mod Nk = 4" "k' = n - 1" "m = Suc n"
  shows "holds_key (key_word key Nk) m (b[n := b ! k XOR aes_sub s (b ! k')])"
unfolding \<open>m = Suc n\<close>
proof (rule holds_key_append [OF assms(2,3)])
  have "AES_PUT_UINT32_LE (b ! k) = key_word key Nk (n - Nk)" "AES_PUT_UINT32_LE (b ! k') = key_word key Nk (n - 1)"
    using assms(2,4,5,7) by (simp_all add: holds_key_nth)
  then show "AES_PUT_UINT32_LE (b ! k XOR aes_sub s (b ! k')) = key_word key Nk n"
    using key_word.simps [of key Nk n] assms(4-6) by (simp add: AES_PUT_xor AES_PUT_sub [OF assms(1)])
qed

lemma schedule10_step:
  assumes "aes_tables_ok s" "holds_key (key_word key 4) (4 * i + 4) b" "i < 10"
  shows "\<exists>b'. aes_schedule10 s i (b, 4 * i) = (b', 4 * i + 4) \<and> holds_key (key_word key 4) (4 * i + 8) b'"
proof -
  have m: "(4 * i + 5) mod 4 = 1" "(4 * i + 6) mod 4 = 2" "(4 * i + 7) mod 4 = 3" by presburger+
  have "holds_key (key_word key 4) (4 * i + 5)
      (b[4 * i + 4 := b ! (4 * i) XOR RCON s ! i XOR aes_sub_rot s (b ! (4 * i + 3))])"
    (is "holds_key _ _ ?b1") using assms by - (rule schedule_rot [where n = "4 * i + 4"], simp_all)
  then have "holds_key (key_word key 4) (4 * i + 6) (rk_plain 4 (4 * i + 1) ?b1)" (is "holds_key _ _ ?b2")
    using assms(3) by - (rule schedule_plain [where n = "4 * i + 5"], simp_all add: m)
  then have "holds_key (key_word key 4) (4 * i + 7) (rk_plain 4 (4 * i + 2) ?b2)" (is "holds_key _ _ ?b3")
    using assms(3) by - (rule schedule_plain [where n = "4 * i + 6"], simp_all add: m)
  then have "holds_key (key_word key 4) (4 * i + 8) (rk_plain 4 (4 * i + 3) ?b3)" (is "holds_key _ _ ?b4")
    using assms(3) by - (rule schedule_plain [where n = "4 * i + 7"], simp_all add: m)
  then show ?thesis by (simp add: aes_schedule10_def Let_def)
qed

lemma schedule12_step:
  assumes "aes_tables_ok s" "holds_key (key_word key 6) (6 * i + 6) b" "i < 8"
  shows "\<exists>b'. aes_schedule12 s i (b, 6 * i) = (b', 6 * i + 6) \<and> holds_key (key_word key 6) (6 * i + 12) b'"
proof -
  have m: "(6 * i + 7) mod 6 = 1" "(6 * i + 8) mod 6 = 2" "(6 * i + 9) mod 6 = 3" "(6 * i + 10) mod 6 = 4" "(6 * i + 11) mod 6 = 5" by presburger+
  have "holds_key (key_word key 6) (6 * i + 7)
      (b[6 * i + 6 := b ! (6 * i) XOR RCON s ! i XOR aes_sub_rot s (b ! (6 * i + 5))])"
    (is "holds_key _ _ ?b1") using assms by - (rule schedule_rot [where n = "6 * i + 6"], simp_all)
  then have "holds_key (key_word key 6) (6 * i + 8) (rk_plain 6 (6 * i + 1) ?b1)" (is "holds_key _ _ ?b2")
    using assms(3) by - (rule schedule_plain [where n = "6 * i + 7"], simp_all add: m)
  then have "holds_key (key_word key 6) (6 * i + 9) (rk_plain 6 (6 * i + 2) ?b2)" (is "holds_key _ _ ?b3")
    using assms(3) by - (rule schedule_plain [where n = "6 * i + 8"], simp_all add: m)
  then have "holds_key (key_word key 6) (6 * i + 10) (rk_plain 6 (6 * i + 3) ?b3)" (is "holds_key _ _ ?b4")
    using assms(3) by - (rule schedule_plain [where n = "6 * i + 9"], simp_all add: m)
  then have "holds_key (key_word key 6) (6 * i + 11) (rk_plain 6 (6 * i + 4) ?b4)" (is "holds_key _ _ ?b5")
    using assms(3) by - (rule schedule_plain [where n = "6 * i + 10"], simp_all add: m)
  then have "holds_key (key_word key 6) (6 * i + 12) (rk_plain 6 (6 * i + 5) ?b5)" (is "holds_key _ _ ?b6")
    using assms(3) by - (rule schedule_plain [where n = "6 * i + 11"], simp_all add: m)
  then show ?thesis by (simp add: aes_schedule12_def Let_def)
qed

lemma schedule14_step:
  assumes "aes_tables_ok s" "holds_key (key_word key 8) (8 * i + 8) b" "i < 7"
  shows "\<exists>b'. aes_schedule14 s i (b, 8 * i) = (b', 8 * i + 8) \<and> holds_key (key_word key 8) (8 * i + 16) b'"
proof -
  have m: "(8 * i + 9) mod 8 = 1" "(8 * i + 10) mod 8 = 2" "(8 * i + 11) mod 8 = 3" "(8 * i + 12) mod 8 = 4" "(8 * i + 13) mod 8 = 5" "(8 * i + 14) mod 8 = 6" "(8 * i + 15) mod 8 = 7" by presburger+
  have "holds_key (key_word key 8) (8 * i + 9)
      (b[8 * i + 8 := b ! (8 * i) XOR RCON s ! i XOR aes_sub_rot s (b ! (8 * i + 7))])"
    (is "holds_key _ _ ?b1") using assms by - (rule schedule_rot [where n = "8 * i + 8"], simp_all)
  then have "holds_key (key_word key 8) (8 * i + 10) (rk_plain 8 (8 * i + 1) ?b1)" (is "holds_key _ _ ?b2")
    using assms(3) by - (rule schedule_plain [where n = "8 * i + 9"], simp_all add: m)
  then have "holds_key (key_word key 8) (8 * i + 11) (rk_plain 8 (8 * i + 2) ?b2)" (is "holds_key _ _ ?b3")
    using assms(3) by - (rule schedule_plain [where n = "8 * i + 10"], simp_all add: m)
  then have "holds_key (key_word key 8) (8 * i + 12) (rk_plain 8 (8 * i + 3) ?b3)" (is "holds_key _ _ ?b4")
    using assms(3) by - (rule schedule_plain [where n = "8 * i + 11"], simp_all add: m)
  then have "holds_key (key_word key 8) (8 * i + 13)
      (?b4[8 * i + 12 := ?b4 ! (8 * i + 4) XOR aes_sub s (?b4 ! (8 * i + 11))])" (is "holds_key _ _ ?b5")
    using assms(1,3) by - (rule schedule_sub [where n = "8 * i + 12"], simp_all add: m)
  then have "holds_key (key_word key 8) (8 * i + 14) (rk_plain 8 (8 * i + 5) ?b5)" (is "holds_key _ _ ?b6")
    using assms(3) by - (rule schedule_plain [where n = "8 * i + 13"], simp_all add: m)
  then have "holds_key (key_word key 8) (8 * i + 15) (rk_plain 8 (8 * i + 6) ?b6)" (is "holds_key _ _ ?b7")
    using assms(3) by - (rule schedule_plain [where n = "8 * i + 14"], simp_all add: m)
  then have "holds_key (key_word key 8) (8 * i + 16) (rk_plain 8 (8 * i + 7) ?b7)" (is "holds_key _ _ ?b8")
    using assms(3) by - (rule schedule_plain [where n = "8 * i + 15"], simp_all add: m)
  then show ?thesis by (simp add: aes_schedule14_def Let_def)
qed

text \<open>A schedule run to its end.\<close>

lemma schedule_loop:
  assumes "\<And>i b. holds_key w (N * i + N) b \<Longrightarrow> i < m \<Longrightarrow>
      \<exists>b'. f i (b, N * i) = (b', N * i + N) \<and> holds_key w (N * i + M) b'"
    and "holds_key w N b" and "M = 2 * N"
  shows "k \<le> m \<Longrightarrow> \<exists>b'. fold f [0 ..< k] (b, 0) = (b', N * k) \<and> holds_key w (N * k + N) b'"
proof (induction k)
  case (Suc k)
  then obtain b' where b': "fold f [0 ..< k] (b, 0) = (b', N * k)" "holds_key w (N * k + N) b'" by auto
  obtain b'' where "f k (b', N * k) = (b'', N * k + N)" "holds_key w (N * k + M) b''"
    using assms(1) [OF b'(2)] Suc.prems by auto
  moreover have "N * k + M = N * Suc k + N" "N * k + N = N * Suc k" using assms(3) by simp_all
  ultimately show ?case using b'(1) by simp
qed (use assms(2) in simp)

lemma take_4_drop: "n + 4 \<le> length xs \<Longrightarrow> take 4 (drop n xs) = [xs ! n, xs ! (n + 1), xs ! (n + 2), xs ! (n + 3)]"
proof (intro nth_equalityI)
  fix i assume "n + 4 \<le> length xs" "i < length (take 4 (drop n xs))"
  then show "take 4 (drop n xs) ! i = [xs ! n, xs ! (n + 1), xs ! (n + 2), xs ! (n + 3)] ! i"
    by (cases "i = 0 \<or> i = 1 \<or> i = 2 \<or> i = 3") auto
qed auto

lemma load_key:
  assumes "length b = 68" "4 * Nk \<le> length key" "k \<le> Nk" "k \<le> 68"
  shows "holds_key (key_word key Nk) k (fold (\<lambda>i b. b[i := AES_GET_UINT32_LE key (4 * i)]) [0 ..< k] b)"
  using assms(3,4)
proof (induction k)
  case 0
  then show ?case using assms(1) by (simp add: holds_key_def)
next
  case (Suc k)
  have "AES_PUT_UINT32_LE (AES_GET_UINT32_LE key (4 * k)) = take 4 (drop (4 * k) key)"
    using Suc.prems assms(2) by (simp add: AES_PUT_bytes AES_GET_pack take_4_drop)
  also have "\<dots> = key_word key Nk k" using Suc.prems by (simp add: key_word.simps)
  finally show ?case using Suc by (simp add: holds_key_append)
qed

definition key_set :: "u8 list \<Rightarrow> nat \<Rightarrow> nat \<Rightarrow> utils_aes_context \<Rightarrow> bool" where
  "key_set key keybits n ctx \<longleftrightarrow> aes_nr ctx = n \<and> aes_rk ctx = Some 0 \<and>
     holds_key (key_word key (keybits div 32)) (4 * n + 4) (aes_buf ctx)"

lemma holds_key_mono: "holds_key w n b \<Longrightarrow> m \<le> n \<Longrightarrow> holds_key w m b"
  by (simp add: holds_key_def)

lemma setkey_enc_ok:
  assumes "aes_statics_ok s" "length (aes_buf ctx) = 68" "aes_rounds keybits = Some n" "8 * length key = keybits"
  obtains ctx' s' where "utils_aes_setkey_enc s ctx key keybits = (0, ctx', s')" "key_set key keybits n ctx'"
    "aes_tables_ok s'" "aes_statics_ok s'"
proof -
  define s' where "s' = aes_init_tables s"
  have s': "aes_tables_ok s'" "aes_statics_ok s'" using aes_init_tables_ok [OF assms(1)] by (simp_all add: s'_def)
  define b where "b = fold (\<lambda>i b. b[i := AES_GET_UINT32_LE key (4 * i)]) [0 ..< keybits div 32] (aes_buf ctx)"
  have b: "holds_key (key_word key (keybits div 32)) (keybits div 32) b"
    using assms(2-4) by (auto simp: b_def aes_rounds_def split: if_splits intro!: load_key)
  consider "keybits = 128" "n = 10" | "keybits = 192" "n = 12" | "keybits = 256" "n = 14"
    using assms(3) by (auto simp: aes_rounds_def split: if_splits)
  then have "\<exists>ctx'. utils_aes_setkey_enc s ctx key keybits = (0, ctx', s') \<and> key_set key keybits n ctx'"
  proof cases
    case 1
    then have "holds_key (key_word key 4) 4 b" using b by simp
    from schedule_loop [where f = "aes_schedule10 s'" and m = 10 and M = 8 and k = 10, OF schedule10_step [OF s'(1)] this] show ?thesis
      using 1 by (auto simp: utils_aes_setkey_enc_def aes_rounds_def Let_def key_set_def b_def simp flip: s'_def)
  next
    case 2
    then have "holds_key (key_word key 6) 6 b" using b by simp
    from schedule_loop [where f = "aes_schedule12 s'" and m = 8 and M = 12 and k = 8, OF schedule12_step [OF s'(1)] this] show ?thesis
      using 2 by (auto simp: utils_aes_setkey_enc_def aes_rounds_def Let_def key_set_def holds_key_mono b_def simp flip: s'_def)
  next
    case 3
    then have "holds_key (key_word key 8) 8 b" using b by simp
    from schedule_loop [where f = "aes_schedule14 s'" and m = 7 and M = 16 and k = 7, OF schedule14_step [OF s'(1)] this] show ?thesis
      using 3 by (auto simp: utils_aes_setkey_enc_def aes_rounds_def Let_def key_set_def holds_key_mono b_def simp flip: s'_def)
  qed
  then show ?thesis using that s' by blast
qed

section \<open>The encryption of a block\<close>

lemma encrypt_block:
  assumes "aes_tables_ok s" "key_set key keybits n ctx" "aes_rounds keybits = Some n" "8 * length key = keybits"
    "length input = 16"
  shows "utils_internal_aes_encrypt s ctx input = Some (aes_cipher key input)"
proof -
  let ?b = "aes_buf ctx" and ?w = "key_word key (keybits div 32)"
  have k: "holds_key ?w (4 * n + 4) ?b" "aes_nr ctx = n" "aes_rk ctx = Some 0"
    using assms(2) by (simp_all add: key_set_def)
  have n: "2 \<le> n" "even n" "n = length key div 4 + 6" "keybits div 32 = length key div 4"
    using assms(3,4) by (auto simp: aes_rounds_def split: if_splits)
  have "aes_store (round_seq (AES_FROUND s ?b) (aes_load ?b 0 input) (n - 1)) = cipher_rounds ?w (n - 1) input"
    using n by (intro aes_encrypt_rounds [OF assms(1) k(1) assms(5)]) simp
  then have "aes_store (aes_last_forward s ?b (4 * n) (round_seq (AES_FROUND s ?b) (aes_load ?b 0 input) (n - 1)))
      = add_round_key ?w n (shift_rows (map sub_byte (cipher_rounds ?w (n - 1) input)))"
    using store_add_key [OF k(1), of n] by (simp add: last_forward_eq [OF assms(1)] store_sub_shift)
  then show ?thesis
    using n by (simp add: utils_internal_aes_encrypt_def k aes_block_seq aes_cipher_def Let_def)
qed

section \<open>The schedule of the decryption\<close>

lemma copy_words_eq: "copy_words f sk SK RK b = b[RK := f (sk ! SK), RK + 1 := f (sk ! (SK + 1)),
    RK + 2 := f (sk ! (SK + 2)), RK + 3 := f (sk ! (SK + 3))]"
proof -
  have "[0 ..< 4] = [0, 1, 2, 3 :: nat]" by code_simp
  then show ?thesis by (simp add: copy_words_def)
qed

lemma length_copy_words [simp]: "length (copy_words f sk SK RK b) = length b"
  by (simp add: copy_words_eq)

lemma copy_words_nth:
  assumes "RK + 4 \<le> length b"
  shows "copy_words f sk SK RK b ! i = (if RK \<le> i \<and> i < RK + 4 then f (sk ! (SK + (i - RK))) else b ! i)"
proof (cases "RK \<le> i \<and> i < RK + 4")
  case True
  then obtain j where "i = RK + j" "j < 4" by (auto simp: le_iff_add)
  then have "j = 0 \<or> j = 1 \<or> j = 2 \<or> j = 3" by arith
  then show ?thesis using assms \<open>i = RK + j\<close> by (auto simp: copy_words_eq)
next
  case False
  then show ?thesis by (auto simp: copy_words_eq)
qed

lemma dec_rounds_ok:
  assumes "RK + 4 * i \<le> length b"
  shows "\<exists>b'. dec_rounds s sk i (4 * i, RK, b) = (0, RK + 4 * i, b') \<and> length b' = length b \<and>
    (\<forall>k < RK. b' ! k = b ! k) \<and> (\<forall>r j. r < i \<and> j < 4 \<longrightarrow> b' ! (RK + 4 * r + j) = dec_word s (sk ! (4 * (i - r) + j)))"
  using assms
proof (induction i arbitrary: RK b)
  case (Suc i)
  let ?b = "copy_words (dec_word s) sk (4 * Suc i) RK b"
  obtain b' where b': "dec_rounds s sk i (4 * i, RK + 4, ?b) = (0, RK + 4 + 4 * i, b')" "length b' = length b"
    "\<forall>k < RK + 4. b' ! k = ?b ! k"
    "\<forall>r j. r < i \<and> j < 4 \<longrightarrow> b' ! (RK + 4 + 4 * r + j) = dec_word s (sk ! (4 * (i - r) + j))"
    using Suc.IH [of "RK + 4" ?b] Suc.prems by auto
  have "b' ! (RK + 4 * r + j) = dec_word s (sk ! (4 * (Suc i - r) + j))" if "r < Suc i" "j < 4" for r j
  proof (cases r)
    case 0
    then show ?thesis using that b'(3) Suc.prems by (simp add: copy_words_nth)
  next
    case (Suc q)
    then show ?thesis using that b'(4) [rule_format, of q j] by (simp add: algebra_simps)
  qed
  moreover have "b' ! k = b ! k" if "k < RK" for k
    using that b'(3) Suc.prems by (simp add: copy_words_nth)
  ultimately show ?case using b'(1,2) by simp
qed simp

text \<open>The buffer of the decryption against the one of the encryption.\<close>

definition reversed_key :: "nat \<Rightarrow> u32 list \<Rightarrow> u32 list \<Rightarrow> bool" where
  "reversed_key n e d \<longleftrightarrow> (\<forall>r j. r \<le> n \<and> j < 4 \<longrightarrow>
     d ! (4 * r + j) = (if r = 0 \<or> r = n then e ! (4 * (n - r) + j) else inv_mix_word (e ! (4 * (n - r) + j))))"

lemma setkey_dec_ok:
  assumes "aes_statics_ok s" "length (aes_buf ctx) = 68" "aes_rounds keybits = Some n" "8 * length key = keybits"
  obtains ctx' cty s' where "utils_aes_setkey_dec s ctx key keybits = (0, ctx', s')"
    "key_set key keybits n cty" "aes_nr ctx' = n" "aes_rk ctx' = Some 0" "reversed_key n (aes_buf cty) (aes_buf ctx')"
    "aes_tables_ok s'" "aes_statics_ok s'"
proof -
  have n: "n = 10 \<or> n = 12 \<or> n = 14" using assms(3) by (auto simp: aes_rounds_def split: if_splits)
  obtain cty s' where e: "utils_aes_setkey_enc s utils_aes_init key keybits = (0, cty, s')"
    "key_set key keybits n cty" "aes_tables_ok s'" "aes_statics_ok s'"
    using setkey_enc_ok [OF assms(1) _ assms(3,4), of utils_aes_init] by (auto simp: utils_aes_init_def)
  let ?e = "aes_buf cty" and ?b0 = "copy_words (\<lambda>w. w) (aes_buf cty) (4 * n) 0 (aes_buf ctx)"
  obtain b' where b': "dec_rounds s' ?e (n - 1) (4 * (n - 1), 4, ?b0) = (0, 4 + 4 * (n - 1), b')" "length b' = 68"
    "\<forall>k < 4. b' ! k = ?b0 ! k"
    "\<forall>r j. r < n - 1 \<and> j < 4 \<longrightarrow> b' ! (4 + 4 * r + j) = dec_word s' (?e ! (4 * (n - 1 - r) + j))"
    using dec_rounds_ok [of 4 "n - 1" ?b0 s' ?e] n assms(2) by auto
  define d where "d = copy_words (\<lambda>w. w) ?e 0 (4 + 4 * (n - 1)) b'"
  have "reversed_key n ?e d"
    unfolding reversed_key_def
  proof (intro allI impI)
    fix r j :: nat assume rj: "r \<le> n \<and> j < 4"
    have d_nth: "d ! i = (if 4 * n \<le> i \<and> i < 4 * n + 4 then ?e ! (i - 4 * n) else b' ! i)" for i
      using b'(2) n unfolding d_def by (subst copy_words_nth) auto
    consider "r = 0" | "r = n" "r \<noteq> 0" | q where "r = Suc q" "q < n - 1" using rj by (cases r) force+
    then show "d ! (4 * r + j) = (if r = 0 \<or> r = n then ?e ! (4 * (n - r) + j) else inv_mix_word (?e ! (4 * (n - r) + j)))"
    proof cases
      case 1
      then show ?thesis using rj n b'(3) assms(2) by (auto simp: d_nth copy_words_nth)
    next
      case 2
      then show ?thesis using rj by (simp add: d_nth)
    next
      case 3
      then show ?thesis using rj b'(4) by (auto simp: d_nth dec_word_eq [OF e(3)] simp flip: add.assoc)
    qed
  qed
  moreover have "utils_aes_setkey_dec s ctx key keybits =
      (0, ctx\<lparr>aes_rk := Some 0, aes_nr := n, aes_buf := d\<rparr>, s')"
    using n e(2) b'(1) unfolding utils_aes_setkey_dec_def
    by (auto simp: e(1) Let_def key_set_def d_def)
  ultimately show ?thesis using that e by auto
qed

section \<open>The decryption of a block\<close>

lemma load_words_store: "load_words (aes_store X) = X"
  by (cases X) (simp add: load_words_def aes_store_def AES_PUT_bytes AES_GET_pack numeral_eq_Suc [of num.One])

lemma add_key_reversed:
  assumes "reversed_key n e d" "r = 0 \<or> r = n" "r \<le> n"
  shows "add_key d (4 * r) (add_key e (4 * (n - r)) X) = X"
  using assms(1) [unfolded reversed_key_def, rule_format, of r 0] assms(1) [unfolded reversed_key_def, rule_format, of r 1]
    assms(1) [unfolded reversed_key_def, rule_format, of r 2] assms(1) [unfolded reversed_key_def, rule_format, of r 3] assms(2,3)
  by (cases X) (auto simp: add_key_def)

lemma add_key_inner:
  assumes "reversed_key n e d" "0 < r" "r < n"
  shows "add_key d (4 * r) (words_map inv_mix_word (add_key e (4 * (n - r)) X)) = words_map inv_mix_word X"
  using assms(1) [unfolded reversed_key_def, rule_format, of r 0] assms(1) [unfolded reversed_key_def, rule_format, of r 1]
    assms(1) [unfolded reversed_key_def, rule_format, of r 2] assms(1) [unfolded reversed_key_def, rule_format, of r 3] assms(2,3)
  by (cases X) (auto simp: add_key_def words_map_def inv_mix_word_xor)

lemma decrypt_rounds:
  assumes "aes_tables_ok s" "reversed_key n e d" "2 \<le> n"
  shows "r < n \<Longrightarrow> round_seq (AES_RROUND s d) (sub_shift (round_seq (AES_FROUND s e) X (n - 1))) r =
    sub_shift (round_seq (AES_FROUND s e) X (n - 1 - r))"
proof (induction r)
  case (Suc r)
  define q where "q = n - 1 - Suc r"
  have q: "n - 1 - r = Suc q" "n - Suc r = Suc q" "n - Suc (Suc r) = q" using Suc.prems by (auto simp: q_def)
  then show ?case
    using Suc add_key_inner [OF assms(2), of "Suc r"]
    by (simp add: RROUND_eq [OF assms(1)] FROUND_eq [OF assms(1)] inv_mix_words q)
qed simp

lemma decrypt_block:
  assumes "aes_tables_ok s" "key_set key keybits n cty" "aes_rounds keybits = Some n"
    "aes_nr ctx = n" "aes_rk ctx = Some 0" "reversed_key n (aes_buf cty) (aes_buf ctx)"
    "8 * length key = keybits" "length input = 16"
  shows "utils_internal_aes_decrypt s ctx (aes_cipher key input) = Some input"
proof -
  let ?e = "aes_buf cty" and ?d = "aes_buf ctx"
  let ?X = "round_seq (AES_FROUND s ?e) (aes_load ?e 0 input)"
  have n: "2 \<le> n" "even n" using assms(3) by (auto simp: aes_rounds_def split: if_splits)
  have "utils_internal_aes_encrypt s cty input = Some (aes_cipher key input)"
    using encrypt_block [OF assms(1,2,3,7,8)] .
  then have out: "aes_cipher key input = aes_store (add_key ?e (4 * n) (sub_shift (?X (n - 1))))"
    using assms(2) n
    by (simp add: utils_internal_aes_encrypt_def key_set_def aes_block_seq last_forward_eq [OF assms(1)] Let_def)
  have "aes_load ?d 0 (aes_cipher key input) = sub_shift (?X (n - 1))"
    using add_key_reversed [OF assms(6), of 0] by (simp add: out aes_load_eq load_words_store)
  then have "round_seq (AES_RROUND s ?d) (aes_load ?d 0 (aes_cipher key input)) (n - 1) = sub_shift (?X 0)"
    using decrypt_rounds [OF assms(1,6) n(1), of "n - 1"] n(1) by simp
  moreover have "add_key ?d (4 * n) (?X 0) = load_words input"
    using add_key_reversed [OF assms(6), of n] by (simp add: aes_load_eq)
  ultimately show ?thesis
    using n assms(4,5,8)
    by (simp add: utils_internal_aes_decrypt_def aes_block_seq last_reverse_eq [OF assms(1)] Let_def store_load_words)
qed

lemma length_aes_store [simp]: "length (aes_store X) = 16"
  by (cases X) (simp add: aes_store_def AES_PUT_bytes)

lemma length_aes_block [simp]: "length (aes_block f g n b RK input) = 16"
  by (simp add: aes_block_def Let_def split: prod.split)

lemma length_aes_encrypt: "utils_internal_aes_encrypt s ctx input = Some c \<Longrightarrow> length c = 16"
  by (auto simp: utils_internal_aes_encrypt_def bind_eq_Some_conv Let_def)

lemma aes_decrypt_total:
  "aes_rk ctx = Some RK \<Longrightarrow> \<exists>D. \<forall>x. utils_internal_aes_decrypt s ctx x = Some (D x) \<and> length (D x) = 16"
  by (auto simp: utils_internal_aes_decrypt_def Let_def)

end
