(* ===== verification/Aes_Cbc.thy ===== *)
theory Aes_Cbc
  imports Aes_Cipher
begin

text \<open>
  The CBC mode on a memory that holds input and output, and what a caller of \<^verbatim>\<open>utils_aes_cbc\<close> gets: in place, the
  mode over FIPS 197 of the input padded with zeros, and back; between two buffers, the bytes behind the input in
  place of the padding.
\<close>

section \<open>Memory\<close>

lemma length_mem_read [simp]: "length (mem_read m a n) = n"
  by (simp add: mem_read_def)

lemma mem_read_nth [simp]: "i < n \<Longrightarrow> mem_read m a n ! i = m (a + i)"
  by (simp add: mem_read_def)

lemma mem_read_same: "mem_read m a n = mem_read m' b n \<Longrightarrow> i < n \<Longrightarrow> m (a + i) = m' (b + i)"
  by (metis mem_read_nth)

lemma fold_update_mem:
  "fold (\<lambda>i m. m(a + i := f i)) [0 ..< n] m = (\<lambda>x. if a \<le> x \<and> x < a + n then f (x - a) else m x)"
  by (induction n) (auto simp: fun_eq_iff)

lemma mem_write_eq: "mem_write m a bs = (\<lambda>x. if a \<le> x \<and> x < a + length bs then bs ! (x - a) else m x)"
  by (simp add: mem_write_def fold_update_mem)

lemma mem_write_append: "mem_write (mem_write m a bs) (a + length bs) cs = mem_write m a (bs @ cs)"
  by (auto simp: mem_write_eq fun_eq_iff nth_append)

lemma mem_write_Nil [simp]: "mem_write m a [] = m"
  by (simp add: mem_write_def)

lemma mem_read_write_same: "length bs = n \<Longrightarrow> mem_read (mem_write m a bs) a n = bs"
  by (intro nth_equalityI) (auto simp: mem_write_eq)

lemma mem_read_write_other: "b + n \<le> a \<or> a + length bs \<le> b \<Longrightarrow> mem_read (mem_write m a bs) b n = mem_read m b n"
  by (intro nth_equalityI) (auto simp: mem_write_eq)

lemma mem_write_over: "length bs = length cs \<Longrightarrow> mem_write (mem_write m a bs) a cs = mem_write m a cs"
  by (auto simp: mem_write_eq fun_eq_iff)

lemma mem_write_read: "mem_write m a (mem_read m a n) = m"
  by (auto simp: mem_write_eq fun_eq_iff)

lemma mem_read_append: "mem_read m a (k + n) = mem_read m a k @ mem_read m (a + k) n"
  by (intro nth_equalityI) (auto simp: nth_append)

text \<open>The exclusive or of a block never reads a byte that it has written before.\<close>

lemma mem_xor_eq:
  assumes "length iv = 16" "output \<le> input \<or> input + 16 \<le> output"
  shows "mem_xor m output input iv = mem_write m output (xor_bytes (mem_read m input 16) iv)"
proof -
  have "k \<le> 16 \<Longrightarrow> fold (\<lambda>i m. m(output + i := m (input + i) XOR iv ! i)) [0 ..< k] m =
      (\<lambda>x. if output \<le> x \<and> x < output + k then m (input + (x - output)) XOR iv ! (x - output) else m x)" for k
  proof (induction k)
    case (Suc k)
    have "\<not> (output \<le> input + k \<and> input + k < output + k)" using Suc.prems assms(2) by auto
    then show ?case using Suc by (auto simp: fun_eq_iff)
  qed (auto simp: fun_eq_iff)
  then show ?thesis
    using assms(1) by (auto simp: mem_xor_def mem_write_eq xor_bytes_def fun_eq_iff)
qed

section \<open>The CBC mode on lists of blocks\<close>

fun cbc_cipher :: "(u8 list \<Rightarrow> u8 list) \<Rightarrow> u8 list \<Rightarrow> u8 list list \<Rightarrow> u8 list list" where
  "cbc_cipher E iv [] = []"
| "cbc_cipher E iv (p # ps) = (let c = E (xor_bytes p iv) in c # cbc_cipher E c ps)"

fun cbc_plain :: "(u8 list \<Rightarrow> u8 list) \<Rightarrow> u8 list \<Rightarrow> u8 list list \<Rightarrow> u8 list list" where
  "cbc_plain D iv [] = []"
| "cbc_plain D iv (c # cs) = xor_bytes (D c) iv # cbc_plain D c cs"

lemma length_xor_bytes [simp]: "length (xor_bytes a b) = min (length a) (length b)"
  by (simp add: xor_bytes_def)

lemma xor_bytes_twice: "length a = length b \<Longrightarrow> xor_bytes (xor_bytes a b) b = a"
  by (intro nth_equalityI) (auto simp: xor_bytes_def xor.assoc)

lemma cbc_plain_cipher:
  assumes "\<And>x. length x = 16 \<Longrightarrow> D (E x) = x" "\<And>x. length x = 16 \<Longrightarrow> length (E x) = 16"
  shows "length iv = 16 \<Longrightarrow> \<forall>p \<in> set ps. length p = 16 \<Longrightarrow> cbc_plain D iv (cbc_cipher E iv ps) = ps"
  using assms by (induction ps arbitrary: iv) (auto simp: Let_def xor_bytes_twice)

lemma cbc_cipher_blocks:
  assumes "\<And>x. length x = 16 \<Longrightarrow> length (E x) = 16" "length iv = 16" "\<forall>p \<in> set ps. length p = 16"
  shows "\<forall>c \<in> set (cbc_cipher E iv ps). length c = 16" "length (cbc_cipher E iv ps) = length ps"
  using assms(2,3)
proof (induction ps arbitrary: iv)
  case (Cons p ps)
  {
    case 1
    then have "length (E (xor_bytes p iv)) = 16" by (simp add: assms(1))
    then show ?case using Cons.IH(1) [of "E (xor_bytes p iv)"] 1 by (simp add: Let_def)
  next
    case 2
    then have "length (E (xor_bytes p iv)) = 16" by (simp add: assms(1))
    then show ?case using Cons.IH(2) [of "E (xor_bytes p iv)"] 2 by (simp add: Let_def)
  }
qed simp_all

definition mem_blocks :: "aes_memory \<Rightarrow> nat \<Rightarrow> nat \<Rightarrow> u8 list list" where
  "mem_blocks m a n = map (\<lambda>k. mem_read m (a + 16 * k) 16) [0 ..< n]"

lemma mem_blocks_Suc: "mem_blocks m a (Suc n) = mem_read m a 16 # mem_blocks m (a + 16) n"
  by (simp add: mem_blocks_def map_upt_Suc algebra_simps del: upt_Suc)

lemma mem_blocks_other:
  assumes "a + length bs \<le> b \<or> b + 16 * n \<le> a"
  shows "mem_blocks (mem_write m a bs) b n = mem_blocks m b n"
  using assms by (auto simp: mem_blocks_def intro!: mem_read_write_other)

lemma mem_blocks_length: "\<forall>p \<in> set (mem_blocks m a n). length p = 16" "length (mem_blocks m a n) = n"
  by (auto simp: mem_blocks_def)

lemma concat_mem_blocks: "concat (mem_blocks m a n) = mem_read m a (16 * n)"
proof (induction n arbitrary: a)
  case (Suc n)
  then show ?case using mem_read_append [of m a 16 "16 * n"] by (simp add: mem_blocks_Suc)
qed (simp add: mem_blocks_def mem_read_def)

lemma length_concat_blocks: "\<forall>c \<in> set cs. length c = 16 \<Longrightarrow> length (concat cs) = 16 * length cs"
  by (induction cs) auto

lemma mem_blocks_written:
  assumes "\<forall>c \<in> set cs. length c = 16" "n = length cs"
  shows "mem_blocks (mem_write m a (concat cs)) a n = cs"
  using assms
proof (induction cs arbitrary: m a n)
  case (Cons c cs)
  have "mem_write m a (concat (c # cs)) = mem_write (mem_write m a c) (a + 16) (concat cs)"
    using mem_write_append [of m a c "concat cs"] Cons.prems by simp
  moreover have "mem_read (mem_write (mem_write m a c) (a + 16) (concat cs)) a 16 = c"
    using Cons.prems by (simp add: mem_read_write_other mem_read_write_same)
  ultimately show ?case using Cons by (simp add: mem_blocks_Suc)
qed (simp add: mem_blocks_def)

text \<open>The loops write the blocks of the mode, provided the output does not overtake the input.\<close>

lemma cbc_encrypt_blocks_ok:
  assumes "\<And>x. length x = 16 \<Longrightarrow> utils_aes_crypt_ecb s ctx mode x = Some (E x) \<and> length (E x) = 16"
  shows "length iv = 16 \<Longrightarrow> output \<le> input \<or> input + 16 * n \<le> output \<Longrightarrow>
    \<exists>iv'. cbc_encrypt_blocks s ctx mode n iv input output m =
      Some (iv', mem_write m output (concat (cbc_cipher E iv (mem_blocks m input n))))"
proof (induction n arbitrary: iv input "output" m)
  case 0
  then show ?case by (simp add: mem_blocks_def)
next
  case (Suc n)
  let ?x = "xor_bytes (mem_read m input 16) iv"
  let ?c = "E ?x"
  have len: "length ?x = 16" "length ?c = 16" using Suc.prems(1) assms by auto
  have "mem_xor m output input iv = mem_write m output ?x"
    using Suc.prems by (intro mem_xor_eq) auto
  then have step: "cbc_encrypt_blocks s ctx mode (Suc n) iv input output m =
      cbc_encrypt_blocks s ctx mode n ?c (input + 16) (output + 16) (mem_write m output ?c)"
    using len assms [OF len(1)] by (simp add: mem_read_write_same mem_write_over)
  obtain iv' where "cbc_encrypt_blocks s ctx mode n ?c (input + 16) (output + 16) (mem_write m output ?c) =
      Some (iv', mem_write (mem_write m output ?c) (output + 16)
        (concat (cbc_cipher E ?c (mem_blocks (mem_write m output ?c) (input + 16) n))))"
    using Suc.IH [OF len(2), of "output + 16" "input + 16" "mem_write m output ?c"] Suc.prems(2) by auto
  moreover have "mem_blocks (mem_write m output ?c) (input + 16) n = mem_blocks m (input + 16) n"
    using Suc.prems(2) len by (intro mem_blocks_other) auto
  ultimately show ?case
    using mem_write_append [of m "output" ?c] len by (auto simp: step mem_blocks_Suc Let_def simp del: cbc_encrypt_blocks.simps)
qed

lemma cbc_decrypt_blocks_ok:
  assumes "\<And>x. length x = 16 \<Longrightarrow> utils_aes_crypt_ecb s ctx mode x = Some (D x) \<and> length (D x) = 16"
  shows "length iv = 16 \<Longrightarrow> output \<le> input \<or> input + 16 * n \<le> output \<Longrightarrow>
    \<exists>iv'. cbc_decrypt_blocks s ctx mode n iv input output m =
      Some (iv', mem_write m output (concat (cbc_plain D iv (mem_blocks m input n))))"
proof (induction n arbitrary: iv input "output" m)
  case 0
  then show ?case by (simp add: mem_blocks_def)
next
  case (Suc n)
  let ?c = "mem_read m input 16"
  let ?p = "xor_bytes (D ?c) iv"
  have len: "length (D ?c) = 16" "length ?p = 16" using Suc.prems(1) assms [of ?c] by auto
  have "mem_xor (mem_write m output (D ?c)) output output iv = mem_write m output ?p"
    using Suc.prems len by (simp add: mem_xor_eq mem_read_write_same mem_write_over)
  then have step: "cbc_decrypt_blocks s ctx mode (Suc n) iv input output m =
      cbc_decrypt_blocks s ctx mode n ?c (input + 16) (output + 16) (mem_write m output ?p)"
    using assms [of ?c] by simp
  obtain iv' where "cbc_decrypt_blocks s ctx mode n ?c (input + 16) (output + 16) (mem_write m output ?p) =
      Some (iv', mem_write (mem_write m output ?p) (output + 16)
        (concat (cbc_plain D ?c (mem_blocks (mem_write m output ?p) (input + 16) n))))"
    using Suc.IH [of ?c "output + 16" "input + 16" "mem_write m output ?p"] Suc.prems(2) by auto
  moreover have "mem_blocks (mem_write m output ?p) (input + 16) n = mem_blocks m (input + 16) n"
    using Suc.prems(2) len by (intro mem_blocks_other) auto
  ultimately show ?case
    using mem_write_append [of m "output" ?p] len by (auto simp: step mem_blocks_Suc Let_def simp del: cbc_decrypt_blocks.simps)
qed

section \<open>The padded buffer\<close>

definition aes_keybits :: "u8 list \<Rightarrow> nat \<Rightarrow> bool" where
  "aes_keybits key keybits \<longleftrightarrow> keybits \<in> {128, 192, 256} \<and> 8 * length key = keybits"

lemma aes_keybits_rounds: "aes_keybits key keybits \<Longrightarrow> \<exists>n. aes_rounds keybits = Some n \<and> 8 * length key = keybits"
  by (auto simp: aes_keybits_def aes_rounds_def)

lemma length_aes_init: "length (aes_buf utils_aes_init) = 68"
  by (simp add: utils_aes_init_def)

lemma aes_cipher_length:
  assumes "aes_keybits key keybits" "length x = 16"
  shows "length (aes_cipher key x) = 16"
proof -
  obtain n where n: "aes_rounds keybits = Some n" "8 * length key = keybits" using aes_keybits_rounds [OF assms(1)] by auto
  obtain ctx s' where "key_set key keybits n ctx" "aes_tables_ok s'"
    using setkey_enc_ok [OF aes_start_ok length_aes_init n] by blast
  then show ?thesis using encrypt_block [OF _ _ n assms(2)] length_aes_encrypt by blast
qed

text \<open>The length after padding: always a block more than the full blocks.\<close>

definition padded_len :: "u32 \<Rightarrow> u32" where
  "padded_len datalen = datalen + (16 - datalen mod 16)"

lemma pad_to_block: "n + (16 - n mod 16) = 16 * (n div 16 + 1)" for n :: nat
proof -
  obtain q r where "n = 16 * q + r" "r < 16" using mult_div_mod_eq [of 16 n] mod_less_divisor [of 16 n] by (metis zero_less_numeral)
  then show ?thesis by simp
qed

lemma padded_len_unat:
  assumes "unat datalen + 16 < 2 ^ 32"
  shows "unat (16 - datalen mod 16) = 16 - unat datalen mod 16"
    "unat (padded_len datalen) = 16 * (unat datalen div 16 + 1)"
    "unat (datalen + 16) = unat datalen + 16"
proof -
  have mod: "unat (datalen mod 16) = unat datalen mod 16" by (simp add: unat_mod_distrib)
  have "datalen mod 16 \<le> 16" using mod by (simp add: word_le_nat_alt)
  then show 1: "unat (16 - datalen mod 16) = 16 - unat datalen mod 16" by (simp add: unat_sub mod)
  have "unat (padded_len datalen) = unat datalen + (16 - unat datalen mod 16)"
    unfolding padded_len_def using assms by (subst unat_add_lem [THEN iffD1]) (simp_all add: 1)
  also have "\<dots> = 16 * (unat datalen div 16 + 1)"
    by (rule pad_to_block)
  finally show "unat (padded_len datalen) = 16 * (unat datalen div 16 + 1)" .
  show "unat (datalen + 16) = unat datalen + 16" using assms by (subst unat_add_lem [THEN iffD1]) simp_all
qed

definition padded_copy :: "aes_memory \<Rightarrow> nat \<Rightarrow> nat \<Rightarrow> u32 \<Rightarrow> aes_memory" where
  "padded_copy m pIn pOut datalen = mem_write (mem_write m pOut (mem_read m pIn (unat datalen)))
     (pOut + unat datalen) (replicate (unat (16 - datalen mod 16)) 0)"

text \<open>
  The encryption: what it reads are the blocks of the input buffer as it is after the copy and the
  padding of the output buffer.
\<close>

lemma aes_cbc_encrypt:
  assumes "aes_statics_ok s" "aes_keybits key keybits" "length iv = 16" "unat datalen + 16 < 2 ^ 32"
    "datalen + 16 \<le> outBuffLen" "pOut \<le> pIn \<or> pIn + unat (padded_len datalen) \<le> pOut"
    "m' = padded_copy m pIn pOut datalen"
  shows "\<exists>r. utils_aes_cbc s m pIn datalen pOut outBuffLen UTILS_AES_ENCRYPT key keybits iv = Some r \<and> aes_ret r = 0 \<and>
    aes_statics_ok (aes_stat r) \<and>
    aes_mem r = mem_write m' pOut (concat (cbc_cipher (aes_cipher key) iv (mem_blocks m' pIn (unat datalen div 16 + 1))))"
proof -
  define N where "N = unat datalen div 16 + 1"
  have len: "unat (padded_len datalen) = 16 * N" using padded_len_unat(2) [OF assms(4)] by (simp add: N_def)
  obtain n where n: "aes_rounds keybits = Some n" "8 * length key = keybits" using aes_keybits_rounds [OF assms(2)] by auto
  obtain ctx s' where k: "utils_aes_setkey_enc s utils_aes_init key keybits = (0, ctx, s')" "key_set key keybits n ctx"
    "aes_tables_ok s'" "aes_statics_ok s'"
    using setkey_enc_ok [OF assms(1) length_aes_init n] by blast
  have "utils_aes_crypt_ecb s' ctx 1 x = Some (aes_cipher key x) \<and> length (aes_cipher key x) = 16" if "length x = 16" for x
    using encrypt_block [OF k(3,2) n that] length_aes_encrypt by (auto simp: utils_aes_crypt_ecb_def)
  from cbc_encrypt_blocks_ok [where E = "aes_cipher key" and n = N, OF this assms(3), of pOut pIn m']
  obtain iv' where e: "cbc_encrypt_blocks s' ctx 1 N iv pIn pOut m' =
      Some (iv', mem_write m' pOut (concat (cbc_cipher (aes_cipher key) iv (mem_blocks m' pIn N))))"
    using assms(6) len by auto
  have "\<not> outBuffLen < datalen + 16" using assms(5) by simp
  then have "utils_aes_cbc s m pIn datalen pOut outBuffLen UTILS_AES_ENCRYPT key keybits iv =
      aes_run s' ctx 1 (padded_len datalen) iv pIn pOut m'"
    by (simp add: utils_aes_cbc_def k(1) assms(7) padded_copy_def padded_len_def Let_def)
  then show ?thesis
    unfolding N_def [symmetric] using e k(4) len by (simp add: aes_run_def utils_aes_crypt_cbc_def)
qed

text \<open>The decryption undoes the mode, whatever the blocks were.\<close>

lemma aes_cbc_decrypt:
  assumes "aes_statics_ok s" "aes_keybits key keybits" "length iv = 16" "unat datalen = 16 * N"
    "pOut \<le> pIn \<or> pIn + 16 * N \<le> pOut"
    "mem_blocks m pIn N = cbc_cipher (aes_cipher key) iv ps" "\<forall>p \<in> set ps. length p = 16"
  shows "\<exists>r. utils_aes_cbc s m pIn datalen pOut outBuffLen UTILS_AES_DECRYPT key keybits iv = Some r \<and> aes_ret r = 0 \<and>
    aes_statics_ok (aes_stat r) \<and> aes_mem r = mem_write m pOut (concat ps)"
proof -
  obtain n where n: "aes_rounds keybits = Some n" "8 * length key = keybits" using aes_keybits_rounds [OF assms(2)] by auto
  obtain ctx cty s' where k: "utils_aes_setkey_dec s utils_aes_init key keybits = (0, ctx, s')" "key_set key keybits n cty"
    "aes_nr ctx = n" "aes_rk ctx = Some 0" "reversed_key n (aes_buf cty) (aes_buf ctx)" "aes_tables_ok s'" "aes_statics_ok s'"
    using setkey_dec_ok [OF assms(1) length_aes_init n] by blast
  obtain D where D: "utils_internal_aes_decrypt s' ctx x = Some (D x)" "length (D x) = 16" for x
    using aes_decrypt_total [OF k(4)] by metis
  have DE: "D (aes_cipher key x) = x" if "length x = 16" for x
    using decrypt_block [OF k(6,2) n(1) k(3-5) n(2) that] D(1) by simp
  have E: "length (aes_cipher key x) = 16" if "length x = 16" for x
    using encrypt_block [OF k(6,2) n that] length_aes_encrypt by blast
  have "utils_aes_crypt_ecb s' ctx 0 x = Some (D x) \<and> length (D x) = 16" if "length x = 16" for x
    using D by (simp add: utils_aes_crypt_ecb_def)
  from cbc_decrypt_blocks_ok [where D = D and n = N, OF this assms(3,5)]
  obtain iv' where "cbc_decrypt_blocks s' ctx 0 N iv pIn pOut m =
      Some (iv', mem_write m pOut (concat (cbc_plain D iv (mem_blocks m pIn N))))" by blast
  moreover have "cbc_plain D iv (mem_blocks m pIn N) = ps"
    using cbc_plain_cipher [where D = D and E = "aes_cipher key", OF DE E assms(3,7)] by (simp add: assms(6))
  ultimately show ?thesis
    using k(1,7) assms(4) by (simp add: utils_aes_cbc_def aes_run_def utils_aes_crypt_cbc_def)
qed

text \<open>A decryption after an encryption yields the blocks that the encryption read.\<close>

lemma aes_cbc_there_and_back:
  assumes "aes_statics_ok s" "aes_keybits key keybits" "length iv = 16" "unat datalen + 16 < 2 ^ 32"
    "datalen + 16 \<le> outBuffLen" "pOut \<le> pIn \<or> pIn + unat (padded_len datalen) \<le> pOut"
    "m' = padded_copy m pIn pOut datalen"
  shows "\<exists>r r'. utils_aes_cbc s m pIn datalen pOut outBuffLen UTILS_AES_ENCRYPT key keybits iv = Some r \<and> aes_ret r = 0 \<and>
    utils_aes_cbc (aes_stat r) (aes_mem r) pOut (padded_len datalen) pOut outBuffLen' UTILS_AES_DECRYPT key keybits iv = Some r' \<and>
    aes_ret r' = 0 \<and> aes_mem r' = mem_write m' pOut (mem_read m' pIn (unat (padded_len datalen)))"
proof -
  define N where "N = unat datalen div 16 + 1"
  have len: "unat (padded_len datalen) = 16 * N" using padded_len_unat(2) [OF assms(4)] by (simp add: N_def)
  let ?ps = "mem_blocks m' pIn N"
  let ?cs = "cbc_cipher (aes_cipher key) iv ?ps"
  obtain r where r: "utils_aes_cbc s m pIn datalen pOut outBuffLen UTILS_AES_ENCRYPT key keybits iv = Some r" "aes_ret r = 0"
    "aes_statics_ok (aes_stat r)" "aes_mem r = mem_write m' pOut (concat ?cs)"
    using aes_cbc_encrypt [OF assms(1-7)] by (auto simp: N_def)
  have E: "length (aes_cipher key x) = 16" if "length x = 16" for x
    using aes_cipher_length [OF assms(2) that] .
  have cs: "\<forall>c \<in> set ?cs. length c = 16" "length ?cs = N"
    using cbc_cipher_blocks [OF E assms(3) mem_blocks_length(1)] by (simp_all add: mem_blocks_length)
  have "mem_blocks (aes_mem r) pOut N = ?cs"
    unfolding r(4) using cs by (intro mem_blocks_written) simp_all
  then obtain r' where "utils_aes_cbc (aes_stat r) (aes_mem r) pOut (padded_len datalen) pOut outBuffLen'
      UTILS_AES_DECRYPT key keybits iv = Some r'" "aes_ret r' = 0" "aes_mem r' = mem_write (aes_mem r) pOut (concat ?ps)"
    using aes_cbc_decrypt [OF r(3) assms(2,3) len, of pOut pOut "aes_mem r" ?ps outBuffLen'] mem_blocks_length(1)
    by auto
  moreover have "length (concat ?cs) = length (concat ?ps)"
    using cs mem_blocks_length [of m' pIn N] by (simp add: length_concat_blocks)
  ultimately show ?thesis
    using r by (auto simp: mem_write_over concat_mem_blocks len)
qed

section \<open>What a caller gets\<close>

text \<open>The memory of a caller that encrypts in place, after the padding with zeros.\<close>

definition zero_padded :: "aes_memory \<Rightarrow> nat \<Rightarrow> u32 \<Rightarrow> aes_memory" where
  "zero_padded m a datalen = (\<lambda>x. if a + unat datalen \<le> x \<and> x < a + unat (padded_len datalen) then 0 else m x)"

lemma padded_copy_in_place:
  assumes "unat datalen + 16 < 2 ^ 32"
  shows "padded_copy m a a datalen = zero_padded m a datalen"
proof -
  have "unat (padded_len datalen) = unat datalen + unat (16 - datalen mod 16)"
    unfolding padded_len_unat(1,2) [OF assms] by (rule pad_to_block [symmetric])
  then show ?thesis by (auto simp: padded_copy_def mem_write_read mem_write_eq zero_padded_def fun_eq_iff)
qed

text \<open>
  C34: The optimised cipher is AES. Whatever was called before (the tables of the first call are generated on
  the way), for every key of 128, 192 or 256 bits, every initial vector and every length whose padding fits: a call of
  \<^verbatim>\<open>utils_aes_cbc\<close> that encrypts a buffer in place succeeds, and leaves in it, block after block, the
  CBC mode of the cipher of FIPS 197 on the input padded with zeros to one block more than its full blocks. No other byte
  of the memory changes, and the static tables stay right for the next call.
\<close>

theorem aes_cbc_is_fips197:
  assumes "aes_statics_ok s" "keybits \<in> {128, 192, 256}" "8 * length key = keybits" "length iv = 16"
    "unat datalen + 16 < 2 ^ 32" "datalen + 16 \<le> outBuffLen"
  shows "\<exists>r. utils_aes_cbc s m p datalen p outBuffLen UTILS_AES_ENCRYPT key keybits iv = Some r \<and>
    aes_ret r = QCLOUD_RET_SUCCESS \<and> aes_statics_ok (aes_stat r) \<and>
    mem_blocks (aes_mem r) p (unat datalen div 16 + 1) =
      cbc_cipher (aes_cipher key) iv (mem_blocks (zero_padded m p datalen) p (unat datalen div 16 + 1)) \<and>
    (\<forall>x. x < p \<or> p + unat (padded_len datalen) \<le> x \<longrightarrow> aes_mem r x = m x)"
proof -
  have k: "aes_keybits key keybits" using assms(2,3) by (simp add: aes_keybits_def)
  define N where "N = unat datalen div 16 + 1"
  let ?ps = "mem_blocks (zero_padded m p datalen) p N"
  let ?cs = "cbc_cipher (aes_cipher key) iv ?ps"
  obtain r where r: "utils_aes_cbc s m p datalen p outBuffLen UTILS_AES_ENCRYPT key keybits iv = Some r" "aes_ret r = 0"
    "aes_statics_ok (aes_stat r)" "aes_mem r = mem_write (zero_padded m p datalen) p (concat ?cs)"
    using aes_cbc_encrypt [where m = m and m' = "zero_padded m p datalen" and pIn = p and pOut = p,
      OF assms(1) k assms(4-6)] padded_copy_in_place [OF assms(5)] by (auto simp: N_def)
  have cs: "\<forall>c \<in> set ?cs. length c = 16" "length ?cs = N"
    using cbc_cipher_blocks [OF aes_cipher_length [OF k] assms(4) mem_blocks_length(1)] by (simp_all add: mem_blocks_length)
  then have "mem_blocks (aes_mem r) p N = ?cs" unfolding r(4) by (intro mem_blocks_written) simp_all
  moreover have "length (concat ?cs) = unat (padded_len datalen)"
    using cs padded_len_unat(2) [OF assms(5)] by (simp add: length_concat_blocks N_def)
  ultimately show ?thesis
    unfolding N_def [symmetric] using r by (auto simp: mem_write_eq zero_padded_def)
qed

theorem aes_cbc_is_fips197_witness:
  "\<exists>r. utils_aes_cbc aes_start (\<lambda>x. of_nat x) 100 20 100 64 UTILS_AES_ENCRYPT (replicate 16 0x41) 128 (replicate 16 0x30) = Some r \<and>
     mem_blocks (aes_mem r) 100 2 = cbc_cipher (aes_cipher (replicate 16 0x41)) (replicate 16 0x30)
       (mem_blocks (zero_padded (\<lambda>x. of_nat x) 100 20) 100 2) \<and> aes_mem r 99 = 99 \<and> aes_mem r 132 = 132"
  using aes_cbc_is_fips197 [of aes_start 128 "replicate 16 0x41" "replicate 16 0x30" 20 64 "\<lambda>x. of_nat x" 100] aes_start_ok
  by (auto simp: padded_len_def simp flip: numeral_2_eq_2)

text \<open>
  C35: Decryption undoes encryption. A buffer encrypted in place by \<^verbatim>\<open>utils_aes_cbc\<close> and decrypted by it with the same key and
  the same initial vector is the buffer padded with zeros; both calls succeed. The key schedule of the decryption,
  which sends the round keys through the reverse tables, and the reverse rounds are part of this.
\<close>

theorem aes_cbc_round_trip:
  assumes "aes_statics_ok s" "keybits \<in> {128, 192, 256}" "8 * length key = keybits" "length iv = 16"
    "unat datalen + 16 < 2 ^ 32" "datalen + 16 \<le> outBuffLen"
  shows "\<exists>r r'. utils_aes_cbc s m p datalen p outBuffLen UTILS_AES_ENCRYPT key keybits iv = Some r \<and>
    aes_ret r = QCLOUD_RET_SUCCESS \<and>
    utils_aes_cbc (aes_stat r) (aes_mem r) p (padded_len datalen) p outBuffLen' UTILS_AES_DECRYPT key keybits iv = Some r' \<and>
    aes_ret r' = QCLOUD_RET_SUCCESS \<and> aes_mem r' = zero_padded m p datalen"
  using aes_cbc_there_and_back [OF assms(1) _ assms(4-6), of key keybits p p _ m outBuffLen'] assms(2,3)
  by (auto simp: aes_keybits_def padded_copy_in_place [OF assms(5)] mem_write_read)

theorem aes_cbc_round_trip_witness:
  "\<exists>r r'. utils_aes_cbc aes_start (\<lambda>x. of_nat x) 100 20 100 64 UTILS_AES_ENCRYPT (replicate 24 0x41) 192 (replicate 16 0x30) = Some r \<and>
     utils_aes_cbc (aes_stat r) (aes_mem r) 100 32 100 64 UTILS_AES_DECRYPT (replicate 24 0x41) 192 (replicate 16 0x30) = Some r' \<and>
     aes_mem r' 105 = 105 \<and> aes_mem r' 119 = 119 \<and> aes_mem r' 120 = 0 \<and> aes_mem r' 131 = 0 \<and> aes_mem r' 132 = 132"
  using aes_cbc_round_trip [of aes_start 192 "replicate 24 0x41" "replicate 16 0x30" 20 64 "\<lambda>x. of_nat x" 100 64] aes_start_ok
  by (auto simp: padded_len_def zero_padded_def)

text \<open>
  C39: An encryption from one buffer to another does not encrypt the padding. \<^verbatim>\<open>utils_aes_cbc\<close> copies the input to the
  output buffer and pads it there, but hands the input buffer with the padded length to the mode: what it encrypts,
  and what a decryption of the result yields, are the bytes of the input buffer up to the padded length, among them those
  behind its end. The call succeeds.
\<close>

theorem aes_cbc_reads_past_input:
  assumes "aes_statics_ok s" "keybits \<in> {128, 192, 256}" "8 * length key = keybits" "length iv = 16"
    "unat datalen + 16 < 2 ^ 32" "datalen + 16 \<le> outBuffLen" "pIn + unat (padded_len datalen) \<le> pOut"
  shows "\<exists>r r'. utils_aes_cbc s m pIn datalen pOut outBuffLen UTILS_AES_ENCRYPT key keybits iv = Some r \<and>
    aes_ret r = QCLOUD_RET_SUCCESS \<and>
    utils_aes_cbc (aes_stat r) (aes_mem r) pOut (padded_len datalen) pOut outBuffLen' UTILS_AES_DECRYPT key keybits iv = Some r' \<and>
    mem_read (aes_mem r') pOut (unat (padded_len datalen)) = mem_read m pIn (unat (padded_len datalen))"
proof -
  have "mem_read (padded_copy m pIn pOut datalen) pIn (unat (padded_len datalen)) = mem_read m pIn (unat (padded_len datalen))"
    using assms(7) by (simp add: padded_copy_def mem_read_write_other)
  then show ?thesis
    using aes_cbc_there_and_back [OF assms(1) _ assms(4-6), of key keybits pOut pIn _ m outBuffLen'] assms(2,3,7)
    by (auto simp: aes_keybits_def mem_read_write_same)
qed

theorem aes_cbc_reads_past_input_witness:
  "\<exists>r r'. utils_aes_cbc aes_start (\<lambda>x. of_nat x) 100 20 200 64 UTILS_AES_ENCRYPT (replicate 32 0x41) 256 (replicate 16 0x30) = Some r \<and>
     utils_aes_cbc (aes_stat r) (aes_mem r) 200 32 200 64 UTILS_AES_DECRYPT (replicate 32 0x41) 256 (replicate 16 0x30) = Some r' \<and>
     aes_mem r' 219 = 119 \<and> aes_mem r' 220 = 120 \<and> aes_mem r' 231 = 131"
proof -
  obtain r r' where r: "utils_aes_cbc aes_start (\<lambda>x. of_nat x) 100 20 200 64 UTILS_AES_ENCRYPT (replicate 32 0x41) 256 (replicate 16 0x30) = Some r"
    "utils_aes_cbc (aes_stat r) (aes_mem r) 200 32 200 64 UTILS_AES_DECRYPT (replicate 32 0x41) 256 (replicate 16 0x30) = Some r'"
    and m: "mem_read (aes_mem r') 200 32 = mem_read (\<lambda>x. of_nat x) 100 32"
    using aes_cbc_reads_past_input [of aes_start 256 "replicate 32 0x41" "replicate 16 0x30" 20 64 100 200 "\<lambda>x. of_nat x" 64]
      aes_start_ok
    by (auto simp: padded_len_def)
  show ?thesis using r mem_read_same [OF m, of 19] mem_read_same [OF m, of 20] mem_read_same [OF m, of 31] by auto
qed

end
