(* ===== verification/Utils_List.thy ===== *)
theory Utils_List
  imports Mqtt_State
begin

text \<open>
  The doubly linked list of \<^verbatim>\<open>sdk_src/utils/utils_list.c\<close> on an explicit heap, and that it implements
  the sequences by which the client model describes its waiting lists.
\<close>

section \<open>The structures\<close>

text \<open>
  Nodes live in a heap, a map from addresses to nodes; \<open>0\<close> is the null pointer, which is never an
  address. A release or match function is a function pointer: of the former the model records the calls.
\<close>

datatype ListDirection = LIST_HEAD | LIST_TAIL

record ListNode =
  ln_prev :: nat
  ln_next :: nat
  ln_val :: nat

record List =
  l_head :: nat
  l_tail :: nat
  l_len :: u32
  l_free :: "nat option"
  l_match :: "(nat \<Rightarrow> nat \<Rightarrow> bool) option"

record ListIterator =
  it_next :: nat
  it_direction :: ListDirection

type_synonym node_heap = "nat \<Rightarrow> ListNode option"

definition get_node :: "node_heap \<Rightarrow> nat \<Rightarrow> ListNode option" where
  "get_node h a = (if a = 0 then None else h a)"

definition set_prev :: "nat \<Rightarrow> nat \<Rightarrow> node_heap \<Rightarrow> node_heap option" where
  "set_prev a p h = do { n \<leftarrow> get_node h a; Some (h(a \<mapsto> n\<lparr>ln_prev := p\<rparr>)) }"

definition set_next :: "nat \<Rightarrow> nat \<Rightarrow> node_heap \<Rightarrow> node_heap option" where
  "set_next a p h = do { n \<leftarrow> get_node h a; Some (h(a \<mapsto> n\<lparr>ln_next := p\<rparr>)) }"

definition release :: "List \<Rightarrow> nat \<Rightarrow> (nat \<times> nat) list" where
  "release l v = (case l_free l of None \<Rightarrow> [] | Some f \<Rightarrow> [(f, v)])"

section \<open>The operations\<close>

text \<open>The result of \<^verbatim>\<open>HAL_Malloc\<close> is an argument where a function allocates.\<close>

definition qcloud_list_new :: "bool \<Rightarrow> List option" where
  "qcloud_list_new mem =
     (if \<not> mem then None else Some \<lparr>l_head = 0, l_tail = 0, l_len = 0, l_free = None, l_match = None\<rparr>)"

definition list_node_new :: "nat \<Rightarrow> nat \<Rightarrow> node_heap \<Rightarrow> nat \<times> node_heap" where
  "list_node_new mem v h = (if mem = 0 then (0, h) else (mem, h(mem \<mapsto> \<lparr>ln_prev = 0, ln_next = 0, ln_val = v\<rparr>)))"

definition qcloud_list_rpush :: "nat \<Rightarrow> node_heap \<times> List \<Rightarrow> (nat \<times> node_heap \<times> List) option" where
  "qcloud_list_rpush node = (\<lambda>(h, self).
     if node = 0 then Some (0, h, self)
     else do {
       (h, self) \<leftarrow>
         (if l_len self \<noteq> 0 then do {
            h \<leftarrow> set_prev node (l_tail self) h;
            h \<leftarrow> set_next node 0 h;
            h \<leftarrow> set_next (l_tail self) node h;
            Some (h, self\<lparr>l_tail := node\<rparr>)
          } else do {
            let self = self\<lparr>l_head := node, l_tail := node\<rparr>;
            h \<leftarrow> set_next node 0 h;
            h \<leftarrow> set_prev node 0 h;
            Some (h, self)
          });
       Some (node, h, self\<lparr>l_len := l_len self + 1\<rparr>)
     })"

definition qcloud_list_lpush :: "nat \<Rightarrow> node_heap \<times> List \<Rightarrow> (nat \<times> node_heap \<times> List) option" where
  "qcloud_list_lpush node = (\<lambda>(h, self).
     if node = 0 then Some (0, h, self)
     else do {
       (h, self) \<leftarrow>
         (if l_len self \<noteq> 0 then do {
            h \<leftarrow> set_next node (l_head self) h;
            h \<leftarrow> set_prev node 0 h;
            h \<leftarrow> set_prev (l_head self) node h;
            Some (h, self\<lparr>l_head := node\<rparr>)
          } else do {
            let self = self\<lparr>l_head := node, l_tail := node\<rparr>;
            h \<leftarrow> set_next node 0 h;
            h \<leftarrow> set_prev node 0 h;
            Some (h, self)
          });
       Some (node, h, self\<lparr>l_len := l_len self + 1\<rparr>)
     })"

definition qcloud_list_rpop :: "node_heap \<times> List \<Rightarrow> (nat \<times> node_heap \<times> List) option" where
  "qcloud_list_rpop = (\<lambda>(h, self).
     if l_len self = 0 then Some (0, h, self)
     else do {
       let node = l_tail self;
       let self = self\<lparr>l_len := l_len self - 1\<rparr>;
       (h, self) \<leftarrow>
         (if l_len self \<noteq> 0 then do {
            n \<leftarrow> get_node h node;
            h \<leftarrow> set_next (ln_prev n) 0 h;
            Some (h, self\<lparr>l_tail := ln_prev n\<rparr>)
          } else Some (h, self\<lparr>l_head := 0, l_tail := 0\<rparr>));
       h \<leftarrow> set_prev node 0 h;
       h \<leftarrow> set_next node 0 h;
       Some (node, h, self)
     })"

definition qcloud_list_lpop :: "node_heap \<times> List \<Rightarrow> (nat \<times> node_heap \<times> List) option" where
  "qcloud_list_lpop = (\<lambda>(h, self).
     if l_len self = 0 then Some (0, h, self)
     else do {
       let node = l_head self;
       let self = self\<lparr>l_len := l_len self - 1\<rparr>;
       (h, self) \<leftarrow>
         (if l_len self \<noteq> 0 then do {
            n \<leftarrow> get_node h node;
            h \<leftarrow> set_prev (ln_next n) 0 h;
            Some (h, self\<lparr>l_head := ln_next n\<rparr>)
          } else Some (h, self\<lparr>l_head := 0, l_tail := 0\<rparr>));
       h \<leftarrow> set_prev node 0 h;
       h \<leftarrow> set_next node 0 h;
       Some (node, h, self)
     })"

definition qcloud_list_iterator_new_from_node :: "bool \<Rightarrow> nat \<Rightarrow> ListDirection \<Rightarrow> ListIterator option" where
  "qcloud_list_iterator_new_from_node mem node direction =
     (if \<not> mem then None else Some \<lparr>it_next = node, it_direction = direction\<rparr>)"

definition qcloud_list_iterator_new :: "bool \<Rightarrow> List \<Rightarrow> ListDirection \<Rightarrow> ListIterator option" where
  "qcloud_list_iterator_new mem l direction =
     qcloud_list_iterator_new_from_node mem (if direction = LIST_HEAD then l_head l else l_tail l) direction"

definition qcloud_list_iterator_next :: "node_heap \<Rightarrow> ListIterator \<Rightarrow> (nat \<times> ListIterator) option" where
  "qcloud_list_iterator_next h self =
     (let curr_node = it_next self
      in if curr_node = 0 then Some (curr_node, self)
         else do {
           n \<leftarrow> get_node h curr_node;
           Some (curr_node, self\<lparr>it_next := if it_direction self = LIST_HEAD then ln_next n else ln_prev n\<rparr>)
         })"

definition node_matches :: "List \<Rightarrow> nat \<Rightarrow> nat \<Rightarrow> bool" where
  "node_matches self x v = (case l_match self of Some match \<Rightarrow> match x v | None \<Rightarrow> x = v)"

partial_function (option) find_loop :: "node_heap \<Rightarrow> List \<Rightarrow> nat \<Rightarrow> nat \<Rightarrow> ListIterator \<Rightarrow> nat option" where
  "find_loop h self val node it =
     (if node = 0 then Some 0
      else do {
        n \<leftarrow> get_node h node;
        if node_matches self val (ln_val n) then Some node
        else do {
          (node, it) \<leftarrow> qcloud_list_iterator_next h it;
          find_loop h self val node it
        }
      })"

definition qcloud_list_find :: "bool \<Rightarrow> node_heap \<Rightarrow> List \<Rightarrow> nat \<Rightarrow> nat option" where
  "qcloud_list_find mem h self val =
     (case qcloud_list_iterator_new mem self LIST_HEAD of
        None \<Rightarrow> Some 0
      | Some it \<Rightarrow> do {
          (node, it) \<leftarrow> qcloud_list_iterator_next h it;
          find_loop h self val node it
        })"

primrec at_loop :: "nat \<Rightarrow> node_heap \<Rightarrow> nat \<Rightarrow> ListIterator \<Rightarrow> nat option" where
  "at_loop 0 h node it = Some node"
| "at_loop (Suc index) h node it = do {
     (node, it) \<leftarrow> qcloud_list_iterator_next h it;
     at_loop index h node it
   }"

definition qcloud_list_at :: "bool \<Rightarrow> node_heap \<Rightarrow> List \<Rightarrow> 32 word \<Rightarrow> nat option" where
  "qcloud_list_at mem h self index =
     (let (direction, index) = (if sint index < 0 then (LIST_TAIL, NOT index) else (LIST_HEAD, index))
      in if index < l_len self
         then (case qcloud_list_iterator_new mem self direction of
                 None \<Rightarrow> Some 0
               | Some it \<Rightarrow> do {
                   (node, it) \<leftarrow> qcloud_list_iterator_next h it;
                   at_loop (unat index) h node it
                 })
         else Some 0)"

text \<open>Removing and destroying: besides the heap, the calls of the release function.\<close>

definition qcloud_list_remove :: "nat \<Rightarrow> node_heap \<times> List \<Rightarrow> ((nat \<times> nat) list \<times> node_heap \<times> List) option" where
  "qcloud_list_remove node = (\<lambda>(h, self). do {
     n \<leftarrow> get_node h node;
     (h, self) \<leftarrow> (if ln_prev n \<noteq> 0 then do { h \<leftarrow> set_next (ln_prev n) (ln_next n) h; Some (h, self) }
                    else Some (h, self\<lparr>l_head := ln_next n\<rparr>));
     n \<leftarrow> get_node h node;
     (h, self) \<leftarrow> (if ln_next n \<noteq> 0 then do { h \<leftarrow> set_prev (ln_next n) (ln_prev n) h; Some (h, self) }
                    else Some (h, self\<lparr>l_tail := ln_prev n\<rparr>));
     n \<leftarrow> get_node h node;
     Some (release self (ln_val n), h(node := None),
           if l_len self \<noteq> 0 then self\<lparr>l_len := l_len self - 1\<rparr> else self)
   })"

primrec destroy_loop :: "nat \<Rightarrow> List \<Rightarrow> nat \<Rightarrow> node_heap \<Rightarrow> ((nat \<times> nat) list \<times> node_heap) option" where
  "destroy_loop 0 self curr_node h = Some ([], h)"
| "destroy_loop (Suc len) self curr_node h = do {
     n \<leftarrow> get_node h curr_node;
     (calls, h) \<leftarrow> destroy_loop len self (ln_next n) (h(curr_node := None));
     Some (release self (ln_val n) @ calls, h)
   }"

definition qcloud_list_destroy :: "node_heap \<times> List \<Rightarrow> ((nat \<times> nat) list \<times> node_heap) option" where
  "qcloud_list_destroy = (\<lambda>(h, self). destroy_loop (unat (l_len self)) self (l_head self) h)"

section \<open>The sequence a list stands for\<close>

text \<open>
  \<open>links h p es q\<close>: from the node after \<open>p\<close> to the one before \<open>q\<close> the heap holds the nodes \<open>es\<close>,
  given by address and value, doubly linked in this order.
\<close>

definition first_of :: "(nat \<times> nat) list \<Rightarrow> nat \<Rightarrow> nat" where
  "first_of es q = (case es of [] \<Rightarrow> q | e # _ \<Rightarrow> fst e)"

definition last_of :: "nat \<Rightarrow> (nat \<times> nat) list \<Rightarrow> nat" where
  "last_of p es = (if es = [] then p else fst (last es))"

fun links :: "node_heap \<Rightarrow> nat \<Rightarrow> (nat \<times> nat) list \<Rightarrow> nat \<Rightarrow> bool" where
  "links h p [] q = True"
| "links h p ((a, v) # es) q \<longleftrightarrow> a \<noteq> 0 \<and> h a = Some \<lparr>ln_prev = p, ln_next = first_of es q, ln_val = v\<rparr> \<and> links h a es q"

definition list_rep :: "node_heap \<times> List \<Rightarrow> (nat \<times> nat) list \<Rightarrow> bool" where
  "list_rep s es \<longleftrightarrow> links (fst s) 0 es 0 \<and> distinct (map fst es) \<and> l_head (snd s) = first_of es 0 \<and>
     l_tail (snd s) = last_of 0 es \<and> length es < 2 ^ 32 \<and> l_len (snd s) = of_nat (length es)"

lemma ends_simps [simp]:
  "first_of [] q = q" "first_of (e # es) q = fst e" "last_of p [] = p" "last_of p (es @ [e]) = fst e"
  "first_of (es @ es') q = first_of es (first_of es' q)" "last_of p (e # es) = last_of (fst e) es"
  "last_of p (es @ e # es') = last_of (fst e) es'"
  by (auto simp: first_of_def last_of_def split: list.split)

lemma links_append [simp]:
  "links h p (es @ es') q \<longleftrightarrow> links h p es (first_of es' q) \<and> links h (last_of p es) es' q"
  by (induction h p es q rule: links.induct) auto

lemma links_other: "a \<notin> fst ` set es \<Longrightarrow> links (h(a := x)) p es q = links h p es q"
  by (induction h p es q rule: links.induct) auto

lemma links_nonnull: "links h p es q \<Longrightarrow> 0 \<notin> fst ` set es"
  by (induction h p es q rule: links.induct) auto

lemma links_get: "links h p es q \<Longrightarrow> (a, v) \<in> set es \<Longrightarrow> \<exists>n. get_node h a = Some n \<and> ln_val n = v"
  by (induction h p es q rule: links.induct) (auto simp: get_node_def split: if_splits)

lemma node_ops:
  "a \<noteq> 0 \<Longrightarrow> h a = Some n \<Longrightarrow> get_node h a = Some n"
  "a \<noteq> 0 \<Longrightarrow> h a = Some n \<Longrightarrow> set_prev a p h = Some (h(a \<mapsto> n\<lparr>ln_prev := p\<rparr>))"
  "a \<noteq> 0 \<Longrightarrow> h a = Some n \<Longrightarrow> set_next a p h = Some (h(a \<mapsto> n\<lparr>ln_next := p\<rparr>))"
  by (simp_all add: get_node_def set_prev_def set_next_def)

lemma len_of_nat:
  assumes "n < 2 ^ 32"
  shows "(of_nat n :: u32) = 0 \<longleftrightarrow> n = 0" "unat (of_nat n :: u32) = n"
proof -
  show u: "unat (of_nat n :: u32) = n" using assms by (simp add: unat_of_nat)
  show "(of_nat n :: u32) = 0 \<longleftrightarrow> n = 0" by (simp only: word_unat_eq_iff u unsigned_0)
qed

section \<open>Adding and taking at the ends\<close>

lemma rpush_rep:
  assumes rep: "list_rep (h, l) es" and n: "h a = Some n" "a \<noteq> 0" "a \<notin> fst ` set es" and room: "length es + 1 < 2 ^ 32"
  shows "\<exists>s'. qcloud_list_rpush a (h, l) = Some (a, s') \<and> list_rep s' (es @ [(a, ln_val n)]) \<and>
     (\<forall>b. b \<notin> fst ` set es \<longrightarrow> b \<noteq> a \<longrightarrow> fst s' b = h b)"
proof (cases es rule: rev_exhaust)
  case Nil
  with assms show ?thesis
    by (auto simp: list_rep_def qcloud_list_rpush_def node_ops fun_upd_def)
next
  case (snoc ys e)
  obtain t v where e: "e = (t, v)" by (cases e)
  have ne: "l_len l \<noteq> 0" using rep len_of_nat(1) [of "length es"] by (simp add: list_rep_def snoc)
  have t: "h t = Some \<lparr>ln_prev = last_of 0 ys, ln_next = 0, ln_val = v\<rparr>" "t \<noteq> 0" "t \<noteq> a" "l_tail l = t"
    and ys: "links h 0 ys t" "t \<notin> fst ` set ys" "a \<notin> fst ` set ys"
    using assms by (auto simp: list_rep_def snoc e)
  let ?h = "h(a \<mapsto> \<lparr>ln_prev = t, ln_next = 0, ln_val = ln_val n\<rparr>, t \<mapsto> \<lparr>ln_prev = last_of 0 ys, ln_next = a, ln_val = v\<rparr>)"
  have "qcloud_list_rpush a (h, l) = Some (a, ?h, l\<lparr>l_tail := a, l_len := l_len l + 1\<rparr>)"
    using ne n t by (cases n) (simp add: qcloud_list_rpush_def node_ops)
  moreover have "list_rep (?h, l\<lparr>l_tail := a, l_len := l_len l + 1\<rparr>) (es @ [(a, ln_val n)])"
    using rep room ys t n by (auto simp: list_rep_def snoc e links_other)
  ultimately show ?thesis using t(3) by (auto simp: snoc e)
qed

lemma lpush_rep:
  assumes rep: "list_rep (h, l) es" and n: "h a = Some n" "a \<noteq> 0" "a \<notin> fst ` set es" and room: "length es + 1 < 2 ^ 32"
  shows "\<exists>s'. qcloud_list_lpush a (h, l) = Some (a, s') \<and> list_rep s' ((a, ln_val n) # es)"
proof (cases es)
  case Nil
  with assms show ?thesis
    by (auto simp: list_rep_def qcloud_list_lpush_def node_ops fun_upd_def)
next
  case (Cons e ys)
  obtain t v where e: "e = (t, v)" by (cases e)
  have ne: "l_len l \<noteq> 0" using rep len_of_nat(1) [of "length es"] by (simp add: list_rep_def Cons)
  have t: "h t = Some \<lparr>ln_prev = 0, ln_next = first_of ys 0, ln_val = v\<rparr>" "t \<noteq> 0" "t \<noteq> a" "l_head l = t"
    and ys: "links h t ys 0" "t \<notin> fst ` set ys" "a \<notin> fst ` set ys"
    using assms by (auto simp: list_rep_def Cons e)
  let ?h = "h(a \<mapsto> \<lparr>ln_prev = 0, ln_next = t, ln_val = ln_val n\<rparr>, t \<mapsto> \<lparr>ln_prev = a, ln_next = first_of ys 0, ln_val = v\<rparr>)"
  have "qcloud_list_lpush a (h, l) = Some (a, ?h, l\<lparr>l_head := a, l_len := l_len l + 1\<rparr>)"
    using ne n t by (cases n) (simp add: qcloud_list_lpush_def node_ops)
  moreover have "list_rep (?h, l\<lparr>l_head := a, l_len := l_len l + 1\<rparr>) ((a, ln_val n) # es)"
    using rep room ys t n by (auto simp: list_rep_def Cons e links_other)
  ultimately show ?thesis by blast
qed

lemma pop_len:
  assumes "list_rep (h, l) es" and "es \<noteq> []"
  shows "l_len l \<noteq> 0" "l_len l - 1 = of_nat (length es - 1)" "l_len l - 1 = 0 \<longleftrightarrow> length es = 1"
proof -
  have len: "l_len l = of_nat (length es)" "length es < 2 ^ 32" "0 < length es" using assms by (auto simp: list_rep_def)
  then show "l_len l \<noteq> 0" using len_of_nat(1) [of "length es"] by simp
  show *: "l_len l - 1 = of_nat (length es - 1)" using len by (simp add: of_nat_diff Suc_le_eq)
  show "l_len l - 1 = 0 \<longleftrightarrow> length es = 1" unfolding * using len len_of_nat(1) [of "length es - 1"] by (auto simp: le_Suc_eq)
qed

lemma lpop_rep:
  assumes "list_rep (h, l) ((a, v) # es)"
  shows "\<exists>h' l'. qcloud_list_lpop (h, l) = Some (a, h', l') \<and> list_rep (h', l') es \<and> h' a = Some \<lparr>ln_prev = 0, ln_next = 0, ln_val = v\<rparr>"
proof (cases es)
  case Nil
  then show ?thesis using assms pop_len [OF assms]
    by (auto simp: list_rep_def qcloud_list_lpop_def node_ops)
next
  case (Cons e ys)
  obtain t w where e: "e = (t, w)" by (cases e)
  note len = pop_len [OF assms]
  have t: "h a = Some \<lparr>ln_prev = 0, ln_next = t, ln_val = v\<rparr>" "h t = Some \<lparr>ln_prev = a, ln_next = first_of ys 0, ln_val = w\<rparr>"
      "t \<noteq> 0" "a \<noteq> 0" "t \<noteq> a" "l_head l = a"
    and ys: "links h t ys 0" "t \<notin> fst ` set ys" "a \<notin> fst ` set ys"
    using assms by (auto simp: list_rep_def Cons e)
  let ?h = "h(t \<mapsto> \<lparr>ln_prev = 0, ln_next = first_of ys 0, ln_val = w\<rparr>, a \<mapsto> \<lparr>ln_prev = 0, ln_next = 0, ln_val = v\<rparr>)"
  have "qcloud_list_lpop (h, l) = Some (a, ?h, l\<lparr>l_head := t, l_len := l_len l - 1\<rparr>)"
    using len t by (simp add: qcloud_list_lpop_def node_ops Cons)
  moreover have "list_rep (?h, l\<lparr>l_head := t, l_len := l_len l - 1\<rparr>) es"
    using assms len(2) ys t by (auto simp: list_rep_def Cons e links_other)
  ultimately show ?thesis by auto
qed

lemma rpop_rep:
  assumes "list_rep (h, l) (es @ [(a, v)])"
  shows "\<exists>h' l'. qcloud_list_rpop (h, l) = Some (a, h', l') \<and> list_rep (h', l') es \<and> h' a = Some \<lparr>ln_prev = 0, ln_next = 0, ln_val = v\<rparr>"
proof (cases es rule: rev_exhaust)
  case Nil
  then show ?thesis using assms pop_len [OF assms]
    by (auto simp: list_rep_def qcloud_list_rpop_def node_ops)
next
  case (snoc ys e)
  obtain t w where e: "e = (t, w)" by (cases e)
  note len = pop_len [OF assms]
  have t: "h a = Some \<lparr>ln_prev = t, ln_next = 0, ln_val = v\<rparr>" "h t = Some \<lparr>ln_prev = last_of 0 ys, ln_next = a, ln_val = w\<rparr>"
      "t \<noteq> 0" "a \<noteq> 0" "t \<noteq> a" "l_tail l = a"
    and ys: "links h 0 ys t" "t \<notin> fst ` set ys" "a \<notin> fst ` set ys"
    using assms by (auto simp: list_rep_def snoc e)
  let ?h = "h(t \<mapsto> \<lparr>ln_prev = last_of 0 ys, ln_next = 0, ln_val = w\<rparr>, a \<mapsto> \<lparr>ln_prev = 0, ln_next = 0, ln_val = v\<rparr>)"
  have "qcloud_list_rpop (h, l) = Some (a, ?h, l\<lparr>l_tail := t, l_len := l_len l - 1\<rparr>)"
    using len t by (simp add: qcloud_list_rpop_def node_ops snoc)
  moreover have "list_rep (?h, l\<lparr>l_tail := t, l_len := l_len l - 1\<rparr>) es"
    using assms len(2) ys t by (auto simp: list_rep_def snoc e links_other)
  ultimately show ?thesis by auto
qed

section \<open>Removing a node\<close>

lemma remove_rep:
  assumes rep: "list_rep (h, l) (es @ (a, v) # fs)"
  shows "\<exists>h' l'. qcloud_list_remove a (h, l) = Some (release l v, h', l') \<and> list_rep (h', l') (es @ fs) \<and> h' a = None"
proof -
  note len = pop_len [OF rep]
  have a: "h a = Some \<lparr>ln_prev = last_of 0 es, ln_next = first_of fs 0, ln_val = v\<rparr>" "a \<noteq> 0" "a \<notin> fst ` set es" "a \<notin> fst ` set fs"
    and es: "links h 0 es a" and fs: "links h a fs 0" and dis: "distinct (map fst es)" "distinct (map fst fs)" "fst ` set es \<inter> fst ` set fs = {}"
    and ends: "l_head l = first_of es a" "l_tail l = last_of a fs"
    using rep by (auto simp: list_rep_def)
  have node: "get_node h' a = Some \<lparr>ln_prev = last_of 0 es, ln_next = first_of fs 0, ln_val = v\<rparr>" if "h' a = h a" for h'
    using a that by (simp add: get_node_def)
  obtain h1 l1 where 1: "(if last_of 0 es \<noteq> 0 then do { h \<leftarrow> set_next (last_of 0 es) (first_of fs 0) h; Some (h, l) }
        else Some (h, l\<lparr>l_head := first_of fs 0\<rparr>)) = Some (h1, l1)"
    and h1: "links h1 0 es (first_of fs 0)" "links h1 a fs 0" "h1 a = h a" "l1 = l\<lparr>l_head := first_of es (first_of fs 0)\<rparr>"
  proof (cases es rule: rev_exhaust)
    case Nil
    with a es fs ends that show thesis by simp
  next
    case (snoc ys e)
    obtain t w where e: "e = (t, w)" by (cases e)
    have "h t = Some \<lparr>ln_prev = last_of 0 ys, ln_next = a, ln_val = w\<rparr>" "t \<noteq> 0" "t \<noteq> a" "links h 0 ys t" "t \<notin> fst ` set ys" "t \<notin> fst ` set fs"
      using es dis a by (auto simp: snoc e)
    moreover have "first_of ys t = first_of es (first_of fs 0)" "l_head l = first_of ys t" using ends by (simp_all add: snoc e)
    ultimately show thesis
      using fs that [of "h(t \<mapsto> \<lparr>ln_prev = last_of 0 ys, ln_next = first_of fs 0, ln_val = w\<rparr>)" l]
      by (simp add: snoc e node_ops links_other)
  qed
  obtain h2 l2 where 2: "(if first_of fs 0 \<noteq> 0 then do { h \<leftarrow> set_prev (first_of fs 0) (last_of 0 es) h1; Some (h, l1) }
        else Some (h1, l1\<lparr>l_tail := last_of 0 es\<rparr>)) = Some (h2, l2)"
    and h2: "links h2 0 es (first_of fs 0)" "links h2 (last_of 0 es) fs 0" "h2 a = h a"
      "l2 = l1\<lparr>l_tail := last_of (last_of 0 es) fs\<rparr>"
  proof (cases fs)
    case Nil
    with h1 ends that show thesis by simp
  next
    case (Cons f zs)
    obtain t w where f: "f = (t, w)" by (cases f)
    have "h1 t = Some \<lparr>ln_prev = a, ln_next = first_of zs 0, ln_val = w\<rparr>" "t \<noteq> 0" "t \<noteq> a" "links h1 t zs 0" "t \<notin> fst ` set zs" "t \<notin> fst ` set es"
      using h1 dis a by (auto simp: Cons f)
    then show thesis
      using h1 ends that [of "h1(t \<mapsto> \<lparr>ln_prev = last_of 0 es, ln_next = first_of zs 0, ln_val = w\<rparr>)" l1]
      by (simp add: Cons f node_ops links_other)
  qed
  have "qcloud_list_remove a (h, l) = Some (release l2 v, h2(a := None), if l_len l2 \<noteq> 0 then l2\<lparr>l_len := l_len l2 - 1\<rparr> else l2)"
    unfolding qcloud_list_remove_def prod.case
    by (simp only: 1 2 node [of h, OF refl] node [of h1, OF h1(3)] node [of h2, OF h2(3)] ListNode.simps Option.bind.simps prod.case)
  moreover have "list_rep (h2(a := None), l2\<lparr>l_len := l_len l2 - 1\<rparr>) (es @ fs)"
    using h1(4) h2 a dis len rep by (auto simp: list_rep_def links_other last_of_def)
  moreover have "release l2 v = release l v" "l_len l2 = l_len l" using h1(4) h2(4) by (simp_all add: release_def)
  ultimately show ?thesis using len by auto
qed

section \<open>Searching\<close>

lemma iterator_next_head:
  "links h p es 0 \<Longrightarrow> qcloud_list_iterator_next h \<lparr>it_next = first_of es 0, it_direction = LIST_HEAD\<rparr> =
     Some (first_of es 0, \<lparr>it_next = first_of (tl es) 0, it_direction = LIST_HEAD\<rparr>)"
  by (cases es) (auto simp: qcloud_list_iterator_next_def node_ops)

lemma find_loop_first:
  "links h p es 0 \<Longrightarrow> find_loop h l x (first_of es 0) \<lparr>it_next = first_of (tl es) 0, it_direction = LIST_HEAD\<rparr> =
     Some (case find (\<lambda>(a, v). node_matches l x v) es of None \<Rightarrow> 0 | Some (a, v) \<Rightarrow> a)"
proof (induction es arbitrary: p)
  case Nil
  show ?case by (subst find_loop.simps) simp
next
  case (Cons e es)
  obtain a v where e: "e = (a, v)" by (cases e)
  with Cons.prems have a: "a \<noteq> 0" "h a = Some \<lparr>ln_prev = p, ln_next = first_of es 0, ln_val = v\<rparr>" "links h a es 0" by auto
  show ?case
    using a Cons.IH [OF a(3)] iterator_next_head [OF a(3)]
    by (subst find_loop.simps) (simp add: e node_ops)
qed

lemma find_rep:
  assumes "list_rep (h, l) es"
  shows "qcloud_list_find True h l x = Some (case find (\<lambda>(a, v). node_matches l x v) es of None \<Rightarrow> 0 | Some (a, v) \<Rightarrow> a)"
  using assms iterator_next_head [of h 0 es] find_loop_first [of h 0 es l x]
  by (simp add: list_rep_def qcloud_list_find_def qcloud_list_iterator_new_def qcloud_list_iterator_new_from_node_def)

lemma at_loop_head:
  "links h p es 0 \<Longrightarrow> i < length es \<Longrightarrow>
   at_loop i h (first_of es 0) \<lparr>it_next = first_of (tl es) 0, it_direction = LIST_HEAD\<rparr> = Some (fst (es ! i))"
proof (induction i arbitrary: p es)
  case 0
  then show ?case by (cases es) auto
next
  case (Suc i)
  then obtain a v fs where es: "es = (a, v) # fs" by (cases es) auto
  with Suc.prems have "links h a fs 0" "i < length fs" by auto
  from Suc.IH [OF this] iterator_next_head [OF this(1)] show ?case by (simp add: es)
qed

lemma iterator_next_tail:
  "links h 0 es q \<Longrightarrow> qcloud_list_iterator_next h \<lparr>it_next = last_of 0 es, it_direction = LIST_TAIL\<rparr> =
     Some (last_of 0 es, \<lparr>it_next = last_of 0 (butlast es), it_direction = LIST_TAIL\<rparr>)"
  by (cases es rule: rev_exhaust) (auto simp: qcloud_list_iterator_next_def node_ops)

lemma at_loop_tail:
  "links h 0 es q \<Longrightarrow> i < length es \<Longrightarrow>
   at_loop i h (last_of 0 es) \<lparr>it_next = last_of 0 (butlast es), it_direction = LIST_TAIL\<rparr> = Some (fst (rev es ! i))"
proof (induction i arbitrary: q es)
  case 0
  then show ?case by (cases es rule: rev_exhaust) auto
next
  case (Suc i)
  then obtain a v fs where es: "es = fs @ [(a, v)]" by (cases es rule: rev_exhaust) auto
  with Suc.prems have "links h 0 fs a" "i < length fs" by auto
  from Suc.IH [OF this] iterator_next_tail [OF this(1)] show ?case by (simp add: es)
qed

lemma at_rep:
  assumes "list_rep (h, l) es"
  shows "qcloud_list_at True h l i = Some
     (if 0 \<le> sint i then if unat i < length es then fst (es ! unat i) else 0
      else if unat (NOT i) < length es then fst (rev es ! unat (NOT i)) else 0)"
proof -
  have len: "unat (l_len l) = length es" and links: "links h 0 es 0" and ends: "l_head l = first_of es 0" "l_tail l = last_of 0 es"
    using assms len_of_nat(2) [of "length es"] by (auto simp: list_rep_def)
  show ?thesis
    using iterator_next_head [OF links] iterator_next_tail [OF links] at_loop_head [OF links] at_loop_tail [OF links] ends
    by (auto simp: qcloud_list_at_def qcloud_list_iterator_new_def qcloud_list_iterator_new_from_node_def word_less_nat_alt len not_less)
qed

section \<open>Destroying\<close>

lemma destroy_loop_links:
  "links h p es 0 \<Longrightarrow> distinct (map fst es) \<Longrightarrow>
   destroy_loop (length es) l (first_of es 0) h = Some (concat (map (\<lambda>e. release l (snd e)) es), \<lambda>a. if a \<in> fst ` set es then None else h a)"
proof (induction es arbitrary: h p)
  case (Cons e es)
  obtain a v where e: "e = (a, v)" by (cases e)
  with Cons.prems have a: "a \<noteq> 0" "h a = Some \<lparr>ln_prev = p, ln_next = first_of es 0, ln_val = v\<rparr>" "links (h(a := None)) a es 0" "distinct (map fst es)"
    by (auto simp: links_other)
  have "destroy_loop (length es) l (first_of es 0) (h(a := None)) =
      Some (concat (map (\<lambda>e. release l (snd e)) es), \<lambda>b. if b \<in> fst ` set (e # es) then None else h b)"
    unfolding Cons.IH [OF a(3,4)] by (auto simp: e)
  with a(1,2) show ?case by (simp add: e node_ops)
qed simp

lemma destroy_rep:
  assumes "list_rep (h, l) es"
  shows "qcloud_list_destroy (h, l) = Some (concat (map (\<lambda>e. release l (snd e)) es), \<lambda>a. if a \<in> fst ` set es then None else h a)"
  using assms destroy_loop_links [of h 0 es l] len_of_nat(2) [of "length es"] by (auto simp: list_rep_def qcloud_list_destroy_def)

section \<open>The list as a queue\<close>

definition list_push :: "nat \<Rightarrow> node_heap \<times> List \<Rightarrow> (node_heap \<times> List) option" where
  "list_push a s = map_option snd (qcloud_list_rpush a s)"

definition list_nodes :: "node_heap \<times> List \<Rightarrow> nat list \<Rightarrow> bool" where
  "list_nodes s xs \<longleftrightarrow> (\<exists>es. list_rep s es \<and> map fst es = xs)"

text \<open>New nodes are allocated, and no node is in the list twice.\<close>

definition list_room :: "node_heap \<times> List \<Rightarrow> nat list \<Rightarrow> nat list \<Rightarrow> bool" where
  "list_room s xs ys \<longleftrightarrow> distinct (xs @ ys) \<and> 0 \<notin> set ys \<and> (\<forall>y \<in> set ys. fst s y \<noteq> None) \<and> length (xs @ ys) < 2 ^ 32"

interpretation node_queue: queue list_nodes list_room list_push qcloud_list_lpop
proof
  fix s xs y ys
  assume rep: "list_nodes s xs" and room: "list_room s xs (y # ys)"
  obtain h l where s: "s = (h, l)" by (cases s)
  obtain es where es: "list_rep (h, l) es" "map fst es = xs" using rep by (auto simp: list_nodes_def s)
  have xs: "fst ` set es = set xs" "length es = length xs" using es(2) [symmetric] by simp_all
  have y: "y \<noteq> 0" "h y \<noteq> None" "y \<notin> fst ` set es" "length es + 1 < 2 ^ 32"
    unfolding xs using room by (auto simp: list_room_def s)
  then obtain n where n: "h y = Some n" by blast
  obtain s' where s': "qcloud_list_rpush y s = Some (y, s')" "list_rep s' (es @ [(y, ln_val n)])"
      "\<forall>b. b \<notin> fst ` set es \<longrightarrow> b \<noteq> y \<longrightarrow> fst s' b = h b"
    using rpush_rep [OF es(1) n y(1,3,4)] by (auto simp: s)
  have "list_nodes s' (xs @ [y])" using s'(2) es(2) by (auto simp: list_nodes_def intro!: exI [of _ "es @ [(y, ln_val n)]"])
  moreover have "list_room s' (xs @ [y]) ys" using room s'(3) unfolding xs by (auto simp: list_room_def s)
  ultimately show "\<exists>s'. list_push y s = Some s' \<and> list_nodes s' (xs @ [y]) \<and> list_room s' (xs @ [y]) ys"
    using s'(1) by (auto simp: list_push_def)
next
  fix s x xs
  assume "list_nodes s (x # xs)"
  then obtain v es where "list_rep s ((x, v) # es)" "map fst es = xs"
    by (auto simp: list_nodes_def Cons_eq_map_conv)
  then show "\<exists>s'. qcloud_list_lpop s = Some (x, s') \<and> list_nodes s' xs"
    using lpop_rep [of "fst s" "snd s" x v es] by (auto simp: list_nodes_def)
qed

section \<open>Properties\<close>

lemma nodes_remove_split:
  assumes "distinct (map fst (es @ (a, v) # fs))"
  shows "nodes_remove (es @ (a, v) # fs) a = es @ fs"
proof -
  have "filter (\<lambda>n. fst n \<noteq> a) es = es" "filter (\<lambda>n. fst n \<noteq> a) fs = fs"
    using assms by (auto simp: filter_id_conv)
  then show ?thesis by (simp add: nodes_remove_def)
qed

text \<open>
  C23: The doubly linked list implements the sequences of the client model: where the list stands for a
  sequence of nodes, adding an allocated node at its tail and removing a node give lists that
  stand for the sequences with the node appended and taken out. No pointer is followed that is null or
  has been released, and the value of a removed node is released exactly once.
\<close>

theorem list_implements_nodes:
  assumes "list_rep (h, l) es"
  shows "(\<forall>a n. h a = Some n \<longrightarrow> a \<noteq> 0 \<longrightarrow> a \<notin> fst ` set es \<longrightarrow> length es + 1 < 2 ^ 32 \<longrightarrow>
       (\<exists>s'. qcloud_list_rpush a (h, l) = Some (a, s') \<and> list_rep s' (nodes_rpush es a (ln_val n)))) \<and>
     (\<forall>a v. (a, v) \<in> set es \<longrightarrow> (\<exists>h' l'. qcloud_list_remove a (h, l) = Some (release l v, h', l') \<and> list_rep (h', l') (nodes_remove es a) \<and> h' a = None))"
proof (intro conjI allI impI)
  fix a n assume "h a = Some n" "a \<noteq> 0" "a \<notin> fst ` set es" "length es + 1 < 2 ^ 32"
  from rpush_rep [OF assms this] show "\<exists>s'. qcloud_list_rpush a (h, l) = Some (a, s') \<and> list_rep s' (nodes_rpush es a (ln_val n))"
    by (auto simp: nodes_rpush_def)
next
  fix a v assume "(a, v) \<in> set es"
  then obtain fs gs where es: "es = fs @ (a, v) # gs" by (meson split_list)
  have "distinct (map fst (fs @ (a, v) # gs))" using assms by (simp add: list_rep_def es)
  from remove_rep [OF assms [unfolded es]] nodes_remove_split [OF this]
  show "\<exists>h' l'. qcloud_list_remove a (h, l) = Some (release l v, h', l') \<and> list_rep (h', l') (nodes_remove es a) \<and> h' a = None"
    by (simp add: es)
qed

definition demo_list :: "node_heap \<times> List" where
  "demo_list = ([5 \<mapsto> \<lparr>ln_prev = 0, ln_next = 9, ln_val = 50\<rparr>, 9 \<mapsto> \<lparr>ln_prev = 5, ln_next = 0, ln_val = 90\<rparr>],
     \<lparr>l_head = 5, l_tail = 9, l_len = 2, l_free = Some 1, l_match = None\<rparr>)"

theorem list_implements_nodes_witness:
  "\<exists>h' l'. qcloud_list_remove 5 demo_list = Some ([(1, 50)], h', l') \<and> list_rep (h', l') [(9, 90)] \<and> h' 5 = None"
proof -
  have "list_rep demo_list [(5, 50), (9, 90)]" by (simp add: demo_list_def list_rep_def)
  from list_implements_nodes [of "fst demo_list" "snd demo_list", simplified, OF this] show ?thesis
    by (auto simp: demo_list_def release_def nodes_remove_def)
qed

text \<open>
  Searching a list always comes to an end and finds the first node whose value matches; indexing
  counts from the head, and with a negative index from the tail; a null pointer means that there
  is no such node.
\<close>

lemma list_search:
  assumes "list_rep (h, l) es"
  shows "qcloud_list_find True h l x = Some (case find (\<lambda>(a, v). node_matches l x v) es of None \<Rightarrow> 0 | Some (a, v) \<Rightarrow> a) \<and>
     qcloud_list_at True h l i = Some
       (if 0 \<le> sint i then if unat i < length es then fst (es ! unat i) else 0
        else if unat (NOT i) < length es then fst (rev es ! unat (NOT i)) else 0)"
  using find_rep [OF assms] at_rep [OF assms] by blast

text \<open>
  Nodes pushed at the tail come out at the head in the order they went in.
\<close>

lemma list_fifo:
  assumes "list_rep s []" and "distinct ys" and "0 \<notin> set ys" and "\<forall>y \<in> set ys. fst s y \<noteq> None" and "length ys < 2 ^ 32" and "n \<le> length ys"
  shows "\<exists>s1 s2. push_all list_push ys s = Some s1 \<and> pop_all qcloud_list_lpop n s1 = Some (take n ys, s2)"
proof -
  have "list_nodes s []" "list_room s [] ys" using assms by (auto simp: list_nodes_def list_room_def)
  from node_queue.fifo [OF this assms(6)] show ?thesis by blast
qed

end
