(* ===== verification/Utils_Ringbuff.thy ===== *)
theory Utils_Ringbuff
  imports Prelude
begin

text \<open>
  The ring buffer of \<^verbatim>\<open>sdk_src/utils/utils_ringbuff.c\<close>, with its 32-bit indices, as a bounded queue of bytes.
\<close>

section \<open>The structure and its operations\<close>

abbreviation (input) RINGBUFF_OK :: int where "RINGBUFF_OK \<equiv> 0"
abbreviation (input) RINGBUFF_FULL :: int where "RINGBUFF_FULL \<equiv> -4"
abbreviation (input) RINGBUFF_TOO_SHORT :: int where "RINGBUFF_TOO_SHORT \<equiv> -5"

record sRingbuff =
  rb_size :: u32
  readpoint :: u32
  writepoint :: u32
  rb_buffer :: "u8 list"
  rb_full :: bool

text \<open>\<^verbatim>\<open>memset\<close> over the first \<open>n\<close> bytes of an array.\<close>

definition zero_bytes :: "nat \<Rightarrow> u8 list \<Rightarrow> u8 list option" where
  "zero_bytes n b = buf_write b 0 (replicate n 0)"

definition ring_buff_init :: "u8 list \<Rightarrow> u32 \<Rightarrow> (int \<times> sRingbuff) option" where
  "ring_buff_init buff n = do {
     b \<leftarrow> zero_bytes (unat n) buff;
     Some (RINGBUFF_OK, \<lparr>rb_size = n, readpoint = 0, writepoint = 0, rb_buffer = b, rb_full = False\<rparr>)
   }"

definition ring_buff_flush :: "sRingbuff \<Rightarrow> (int \<times> sRingbuff) option" where
  "ring_buff_flush r = do {
     b \<leftarrow> zero_bytes (unat (rb_size r)) (rb_buffer r);
     Some (RINGBUFF_OK, r\<lparr>readpoint := 0, writepoint := 0, rb_buffer := b, rb_full := False\<rparr>)
   }"

text \<open>One turn of the loop of \<^verbatim>\<open>ring_buff_push_data\<close>; \<open>Inl\<close> leaves the function. A remainder by zero has no result.\<close>

definition ring_push_step :: "u8 list \<Rightarrow> nat \<Rightarrow> sRingbuff \<Rightarrow> (sRingbuff + sRingbuff) option" where
  "ring_push_step pData i r =
     (if rb_size r = 0 then None
      else if (writepoint r + 1) mod rb_size r = readpoint r then Some (Inl (r\<lparr>rb_full := True\<rparr>))
      else do {
        let wp = (if writepoint r < rb_size r - 1 then writepoint r + 1 else 0);
        x \<leftarrow> buf_get pData i;
        b \<leftarrow> buf_put (rb_buffer r) (unat wp) x;
        Some (Inr (r\<lparr>writepoint := wp, rb_buffer := b\<rparr>))
      })"

primrec ring_push_loop :: "nat \<Rightarrow> u8 list \<Rightarrow> nat \<Rightarrow> sRingbuff \<Rightarrow> (int \<times> sRingbuff) option" where
  "ring_push_loop 0 pData i r = Some (RINGBUFF_OK, r)"
| "ring_push_loop (Suc n) pData i r = do {
     t \<leftarrow> ring_push_step pData i r;
     (case t of Inl r \<Rightarrow> Some (RINGBUFF_FULL, r) | Inr r \<Rightarrow> ring_push_loop n pData (i + 1) r)
   }"

definition ring_buff_push_data :: "u8 list \<Rightarrow> 32 word \<Rightarrow> sRingbuff \<Rightarrow> (int \<times> sRingbuff) option" where
  "ring_buff_push_data pData len r =
     (if len > rb_size r then Some (RINGBUFF_TOO_SHORT, r)
      else ring_push_loop (nat (sint len)) pData 0 r)"

text \<open>The bytes stored into \<^verbatim>\<open>pData\<close> are the second result; the first one is their number or an error.\<close>

primrec ring_pop_loop :: "nat \<Rightarrow> sRingbuff \<Rightarrow> (u8 list \<times> sRingbuff) option" where
  "ring_pop_loop 0 r = Some ([], r)"
| "ring_pop_loop (Suc n) r =
     (if writepoint r = readpoint r then Some ([], r)
      else do {
        let rp = (if readpoint r = rb_size r - 1 then 0 else readpoint r + 1);
        x \<leftarrow> buf_get (rb_buffer r) (unat rp);
        (xs, r) \<leftarrow> ring_pop_loop n (r\<lparr>readpoint := rp\<rparr>);
        Some (x # xs, r)
      })"

definition ring_buff_pop_data :: "32 word \<Rightarrow> sRingbuff \<Rightarrow> (int \<times> u8 list \<times> sRingbuff) option" where
  "ring_buff_pop_data len r =
     (if len > rb_size r then Some (RINGBUFF_TOO_SHORT, [], r)
      else do { (xs, r) \<leftarrow> ring_pop_loop (nat (sint len)) r; Some (int (length xs), xs, r) })"

section \<open>The queue a ring buffer stands for\<close>

definition ring_rep :: "sRingbuff \<Rightarrow> u8 list \<Rightarrow> bool" where
  "ring_rep r xs \<longleftrightarrow>
     readpoint r < rb_size r \<and> length (rb_buffer r) = unat (rb_size r) \<and> length xs < unat (rb_size r) \<and>
     unat (writepoint r) = (unat (readpoint r) + length xs) mod unat (rb_size r) \<and>
     (\<forall>i < length xs. rb_buffer r ! ((unat (readpoint r) + 1 + i) mod unat (rb_size r)) = xs ! i)"

lemma mod_offset_inj:
  fixes k i j s :: nat
  assumes "(k + i) mod s = (k + j) mod s" and "i < s" and "j < s"
  shows "i = j"
proof -
  have "int s dvd (int k + int i) - (int k + int j)"
    using arg_cong [OF assms(1), of int] by (simp only: zmod_int of_nat_add mod_eq_dvd_iff)
  then have "int s dvd int i - int j" by simp
  then have "int i - int j = 0" using assms(2,3) dvd_imp_le_int [of "int i - int j" "int s"] by linarith
  then show ?thesis by simp
qed

text \<open>The two ways the code advances an index around the ring.\<close>

lemma ring_advance:
  fixes p s :: u32
  assumes "p < s"
  shows "unat (if p < s - 1 then p + 1 else 0) = (unat p + 1) mod unat s"
    and "unat (if p = s - 1 then 0 else p + 1) = (unat p + 1) mod unat s"
    and "unat ((p + 1) mod s) = (unat p + 1) mod unat s"
proof -
  have s: "unat p < unat s" "s \<noteq> 0" "unat s < 2 ^ 32"
    using assms unsigned_less [of s, where ?'a = nat] by (auto simp: word_less_nat_alt)
  have s1: "unat (s - 1) = unat s - 1" using s(2) by (rule unat_minus_one)
  have p1: "unat (p + 1) = unat p + 1" using s by (simp add: unat_word_ariths(1))
  show "unat (if p < s - 1 then p + 1 else 0) = (unat p + 1) mod unat s"
    using s s1 p1 by (auto simp: word_less_nat_alt mod_Suc)
  show "unat (if p = s - 1 then 0 else p + 1) = (unat p + 1) mod unat s"
    using s s1 p1 by (auto simp: word_unat_eq_iff mod_Suc)
  show "unat ((p + 1) mod s) = (unat p + 1) mod unat s"
    by (simp only: unat_mod_distrib p1)
qed

lemma ring_bounds:
  assumes "ring_rep r xs"
  shows "0 < unat (rb_size r)" "unat (readpoint r) < unat (rb_size r)" "writepoint r < rb_size r" "rb_size r \<noteq> 0"
  using assms by (auto simp: ring_rep_def word_less_nat_alt)

lemma ring_full_iff:
  assumes "ring_rep r xs"
  shows "(writepoint r + 1) mod rb_size r = readpoint r \<longleftrightarrow> length xs + 1 = unat (rb_size r)"
proof -
  let ?s = "unat (rb_size r)" and ?rp = "unat (readpoint r)"
  note b = ring_bounds [OF assms]
  have "(writepoint r + 1) mod rb_size r = readpoint r \<longleftrightarrow> (?rp + (length xs + 1)) mod ?s = ?rp"
    using assms by (simp add: word_unat_eq_iff ring_advance(3) [OF b(3)] ring_rep_def mod_simps)
  also have "\<dots> \<longleftrightarrow> length xs + 1 = ?s"
  proof (cases "length xs + 1 = ?s")
    case True
    then show ?thesis using b by simp
  next
    case False
    then have "length xs + 1 < ?s" using assms by (simp add: ring_rep_def)
    then show ?thesis using mod_offset_inj [of ?rp "length xs + 1" ?s 0] b by auto
  qed
  finally show ?thesis .
qed

lemma ring_empty_iff:
  assumes "ring_rep r xs"
  shows "writepoint r = readpoint r \<longleftrightarrow> xs = []"
  using mod_offset_inj [of "unat (readpoint r)" "length xs" "unat (rb_size r)" 0] ring_bounds [OF assms] assms
  by (auto simp: ring_rep_def word_unat_eq_iff)

lemma ring_push_step_rep:
  assumes "ring_rep r xs" and "i < length d"
  shows "if length xs + 1 < unat (rb_size r) then \<exists>r'. ring_push_step d i r = Some (Inr r') \<and> ring_rep r' (xs @ [d ! i]) \<and> rb_size r' = rb_size r \<and> rb_full r' = rb_full r
     else ring_push_step d i r = Some (Inl (r\<lparr>rb_full := True\<rparr>))"
proof -
  let ?s = "unat (rb_size r)" and ?rp = "unat (readpoint r)"
  note b = ring_bounds [OF assms(1)]
  define wp where "wp = (if writepoint r < rb_size r - 1 then writepoint r + 1 else 0)"
  have wp: "unat wp = (?rp + 1 + length xs) mod ?s"
    using assms(1) by (simp add: wp_def ring_advance(1) [OF b(3)] ring_rep_def mod_simps)
  let ?r = "r\<lparr>writepoint := wp, rb_buffer := (rb_buffer r)[unat wp := d ! i]\<rparr>"
  show ?thesis
  proof (cases "length xs + 1 < ?s")
    case True
    then have "ring_push_step d i r = Some (Inr ?r)"
      using b wp assms ring_full_iff [OF assms(1)]
      by (simp add: ring_push_step_def wp_def [symmetric] buf_get_def buf_put_def ring_rep_def)
    moreover have "(rb_buffer r)[unat wp := d ! i] ! ((?rp + 1 + j) mod ?s) = (xs @ [d ! i]) ! j" if "j < length (xs @ [d ! i])" for j
    proof (cases "j = length xs")
      case True
      with b assms(1) show ?thesis by (simp add: wp ring_rep_def)
    next
      case False
      with that \<open>length xs + 1 < ?s\<close> have "j < length xs" "unat wp \<noteq> (?rp + 1 + j) mod ?s"
        unfolding wp using mod_offset_inj [of "?rp + 1" j ?s "length xs"] by auto
      with assms(1) show ?thesis by (simp add: ring_rep_def nth_append)
    qed
    then have "ring_rep ?r (xs @ [d ! i])"
      using assms(1) True wp by (simp add: ring_rep_def)
    ultimately show ?thesis using True by auto
  next
    case False
    with assms(1) have "length xs + 1 = ?s" by (simp add: ring_rep_def)
    with False b show ?thesis by (simp add: ring_push_step_def ring_full_iff [OF assms(1)])
  qed
qed

lemma ring_pop_rep:
  assumes "ring_rep r (x # xs)"
  defines "rp \<equiv> (if readpoint r = rb_size r - 1 then 0 else readpoint r + 1)"
  shows "ring_rep (r\<lparr>readpoint := rp\<rparr>) xs" "buf_get (rb_buffer r) (unat rp) = Some x"
proof -
  let ?s = "unat (rb_size r)" and ?rp = "unat (readpoint r)"
  note b = ring_bounds [OF assms(1)]
  have rp: "unat rp = (?rp + 1) mod ?s"
    unfolding rp_def by (rule ring_advance(2)) (use assms(1) in \<open>simp add: ring_rep_def\<close>)
  have nth: "rb_buffer r ! ((?rp + 1 + i) mod ?s) = (x # xs) ! i" if "i < Suc (length xs)" for i
    using assms(1) that by (simp add: ring_rep_def)
  show "buf_get (rb_buffer r) (unat rp) = Some x"
    using nth [of 0] b assms(1) by (simp add: buf_get_def rp ring_rep_def)
  have "rb_buffer r ! ((unat rp + 1 + i) mod ?s) = xs ! i" if "i < length xs" for i
    using nth [of "Suc i"] mod_add_left_eq [of "?rp + 1" ?s "Suc i"] that by (simp add: rp)
  moreover have "unat (writepoint r) = (unat rp + length xs) mod ?s"
    using assms(1) by (simp add: rp mod_simps ring_rep_def)
  ultimately show "ring_rep (r\<lparr>readpoint := rp\<rparr>) xs"
    using assms(1) b rp by (simp add: ring_rep_def word_less_nat_alt)
qed

lemma nat_sint:
  fixes x :: "32 word"
  assumes "0 \<le> sint x"
  shows "nat (sint x) = unat x"
proof -
  have "sint x < 2 ^ 31" using sint_lt [of x] by simp
  then have "uint x = sint x" using assms by (simp add: uint_sint take_bit_int_eq_self)
  then show ?thesis by (metis nat_uint_eq)
qed

lemma ring_push_loop_rep:
  "ring_rep r xs \<Longrightarrow> i + n \<le> length d \<Longrightarrow>
   \<exists>r'. ring_push_loop n d i r = Some (if length xs + n < unat (rb_size r) then RINGBUFF_OK else RINGBUFF_FULL, r') \<and>
     ring_rep r' (xs @ take (unat (rb_size r) - 1 - length xs) (take n (drop i d))) \<and> rb_size r' = rb_size r \<and>
     rb_full r' = (rb_full r \<or> unat (rb_size r) \<le> length xs + n)"
proof (induction n arbitrary: i r xs)
  case 0
  then show ?case by (auto simp: ring_rep_def)
next
  case (Suc n)
  have i: "i < length d" using Suc.prems(2) by simp
  have d: "take (Suc n) (drop i d) = d ! i # take n (drop (Suc i) d)" using i by (simp flip: Cons_nth_drop_Suc)
  show ?case
  proof (cases "length xs + 1 < unat (rb_size r)")
    case True
    obtain r1 where r1: "ring_push_step d i r = Some (Inr r1)" "ring_rep r1 (xs @ [d ! i])" "rb_size r1 = rb_size r" "rb_full r1 = rb_full r"
      using ring_push_step_rep [OF Suc.prems(1) i] True by auto
    have room: "unat (rb_size r) - 1 - length xs = Suc (unat (rb_size r) - 1 - length (xs @ [d ! i]))" using True by simp
    from Suc.IH [OF r1(2), of "Suc i"] Suc.prems(2) r1 show ?thesis unfolding d room by auto
  next
    case False
    then have room: "unat (rb_size r) - 1 - length xs = 0" by simp
    have "ring_rep (r\<lparr>rb_full := True\<rparr>) xs" using Suc.prems(1) by (simp add: ring_rep_def)
    with ring_push_step_rep [OF Suc.prems(1) i] False show ?thesis by (simp add: room)
  qed
qed

lemma ring_pop_loop_rep:
  "ring_rep r xs \<Longrightarrow> \<exists>r'. ring_pop_loop n r = Some (take n xs, r') \<and> ring_rep r' (drop n xs) \<and> rb_size r' = rb_size r"
proof (induction n arbitrary: r xs)
  case (Suc n)
  show ?case
  proof (cases xs)
    case Nil
    with ring_empty_iff [OF Suc.prems] Suc.prems show ?thesis by simp
  next
    case (Cons y ys)
    let ?rp = "if readpoint r = rb_size r - 1 then 0 else readpoint r + 1"
    have y: "ring_rep (r\<lparr>readpoint := ?rp\<rparr>) ys" "buf_get (rb_buffer r) (unat ?rp) = Some y"
      using ring_pop_rep [of r y ys] Suc.prems by (simp_all only: Cons)
    obtain r' where r': "ring_pop_loop n (r\<lparr>readpoint := ?rp\<rparr>) = Some (take n ys, r')" "ring_rep r' (drop n ys)" "rb_size r' = rb_size r"
      using Suc.IH [OF y(1)] by auto
    have ne: "writepoint r \<noteq> readpoint r" using ring_empty_iff [OF Suc.prems] Cons by simp
    have "ring_pop_loop (Suc n) r = Some (y # take n ys, r')"
      unfolding ring_pop_loop.simps Let_def if_not_P [OF ne] y(2) Option.bind.simps r'(1) prod.case ..
    with r' show ?thesis by (simp add: Cons)
  qed
qed simp

section \<open>The ring buffer as a queue of bytes\<close>

definition ring_put :: "u8 \<Rightarrow> sRingbuff \<Rightarrow> sRingbuff option" where
  "ring_put x r = (case ring_buff_push_data [x] 1 r of Some (rc, r) \<Rightarrow> if rc = RINGBUFF_OK then Some r else None | None \<Rightarrow> None)"

definition ring_get :: "sRingbuff \<Rightarrow> (u8 \<times> sRingbuff) option" where
  "ring_get r = (case ring_buff_pop_data 1 r of Some (n, [x], r) \<Rightarrow> Some (x, r) | _ \<Rightarrow> None)"

definition ring_room :: "sRingbuff \<Rightarrow> u8 list \<Rightarrow> u8 list \<Rightarrow> bool" where
  "ring_room r xs ys \<longleftrightarrow> length (xs @ ys) < unat (rb_size r)"

lemma ring_len_1: "ring_rep r xs \<Longrightarrow> \<not> 1 > rb_size r"
  by (auto simp: ring_rep_def word_less_nat_alt)

interpretation ring_queue: queue ring_rep ring_room ring_put ring_get
proof
  fix r xs y ys
  assume rep: "ring_rep r xs" and room: "ring_room r xs (y # ys)"
  have "length xs + 1 < unat (rb_size r)" using room by (simp add: ring_room_def)
  then obtain r' where "ring_push_loop 1 [y] 0 r = Some (RINGBUFF_OK, r')" "ring_rep r' (xs @ [y])" "rb_size r' = rb_size r"
    using ring_push_loop_rep [OF rep, of 0 1 "[y]"] by (auto simp del: ring_push_loop.simps One_nat_def)
  then show "\<exists>s'. ring_put y r = Some s' \<and> ring_rep s' (xs @ [y]) \<and> ring_room s' (xs @ [y]) ys"
    using room ring_len_1 [OF rep] by (auto simp: ring_put_def ring_buff_push_data_def ring_room_def)
next
  fix r x xs
  assume rep: "ring_rep r (x # xs)"
  from ring_pop_loop_rep [OF this, of "Suc 0"] ring_len_1 [OF this]
  show "\<exists>s'. ring_get r = Some (x, s') \<and> ring_rep s' xs"
    by (auto simp: ring_get_def ring_buff_pop_data_def simp del: ring_pop_loop.simps)
qed

section \<open>Properties\<close>

text \<open>
  C24: The ring buffer implements a bounded queue of bytes: of the bytes pushed, as many are kept as fit
  into one less than its size, in order and without touching memory outside the arrays; the result says
  whether all did. What a pop delivers are the oldest bytes, at most as many as asked for. Lengths above
  the size are refused and change nothing.
\<close>

theorem ring_implements_queue:
  assumes "ring_rep r xs" and "0 \<le> sint len"
  shows "(unat len \<le> unat (rb_size r) \<longrightarrow> unat len \<le> length d \<longrightarrow>
       (\<exists>r'. ring_buff_push_data d len r = Some (if length xs + unat len < unat (rb_size r) then RINGBUFF_OK else RINGBUFF_FULL, r') \<and>
          ring_rep r' (take (unat (rb_size r) - 1) (xs @ take (unat len) d)))) \<and>
     (unat len \<le> unat (rb_size r) \<longrightarrow>
       (\<exists>r'. ring_buff_pop_data len r = Some (int (min (unat len) (length xs)), take (unat len) xs, r') \<and> ring_rep r' (drop (unat len) xs))) \<and>
     (unat (rb_size r) < unat len \<longrightarrow>
       ring_buff_push_data d len r = Some (RINGBUFF_TOO_SHORT, r) \<and> ring_buff_pop_data len r = Some (RINGBUFF_TOO_SHORT, [], r))"
proof -
  have n: "nat (sint len) = unat len" by (rule nat_sint [OF assms(2)])
  have xs: "length xs \<le> unat (rb_size r) - 1" using assms(1) by (auto simp: ring_rep_def)
  show ?thesis
    using ring_push_loop_rep [OF assms(1), of 0 "unat len" d] ring_pop_loop_rep [OF assms(1), of "unat len"] xs
    by (auto simp: ring_buff_push_data_def ring_buff_pop_data_def n word_less_nat_alt)
qed

theorem ring_implements_queue_witness:
  "\<exists>r r'. ring_buff_init [7, 7, 7] 3 = Some (0, r) \<and> ring_buff_push_data [1, 2, 3] 3 r = Some (RINGBUFF_FULL, r') \<and> ring_rep r' [1, 2]"
proof -
  let ?r = "\<lparr>rb_size = 3, readpoint = 0, writepoint = 0, rb_buffer = [0, 0, 0], rb_full = False\<rparr>"
  have i: "ring_buff_init [7, 7, 7] 3 = Some (0, ?r)" by (simp add: ring_buff_init_def zero_bytes_def buf_write_def) (simp add: numeral_3_eq_3)
  have "ring_rep ?r []" by (simp add: ring_rep_def)
  from ring_implements_queue [OF this, of 3 "[1, 2, 3]"] i show ?thesis by auto
qed

end
