(* ===== verification/Utils_Json.thy ===== *)
theory Utils_Json
  imports Hal_Model
begin

text \<open>
  The JSON reader of \<^verbatim>\<open>sdk_src/utils/json_parser.c\<close> and \<^verbatim>\<open>json_token.c\<close>, by which the services take
  apart the messages of the cloud: it scans the text for the next member and its value without building
  a tree. Its loop over the members is a function whose termination proof shows that every turn
  moves forward; a read outside the string has no result.
\<close>

section \<open>Pointers into a string\<close>

text \<open>
  A pointer into a string is the rest of the string from there; the empty rest is the pointer to the
  terminating zero. Besides these there are the null pointer and the pointer behind the zero, which
  C allows to compute but not to read.
\<close>

datatype ptr = Null | At cstring | Past

definition strchr :: "u8 \<Rightarrow> cstring \<Rightarrow> cstring option" where
  "strchr c s = (case dropWhile (\<lambda>x. x \<noteq> c) s of [] \<Rightarrow> None | r \<Rightarrow> Some r)"

definition deref :: "cstring \<Rightarrow> u8" where
  "deref s = (case s of [] \<Rightarrow> 0 | c # _ \<Rightarrow> c)"

definition advance :: "nat \<Rightarrow> cstring \<Rightarrow> ptr" where
  "advance n s = (if n \<le> length s then At (drop n s) else Past)"

definition has_prefix :: "cstring \<Rightarrow> cstring \<Rightarrow> bool" where
  "has_prefix p s \<longleftrightarrow> take (length p) s = p"

section \<open>Reading the next member\<close>

datatype JSONTYPE = JSNONE | JSSTRING | JSOBJECT | JSARRAY | JSNUMBER | JSBOOLEAN | JSNULL

text \<open>The characters the reader looks for.\<close>

abbreviation (input) chr_space :: u8 where "chr_space \<equiv> 0x20"
abbreviation (input) chr_quote :: u8 where "chr_quote \<equiv> 0x22"
abbreviation (input) chr_minus :: u8 where "chr_minus \<equiv> 0x2D"
abbreviation (input) chr_dot :: u8 where "chr_dot \<equiv> 0x2E"
abbreviation (input) chr_colon :: u8 where "chr_colon \<equiv> 0x3A"
abbreviation (input) chr_backslash :: u8 where "chr_backslash \<equiv> 0x5C"
abbreviation (input) chr_lbracket :: u8 where "chr_lbracket \<equiv> 0x5B"
abbreviation (input) chr_rbracket :: u8 where "chr_rbracket \<equiv> 0x5D"
abbreviation (input) chr_lbrace :: u8 where "chr_lbrace \<equiv> 0x7B"
abbreviation (input) chr_rbrace :: u8 where "chr_rbrace \<equiv> 0x7D"

definition is_digit :: "u8 \<Rightarrow> bool" where
  "is_digit c \<longleftrightarrow> 0x30 \<le> c \<and> c \<le> 0x39"

text \<open>The rows of \<^verbatim>\<open>JsonMark\<close> that are reached: strings, objects and arrays.\<close>

definition mark_open :: "JSONTYPE \<Rightarrow> u8" where
  "mark_open ty = (case ty of JSSTRING \<Rightarrow> chr_quote | JSOBJECT \<Rightarrow> chr_lbrace | JSARRAY \<Rightarrow> chr_lbracket | _ \<Rightarrow> 0x30)"

definition mark_close :: "JSONTYPE \<Rightarrow> u8" where
  "mark_close ty = (case ty of JSSTRING \<Rightarrow> chr_quote | JSOBJECT \<Rightarrow> chr_rbrace | JSARRAY \<Rightarrow> chr_rbracket | _ \<Rightarrow> chr_space)"

fun json_get_object :: "JSONTYPE \<Rightarrow> cstring \<Rightarrow> cstring option" where
  "json_get_object ty [] = None"
| "json_get_object ty (c # s) =
     (if c = chr_space then json_get_object ty s
      else if c = (if ty = JSOBJECT then chr_lbrace else chr_lbracket) then Some (c # s) else None)"

text \<open>The first loop: the type, the value, the position after it and the last character seen.\<close>

fun json_value_start :: "cstring \<Rightarrow> JSONTYPE \<times> cstring option \<times> cstring \<times> u8" where
  "json_value_start [] = (JSNONE, None, [], chr_space)"
| "json_value_start (c # s) =
     (if c = chr_quote then (JSSTRING, Some s, s, c)
      else if c = chr_lbrace then (JSOBJECT, Some (c # s), s, chr_space)
      else if c = chr_lbracket then (JSARRAY, Some (c # s), s, chr_space)
      else if c = chr_minus \<or> is_digit c then (JSNUMBER, Some (c # s), s, chr_space)
      else if c = 0x74 \<or> c = 0x54 \<or> c = 0x66 \<or> c = 0x46 then (JSBOOLEAN, Some (c # s), c # s, chr_space)
      else if c = 0x6E \<or> c = 0x4E then (JSNULL, Some (c # s), c # s, chr_space)
      else json_value_start s)"

text \<open>The length of a word, if the value starts with it.\<close>

definition json_word :: "JSONTYPE \<Rightarrow> cstring \<Rightarrow> nat option" where
  "json_word ty v =
     (if ty = JSBOOLEAN \<and> (has_prefix (cstr ''true'') v \<or> has_prefix (cstr ''TRUE'') v) then Some 4
      else if ty = JSBOOLEAN \<and> (has_prefix (cstr ''false'') v \<or> has_prefix (cstr ''FALSE'') v) then Some 5
      else if ty = JSNULL \<and> (has_prefix (cstr ''null'') v \<or> has_prefix (cstr ''NULL'') v) then Some 4
      else None)"

text \<open>
  The second loop: the length of the value \<open>v\<close>. The arguments are the nesting depth, the last character,
  the length so far and the position.
\<close>

fun json_value_len :: "JSONTYPE \<Rightarrow> cstring \<Rightarrow> nat \<Rightarrow> u8 \<Rightarrow> nat \<Rightarrow> cstring \<Rightarrow> nat" where
  "json_value_len ty v depth lastchr len [] = len"
| "json_value_len ty v depth lastchr len (c # s) =
     (if ty = JSBOOLEAN \<or> ty = JSNULL then
        (case json_word ty v of Some n \<Rightarrow> n | None \<Rightarrow> json_value_len ty v depth c len s)
      else if ty = JSNUMBER then
        if \<not> is_digit c \<and> c \<noteq> chr_dot then length v - length (c # s)
        else json_value_len ty v depth c len s
      else if c = mark_close ty then
        if depth = 0 then
          let len = length v - length (c # s) + (if ty = JSSTRING then 0 else 1)
          in if ty = JSSTRING \<and> lastchr = chr_backslash then json_value_len ty v depth (deref s) len s else len
        else json_value_len ty v (depth - 1) c len s
      else if c = mark_open ty then json_value_len ty v (depth + 1) c len s
      else json_value_len ty v depth c len s)"

record json_item =
  ji_key :: cstring
  ji_key_len :: nat
  ji_val :: "cstring option"
  ji_val_len :: nat
  ji_val_type :: JSONTYPE

text \<open>From the position where the value is looked for to the end of the function.\<close>

definition json_value :: "cstring \<Rightarrow> nat \<Rightarrow> cstring option \<Rightarrow> ptr \<times> json_item option" where
  "json_value key key_len pos =
     (let (ty, v, p, lastchr) = (case pos of None \<Rightarrow> (JSNONE, None, [], chr_space) | Some s \<Rightarrow> json_value_start s)
      in case v of
           None \<Rightarrow> (Null, Some \<lparr>ji_key = key, ji_key_len = key_len, ji_val = None, ji_val_len = 0, ji_val_type = ty\<rparr>)
         | Some v \<Rightarrow>
             let len = json_value_len ty v 0 lastchr 0 p
             in (advance (if ty = JSSTRING then len + 1 else len) v,
                 Some \<lparr>ji_key = key, ji_key_len = key_len, ji_val = Some v, ji_val_len = len, ji_val_type = ty\<rparr>))"

text \<open>The pointer returned and, where the function stores them, the key and the value. For an array there is no key.\<close>

definition json_get_next_object :: "JSONTYPE \<Rightarrow> cstring \<Rightarrow> ptr \<times> json_item option" where
  "json_get_next_object ty str =
     (if ty = JSOBJECT then
        (case strchr chr_quote str of
           None \<Rightarrow> (Null, None)
         | Some p \<Rightarrow>
             let name = tl p
             in case strchr chr_quote name of
                  None \<Rightarrow> (Null, None)
                | Some q \<Rightarrow> json_value name (length name - length q) (strchr chr_colon q))
      else json_value [] 0 (Some str))"

section \<open>Termination of the loop over the members\<close>

lemma strchr_length: "strchr c s = Some r \<Longrightarrow> length r \<le> length s \<and> r \<noteq> []"
  using length_dropWhile_le [of "\<lambda>x. x \<noteq> c" s] by (cases "dropWhile (\<lambda>x. x \<noteq> c) s") (auto simp: strchr_def)

lemma value_start_length: "json_value_start s = (ty, Some v, p, lc) \<Longrightarrow> length v \<le> length s"
proof (induction s)
  case (Cons c s)
  then show ?case by (auto split: if_splits)
qed simp

lemma json_value_length: "json_value k n pos = (At r, it) \<Longrightarrow> \<exists>s. pos = Some s \<and> length r \<le> length s"
  by (force simp: json_value_def advance_def Let_def split: option.splits prod.splits if_splits dest: value_start_length)

lemma next_object_length:
  assumes "json_get_next_object JSOBJECT s = (At r, it)"
  shows "length r < length s"
proof -
  from assms obtain p q t where p: "strchr chr_quote s = Some p" and q: "strchr chr_quote (tl p) = Some q"
    and t: "strchr chr_colon q = Some t" "length r \<le> length t"
    by (auto simp: json_get_next_object_def Let_def split: option.splits dest!: json_value_length)
  have "length t \<le> length (tl p)" using strchr_length [OF q] strchr_length [OF t(1)] by simp
  moreover have "length p \<le> length s" "p \<noteq> []" using strchr_length [OF p] by simp_all
  ultimately show ?thesis using t(2) by (cases p) auto
qed

section \<open>Looking up a name\<close>

datatype JSON_PARSE_CODE = JSON_PARSE_ERR | JSON_PARSE_OK | JSON_PARSE_FINISH

abbreviation (input) JSON_RESULT_ERR :: int where "JSON_RESULT_ERR \<equiv> -1"
abbreviation (input) JSON_RESULT_OK :: int where "JSON_RESULT_OK \<equiv> 0"

type_synonym 'd json_parse_cb = "cstring \<Rightarrow> nat \<Rightarrow> cstring \<Rightarrow> nat \<Rightarrow> JSONTYPE \<Rightarrow> 'd \<Rightarrow> JSON_PARSE_CODE \<times> 'd"

text \<open>
  The body of the loop over the members: the result, the data of the callback and whether to go on.
\<close>

definition json_kv_body :: "'d json_parse_cb \<Rightarrow> json_item option \<Rightarrow> int \<Rightarrow> 'd \<Rightarrow> int \<times> 'd \<times> bool" where
  "json_kv_body cb it ret d =
     (case it of
        Some i \<Rightarrow>
          (case ji_val i of
             Some v \<Rightarrow>
               if ji_key_len i \<noteq> 0 \<and> ji_val_len i \<noteq> 0
               then let (code, d) = cb (ji_key i) (ji_key_len i) v (ji_val_len i) (ji_val_type i) d
                    in (JSON_RESULT_OK, d, code \<noteq> JSON_PARSE_FINISH)
               else (ret, d, True)
           | None \<Rightarrow> (ret, d, True))
      | None \<Rightarrow> (ret, d, True))"

function json_kv_loop :: "'d json_parse_cb \<Rightarrow> cstring \<Rightarrow> int \<Rightarrow> 'd \<Rightarrow> (int \<times> 'd) option" where
  "json_kv_loop cb pos ret d =
     (if pos = [] then Some (ret, d)
      else let (next_pos, it) = json_get_next_object JSOBJECT pos
           in if next_pos = Null then Some (ret, d)
              else let (ret, d, more) = json_kv_body cb it ret d
                   in if \<not> more then Some (ret, d)
                      else case next_pos of At r \<Rightarrow> json_kv_loop cb r ret d | _ \<Rightarrow> None)"
  by pat_completeness auto
termination
  by (relation "measure (\<lambda>(cb, pos, ret, d). length pos)") (auto dest: next_object_length [OF sym])

declare json_kv_loop.simps [simp del]

text \<open>
  The third result is the string afterwards. A length other than that of the string makes the function
  overwrite the character there with a zero. The test that is to put it back compares the length with the
  string as shortened, which does not differ from it any more.
\<close>

definition json_parse_name_value ::
  "cstring option \<Rightarrow> nat \<Rightarrow> 'd json_parse_cb \<Rightarrow> 'd \<Rightarrow> (int \<times> 'd \<times> cstring option) option" where
  "json_parse_name_value p_cJsonStr iStrLen cb d =
     (case p_cJsonStr of
        None \<Rightarrow> Some (JSON_RESULT_ERR, d, None)
      | Some s \<Rightarrow>
          if iStrLen = 0 then Some (JSON_RESULT_ERR, d, Some s)
          else if iStrLen > length s then None
          else do {
            let last_char = (if iStrLen \<noteq> length s then s ! iStrLen else 0);
            let s' = take iStrLen s;
            (ret, d) \<leftarrow> (case json_get_object JSOBJECT s' of
                          None \<Rightarrow> Some (JSON_RESULT_ERR, d)
                        | Some pos \<Rightarrow> json_kv_loop cb pos JSON_RESULT_ERR d);
            Some (ret, d, Some (if iStrLen \<noteq> length s' then s'[iStrLen := last_char] else s'))
          })"

record JSON_NV =
  nv_vLen :: nat
  nv_vType :: "JSONTYPE"
  nv_pN :: cstring
  nv_pV :: "cstring option"

definition json_get_value_by_name_cb :: "JSON_NV json_parse_cb" where
  "json_get_value_by_name_cb key klen v vlen vtype nv =
     (if klen = length (nv_pN nv) \<and> take (length (nv_pN nv)) key = nv_pN nv
      then (JSON_PARSE_FINISH, nv\<lparr>nv_pV := Some v, nv_vLen := vlen, nv_vType := vtype\<rparr>)
      else (JSON_PARSE_OK, nv))"

text \<open>
  The value, its length and type. The zeroed structure stands for type \<^verbatim>\<open>JSSTRING\<close>. \<open>typed\<close> says whether the
  caller asks for the type: then a null value gives the null pointer.
\<close>

definition json_get_value_by_name ::
  "cstring \<Rightarrow> nat \<Rightarrow> cstring \<Rightarrow> bool \<Rightarrow> (cstring option \<times> nat \<times> JSONTYPE) option" where
  "json_get_value_by_name s n name typed = do {
     (rc, nv, s') \<leftarrow> json_parse_name_value (Some s) n json_get_value_by_name_cb
                      \<lparr>nv_vLen = 0, nv_vType = JSSTRING, nv_pN = name, nv_pV = None\<rparr>;
     let pV = (if rc = JSON_RESULT_OK \<and> typed \<and> nv_vType nv = JSNULL then None else nv_pV nv);
     Some (pV, nv_vLen nv, nv_vType nv)
   }"

section \<open>Values by path\<close>

text \<open>
  \<^verbatim>\<open>LITE_json_value_of\<close>: a copy of the value, or \<open>None\<close> inside for the null pointer. The first allocation in a
  turn of the loop is not checked: a null pointer is written through there. The rest of the string, not
  only the value found so far, is searched for the next name of the path.
\<close>

function LITE_json_value_of :: "'w os \<Rightarrow> cstring \<Rightarrow> cstring \<Rightarrow> 'w \<Rightarrow> (cstring option \<times> 'w) option" where
  "LITE_json_value_of os key src w =
     (case strchr chr_dot key of
        Some delim \<Rightarrow>
          let (key_next, w) = os_malloc os w
          in if key_next = None then None
             else do {
               (v, value_len, ty) \<leftarrow> json_get_value_by_name src (length src) (take (length key - length delim) key) False;
               (case v of None \<Rightarrow> Some (None, w) | Some v \<Rightarrow> LITE_json_value_of os (tl delim) v w)
             }
      | None \<Rightarrow> do {
          (v, value_len, ty) \<leftarrow> json_get_value_by_name src (length src) key False;
          (case v of
             None \<Rightarrow> Some (None, w)
           | Some v \<Rightarrow> let (ret, w) = os_malloc os w
                       in Some (if ret = None then None else Some (take value_len v), w))
        })"
  by pat_completeness auto
termination
proof (relation "measure (\<lambda>(os, key, src, w). length key)", simp, goal_cases)
  case (1 os key src w delim x xa y xb v xc xd ya z)
  then show ?case using strchr_length [of chr_dot key delim] by (cases delim) auto
qed

declare LITE_json_value_of.simps [simp del]

text \<open>
  \<^verbatim>\<open>LITE_string_strip_char\<close> and its twin \<^verbatim>\<open>LITE_str_strip_char\<close>, on the array that holds the string;
  \<open>end_pos\<close> is the pointer \<^verbatim>\<open>end\<close>.
\<close>

function strip_loop :: "u8 \<Rightarrow> nat \<Rightarrow> nat \<Rightarrow> u8 list \<Rightarrow> u8 list option" where
  "strip_loop ch pos end_pos a =
     (if pos < length a
      then if a ! pos = 0 then Some a
           else if a ! pos = ch
           then do {
             moved \<leftarrow> buf_read a (pos + 1) (end_pos - pos);
             a \<leftarrow> buf_write a pos moved;
             strip_loop ch (pos + 1) (end_pos - 1) a
           }
           else strip_loop ch (pos + 1) end_pos a
      else None)"
  by pat_completeness auto
termination
  by (relation "measure (\<lambda>(ch, pos, end_pos, a). length a - pos)") (auto simp: buf_read_def buf_write_def split: if_splits)

declare strip_loop.simps [simp del]

definition LITE_string_strip_char :: "u8 list \<Rightarrow> u8 \<Rightarrow> u8 list option" where
  "LITE_string_strip_char a ch = do { s \<leftarrow> c_string a; strip_loop ch 0 (length s + 1) a }"

definition LITE_json_string_value_strip_transfer :: "'w os \<Rightarrow> cstring \<Rightarrow> cstring \<Rightarrow> 'w \<Rightarrow> (cstring option \<times> 'w) option" where
  "LITE_json_string_value_strip_transfer os key src w = do {
     (str, w) \<leftarrow> LITE_json_value_of os key src w;
     (case str of
        None \<Rightarrow> Some (None, w)
      | Some s \<Rightarrow> do { a \<leftarrow> LITE_string_strip_char (s @ [0]) chr_backslash; s \<leftarrow> c_string a; Some (Some s, w) })
   }"

definition LITE_get_boolean :: "cstring \<Rightarrow> bool" where
  "LITE_get_boolean src \<longleftrightarrow> src \<noteq> cstr ''false''"

text \<open>\<^verbatim>\<open>LITE_get_string\<close>: \<^verbatim>\<open>strncpy\<close> into the array \<open>value\<close>, zero bytes filling it up to \<open>max_len\<close>.\<close>

definition LITE_get_string :: "u8 list \<Rightarrow> cstring \<Rightarrow> nat \<Rightarrow> u8 list option" where
  "LITE_get_string dst src max_len = do {
     v \<leftarrow> buf_write dst 0 (take max_len src @ replicate (max_len - length src) 0);
     buf_put v (min (length src) max_len) 0
   }"

section \<open>Faults\<close>

lemma strip_loop_reads_past:
  assumes "ch \<notin> set xs" and "0 \<notin> set (xs @ ch # ys)" and "ch \<noteq> 0"
  shows "i \<le> length xs \<Longrightarrow> strip_loop ch i (length (xs @ ch # ys) + 1) ((xs @ ch # ys) @ [0]) = None"
proof (induction "length xs - i" arbitrary: i)
  case 0
  then have i: "i = length xs" by simp
  show ?case using assms by (subst strip_loop.simps) (simp add: i buf_read_def nth_append)
next
  case (Suc n)
  let ?a = "(xs @ ch # ys) @ [0]"
  have i: "i < length xs" using Suc.hyps(2) by simp
  have "?a ! i = xs ! i" using i by (simp add: nth_append)
  moreover have "xs ! i \<noteq> ch" "xs ! i \<noteq> 0" using assms i by (auto dest!: nth_mem)
  ultimately have "strip_loop ch i (length (xs @ ch # ys) + 1) ?a = strip_loop ch (i + 1) (length (xs @ ch # ys) + 1) ?a"
    using i by (subst strip_loop.simps) simp
  also have "\<dots> = None" using Suc.hyps i by (intro Suc.hyps(1)) auto
  finally show ?case .
qed

section \<open>JSON texts\<close>

text \<open>
  JSON values and their text without blanks, against which the reader is checked. The reader does not
  understand escapes, nor brackets inside strings, so the strings are free of them.
\<close>

datatype json = JStr cstring | JNum cstring | JBool bool | JNil | JObj "(cstring \<times> json) list" | JArr "json list"

fun sep :: "cstring list \<Rightarrow> cstring" where
  "sep [] = []"
| "sep [x] = x"
| "sep (x # xs) = x @ 0x2C # sep xs"

fun json_text :: "json \<Rightarrow> cstring" where
  "json_text (JStr s) = chr_quote # s @ [chr_quote]"
| "json_text (JNum s) = s"
| "json_text (JBool b) = (if b then cstr ''true'' else cstr ''false'')"
| "json_text JNil = cstr ''null''"
| "json_text (JObj kvs) = chr_lbrace # sep (map (\<lambda>(k, v). chr_quote # k @ chr_quote # chr_colon # json_text v) kvs) @ [chr_rbrace]"
| "json_text (JArr vs) = chr_lbracket # sep (map json_text vs) @ [chr_rbracket]"

definition plain :: "cstring \<Rightarrow> bool" where
  "plain s \<longleftrightarrow> set s \<inter> {0, chr_quote, chr_backslash, chr_lbrace, chr_rbrace, chr_lbracket, chr_rbracket} = {}"

fun json_ok :: "json \<Rightarrow> bool" where
  "json_ok (JStr s) = plain s"
| "json_ok (JNum s) \<longleftrightarrow> s \<noteq> [] \<and> (hd s = chr_minus \<or> is_digit (hd s)) \<and> (\<forall>c \<in> set (tl s). is_digit c \<or> c = chr_dot)"
| "json_ok (JBool b) = True"
| "json_ok JNil = True"
| "json_ok (JObj kvs) \<longleftrightarrow> (\<forall>(k, v) \<in> set kvs. k \<noteq> [] \<and> plain k \<and> json_ok v)"
| "json_ok (JArr vs) \<longleftrightarrow> (\<forall>v \<in> set vs. json_ok v)"

text \<open>What a caller gets for a value: its type and its text, for a string without the quotes.\<close>

fun json_type :: "json \<Rightarrow> JSONTYPE" where
  "json_type (JStr s) = JSSTRING" | "json_type (JNum s) = JSNUMBER" | "json_type (JBool b) = JSBOOLEAN"
| "json_type JNil = JSNULL" | "json_type (JObj kvs) = JSOBJECT" | "json_type (JArr vs) = JSARRAY"

definition json_content :: "json \<Rightarrow> cstring" where
  "json_content v = (case v of JStr s \<Rightarrow> s | _ \<Rightarrow> json_text v)"

section \<open>Skipping a nested value\<close>

definition skips :: "JSONTYPE \<Rightarrow> cstring \<Rightarrow> bool" where
  "skips ty xs \<longleftrightarrow> (\<forall>v d lc len rest. json_value_len ty v d lc len (xs @ rest) = json_value_len ty v d 0 len rest)"

lemma nested_last:
  assumes "ty = JSOBJECT \<or> ty = JSARRAY"
  shows "json_value_len ty v d lc len s = json_value_len ty v d 0 len s"
  using assms by (cases s) auto

lemma skips_Nil: "ty = JSOBJECT \<or> ty = JSARRAY \<Longrightarrow> skips ty []"
  unfolding skips_def append_Nil by (intro allI nested_last)

lemma skips_append: "skips ty xs \<Longrightarrow> skips ty ys \<Longrightarrow> skips ty (xs @ ys)"
  by (simp add: skips_def)

lemma skips_Cons: "ty = JSOBJECT \<or> ty = JSARRAY \<Longrightarrow> c \<noteq> mark_open ty \<Longrightarrow> c \<noteq> mark_close ty \<Longrightarrow> skips ty xs \<Longrightarrow> skips ty (c # xs)"
  by (auto simp: skips_def)

lemma skips_other: "ty = JSOBJECT \<or> ty = JSARRAY \<Longrightarrow> mark_open ty \<notin> set xs \<Longrightarrow> mark_close ty \<notin> set xs \<Longrightarrow> skips ty xs"
  by (induction xs) (auto intro: skips_Nil skips_Cons)

lemma skips_bracket:
  assumes ty: "ty = JSOBJECT \<or> ty = JSARRAY" and "skips ty xs"
  shows "skips ty (mark_open ty # xs @ [mark_close ty])"
  unfolding skips_def
proof (intro allI)
  fix v d lc len rest
  have "mark_open ty \<noteq> mark_close ty" using ty by (auto simp: mark_open_def mark_close_def)
  then have "json_value_len ty v d lc len ((mark_open ty # xs @ [mark_close ty]) @ rest) = json_value_len ty v d (mark_close ty) len rest"
    using assms by (auto simp: skips_def)
  also have "\<dots> = json_value_len ty v d 0 len rest" by (rule nested_last [OF ty])
  finally show "json_value_len ty v d lc len ((mark_open ty # xs @ [mark_close ty]) @ rest) = json_value_len ty v d 0 len rest" .
qed

lemma skips_sep: "ty = JSOBJECT \<or> ty = JSARRAY \<Longrightarrow> (\<forall>x \<in> set xs. skips ty x) \<Longrightarrow> skips ty (sep xs)"
  by (induction xs rule: sep.induct)
    (auto intro!: skips_Nil skips_append skips_Cons simp: mark_open_def mark_close_def)

lemma skips_plain: "ty = JSOBJECT \<or> ty = JSARRAY \<Longrightarrow> plain s \<Longrightarrow> skips ty s"
  by (rule skips_other) (auto simp: plain_def mark_open_def mark_close_def)

lemma digits_other:
  assumes "hd s = chr_minus \<or> is_digit (hd s)" and "\<forall>c \<in> set (tl s). is_digit c \<or> c = chr_dot" and "s \<noteq> []"
  shows "chr_lbrace \<notin> set s" "chr_rbrace \<notin> set s" "chr_lbracket \<notin> set s" "chr_rbracket \<notin> set s"
  using assms by (cases s; auto simp: is_digit_def)+

definition json_members :: "(cstring \<times> json) list \<Rightarrow> cstring" where
  "json_members kvs = sep (map (\<lambda>(k, v). chr_quote # k @ chr_quote # chr_colon # json_text v) kvs)"

lemma json_text_JObj: "json_text (JObj kvs) = chr_lbrace # json_members kvs @ [chr_rbrace]"
  by (simp add: json_members_def)

lemma skips_members:
  assumes ty: "ty = JSOBJECT \<or> ty = JSARRAY" and "\<forall>(k, v) \<in> set kvs. plain k \<and> skips ty (json_text v)"
  shows "skips ty (json_members kvs)"
proof -
  have "skips ty (chr_quote # k @ chr_quote # chr_colon # json_text v)" if "(k, v) \<in> set kvs" for k v
    using ty assms(2) that skips_plain [OF ty, of k] by (auto intro!: skips_Cons skips_append simp: mark_open_def mark_close_def)
  then show ?thesis unfolding json_members_def using ty by (intro skips_sep) auto
qed

lemma skips_text:
  assumes ty: "ty = JSOBJECT \<or> ty = JSARRAY"
  shows "json_ok v \<Longrightarrow> skips ty (json_text v)"
proof (induction v)
  case (JStr s)
  have "skips ty (s @ [chr_quote])"
    using ty JStr by (intro skips_append skips_plain skips_Cons skips_Nil) (auto simp: mark_open_def mark_close_def)
  with ty show ?case by (auto intro!: skips_Cons simp: mark_open_def mark_close_def)
next
  case (JNum s)
  show ?case
    using ty digits_other [of s] JNum by (auto intro!: skips_other simp: mark_open_def mark_close_def)
next
  case (JBool b)
  with ty show ?case by (auto intro!: skips_other simp: mark_open_def mark_close_def cstr_def)
next
  case JNil
  with ty show ?case by (auto intro!: skips_other simp: mark_open_def mark_close_def cstr_def)
next
  case (JObj kvs)
  have "skips ty (json_text v)" if "(k, v) \<in> set kvs" for k v
    using JObj.prems that by (intro JObj.IH [OF that]) auto
  then have inner: "skips ty (json_members kvs)"
    using JObj.prems by (intro skips_members [OF ty]) auto
  from ty show ?case
  proof
    assume "ty = JSOBJECT"
    with skips_bracket [OF ty inner] show ?thesis unfolding json_text_JObj by (simp add: mark_open_def mark_close_def)
  next
    assume "ty = JSARRAY"
    with ty inner show ?thesis unfolding json_text_JObj
      by (auto intro!: skips_Cons skips_append skips_Nil simp: mark_open_def mark_close_def)
  qed
next
  case (JArr vs)
  have inner: "skips ty (sep (map json_text vs))" using ty JArr by (intro skips_sep) auto
  from ty show ?case
  proof
    assume "ty = JSARRAY"
    with skips_bracket [OF ty inner] show ?thesis by (simp add: mark_open_def mark_close_def)
  next
    assume "ty = JSOBJECT"
    with ty inner show ?thesis
      by (auto intro!: skips_Cons skips_append skips_Nil simp: mark_open_def mark_close_def)
  qed
qed

section \<open>Reading a value\<close>

lemma string_len:
  "plain s \<Longrightarrow> lc \<noteq> chr_backslash \<Longrightarrow> json_value_len JSSTRING v 0 lc len (s @ chr_quote # rest) = length v - Suc (length rest)"
  by (induction s arbitrary: lc) (auto simp: mark_close_def mark_open_def plain_def)

lemma number_len:
  "\<forall>c \<in> set s. is_digit c \<or> c = chr_dot \<Longrightarrow> \<not> is_digit c \<Longrightarrow> c \<noteq> chr_dot \<Longrightarrow>
   json_value_len JSNUMBER v d lc len (s @ c # rest) = length v - Suc (length rest)"
  by (induction s arbitrary: lc) auto

lemma not_digits [simp]:
  "\<not> is_digit chr_quote" "\<not> is_digit chr_colon" "\<not> is_digit chr_lbrace" "\<not> is_digit chr_rbrace" "\<not> is_digit chr_lbracket"
  "\<not> is_digit chr_rbracket" "\<not> is_digit 0x2C"
  by (simp_all add: is_digit_def)

lemma nested_len:
  assumes "ty = JSOBJECT \<or> ty = JSARRAY" and "skips ty xs" and "length rest < length v"
  shows "json_value_len ty v 0 lc len (xs @ mark_close ty # rest) = length v - length rest"
  using assms by (auto simp: skips_def mark_close_def Suc_diff_Suc)

text \<open>The reader on the text of a value that is followed by a comma or a closing brace.\<close>

lemma json_value_text:
  assumes ok: "json_ok v" and c: "\<not> is_digit c" "c \<noteq> chr_dot"
  shows "\<exists>p r. json_value key n (Some (chr_colon # json_text v @ c # rest)) =
     (At (c # rest), Some \<lparr>ji_key = key, ji_key_len = n, ji_val = Some p, ji_val_len = length (json_content v), ji_val_type = json_type v\<rparr>) \<and>
     p = json_content v @ r"
proof (cases v)
  case (JStr s)
  with ok show ?thesis
    using string_len [of s chr_quote "s @ chr_quote # c # rest" 0 "c # rest"]
    by (simp add: json_value_def json_content_def advance_def)
next
  case (JNum s)
  then obtain a t where s: "s = a # t" and a: "a = chr_minus \<or> is_digit a" and t: "\<forall>c \<in> set t. is_digit c \<or> c = chr_dot"
    using ok by (cases s) auto
  have "a \<noteq> chr_quote" "a \<noteq> chr_lbrace" "a \<noteq> chr_lbracket" using a by (auto simp: is_digit_def)
  with a number_len [OF t c, of "a # t @ c # rest" 0 _ 0] show ?thesis
    by (simp add: json_value_def json_content_def advance_def JNum s is_digit_def [of chr_colon])
next
  case (JBool b)
  then show ?thesis
    by (cases b) (simp_all add: json_value_def json_content_def advance_def is_digit_def cstr_def json_word_def has_prefix_def)
next
  case JNil
  then show ?thesis
    by (simp add: json_value_def json_content_def advance_def is_digit_def cstr_def json_word_def has_prefix_def)
next
  case (JObj kvs)
  have "\<forall>(k, v) \<in> set kvs. plain k \<and> skips JSOBJECT (json_text v)" using ok skips_text [of JSOBJECT] by (auto simp: JObj)
  then have "skips JSOBJECT (json_members kvs)" by (intro skips_members) auto
  from nested_len [OF _ this] show ?thesis
    unfolding JObj json_text_JObj json_content_def
    by (simp add: json_value_def advance_def is_digit_def mark_close_def json_text_JObj del: json_text.simps)
next
  case (JArr vs)
  have "skips JSARRAY (sep (map json_text vs))" using ok skips_text [of JSARRAY] by (intro skips_sep) (auto simp: JArr)
  from nested_len [OF _ this] show ?thesis
    unfolding JArr json_content_def
    by (simp add: json_value_def advance_def is_digit_def mark_close_def)
qed

section \<open>The members of an object\<close>

lemma strchr_skip: "c \<notin> set xs \<Longrightarrow> strchr c (xs @ c # s) = Some (c # s)"
  by (induction xs) (auto simp: strchr_def)

lemma strchr_none: "c \<notin> set xs \<Longrightarrow> strchr c xs = None"
  by (induction xs) (auto simp: strchr_def)

lemma next_member:
  assumes "chr_quote \<notin> set pre" and "plain k" and "json_ok v" and "\<not> is_digit c" and "c \<noteq> chr_dot"
  shows "\<exists>p r r'. json_get_next_object JSOBJECT (pre @ chr_quote # k @ chr_quote # chr_colon # json_text v @ c # rest) =
     (At (c # rest), Some \<lparr>ji_key = k @ r', ji_key_len = length k, ji_val = Some p, ji_val_len = length (json_content v), ji_val_type = json_type v\<rparr>) \<and>
     p = json_content v @ r"
proof -
  let ?s = "chr_colon # json_text v @ c # rest"
  have q: "strchr chr_quote (k @ chr_quote # ?s) = Some (chr_quote # ?s)" using assms(2) by (intro strchr_skip) (auto simp: plain_def)
  have d: "strchr chr_colon (chr_quote # ?s) = Some ?s" using strchr_skip [of chr_colon "[chr_quote]"] by simp
  from json_value_text [OF assms(3-5), of "k @ chr_quote # ?s" "length k" rest] show ?thesis
    by (simp add: json_get_next_object_def strchr_skip [OF assms(1)] q d) blast
qed

definition nv_found :: "cstring \<Rightarrow> json option \<Rightarrow> JSON_NV \<Rightarrow> bool" where
  "nv_found name found nv \<longleftrightarrow> nv_pN nv = name \<and>
     (case found of None \<Rightarrow> nv_pV nv = None
      | Some v \<Rightarrow> (\<exists>r. nv_pV nv = Some (json_content v @ r)) \<and> nv_vLen nv = length (json_content v) \<and> nv_vType nv = json_type v)"

text \<open>Members without content, that is empty strings, are passed over.\<close>

definition full_members :: "(cstring \<times> json) list \<Rightarrow> (cstring \<times> json) list" where
  "full_members kvs = filter (\<lambda>(k, v). json_content v \<noteq> []) kvs"

lemma kv_loop_end: "chr_quote \<notin> set s \<Longrightarrow> json_kv_loop cb s ret d = Some (ret, d)"
  by (subst json_kv_loop.simps) (simp add: json_get_next_object_def strchr_none)

text \<open>
  Members with arbitrary text between them, such as a comma and a blank: each comes with the text before it.
\<close>

definition seg_text :: "(cstring \<times> cstring \<times> json) list \<Rightarrow> cstring" where
  "seg_text segs = concat (map (\<lambda>(pre, k, v). pre @ chr_quote # k @ chr_quote # chr_colon # json_text v) segs)"

definition seg_ok :: "cstring \<times> cstring \<times> json \<Rightarrow> bool" where
  "seg_ok = (\<lambda>(pre, k, v). pre \<noteq> [] \<and> chr_quote \<notin> set pre \<and> \<not> is_digit (hd pre) \<and> hd pre \<noteq> chr_dot \<and> k \<noteq> [] \<and> plain k \<and> json_ok v)"

lemma seg_text_Cons: "seg_text ((pre, k, v) # segs) = pre @ chr_quote # k @ chr_quote # chr_colon # json_text v @ seg_text segs"
  by (simp add: seg_text_def)

lemma seg_text_tail:
  assumes "\<forall>x \<in> set segs. seg_ok x" and "chr_quote \<notin> set trail" and "trail \<noteq> []" and "\<not> is_digit (hd trail)" and "hd trail \<noteq> chr_dot"
  shows "\<exists>c rest. seg_text segs @ trail = c # rest \<and> \<not> is_digit c \<and> c \<noteq> chr_dot"
proof (cases segs)
  case Nil
  with assms show ?thesis by (cases "trail") (auto simp: seg_text_def)
next
  case (Cons x xs)
  obtain pre k v where x: "x = (pre, k, v)" by (cases x) auto
  then obtain d pre' where "pre = d # pre'" using assms(1) by (cases pre) (auto simp: Cons seg_ok_def)
  with assms(1) show ?thesis by (auto simp: Cons x seg_text_Cons seg_ok_def)
qed

lemma kv_loop_segs:
  assumes "\<forall>x \<in> set segs. seg_ok x" and "chr_quote \<notin> set trail" and "trail \<noteq> []" and "\<not> is_digit (hd trail)" and "hd trail \<noteq> chr_dot"
    and "nv_pN nv = name" and "nv_pV nv = None"
  shows "\<exists>rc nv'. json_kv_loop json_get_value_by_name_cb (seg_text segs @ trail) ret nv = Some (rc, nv') \<and>
     nv_found name (map_of (full_members (map snd segs)) name) nv'"
  using assms
proof (induction segs arbitrary: ret nv)
  case Nil
  then show ?case by (simp add: kv_loop_end seg_text_def nv_found_def full_members_def)
next
  case (Cons x segs)
  obtain pre k v where x: "x = (pre, k, v)" by (cases x) auto
  have ok: "k \<noteq> []" "chr_quote \<notin> set pre" "plain k" "json_ok v" using Cons.prems(1) by (auto simp: x seg_ok_def)
  have segs: "\<forall>x \<in> set segs. seg_ok x" using Cons.prems(1) by simp
  obtain c rest where m: "seg_text segs @ trail = c # rest" and c: "\<not> is_digit c" "c \<noteq> chr_dot"
    using seg_text_tail [OF segs Cons.prems(2-5)] by blast
  have doc: "seg_text (x # segs) @ trail = pre @ chr_quote # k @ chr_quote # chr_colon # json_text v @ c # rest"
    by (simp add: x seg_text_Cons m)
  obtain p r r' where nx: "json_get_next_object JSOBJECT (seg_text (x # segs) @ trail) =
      (At (c # rest), Some \<lparr>ji_key = k @ r', ji_key_len = length k, ji_val = Some p, ji_val_len = length (json_content v), ji_val_type = json_type v\<rparr>)"
    and p: "p = json_content v @ r"
    using next_member [OF ok(2-4) c] unfolding doc by blast
  have step: "json_kv_loop json_get_value_by_name_cb (seg_text (x # segs) @ trail) ret nv =
      (if json_content v \<noteq> [] \<and> k = name
       then Some (JSON_RESULT_OK, nv\<lparr>nv_pV := Some p, nv_vLen := length (json_content v), nv_vType := json_type v\<rparr>)
       else json_kv_loop json_get_value_by_name_cb (c # rest) (if json_content v \<noteq> [] then JSON_RESULT_OK else ret) nv)"
    unfolding doc using Cons.prems(6) ok(1) by (subst json_kv_loop.simps) (auto simp: nx [unfolded doc] json_kv_body_def json_get_value_by_name_cb_def)
  show ?case
  proof (cases "json_content v \<noteq> [] \<and> k = name")
    case True
    then show ?thesis unfolding step using Cons.prems(6) by (auto simp: x p nv_found_def full_members_def)
  next
    case False
    then have same: "map_of (full_members (map snd (x # segs))) name = map_of (full_members (map snd segs)) name"
      by (auto simp: x full_members_def)
    show ?thesis
      unfolding step if_not_P [OF False] same m [symmetric] by (rule Cons.IH [OF segs Cons.prems(2-7)])
  qed
qed

lemma lookup_segs:
  assumes "segs \<noteq> []" and "fst (hd segs) = [chr_lbrace]" and "\<forall>x \<in> set segs. seg_ok x"
    and "chr_quote \<notin> set trail" and "trail \<noteq> []" and "\<not> is_digit (hd trail)" and "hd trail \<noteq> chr_dot"
  shows "\<exists>nv. json_get_value_by_name (seg_text segs @ trail) (length (seg_text segs @ trail)) name False = Some (nv_pV nv, nv_vLen nv, nv_vType nv) \<and>
     nv_found name (map_of (full_members (map snd segs)) name) nv"
proof -
  let ?nv = "\<lparr>nv_vLen = 0, nv_vType = JSSTRING, nv_pN = name, nv_pV = None\<rparr>" and ?s = "seg_text segs @ trail"
  obtain k v segs' where segs: "segs = ([chr_lbrace], k, v) # segs'" using assms(1,2) by (cases segs) auto
  have obj: "json_get_object JSOBJECT ?s = Some ?s" "?s \<noteq> []" by (simp_all add: segs seg_text_Cons)
  obtain rc nv where "json_kv_loop json_get_value_by_name_cb ?s JSON_RESULT_ERR ?nv = Some (rc, nv)"
    "nv_found name (map_of (full_members (map snd segs)) name) nv"
    using kv_loop_segs [OF assms(3-7), of ?nv name JSON_RESULT_ERR] by auto
  with obj show ?thesis by (simp add: json_get_value_by_name_def json_parse_name_value_def) blast
qed

text \<open>The text of an object has this form, with a comma before all members but the first.\<close>

definition comma_segs :: "(cstring \<times> json) list \<Rightarrow> (cstring \<times> cstring \<times> json) list" where
  "comma_segs kvs = (case kvs of [] \<Rightarrow> [] | kv # kvs \<Rightarrow> ([chr_lbrace], kv) # map (\<lambda>kv. ([0x2C], kv)) kvs)"

lemma sep_Cons: "sep (x # xs) = x @ concat (map (\<lambda>y. 0x2C # y) xs)"
  by (induction xs arbitrary: x) auto

lemma json_text_segs: "kvs \<noteq> [] \<Longrightarrow> json_text (JObj kvs) = seg_text (comma_segs kvs) @ [chr_rbrace]"
  by (cases kvs) (auto simp: json_text_JObj json_members_def comma_segs_def seg_text_def sep_Cons comp_def case_prod_beta' simp del: json_text.simps sep.simps)

lemma comma_segs_ok: "json_ok (JObj kvs) \<Longrightarrow> \<forall>x \<in> set (comma_segs kvs). seg_ok x" "map snd (comma_segs kvs) = kvs"
  by (auto simp: comma_segs_def seg_ok_def comp_def split: list.split)

lemma lookup_in_object:
  assumes "json_ok (JObj kvs)"
  defines "s \<equiv> json_text (JObj kvs)"
  shows "\<exists>nv. json_get_value_by_name s (length s) name False = Some (nv_pV nv, nv_vLen nv, nv_vType nv) \<and>
     nv_found name (map_of (full_members kvs) name) nv"
proof (cases "kvs = []")
  case True
  then show ?thesis
    by (auto simp: s_def json_get_value_by_name_def json_parse_name_value_def kv_loop_end nv_found_def full_members_def
        intro!: exI [of _ "\<lparr>nv_vLen = 0, nv_vType = JSSTRING, nv_pN = name, nv_pV = None\<rparr>"])
next
  case False
  have "fst (hd (comma_segs kvs)) = [chr_lbrace]" "comma_segs kvs \<noteq> []" using False by (cases kvs; simp add: comma_segs_def)+
  from lookup_segs [OF this(2,1) comma_segs_ok(1) [OF assms(1)], of "[chr_rbrace]" name]
  show ?thesis unfolding s_def json_text_segs [OF False] by (simp add: comma_segs_ok(2))
qed

section \<open>Properties\<close>

text \<open>
  C25: Looking up a name in the text of a JSON object, whatever values and nested objects and arrays it has
  (with strings free of escapes and brackets), comes to an end without reading outside the string and
  yields the type and the exact text of the first member of that name whose content is not empty, or
  nothing if there is none.
\<close>

theorem json_lookup_correct:
  assumes "json_ok (JObj kvs)"
  shows "\<exists>p n ty. json_get_value_by_name (json_text (JObj kvs)) (length (json_text (JObj kvs))) name False = Some (p, n, ty) \<and>
     (case map_of (filter (\<lambda>(k, v). json_content v \<noteq> []) kvs) name of
        None \<Rightarrow> p = None
      | Some v \<Rightarrow> (\<exists>q. p = Some q \<and> take n q = json_content v) \<and> ty = json_type v)"
  using lookup_in_object [OF assms, of name]
  by (force simp: nv_found_def full_members_def split: option.splits)

theorem json_lookup_correct_witness:
  "\<exists>q n. json_get_value_by_name (cstr ''{\"a\":{\"x\":[1]},\"b\":-2.5}'') (length (cstr ''{\"a\":{\"x\":[1]},\"b\":-2.5}'')) (cstr ''b'') False = Some (Some q, n, JSNUMBER) \<and>
     take n q = cstr ''-2.5''"
proof -
  let ?kvs = "[(cstr ''a'', JObj [(cstr ''x'', JArr [JNum (cstr ''1'')])]), (cstr ''b'', JNum (cstr ''-2.5''))]"
  have t: "json_text (JObj ?kvs) = cstr ''{\"a\":{\"x\":[1]},\"b\":-2.5}''" by (simp add: cstr_def)
  have "json_ok (JObj ?kvs)" by (simp add: cstr_def plain_def is_digit_def)
  from json_lookup_correct [OF this, of "cstr ''b''"] show ?thesis
    unfolding t by (simp add: json_content_def cstr_def) blast
qed

text \<open>
  Defects of the reader. An object that ends in an opening quote makes the loop read behind the
  terminating zero. Given a length below that of the string, the string stays cut off afterwards. A path
  whose last name is not in the inner object is looked up among the members that follow that object. A brace
  inside a string of a nested value is taken for structure. An empty string counts as absent.
\<close>

lemma json_reader_defects:
  "json_get_value_by_name (cstr ''{\"a\":\"'') 6 (cstr ''b'') False = None \<and>
   map_option (\<lambda>(rc, nv, s). s) (json_parse_name_value (Some (cstr ''{\"a\":1}xyz'')) 7 json_get_value_by_name_cb
      \<lparr>nv_vLen = 0, nv_vType = JSSTRING, nv_pN = cstr ''a'', nv_pV = None\<rparr>) = Some (Some (cstr ''{\"a\":1}'')) \<and>
   map_option fst (LITE_json_value_of sim_os (cstr ''a.b'') (cstr ''{\"a\":{\"x\":1},\"b\":2}'') (sim_world [] 0)) = Some (Some (cstr ''2'')) \<and>
   map_option (\<lambda>(v, n, ty). n) (json_get_value_by_name (cstr ''{\"a\":{\"x\":\"}\"}}'') 15 (cstr ''a'') False) = Some 7 \<and>
   map_option fst (json_get_value_by_name (cstr ''{\"a\":\"\"}'') 8 (cstr ''a'') False) = Some None"
  by code_simp

text \<open>
  Stripping a character from a string that has it reads the byte behind the terminating zero: \<^verbatim>\<open>memmove\<close>
  is told to move one byte too many.
\<close>

lemma strip_char_reads_past:
  assumes "ch \<in> set s" and "0 \<notin> set s"
  shows "LITE_string_strip_char (s @ [0]) ch = None"
proof -
  obtain xs ys where s: "s = xs @ ch # ys" "ch \<notin> set xs" using split_list_first [OF assms(1)] by blast
  have "takeWhile (\<lambda>b. b \<noteq> 0) (s @ [0]) = s" using assms(2) by (simp add: takeWhile_append)
  then have "c_string (s @ [0]) = Some s" by (simp add: c_string_def)
  moreover have "strip_loop ch 0 (length s + 1) (s @ [0]) = None"
    unfolding s(1) by (rule strip_loop_reads_past) (use assms s in auto)
  ultimately show ?thesis by (simp add: LITE_string_strip_char_def)
qed

end
