(* ===== verification/Utils_Number.thy ===== *)
theory Utils_Number
  imports Utils_Json
begin

text \<open>
  Numbers in texts: what \<^verbatim>\<open>printf\<close> prints for integers, and the readers of \<^verbatim>\<open>json_token.c\<close>, which are calls of \<^verbatim>\<open>sscanf\<close>.
  Every integer of 8, 16 and 32 bits that is printed is read back.
\<close>

section \<open>Numbers in decimal\<close>

text \<open>What the formats \<^verbatim>\<open>%u\<close> and \<^verbatim>\<open>%d\<close> print.\<close>

fun dec_nat :: "nat \<Rightarrow> cstring" where
  "dec_nat n = (if n < 10 then [of_nat (48 + n)] else dec_nat (n div 10) @ [of_nat (48 + n mod 10)])"

declare dec_nat.simps [simp del]

definition dec_int :: "int \<Rightarrow> cstring" where
  "dec_int i = (if i < 0 then chr_minus # dec_nat (nat (- i)) else dec_nat (nat i))"

section \<open>Reading numbers\<close>

text \<open>
  The conversions \<^verbatim>\<open>%i\<close> and \<^verbatim>\<open>%u\<close> of \<^verbatim>\<open>sscanf\<close>: blanks, a sign, and for \<^verbatim>\<open>%i\<close> a prefix that selects octal or
  hexadecimal digits. The result is \<open>None\<close> if there is no digit.
\<close>

definition is_space :: "u8 \<Rightarrow> bool" where
  "is_space c \<longleftrightarrow> c = chr_space \<or> 9 \<le> c \<and> c \<le> 13"

definition digit_value :: "u8 \<Rightarrow> nat option" where
  "digit_value c =
     (if is_digit c then Some (unat c - 48)
      else if 0x61 \<le> c \<and> c \<le> 0x66 then Some (unat c - 87)
      else if 0x41 \<le> c \<and> c \<le> 0x46 then Some (unat c - 55)
      else None)"

definition is_digit_of :: "nat \<Rightarrow> u8 \<Rightarrow> bool" where
  "is_digit_of b c \<longleftrightarrow> (case digit_value c of None \<Rightarrow> False | Some d \<Rightarrow> d < b)"

definition scan_digits :: "nat \<Rightarrow> cstring \<Rightarrow> nat" where
  "scan_digits b s = foldl (\<lambda>n c. n * b + the (digit_value c)) 0 (takeWhile (is_digit_of b) s)"

definition scan_number :: "nat \<Rightarrow> cstring \<Rightarrow> nat option" where
  "scan_number b s = (if s \<noteq> [] \<and> is_digit_of b (hd s) then Some (scan_digits b s) else None)"

definition scan_sign :: "cstring \<Rightarrow> bool \<times> cstring" where
  "scan_sign s =
     (case dropWhile is_space s of
        [] \<Rightarrow> (False, [])
      | c # r \<Rightarrow> if c = chr_minus then (True, r) else if c = 0x2B then (False, r) else (False, c # r))"

definition scan_i :: "cstring \<Rightarrow> int option" where
  "scan_i s =
     (let (neg, s) = scan_sign s
      in map_option (\<lambda>n. if neg then - int n else int n)
           (if s \<noteq> [] \<and> hd s = 0x30
            then if tl s \<noteq> [] \<and> (hd (tl s) = 0x78 \<or> hd (tl s) = 0x58) then scan_number 16 (tl (tl s)) else Some (scan_digits 8 s)
            else scan_number 10 s))"

text \<open>With \<^verbatim>\<open>%u\<close> a minus sign negates as in \<^verbatim>\<open>unsigned long\<close>.\<close>

definition scan_u :: "cstring \<Rightarrow> int option" where
  "scan_u s =
     (let (neg, s) = scan_sign s
      in map_option (\<lambda>n. if neg \<and> n < 2 ^ 64 then (- int n) mod 2 ^ 64 else int n) (scan_number 10 s))"

text \<open>
  A number that the type of the destination cannot represent has no defined result; \<open>Inl\<close> is the error code, \<open>Inr\<close> the
  value stored.
\<close>

definition scan_result :: "int \<Rightarrow> int \<Rightarrow> int option \<Rightarrow> (int + int) option" where
  "scan_result lo hi v =
     (case v of None \<Rightarrow> Some (Inl QCLOUD_ERR_FAILURE) | Some i \<Rightarrow> if lo \<le> i \<and> i \<le> hi then Some (Inr i) else None)"

definition LITE_get_int32 :: "cstring \<Rightarrow> (int + int) option" where
  "LITE_get_int32 src = scan_result (- (2 ^ 31)) (2 ^ 31 - 1) (scan_i src)"

definition LITE_get_int16 :: "cstring \<Rightarrow> (int + int) option" where
  "LITE_get_int16 src = scan_result (- (2 ^ 15)) (2 ^ 15 - 1) (scan_i src)"

definition LITE_get_int8 :: "cstring \<Rightarrow> (int + int) option" where
  "LITE_get_int8 src = scan_result (- (2 ^ 7)) (2 ^ 7 - 1) (scan_i src)"

definition LITE_get_uint32 :: "cstring \<Rightarrow> (int + int) option" where
  "LITE_get_uint32 src = scan_result 0 (2 ^ 32 - 1) (scan_u src)"

definition LITE_get_uint64 :: "cstring \<Rightarrow> (int + int) option" where
  "LITE_get_uint64 src = scan_result 0 (2 ^ 64 - 1) (scan_u src)"

definition LITE_get_uint16 :: "cstring \<Rightarrow> (int + int) option" where
  "LITE_get_uint16 src = scan_result 0 (2 ^ 16 - 1) (scan_u src)"

definition LITE_get_uint8 :: "cstring \<Rightarrow> (int + int) option" where
  "LITE_get_uint8 src = scan_result 0 (2 ^ 8 - 1) (scan_u src)"

section \<open>Reading what was printed\<close>

lemma digit_char:
  assumes "k < 10"
  shows "unat (of_nat (48 + k) :: 8 word) = 48 + k" "is_digit (of_nat (48 + k))"
proof -
  show u: "unat (of_nat (48 + k) :: 8 word) = 48 + k" using assms by (subst unat_of_nat) simp
  then show "is_digit (of_nat (48 + k))" using assms by (simp add: is_digit_def word_le_nat_alt)
qed

lemma digit_value_char: "k < 10 \<Longrightarrow> digit_value (of_nat (48 + k)) = Some k"
  using digit_char [of k] by (simp only: digit_value_def if_True) simp

lemma dec_nat_digits: "dec_nat n \<noteq> [] \<and> (\<forall>c \<in> set (dec_nat n). is_digit c)"
proof (induction n rule: dec_nat.induct)
  case (1 n)
  have "n mod 10 < 10" by simp
  with 1 digit_char(2) show ?case by (subst (1 2) dec_nat.simps) auto
qed

lemma dec_nat_length: "n < 10 ^ k \<Longrightarrow> 0 < k \<Longrightarrow> length (dec_nat n) \<le> k"
proof (induction n arbitrary: k rule: dec_nat.induct)
  case (1 n)
  show ?case
  proof (cases "n < 10")
    case True
    then show ?thesis using "1.prems"(2) by (subst dec_nat.simps) simp
  next
    case False
    then obtain k' where k: "k = Suc k'" "0 < k'" using "1.prems" by (cases k; cases "k - 1") auto
    have "n div 10 < 10 ^ k'" using "1.prems"(1) by (simp add: k(1) less_mult_imp_div_less mult.commute)
    with "1.IH" [OF False _ k(2)] False show ?thesis by (subst dec_nat.simps) (simp add: k(1))
  qed
qed

lemma digit_of_ten: "is_digit c \<Longrightarrow> is_digit_of 10 c"
proof -
  assume "is_digit c"
  then have "unat c - 48 < 10" by (auto simp: is_digit_def word_le_nat_alt)
  with \<open>is_digit c\<close> show ?thesis by (simp add: is_digit_of_def digit_value_def)
qed

lemma scan_dec_nat: "scan_digits 10 (dec_nat n) = n"
proof -
  have all: "takeWhile (is_digit_of 10) (dec_nat n) = dec_nat n" using dec_nat_digits [of n] digit_of_ten by (simp add: takeWhile_eq_all_conv)
  have "foldl (\<lambda>n c. n * 10 + the (digit_value c)) 0 (dec_nat n) = n"
  proof (induction n rule: dec_nat.induct)
    case (1 n)
    show ?case
    proof (cases "n < 10")
      case True
      then show ?thesis by (subst dec_nat.simps) (simp add: digit_value_char del: of_nat_add)
    next
      case False
      then show ?thesis using 1 by (subst dec_nat.simps) (simp add: digit_value_char del: of_nat_add)
    qed
  qed
  then show ?thesis unfolding scan_digits_def all .
qed

lemma dec_nat_hd: "0 < n \<Longrightarrow> hd (dec_nat n) \<noteq> 0x30"
proof (induction n rule: dec_nat.induct)
  case (1 n)
  show ?case
  proof (cases "n < 10")
    case True
    with 1 digit_char(1) [of n] show ?thesis by (subst dec_nat.simps) (auto simp del: of_nat_add)
  next
    case False
    with 1 dec_nat_digits [of "n div 10"] show ?thesis by (subst dec_nat.simps) (simp add: hd_append)
  qed
qed

lemma dec_nat_zero: "dec_nat 0 = [0x30]"
  by (simp add: dec_nat.simps)

lemma scan_sign_dec: "scan_sign (dec_int i) = (i < 0, dec_nat (nat \<bar>i\<bar>))"
proof (cases "i < 0")
  case True
  then show ?thesis by (simp add: scan_sign_def dec_int_def is_space_def)
next
  case False
  obtain c r where c: "dec_nat (nat i) = c # r" "is_digit c" using dec_nat_digits [of "nat i"] by (cases "dec_nat (nat i)") auto
  have "\<not> is_space c" "c \<noteq> chr_minus" "c \<noteq> 0x2B" using c(2) by (auto simp: is_digit_def is_space_def word_le_nat_alt)
  with False c(1) show ?thesis by (simp add: scan_sign_def dec_int_def)
qed

lemma scan_number_dec: "scan_number 10 (dec_nat n) = Some n"
proof -
  have "is_digit (hd (dec_nat n))" using dec_nat_digits [of n] by simp
  with dec_nat_digits [of n] digit_of_ten show ?thesis by (simp add: scan_number_def scan_dec_nat)
qed

lemma scan_i_dec: "scan_i (dec_int i) = Some i"
proof (cases "i = 0")
  case True
  then show ?thesis by (simp add: scan_i_def scan_sign_dec dec_nat_zero scan_digits_def is_digit_of_def digit_value_def is_digit_def)
next
  case False
  then have "hd (dec_nat (nat \<bar>i\<bar>)) \<noteq> 0x30" by (intro dec_nat_hd) simp
  then show ?thesis by (auto simp: scan_i_def scan_sign_dec scan_number_dec)
qed

lemma scan_u_dec: "0 \<le> i \<Longrightarrow> scan_u (dec_int i) = Some i"
  by (simp add: scan_u_def scan_sign_dec scan_number_dec)

lemma number_round_trip:
  fixes x :: "32 word" and y :: "16 word" and z :: "8 word"
  shows "LITE_get_int32 (dec_int (sint x)) = Some (Inr (sint x))" "LITE_get_uint32 (dec_int (uint x)) = Some (Inr (uint x))"
    "LITE_get_int16 (dec_int (sint y)) = Some (Inr (sint y))" "LITE_get_uint16 (dec_int (uint y)) = Some (Inr (uint y))"
    "LITE_get_int8 (dec_int (sint z)) = Some (Inr (sint z))" "LITE_get_uint8 (dec_int (uint z)) = Some (Inr (uint z))"
  using sint_range_size [of x] sint_range_size [of y] sint_range_size [of z] uint_range_size [of x] uint_range_size [of y] uint_range_size [of z]
  by (simp_all add: LITE_get_int32_def LITE_get_int16_def LITE_get_int8_def LITE_get_uint32_def LITE_get_uint16_def LITE_get_uint8_def
      scan_i_dec scan_u_dec scan_result_def word_size)

end
