(* ===== verification/Dt_Json.thy ===== *)
theory Dt_Json
  imports Utils_Number
begin

text \<open>
  The JSON writer of the data template service (\<^verbatim>\<open>data_template_client_json.c\<close>): it prints the properties of a device, with
  structures of any depth, at the end of the string that a buffer holds. An array is one value of the model and a
  pointer into it a position, so that the recursion writes into parts of the same array. The contract of all
  pieces is \<open>put_ok\<close>: nothing outside the given part changes, and success means that the whole text is there.
\<close>

section \<open>Formatting into a buffer\<close>

abbreviation (input) QCLOUD_ERR_JSON_BUFFER_TRUNCATED :: int where "QCLOUD_ERR_JSON_BUFFER_TRUNCATED \<equiv> -133"
abbreviation (input) QCLOUD_ERR_JSON_BUFFER_TOO_SMALL :: int where "QCLOUD_ERR_JSON_BUFFER_TOO_SMALL \<equiv> -134"
abbreviation (input) QCLOUD_ERR_JSON :: int where "QCLOUD_ERR_JSON \<equiv> -135"

text \<open>
  \<^verbatim>\<open>HAL_Snprintf\<close> at a position of an array, with the text that the format yields: at most \<open>n\<close> bytes
  with the terminating zero are stored; the result is the length of the whole text.
\<close>

definition snprintf_at :: "u8 list \<Rightarrow> nat \<Rightarrow> nat \<Rightarrow> cstring \<Rightarrow> (int \<times> u8 list) option" where
  "snprintf_at a pos n s =
     (if n = 0 then Some (int (length s), a)
      else do { a \<leftarrow> buf_write a pos (take (n - 1) s @ [0]); Some (int (length s), a) })"

definition strlen_at :: "u8 list \<Rightarrow> nat \<Rightarrow> nat option" where
  "strlen_at a p = map_option length (c_string (drop p a))"

text \<open>The comparison is one of \<^verbatim>\<open>size_t\<close>: a negative code is taken for a large one.\<close>

definition check_snprintf_return :: "int \<Rightarrow> nat \<Rightarrow> int" where
  "check_snprintf_return returnCode maxSizeOfWrite =
     (if returnCode mod 2 ^ 64 \<ge> int maxSizeOfWrite then QCLOUD_ERR_JSON_BUFFER_TRUNCATED
      else if returnCode < 0 then QCLOUD_ERR_JSON else QCLOUD_RET_SUCCESS)"

section \<open>Properties of a device\<close>

text \<open>
  A value of a property with its type. A floating-point number is given by the text that the format
  \<^verbatim>\<open>%f\<close> yields for it. The number beside a string or an array is \<^verbatim>\<open>data_buff_len\<close>, the room for a new value; it is a
  member of the same union as \<^verbatim>\<open>struct_obj_num\<close>, the number of members of an object.
\<close>

datatype prop_value =
    JINT32 "32 word" | JINT16 "16 word" | JINT8 "8 word" | JUINT32 "32 word" | JUINT16 "16 word" | JUINT8 "8 word"
  | JFLOAT cstring | JDOUBLE cstring | JBOOL bool | JSTRING cstring nat | JOBJECT "DeviceProperty list" | JARRAY cstring nat
and DeviceProperty = DeviceProperty (dp_key: "cstring option") (dp_data: "prop_value option")

text \<open>The text of a scalar with the comma; the other types do not come here.\<close>

definition format_json_buffer :: "prop_value \<Rightarrow> cstring" where
  "format_json_buffer d =
     (case d of
        JINT32 x \<Rightarrow> dec_int (sint x) | JINT16 x \<Rightarrow> dec_int (sint x) | JINT8 x \<Rightarrow> dec_int (sint x)
      | JUINT32 x \<Rightarrow> dec_int (uint x) | JUINT16 x \<Rightarrow> dec_int (uint x) | JUINT8 x \<Rightarrow> dec_int (uint x)
      | JDOUBLE s \<Rightarrow> s | JFLOAT s \<Rightarrow> s | JSTRING s len \<Rightarrow> 0x22 # s @ [0x22] | _ \<Rightarrow> []) @ [0x2C]"

definition key_text :: "cstring option \<Rightarrow> cstring" where
  "key_text k = 0x22 # (case k of None \<Rightarrow> cstr ''null'' | Some k \<Rightarrow> k) @ [0x22, 0x3A]"

text \<open>
  \<^verbatim>\<open>put_json_node\<close> on the part of the array \<open>a\<close> that starts at \<open>base\<close> and has \<open>n\<close> bytes, in the pieces of its code.
  Sizes are compared as signed numbers, so that a string longer than the part is caught as well.
\<close>

definition put_text :: "cstring \<Rightarrow> nat \<Rightarrow> nat \<Rightarrow> nat \<Rightarrow> u8 list \<Rightarrow> (int \<times> u8 list) option" where
  "put_text s base n cur a = do {
     (r, a) \<leftarrow> snprintf_at a (base + cur) (n - cur) s;
     Some (check_snprintf_return r (n - cur), a)
   }"

text \<open>Up to the key: \<open>Inl\<close> is an error code, \<open>Inr\<close> the length of the string after it.\<close>

definition put_key :: "cstring option \<Rightarrow> nat \<Rightarrow> nat \<Rightarrow> u8 list \<Rightarrow> ((int + nat) \<times> u8 list) option" where
  "put_key pKey base n a = do {
     cur \<leftarrow> strlen_at a base;
     if n \<le> cur + 1 then Some (Inl QCLOUD_ERR_JSON_BUFFER_TOO_SMALL, a)
     else do {
       (rc, a) \<leftarrow> put_text (key_text pKey) base n cur a;
       let cur = cur + length (key_text pKey);
       Some (if rc \<noteq> QCLOUD_RET_SUCCESS then Inl rc
             else if n \<le> cur + 1 then Inl QCLOUD_ERR_JSON_BUFFER_TOO_SMALL else Inr cur, a)
     }
   }"

text \<open>The opening brace of an object.\<close>

definition put_open :: "nat \<Rightarrow> nat \<Rightarrow> nat \<Rightarrow> u8 list \<Rightarrow> ((int + nat) \<times> u8 list) option" where
  "put_open base n cur a = do {
     (rc, a) \<leftarrow> put_text [0x7B] base n cur a;
     Some (if rc \<noteq> QCLOUD_RET_SUCCESS then Inl rc
           else if n \<le> cur + 1 + 1 then Inl QCLOUD_ERR_JSON_BUFFER_TOO_SMALL else Inr (cur + 1), a)
   }"

text \<open>Text in the place of the last character, such as the closing brace for the last comma. It is given one byte less than there are.\<close>

definition put_over :: "cstring \<Rightarrow> nat \<Rightarrow> nat \<Rightarrow> nat \<Rightarrow> u8 list \<Rightarrow> (int \<times> u8 list) option" where
  "put_over s base n cur a =
     (if cur = 0 then None
      else do {
        (r, a) \<leftarrow> snprintf_at a (base + (cur - 1)) (n - cur) s;
        Some (check_snprintf_return r (n - cur), a)
      })"

text \<open>The text of a value that is not an object, with the comma.\<close>

definition value_text :: "prop_value option \<Rightarrow> cstring" where
  "value_text d =
     (case d of
        None \<Rightarrow> cstr ''null,''
      | Some (JBOOL b) \<Rightarrow> (if b then cstr ''true,'' else cstr ''false,'')
      | Some (JARRAY s len) \<Rightarrow> s @ [0x2C]
      | Some d \<Rightarrow> format_json_buffer d)"

definition object_nodes :: "prop_value option \<Rightarrow> DeviceProperty list option" where
  "object_nodes d = (case d of Some (JOBJECT nodes) \<Rightarrow> Some nodes | _ \<Rightarrow> None)"

text \<open>Going on after a step that may have failed.\<close>

definition on_success :: "((int + nat) \<times> u8 list) option \<Rightarrow> (nat \<Rightarrow> u8 list \<Rightarrow> (int \<times> u8 list) option) \<Rightarrow> (int \<times> u8 list) option" where
  "on_success r f = (case r of None \<Rightarrow> None | Some (Inl rc, a) \<Rightarrow> Some (rc, a) | Some (Inr cur, a) \<Rightarrow> f cur a)"

lemma object_nodes_size [termination_simp]: "object_nodes d = Some nodes \<Longrightarrow> size_list size nodes < size_option size d"
  by (auto simp: object_nodes_def split: option.splits prop_value.splits)

lemma object_node_size [termination_simp]: "object_nodes d = Some nodes \<Longrightarrow> p \<in> set nodes \<Longrightarrow> size p < Suc (size_option size d)"
  using object_nodes_size [of d nodes] size_list_estimation' [of p nodes "size p" size] by simp

lemma on_success_cong [fundef_cong]: "r = r' \<Longrightarrow> (\<And>cur a. r' = Some (Inr cur, a) \<Longrightarrow> f cur a = g cur a) \<Longrightarrow> on_success r f = on_success r' g"
  by (auto simp: on_success_def split: option.splits sum.splits)

fun put_json_node :: "DeviceProperty \<Rightarrow> nat \<Rightarrow> nat \<Rightarrow> u8 list \<Rightarrow> (int \<times> u8 list) option"
  and put_json_nodes :: "DeviceProperty list \<Rightarrow> nat \<Rightarrow> nat \<Rightarrow> nat \<Rightarrow> u8 list \<Rightarrow> ((int + nat) \<times> u8 list) option" where
  "put_json_node (DeviceProperty pKey pData) base n a =
     on_success (put_key pKey base n a) (\<lambda>cur a.
       case object_nodes pData of
         None \<Rightarrow> put_text (value_text pData) base n cur a
       | Some nodes \<Rightarrow>
           on_success (put_open base n cur a) (\<lambda>cur a.
             on_success (put_json_nodes nodes base n cur a) (\<lambda>cur a. put_over [0x7D, 0x2C] base n cur a)))"
| "put_json_nodes [] base n cur a = Some (Inr cur, a)"
| "put_json_nodes (node # nodes) base n cur a =
     (if dp_key node = None then put_json_nodes nodes base n cur a
      else case put_json_node node (base + cur) (n - cur) a of
        None \<Rightarrow> None
      | Some (rc, a) \<Rightarrow>
          if rc \<noteq> QCLOUD_RET_SUCCESS then Some (Inl rc, a)
          else (case strlen_at a base of
                  None \<Rightarrow> None
                | Some cur \<Rightarrow> if n \<le> cur + 1 then Some (Inl QCLOUD_ERR_JSON_BUFFER_TOO_SMALL, a)
                              else put_json_nodes nodes base n cur a))"

section \<open>What is written\<close>

text \<open>The text of a node, with the comma that ends it.\<close>

fun node_text :: "DeviceProperty \<Rightarrow> cstring" where
  "node_text (DeviceProperty k d) = key_text k @
     (case object_nodes d of
        None \<Rightarrow> value_text d
      | Some nodes \<Rightarrow> butlast (0x7B # concat (map node_text (filter (\<lambda>p. dp_key p \<noteq> None) nodes))) @ [0x7D, 0x2C])"

section \<open>Strings in a part of an array\<close>

text \<open>The part of \<open>a\<close> with \<open>n\<close> bytes from \<open>base\<close> on holds the string \<open>s\<close>; and an array that differs at most in that part.\<close>

definition holds :: "u8 list \<Rightarrow> nat \<Rightarrow> nat \<Rightarrow> cstring \<Rightarrow> bool" where
  "holds a base n s \<longleftrightarrow> base + n \<le> length a \<and> length s < n \<and> 0 \<notin> set s \<and> (\<exists>r. drop base a = s @ 0 # r)"

definition same_outside :: "nat \<Rightarrow> nat \<Rightarrow> u8 list \<Rightarrow> u8 list \<Rightarrow> bool" where
  "same_outside base n a a' \<longleftrightarrow> length a' = length a \<and> take base a' = take base a \<and> drop (base + n) a' = drop (base + n) a"

lemma same_outside_refl [simp]: "same_outside base n a a"
  by (simp add: same_outside_def)

lemma same_outside_trans: "same_outside base n a b \<Longrightarrow> same_outside base n b c \<Longrightarrow> same_outside base n a c"
  by (simp add: same_outside_def)

lemma same_outside_part:
  assumes "same_outside (base + k) (n - k) a a'" and "k \<le> n"
  shows "same_outside base n a a'"
proof -
  have "take base (take (base + k) a') = take base (take (base + k) a)" using assms(1) by (simp only: same_outside_def)
  then have "take base a' = take base a" by simp
  with assms show ?thesis by (simp add: same_outside_def)
qed

lemma holds_c_string: "holds a 0 n s \<Longrightarrow> c_string a = Some s"
  by (auto simp: c_string_def takeWhile_append holds_def)

lemma c_string_holds:
  assumes "c_string (take n a) = Some s" and "n \<le> length a"
  shows "holds a 0 n s"
proof -
  have s: "s = takeWhile (\<lambda>b. b \<noteq> 0) (take n a)" "0 \<in> set (take n a)" using assms(1) by (auto simp: c_string_def split: if_splits)
  obtain ys r where ys: "take n a = ys @ 0 # r" "0 \<notin> set ys" using split_list_first [OF s(2)] by blast
  then have r: "take n a = s @ 0 # r" "0 \<notin> set s" using s(1) by (auto simp: takeWhile_append)
  have "a = s @ 0 # r @ drop n a" using append_take_drop_id [of n a] by (simp add: r(1))
  moreover have "length s < n" using arg_cong [OF r(1), of length] assms(2) by simp
  ultimately show ?thesis using assms(2) r(2) by (auto simp: holds_def)
qed

lemma holds_strlen: "holds a base n s \<Longrightarrow> strlen_at a base = Some (length s)"
  by (auto simp: holds_def strlen_at_def c_string_def takeWhile_append)

lemma snprintf_at_holds:
  assumes h: "holds a base n s" and p: "p \<le> length s" and m: "0 < m" "p + m \<le> n" and t: "0 \<notin> set t"
  shows "\<exists>a'. snprintf_at a (base + p) m t = Some (int (length t), a') \<and> holds a' base n (take p s @ take (m - 1) t) \<and> same_outside base n a a'"
proof -
  let ?t = "take (m - 1) t @ [0]" and ?k = "length (take (m - 1) t) + 1"
  have len: "?k \<le> m" using m(1) by auto
  obtain r where la: "base + n \<le> length a" and r: "drop base a = s @ 0 # r" using h by (auto simp: holds_def)
  let ?a = "take (base + p) a @ ?t @ drop (base + p + ?k) a"
  have w: "buf_write a (base + p) ?t = Some ?a" using len m(2) la by (auto simp: buf_write_def)
  have pre: "take p (drop base a) = take p s" using p by (simp add: r)
  have drop: "drop base ?a = take p s @ ?t @ drop (base + p + ?k) a"
    using la m p by (simp add: drop_take pre)
  have "holds ?a base n (take p s @ take (m - 1) t)"
    unfolding holds_def
  proof (intro conjI)
    show "base + n \<le> length ?a" using la len m(2) by simp
    show "length (take p s @ take (m - 1) t) < n" using p m len by simp
    show "0 \<notin> set (take p s @ take (m - 1) t)" using h t by (auto simp: holds_def dest!: in_set_takeD)
    show "\<exists>r. drop base ?a = (take p s @ take (m - 1) t) @ 0 # r" unfolding drop by simp
  qed
  moreover have "same_outside base n a ?a"
  proof -
    have "base + n - (base + p + ?k) + (base + p + ?k) = base + n" using len m(2) by simp
    then have "drop (base + n - length (take (base + p) a @ ?t)) (drop (base + p + ?k) a) = drop (base + n) a"
      using la len m(2) by (simp add: add.commute)
    moreover have "drop (base + n) ?a = drop (base + n - length (take (base + p) a @ ?t)) (drop (base + p + ?k) a)"
      using la len m(2) unfolding append_assoc [symmetric] drop_append [of _ "take (base + p) a @ ?t"] by (simp del: append_assoc)
    moreover have "length ?a = length a" using la len m(2) by simp
    moreover have "take base ?a = take base a" using la m(2) by simp
    ultimately show ?thesis by (simp only: same_outside_def simp_thms)
  qed
  ultimately show ?thesis using w m(1) by (simp add: snprintf_at_def)
qed

text \<open>A string at the end of another one.\<close>

lemma holds_suffix:
  assumes "holds a base n s"
  shows "holds a (base + length s) (n - length s) []"
proof -
  obtain r where "drop base a = s @ 0 # r" using assms by (auto simp: holds_def)
  then have "drop (length s) (drop base a) = 0 # r" by simp
  with assms show ?thesis by (simp add: holds_def add.commute)
qed

lemma holds_extend:
  assumes "holds a base n s" and "holds a' (base + length s) (n - length s) t" and "same_outside (base + length s) (n - length s) a a'"
  shows "holds a' base n (s @ t)"
proof -
  obtain r where r: "drop base a = s @ 0 # r" using assms(1) by (auto simp: holds_def)
  obtain r' where r': "drop (base + length s) a' = t @ 0 # r'" using assms(2) by (auto simp: holds_def)
  have "take (length s) (drop base a') = take (length s) (drop base a)"
    using assms(3) by (simp add: same_outside_def take_drop add.commute)
  then have "drop base a' = s @ drop (length s) (drop base a')"
    using append_take_drop_id [of "length s" "drop base a'"] by (simp add: r)
  then have "drop base a' = s @ t @ 0 # r'" using r' by (simp add: add.commute)
  with assms show ?thesis by (auto simp: holds_def same_outside_def)
qed

section \<open>The nodes are written whole or an error is returned\<close>

text \<open>
  What a writer promises of the array \<open>a'\<close> that it leaves, for the string \<open>s'\<close> that it means to leave: it stays in
  its part, there is a string in it, it is \<open>s'\<close> on success, and there is success if \<open>k\<close> spare bytes are left.
\<close>

definition put_ok :: "nat \<Rightarrow> nat \<Rightarrow> nat \<Rightarrow> cstring \<Rightarrow> u8 list \<Rightarrow> bool \<Rightarrow> u8 list \<Rightarrow> bool" where
  "put_ok k base n s' a success a' \<longleftrightarrow>
     same_outside base n a a' \<and> (\<exists>s. holds a' base n s) \<and> (success \<longrightarrow> holds a' base n s') \<and> (length s' + k < n \<longrightarrow> success)"

definition puts_rc :: "nat \<Rightarrow> nat \<Rightarrow> nat \<Rightarrow> cstring \<Rightarrow> u8 list \<Rightarrow> (int \<times> u8 list) option \<Rightarrow> bool" where
  "puts_rc k base n s' a r \<longleftrightarrow> (\<exists>rc a'. r = Some (rc, a') \<and> put_ok k base n s' a (rc = QCLOUD_RET_SUCCESS) a')"

definition puts :: "nat \<Rightarrow> nat \<Rightarrow> cstring \<Rightarrow> u8 list \<Rightarrow> ((int + nat) \<times> u8 list) option \<Rightarrow> bool" where
  "puts base n s' a r \<longleftrightarrow> (\<exists>x a'. r = Some (x, a') \<and> put_ok 1 base n s' a (\<not> isl x) a' \<and>
     (case x of Inl rc \<Rightarrow> rc \<noteq> QCLOUD_RET_SUCCESS | Inr cur \<Rightarrow> cur = length s' \<and> cur + 1 < n))"

lemma put_ok_trans: "same_outside base n a b \<Longrightarrow> put_ok k base n s' b ok a' \<Longrightarrow> put_ok k base n s' a ok a'"
  by (auto simp: put_ok_def intro: same_outside_trans)

lemma put_ok_fail: "put_ok k base n s1 a False a' \<Longrightarrow> length s1 \<le> length s2 \<Longrightarrow> put_ok k base n s2 a False a'"
  by (auto simp: put_ok_def)

lemma on_success_puts_rc:
  assumes "puts base n s1 a r" and "length s1 \<le> length s2"
    and f: "\<And>a1. r = Some (Inr (length s1), a1) \<Longrightarrow> holds a1 base n s1 \<Longrightarrow> length s1 + 1 < n \<Longrightarrow> puts_rc 1 base n s2 a1 (f (length s1) a1)"
  shows "puts_rc 1 base n s2 a (on_success r f)"
proof -
  obtain x a1 where r: "r = Some (x, a1)" and ok: "put_ok 1 base n s1 a (\<not> isl x) a1"
    and x: "case x of Inl rc \<Rightarrow> rc \<noteq> QCLOUD_RET_SUCCESS | Inr cur \<Rightarrow> cur = length s1 \<and> cur + 1 < n"
    using assms(1) unfolding puts_def by blast
  show ?thesis
  proof (cases x)
    case (Inl rc)
    with x ok assms(2) show ?thesis by (auto simp: r on_success_def puts_rc_def intro: put_ok_fail)
  next
    case (Inr cur)
    have "holds a1 base n s1" "same_outside base n a a1" using ok by (simp_all add: Inr put_ok_def)
    with f [of a1] x show ?thesis by (auto simp: r Inr on_success_def puts_rc_def intro: put_ok_trans)
  qed
qed

lemma check_return [simp]:
  "length t < 2 ^ 31 \<Longrightarrow> check_snprintf_return (int (length t)) m = (if m \<le> length t then QCLOUD_ERR_JSON_BUFFER_TRUNCATED else QCLOUD_RET_SUCCESS)"
  by (simp add: check_snprintf_return_def)

text \<open>Text that is printed at the end of the string, or from its last character on.\<close>

lemma put_at_puts:
  assumes h: "holds a base n s" and p: "p \<le> length s" and m: "p + m \<le> n" "0 < m" "n \<le> length s + m" and t: "0 \<notin> set t" "length t < 2 ^ 31"
    and tight: "length s + length t \<le> length (take p s @ t) + 1"
  shows "puts_rc 1 base n (take p s @ t) a (do { (r, a) \<leftarrow> snprintf_at a (base + p) m t; Some (check_snprintf_return r m, a) })"
proof -
  obtain a' where a': "snprintf_at a (base + p) m t = Some (int (length t), a')" "holds a' base n (take p s @ take (m - 1) t)" "same_outside base n a a'"
    using snprintf_at_holds [OF h p m(2,1) t(1)] by blast
  then show ?thesis using t(2) p m tight by (auto simp: puts_rc_def put_ok_def)
qed

lemma put_text_puts:
  assumes "holds a base n s" and "0 \<notin> set t" "length t < 2 ^ 31"
  shows "puts_rc 1 base n (s @ t) a (put_text t base n (length s) a)"
proof -
  have "length s < n" using assms(1) by (simp add: holds_def)
  with put_at_puts [OF assms(1), of "length s" "n - length s" t] assms(2,3) show ?thesis by (simp add: put_text_def)
qed

lemma puts_then_check:
  assumes "puts_rc 1 base n s' a r" and "k = length s'"
  shows "puts base n s' a (do {
     (rc, a) \<leftarrow> r;
     Some (if rc \<noteq> QCLOUD_RET_SUCCESS then Inl rc
           else if n \<le> k + 1 then Inl QCLOUD_ERR_JSON_BUFFER_TOO_SMALL else Inr k, a) })"
  using assms by (auto simp: puts_rc_def puts_def put_ok_def)

lemma put_open_puts:
  assumes "holds a base n s"
  shows "puts base n (s @ [0x7B]) a (put_open base n (length s) a)"
  unfolding put_open_def by (rule puts_then_check [OF put_text_puts [OF assms]]) simp_all

lemma put_key_puts:
  assumes "holds a base n s" and "0 \<notin> set (key_text k)" "length (key_text k) < 2 ^ 31"
  shows "puts base n (s @ key_text k) a (put_key k base n a)"
proof (cases "n \<le> length s + 1")
  case True
  with assms(1) have "put_key k base n a = Some (Inl QCLOUD_ERR_JSON_BUFFER_TOO_SMALL, a)"
    by (simp add: put_key_def holds_strlen)
  with True assms(1) show ?thesis by (auto simp: puts_def put_ok_def)
next
  case False
  then show ?thesis
    unfolding put_key_def holds_strlen [OF assms(1)] Option.bind.simps if_not_P [OF False] Let_def
    by (intro puts_then_check [OF put_text_puts [OF assms]]) simp
qed

lemma put_over_puts:
  assumes "holds a base n s" and "s \<noteq> []" and "t \<noteq> []" "0 \<notin> set t" "length t < 2 ^ 31"
  shows "puts_rc 1 base n (butlast s @ t) a (put_over t base n (length s) a)"
proof -
  have "length s < n" using assms(1) by (simp add: holds_def)
  moreover have "Suc 0 \<le> length s" "length s \<noteq> 0" using assms(2) by (cases s; simp)+
  ultimately show ?thesis
    unfolding put_over_def butlast_conv_take if_not_P [OF \<open>length s \<noteq> 0\<close>]
    by (intro put_at_puts [OF assms(1)]) (use assms(3-) in simp_all)
qed

text \<open>The strings of a node are C strings, of less than 2 GB.\<close>

definition text_ok :: "cstring \<Rightarrow> bool" where
  "text_ok s \<longleftrightarrow> 0 \<notin> set s \<and> length s < 2 ^ 31"

fun node_ok :: "DeviceProperty \<Rightarrow> bool" where
  "node_ok (DeviceProperty k d) \<longleftrightarrow> text_ok (key_text k) \<and>
     (case object_nodes d of None \<Rightarrow> text_ok (value_text d) | Some nodes \<Rightarrow> (\<forall>p \<in> set nodes. node_ok p))"

declare node_ok.simps [simp del] node_text.simps [simp del]

definition nodes_text :: "DeviceProperty list \<Rightarrow> cstring" where
  "nodes_text ps = concat (map node_text (filter (\<lambda>p. dp_key p \<noteq> None) ps))"

lemma node_text_object:
  "object_nodes d = Some nodes \<Longrightarrow> node_text (DeviceProperty k d) = key_text k @ butlast (0x7B # nodes_text nodes) @ [0x7D, 0x2C]"
  by (simp add: node_text.simps nodes_text_def)

lemma puts_node:
  assumes h: "holds a base n s" "length s + 1 < n" and "puts_rc 1 (base + length s) (n - length s) t a r"
    and g: "\<And>a'. r = Some (QCLOUD_RET_SUCCESS, a') \<Longrightarrow> holds a' base n (s @ t) \<Longrightarrow> length (s @ t) + 1 < n \<Longrightarrow> puts base n (s @ t @ u) a' (g (length (s @ t)) a')"
  shows "puts base n (s @ t @ u) a
    (case r of None \<Rightarrow> None
     | Some (rc, a) \<Rightarrow>
         if rc \<noteq> QCLOUD_RET_SUCCESS then Some (Inl rc, a)
         else (case strlen_at a base of None \<Rightarrow> None
               | Some cur \<Rightarrow> if n \<le> cur + 1 then Some (Inl QCLOUD_ERR_JSON_BUFFER_TOO_SMALL, a) else g cur a))"
proof -
  obtain rc a' where r: "r = Some (rc, a')" and ok: "put_ok 1 (base + length s) (n - length s) t a (rc = QCLOUD_RET_SUCCESS) a'"
    using assms(3) by (auto simp: puts_rc_def)
  have out: "same_outside (base + length s) (n - length s) a a'" using ok by (simp add: put_ok_def)
  have out': "same_outside base n a a'" using out h(2) by (intro same_outside_part [OF out]) simp
  obtain s1 where s1: "holds a' base n s1" using ok holds_extend [OF h(1) _ out] by (auto simp: put_ok_def)
  show ?thesis
  proof (cases "rc = QCLOUD_RET_SUCCESS")
    case False
    then have "\<not> length (s @ t) + 1 < n" using ok by (auto simp: put_ok_def)
    with False out' s1 show ?thesis by (auto simp: r puts_def put_ok_def)
  next
    case True
    then have st: "holds a' base n (s @ t)" using ok by (intro holds_extend [OF h(1) _ out]) (simp add: put_ok_def)
    show ?thesis
    proof (cases "n \<le> length (s @ t) + 1")
      case True
      with \<open>rc = _\<close> st out' show ?thesis by (auto simp: r holds_strlen [OF st] puts_def put_ok_def)
    next
      case False
      then have "puts base n (s @ t @ u) a' (g (length (s @ t)) a')" using \<open>rc = _\<close> by (intro g [OF _ st]) (simp_all add: r)
      with out' have "puts base n (s @ t @ u) a (g (length (s @ t)) a')" unfolding puts_def by (blast intro: put_ok_trans)
      with False \<open>rc = _\<close> show ?thesis by (simp add: r holds_strlen [OF st])
    qed
  qed
qed

lemma put_json_node_puts:
  "node_ok p \<Longrightarrow> holds a base n s \<Longrightarrow> puts_rc 1 base n (s @ node_text p) a (put_json_node p base n a)"
  "\<forall>p \<in> set ps. node_ok p \<Longrightarrow> holds a base n s \<Longrightarrow> cur = length s \<Longrightarrow> length s + 1 < n \<Longrightarrow>
   puts base n (s @ nodes_text ps) a (put_json_nodes ps base n cur a)"
proof (induction p base n a and ps base n cur a arbitrary: s and s rule: put_json_node_put_json_nodes.induct)
  case (1 k d base n a)
  have k: "0 \<notin> set (key_text k)" "length (key_text k) < 2 ^ 31" using "1.prems"(1) by (simp_all add: node_ok.simps text_ok_def)
  show ?case
    unfolding put_json_node.simps
  proof (rule on_success_puts_rc [OF put_key_puts [OF "1.prems"(2) k]])
    fix a1
    assume r1: "put_key k base n a = Some (Inr (length (s @ key_text k)), a1)" and h1: "holds a1 base n (s @ key_text k)"
    show "puts_rc 1 base n (s @ node_text (DeviceProperty k d)) a1
      (case object_nodes d of
         None \<Rightarrow> put_text (value_text d) base n (length (s @ key_text k)) a1
       | Some nodes \<Rightarrow>
           on_success (put_open base n (length (s @ key_text k)) a1) (\<lambda>cur a.
             on_success (put_json_nodes nodes base n cur a) (\<lambda>cur a. put_over [0x7D, 0x2C] base n cur a)))"
    proof (cases "object_nodes d")
      case None
      with "1.prems"(1) put_text_puts [OF h1, of "value_text d"] show ?thesis
        by (simp add: node_text.simps node_ok.simps text_ok_def)
    next
      case (Some nodes)
      then have ok: "\<forall>p \<in> set nodes. node_ok p" using "1.prems"(1) by (simp add: node_ok.simps)
      let ?s = "(s @ key_text k) @ [0x7B]"
      have shape: "s @ node_text (DeviceProperty k d) = butlast (?s @ nodes_text nodes) @ [0x7D, 0x2C]"
        by (simp add: node_text_object [OF Some] butlast_append)
      have len: "length (s @ node_text (DeviceProperty k d)) = length (?s @ nodes_text nodes) + 1"
        unfolding shape by simp
      show ?thesis
        unfolding Some option.case
      proof (rule on_success_puts_rc [OF put_open_puts [OF h1]])
        fix a2
        assume r2: "put_open base n (length (s @ key_text k)) a1 = Some (Inr (length ?s), a2)" and h2: "holds a2 base n ?s" and l2: "length ?s + 1 < n"
        show "puts_rc 1 base n (s @ node_text (DeviceProperty k d)) a2
           (on_success (put_json_nodes nodes base n (length ?s) a2) (\<lambda>cur a. put_over [0x7D, 0x2C] base n cur a))"
        proof (rule on_success_puts_rc)
          show "puts base n (?s @ nodes_text nodes) a2 (put_json_nodes nodes base n (length ?s) a2)"
            by (rule "1.IH" [OF r1 Some r2 ok h2 refl l2])
          show "puts_rc 1 base n (s @ node_text (DeviceProperty k d)) a3 (put_over [0x7D, 0x2C] base n (length (?s @ nodes_text nodes)) a3)"
            if "holds a3 base n (?s @ nodes_text nodes)" and "length (?s @ nodes_text nodes) + 1 < n" for a3
            unfolding shape by (rule put_over_puts [OF that(1)]) simp_all
        qed (use len in simp)
      qed (use len in simp)
    qed
  qed (simp add: node_text.simps)
next
  case (2 base n cur a)
  then show ?case by (auto simp: puts_def put_ok_def nodes_text_def)
next
  case (3 node nodes base n cur a)
  show ?case
  proof (cases "dp_key node = None")
    case True
    with "3.IH"(1) [of s] "3.prems" show ?thesis by (simp add: nodes_text_def)
  next
    case False
    have nt: "nodes_text (node # nodes) = node_text node @ nodes_text nodes" using False by (simp add: nodes_text_def)
    have "puts_rc 1 (base + length s) (n - length s) ([] @ node_text node) a (put_json_node node (base + cur) (n - cur) a)"
      using "3.IH"(2) [of "[]"] False "3.prems" holds_suffix [OF "3.prems"(2)] by simp
    then have pr: "puts_rc 1 (base + length s) (n - length s) (node_text node) a (put_json_node node (base + cur) (n - cur) a)" by simp
    show ?thesis
      unfolding put_json_nodes.simps if_not_P [OF False] nt
    proof (rule puts_node [OF "3.prems"(2,4) pr])
      fix a'
      assume r: "put_json_node node (base + cur) (n - cur) a = Some (QCLOUD_RET_SUCCESS, a')"
        and h: "holds a' base n (s @ node_text node)" "length (s @ node_text node) + 1 < n"
      have "puts base n ((s @ node_text node) @ nodes_text nodes) a' (put_json_nodes nodes base n (length (s @ node_text node)) a')"
        by (rule "3.IH"(3) [OF False r refl _ holds_strlen [OF h(1)] _ _ h(1) refl h(2)]) (use "3.prems"(1) h in simp_all)
      then show "puts base n (s @ node_text node @ nodes_text nodes) a' (put_json_nodes nodes base n (length (s @ node_text node)) a')"
        by simp
    qed
  qed
qed

section \<open>Properties\<close>

text \<open>
  C27: A node is put after the string that the buffer holds, whole or not at all as far as the result tells:
  whatever the key, the value and the nesting of structures, the call returns and does not write outside the
  \<open>n\<close> bytes it was given; on success the string has grown by exactly the text of the node; and it
  succeeds if one byte more than the text and its terminating zero is free.
\<close>

theorem put_json_node_exact:
  assumes "node_ok p" and "c_string (take n a) = Some s" and "n \<le> length a"
  shows "\<exists>rc a'. put_json_node p 0 n a = Some (rc, a') \<and> length a' = length a \<and> drop n a' = drop n a \<and>
     (rc = QCLOUD_RET_SUCCESS \<longrightarrow> c_string a' = Some (s @ node_text p)) \<and> (length (s @ node_text p) + 1 < n \<longrightarrow> rc = QCLOUD_RET_SUCCESS)"
proof -
  from put_json_node_puts(1) [OF assms(1) c_string_holds [OF assms(2,3)]] obtain rc a'
    where r: "put_json_node p 0 n a = Some (rc, a')" "put_ok 1 0 n (s @ node_text p) a (rc = QCLOUD_RET_SUCCESS) a'"
    by (auto simp: puts_rc_def)
  then show ?thesis by (auto simp: put_ok_def same_outside_def dest: holds_c_string)
qed

definition demo_props :: "DeviceProperty list" where
  "demo_props = [DeviceProperty (Some (cstr ''power'')) (Some (JINT32 5)),
     DeviceProperty (Some (cstr ''pos'')) (Some (JOBJECT [DeviceProperty (Some (cstr ''x'')) (Some (JINT32 (- 1)))]))]"

lemma demo_node_ok: "\<forall>p \<in> set demo_props. node_ok p"
  by (simp add: demo_props_def node_ok.simps text_ok_def object_nodes_def value_text_def format_json_buffer_def dec_int_def dec_nat.simps cstr_def key_text_def)

theorem put_json_node_exact_witness:
  "\<exists>a'. put_json_node (demo_props ! 1) 0 32 (cstr ''{'' @ replicate 40 0) = Some (QCLOUD_RET_SUCCESS, a') \<and>
     c_string a' = Some (cstr ''{\"pos\":{\"x\":-1},'')"
proof -
  have t: "node_text (demo_props ! 1) = cstr ''\"pos\":{\"x\":-1},''"
    by (simp add: demo_props_def node_text.simps object_nodes_def value_text_def format_json_buffer_def dec_int_def dec_nat.simps cstr_def key_text_def)
  have ok: "node_ok (demo_props ! 1)" using demo_node_ok by (simp add: demo_props_def)
  have c: "c_string (take 32 (cstr ''{'' @ replicate 40 0)) = Some (cstr ''{'')" by (simp add: c_string_def cstr_def)
  obtain rc a' where r: "put_json_node (demo_props ! 1) 0 32 (cstr ''{'' @ replicate 40 0) = Some (rc, a')"
    "rc = QCLOUD_RET_SUCCESS \<longrightarrow> c_string a' = Some (cstr ''{'' @ node_text (demo_props ! 1))"
    "length (cstr ''{'' @ node_text (demo_props ! 1)) + 1 < 32 \<longrightarrow> rc = QCLOUD_RET_SUCCESS"
    using put_json_node_exact [OF ok c] by (auto simp: cstr_def)
  have "length (cstr ''{'' @ node_text (demo_props ! 1)) + 1 < 32" unfolding t by (simp add: cstr_def)
  with r have rc: "rc = QCLOUD_RET_SUCCESS" by blast
  with r(2) have "c_string a' = Some (cstr ''{'' @ node_text (demo_props ! 1))" by blast
  with rc r(1) t show ?thesis by (simp add: cstr_def)
qed

text \<open>
  Limits of the writer: a structure without members gives a text that is not JSON, and the error code for a
  failed conversion is never returned.
\<close>

lemma empty_structure: "node_text (DeviceProperty (Some k) (Some (JOBJECT []))) = chr_quote # k @ cstr ''\":},''"
  by (simp add: node_text.simps object_nodes_def key_text_def cstr_def)

lemma json_error_unreachable: "- (2 ^ 31) \<le> rc \<Longrightarrow> n < 2 ^ 63 \<Longrightarrow> check_snprintf_return rc n \<noteq> QCLOUD_ERR_JSON"
proof -
  assume rc: "- (2 ^ 31) \<le> rc" and n: "n < 2 ^ 63"
  have "rc mod 2 ^ 64 = rc + 2 ^ 64" if "rc < 0"
    using rc that mod_pos_pos_trivial [of "rc + 2 ^ 64" "2 ^ 64 :: int"] by simp
  with rc n show ?thesis by (auto simp: check_snprintf_return_def)
qed

end
