(* ===== verification/Dt_Report.thy ===== *)
theory Dt_Report
  imports Dt_Json
begin

text \<open>
  The documents of the data template service: the report that \<^verbatim>\<open>IOT_Template_JSON_ConstructReportArray\<close>
  (\<^verbatim>\<open>data_template_client.c\<close>) builds from properties, and the method that \<^verbatim>\<open>_set_template_json_type\<close>
  (\<^verbatim>\<open>data_template_client_manager.c\<close>) inserts before it is published. Shown is that the reader of \<^verbatim>\<open>Utils_Json\<close> finds
  in the document what the writer put there.
\<close>

section \<open>Documents of the data template\<close>

text \<open>A pair with an error ends the function; otherwise it goes on with the array.\<close>

definition go_on :: "(int \<times> u8 list) option \<Rightarrow> (u8 list \<Rightarrow> (int \<times> u8 list) option) \<Rightarrow> (int \<times> u8 list) option" where
  "go_on r f = (case r of None \<Rightarrow> None | Some (rc, a) \<Rightarrow> if rc \<noteq> QCLOUD_RET_SUCCESS then Some (rc, a) else f a)"

text \<open>The check for a remaining byte that the functions make between the pieces.\<close>

definition with_room :: "nat \<Rightarrow> u8 list \<Rightarrow> (nat \<Rightarrow> (int \<times> u8 list) option) \<Rightarrow> (int \<times> u8 list) option" where
  "with_room n a f = do {
     len \<leftarrow> strlen_at a 0;
     if n \<le> len + 1 then Some (QCLOUD_ERR_JSON_BUFFER_TOO_SMALL, a) else f len
   }"

abbreviation (input) MAX_SIZE_OF_JSON_WITH_CLIENT_TOKEN :: nat where "MAX_SIZE_OF_JSON_WITH_CLIENT_TOKEN \<equiv> 110"

record template_data =
  token_num :: "32 word"
  td_product_id :: cstring

definition client_token :: "32 word \<Rightarrow> cstring \<Rightarrow> cstring" where
  "client_token num prefix = prefix @ [0x2D] @ dec_nat (unat num)"

definition empty_json_text :: "cstring \<Rightarrow> cstring" where
  "empty_json_text token = cstr ''{\"clientToken\":\"'' @ token @ cstr ''\"}''"

definition build_empty_json :: "32 word \<Rightarrow> u8 list \<Rightarrow> cstring \<Rightarrow> (32 word \<times> u8 list) option" where
  "build_empty_json tokenNumber a tokenPrefix = do {
     (r, a) \<leftarrow> snprintf_at a 0 MAX_SIZE_OF_JSON_WITH_CLIENT_TOKEN
                 (empty_json_text (client_token tokenNumber tokenPrefix));
     Some (tokenNumber + 1, a)
   }"

text \<open>The index is an \<^verbatim>\<open>int8_t\<close>: after 127 comes -128, which is outside the array.\<close>

function report_loop :: "nat \<Rightarrow> nat \<Rightarrow> DeviceProperty option list \<Rightarrow> nat \<Rightarrow> u8 list \<Rightarrow> (int \<times> u8 list) option" where
  "report_loop i count props n a =
     (if i > 127 then None
      else if count \<le> i then Some (QCLOUD_RET_SUCCESS, a)
      else if length props \<le> i then None
      else case props ! i of
             None \<Rightarrow> Some (QCLOUD_ERR_INVAL, a)
           | Some node \<Rightarrow>
               if dp_key node = None then Some (QCLOUD_ERR_INVAL, a)
               else go_on (put_json_node node 0 n a) (report_loop (i + 1) count props n))"
  by pat_completeness auto
termination by (relation "measure (\<lambda>(i, count, props, n, a). count - i)") auto

declare report_loop.simps [simp del]

definition report_document :: "nat \<Rightarrow> nat \<Rightarrow> DeviceProperty option list \<Rightarrow> u8 list \<Rightarrow> (int \<times> u8 list) option" where
  "report_document sizeOfBuffer count props a =
     with_room sizeOfBuffer a (\<lambda>len.
       go_on (put_over (cstr '', \"params\":{'') 0 sizeOfBuffer len a) (\<lambda>a.
         go_on (report_loop 0 count props (sizeOfBuffer - len) a) (\<lambda>a.
           with_room sizeOfBuffer a (\<lambda>len. put_over (cstr ''}}'') 0 sizeOfBuffer len a))))"

definition IOT_Template_JSON_ConstructReportArray ::
  "('t template_data_scheme) option \<Rightarrow> u8 list option \<Rightarrow> nat \<Rightarrow> nat \<Rightarrow> DeviceProperty option list option \<Rightarrow>
   (int \<times> 't template_data_scheme option \<times> u8 list option) option" where
  "IOT_Template_JSON_ConstructReportArray pClient jsonBuffer sizeOfBuffer count pDeviceProperties =
     (case (jsonBuffer, pDeviceProperties, pClient) of
        (Some a, Some props, Some t) \<Rightarrow> do {
          (num, a) \<leftarrow> build_empty_json (token_num t) a (td_product_id t);
          (rc, a) \<leftarrow> report_document sizeOfBuffer count props a;
          Some (rc, Some (t\<lparr>token_num := num\<rparr>), Some a)
        }
      | _ \<Rightarrow> Some (QCLOUD_ERR_INVAL, pClient, jsonBuffer))"

text \<open>\<^verbatim>\<open>insert_str\<close>: the end of the string is moved from its last character on, then the gap is filled.\<close>

fun insert_shift :: "nat \<Rightarrow> nat \<Rightarrow> nat \<Rightarrow> u8 list \<Rightarrow> u8 list option" where
  "insert_shift i pos nlen a =
     (if i \<le> pos then Some a
      else do {
        c \<leftarrow> buf_get a (i - 1);
        a \<leftarrow> buf_put a (i - 1 + nlen) c;
        insert_shift (i - 1) pos nlen a
      })"

declare insert_shift.simps [simp del]

definition insert_str :: "u8 list \<Rightarrow> cstring \<Rightarrow> nat \<Rightarrow> u8 list option" where
  "insert_str a src pos = do {
     s \<leftarrow> c_string a;
     a \<leftarrow> insert_shift (length s) pos (length src) a;
     a \<leftarrow> buf_write a pos src;
     buf_put a (length s + length src) 0
   }"

datatype Method = GET | REPORT | RINFO | REPLY | CLEAR

definition method_str :: "Method \<Rightarrow> cstring" where
  "method_str m = (case m of
     GET \<Rightarrow> cstr ''get_status'' | REPORT \<Rightarrow> cstr ''report'' | RINFO \<Rightarrow> cstr ''report_info''
   | REPLY \<Rightarrow> cstr ''control_reply'' | CLEAR \<Rightarrow> cstr ''clear_control'')"

definition method_node :: "Method \<Rightarrow> cstring" where
  "method_node m = take 63 (cstr ''\"method\":\"'' @ method_str m @ cstr ''\", '')"

definition set_template_json_type :: "u8 list \<Rightarrow> nat \<Rightarrow> Method \<Rightarrow> (int \<times> u8 list) option" where
  "set_template_json_type a sizeOfBuffer m = do {
     s \<leftarrow> c_string a;
     if (int sizeOfBuffer - int (length s) - 1) mod 2 ^ 64 \<le> int (length (method_node m)) then Some (QCLOUD_ERR_INVAL, a)
     else do { a \<leftarrow> insert_str a (method_node m) 1; Some (QCLOUD_RET_SUCCESS, a) }
   }"

section \<open>Documents are written whole or an error is returned\<close>

lemma puts_rc_mono: "puts_rc k base n s a r \<Longrightarrow> k \<le> k' \<Longrightarrow> puts_rc k' base n s a r"
  by (force simp: puts_rc_def put_ok_def)

lemma go_on_puts:
  assumes "puts_rc k base n s1 a r" and "length s1 \<le> length s2"
    and f: "\<And>a1. holds a1 base n s1 \<Longrightarrow> puts_rc k base n s2 a1 (f a1)"
  shows "puts_rc k base n s2 a (go_on r f)"
proof -
  obtain rc a1 where r: "r = Some (rc, a1)" and ok: "put_ok k base n s1 a (rc = QCLOUD_RET_SUCCESS) a1"
    using assms(1) unfolding puts_rc_def by blast
  show ?thesis
  proof (cases "rc = QCLOUD_RET_SUCCESS")
    case True
    have "holds a1 base n s1" "same_outside base n a a1" using ok True by (simp_all add: put_ok_def)
    with True f [of a1] show ?thesis by (auto simp: r go_on_def puts_rc_def intro: put_ok_trans)
  next
    case False
    with ok assms(2) show ?thesis by (auto simp: r go_on_def puts_rc_def intro: put_ok_fail)
  qed
qed

lemma with_room_puts:
  assumes "holds a 0 n s" and "length s \<le> length s2" and "1 \<le> k"
    and "length s + 1 < n \<Longrightarrow> puts_rc k 0 n s2 a (f (length s))"
  shows "puts_rc k 0 n s2 a (with_room n a f)"
  using assms by (auto simp: with_room_def holds_strlen puts_rc_def put_ok_def)

text \<open>The properties are written into a part that is shorter than the buffer by the length \<open>k\<close> of the first piece.\<close>

lemma holds_wider: "holds a 0 m s \<Longrightarrow> m \<le> n \<Longrightarrow> n \<le> length a \<Longrightarrow> holds a 0 n s"
  by (simp add: holds_def)

lemma puts_narrow:
  assumes h: "holds a 0 n s" and small: "n - k \<le> length s + 1 \<Longrightarrow> \<exists>rc. r = Some (rc, a) \<and> rc \<noteq> QCLOUD_RET_SUCCESS"
    and big: "holds a 0 (n - k) s \<Longrightarrow> puts_rc 1 0 (n - k) (s @ t) a r"
  shows "puts_rc (k + 1) 0 n (s @ t) a r"
proof (cases "n - k \<le> length s + 1")
  case True
  then have "\<not> length (s @ t) + (k + 1) < n" by simp
  with small [OF True] h show ?thesis by (auto simp: puts_rc_def put_ok_def)
next
  case False
  have la: "n \<le> length a" using h by (simp add: holds_def)
  have "holds a 0 (n - k) s" using h False by (auto simp: holds_def)
  from big [OF this] obtain rc a' where r: "r = Some (rc, a')"
    and ok: "put_ok 1 0 (n - k) (s @ t) a (rc = QCLOUD_RET_SUCCESS) a'" by (auto simp: puts_rc_def)
  have out: "length a' = length a" "drop (n - k) a' = drop (n - k) a" using ok by (simp_all add: put_ok_def same_outside_def)
  have "n - (n - k) + (n - k) = n" by simp
  then have "drop n a' = drop n a" by (metis drop_drop out(2))
  then have "same_outside 0 n a a'" using out by (simp add: same_outside_def)
  moreover have wide: "holds a' 0 n t" if "holds a' 0 (n - k) t" for t using that out la by (intro holds_wider [OF that]) simp_all
  moreover have "\<exists>s. holds a' 0 n s" "rc = QCLOUD_RET_SUCCESS \<longrightarrow> holds a' 0 n (s @ t)"
    using ok wide by (auto simp: put_ok_def)
  moreover have "length (s @ t) + (k + 1) < n \<longrightarrow> rc = QCLOUD_RET_SUCCESS" using ok by (auto simp: put_ok_def)
  ultimately show ?thesis by (simp add: r puts_rc_def put_ok_def)
qed

lemma put_node_narrow:
  assumes "node_ok p" and h: "holds a 0 n s"
  shows "puts_rc (k + 1) 0 n (s @ node_text p) a (put_json_node p 0 (n - k) a)"
proof (rule puts_narrow [OF h _ put_json_node_puts(1) [OF assms(1)]])
  obtain key d where p: "p = DeviceProperty key d" by (cases p)
  assume "n - k \<le> length s + 1"
  then show "\<exists>rc. put_json_node p 0 (n - k) a = Some (rc, a) \<and> rc \<noteq> QCLOUD_RET_SUCCESS"
    by (simp add: p put_key_def holds_strlen [OF h] on_success_def)
qed

lemma report_loop_puts:
  assumes "\<forall>p \<in> set ps. node_ok p \<and> dp_key p \<noteq> None" and "length ps \<le> 127" and "i \<le> length ps"
    and "holds a 0 n s"
  shows "puts_rc (k + 1) 0 n (s @ nodes_text (drop i ps)) a (report_loop i (length ps) (map Some ps) (n - k) a)"
  using assms(3,4)
proof (induction "length ps - i" arbitrary: i s a)
  case 0
  then show ?case using assms(2) by (subst report_loop.simps) (auto simp: nodes_text_def puts_rc_def put_ok_def)
next
  case (Suc m)
  then have i: "i < length ps" by simp
  have p: "node_ok (ps ! i)" "dp_key (ps ! i) \<noteq> None" using assms(1) i by auto
  have nt: "nodes_text (drop i ps) = node_text (ps ! i) @ nodes_text (drop (i + 1) ps)"
    using p(2) by (simp add: nodes_text_def Cons_nth_drop_Suc [OF i, symmetric])
  have step: "report_loop i (length ps) (map Some ps) (n - k) a =
      go_on (put_json_node (ps ! i) 0 (n - k) a) (report_loop (i + 1) (length ps) (map Some ps) (n - k))"
    using i p(2) assms(2) by (subst report_loop.simps) auto
  show ?case
    unfolding step
  proof (rule go_on_puts [OF put_node_narrow [OF p(1) Suc.prems(2)]])
    show "length (s @ node_text (ps ! i)) \<le> length (s @ nodes_text (drop i ps))" by (simp add: nt)
    fix a1
    assume "holds a1 0 n (s @ node_text (ps ! i))"
    from Suc.hyps(1) [OF _ _ this, of "i + 1"] Suc.hyps(2) i
    show "puts_rc (k + 1) 0 n (s @ nodes_text (drop i ps)) a1 (report_loop (i + 1) (length ps) (map Some ps) (n - k) a1)"
      by (simp add: nt)
  qed
qed

text \<open>The document: the token, then the properties.\<close>

definition report_text :: "cstring \<Rightarrow> DeviceProperty list \<Rightarrow> cstring" where
  "report_text token ps = butlast (butlast (empty_json_text token) @ cstr '', \"params\":{'' @ nodes_text ps) @ cstr ''}}''"

lemma report_document_puts:
  assumes ps: "\<forall>p \<in> set ps. node_ok p \<and> dp_key p \<noteq> None" "length ps \<le> 127"
    and h: "holds a 0 n (empty_json_text token)"
  shows "puts_rc (length (empty_json_text token) + 1) 0 n (report_text token ps) a (report_document n (length ps) (map Some ps) a)"
proof -
  let ?e = "empty_json_text token" and ?q = "cstr '', \"params\":{''" and ?last = "cstr ''}}''"
  let ?k = "length ?e + 1" and ?s1 = "butlast ?e @ ?q" and ?s2 = "butlast ?e @ ?q @ nodes_text ps" and ?s3 = "report_text token ps"
  have e: "?e \<noteq> []" by (simp add: empty_json_text_def cstr_def)
  have s2: "?s2 \<noteq> []" by (simp add: cstr_def)
  have l3: "length ?s3 = length ?s2 + 1" using s2 by (simp add: report_text_def cstr_def)
  have l1: "length ?e \<le> length ?s1" by (simp add: cstr_def)
  have t: "0 \<notin> set ?q" "0 \<notin> set ?last" "?q \<noteq> []" "?last \<noteq> []" "length ?q < 2 ^ 31" "length ?last < 2 ^ 31" by (simp_all add: cstr_def)
  show ?thesis
    unfolding report_document_def
  proof (rule with_room_puts [OF h])
    show "puts_rc ?k 0 n ?s3 a (go_on (put_over ?q 0 n (length ?e) a) (\<lambda>a. go_on (report_loop 0 (length ps) (map Some ps) (n - length ?e) a)
           (\<lambda>a. with_room n a (\<lambda>len. put_over ?last 0 n len a))))"
    proof (rule go_on_puts)
      show "puts_rc ?k 0 n ?s1 a (put_over ?q 0 n (length ?e) a)"
        by (rule puts_rc_mono [OF put_over_puts [OF h e t(3,1,5)]]) simp
      fix a1
      assume h1: "holds a1 0 n ?s1"
      show "puts_rc ?k 0 n ?s3 a1 (go_on (report_loop 0 (length ps) (map Some ps) (n - length ?e) a1) (\<lambda>a. with_room n a (\<lambda>len. put_over ?last 0 n len a)))"
      proof (rule go_on_puts)
        show "puts_rc ?k 0 n ?s2 a1 (report_loop 0 (length ps) (map Some ps) (n - length ?e) a1)"
          using report_loop_puts [OF ps _ h1, of 0 "length ?e"] by simp
        fix a2
        assume h2: "holds a2 0 n ?s2"
        show "puts_rc ?k 0 n ?s3 a2 (with_room n a2 (\<lambda>len. put_over ?last 0 n len a2))"
        proof (rule with_room_puts [OF h2])
          show "puts_rc ?k 0 n ?s3 a2 (put_over ?last 0 n (length ?s2) a2)"
            unfolding report_text_def by (rule puts_rc_mono [OF put_over_puts [OF h2 s2 t(4,2,6)]]) simp
        qed (use l3 in simp_all)
      qed (use l3 in simp)
    qed (use l3 in simp)
  qed (use l3 l1 in simp_all)
qed

section \<open>Inserting a string\<close>

lemma insert_shift_nth:
  "k + nlen \<le> length a \<Longrightarrow> \<exists>a'. insert_shift k pos nlen a = Some a' \<and> length a' = length a \<and>
     (\<forall>j < length a. a' ! j = (if pos + nlen \<le> j \<and> j < k + nlen then a ! (j - nlen) else a ! j))"
proof (induction k arbitrary: a)
  case 0
  then show ?case by (subst insert_shift.simps) auto
next
  case (Suc k)
  show ?case
  proof (cases "Suc k \<le> pos")
    case True
    then show ?thesis by (subst insert_shift.simps) auto
  next
    case False
    let ?a = "a[k + nlen := a ! k]"
    have "insert_shift (Suc k) pos nlen a = insert_shift k pos nlen ?a"
      using False Suc.prems by (subst insert_shift.simps) (simp add: buf_get_def buf_put_def)
    moreover obtain a' where "insert_shift k pos nlen ?a = Some a'" "length a' = length a"
      "\<forall>j < length a. a' ! j = (if pos + nlen \<le> j \<and> j < k + nlen then ?a ! (j - nlen) else ?a ! j)"
      using Suc.IH [of ?a] Suc.prems by auto
    moreover have "(if pos + nlen \<le> j \<and> j < k + nlen then ?a ! (j - nlen) else ?a ! j) =
        (if pos + nlen \<le> j \<and> j < Suc k + nlen then a ! (j - nlen) else a ! j)" if "j < length a" for j
      using that False Suc.prems by (auto simp: nth_list_update)
    ultimately show ?thesis by auto
  qed
qed

lemma insert_str_holds:
  assumes h: "holds a 0 n s" and src: "0 \<notin> set src" and pos: "pos \<le> length s" and room: "length s + length src < n"
  shows "\<exists>a'. insert_str a src pos = Some a' \<and> holds a' 0 n (take pos s @ src @ drop pos s) \<and> length a' = length a"
proof -
  let ?k = "length s" and ?m = "length src"
  obtain r where a: "a = s @ 0 # r" and n: "n \<le> length a" using h by (auto simp: holds_def)
  have cs: "c_string a = Some s" by (rule holds_c_string [OF h])
  obtain a1 where a1: "insert_shift ?k pos ?m a = Some a1" "length a1 = length a"
    "\<And>j. j < length a \<Longrightarrow> a1 ! j = (if pos + ?m \<le> j \<and> j < ?k + ?m then a ! (j - ?m) else a ! j)"
    using insert_shift_nth [of ?k ?m a pos] n room by auto
  let ?a2 = "take pos a1 @ src @ drop (pos + ?m) a1"
  let ?a3 = "?a2[?k + ?m := 0]"
  have w: "buf_write a1 pos src = Some ?a2" using pos room n a1(2) by (auto simp: buf_write_def)
  have len: "length ?a3 = length a" using pos room n a1(2) by simp
  have run: "insert_str a src pos = Some ?a3"
    using len room n by (simp add: insert_str_def cs a1(1) w buf_put_def del: append_assoc)
  have "take (?k + ?m + 1) ?a3 = take pos s @ src @ drop pos s @ [0]"
  proof (rule nth_equalityI)
    show "length (take (?k + ?m + 1) ?a3) = length (take pos s @ src @ drop pos s @ [0])" using len room n pos by simp
    fix j
    assume "j < length (take (?k + ?m + 1) ?a3)"
    then have j: "j \<le> ?k + ?m" "j < length a" using len by auto
    consider "j < pos" | "pos \<le> j" "j < pos + ?m" | "pos + ?m \<le> j" "j < ?k + ?m" | "j = ?k + ?m" using j(1) by linarith
    then show "take (?k + ?m + 1) ?a3 ! j = (take pos s @ src @ drop pos s @ [0]) ! j"
      using pos room n a1(2) j by cases (auto simp: nth_append nth_list_update a1(3) a)
  qed
  then have "?a3 = (take pos s @ src @ drop pos s @ [0]) @ drop (?k + ?m + 1) ?a3"
    by (metis append_take_drop_id)
  then have "\<exists>r. ?a3 = (take pos s @ src @ drop pos s) @ 0 # r" by (metis append.assoc append_Cons append_Nil)
  moreover have "0 \<notin> set (take pos s @ src @ drop pos s)"
    using h src by (auto simp: holds_def dest: in_set_takeD in_set_dropD)
  ultimately have "holds ?a3 0 n (take pos s @ src @ drop pos s)" using room n len pos by (simp add: holds_def)
  with run len show ?thesis by blast
qed

lemma set_template_json_type_holds:
  assumes h: "holds a 0 n s" and s: "s \<noteq> []" and n: "n < 2 ^ 63"
  shows "\<exists>rc a'. set_template_json_type a n m = Some (rc, a') \<and>
     (if length s + length (method_node m) + 1 < n then rc = QCLOUD_RET_SUCCESS \<and> holds a' 0 n (hd s # method_node m @ tl s)
      else rc = QCLOUD_ERR_INVAL \<and> a' = a)"
proof -
  have cs: "c_string a = Some s" by (rule holds_c_string [OF h])
  have len: "length s < n" using h by (simp add: holds_def)
  have room: "(int n - int (length s) - 1) mod 2 ^ 64 = int (n - length s - 1)"
    using len n by (subst mod_pos_pos_trivial) (auto simp: of_nat_diff)
  have zero: "0 \<notin> set (method_node m)"
    by (cases m) (simp_all add: method_node_def method_str_def cstr_def)
  show ?thesis
  proof (cases "length s + length (method_node m) + 1 < n")
    case True
    have pos: "1 \<le> length s" using s by (cases s) auto
    obtain a' where "insert_str a (method_node m) 1 = Some a'" "holds a' 0 n (take 1 s @ method_node m @ drop 1 s)"
      using insert_str_holds [OF h zero pos] True by auto
    moreover have "take 1 s @ method_node m @ drop 1 s = hd s # method_node m @ tl s" using s by (cases s) auto
    moreover have "\<not> int (n - length s - 1) \<le> int (length (method_node m))" using True by simp
    ultimately show ?thesis using True unfolding set_template_json_type_def cs Option.bind.simps room by simp
  next
    case False
    then have "int (n - length s - 1) \<le> int (length (method_node m))" by simp
    with False show ?thesis unfolding set_template_json_type_def cs Option.bind.simps room by simp
  qed
qed

section \<open>The report as a JSON text\<close>

text \<open>
  A property stands for a member of a JSON object: a scalar or an array by its text, a structure, which must not be
  empty, by its members.
\<close>

fun means :: "DeviceProperty \<Rightarrow> cstring \<times> json \<Rightarrow> bool" where
  "means (DeviceProperty k d) (k', j) \<longleftrightarrow> k = Some k' \<and>
     (case object_nodes d of
        None \<Rightarrow> value_text d = json_text j @ [0x2C]
      | Some nodes \<Rightarrow> nodes \<noteq> [] \<and> (case j of JObj kvs \<Rightarrow> list_all2 means nodes kvs | _ \<Rightarrow> False))"

declare means.simps [simp del]

lemma commas_sep: "xs \<noteq> [] \<Longrightarrow> concat (map (\<lambda>x. x @ [0x2C]) xs) = sep xs @ [0x2C]"
  by (induction xs rule: sep.induct) auto

definition member_text :: "cstring \<times> json \<Rightarrow> cstring" where
  "member_text = (\<lambda>(k, v). chr_quote # k @ chr_quote # chr_colon # json_text v)"

lemma json_members_text: "json_members kvs = sep (map member_text kvs)"
  by (simp add: json_members_def member_text_def)

lemma means_key: "means p kv \<Longrightarrow> dp_key p = Some (fst kv)"
  by (cases p; cases kv) (simp add: means.simps)

lemma nodes_text_members:
  assumes "list_all2 (\<lambda>p kv. dp_key p \<noteq> None \<and> node_text p = member_text kv @ [0x2C]) ps kvs" and "ps \<noteq> []"
  shows "nodes_text ps = json_members kvs @ [0x2C]"
proof -
  have "nodes_text ps = concat (map (\<lambda>x. x @ [0x2C]) (map member_text kvs))"
    using assms(1) by induction (simp_all add: nodes_text_def)
  moreover have "kvs \<noteq> []" using assms by auto
  ultimately show ?thesis using commas_sep [of "map member_text kvs"] by (simp add: json_members_text)
qed

lemma node_text_means: "means p kv \<Longrightarrow> node_text p = member_text kv @ [0x2C]"
proof (induction p kv rule: means.induct)
  case (1 k d k' j)
  have k: "key_text k = chr_quote # k' @ [chr_quote, chr_colon]" using "1.prems" by (simp add: means.simps key_text_def)
  show ?case
  proof (cases "object_nodes d")
    case None
    with "1.prems" k show ?thesis by (simp add: means.simps node_text.simps member_text_def)
  next
    case (Some nodes)
    then obtain kvs where j: "j = JObj kvs" and all: "list_all2 means nodes kvs" and ne: "nodes \<noteq> []"
      using "1.prems" by (auto simp: means.simps split: json.splits)
    have "list_all2 (\<lambda>p kv. dp_key p \<noteq> None \<and> node_text p = member_text kv @ [0x2C]) nodes kvs"
      using all by (rule list.rel_mono_strong) (use "1.IH" [OF Some j] in \<open>auto dest: means_key\<close>)
    from nodes_text_members [OF this ne] show ?thesis
      using k by (simp add: node_text_object [OF Some] member_text_def j json_text_JObj butlast_append del: json_text.simps)
  qed
qed

lemma report_text_means:
  assumes "list_all2 means ps kvs" and "ps \<noteq> []"
  shows "report_text token ps = cstr ''{\"clientToken\":\"'' @ token @ cstr ''\", \"params\":'' @ json_text (JObj kvs) @ cstr ''}''"
proof -
  have "list_all2 (\<lambda>p kv. dp_key p \<noteq> None \<and> node_text p = member_text kv @ [0x2C]) ps kvs"
    using assms(1) by (rule list.rel_mono_strong) (auto dest: means_key node_text_means)
  from nodes_text_members [OF this assms(2)] show ?thesis
    by (simp add: report_text_def empty_json_text_def json_text_JObj cstr_def butlast_append del: json_text.simps)
qed

text \<open>What the reader gets for a name.\<close>

definition json_read :: "cstring \<Rightarrow> cstring \<Rightarrow> cstring option option" where
  "json_read doc name = map_option (\<lambda>(p, n, ty). map_option (take n) p) (json_get_value_by_name doc (length doc) name False)"

definition request_text :: "Method \<Rightarrow> cstring \<Rightarrow> (cstring \<times> json) list \<Rightarrow> cstring" where
  "request_text m token kvs =
     cstr ''{\"method\":\"'' @ method_str m @ cstr ''\", \"clientToken\":\"'' @ token @ cstr ''\", \"params\":'' @ json_text (JObj kvs) @ cstr ''}''"

lemma method_plain: "plain (method_str m)" "method_str m \<noteq> []"
  by (cases m; simp add: method_str_def plain_def cstr_def)+

lemma request_text_read:
  assumes "plain token" and "token \<noteq> []" and "json_ok (JObj kvs)"
  shows "json_read (request_text m token kvs) (cstr ''method'') = Some (Some (method_str m))"
    "json_read (request_text m token kvs) (cstr ''clientToken'') = Some (Some token)"
    "json_read (request_text m token kvs) (cstr ''params'') = Some (Some (json_text (JObj kvs)))"
proof -
  let ?members = "[(cstr ''method'', JStr (method_str m)), (cstr ''clientToken'', JStr token), (cstr ''params'', JObj kvs)]"
  let ?segs = "[([chr_lbrace], cstr ''method'', JStr (method_str m)), (cstr '', '', cstr ''clientToken'', JStr token), (cstr '', '', cstr ''params'', JObj kvs)]"
  have doc: "request_text m token kvs = seg_text ?segs @ [chr_rbrace]"
    by (simp add: request_text_def seg_text_def cstr_def del: json_text.simps(5))
  have ok: "\<forall>x \<in> set ?segs. seg_ok x"
    using assms method_plain(1) [of m] by (simp add: seg_ok_def cstr_def plain_def is_digit_def)
  have full: "full_members (map snd ?segs) = ?members"
    using assms(2) method_plain(2) [of m] by (simp add: full_members_def json_content_def)
  have read: "json_read (request_text m token kvs) name = Some (map_option json_content (map_of ?members name))" for name
  proof -
    define found where "found = map_of ?members name"
    obtain nv where "json_get_value_by_name (seg_text ?segs @ [chr_rbrace]) (length (seg_text ?segs @ [chr_rbrace])) name False = Some (nv_pV nv, nv_vLen nv, nv_vType nv)"
      "nv_found name found nv"
      using lookup_segs [OF _ _ ok, of "[chr_rbrace]" name] unfolding full found_def by auto
    then show ?thesis unfolding doc json_read_def found_def [symmetric] by (auto simp: nv_found_def split: option.splits)
  qed
  show "json_read (request_text m token kvs) (cstr ''method'') = Some (Some (method_str m))"
    "json_read (request_text m token kvs) (cstr ''clientToken'') = Some (Some token)"
    "json_read (request_text m token kvs) (cstr ''params'') = Some (Some (json_text (JObj kvs)))"
    unfolding read by (simp_all add: cstr_def json_content_def del: json_text.simps(5))
qed

section \<open>Numbers\<close>

lemma digit_plain: "is_digit c \<Longrightarrow> c \<notin> {0, chr_quote, chr_backslash, chr_lbrace, chr_rbrace, chr_lbracket, chr_rbracket}"
  by (auto simp: is_digit_def)

lemma token_plain: "plain pid \<Longrightarrow> plain (client_token num pid)" "client_token num pid \<noteq> []"
  using dec_nat_digits [of "unat num"] digit_plain by (fastforce simp: plain_def client_token_def)+

text \<open>The integers are numbers for the reader.\<close>

lemma dec_int_number: "json_ok (JNum (dec_int i))"
  using dec_nat_digits [of "nat i"] dec_nat_digits [of "nat (- i)"]
  by (cases "dec_nat (nat i)") (auto simp: dec_int_def)

lemma integer_means:
  "means (DeviceProperty (Some k) (Some (JINT32 x))) (k, JNum (dec_int (sint x)))"
  "means (DeviceProperty (Some k) (Some (JUINT32 x))) (k, JNum (dec_int (uint x)))"
  by (simp_all add: means.simps object_nodes_def value_text_def format_json_buffer_def)

section \<open>The document that goes out\<close>

lemma build_empty_json_holds:
  assumes "plain pid" and "length (empty_json_text (client_token num pid)) < min n 110" and "n \<le> length a" and "110 \<le> length a"
  shows "\<exists>a'. build_empty_json num a pid = Some (num + 1, a') \<and> holds a' 0 n (empty_json_text (client_token num pid)) \<and> length a' = length a"
proof -
  let ?e = "empty_json_text (client_token num pid)"
  have "0 \<notin> set (client_token num pid)" using token_plain(1) [OF assms(1), of num] by (auto simp: plain_def)
  then have "0 \<notin> set ?e" by (simp add: empty_json_text_def cstr_def)
  moreover have "take 109 ?e = ?e" using assms(2) by simp
  ultimately show ?thesis using assms by (auto simp: build_empty_json_def snprintf_at_def buf_write_def holds_def)
qed

lemma empty_json_length:
  assumes "length pid \<le> 10"
  shows "length (empty_json_text (client_token num pid)) \<le> 39"
proof -
  have "unat num < 2 ^ LENGTH(32)" by (rule unsigned_less)
  then have "unat num < 10 ^ 10" by simp
  then have "length (dec_nat (unat num)) \<le> 10" by (rule dec_nat_length) simp
  then show ?thesis using assms by (simp add: empty_json_text_def client_token_def cstr_def)
qed

lemma request_text_insert:
  assumes "list_all2 means ps kvs" and "ps \<noteq> []"
  shows "hd (report_text token ps) # method_node m @ tl (report_text token ps) = request_text m token kvs"
    "report_text token ps \<noteq> []"
  unfolding report_text_means [OF assms] request_text_def
  by (cases m; simp add: method_node_def method_str_def cstr_def del: json_text.simps)+

text \<open>An integer among the properties is found under its key and read with its value.\<close>

lemma number_content: "json_ok j \<Longrightarrow> json_text j = dec_int i \<Longrightarrow> json_content j = dec_int i"
  using dec_int_number [of i] by (cases j) (auto simp: json_content_def dest!: sym [of "_ # _" "dec_int i"])

lemma integer_read:
  assumes "list_all2 means ps kvs" and "json_ok (JObj kvs)" and "distinct (map dp_key ps)"
    and "DeviceProperty (Some k) (Some (JINT32 x)) \<in> set ps"
  shows "\<exists>s. json_read (json_text (JObj kvs)) k = Some (Some s) \<and> LITE_get_int32 s = Some (Inr (sint x))"
proof -
  obtain i where i: "i < length ps" "ps ! i = DeviceProperty (Some k) (Some (JINT32 x))" using assms(4) by (auto simp: in_set_conv_nth)
  have len: "length ps = length kvs" using assms(1) by (rule list_all2_lengthD)
  obtain j where j: "kvs ! i = (k, j)" "json_text j = dec_int (sint x)"
    using list_all2_nthD [OF assms(1) i(1)]
    by (cases "kvs ! i") (auto simp: i(2) means.simps object_nodes_def value_text_def format_json_buffer_def)
  have mem: "(k, j) \<in> set kvs" using i(1) len j(1) by (metis nth_mem)
  then have content: "json_content j = dec_int (sint x)" using assms(2) j(2) by (intro number_content) auto
  have "map (Some \<circ> fst) kvs = map dp_key ps" using assms(1) by induction (auto dest: means_key)
  then have "distinct (map fst kvs)" using assms(3) by (metis distinct_map map_map)
  then have "distinct (map fst (full_members kvs))" by (simp add: full_members_def distinct_map_filter)
  moreover have "(k, j) \<in> set (full_members kvs)" using mem content dec_nat_digits by (auto simp: full_members_def dec_int_def)
  ultimately have found: "map_of (full_members kvs) k = Some j" by simp
  show ?thesis
    using lookup_in_object [OF assms(2), of k] unfolding found
    by (auto simp: json_read_def nv_found_def content number_round_trip)
qed

section \<open>Properties\<close>

text \<open>
  C26: A report that is constructed from properties and given its method reads back: the
  JSON reader of the SDK finds in it the method, the token with the number of the request, and under \<^verbatim>\<open>params\<close> the
  JSON object that the properties stand for, and there every 32-bit integer under its key. The call succeeds when the buffer has room for the document and another
  copy of the part with the token, and no more than 127 properties are given.
\<close>

theorem report_round_trip:
  fixes t :: "'t template_data_scheme" and kvs :: "(cstring \<times> json) list"
  defines "token \<equiv> client_token (token_num t) (td_product_id t)"
  assumes ps: "\<forall>p \<in> set ps. node_ok p" "list_all2 means ps kvs" "ps \<noteq> []" "length ps \<le> 127" "json_ok (JObj kvs)"
    and pid: "plain (td_product_id t)" "length (td_product_id t) \<le> 10"
    and a: "n \<le> length a" "110 \<le> length a" "n < 2 ^ 63" and room: "length (request_text REPORT token kvs) + 40 < n"
  shows "\<exists>a1 a2 doc. IOT_Template_JSON_ConstructReportArray (Some t) (Some a) n (length ps) (Some (map Some ps)) =
       Some (QCLOUD_RET_SUCCESS, Some (t\<lparr>token_num := token_num t + 1\<rparr>), Some a1) \<and>
     set_template_json_type a1 n REPORT = Some (QCLOUD_RET_SUCCESS, a2) \<and> c_string a2 = Some doc \<and>
     json_read doc (cstr ''method'') = Some (Some (cstr ''report'')) \<and> json_read doc (cstr ''clientToken'') = Some (Some token) \<and>
     json_read doc (cstr ''params'') = Some (Some (json_text (JObj kvs))) \<and>
     (distinct (map dp_key ps) \<longrightarrow>
        (\<forall>k x. DeviceProperty (Some k) (Some (JINT32 x)) \<in> set ps \<longrightarrow>
           (\<exists>s. json_read (json_text (JObj kvs)) k = Some (Some s) \<and> LITE_get_int32 s = Some (Inr (sint x)))))"
proof -
  let ?e = "empty_json_text token" and ?r = "report_text token ps" and ?d = "request_text REPORT token kvs"
  have e: "length ?e \<le> 39" using empty_json_length [OF pid(2)] by (simp add: token_def)
  have r: "hd ?r # method_node REPORT @ tl ?r = ?d" "?r \<noteq> []" using request_text_insert [OF ps(2,3)] by blast+
  then have "length ?d = length ?r + length (method_node REPORT)" by (cases ?r) (auto simp flip: r(1))
  then have room': "length ?r + length (method_node REPORT) + 40 < n" using room by simp
  have keys: "\<forall>p \<in> set ps. node_ok p \<and> dp_key p \<noteq> None"
    using ps(2,1) by induction (auto dest: means_key)
  obtain a0 where a0: "build_empty_json (token_num t) a (td_product_id t) = Some (token_num t + 1, a0)" "holds a0 0 n ?e"
    using build_empty_json_holds [OF pid(1) _ a(1,2), of "token_num t"] e room' by (auto simp: token_def)
  obtain a1 where a1: "report_document n (length ps) (map Some ps) a0 = Some (QCLOUD_RET_SUCCESS, a1)" "holds a1 0 n ?r"
    using report_document_puts [OF keys ps(4) a0(2)] e room' by (auto simp: puts_rc_def put_ok_def)
  obtain a2 where a2: "set_template_json_type a1 n REPORT = Some (QCLOUD_RET_SUCCESS, a2)" "holds a2 0 n ?d"
    using set_template_json_type_holds [OF a1(2) r(2) a(3), of REPORT] room' by (auto simp: r(1))
  have "c_string a2 = Some ?d" by (rule holds_c_string [OF a2(2)])
  moreover have "method_str REPORT = cstr ''report''" by (simp add: method_str_def)
  moreover have "plain token" "token \<noteq> []" using token_plain pid(1) by (auto simp: token_def)
  ultimately show ?thesis
    using request_text_read [OF _ _ ps(5), of token REPORT] a0(1) a1(1) a2(1) integer_read [OF ps(2,5)]
    by (simp add: IOT_Template_JSON_ConstructReportArray_def)
qed

definition demo_members :: "(cstring \<times> json) list" where
  "demo_members = [(cstr ''power'', JNum (cstr ''5'')), (cstr ''pos'', JObj [(cstr ''x'', JNum (cstr ''-1''))])]"

lemma demo_means: "list_all2 means demo_props demo_members" "json_ok (JObj demo_members)"
  by (simp_all add: demo_props_def demo_members_def means.simps node_ok.simps text_ok_def object_nodes_def value_text_def
      format_json_buffer_def dec_int_def dec_nat.simps cstr_def key_text_def plain_def is_digit_def)

theorem report_round_trip_witness:
  "\<exists>a1 a2 doc. IOT_Template_JSON_ConstructReportArray (Some \<lparr>token_num = 7, td_product_id = cstr ''PID''\<rparr>) (Some (replicate 256 0)) 256 2
       (Some (map Some demo_props)) = Some (QCLOUD_RET_SUCCESS, Some \<lparr>token_num = 8, td_product_id = cstr ''PID''\<rparr>, Some a1) \<and>
     set_template_json_type a1 256 REPORT = Some (QCLOUD_RET_SUCCESS, a2) \<and> c_string a2 = Some doc \<and>
     json_read doc (cstr ''clientToken'') = Some (Some (cstr ''PID-7'')) \<and>
     json_read doc (cstr ''params'') = Some (Some (cstr ''{\"power\":5,\"pos\":{\"x\":-1}}''))"
proof -
  let ?t = "\<lparr>token_num = 7, td_product_id = cstr ''PID''\<rparr>"
  have token: "client_token (token_num ?t) (td_product_id ?t) = cstr ''PID-7''" by (simp add: client_token_def dec_nat.simps cstr_def)
  have params: "json_text (JObj demo_members) = cstr ''{\"power\":5,\"pos\":{\"x\":-1}}''" by (simp add: demo_members_def cstr_def)
  have room: "length (request_text REPORT (client_token (token_num ?t) (td_product_id ?t)) demo_members) + 40 < 256"
    unfolding token request_text_def params by (simp add: method_str_def cstr_def)
  have "plain (td_product_id ?t)" "length (td_product_id ?t) \<le> 10" "demo_props \<noteq> []" "length demo_props \<le> 127" "length demo_props = 2"
    by (simp_all add: plain_def cstr_def demo_props_def)
  with report_round_trip [OF demo_node_ok demo_means(1) _ _ demo_means(2), of ?t 256 "replicate 256 0"] room
  show ?thesis unfolding token params by auto
qed

text \<open>
  Limits: a report without properties is not JSON, and with 128 properties or more the index leaves the array before
  the loop can end.
\<close>

lemma empty_report: "report_text token [] = cstr ''{\"clientToken\":\"'' @ token @ cstr ''\", \"params\":}}''"
  by (simp add: report_text_def empty_json_text_def nodes_text_def cstr_def butlast_append)

lemma too_many_properties: "128 \<le> count \<Longrightarrow> i \<le> 128 \<Longrightarrow> report_loop i count props n a \<noteq> Some (QCLOUD_RET_SUCCESS, a')"
proof (induction i count props n a rule: report_loop.induct)
  case (1 i count props n a)
  then show ?case
    by (subst report_loop.simps) (auto simp: go_on_def split: option.splits)
qed

end
