(* ===== verification/Dt_Control.thy ===== *)
theory Dt_Control
  imports Dt_Report
begin

text \<open>
  What the data template service reads from a message of the cloud (\<^verbatim>\<open>data_template_client_json.c\<close>): the
  fields that say what the message is, and the new values of properties. Shown is that a control message sets exactly the
  properties it names, structures included.
\<close>

section \<open>Fields of a message\<close>

text \<open>A copy of the value of a field, or \<open>None\<close> inside for the null pointer; the functions return whether there is one.\<close>

definition parse_client_token :: "'w os \<Rightarrow> cstring \<Rightarrow> 'w \<Rightarrow> (cstring option \<times> 'w) option" where
  "parse_client_token os pJsonDoc w = LITE_json_value_of os (cstr ''clientToken'') pJsonDoc w"

definition parse_action_id :: "'w os \<Rightarrow> cstring \<Rightarrow> 'w \<Rightarrow> (cstring option \<times> 'w) option" where
  "parse_action_id os pJsonDoc w = LITE_json_value_of os (cstr ''actionId'') pJsonDoc w"

definition parse_action_input :: "'w os \<Rightarrow> cstring \<Rightarrow> 'w \<Rightarrow> (cstring option \<times> 'w) option" where
  "parse_action_input os pJsonDoc w = LITE_json_value_of os (cstr ''params'') pJsonDoc w"

definition parse_status_return :: "'w os \<Rightarrow> cstring \<Rightarrow> 'w \<Rightarrow> (cstring option \<times> 'w) option" where
  "parse_status_return os pJsonDoc w = LITE_json_value_of os (cstr ''status'') pJsonDoc w"

definition parse_template_method_type :: "'w os \<Rightarrow> cstring \<Rightarrow> 'w \<Rightarrow> (cstring option \<times> 'w) option" where
  "parse_template_method_type os pJsonDoc w = LITE_json_value_of os (cstr ''method'') pJsonDoc w"

definition parse_template_get_control :: "'w os \<Rightarrow> cstring \<Rightarrow> 'w \<Rightarrow> (cstring option \<times> 'w) option" where
  "parse_template_get_control os pJsonDoc w = LITE_json_value_of os (cstr ''data.control'') pJsonDoc w"

definition parse_template_cmd_control :: "'w os \<Rightarrow> cstring \<Rightarrow> 'w \<Rightarrow> (cstring option \<times> 'w) option" where
  "parse_template_cmd_control os pJsonDoc w = LITE_json_value_of os (cstr ''params'') pJsonDoc w"

text \<open>The fields that are numbers, read with \<^verbatim>\<open>sscanf\<close>.\<close>

definition parse_code_return :: "'w os \<Rightarrow> cstring \<Rightarrow> 'w \<Rightarrow> (int option \<times> 'w) option" where
  "parse_code_return os pJsonDoc w = do {
     (code, w) \<leftarrow> LITE_json_value_of os (cstr ''code'') pJsonDoc w;
     (case code of
        None \<Rightarrow> Some (None, w)
      | Some s \<Rightarrow> do {
          r \<leftarrow> scan_result (- (2 ^ 31)) (2 ^ 31 - 1) (scan_i s);
          Some (case r of Inl e \<Rightarrow> None | Inr i \<Rightarrow> Some i, w)
        })
   }"

definition parse_time_stamp :: "'w os \<Rightarrow> cstring \<Rightarrow> 'w \<Rightarrow> (int option \<times> 'w) option" where
  "parse_time_stamp os pJsonDoc w = do {
     (timestamp, w) \<leftarrow> LITE_json_value_of os (cstr ''timestamp'') pJsonDoc w;
     (case timestamp of
        None \<Rightarrow> Some (None, w)
      | Some s \<Rightarrow> do {
          r \<leftarrow> scan_result 0 (2 ^ 32 - 1) (scan_u s);
          Some (case r of Inl e \<Rightarrow> None | Inr i \<Rightarrow> Some i, w)
        })
   }"

section \<open>New values of properties\<close>

text \<open>
  Reading floating-point numbers is left to the C library: the text that \<^verbatim>\<open>%f\<close> yields for the number that
  \<^verbatim>\<open>sscanf\<close> reads with \<^verbatim>\<open>%f\<close> or \<^verbatim>\<open>%lf\<close>, or \<open>None\<close> if it reads none.
\<close>

record float_io =
  scan_float :: "cstring \<Rightarrow> cstring option"
  scan_double :: "cstring \<Rightarrow> cstring option"

definition stored :: "(int + int) option \<Rightarrow> prop_value \<Rightarrow> (int \<Rightarrow> prop_value) \<Rightarrow> (int \<times> prop_value) option" where
  "stored r old new =
     (case r of None \<Rightarrow> None | Some (Inl rc) \<Rightarrow> Some (rc, old) | Some (Inr i) \<Rightarrow> Some (QCLOUD_RET_SUCCESS, new i))"

definition stored_float :: "cstring option \<Rightarrow> prop_value \<Rightarrow> (cstring \<Rightarrow> prop_value) \<Rightarrow> (int \<times> prop_value) option" where
  "stored_float r old new =
     Some (case r of None \<Rightarrow> (QCLOUD_ERR_FAILURE, old) | Some s \<Rightarrow> (QCLOUD_RET_SUCCESS, new s))"

text \<open>
  The array behind a string or an array has \<^verbatim>\<open>data_buff_len\<close> bytes, as the data templates have it that
  \<^verbatim>\<open>tools/codegen.py\<close> generates and those of the samples; what it held before does not matter. The code hands
  \<^verbatim>\<open>LITE_get_string\<close> the whole length, and a text of at least that length has its terminating zero written one byte behind
  the array: \<open>None\<close>.
\<close>

definition stored_string :: "cstring \<Rightarrow> nat \<Rightarrow> (cstring \<Rightarrow> prop_value) \<Rightarrow> (int \<times> prop_value) option" where
  "stored_string v len new = do {
     a \<leftarrow> LITE_get_string (replicate len 0) v len;
     s \<leftarrow> c_string a;
     Some (QCLOUD_RET_SUCCESS, new s)
   }"

text \<open>\<^verbatim>\<open>_direct_update_value\<close> for a value that is not an object.\<close>

definition update_scalar :: "float_io \<Rightarrow> cstring \<Rightarrow> prop_value \<Rightarrow> (int \<times> prop_value) option" where
  "update_scalar fl v d =
     (case d of
        JBOOL b \<Rightarrow> Some (QCLOUD_RET_SUCCESS, JBOOL (LITE_get_boolean v))
      | JINT32 x \<Rightarrow> stored (LITE_get_int32 v) d (\<lambda>i. JINT32 (word_of_int i))
      | JINT16 x \<Rightarrow> stored (LITE_get_int16 v) d (\<lambda>i. JINT16 (word_of_int i))
      | JINT8 x \<Rightarrow> stored (LITE_get_int8 v) d (\<lambda>i. JINT8 (word_of_int i))
      | JUINT32 x \<Rightarrow> stored (LITE_get_uint32 v) d (\<lambda>i. JUINT32 (word_of_int i))
      | JUINT16 x \<Rightarrow> stored (LITE_get_uint16 v) d (\<lambda>i. JUINT16 (word_of_int i))
      | JUINT8 x \<Rightarrow> stored (LITE_get_uint8 v) d (\<lambda>i. JUINT8 (word_of_int i))
      | JFLOAT s \<Rightarrow> stored_float (scan_float fl v) d JFLOAT
      | JDOUBLE s \<Rightarrow> stored_float (scan_double fl v) d JDOUBLE
      | JSTRING s len \<Rightarrow> stored_string v len (\<lambda>s. JSTRING s len)
      | JARRAY s len \<Rightarrow> stored_string v len (\<lambda>s. JARRAY s len)
      | JOBJECT nodes \<Rightarrow> Some (QCLOUD_RET_SUCCESS, d))"

definition is_null_text :: "cstring \<Rightarrow> bool" where
  "is_null_text v \<longleftrightarrow> has_prefix (cstr ''null'') v \<or> has_prefix (cstr ''NULL'') v"

text \<open>
  \<^verbatim>\<open>update_value_if_key_match\<close>: whether the document has a value for the property, and the property after it.
  The result of \<^verbatim>\<open>_direct_update_value\<close> is not looked at. A property without key or without data is read through a null pointer.
\<close>

function (sequential) update_value_if_key_match :: "float_io \<Rightarrow> 'w os \<Rightarrow> cstring \<Rightarrow> DeviceProperty \<Rightarrow> 'w \<Rightarrow> (bool \<times> DeviceProperty \<times> 'w) option"
  and direct_update_value :: "float_io \<Rightarrow> 'w os \<Rightarrow> cstring \<Rightarrow> prop_value option \<Rightarrow> 'w \<Rightarrow> (int \<times> prop_value \<times> 'w) option"
  and update_members :: "float_io \<Rightarrow> 'w os \<Rightarrow> cstring \<Rightarrow> DeviceProperty list \<Rightarrow> 'w \<Rightarrow> (DeviceProperty list \<times> 'w) option" where
  "update_value_if_key_match fl os pJsonDoc (DeviceProperty key data) w =
     (case key of
        None \<Rightarrow> None
      | Some k \<Rightarrow> do {
          (v, w) \<leftarrow> LITE_json_value_of os k pJsonDoc w;
          (case v of
             None \<Rightarrow> Some (False, DeviceProperty key data, w)
           | Some v \<Rightarrow>
               if is_null_text v then Some (False, DeviceProperty key data, w)
               else do {
                 (rc, d, w) \<leftarrow> direct_update_value fl os v data w;
                 Some (True, DeviceProperty key (Some d), w)
               })
        })"
| "direct_update_value fl os v data w =
     (case data of
        None \<Rightarrow> None
      | Some d \<Rightarrow>
          (case object_nodes data of
             None \<Rightarrow> do { (rc, d) \<leftarrow> update_scalar fl v d; Some (rc, d, w) }
           | Some nodes \<Rightarrow> do { (nodes, w) \<leftarrow> update_members fl os v nodes w; Some (QCLOUD_RET_SUCCESS, JOBJECT nodes, w) }))"
| "update_members fl os v [] w = Some ([], w)"
| "update_members fl os v (node # nodes) w =
     (if dp_key node = None
      then do { (nodes, w) \<leftarrow> update_members fl os v nodes w; Some (node # nodes, w) }
      else do {
        (b, node, w) \<leftarrow> update_value_if_key_match fl os v node w;
        (nodes, w) \<leftarrow> update_members fl os v nodes w;
        Some (node # nodes, w)
      })"
  by pat_completeness auto
termination
  by (relation "measure (\<lambda>x. case x of Inl (fl, os, doc, p, w) \<Rightarrow> size p
      | Inr (Inl (fl, os, v, d, w)) \<Rightarrow> size_option size d | Inr (Inr (fl, os, v, nodes, w)) \<Rightarrow> size_list size nodes)")
    (auto dest: object_nodes_size)

declare update_value_if_key_match.simps [simp del] direct_update_value.simps [simp del] update_members.simps [simp del]

text \<open>
  A value that a property of the same type can take over from the text of another one. A string or array must be shorter than
  its array. A floating-point number must be one that \<^verbatim>\<open>sscanf\<close> reads back from what \<^verbatim>\<open>%f\<close> prints for it.
\<close>

definition same_kind :: "float_io \<Rightarrow> prop_value \<Rightarrow> prop_value \<Rightarrow> bool" where
  "same_kind fl v v' \<longleftrightarrow>
     (case (v, v') of
        (JINT32 x, JINT32 y) \<Rightarrow> True | (JINT16 x, JINT16 y) \<Rightarrow> True | (JINT8 x, JINT8 y) \<Rightarrow> True
      | (JUINT32 x, JUINT32 y) \<Rightarrow> True | (JUINT16 x, JUINT16 y) \<Rightarrow> True | (JUINT8 x, JUINT8 y) \<Rightarrow> True
      | (JBOOL x, JBOOL y) \<Rightarrow> True
      | (JFLOAT s, JFLOAT t) \<Rightarrow> json_ok (JNum t) \<and> scan_float fl t = Some t
      | (JDOUBLE s, JDOUBLE t) \<Rightarrow> json_ok (JNum t) \<and> scan_double fl t = Some t
      | (JSTRING s len, JSTRING t len') \<Rightarrow> len = len' \<and> t \<noteq> [] \<and> length t < len \<and> 0 \<notin> set t \<and> \<not> is_null_text t
      | (JARRAY s len, JARRAY t len') \<Rightarrow> len = len' \<and> t \<noteq> [] \<and> length t < len \<and> hd t = chr_lbracket \<and> 0 \<notin> set t
      | _ \<Rightarrow> False)"

fun takes_over :: "float_io \<Rightarrow> DeviceProperty \<Rightarrow> DeviceProperty \<Rightarrow> bool" where
  "takes_over fl (DeviceProperty k d) (DeviceProperty k' d') \<longleftrightarrow>
     k = k' \<and> k \<noteq> None \<and> chr_dot \<notin> set (the k) \<and>
     (case object_nodes d' of
        None \<Rightarrow> object_nodes d = None \<and> (case (d, d') of (Some v, Some v') \<Rightarrow> same_kind fl v v' | _ \<Rightarrow> False)
      | Some ns' \<Rightarrow> distinct (map dp_key ns') \<and> (case object_nodes d of None \<Rightarrow> False | Some ns \<Rightarrow> list_all2 (takes_over fl) ns ns'))"

declare takes_over.simps [simp del]

lemma string_stored:
  assumes "0 \<notin> set t" and "length t < len"
  shows "stored_string t len new = Some (QCLOUD_RET_SUCCESS, new t)"
proof -
  obtain k where k: "len - length t = Suc k" using assms(2) by (cases "len - length t") auto
  have "c_string (t @ replicate (len - length t) 0) = Some t" using c_string_terminated [OF assms(1)] by (simp add: k)
  moreover have "(t @ replicate (len - length t) 0)[length t := 0] = t @ replicate (len - length t) (0 :: u8)" by (simp add: k list_update_append)
  ultimately show ?thesis
    using assms by (simp add: stored_string_def LITE_get_string_def buf_write_def buf_put_def del: replicate_Suc)
qed

text \<open>A longer text ends in a write behind the array.\<close>

lemma string_overflows: "len \<le> length v \<Longrightarrow> stored_string v len new = None"
  by (auto simp: stored_string_def LITE_get_string_def buf_write_def buf_put_def)

text \<open>What the reader gets for the text of a value.\<close>

definition value_content :: "prop_value \<Rightarrow> cstring" where
  "value_content v = (case v of JSTRING t len \<Rightarrow> t | _ \<Rightarrow> butlast (value_text (Some v)))"

lemma number_plain: "json_ok (JNum t) \<Longrightarrow> t \<noteq> [] \<and> hd t \<noteq> chr_quote \<and> \<not> is_null_text t"
  by (cases t) (auto simp: is_null_text_def has_prefix_def cstr_def is_digit_def)

lemmas dec_int_plain = number_plain [OF dec_int_number]

lemma scalar_content:
  assumes "same_kind fl v v'" and "value_text (Some v') = json_text j @ [0x2C]" and "json_ok j"
  shows "json_content j = value_content v'"
proof -
  have tx: "butlast (value_text (Some v')) = json_text j" using assms(2) by simp
  show ?thesis
  proof (cases "\<exists>t len. v' = JSTRING t len")
    case True
    then obtain t len where v': "v' = JSTRING t len" by blast
    then have "json_text j = chr_quote # t @ [chr_quote]" using tx by (simp add: value_text_def format_json_buffer_def butlast_append)
    then have "j = JStr t" using assms(3) by (cases j) (auto simp: cstr_def is_digit_def split: if_splits)
    then show ?thesis by (simp add: v' value_content_def json_content_def)
  next
    case False
    have "hd (json_text j) \<noteq> chr_quote"
      using assms(1) dec_int_plain False unfolding tx [symmetric]
      by (cases v'; cases v) (auto simp: same_kind_def value_text_def format_json_buffer_def cstr_def simp del: json_ok.simps dest: number_plain)
    then have "json_content j = json_text j" by (cases j) (auto simp: json_content_def)
    with False tx show ?thesis by (cases v') (auto simp: value_content_def)
  qed
qed

lemma update_scalar_content:
  assumes "same_kind fl v v'"
  shows "value_content v' \<noteq> [] \<and> \<not> is_null_text (value_content v')"
    and "update_scalar fl (value_content v') v = Some (QCLOUD_RET_SUCCESS, v')"
proof -
  have "is_null_text t \<Longrightarrow> hd t \<noteq> chr_lbracket" for t by (cases t) (auto simp: is_null_text_def has_prefix_def cstr_def)
  then show "value_content v' \<noteq> [] \<and> \<not> is_null_text (value_content v')"
    using assms dec_int_plain
    by (cases v'; cases v) (auto simp: same_kind_def value_content_def value_text_def format_json_buffer_def is_null_text_def has_prefix_def cstr_def simp del: json_ok.simps dest: number_plain)
  show "update_scalar fl (value_content v') v = Some (QCLOUD_RET_SUCCESS, v')"
    using assms
    by (cases v'; cases v) (simp_all add: same_kind_def value_content_def value_text_def format_json_buffer_def update_scalar_def stored_def stored_float_def
        string_stored number_round_trip LITE_get_boolean_def cstr_def)
qed

lemma value_of_key:
  assumes "chr_dot \<notin> set k" and "json_read doc k = Some v" and "\<And>w. fst (os_malloc os w) \<noteq> None"
  shows "\<exists>w'. LITE_json_value_of os k doc w = Some (v, w')"
proof -
  obtain p m where "os_malloc os w = (Some p, m)" using assms(3) [of w] by (cases "os_malloc os w") auto
  then show ?thesis
    using assms(2) by (subst LITE_json_value_of.simps) (auto simp: strchr_none [OF assms(1)] json_read_def split: option.splits)
qed

text \<open>The members of an object are found under their names.\<close>

lemma read_member:
  assumes "json_ok (JObj kvs)" and "distinct (map fst kvs)" and "(k, j) \<in> set kvs" and "json_content j \<noteq> []"
  shows "json_read (json_text (JObj kvs)) k = Some (Some (json_content j))"
proof -
  have "distinct (map fst (full_members kvs))" using assms(2) by (simp add: full_members_def distinct_map_filter)
  moreover have "(k, j) \<in> set (full_members kvs)" using assms(3,4) by (simp add: full_members_def)
  ultimately have found: "map_of (full_members kvs) k = Some j" by simp
  show ?thesis using lookup_in_object [OF assms(1), of k] unfolding found by (auto simp: json_read_def nv_found_def)
qed

lemma means_distinct:
  assumes "list_all2 means ps kvs" and "distinct (map dp_key ps)"
  shows "distinct (map fst kvs)"
proof -
  have "map (Some \<circ> fst) kvs = map dp_key ps" using assms(1) by induction (auto dest: means_key)
  then show ?thesis using assms(2) by (metis distinct_map map_map)
qed

lemma means_content:
  assumes "means p' (k, j)" and "json_ok j" and "takes_over fl p p'"
  shows "json_content j \<noteq> [] \<and> \<not> is_null_text (json_content j)"
proof -
  obtain key d key' d' where p: "p = DeviceProperty key d" "p' = DeviceProperty key' d'" by (cases p; cases p')
  show ?thesis
  proof (cases "object_nodes d'")
    case None
    then obtain v v' where "d = Some v" "d' = Some v'" "same_kind fl v v'"
      using assms(3) by (auto simp: p takes_over.simps split: option.splits)
    moreover have "value_text d' = json_text j @ [0x2C]" using assms(1) None by (simp add: p means.simps)
    ultimately show ?thesis using scalar_content assms(2) update_scalar_content(1) by metis
  next
    case (Some nodes)
    then obtain kvs where "j = JObj kvs" using assms(1) by (auto simp: p means.simps split: json.splits)
    then show ?thesis by (simp add: json_content_def is_null_text_def has_prefix_def cstr_def)
  qed
qed

lemma update_members_all:
  assumes "list_all2 (takes_over fl) ps ps'" and "list_all2 means ps' kvs" and "\<And>p' kv. (p', kv) \<in> set (zip ps' kvs) \<Longrightarrow> json_read doc (fst kv) = Some (Some (json_content (snd kv)))"
    and "\<And>p p' kv w. p' \<in> set ps' \<Longrightarrow> kv \<in> set kvs \<Longrightarrow> takes_over fl p p' \<Longrightarrow> means p' kv \<Longrightarrow> json_read doc (fst kv) = Some (Some (json_content (snd kv))) \<Longrightarrow>
       \<exists>w'. update_value_if_key_match fl os doc p w = Some (True, p', w')"
  shows "\<exists>w'. update_members fl os doc ps w = Some (ps', w')"
  using assms
proof (induction ps ps' arbitrary: kvs w rule: list_all2_induct)
  case Nil
  then show ?case by (simp add: update_members.simps)
next
  case (Cons p ps p' ps')
  obtain kv kvs' where kvs: "kvs = kv # kvs'" "means p' kv" "list_all2 means ps' kvs'" using Cons.prems(1) by (auto simp: list_all2_Cons1)
  have key: "dp_key p \<noteq> None" using Cons.hyps(1) by (cases p; cases p') (simp add: takes_over.simps)
  obtain w1 where w1: "update_value_if_key_match fl os doc p w = Some (True, p', w1)"
    using Cons.prems(3) [OF _ _ Cons.hyps(1) kvs(2)] Cons.prems(2) [of p' kv] by (auto simp: kvs(1))
  have "\<exists>w2. update_members fl os doc ps w1 = Some (ps', w2)"
    by (rule Cons.IH [OF kvs(3)]; rule Cons.prems(2,3); fastforce simp: kvs(1))
  then obtain w2 where "update_members fl os doc ps w1 = Some (ps', w2)" ..
  with w1 key show ?case by (auto simp: update_members.simps)
qed

lemma update_takes_over:
  assumes mem: "\<And>w. fst (os_malloc os w) \<noteq> None"
  shows "means p' kv \<Longrightarrow> json_ok (snd kv) \<Longrightarrow> takes_over fl p p' \<Longrightarrow> json_read doc (fst kv) = Some (Some (json_content (snd kv))) \<Longrightarrow>
     \<exists>w'. update_value_if_key_match fl os doc p w = Some (True, p', w')"
proof (induction p' kv arbitrary: p doc w rule: means.induct)
  case (1 k d' k' j)
  obtain d where p: "p = DeviceProperty k d" and k: "k = Some k'" and dot: "chr_dot \<notin> set k'"
    using "1.prems"(1,3) by (cases p) (auto simp: takes_over.simps means.simps)
  obtain w1 where w1: "LITE_json_value_of os k' doc w = Some (Some (json_content j), w1)"
    using value_of_key [OF dot _ mem] "1.prems"(4) by fastforce
  have nn: "\<not> is_null_text (json_content j)" using means_content [OF "1.prems"(1) _ "1.prems"(3)] "1.prems"(2) by simp
  have "\<exists>w'. direct_update_value fl os (json_content j) d w1 = Some (QCLOUD_RET_SUCCESS, the d', w') \<and> d' \<noteq> None"
  proof (cases "object_nodes d'")
    case None
    then obtain v v' where v: "d = Some v" "d' = Some v'" "same_kind fl v v'" "object_nodes d = None"
      using "1.prems"(3) by (auto simp: p takes_over.simps split: option.splits)
    have "value_text d' = json_text j @ [0x2C]" using "1.prems"(1) None by (simp add: means.simps)
    then have "update_scalar fl (json_content j) v = Some (QCLOUD_RET_SUCCESS, v')"
      using scalar_content [OF v(3)] update_scalar_content(2) [OF v(3)] "1.prems"(2) v(2) by simp
    with v show ?thesis by (simp add: direct_update_value.simps)
  next
    case (Some ns')
    obtain kvs where j: "j = JObj kvs" and all: "list_all2 means ns' kvs" using "1.prems"(1) Some by (auto simp: means.simps split: json.splits)
    obtain ns where ns: "object_nodes d = Some ns" "list_all2 (takes_over fl) ns ns'" "distinct (map dp_key ns')"
      using "1.prems"(3) Some by (auto simp: p takes_over.simps split: option.splits)
    have d: "d = Some (JOBJECT ns)" "d' = Some (JOBJECT ns')"
      using ns(1) Some by (auto simp: object_nodes_def split: option.splits prop_value.splits)
    have ok: "json_ok (JObj kvs)" using "1.prems"(2) j by simp
    have "\<exists>w'. update_members fl os (json_text (JObj kvs)) ns w1 = Some (ns', w')"
    proof (rule update_members_all [OF ns(2) all])
      fix q kv assume q: "(q, kv) \<in> set (zip ns' kvs)"
      then have kv: "kv \<in> set kvs" "means q kv" "q \<in> set ns'" using all by (auto simp: list_all2_iff dest: set_zip_leftD set_zip_rightD)
      obtain p0 where "takes_over fl p0 q" using ns(2) kv(3) by (metis in_set_conv_nth list_all2_conv_all_nth)
      then have "json_content (snd kv) \<noteq> []" using means_content [of q "fst kv" "snd kv" fl p0] kv ok by auto
      then show "json_read (json_text (JObj kvs)) (fst kv) = Some (Some (json_content (snd kv)))"
        using read_member [OF ok means_distinct [OF all ns(3)]] kv(1) by simp
    next
      fix p q kv w assume "q \<in> set ns'" "kv \<in> set kvs" "takes_over fl p q" "means q kv"
        "json_read (json_text (JObj kvs)) (fst kv) = Some (Some (json_content (snd kv)))"
      then show "\<exists>w'. update_value_if_key_match fl os (json_text (JObj kvs)) p w = Some (True, q, w')"
        using "1.IH" [OF Some j] ok by auto
    qed
    then show ?thesis by (auto simp: direct_update_value.simps d ns(1) [unfolded d] j json_content_def)
  qed
  then show ?case using w1 nn by (auto simp: p k update_value_if_key_match.simps)
qed

end
