(* ===== verification/Dt_State.thy ===== *)
theory Dt_State
  imports Dt_Control Mqtt_Service
begin

text \<open>
  The structures of the data template client (\<^verbatim>\<open>data_template_client.h\<close>, \<^verbatim>\<open>data_template_client_json.h\<close>), and
  what its parts share.
\<close>

section \<open>Structures\<close>

abbreviation (input) QCLOUD_ERR_MAX_APPENDING_REQUEST :: int where "QCLOUD_ERR_MAX_APPENDING_REQUEST \<equiv> -137"
abbreviation (input) QCLOUD_ERR_PROPERTY_EXIST :: int where "QCLOUD_ERR_PROPERTY_EXIST \<equiv> -201"
abbreviation (input) QCLOUD_ERR_NOT_PROPERTY_EXIST :: int where "QCLOUD_ERR_NOT_PROPERTY_EXIST \<equiv> -202"
abbreviation (input) QCLOUD_ERR_REPORT_TIMEOUT :: int where "QCLOUD_ERR_REPORT_TIMEOUT \<equiv> -203"
abbreviation (input) QCLOUD_ERR_REPORT_REJECTED :: int where "QCLOUD_ERR_REPORT_REJECTED \<equiv> -204"
abbreviation (input) QCLOUD_ERR_GET_TIMEOUT :: int where "QCLOUD_ERR_GET_TIMEOUT \<equiv> -205"
abbreviation (input) QCLOUD_ERR_GET_REJECTED :: int where "QCLOUD_ERR_GET_REJECTED \<equiv> -206"
abbreviation (input) MAX_APPENDING_REQUEST_AT_ANY_GIVEN_TIME :: nat where "MAX_APPENDING_REQUEST_AT_ANY_GIVEN_TIME \<equiv> 10"
abbreviation (input) MAX_SIZE_OF_CLIENT_TOKEN :: nat where "MAX_SIZE_OF_CLIENT_TOKEN \<equiv> 90"
abbreviation (input) CLOUD_IOT_JSON_RX_BUF_LEN :: nat where "CLOUD_IOT_JSON_RX_BUF_LEN \<equiv> 2049"
abbreviation (input) MAX_CLEAE_DOC_LEN :: nat where "MAX_CLEAE_DOC_LEN \<equiv> 256"
abbreviation (input) QCLOUD_IOT_MQTT_COMMAND_TIMEOUT :: nat where "QCLOUD_IOT_MQTT_COMMAND_TIMEOUT \<equiv> 5000"

datatype ReplyAck = ACK_NONE | ACK_TIMEOUT | ACK_REJECTED | ACK_ACCEPTED

datatype eControlType = eGET_CTL | eOPERATION_CTL

text \<open>Whom a reply is for: one of the two functions of the SDK that end a synchronous call, or a function of the application.\<close>

datatype reply_cb = ReplyAckCb | GetStatusReplyAckCb | UserReplyCb nat

record RequestParams =
  rp_method :: Method
  rp_timeout_sec :: u8
  request_callback :: "reply_cb option"
  rp_user_context :: nat

record Request =
  rq_client_token :: "u8 list"
  rq_method :: Method
  rq_user_context :: nat
  rq_timer :: Timer
  rq_callback :: "reply_cb option"

record PropertyHandler =
  ph_property :: nat
  ph_callback :: "nat option"

text \<open>An action: its arrays of inputs and outputs have the lengths that go with them.\<close>

record DeviceAction =
  pActionId :: cstring
  act_timestamp :: "32 word"
  pInput :: "DeviceProperty list"
  pOutput :: "DeviceProperty list option"

record ActionHandler =
  ah_action :: nat
  ah_callback :: "nat option"

text \<open>Calls into the application: with the bytes of the receive buffer, the text of the control message, the address of the property, the
  token of the action with its address and what it holds.\<close>

datatype template_call =
    ReplyCall nat Method ReplyAck "u8 list" Request
  | ControlCall nat cstring eControlType
  | PropertyCall nat cstring nat
  | ActionCall nat cstring nat DeviceAction
  | TemplateEventCall nat nat MQTTEventType event_arg

text \<open>
  The template: the structure \<^verbatim>\<open>Qcloud_IoT_Template\<close> with its inner data. A node of a list is its address and its value; a
  property handler comes with its own address, which the search compares. Then the two static arrays of the manager, and
  what the pointers of the application point to: properties, actions, variables for an acknowledgement, and the calls made so far.
\<close>

record 'w Qcloud_IoT_Template = template_data +
  mqtt :: "'w client"
  td_device_name :: cstring
  tm_event_handle :: MQTTEventHandler
  usr_control_handle :: "nat option"
  sync_status :: int
  reply_list :: "(nat \<times> Request) list"
  property_handle_list :: "(nat \<times> nat \<times> PropertyHandler) list"
  action_handle_list :: "(nat \<times> nat \<times> ActionHandler) list"
  downstream_topic :: "cstring option"
  self_address :: nat
  template_cloud_rcv_buf :: "u8 list"
  template_clientToken :: "u8 list"
  props :: "nat \<rightharpoonup> DeviceProperty"
  actions :: "nat \<rightharpoonup> DeviceAction"
  acks :: "nat \<rightharpoonup> ReplyAck"
  calls :: "template_call list"
  libc :: float_io

text \<open>The addresses of the functions that the template gives to its MQTT client.\<close>

abbreviation (input) on_template_downstream_fp :: nat where "on_template_downstream_fp \<equiv> 1"
abbreviation (input) template_mqtt_event_fp :: nat where "template_mqtt_event_fp \<equiv> 2"
abbreviation (input) on_action_handle_fp :: nat where "on_action_handle_fp \<equiv> 3"

definition with_world :: "'w \<Rightarrow> 'w Qcloud_IoT_Template \<Rightarrow> 'w Qcloud_IoT_Template" where
  "with_world w t = t\<lparr>mqtt := (mqtt t)\<lparr>world := w\<rparr>\<rparr>"

definition call_user :: "template_call \<Rightarrow> 'w Qcloud_IoT_Template \<Rightarrow> 'w Qcloud_IoT_Template" where
  "call_user x t = t\<lparr>calls := calls t @ [x]\<rparr>"

definition set_ack :: "nat \<Rightarrow> ReplyAck \<Rightarrow> 'w Qcloud_IoT_Template \<Rightarrow> 'w Qcloud_IoT_Template option" where
  "set_ack p ack t = (if acks t p = None then None else Some (t\<lparr>acks := (acks t)(p \<mapsto> ack)\<rparr>))"

text \<open>\<^verbatim>\<open>strncpy\<close> of a token into an array of fixed size, and \<^verbatim>\<open>strcmp\<close> of that array with a token.\<close>

definition token_bytes :: "cstring \<Rightarrow> u8 list" where
  "token_bytes tok = take MAX_SIZE_OF_CLIENT_TOKEN (tok @ replicate MAX_SIZE_OF_CLIENT_TOKEN 0)"

definition token_matches :: "u8 list \<Rightarrow> cstring \<Rightarrow> bool option" where
  "token_matches a tok =
     (case c_string a of Some s \<Rightarrow> Some (s = tok) | None \<Rightarrow> if take (length a) tok = a then None else Some False)"

record sReplyPara =
  reply_timeout_ms :: nat
  reply_code :: int
  status_msg :: cstring

text \<open>The topics of the device.\<close>

definition thing_topic :: "string \<Rightarrow> 'w Qcloud_IoT_Template \<Rightarrow> cstring" where
  "thing_topic prefix t = cstr prefix @ td_product_id t @ cstr ''/'' @ td_device_name t"

end
