(* ===== verification/Dt_Action.thy ===== *)
theory Dt_Action
  imports Dt_State
begin

text \<open>
  Actions that the cloud calls on the device (\<^verbatim>\<open>data_template_action.c\<close>): the handler of the messages, the registration
  of actions, and the replies with their documents.
\<close>

section \<open>Calls of the cloud\<close>

text \<open>
  One input is read into its variable. \<^verbatim>\<open>strncpy\<close> writes \<^verbatim>\<open>data_buff_len\<close> bytes, which is the whole array of a string in the
  templates that \<^verbatim>\<open>tools/codegen.py\<close> generates. The value is what stands before the first zero byte of the array; a value of
  length \<open>len\<close> fills it, and then no zero byte ends the string. Structures, arrays and doubles are not supported.
\<close>

definition read_input :: "float_io \<Rightarrow> cstring \<Rightarrow> prop_value \<Rightarrow> (bool \<times> prop_value) option" where
  "read_input fl v d =
     (case d of
        JSTRING s len \<Rightarrow> Some (True, JSTRING (take len v) len)
      | JDOUBLE s \<Rightarrow> Some (False, d)
      | JOBJECT nodes \<Rightarrow> Some (False, d)
      | JARRAY s len \<Rightarrow> Some (False, d)
      | _ \<Rightarrow> do { (rc, d) \<leftarrow> update_scalar fl v d; Some (rc \<ge> 0, d) })"

text \<open>\<^verbatim>\<open>_parse_action_input\<close>: the inputs before one that fails have their new values already.\<close>

primrec read_action_input ::
  "float_io \<Rightarrow> 'w os \<Rightarrow> cstring \<Rightarrow> DeviceProperty list \<Rightarrow> 'w \<Rightarrow> (bool \<times> DeviceProperty list \<times> 'w) option" where
  "read_action_input fl os pIn [] w = Some (True, [], w)"
| "read_action_input fl os pIn (p # ps) w = do {
     key \<leftarrow> dp_key p;
     (v, w) \<leftarrow> LITE_json_value_of os key pIn w;
     (case v of
        None \<Rightarrow> Some (False, p # ps, w)
      | Some v \<Rightarrow> do {
          d \<leftarrow> dp_data p;
          (ok, d) \<leftarrow> read_input fl v d;
          let p = DeviceProperty (Some key) (Some d);
          if ok then do { (ok, ps, w) \<leftarrow> read_action_input fl os pIn ps w; Some (ok, p # ps, w) }
          else Some (False, p # ps, w)
        })
   }"

text \<open>\<^verbatim>\<open>_handle_action\<close>: from the tail, every registered action of this name that has a callback is called if its inputs can be read.\<close>

definition run_action ::
  "'w os \<Rightarrow> cstring \<Rightarrow> cstring \<Rightarrow> 32 word \<Rightarrow> cstring \<Rightarrow> ActionHandler \<Rightarrow> 'w Qcloud_IoT_Template \<Rightarrow> 'w Qcloud_IoT_Template option" where
  "run_action os pClientToken actionId timestamp pIn h t = do {
     a \<leftarrow> actions t (ah_action h);
     (case ah_callback h of
        None \<Rightarrow> Some t
      | Some f \<Rightarrow>
          if pActionId a \<noteq> actionId then Some t
          else do {
            (ok, ins, w) \<leftarrow> read_action_input (libc t) os pIn (pInput a) (world (mqtt t));
            let a = (if ok then a\<lparr>pInput := ins, act_timestamp := timestamp\<rparr> else a\<lparr>pInput := ins\<rparr>);
            let t = (with_world w t)\<lparr>actions := (actions t)(ah_action h \<mapsto> a)\<rparr>;
            Some (if ok then call_user (ActionCall f pClientToken (ah_action h) a) t else t)
          })
   }"

primrec action_loop ::
  "'w os \<Rightarrow> cstring \<Rightarrow> cstring \<Rightarrow> 32 word \<Rightarrow> cstring \<Rightarrow> (nat \<times> nat \<times> ActionHandler) list \<Rightarrow>
   'w Qcloud_IoT_Template \<Rightarrow> 'w Qcloud_IoT_Template option" where
  "action_loop os token actionId timestamp pIn [] t = Some t"
| "action_loop os token actionId timestamp pIn (node # nodes) t = do {
     t \<leftarrow> run_action os token actionId timestamp pIn (snd (snd node)) t;
     action_loop os token actionId timestamp pIn nodes t
   }"

definition handle_action ::
  "'w os \<Rightarrow> cstring \<Rightarrow> cstring \<Rightarrow> 32 word \<Rightarrow> cstring \<Rightarrow> 'w Qcloud_IoT_Template \<Rightarrow> 'w Qcloud_IoT_Template option" where
  "handle_action os pClientToken actionId timestamp pIn t =
     (if action_handle_list t = [] then Some t
      else case HAL_Malloc os (mqtt t) of
             (None, c) \<Rightarrow> Some (t\<lparr>mqtt := c\<rparr>)
           | (Some iter, c) \<Rightarrow>
               action_loop os pClientToken actionId timestamp pIn (rev (action_handle_list t)) (t\<lparr>mqtt := c\<rparr>))"

text \<open>Going on with a field of the message if it is there.\<close>

definition with_field ::
  "(cstring \<Rightarrow> 'w \<Rightarrow> ('a option \<times> 'w) option) \<Rightarrow> cstring \<Rightarrow> 'w Qcloud_IoT_Template \<Rightarrow>
   ('a \<Rightarrow> 'w Qcloud_IoT_Template \<Rightarrow> 'w Qcloud_IoT_Template option) \<Rightarrow> 'w Qcloud_IoT_Template option" where
  "with_field parse doc t f = do {
     (v, w) \<leftarrow> parse doc (world (mqtt t));
     let t = with_world w t;
     (case v of None \<Rightarrow> Some t | Some v \<Rightarrow> f v t)
   }"

text \<open>
  \<^verbatim>\<open>_on_action_handle_callback\<close>. The payload is read as a string where it lies in the receive buffer, although nothing
  ends it there: the string goes on with what the buffer holds behind the packet.
\<close>

definition on_action_handle_callback ::
  "'w os \<Rightarrow> MQTTMessage \<Rightarrow> 'w Qcloud_IoT_Template \<Rightarrow> 'w Qcloud_IoT_Template option" where
  "on_action_handle_callback os message t = do {
     doc \<leftarrow> c_string (drop (msg_payload message) (msg_buf message));
     with_field (parse_template_method_type os) doc t (\<lambda>type_str t.
       if type_str \<noteq> cstr ''action'' then Some t
       else with_field (parse_client_token os) doc t (\<lambda>token t.
         with_field (parse_action_id os) doc t (\<lambda>action_id t.
           with_field (parse_time_stamp os) doc t (\<lambda>timestamp t.
             with_field (parse_action_input os) doc t (\<lambda>pIn t.
               handle_action os token action_id (word_of_int timestamp) pIn t)))))
   }"

section \<open>Registration\<close>

abbreviation (input) QCLOUD_ERR_ACTION_EXIST :: int where "QCLOUD_ERR_ACTION_EXIST \<equiv> -210"
abbreviation (input) QCLOUD_ERR_NOT_ACTION_EXIST :: int where "QCLOUD_ERR_NOT_ACTION_EXIST \<equiv> -211"

text \<open>As with the properties, the search compares the address of the action with those of the handlers.\<close>

definition find_action :: "'w os \<Rightarrow> nat \<Rightarrow> 'w Qcloud_IoT_Template \<Rightarrow> nat option \<times> 'w Qcloud_IoT_Template" where
  "find_action os pAction t =
     (case HAL_Malloc os (mqtt t) of
        (None, c) \<Rightarrow> (None, t\<lparr>mqtt := c\<rparr>)
      | (Some iter, c) \<Rightarrow> (map_option fst (find (\<lambda>(node, val, handler). val = pAction) (action_handle_list t)), t\<lparr>mqtt := c\<rparr>))"

definition check_action_existence :: "'w os \<Rightarrow> nat \<Rightarrow> 'w Qcloud_IoT_Template \<Rightarrow> bool \<times> 'w Qcloud_IoT_Template" where
  "check_action_existence os pAction t = (let (node, t) = find_action os pAction t in (node \<noteq> None, t))"

definition add_action_handle_to_template_list ::
  "'w os \<Rightarrow> nat \<Rightarrow> nat option \<Rightarrow> 'w Qcloud_IoT_Template \<Rightarrow> int \<times> 'w Qcloud_IoT_Template" where
  "add_action_handle_to_template_list os pAction callback t =
     (case HAL_Malloc os (mqtt t) of
        (None, c) \<Rightarrow> (QCLOUD_ERR_FAILURE, t\<lparr>mqtt := c\<rparr>)
      | (Some handler, c) \<Rightarrow>
          (case HAL_Malloc os c of
             (None, c) \<Rightarrow> (QCLOUD_ERR_FAILURE, t\<lparr>mqtt := c\<rparr>)
           | (Some node, c) \<Rightarrow>
               (QCLOUD_RET_SUCCESS, t\<lparr>mqtt := c, action_handle_list :=
                  nodes_rpush (action_handle_list t) node (handler, \<lparr>ah_action = pAction, ah_callback = callback\<rparr>)\<rparr>)))"

definition IOT_Action_Register :: "'w os \<Rightarrow> nat \<Rightarrow> nat option \<Rightarrow> 'w Qcloud_IoT_Template \<Rightarrow> int \<times> 'w Qcloud_IoT_Template" where
  "IOT_Action_Register os pAction callback t =
     (if callback = None \<or> pAction = 0 then (QCLOUD_ERR_INVAL, t)
      else let (b, t) = check_action_existence os pAction t
           in if b then (QCLOUD_ERR_ACTION_EXIST, t) else add_action_handle_to_template_list os pAction callback t)"

definition IOT_Action_Remove :: "'w os \<Rightarrow> nat \<Rightarrow> 'w Qcloud_IoT_Template \<Rightarrow> int \<times> 'w Qcloud_IoT_Template" where
  "IOT_Action_Remove os pAction t =
     (let (b, t) = check_action_existence os pAction t
      in if \<not> b then (QCLOUD_ERR_NOT_ACTION_EXIST, t)
         else case find_action os pAction t of
                (None, t) \<Rightarrow> (-202, t)
              | (Some node, t) \<Rightarrow> (QCLOUD_RET_SUCCESS, t\<lparr>action_handle_list := nodes_remove (action_handle_list t) node\<rparr>))"

definition IOT_Template_Register_Action :: "'w os \<Rightarrow> nat \<Rightarrow> nat option \<Rightarrow> 'w Qcloud_IoT_Template \<Rightarrow> int \<times> 'w Qcloud_IoT_Template" where
  "IOT_Template_Register_Action os pAction callback t =
     (if \<not> IOT_MQTT_IsConnected (mqtt t) then (QCLOUD_ERR_MQTT_NO_CONN, t) else IOT_Action_Register os pAction callback t)"

definition IOT_Template_UnRegister_Action :: "'w os \<Rightarrow> nat \<Rightarrow> 'w Qcloud_IoT_Template \<Rightarrow> int \<times> 'w Qcloud_IoT_Template" where
  "IOT_Template_UnRegister_Action os pAction t =
     (if \<not> IOT_MQTT_IsConnected (mqtt t) then (QCLOUD_ERR_MQTT_NO_CONN, t) else IOT_Action_Remove os pAction t)"

definition IOT_Action_Init :: "'w os \<Rightarrow> 'w Qcloud_IoT_Template \<Rightarrow> (int \<times> 'w Qcloud_IoT_Template) option" where
  "IOT_Action_Init os t =
     (let topic = thing_topic ''$thing/down/action/'' t
      in if length topic > MAX_SIZE_OF_CLOUD_TOPIC - 1 then Some (QCLOUD_ERR_FAILURE, t)
         else do {
           (rc, c) \<leftarrow> qcloud_iot_mqtt_subscribe os (Some topic)
              \<lparr>sp_qos = QOS0, on_message_handler = Some on_action_handle_fp, on_sub_event_handler = None,
               user_data = self_address t\<rparr> (mqtt t);
           Some (rc, t\<lparr>mqtt := c\<rparr>)
         })"

section \<open>Replies\<close>

text \<open>
  \<^verbatim>\<open>template_put_json_node\<close>: as \<^verbatim>\<open>put_json_node\<close>, but without structures, and with other texts for truth values and arrays. A
  structure would be printed as if its array of members were a string.
\<close>

definition output_text :: "prop_value option \<Rightarrow> cstring option" where
  "output_text d =
     (case d of
        None \<Rightarrow> Some (cstr ''null,'')
      | Some (JBOOL b) \<Rightarrow> Some (if b then cstr ''1,'' else cstr ''0,'')
      | Some (JOBJECT nodes) \<Rightarrow> None
      | Some (JARRAY s len) \<Rightarrow> Some (0x22 # s @ [0x22, 0x2C])
      | Some d \<Rightarrow> Some (format_json_buffer d))"

definition template_put_json_node :: "cstring option \<Rightarrow> prop_value option \<Rightarrow> nat \<Rightarrow> u8 list \<Rightarrow> (int \<times> u8 list) option" where
  "template_put_json_node pKey pData n a =
     on_success (put_key pKey 0 n a) (\<lambda>cur a. do { s \<leftarrow> output_text pData; put_text s 0 n cur a })"

definition iot_action_json_init :: "u8 list \<Rightarrow> nat \<Rightarrow> cstring \<Rightarrow> (int \<times> u8 list) option" where
  "iot_action_json_init a sizeOfBuffer pClientToken = do {
     a \<leftarrow> buf_write a 0 (replicate sizeOfBuffer 0);
     (r, a) \<leftarrow> snprintf_at a 0 sizeOfBuffer
       (cstr ''{\"method\":\"action_reply\", \"clientToken\":\"'' @ pClientToken @ cstr ''\", '');
     Some (check_snprintf_return r sizeOfBuffer, a)
   }"

primrec output_loop :: "DeviceProperty list \<Rightarrow> nat \<Rightarrow> u8 list \<Rightarrow> (int \<times> u8 list) option" where
  "output_loop [] n a = Some (QCLOUD_RET_SUCCESS, a)"
| "output_loop (p # ps) n a =
     (if dp_key p = None then Some (QCLOUD_ERR_INVAL, a)
      else go_on (template_put_json_node (dp_key p) (dp_data p) n a) (output_loop ps n))"

definition iot_construct_action_json ::
  "u8 list \<Rightarrow> nat \<Rightarrow> cstring \<Rightarrow> DeviceAction \<Rightarrow> sReplyPara \<Rightarrow> (int \<times> u8 list) option" where
  "iot_construct_action_json a n pClientToken pAction replyPara =
     go_on (iot_action_json_init a n pClientToken) (\<lambda>a.
       with_room n a (\<lambda>len.
         go_on (put_text (cstr ''\"code\":'' @ dec_int (reply_code replyPara) @ cstr '', \"status\":\"'' @ status_msg replyPara @
                  cstr ''\", \"response\":{'') 0 n len a) (\<lambda>a.
           with_room n a (\<lambda>len. case pOutput pAction of
               None \<Rightarrow> Some (QCLOUD_ERR_INVAL, a)
             | Some ps \<Rightarrow>
                 go_on (output_loop ps (n - len) a) (\<lambda>a.
                   with_room n a (\<lambda>len.
                     go_on (put_over (cstr ''}'') 0 n len a) (\<lambda>a. do {
                       len \<leftarrow> strlen_at a 0;
                       put_text (cstr ''}'') 0 n len a
                     })))))))"

definition publish_action_to_cloud :: "'w os \<Rightarrow> cstring \<Rightarrow> 'w Qcloud_IoT_Template \<Rightarrow> (int \<times> 'w Qcloud_IoT_Template) option" where
  "publish_action_to_cloud os pJsonDoc t =
     (let topic = thing_topic ''$thing/up/action/'' t
      in if length topic > MAX_SIZE_OF_CLOUD_TOPIC - 1 then Some (QCLOUD_ERR_FAILURE, t)
         else do {
           (rc, params, c) \<leftarrow> qcloud_iot_mqtt_publish os (Some topic)
              \<lparr>pp_qos = QOS1, pp_retained = 0, pp_id = 0, pp_payload = Some pJsonDoc\<rparr> (mqtt t);
           Some (rc, t\<lparr>mqtt := c\<rparr>)
         })"

definition IOT_Action_Reply ::
  "'w os \<Rightarrow> cstring option \<Rightarrow> u8 list option \<Rightarrow> nat \<Rightarrow> DeviceAction option \<Rightarrow> sReplyPara \<Rightarrow> 'w Qcloud_IoT_Template \<Rightarrow>
   (int \<times> u8 list option \<times> 'w Qcloud_IoT_Template) option" where
  "IOT_Action_Reply os pClientToken pJsonDoc sizeOfBuffer pAction replyPara t =
     (case (pJsonDoc, pClientToken, pAction) of
        (Some a, Some token, Some action) \<Rightarrow> do {
          (rc, a) \<leftarrow> iot_construct_action_json a sizeOfBuffer token action replyPara;
          if rc \<noteq> QCLOUD_RET_SUCCESS then Some (rc, Some a, t)
          else do {
            doc \<leftarrow> c_string a;
            (rc, t) \<leftarrow> publish_action_to_cloud os doc t;
            Some (rc, Some a, t)
          }
        }
      | _ \<Rightarrow> Some (QCLOUD_ERR_INVAL, pJsonDoc, t))"

end
