(* ===== verification/Dt_Client.thy ===== *)
theory Dt_Client
  imports Dt_Action
begin

text \<open>
  The client of the data template service (\<^verbatim>\<open>data_template_client.c\<close>, \<^verbatim>\<open>data_template_client_manager.c\<close> and
  \<^verbatim>\<open>data_template_client_common.c\<close>): requests to the cloud, the list of those that wait for a reply, the handler of the
  messages that come down, and the properties that the application has registered.

  The template holds its MQTT client, and through it the outside world. A callback that the MQTT client makes
  while it yields runs when the call has returned, in the order of the calls; the code runs it inside the call. The
  order between the callbacks is the same, and they do not touch the MQTT client, except that the
  synchronous request for the status may publish one more message.
\<close>

section \<open>Requests\<close>

definition init_request_params :: "Method \<Rightarrow> reply_cb option \<Rightarrow> nat \<Rightarrow> u8 \<Rightarrow> RequestParams" where
  "init_request_params method callback userContext timeout_sec =
     \<lparr>rp_method = method, rp_timeout_sec = timeout_sec, request_callback = callback, rp_user_context = userContext\<rparr>"

text \<open>A request whose node cannot be allocated is lost with its memory.\<close>

definition add_request_to_template_list ::
  "'w os \<Rightarrow> cstring \<Rightarrow> RequestParams \<Rightarrow> 'w Qcloud_IoT_Template \<Rightarrow> int \<times> 'w Qcloud_IoT_Template" where
  "add_request_to_template_list os pClientToken pParams t =
     (if length (reply_list t) \<ge> MAX_APPENDING_REQUEST_AT_ANY_GIVEN_TIME then (QCLOUD_ERR_MAX_APPENDING_REQUEST, t)
      else case HAL_Malloc os (mqtt t) of
             (None, c) \<Rightarrow> (QCLOUD_ERR_FAILURE, t\<lparr>mqtt := c\<rparr>)
           | (Some request, c) \<Rightarrow>
               (let (timer, c) = countdown os InitTimer (unat (rp_timeout_sec pParams)) c;
                    r = \<lparr>rq_client_token = token_bytes pClientToken, rq_method = rp_method pParams,
                         rq_user_context = rp_user_context pParams, rq_timer = timer, rq_callback = request_callback pParams\<rparr>
                in case HAL_Malloc os c of
                     (None, c) \<Rightarrow> (QCLOUD_ERR_FAILURE, t\<lparr>mqtt := c\<rparr>)
                   | (Some node, c) \<Rightarrow> (QCLOUD_RET_SUCCESS, t\<lparr>mqtt := c, reply_list := nodes_rpush (reply_list t) node r\<rparr>)))"

definition publish_to_template_upstream_topic ::
  "'w os \<Rightarrow> cstring \<Rightarrow> 'w Qcloud_IoT_Template \<Rightarrow> (int \<times> 'w Qcloud_IoT_Template) option" where
  "publish_to_template_upstream_topic os pJsonDoc t =
     (let topic = thing_topic ''$thing/up/property/'' t
      in if length topic > MAX_SIZE_OF_CLOUD_TOPIC - 1 then Some (QCLOUD_ERR_FAILURE, t)
         else do {
           (rc, params, c) \<leftarrow> qcloud_iot_mqtt_publish os (Some topic)
              \<lparr>pp_qos = QOS0, pp_retained = 0, pp_id = 0, pp_payload = Some pJsonDoc\<rparr> (mqtt t);
           Some (rc, t\<lparr>mqtt := c\<rparr>)
         })"

text \<open>\<^verbatim>\<open>send_template_request\<close>: the result, the buffer with the document, and the template.\<close>

definition send_template_request ::
  "'w os \<Rightarrow> RequestParams \<Rightarrow> u8 list \<Rightarrow> nat \<Rightarrow> 'w Qcloud_IoT_Template \<Rightarrow> (int \<times> u8 list \<times> 'w Qcloud_IoT_Template) option" where
  "send_template_request os pParams a sizeOfBuffer t = do {
     doc \<leftarrow> c_string a;
     (client_token, w) \<leftarrow> parse_client_token os doc (world (mqtt t));
     let t = with_world w t;
     (case client_token of
        None \<Rightarrow> Some (QCLOUD_ERR_INVAL, a, t)
      | Some token \<Rightarrow> do {
          (rc, a) \<leftarrow> set_template_json_type a sizeOfBuffer (rp_method pParams);
          if rc \<noteq> QCLOUD_RET_SUCCESS then Some (rc, a, t)
          else do {
            doc \<leftarrow> c_string a;
            (rc, t) \<leftarrow> publish_to_template_upstream_topic os doc t;
            let (rc, t) = (if rc = QCLOUD_RET_SUCCESS \<and> request_callback pParams \<noteq> None
                           then add_request_to_template_list os token pParams t else (rc, t));
            Some (rc, a, t)
          }
        })
   }"

definition subscribe_template_downstream_topic ::
  "'w os \<Rightarrow> 'w Qcloud_IoT_Template \<Rightarrow> (int \<times> 'w Qcloud_IoT_Template) option" where
  "subscribe_template_downstream_topic os t = do {
     let (rc, t) =
       (if downstream_topic t \<noteq> None then (QCLOUD_RET_SUCCESS, t)
        else case HAL_Malloc os (mqtt t) of
               (None, c) \<Rightarrow> (QCLOUD_ERR_FAILURE, t\<lparr>mqtt := c\<rparr>)
             | (Some p, c) \<Rightarrow>
                 (let t = t\<lparr>mqtt := c\<rparr>; topic = thing_topic ''$thing/down/property/'' t
                  in if length topic > MAX_SIZE_OF_CLOUD_TOPIC - 1 then (QCLOUD_ERR_FAILURE, t)
                     else (QCLOUD_RET_SUCCESS, t\<lparr>downstream_topic := Some topic\<rparr>)));
     if rc \<noteq> QCLOUD_RET_SUCCESS then Some (rc, t)
     else do {
       (rc, c) \<leftarrow> qcloud_iot_mqtt_subscribe os (downstream_topic t)
          \<lparr>sp_qos = QOS0, on_message_handler = Some on_template_downstream_fp, on_sub_event_handler = None,
           user_data = self_address t\<rparr> (mqtt t);
       Some (rc, t\<lparr>mqtt := c\<rparr>)
     }
   }"

text \<open>The part that the requests share: a lost subscription is taken up again; its result is only logged.\<close>

definition renew_subscription :: "'w os \<Rightarrow> 'w Qcloud_IoT_Template \<Rightarrow> 'w Qcloud_IoT_Template option" where
  "renew_subscription os t =
     (if sync_status t < 0 then map_option snd (subscribe_template_downstream_topic os t) else Some t)"

definition IOT_Template_ClearControl ::
  "'w os \<Rightarrow> cstring option \<Rightarrow> reply_cb option \<Rightarrow> nat \<Rightarrow> 'w Qcloud_IoT_Template \<Rightarrow> (int \<times> 'w Qcloud_IoT_Template) option" where
  "IOT_Template_ClearControl os pClientToken callback timeout_ms t =
     (case pClientToken of
        None \<Rightarrow> Some (QCLOUD_ERR_INVAL, t)
      | Some token \<Rightarrow>
          if \<not> IOT_MQTT_IsConnected (mqtt t) then Some (QCLOUD_ERR_MQTT_NO_CONN, t)
          else do {
            t \<leftarrow> renew_subscription os t;
            (r, a) \<leftarrow> snprintf_at (replicate MAX_CLEAE_DOC_LEN 0) 0 MAX_CLEAE_DOC_LEN (empty_json_text token);
            let rc = check_snprintf_return r MAX_CLEAE_DOC_LEN;
            if rc \<noteq> QCLOUD_RET_SUCCESS then Some (rc, t)
            else do {
              (rc, a, t) \<leftarrow> send_template_request os (init_request_params CLEAR callback 0 (of_nat (timeout_ms div 1000)))
                 a MAX_CLEAE_DOC_LEN t;
              Some (rc, t)
            }
          })"

text \<open>\<^verbatim>\<open>IOT_Template_Report\<close> and \<^verbatim>\<open>IOT_Template_Report_SysInfo\<close>, which differ in the method.\<close>

definition report_request ::
  "Method \<Rightarrow> 'w os \<Rightarrow> u8 list option \<Rightarrow> nat \<Rightarrow> reply_cb option \<Rightarrow> nat \<Rightarrow> nat \<Rightarrow> 'w Qcloud_IoT_Template \<Rightarrow>
   (int \<times> u8 list option \<times> 'w Qcloud_IoT_Template) option" where
  "report_request method os pJsonDoc sizeOfBuffer callback userContext timeout_ms t =
     (case pJsonDoc of
        None \<Rightarrow> Some (QCLOUD_ERR_INVAL, pJsonDoc, t)
      | Some a \<Rightarrow>
          if timeout_ms = 0 then Some (QCLOUD_ERR_INVAL, pJsonDoc, t)
          else if \<not> IOT_MQTT_IsConnected (mqtt t) then Some (QCLOUD_ERR_MQTT_NO_CONN, pJsonDoc, t)
          else do {
            t \<leftarrow> renew_subscription os t;
            (rc, a, t) \<leftarrow> send_template_request os
               (init_request_params method callback userContext (of_nat (timeout_ms div 1000))) a sizeOfBuffer t;
            Some (rc, Some a, t)
          })"

definition IOT_Template_Report ::
  "'w os \<Rightarrow> u8 list option \<Rightarrow> nat \<Rightarrow> reply_cb option \<Rightarrow> nat \<Rightarrow> nat \<Rightarrow> 'w Qcloud_IoT_Template \<Rightarrow>
   (int \<times> u8 list option \<times> 'w Qcloud_IoT_Template) option" where
  "IOT_Template_Report = report_request REPORT"

definition IOT_Template_Report_SysInfo ::
  "'w os \<Rightarrow> u8 list option \<Rightarrow> nat \<Rightarrow> reply_cb option \<Rightarrow> nat \<Rightarrow> nat \<Rightarrow> 'w Qcloud_IoT_Template \<Rightarrow>
   (int \<times> u8 list option \<times> 'w Qcloud_IoT_Template) option" where
  "IOT_Template_Report_SysInfo = report_request RINFO"

text \<open>The document of \<^verbatim>\<open>IOT_Template_GetStatus\<close> is an array on the stack; what it held before does not matter.\<close>

definition IOT_Template_GetStatus ::
  "'w os \<Rightarrow> reply_cb option \<Rightarrow> nat \<Rightarrow> nat \<Rightarrow> 'w Qcloud_IoT_Template \<Rightarrow> (int \<times> 'w Qcloud_IoT_Template) option" where
  "IOT_Template_GetStatus os callback userContext timeout_ms t =
     (if callback = None \<or> timeout_ms = 0 then Some (QCLOUD_ERR_INVAL, t)
      else if \<not> IOT_MQTT_IsConnected (mqtt t) then Some (QCLOUD_ERR_MQTT_NO_CONN, t)
      else do {
        t \<leftarrow> renew_subscription os t;
        (num, a) \<leftarrow> build_empty_json (token_num t) (replicate MAX_SIZE_OF_JSON_WITH_CLIENT_TOKEN 0) (td_product_id t);
        (rc, a, t) \<leftarrow> send_template_request os
           (init_request_params GET callback userContext (of_nat (timeout_ms div 1000)))
           a MAX_SIZE_OF_JSON_WITH_CLIENT_TOKEN (t\<lparr>token_num := num\<rparr>);
        Some (rc, t)
      })"

text \<open>
  The reply to a control message. The room is first computed from the length of what the buffer held before,
  although the text is printed from its start.
\<close>

definition template_ConstructControlReply ::
  "'w Qcloud_IoT_Template \<Rightarrow> u8 list \<Rightarrow> nat \<Rightarrow> sReplyPara \<Rightarrow> (int \<times> u8 list) option" where
  "template_ConstructControlReply t a sizeOfBuffer replyPara = do {
     len \<leftarrow> strlen_at a 0;
     let remain_size = nat ((int sizeOfBuffer - int len) mod 2 ^ 64);
     if remain_size \<le> 1 then Some (QCLOUD_ERR_JSON_BUFFER_TOO_SMALL, a)
     else do {
       token \<leftarrow> c_string (template_clientToken t);
       (r, a) \<leftarrow> snprintf_at a 0 remain_size
          (cstr ''{\"code\":'' @ dec_int (reply_code replyPara) @ cstr '', \"clientToken\":\"'' @ token @ cstr ''\",'');
       go_on (Some (check_snprintf_return r remain_size, a)) (\<lambda>a.
         with_room sizeOfBuffer a (\<lambda>len.
           if status_msg replyPara \<noteq> []
           then put_text (cstr ''\"status\":\"'' @ status_msg replyPara @ cstr ''\"}'') 0 sizeOfBuffer len a
           else put_over (cstr ''}'') 0 sizeOfBuffer len a))
     }
   }"

definition IOT_Template_ControlReply ::
  "'w os \<Rightarrow> u8 list option \<Rightarrow> nat \<Rightarrow> sReplyPara \<Rightarrow> 'w Qcloud_IoT_Template \<Rightarrow> (int \<times> u8 list option \<times> 'w Qcloud_IoT_Template) option" where
  "IOT_Template_ControlReply os pJsonDoc sizeOfBuffer replyPara t =
     (case pJsonDoc of
        None \<Rightarrow> Some (QCLOUD_ERR_INVAL, pJsonDoc, t)
      | Some a \<Rightarrow>
          if \<not> IOT_MQTT_IsConnected (mqtt t) then Some (QCLOUD_ERR_MQTT_NO_CONN, pJsonDoc, t)
          else do {
            t \<leftarrow> renew_subscription os t;
            (rc, a) \<leftarrow> template_ConstructControlReply t a sizeOfBuffer replyPara;
            if rc \<noteq> QCLOUD_RET_SUCCESS then Some (rc, Some a, t)
            else do {
              (rc, a, t) \<leftarrow> send_template_request os
                 (init_request_params REPLY None 0 (of_nat (reply_timeout_ms replyPara div 1000))) a sizeOfBuffer t;
              Some (rc, Some a, t)
            }
          })"

text \<open>The operations of the MQTT client, for topics of the application.\<close>

definition IOT_Template_Publish ::
  "'w os \<Rightarrow> cstring option \<Rightarrow> PublishParams \<Rightarrow> 'w Qcloud_IoT_Template \<Rightarrow> (int \<times> PublishParams \<times> 'w Qcloud_IoT_Template) option" where
  "IOT_Template_Publish os topicName pParams t = do {
     (rc, pParams, c) \<leftarrow> qcloud_iot_mqtt_publish os topicName pParams (mqtt t);
     Some (rc, pParams, t\<lparr>mqtt := c\<rparr>)
   }"

definition IOT_Template_Subscribe ::
  "'w os \<Rightarrow> cstring option \<Rightarrow> SubscribeParams \<Rightarrow> 'w Qcloud_IoT_Template \<Rightarrow> (int \<times> 'w Qcloud_IoT_Template) option" where
  "IOT_Template_Subscribe os topicFilter pParams t = do {
     (rc, c) \<leftarrow> qcloud_iot_mqtt_subscribe os topicFilter pParams (mqtt t);
     Some (rc, t\<lparr>mqtt := c\<rparr>)
   }"

definition IOT_Template_Unsubscribe ::
  "'w os \<Rightarrow> cstring option \<Rightarrow> 'w Qcloud_IoT_Template \<Rightarrow> (int \<times> 'w Qcloud_IoT_Template) option" where
  "IOT_Template_Unsubscribe os topicFilter t = do {
     (rc, c) \<leftarrow> qcloud_iot_mqtt_unsubscribe os topicFilter (mqtt t);
     Some (rc, t\<lparr>mqtt := c\<rparr>)
   }"

definition IOT_Template_IsConnected :: "'w Qcloud_IoT_Template \<Rightarrow> bool" where
  "IOT_Template_IsConnected t = IOT_MQTT_IsConnected (mqtt t)"

section \<open>The end of a request\<close>

text \<open>\<^verbatim>\<open>_reply_ack_cb\<close>, \<^verbatim>\<open>_get_status_reply_ack_cb\<close>, or a call into the application.\<close>

definition reply_callback ::
  "'w os \<Rightarrow> reply_cb \<Rightarrow> Request \<Rightarrow> ReplyAck \<Rightarrow> 'w Qcloud_IoT_Template \<Rightarrow> 'w Qcloud_IoT_Template option" where
  "reply_callback os cb request ack t =
     (case cb of
        ReplyAckCb \<Rightarrow> set_ack (rq_user_context request) ack t
      | GetStatusReplyAckCb \<Rightarrow>
          if acks t (rq_user_context request) = Some ACK_ACCEPTED
          then do {
            token \<leftarrow> c_string (rq_client_token request);
            (rc, t) \<leftarrow> IOT_Template_ClearControl os (Some token) None QCLOUD_IOT_MQTT_COMMAND_TIMEOUT t;
            Some t
          }
          else set_ack (rq_user_context request) ack t
      | UserReplyCb f \<Rightarrow> Some (call_user (ReplyCall f (rq_method request) ack (template_cloud_rcv_buf t) request) t))"

definition tell :: "'w os \<Rightarrow> Request \<Rightarrow> ReplyAck \<Rightarrow> 'w Qcloud_IoT_Template \<Rightarrow> 'w Qcloud_IoT_Template option" where
  "tell os request ack t = (case rq_callback request of None \<Rightarrow> Some t | Some cb \<Rightarrow> reply_callback os cb request ack t)"

definition drop_request :: "nat \<Rightarrow> 'w Qcloud_IoT_Template \<Rightarrow> 'w Qcloud_IoT_Template" where
  "drop_request node t = t\<lparr>reply_list := nodes_remove (reply_list t) node\<rparr>"

text \<open>
  \<^verbatim>\<open>_traverse_template_list\<close> runs from the tail over the nodes that are in the list when it starts; the functions it
  calls remove at most the node they are given.
\<close>

primrec traverse_loop ::
  "(nat \<times> Request \<Rightarrow> 'w Qcloud_IoT_Template \<Rightarrow> 'w Qcloud_IoT_Template option) \<Rightarrow> (nat \<times> Request) list \<Rightarrow>
   'w Qcloud_IoT_Template \<Rightarrow> 'w Qcloud_IoT_Template option" where
  "traverse_loop handle [] t = Some t"
| "traverse_loop handle (node # nodes) t = do { t \<leftarrow> handle node t; traverse_loop handle nodes t }"

definition traverse_template_list ::
  "'w os \<Rightarrow> (nat \<times> Request \<Rightarrow> 'w Qcloud_IoT_Template \<Rightarrow> 'w Qcloud_IoT_Template option) \<Rightarrow>
   'w Qcloud_IoT_Template \<Rightarrow> 'w Qcloud_IoT_Template option" where
  "traverse_template_list os handle t =
     (if reply_list t = [] then Some t
      else case HAL_Malloc os (mqtt t) of
             (None, c) \<Rightarrow> Some (t\<lparr>mqtt := c\<rparr>)
           | (Some iter, c) \<Rightarrow> traverse_loop handle (rev (reply_list t)) (t\<lparr>mqtt := c\<rparr>))"

definition handle_template_expired_reply_callback ::
  "'w os \<Rightarrow> nat \<times> Request \<Rightarrow> 'w Qcloud_IoT_Template \<Rightarrow> 'w Qcloud_IoT_Template option" where
  "handle_template_expired_reply_callback os node t =
     (let (a, request) = node; (e, c) = expired os (rq_timer request) (mqtt t); t = t\<lparr>mqtt := c\<rparr>
      in if \<not> e then Some t
         else do { t \<leftarrow> tell os request ACK_TIMEOUT t; Some (drop_request a t) })"

definition handle_template_expired_reply :: "'w os \<Rightarrow> 'w Qcloud_IoT_Template \<Rightarrow> 'w Qcloud_IoT_Template option" where
  "handle_template_expired_reply os t = traverse_template_list os (handle_template_expired_reply_callback os) t"

section \<open>Messages of the cloud\<close>

definition set_control_clientToken :: "cstring \<Rightarrow> 'w Qcloud_IoT_Template \<Rightarrow> 'w Qcloud_IoT_Template" where
  "set_control_clientToken tok t = t\<lparr>template_clientToken := token_bytes tok\<rparr>"

text \<open>\<^verbatim>\<open>_handle_control\<close>: from the tail, every registered property that the message names is updated and its callback called.\<close>

primrec control_loop ::
  "'w os \<Rightarrow> cstring \<Rightarrow> (nat \<times> nat \<times> PropertyHandler) list \<Rightarrow> 'w Qcloud_IoT_Template \<Rightarrow> 'w Qcloud_IoT_Template option" where
  "control_loop os control_str [] t = Some t"
| "control_loop os control_str (node # nodes) t = do {
     let handler = snd (snd node);
     p \<leftarrow> props t (ph_property handler);
     (b, p, w) \<leftarrow> update_value_if_key_match (libc t) os control_str p (world (mqtt t));
     let t = (with_world w t)\<lparr>props := (props t)(ph_property handler \<mapsto> p)\<rparr>;
     control_loop os control_str nodes
       (if b then (case ph_callback handler of None \<Rightarrow> t | Some f \<Rightarrow> call_user (PropertyCall f control_str (ph_property handler)) t)
        else t)
   }"

definition handle_control :: "'w os \<Rightarrow> cstring \<Rightarrow> 'w Qcloud_IoT_Template \<Rightarrow> 'w Qcloud_IoT_Template option" where
  "handle_control os control_str t =
     (if property_handle_list t = [] then Some t
      else case HAL_Malloc os (mqtt t) of
             (None, c) \<Rightarrow> Some (t\<lparr>mqtt := c\<rparr>)
           | (Some iter, c) \<Rightarrow> control_loop os control_str (rev (property_handle_list t)) (t\<lparr>mqtt := c\<rparr>))"

text \<open>A control message goes to the function of the application if there is one.\<close>

definition control_message :: "'w os \<Rightarrow> cstring \<Rightarrow> cstring \<Rightarrow> eControlType \<Rightarrow> 'w Qcloud_IoT_Template \<Rightarrow> 'w Qcloud_IoT_Template option" where
  "control_message os token control_str ty t =
     (let t = set_control_clientToken token t
      in case usr_control_handle t of
           Some f \<Rightarrow> Some (call_user (ControlCall f control_str ty) t)
         | None \<Rightarrow> handle_control os control_str t)"

text \<open>
  \<^verbatim>\<open>_handle_template_reply_callback\<close>. The reply to a request for the status may carry a control message; then
  \<^verbatim>\<open>ACK_ACCEPTED\<close> is stored through the context of the request, whatever the application passed for it. A reply without
  a code ends the request without a call.
\<close>

definition status_reply ::
  "'w os \<Rightarrow> cstring \<Rightarrow> cstring \<Rightarrow> ReplyAck \<Rightarrow> cstring \<Rightarrow> Request \<Rightarrow> 'w Qcloud_IoT_Template \<Rightarrow> 'w Qcloud_IoT_Template option" where
  "status_reply os pClientToken pType status doc request t =
     (if pType \<noteq> cstr ''get_status_reply'' \<or> status \<noteq> ACK_ACCEPTED then Some t
      else do {
        (control_str, w) \<leftarrow> parse_template_get_control os doc (world (mqtt t));
        let t = with_world w t;
        (case control_str of
           None \<Rightarrow> Some t
         | Some control_str \<Rightarrow> do {
             t \<leftarrow> control_message os pClientToken control_str eGET_CTL t;
             set_ack (rq_user_context request) ACK_ACCEPTED t
           })
      })"

definition handle_template_reply_callback ::
  "'w os \<Rightarrow> cstring \<Rightarrow> cstring \<Rightarrow> nat \<times> Request \<Rightarrow> 'w Qcloud_IoT_Template \<Rightarrow> 'w Qcloud_IoT_Template option" where
  "handle_template_reply_callback os pClientToken pType node t = do {
     let (a, request) = node;
     m \<leftarrow> token_matches (rq_client_token request) pClientToken;
     if \<not> m then Some t
     else do {
       doc \<leftarrow> c_string (template_cloud_rcv_buf t);
       (code, w) \<leftarrow> parse_code_return os doc (world (mqtt t));
       let t = with_world w t;
       t \<leftarrow> (case code of
              None \<Rightarrow> Some t
            | Some n \<Rightarrow> do {
                let status = (if n = 0 then ACK_ACCEPTED else ACK_REJECTED);
                t \<leftarrow> status_reply os pClientToken pType status doc request t;
                tell os request status t
              });
       Some (drop_request a t)
     }
   }"

text \<open>
  \<^verbatim>\<open>_on_template_downstream_topic_handler\<close>. One byte more than the payload is copied, then overwritten with the terminating zero.
\<close>

definition on_template_downstream_topic_handler ::
  "'w os \<Rightarrow> MQTTMessage \<Rightarrow> 'w Qcloud_IoT_Template \<Rightarrow> 'w Qcloud_IoT_Template option" where
  "on_template_downstream_topic_handler os message t =
     (if msg_topic_len message = 0 then Some t
      else if unat (msg_payload_len message) > CLOUD_IOT_JSON_RX_BUF_LEN then Some t
      else do {
        let len = min (CLOUD_IOT_JSON_RX_BUF_LEN - 1) (unat (msg_payload_len message));
        bytes \<leftarrow> buf_read (msg_buf message) (msg_payload message) (len + 1);
        a \<leftarrow> buf_write (replicate CLOUD_IOT_JSON_RX_BUF_LEN 0) 0 bytes;
        a \<leftarrow> buf_put a len 0;
        let t = t\<lparr>template_cloud_rcv_buf := a\<rparr>;
        doc \<leftarrow> c_string a;
        (type_str, w) \<leftarrow> parse_template_method_type os doc (world (mqtt t));
        let t = with_world w t;
        (case type_str of
           None \<Rightarrow> Some t
         | Some type_str \<Rightarrow> do {
             (token, w) \<leftarrow> parse_client_token os doc (world (mqtt t));
             let t = with_world w t;
             (case token of
                None \<Rightarrow> Some t
              | Some token \<Rightarrow>
                  if type_str = cstr ''control''
                  then do {
                    (control_str, w) \<leftarrow> parse_template_cmd_control os doc (world (mqtt t));
                    let t = with_world w t;
                    (case control_str of
                       None \<Rightarrow> Some t
                     | Some control_str \<Rightarrow> control_message os token control_str eOPERATION_CTL t)
                  }
                  else traverse_template_list os (handle_template_reply_callback os token type_str) t)
           })
      })"

text \<open>\<^verbatim>\<open>_template_mqtt_event_handler\<close>: the fate of a subscription ends the waiting for it.\<close>

definition template_mqtt_event_handler ::
  "MQTTEventType \<Rightarrow> event_arg \<Rightarrow> 'w Qcloud_IoT_Template \<Rightarrow> 'w Qcloud_IoT_Template" where
  "template_mqtt_event_handler ev arg t =
     (let t = (if sync_status t > 0
               then if ev = MQTT_EVENT_SUBCRIBE_SUCCESS then t\<lparr>sync_status := 0\<rparr>
                    else if ev = MQTT_EVENT_SUBCRIBE_TIMEOUT \<or> ev = MQTT_EVENT_SUBCRIBE_NACK then t\<lparr>sync_status := - 1\<rparr>
                    else t
               else t)
      in case h_fp (tm_event_handle t) of
           None \<Rightarrow> t
         | Some f \<Rightarrow> call_user (TemplateEventCall f (h_context (tm_event_handle t)) ev arg) t)"

section \<open>Yielding\<close>

definition run_callback :: "'w os \<Rightarrow> callback \<Rightarrow> 'w Qcloud_IoT_Template \<Rightarrow> 'w Qcloud_IoT_Template option" where
  "run_callback os cb t =
     (case cb of
        MessageCb f message p \<Rightarrow>
          if p \<noteq> self_address t then Some t
          else if f = on_template_downstream_fp then on_template_downstream_topic_handler os message t
          else if f = on_action_handle_fp then on_action_handle_callback os message t
          else Some t
      | EventCb f p ev arg \<Rightarrow>
          if f = template_mqtt_event_fp \<and> p = self_address t then Some (template_mqtt_event_handler ev arg t) else Some t
      | SubEventCb f ev p \<Rightarrow> Some t)"

primrec run_callbacks :: "'w os \<Rightarrow> callback list \<Rightarrow> 'w Qcloud_IoT_Template \<Rightarrow> 'w Qcloud_IoT_Template option" where
  "run_callbacks os [] t = Some t"
| "run_callbacks os (cb # cbs) t = do { t \<leftarrow> run_callback os cb t; run_callbacks os cbs t }"

definition IOT_Template_Yield :: "'w os \<Rightarrow> nat \<Rightarrow> 'w Qcloud_IoT_Template \<Rightarrow> (int \<times> 'w Qcloud_IoT_Template) option" where
  "IOT_Template_Yield os timeout_ms t =
     (if timeout_ms = 0 then Some (QCLOUD_ERR_INVAL, t)
      else do {
        t \<leftarrow> handle_template_expired_reply os t;
        (rc, c) \<leftarrow> IOT_MQTT_Yield os timeout_ms (mqtt t);
        t \<leftarrow> run_callbacks os (drop (length (trace (mqtt t))) (trace c)) (t\<lparr>mqtt := c\<rparr>);
        Some (rc, t)
      })"

section \<open>Synchronous requests\<close>

text \<open>
  The variable that holds the acknowledgement is at the address \<open>p\<close>; it is gone when the function returns. The loop
  has no bound of its own.
\<close>

partial_function (option) wait_for_ack :: "'w os \<Rightarrow> nat \<Rightarrow> 'w Qcloud_IoT_Template \<Rightarrow> 'w Qcloud_IoT_Template option" where
  "wait_for_ack os p t =
     (if acks t p = Some ACK_NONE
      then do { (rc, t) \<leftarrow> IOT_Template_Yield os 200 t; wait_for_ack os p t }
      else Some t)"

definition ack_result :: "int \<Rightarrow> int \<Rightarrow> ReplyAck option \<Rightarrow> int" where
  "ack_result timed_out rejected ack =
     (case ack of Some ACK_TIMEOUT \<Rightarrow> timed_out | Some ACK_REJECTED \<Rightarrow> rejected | _ \<Rightarrow> QCLOUD_RET_SUCCESS)"

definition wait_for_result ::
  "'w os \<Rightarrow> nat \<Rightarrow> int \<Rightarrow> int \<Rightarrow> int \<Rightarrow> 'w Qcloud_IoT_Template \<Rightarrow> (int \<times> 'w Qcloud_IoT_Template) option" where
  "wait_for_result os p timed_out rejected rc t =
     (if rc \<noteq> QCLOUD_RET_SUCCESS then Some (rc, t\<lparr>acks := (acks t)(p := None)\<rparr>)
      else do {
        t \<leftarrow> wait_for_ack os p t;
        Some (ack_result timed_out rejected (acks t p), t\<lparr>acks := (acks t)(p := None)\<rparr>)
      })"

definition report_request_sync ::
  "Method \<Rightarrow> 'w os \<Rightarrow> u8 list option \<Rightarrow> nat \<Rightarrow> nat \<Rightarrow> nat \<Rightarrow> 'w Qcloud_IoT_Template \<Rightarrow>
   (int \<times> u8 list option \<times> 'w Qcloud_IoT_Template) option" where
  "report_request_sync method os pJsonDoc sizeOfBuffer timeout_ms p t =
     (if pJsonDoc = None \<or> timeout_ms = 0 then Some (QCLOUD_ERR_INVAL, pJsonDoc, t)
      else if \<not> IOT_MQTT_IsConnected (mqtt t) then Some (QCLOUD_ERR_MQTT_NO_CONN, pJsonDoc, t)
      else do {
        (rc, a, t) \<leftarrow> report_request method os pJsonDoc sizeOfBuffer (Some ReplyAckCb) p timeout_ms
           (t\<lparr>acks := (acks t)(p \<mapsto> ACK_NONE)\<rparr>);
        (rc, t) \<leftarrow> wait_for_result os p QCLOUD_ERR_REPORT_TIMEOUT QCLOUD_ERR_REPORT_REJECTED rc t;
        Some (rc, a, t)
      })"

definition IOT_Template_Report_Sync ::
  "'w os \<Rightarrow> u8 list option \<Rightarrow> nat \<Rightarrow> nat \<Rightarrow> nat \<Rightarrow> 'w Qcloud_IoT_Template \<Rightarrow> (int \<times> u8 list option \<times> 'w Qcloud_IoT_Template) option" where
  "IOT_Template_Report_Sync = report_request_sync REPORT"

definition IOT_Template_Report_SysInfo_Sync ::
  "'w os \<Rightarrow> u8 list option \<Rightarrow> nat \<Rightarrow> nat \<Rightarrow> nat \<Rightarrow> 'w Qcloud_IoT_Template \<Rightarrow> (int \<times> u8 list option \<times> 'w Qcloud_IoT_Template) option" where
  "IOT_Template_Report_SysInfo_Sync = report_request_sync RINFO"

definition IOT_Template_GetStatus_sync ::
  "'w os \<Rightarrow> nat \<Rightarrow> nat \<Rightarrow> 'w Qcloud_IoT_Template \<Rightarrow> (int \<times> 'w Qcloud_IoT_Template) option" where
  "IOT_Template_GetStatus_sync os timeout_ms p t =
     (if timeout_ms = 0 then Some (QCLOUD_ERR_INVAL, t)
      else if \<not> IOT_MQTT_IsConnected (mqtt t) then Some (QCLOUD_ERR_MQTT_NO_CONN, t)
      else do {
        (rc, t) \<leftarrow> IOT_Template_GetStatus os (Some GetStatusReplyAckCb) p timeout_ms (t\<lparr>acks := (acks t)(p \<mapsto> ACK_NONE)\<rparr>);
        wait_for_result os p QCLOUD_ERR_GET_TIMEOUT QCLOUD_ERR_GET_REJECTED rc t
      })"

section \<open>Registered properties\<close>

text \<open>
  \<^verbatim>\<open>qcloud_list_find\<close> on the list of handlers, which has no match function: it compares the pointer it is given with
  the pointers in the nodes, the addresses of the handlers.
\<close>

definition find_property :: "'w os \<Rightarrow> nat \<Rightarrow> 'w Qcloud_IoT_Template \<Rightarrow> nat option \<times> 'w Qcloud_IoT_Template" where
  "find_property os pProperty t =
     (case HAL_Malloc os (mqtt t) of
        (None, c) \<Rightarrow> (None, t\<lparr>mqtt := c\<rparr>)
      | (Some iter, c) \<Rightarrow> (map_option fst (find (\<lambda>(node, val, handler). val = pProperty) (property_handle_list t)), t\<lparr>mqtt := c\<rparr>))"

definition template_common_check_property_existence ::
  "'w os \<Rightarrow> nat \<Rightarrow> 'w Qcloud_IoT_Template \<Rightarrow> bool \<times> 'w Qcloud_IoT_Template" where
  "template_common_check_property_existence os pProperty t =
     (let (node, t) = find_property os pProperty t in (node \<noteq> None, t))"

definition template_common_remove_property :: "'w os \<Rightarrow> nat \<Rightarrow> 'w Qcloud_IoT_Template \<Rightarrow> int \<times> 'w Qcloud_IoT_Template" where
  "template_common_remove_property os pProperty t =
     (case find_property os pProperty t of
        (None, t) \<Rightarrow> (QCLOUD_ERR_NOT_PROPERTY_EXIST, t)
      | (Some node, t) \<Rightarrow> (QCLOUD_RET_SUCCESS, t\<lparr>property_handle_list := nodes_remove (property_handle_list t) node\<rparr>))"

definition add_property_handle_to_template_list ::
  "'w os \<Rightarrow> nat \<Rightarrow> nat option \<Rightarrow> 'w Qcloud_IoT_Template \<Rightarrow> int \<times> 'w Qcloud_IoT_Template" where
  "add_property_handle_to_template_list os pProperty callback t =
     (case HAL_Malloc os (mqtt t) of
        (None, c) \<Rightarrow> (QCLOUD_ERR_FAILURE, t\<lparr>mqtt := c\<rparr>)
      | (Some handler, c) \<Rightarrow>
          (case HAL_Malloc os c of
             (None, c) \<Rightarrow> (QCLOUD_ERR_FAILURE, t\<lparr>mqtt := c\<rparr>)
           | (Some node, c) \<Rightarrow>
               (QCLOUD_RET_SUCCESS, t\<lparr>mqtt := c, property_handle_list :=
                  nodes_rpush (property_handle_list t) node (handler, \<lparr>ph_property = pProperty, ph_callback = callback\<rparr>)\<rparr>)))"

text \<open>The address 0 is the null pointer.\<close>

definition template_common_register_property_on_delta ::
  "'w os \<Rightarrow> nat \<Rightarrow> nat option \<Rightarrow> 'w Qcloud_IoT_Template \<Rightarrow> (int \<times> 'w Qcloud_IoT_Template) option" where
  "template_common_register_property_on_delta os pProperty callback t =
     (if pProperty = 0 then Some (QCLOUD_ERR_INVAL, t)
      else do {
        p \<leftarrow> props t pProperty;
        Some (if dp_key p = None \<or> dp_data p = None then (QCLOUD_ERR_INVAL, t)
              else add_property_handle_to_template_list os pProperty callback t)
      })"

definition IOT_Template_Register_Property ::
  "'w os \<Rightarrow> nat \<Rightarrow> nat option \<Rightarrow> 'w Qcloud_IoT_Template \<Rightarrow> (int \<times> 'w Qcloud_IoT_Template) option" where
  "IOT_Template_Register_Property os pProperty callback t =
     (if \<not> IOT_MQTT_IsConnected (mqtt t) then Some (QCLOUD_ERR_MQTT_NO_CONN, t)
      else let (b, t) = template_common_check_property_existence os pProperty t
           in if b then Some (QCLOUD_ERR_PROPERTY_EXIST, t)
              else template_common_register_property_on_delta os pProperty callback t)"

definition IOT_Template_UnRegister_Property ::
  "'w os \<Rightarrow> nat \<Rightarrow> 'w Qcloud_IoT_Template \<Rightarrow> int \<times> 'w Qcloud_IoT_Template" where
  "IOT_Template_UnRegister_Property os pProperty t =
     (if \<not> IOT_MQTT_IsConnected (mqtt t) then (QCLOUD_ERR_MQTT_NO_CONN, t)
      else let (b, t) = template_common_check_property_existence os pProperty t
           in if \<not> b then (QCLOUD_ERR_NOT_PROPERTY_EXIST, t)
              else template_common_remove_property os pProperty t)"

section \<open>Construction\<close>

text \<open>\<^verbatim>\<open>qcloud_iot_template_init\<close>: four lists are allocated (the mutex needs no memory in this configuration); the event list plays no further role here.\<close>

primrec allocate :: "nat \<Rightarrow> 'w os \<Rightarrow> 'w client \<Rightarrow> bool \<times> 'w client" where
  "allocate 0 os c = (True, c)"
| "allocate (Suc n) os c = (case HAL_Malloc os c of (None, c) \<Rightarrow> (False, c) | (Some p, c) \<Rightarrow> allocate n os c)"

definition qcloud_iot_template_init :: "'w os \<Rightarrow> 'w Qcloud_IoT_Template \<Rightarrow> int \<times> 'w Qcloud_IoT_Template" where
  "qcloud_iot_template_init os t =
     (let (b, c) = allocate 4 os (mqtt t)
      in if b then (QCLOUD_RET_SUCCESS, t\<lparr>mqtt := c, reply_list := [], property_handle_list := [], action_handle_list := []\<rparr>)
         else (QCLOUD_ERR_FAILURE, t\<lparr>mqtt := c\<rparr>))"

partial_function (option) sync_loop :: "'w os \<Rightarrow> int \<Rightarrow> int \<Rightarrow> 'w Qcloud_IoT_Template \<Rightarrow> 'w Qcloud_IoT_Template option" where
  "sync_loop os packet_id rc t =
     (if packet_id = sync_status t \<and> rc \<ge> 0
      then do { (rc, t) \<leftarrow> IOT_Template_Yield os 100 t; sync_loop os packet_id rc t }
      else Some t)"

definition template_check_subscribe :: "'w os \<Rightarrow> int \<Rightarrow> 'w Qcloud_IoT_Template \<Rightarrow> (int \<times> 'w Qcloud_IoT_Template) option" where
  "template_check_subscribe os packet_id t = do {
     t \<leftarrow> sync_loop os packet_id 0 (t\<lparr>sync_status := packet_id\<rparr>);
     Some (if sync_status t = 0 then QCLOUD_RET_SUCCESS else QCLOUD_ERR_MQTT_SUB, t)
   }"

definition unsubscribe_template_downstream_topic :: "'w os \<Rightarrow> 'w Qcloud_IoT_Template \<Rightarrow> (int \<times> 'w Qcloud_IoT_Template) option" where
  "unsubscribe_template_downstream_topic os t =
     (let topic = thing_topic ''$thing/down/property/'' t
      in if length topic > MAX_SIZE_OF_CLOUD_TOPIC - 1 then Some (QCLOUD_ERR_FAILURE, t)
         else do {
           (rc, c) \<leftarrow> qcloud_iot_mqtt_unsubscribe os (Some topic) (mqtt t);
           Some (QCLOUD_RET_SUCCESS, t\<lparr>mqtt := c\<rparr>)
         })"

definition qcloud_iot_template_reset :: "'w os \<Rightarrow> 'w Qcloud_IoT_Template \<Rightarrow> 'w Qcloud_IoT_Template option" where
  "qcloud_iot_template_reset os t = do {
     (rc, t) \<leftarrow> unsubscribe_template_downstream_topic os t;
     Some (t\<lparr>property_handle_list := [], reply_list := [], action_handle_list := []\<rparr>)
   }"

definition IOT_Template_Destroy :: "'w os \<Rightarrow> 'w Qcloud_IoT_Template \<Rightarrow> (int \<times> 'w) option" where
  "IOT_Template_Destroy os t = do {
     t \<leftarrow> qcloud_iot_template_reset os t;
     (rc, c) \<leftarrow> IOT_MQTT_Destroy os (mqtt t);
     Some (QCLOUD_RET_SUCCESS, world c)
   }"

record TemplateInitParams =
  tp_region :: "cstring option"
  tp_product_id :: "cstring option"
  tp_device_name :: "cstring option"
  tp_device_secret :: "u8 list option"
  tp_command_timeout :: nat
  tp_keep_alive_interval_ms :: nat
  tp_clean_session :: u8
  tp_auto_connect_enable :: u8
  tp_event_handle :: MQTTEventHandler
  tp_usr_control_handle :: "nat option"

definition copy_template_init_params_to_mqtt :: "TemplateInitParams \<Rightarrow> MQTTEventHandler \<Rightarrow> MQTTInitParams" where
  "copy_template_init_params_to_mqtt p handler =
     \<lparr>ip_region = tp_region p, ip_product_id = tp_product_id p, ip_device_name = tp_device_name p, ip_device_secret = tp_device_secret p,
      ip_command_timeout = tp_command_timeout p, ip_keep_alive_interval_ms = tp_keep_alive_interval_ms p,
      ip_clean_session = tp_clean_session p, ip_auto_connect_enable = tp_auto_connect_enable p, ip_event_handle = handler\<rparr>"

text \<open>
  \<^verbatim>\<open>IOT_Template_Construct\<close>, with an MQTT client that is shared (\<open>Inl\<close>) or a world in which one is made (\<open>Inr\<close>). \<open>t0\<close> stands for
  what the memory held before, the static arrays and the application's memory. The result is \<open>Inl\<close> for the null pointer. The label \<^verbatim>\<open>End\<close>
  has no defined result: \<^verbatim>\<open>IOT_Template_Destroy\<close> releases the template, which is then released again.
\<close>

definition start_template :: "'w os \<Rightarrow> 'w Qcloud_IoT_Template \<Rightarrow> 'w Qcloud_IoT_Template option" where
  "start_template os t = do {
     let (rc, t) = qcloud_iot_template_init os t;
     if rc \<noteq> QCLOUD_RET_SUCCESS then None
     else do {
       (rc, t) \<leftarrow> subscribe_template_downstream_topic os t;
       if rc < 0 then None
       else do {
         (rc, t) \<leftarrow> template_check_subscribe os rc t;
         if rc \<noteq> QCLOUD_RET_SUCCESS then None
         else do {
           (rc, t) \<leftarrow> IOT_Action_Init os t;
           if rc < 0 then None
           else do {
             (rc, t) \<leftarrow> template_check_subscribe os rc t;
             if rc \<noteq> QCLOUD_RET_SUCCESS then None else Some t
           }
         }
       }
     }
   }"

definition IOT_Template_Construct ::
  "'w os \<Rightarrow> TemplateInitParams \<Rightarrow> 'w client + 'w \<Rightarrow> 'w Qcloud_IoT_Template \<Rightarrow> ('w + 'w Qcloud_IoT_Template) option" where
  "IOT_Template_Construct os pParams start t0 = do {
     let (p, w) = os_malloc os (case start of Inl c \<Rightarrow> world c | Inr w \<Rightarrow> w);
     (case p of
        None \<Rightarrow> Some (Inl w)
      | Some self \<Rightarrow> do {
          pid \<leftarrow> tp_product_id pParams;
          name \<leftarrow> tp_device_name pParams;
          (case iot_device_info_set pid name of
             Inl rc \<Rightarrow> None
           | Inr di \<Rightarrow> do {
               let handler = \<lparr>h_fp = Some template_mqtt_event_fp, h_context = self\<rparr>;
               m \<leftarrow> (case start of
                      Inr w' \<Rightarrow> IOT_MQTT_Construct os (copy_template_init_params_to_mqtt pParams handler) w
                    | Inl c \<Rightarrow> Some (Inr (IOT_MQTT_SetEventHandler handler (c\<lparr>world := w\<rparr>))));
               (case m of
                  Inl w \<Rightarrow> Some (Inl w)
                | Inr c \<Rightarrow> do {
                    let t = t0\<lparr>mqtt := c, td_product_id := product_id di, td_device_name := device_name di,
                      tm_event_handle := tp_event_handle pParams, usr_control_handle := tp_usr_control_handle pParams,
                      downstream_topic := None, token_num := 0, self_address := self\<rparr>;
                    t \<leftarrow> start_template os t;
                    Some (Inr t)
                  })
             })
        })
   }"

end
