(* ===== verification/Dt_Service.thy ===== *)
theory Dt_Service
  imports Dt_Client
begin

text \<open>
  The well-formedness invariant of a data template and its proof: every operation of \<^verbatim>\<open>Dt_Client\<close> keeps it, callbacks and the
  loops that wait included. The template is an instance of the locale \<open>service\<close>, as the MQTT client is.
\<close>

section \<open>The invariant\<close>

definition request_ok :: "Request \<Rightarrow> bool" where
  "request_ok r \<longleftrightarrow> length (rq_client_token r) = MAX_SIZE_OF_CLIENT_TOKEN \<and> rq_callback r \<noteq> None"

definition handler_ok :: "(nat \<rightharpoonup> DeviceProperty) \<Rightarrow> PropertyHandler \<Rightarrow> bool" where
  "handler_ok ps h \<longleftrightarrow> ph_property h \<noteq> 0 \<and> (\<exists>p. ps (ph_property h) = Some p \<and> dp_key p \<noteq> None \<and> dp_data p \<noteq> None)"

definition action_ok :: "(nat \<rightharpoonup> DeviceAction) \<Rightarrow> ActionHandler \<Rightarrow> bool" where
  "action_ok as h \<longleftrightarrow> ah_callback h \<noteq> None \<and> as (ah_action h) \<noteq> None"

definition template_inv :: "'w os \<Rightarrow> 'w Qcloud_IoT_Template \<Rightarrow> bool" where
  "template_inv os t \<longleftrightarrow>
     client_inv os (mqtt t) \<and>
     length (reply_list t) \<le> MAX_APPENDING_REQUEST_AT_ANY_GIVEN_TIME \<and> (\<forall>(a, r) \<in> set (reply_list t). request_ok r) \<and>
     (\<forall>(a, v, h) \<in> set (property_handle_list t). handler_ok (props t) h) \<and>
     (\<forall>(a, v, h) \<in> set (action_handle_list t). action_ok (actions t) h) \<and>
     length (template_cloud_rcv_buf t) = CLOUD_IOT_JSON_RX_BUF_LEN \<and> 0 \<in> set (template_cloud_rcv_buf t) \<and>
     length (template_clientToken t) = MAX_SIZE_OF_CLIENT_TOKEN"

lemma template_inv_frame [simp]:
  "template_inv os (with_world w t) = template_inv os t"
  "template_inv os (call_user x t) = template_inv os t"
  "template_inv os (t\<lparr>acks := m\<rparr>) = template_inv os t"
  "template_inv os (t\<lparr>sync_status := i\<rparr>) = template_inv os t"
  "template_inv os (t\<lparr>token_num := n\<rparr>) = template_inv os t"
  "template_inv os (t\<lparr>downstream_topic := d\<rparr>) = template_inv os t"
  by (simp_all add: template_inv_def with_world_def call_user_def)

lemma template_inv_mqtt: "template_inv os t \<Longrightarrow> client_inv os c \<Longrightarrow> template_inv os (t\<lparr>mqtt := c\<rparr>)"
  and template_inv_client: "template_inv os t \<Longrightarrow> client_inv os (mqtt t)"
  by (simp_all add: template_inv_def)

lemma malloc_inv: "HAL_Malloc os' (mqtt t) = (p, c) \<Longrightarrow> template_inv os t \<Longrightarrow> client_inv os c"
  by (simp add: template_inv_def env_inv)

lemma token_bytes_length [simp]: "length (token_bytes tok) = MAX_SIZE_OF_CLIENT_TOKEN"
  by (simp add: token_bytes_def)

lemma set_ack_inv: "template_inv os t \<Longrightarrow> wp (set_ack p ack t) (template_inv os)"
  by (simp add: set_ack_def)

lemma add_request_inv:
  assumes "template_inv os t" and "request_callback p \<noteq> None"
    and "add_request_to_template_list os' tok p t = (rc, t')"
  shows "template_inv os t'"
  using assms
  by (auto simp: add_request_to_template_list_def template_inv_def env_inv nodes_rpush_def request_ok_def Let_def
      split: option.splits prod.splits if_splits)

lemma publish_upstream_inv:
  assumes "template_inv os t"
  shows "wp (publish_to_template_upstream_topic os' doc t) (\<lambda>(rc, t). template_inv os t)"
  using assms
  by (auto simp: publish_to_template_upstream_topic_def Let_def
      intro!: wp_I template_inv_mqtt dest!: publish_inv [OF template_inv_client, THEN wp_D3, rotated])

lemma send_template_request_inv:
  assumes "template_inv os t"
  shows "wp (send_template_request os' p a n t) (\<lambda>(rc, a, t). template_inv os t)"
  using assms unfolding send_template_request_def Let_def
  by (auto intro!: wp_I split: option.split prod.split dest!: publish_upstream_inv [THEN wp_D2, rotated] intro: add_request_inv)

lemma subscribe_template_inv:
  assumes "template_inv os t"
  shows "wp (subscribe_template_downstream_topic os' t) (\<lambda>(rc, t). template_inv os t)"
  using assms unfolding subscribe_template_downstream_topic_def Let_def
  by (auto intro!: wp_I template_inv_mqtt split: option.splits prod.splits if_splits dest: malloc_inv template_inv_client subscribe_inv [THEN wp_D2, rotated])

lemma renew_subscription_inv: "template_inv os t \<Longrightarrow> wp (renew_subscription os' t) (template_inv os)"
  using subscribe_template_inv [of os t os'] by (auto simp: renew_subscription_def wp_def split: option.splits)

lemma ClearControl_inv:
  assumes "template_inv os t"
  shows "wp (IOT_Template_ClearControl os' tok cb ms t) (\<lambda>(rc, t). template_inv os t)"
  using assms unfolding IOT_Template_ClearControl_def Let_def
  by (auto intro!: wp_I split: option.split
      dest!: renew_subscription_inv [THEN wp_D, rotated] send_template_request_inv [THEN wp_D3, rotated])

lemma report_request_inv:
  assumes "template_inv os t"
  shows "wp (report_request m os' doc n cb ctx ms t) (\<lambda>(rc, a, t). template_inv os t)"
  using assms unfolding report_request_def
  by (auto intro!: wp_I split: option.split
      dest!: renew_subscription_inv [THEN wp_D, rotated] send_template_request_inv [THEN wp_D3, rotated])

lemma GetStatus_inv:
  assumes "template_inv os t"
  shows "wp (IOT_Template_GetStatus os' cb ctx ms t) (\<lambda>(rc, t). template_inv os t)"
  using assms unfolding IOT_Template_GetStatus_def
  by (auto intro!: wp_I dest!: renew_subscription_inv [THEN wp_D, rotated] send_template_request_inv [THEN wp_D3, rotated])

lemma ControlReply_inv:
  assumes "template_inv os t"
  shows "wp (IOT_Template_ControlReply os' doc n rp t) (\<lambda>(rc, a, t). template_inv os t)"
  using assms unfolding IOT_Template_ControlReply_def
  by (auto intro!: wp_I split: option.split
      dest!: renew_subscription_inv [THEN wp_D, rotated] send_template_request_inv [THEN wp_D3, rotated])

lemma reply_callback_inv:
  assumes "template_inv os t"
  shows "wp (reply_callback os' cb r ack t) (template_inv os)"
  using assms unfolding reply_callback_def
  by (auto intro!: wp_I set_ack_inv split: reply_cb.split dest!: ClearControl_inv [THEN wp_D2, rotated])

lemma tell_inv: "template_inv os t \<Longrightarrow> wp (tell os' r ack t) (template_inv os)"
  by (simp add: tell_def reply_callback_inv split: option.split)

lemma drop_request_inv: "template_inv os t \<Longrightarrow> template_inv os (drop_request a t)"
  by (auto simp: template_inv_def drop_request_def nodes_remove_def intro: order_trans [OF length_filter_le])

lemma traverse_loop_inv:
  assumes "\<And>node t. template_inv os t \<Longrightarrow> wp (handle node t) (template_inv os)" and "template_inv os t"
  shows "wp (traverse_loop handle nodes t) (template_inv os)"
  using assms(2) by (induction nodes arbitrary: t) (auto intro: wp_mono [OF assms(1)])

lemma traverse_inv:
  assumes "\<And>node t. template_inv os t \<Longrightarrow> wp (handle node t) (template_inv os)" and "template_inv os t"
  shows "wp (traverse_template_list os' handle t) (template_inv os)"
  unfolding traverse_template_list_def
  using assms by (auto split: option.split prod.split intro!: traverse_loop_inv template_inv_mqtt dest: malloc_inv)

lemma expired_reply_inv: "template_inv os t \<Longrightarrow> wp (handle_template_expired_reply os' t) (template_inv os)"
proof -
  have "wp (handle_template_expired_reply_callback os' node t) (template_inv os)" if t: "template_inv os t" for node t
    using t unfolding handle_template_expired_reply_callback_def Let_def
    by (auto split: prod.split intro!: template_inv_mqtt wp_mono [OF tell_inv] drop_request_inv dest: template_inv_client simp: env_inv)
  then show "template_inv os t \<Longrightarrow> wp (handle_template_expired_reply os' t) (template_inv os)"
    unfolding handle_template_expired_reply_def by (intro traverse_inv)
qed

lemma with_world_fields [simp]:
  "props (with_world w t) = props t" "reply_list (with_world w t) = reply_list t" "template_cloud_rcv_buf (with_world w t) = template_cloud_rcv_buf t"
  "calls (with_world w t) = calls t" "acks (with_world w t) = acks t" "libc (with_world w t) = libc t" "world (mqtt (with_world w t)) = w"
  "property_handle_list (with_world w t) = property_handle_list t" "usr_control_handle (with_world w t) = usr_control_handle t"
  "template_clientToken (with_world w t) = template_clientToken t" "actions (with_world w t) = actions t"
  "action_handle_list (with_world w t) = action_handle_list t"
  by (simp_all add: with_world_def)

lemma update_keeps:
  assumes "update_value_if_key_match fl os doc p w = Some (b, p', w')"
  shows "dp_key p' = dp_key p" and "dp_data p \<noteq> None \<Longrightarrow> dp_data p' \<noteq> None"
  using assms by (cases p; auto simp: update_value_if_key_match.simps bind_Some_iff split: option.splits if_splits)+

lemma props_inv:
  assumes "template_inv os t" and "props t a = Some p" and "dp_key p' = dp_key p" and "dp_data p \<noteq> None \<Longrightarrow> dp_data p' \<noteq> None"
  shows "template_inv os (t\<lparr>props := (props t)(a \<mapsto> p')\<rparr>)"
proof -
  have "handler_ok (props t) h \<Longrightarrow> handler_ok ((props t)(a \<mapsto> p')) h" for h
    using assms(2-) by (auto simp: handler_ok_def)
  with assms(1) show ?thesis by (fastforce simp: template_inv_def)
qed

lemma control_loop_inv:
  assumes "template_inv os t"
  shows "wp (control_loop os' doc nodes t) (template_inv os)"
  using assms
proof (induction nodes arbitrary: t)
  case (Cons node nodes)
  obtain a v h where node: "node = (a, v, h)" by (cases node)
  have "wp (control_loop os' doc nodes (if b then (case ph_callback h of None \<Rightarrow> t1 | Some f \<Rightarrow> call_user (PropertyCall f doc (ph_property h)) t1) else t1)) (template_inv os)"
    if "template_inv os t1" for b t1 using that Cons.IH by (auto split: option.split)
  moreover have "template_inv os ((with_world w t)\<lparr>props := (props t)(ph_property h \<mapsto> p')\<rparr>)"
    if "props t (ph_property h) = Some p" "update_value_if_key_match fl os1 doc p w0 = Some (b, p', w)" for p p' b w fl w0 os1
    using props_inv [of os "with_world w t" "ph_property h" p p'] Cons.prems update_keeps [OF that(2)] that(1) by simp
  ultimately show ?case
    unfolding control_loop.simps Let_def node snd_conv wp_bind wp_case_prod by (intro wp_I) (auto simp only: split: prod.split)
qed simp

lemma handle_control_inv: "template_inv os t \<Longrightarrow> wp (handle_control os' doc t) (template_inv os)"
  unfolding handle_control_def
  by (auto split: option.split prod.split intro!: control_loop_inv template_inv_mqtt dest: malloc_inv)

lemma control_message_inv: "template_inv os t \<Longrightarrow> wp (control_message os' tok doc ty t) (template_inv os)"
proof -
  assume "template_inv os t"
  then have "template_inv os (set_control_clientToken tok t)" by (simp add: template_inv_def set_control_clientToken_def)
  then show ?thesis unfolding control_message_def Let_def by (auto simp: handle_control_inv split: option.split)
qed

lemma status_reply_inv: "template_inv os t \<Longrightarrow> wp (status_reply os' tok ty st doc r t) (template_inv os)"
  unfolding status_reply_def Let_def
  by (auto intro!: wp_I split: option.split dest!: control_message_inv [THEN wp_D, rotated] set_ack_inv [THEN wp_D, rotated])

lemma reply_inv: "template_inv os t \<Longrightarrow> wp (handle_template_reply_callback os' tok ty node t) (template_inv os)"
  unfolding handle_template_reply_callback_def Let_def
  by (auto intro!: wp_I drop_request_inv split: option.split prod.split
      dest!: status_reply_inv [THEN wp_D, rotated] tell_inv [THEN wp_D, rotated])

lemma downstream_inv: "template_inv os t \<Longrightarrow> wp (on_template_downstream_topic_handler os' m t) (template_inv os)"
proof -
  assume t: "template_inv os t"
  have buf: "template_inv os (t\<lparr>template_cloud_rcv_buf := a2\<rparr>)"
    if "buf_write (replicate CLOUD_IOT_JSON_RX_BUF_LEN 0) 0 bytes = Some a1" "buf_put a1 n 0 = Some a2" for bytes a1 a2 n
    using t that length_buf_write [OF that(1)] by (auto simp: template_inv_def buf_put_def set_update_memI split: if_splits)
  show ?thesis
    unfolding on_template_downstream_topic_handler_def Let_def
    by (auto simp: t intro!: wp_I split: option.split if_splits dest!: buf
        dest: control_message_inv [THEN wp_D, rotated] traverse_inv [OF reply_inv, THEN wp_D, rotated 2])
qed

lemma actions_inv: "template_inv os t \<Longrightarrow> template_inv os (t\<lparr>actions := (actions t)(a \<mapsto> x)\<rparr>)"
  by (fastforce simp: template_inv_def action_ok_def)

lemma run_action_inv: "template_inv os t \<Longrightarrow> wp (run_action os' tok i ts doc h t) (template_inv os)"
  using actions_inv [of os "with_world _ t"]
  unfolding run_action_def Let_def by (auto intro!: wp_I split: option.split)

lemma action_loop_inv: "template_inv os t \<Longrightarrow> wp (action_loop os' tok i ts doc nodes t) (template_inv os)"
  by (induction nodes arbitrary: t) (auto intro: wp_mono [OF run_action_inv])

lemma handle_action_inv: "template_inv os t \<Longrightarrow> wp (handle_action os' tok i ts doc t) (template_inv os)"
  unfolding handle_action_def
  by (auto split: option.split prod.split intro!: action_loop_inv template_inv_mqtt dest: malloc_inv)

lemma with_field_inv:
  assumes "template_inv os t" and "\<And>v t. template_inv os t \<Longrightarrow> wp (f v t) (template_inv os)"
  shows "wp (with_field parse doc t f) (template_inv os)"
  using assms unfolding with_field_def Let_def by (auto intro!: wp_I split: option.splits dest: wp_D [OF assms(2), rotated])

lemma on_action_inv: "template_inv os t \<Longrightarrow> wp (on_action_handle_callback os' m t) (template_inv os)"
  unfolding on_action_handle_callback_def wp_bind by (rule wp_I) (auto intro!: with_field_inv handle_action_inv)

lemma event_handler_inv: "template_inv os t \<Longrightarrow> template_inv os (template_mqtt_event_handler ev arg t)"
  by (simp add: template_mqtt_event_handler_def Let_def split: option.split)

lemma run_callback_inv: "template_inv os t \<Longrightarrow> wp (run_callback os' cb t) (template_inv os)"
  by (simp add: run_callback_def downstream_inv on_action_inv event_handler_inv split: callback.split)

lemma run_callbacks_inv: "template_inv os t \<Longrightarrow> wp (run_callbacks os' cbs t) (template_inv os)"
  by (induction cbs arbitrary: t) (auto intro: wp_mono [OF run_callback_inv])

lemma Yield_inv:
  assumes "kernel_ok os" and "template_inv os t"
  shows "wp (IOT_Template_Yield os ms t) (\<lambda>(rc, t). template_inv os t)"
  unfolding IOT_Template_Yield_def IOT_MQTT_Yield_def
  using assms by (auto intro!: wp_I dest!: expired_reply_inv [THEN wp_D, rotated] yield_inv [OF _ template_inv_client, THEN wp_D2, rotated 2]
     run_callbacks_inv [OF template_inv_mqtt, THEN wp_D, rotated 2])

lemma wait_for_ack_inv:
  assumes "wait_for_ack os p t = Some t'" and "kernel_ok os" and "template_inv os t"
  shows "template_inv os t'"
proof -
  let ?P = "\<lambda>os p t t'. kernel_ok os \<longrightarrow> template_inv os t \<longrightarrow> template_inv os t'"
  have "?P os p t t'"
  proof (rule wait_for_ack.raw_induct [where P = ?P, OF _ assms(1)])
    fix loop and os :: "'a os" and p t and t' :: "'a Qcloud_IoT_Template"
    assume IH: "\<And>os p t t'. loop os p t = Some t' \<Longrightarrow> ?P os p t t'"
      and eq: "(if acks t p = Some ACK_NONE then do { (rc, t) \<leftarrow> IOT_Template_Yield os 200 t; loop os p t } else Some t) = Some t'"
    then show "?P os p t t'"
      using wp_D2 [OF Yield_inv [of os t 200]] by (fastforce simp: bind_Some_iff split: if_splits dest: IH)
  qed
  with assms show ?thesis by blast
qed

lemma sync_loop_inv:
  assumes "sync_loop os i rc t = Some t'" and "kernel_ok os" and "template_inv os t"
  shows "template_inv os t'"
proof -
  let ?P = "\<lambda>os i rc t t'. kernel_ok os \<longrightarrow> template_inv os t \<longrightarrow> template_inv os t'"
  have "?P os i rc t t'"
  proof (rule sync_loop.raw_induct [where P = ?P, OF _ assms(1)])
    fix loop and os :: "'a os" and i rc t and t' :: "'a Qcloud_IoT_Template"
    assume IH: "\<And>os i rc t t'. loop os i rc t = Some t' \<Longrightarrow> ?P os i rc t t'"
      and eq: "(if i = sync_status t \<and> rc \<ge> 0 then do { (rc, t) \<leftarrow> IOT_Template_Yield os 100 t; loop os i rc t } else Some t) = Some t'"
    then show "?P os i rc t t'"
      using wp_D2 [OF Yield_inv [of os t 100]] by (fastforce simp: bind_Some_iff split: if_splits dest: IH)
  qed
  with assms show ?thesis by blast
qed

lemma wait_for_result_inv:
  assumes "kernel_ok os" and "template_inv os t"
  shows "wp (wait_for_result os p e1 e2 rc t) (\<lambda>(rc, t). template_inv os t)"
  unfolding wait_for_result_def using assms by (auto intro!: wp_I dest: wait_for_ack_inv)

lemma report_sync_inv:
  assumes "kernel_ok os" and "template_inv os t"
  shows "wp (report_request_sync m os doc n ms p t) (\<lambda>(rc, a, t). template_inv os t)"
  unfolding report_request_sync_def using assms
  by (auto intro!: wp_I dest!: report_request_inv [THEN wp_D3, rotated] wait_for_result_inv [THEN wp_D2, rotated 2])

lemma GetStatus_sync_inv:
  assumes "kernel_ok os" and "template_inv os t"
  shows "wp (IOT_Template_GetStatus_sync os ms p t) (\<lambda>(rc, t). template_inv os t)"
  unfolding IOT_Template_GetStatus_sync_def using assms
  by (auto intro!: wp_I dest!: GetStatus_inv [THEN wp_D2, rotated] wait_for_result_inv [THEN wp_D2, rotated 2])

lemma find_property_inv: "find_property os' p t = (r, t') \<Longrightarrow> template_inv os t \<Longrightarrow> template_inv os t' \<and> props t' = props t"
  by (auto simp: find_property_def intro: template_inv_mqtt dest: malloc_inv split: option.splits prod.splits)

lemma Register_inv:
  assumes "template_inv os t"
  shows "wp (IOT_Template_Register_Property os' p cb t) (\<lambda>(rc, t). template_inv os t)"
proof -
  have add: "template_inv os (snd (add_property_handle_to_template_list os' p cb t))"
    if "template_inv os t" "props t p = Some d" "dp_key d \<noteq> None" "dp_data d \<noteq> None" "p \<noteq> 0" for t d
    using that by (auto simp: add_property_handle_to_template_list_def template_inv_def env_inv nodes_rpush_def handler_ok_def
        split: option.split prod.split)
  then show ?thesis
    using assms unfolding IOT_Template_Register_Property_def Let_def template_common_check_property_existence_def template_common_register_property_on_delta_def
    by (auto intro!: wp_I split: prod.splits if_splits dest!: find_property_inv) (metis snd_conv)
qed

lemma UnRegister_inv: "template_inv os t \<Longrightarrow> template_inv os (snd (IOT_Template_UnRegister_Property os' p t))"
proof -
  have "template_inv os (t\<lparr>property_handle_list := nodes_remove (property_handle_list t) a\<rparr>)" if "template_inv os t" for t a
    using that by (auto simp: template_inv_def nodes_remove_def)
  then show "template_inv os t \<Longrightarrow> template_inv os (snd (IOT_Template_UnRegister_Property os' p t))"
    unfolding IOT_Template_UnRegister_Property_def Let_def template_common_check_property_existence_def template_common_remove_property_def
    by (auto split: prod.splits option.splits if_splits dest!: find_property_inv)
qed

lemma find_action_inv: "find_action os' p t = (r, t') \<Longrightarrow> template_inv os t \<Longrightarrow> template_inv os t' \<and> actions t' = actions t"
  by (auto simp: find_action_def intro: template_inv_mqtt dest: malloc_inv split: option.splits prod.splits)

lemma Register_Action_inv:
  assumes "template_inv os t" and "actions t p \<noteq> None"
  shows "template_inv os (snd (IOT_Template_Register_Action os' p cb t))"
proof -
  have add: "template_inv os (snd (add_action_handle_to_template_list os' p cb t))"
    if "template_inv os t" "actions t p \<noteq> None" "cb \<noteq> None" for t
    using that by (auto simp: add_action_handle_to_template_list_def template_inv_def env_inv nodes_rpush_def action_ok_def split: option.split prod.split)
  then show ?thesis
    using assms unfolding IOT_Template_Register_Action_def IOT_Action_Register_def Let_def check_action_existence_def
    by (auto split: prod.splits if_splits dest!: find_action_inv)
qed

lemma UnRegister_Action_inv: "template_inv os t \<Longrightarrow> template_inv os (snd (IOT_Template_UnRegister_Action os' p t))"
proof -
  have "template_inv os (t\<lparr>action_handle_list := nodes_remove (action_handle_list t) a\<rparr>)" if "template_inv os t" for t a
    using that by (auto simp: template_inv_def nodes_remove_def)
  then show "template_inv os t \<Longrightarrow> template_inv os (snd (IOT_Template_UnRegister_Action os' p t))"
    unfolding IOT_Template_UnRegister_Action_def IOT_Action_Remove_def Let_def check_action_existence_def
    by (auto split: prod.splits option.splits if_splits dest!: find_action_inv)
qed

lemma Action_Reply_inv:
  assumes "template_inv os t"
  shows "wp (IOT_Action_Reply os' tok doc n act rp t) (\<lambda>(rc, a, t). template_inv os t)"
  using assms unfolding IOT_Action_Reply_def publish_action_to_cloud_def Let_def
  by (auto intro!: wp_I template_inv_mqtt split: option.split if_splits dest!: publish_inv [OF template_inv_client, THEN wp_D3, rotated])

section \<open>The template as a service\<close>

text \<open>
  The calls of the application, and those of the MQTT client: it may be used by itself and may deliver anything at any time. The
  application may also write to its properties and actions.
\<close>

inductive template_step :: "'w os \<Rightarrow> 'w Qcloud_IoT_Template \<Rightarrow> 'w Qcloud_IoT_Template \<Rightarrow> bool" for os where
  ts_construct_report: "IOT_Template_JSON_ConstructReportArray (Some t) doc n count ps = Some (rc, Some t', doc') \<Longrightarrow> template_step os t t'"
| ts_report: "report_request m os doc n cb ctx ms t = Some (rc, doc', t') \<Longrightarrow> template_step os t t'"
| ts_get_status: "IOT_Template_GetStatus os cb ctx ms t = Some (rc, t') \<Longrightarrow> template_step os t t'"
| ts_clear_control: "IOT_Template_ClearControl os tok cb ms t = Some (rc, t') \<Longrightarrow> template_step os t t'"
| ts_control_reply: "IOT_Template_ControlReply os doc n rp t = Some (rc, doc', t') \<Longrightarrow> template_step os t t'"
| ts_report_sync: "report_request_sync m os doc n ms p t = Some (rc, doc', t') \<Longrightarrow> template_step os t t'"
| ts_get_status_sync: "IOT_Template_GetStatus_sync os ms p t = Some (rc, t') \<Longrightarrow> template_step os t t'"
| ts_publish: "IOT_Template_Publish os topic p t = Some (rc, p', t') \<Longrightarrow> template_step os t t'"
| ts_subscribe: "IOT_Template_Subscribe os topic sp t = Some (rc, t') \<Longrightarrow> template_step os t t'"
| ts_unsubscribe: "IOT_Template_Unsubscribe os topic t = Some (rc, t') \<Longrightarrow> template_step os t t'"
| ts_yield: "IOT_Template_Yield os ms t = Some (rc, t') \<Longrightarrow> template_step os t t'"
| ts_register: "IOT_Template_Register_Property os p f t = Some (rc, t') \<Longrightarrow> template_step os t t'"
| ts_unregister: "IOT_Template_UnRegister_Property os p t = (rc, t') \<Longrightarrow> template_step os t t'"
| ts_register_action: "actions t p \<noteq> None \<Longrightarrow> IOT_Template_Register_Action os p f t = (rc, t') \<Longrightarrow> template_step os t t'"
| ts_unregister_action: "IOT_Template_UnRegister_Action os p t = (rc, t') \<Longrightarrow> template_step os t t'"
| ts_action_reply: "IOT_Action_Reply os tok doc n act rp t = Some (rc, doc', t') \<Longrightarrow> template_step os t t'"
| ts_action: "template_step os t (t\<lparr>actions := (actions t)(a \<mapsto> x)\<rparr>)"
| ts_callback: "run_callback os cb t = Some t' \<Longrightarrow> template_step os t t'"
| ts_client: "client_step os (mqtt t) c \<Longrightarrow> template_step os t (t\<lparr>mqtt := c\<rparr>)"
| ts_property: "dp_key d \<noteq> None \<Longrightarrow> dp_data d \<noteq> None \<Longrightarrow> template_step os t (t\<lparr>props := (props t)(a \<mapsto> d)\<rparr>)"

text \<open>The static arrays have their sizes, and a client that is shared is well-formed.\<close>

definition template_started :: "'w os \<Rightarrow> 'w Qcloud_IoT_Template \<Rightarrow> bool" where
  "template_started os t \<longleftrightarrow> (\<exists>params start t0. IOT_Template_Construct os params start t0 = Some (Inr t) \<and>
     (\<forall>c. start = Inl c \<longrightarrow> client_inv os c) \<and>
     length (template_cloud_rcv_buf t0) = CLOUD_IOT_JSON_RX_BUF_LEN \<and> 0 \<in> set (template_cloud_rcv_buf t0) \<and>
     length (template_clientToken t0) = MAX_SIZE_OF_CLIENT_TOKEN)"

lemma ConstructReportArray_inv:
  "IOT_Template_JSON_ConstructReportArray (Some t) doc n count ps = Some (rc, Some t', doc') \<Longrightarrow> template_inv os t \<Longrightarrow> template_inv os t'"
  by (auto simp: IOT_Template_JSON_ConstructReportArray_def bind_Some_iff split: option.splits)

lemma template_step_inv:
  assumes "kernel_ok os" and "template_inv os t" and "template_step os t t'"
  shows "template_inv os t'"
  using assms(3)
proof cases
  case ts_construct_report
  then show ?thesis by (rule ConstructReportArray_inv [OF _ assms(2)])
next
  case ts_report
  then show ?thesis using wp_D3 [OF report_request_inv [OF assms(2)]] by blast
next
  case ts_get_status
  then show ?thesis using wp_D2 [OF GetStatus_inv [OF assms(2)]] by blast
next
  case ts_clear_control
  then show ?thesis using wp_D2 [OF ClearControl_inv [OF assms(2)]] by blast
next
  case ts_control_reply
  then show ?thesis using wp_D3 [OF ControlReply_inv [OF assms(2)]] by blast
next
  case ts_report_sync
  then show ?thesis using wp_D3 [OF report_sync_inv [OF assms(1,2)]] by blast
next
  case ts_get_status_sync
  then show ?thesis using wp_D2 [OF GetStatus_sync_inv [OF assms(1,2)]] by blast
next
  case ts_publish
  then show ?thesis
    by (auto simp: IOT_Template_Publish_def bind_Some_iff intro!: template_inv_mqtt [OF assms(2)] dest: publish_inv [OF template_inv_client [OF assms(2)], THEN wp_D3])
next
  case ts_subscribe
  then show ?thesis
    by (auto simp: IOT_Template_Subscribe_def bind_Some_iff intro!: template_inv_mqtt [OF assms(2)] dest: subscribe_inv [OF template_inv_client [OF assms(2)], THEN wp_D2])
next
  case ts_unsubscribe
  then show ?thesis
    by (auto simp: IOT_Template_Unsubscribe_def bind_Some_iff intro!: template_inv_mqtt [OF assms(2)] dest: unsubscribe_inv [OF template_inv_client [OF assms(2)], THEN wp_D2])
next
  case ts_yield
  then show ?thesis using wp_D2 [OF Yield_inv [OF assms(1,2)]] by blast
next
  case ts_register
  then show ?thesis using wp_D2 [OF Register_inv [OF assms(2)]] by blast
next
  case ts_unregister
  then show ?thesis using UnRegister_inv [OF assms(2)] by (metis snd_conv)
next
  case ts_register_action
  then show ?thesis using Register_Action_inv [OF assms(2)] by (metis snd_conv)
next
  case ts_unregister_action
  then show ?thesis using UnRegister_Action_inv [OF assms(2)] by (metis snd_conv)
next
  case ts_action_reply
  then show ?thesis using wp_D3 [OF Action_Reply_inv [OF assms(2)]] by blast
next
  case ts_action
  then show ?thesis using actions_inv [OF assms(2)] by simp
next
  case ts_callback
  then show ?thesis using wp_D [OF run_callback_inv [OF assms(2)]] by blast
next
  case ts_client
  then show ?thesis using template_inv_mqtt [OF assms(2)] client_step_inv [OF assms(1) template_inv_client [OF assms(2)]] by simp
next
  case (ts_property d a)
  then have "handler_ok (props t) h \<Longrightarrow> handler_ok ((props t)(a \<mapsto> d)) h" for h by (auto simp: handler_ok_def)
  with assms(2) ts_property(1) show ?thesis by (fastforce simp: template_inv_def)
qed

lemma allocate_inv: "allocate n os' c = (b, c') \<Longrightarrow> client_inv os c' = client_inv os c"
  by (induction n arbitrary: c) (auto simp: env_inv split: option.splits prod.splits)

lemma check_subscribe_inv:
  assumes "kernel_ok os" and "template_inv os t"
  shows "wp (template_check_subscribe os i t) (\<lambda>(rc, t). template_inv os t)"
  unfolding template_check_subscribe_def using assms by (auto intro!: wp_I dest!: sync_loop_inv)

lemma Action_Init_inv: "template_inv os t \<Longrightarrow> wp (IOT_Action_Init os' t) (\<lambda>(rc, t). template_inv os t)"
  unfolding IOT_Action_Init_def Let_def
  by (auto intro!: wp_I template_inv_mqtt dest: template_inv_client subscribe_inv [THEN wp_D2, rotated])

lemma start_template_inv:
  assumes "kernel_ok os" and "client_inv os (mqtt t)" and "length (template_cloud_rcv_buf t) = CLOUD_IOT_JSON_RX_BUF_LEN"
    and "0 \<in> set (template_cloud_rcv_buf t)" and "length (template_clientToken t) = MAX_SIZE_OF_CLIENT_TOKEN"
  shows "wp (start_template os t) (template_inv os)"
proof -
  have init: "template_inv os t1" if "qcloud_iot_template_init os t = (0, t1)" for t1
    using that assms(2-) by (auto simp: qcloud_iot_template_init_def template_inv_def Let_def allocate_inv split: prod.splits if_splits)
  show ?thesis
    unfolding start_template_def Let_def
    by (auto intro!: wp_I split: prod.split dest!: init subscribe_template_inv [THEN wp_D2, rotated] Action_Init_inv [THEN wp_D2, rotated]
       check_subscribe_inv [OF assms(1), THEN wp_D2, rotated])
qed

lemma Construct_inv:
  assumes "kernel_ok os" and "template_started os t"
  shows "template_inv os t"
proof -
  have inr: "\<forall>x. s \<noteq> Inl x \<Longrightarrow> \<exists>y. s = Inr y" for s :: "'a + 'a client" by (cases s) auto
  have handler: "client_inv os (IOT_MQTT_SetEventHandler h c) = client_inv os c" for h c by (simp add: IOT_MQTT_SetEventHandler_def)
  obtain params start t0 where eq: "IOT_Template_Construct os params start t0 = Some (Inr t)"
    and ok: "\<forall>c. start = Inl c \<longrightarrow> client_inv os c" "length (template_cloud_rcv_buf t0) = CLOUD_IOT_JSON_RX_BUF_LEN"
      "0 \<in> set (template_cloud_rcv_buf t0)" "length (template_clientToken t0) = MAX_SIZE_OF_CLIENT_TOKEN"
    using assms(2) unfolding template_started_def by blast
  then show ?thesis
    unfolding IOT_Template_Construct_def
    by (auto simp: bind_Some_iff Let_def handler split: prod.split_asm option.split_asm sum.split_asm
        dest!: inr start_template_inv [OF assms(1), THEN wp_D, rotated 4] construct_inv [OF assms(1)])
qed

interpretation template: service kernel_ok template_started template_step template_inv
  by unfold_locales (blast intro: Construct_inv template_step_inv)+

end
