(* ===== verification/Dt_Requests.thy ===== *)
theory Dt_Requests
  imports Dt_Service Mqtt_Sim
begin

text \<open>
  The life of a request of the data template service: how the list of requests is settled, by replies and by time, and
  the path of a report from its properties to the wire, with a simulated system.
\<close>

section \<open>Requests and their end\<close>

text \<open>
  One node after the other: the requests that \<open>P\<close> selects are taken off the list, and \<open>x\<close> of each one is called.
\<close>

definition settled ::
  "(Request \<Rightarrow> bool) \<Rightarrow> (Request \<Rightarrow> template_call) \<Rightarrow> (nat \<times> Request) list \<Rightarrow> 'w Qcloud_IoT_Template \<Rightarrow> 'w Qcloud_IoT_Template" where
  "settled P x nodes t = t\<lparr>reply_list := filter (\<lambda>n. \<forall>m \<in> set nodes. P (snd m) \<longrightarrow> fst n \<noteq> fst m) (reply_list t),
     calls := calls t @ map (\<lambda>n. x (snd n)) (filter (\<lambda>n. P (snd n)) nodes)\<rparr>"

lemma settled_fields [simp]:
  "mqtt (settled P x nodes t) = mqtt t" "template_cloud_rcv_buf (settled P x nodes t) = template_cloud_rcv_buf t"
  by (simp_all add: settled_def)

lemma settled_Cons:
  "settled P x (node # nodes) t = settled P x nodes (if P (snd node) then drop_request (fst node) (call_user (x (snd node)) t) else t)"
  by (auto simp: settled_def drop_request_def call_user_def nodes_remove_def conj_commute intro!: arg_cong2 [where f = "\<lambda>l y. t\<lparr>reply_list := l, calls := y\<rparr>"] filter_cong)

lemma settled_mqtt: "settled P x nodes (t\<lparr>mqtt := c\<rparr>) = (settled P x nodes t)\<lparr>mqtt := c\<rparr>"
  by (simp add: settled_def)

lemma settled_all:
  assumes "distinct (map fst (reply_list t))"
  shows "settled P x (rev (reply_list t)) t = t\<lparr>reply_list := filter (\<lambda>n. \<not> P (snd n)) (reply_list t),
     calls := calls t @ map (\<lambda>n. x (snd n)) (rev (filter (\<lambda>n. P (snd n)) (reply_list t)))\<rparr>"
proof -
  have "(\<forall>m \<in> set (reply_list t). P (snd m) \<longrightarrow> fst n \<noteq> fst m) \<longleftrightarrow> \<not> P (snd n)" if "n \<in> set (reply_list t)" for n
    using assms that by (metis distinct_map inj_onD)
  then show ?thesis by (simp add: settled_def rev_filter cong: filter_cong)
qed

lemma traverse_settles:
  assumes step: "\<And>a r t n. (a, r) \<in> set nodes \<Longrightarrow> E (Suc n) (mqtt t) \<Longrightarrow> Q (template_cloud_rcv_buf t) \<Longrightarrow>
       \<exists>c. handle (a, r) t = Some ((if P r then drop_request a (call_user (x r) t) else t)\<lparr>mqtt := c\<rparr>) \<and> E n c"
    and "E (length nodes) (mqtt t)" and "Q (template_cloud_rcv_buf t)"
  shows "\<exists>c. traverse_loop handle nodes t = Some ((settled P x nodes t)\<lparr>mqtt := c\<rparr>)"
  using assms
proof (induction nodes arbitrary: t)
  case Nil
  have "settled P x [] t = t" by (simp add: settled_def)
  then show ?case by (auto intro: exI [of _ "mqtt t"])
next
  case (Cons node nodes)
  obtain a r where node: "node = (a, r)" by (cases node)
  let ?t1 = "if P r then drop_request a (call_user (x r) t) else t"
  obtain c where c: "handle (a, r) t = Some (?t1\<lparr>mqtt := c\<rparr>)" "E (length nodes) c"
    using Cons.prems(1) [of a r "length nodes" t] Cons.prems(2,3) node by auto
  have q: "Q (template_cloud_rcv_buf (?t1\<lparr>mqtt := c\<rparr>))" using Cons.prems(3) by (simp add: drop_request_def call_user_def)
  have "\<exists>c'. traverse_loop handle nodes (?t1\<lparr>mqtt := c\<rparr>) = Some ((settled P x nodes (?t1\<lparr>mqtt := c\<rparr>))\<lparr>mqtt := c'\<rparr>)"
    by (rule Cons.IH; (rule Cons.prems(1))?; (use c(2) q in simp)?)
  then show ?case by (auto simp: node c(1) settled_Cons settled_mqtt)
qed

text \<open>What the application is told about a request that it made with a function of its own.\<close>

definition reply_call :: "ReplyAck \<Rightarrow> u8 list \<Rightarrow> Request \<Rightarrow> template_call" where
  "reply_call ack doc r = (case rq_callback r of Some (UserReplyCb f) \<Rightarrow> ReplyCall f (rq_method r) ack doc r | _ \<Rightarrow> undefined)"

lemma tell_user: "rq_callback r = Some (UserReplyCb f) \<Longrightarrow> tell os r ack t = Some (call_user (reply_call ack (template_cloud_rcv_buf t) r) t)"
  by (simp add: tell_def reply_callback_def reply_call_def)

lemma expired_requests_told:
  fixes t :: "sim Qcloud_IoT_Template"
  defines "now \<equiv> sim_ms (world (mqtt t))" and "buf \<equiv> template_cloud_rcv_buf t"
  assumes "distinct (map fst (reply_list t))" and "length (reply_list t) \<le> MAX_APPENDING_REQUEST_AT_ANY_GIVEN_TIME"
    and user: "\<And>a r. (a, r) \<in> set (reply_list t) \<Longrightarrow> \<exists>f. rq_callback r = Some (UserReplyCb f)"
    and dl: "\<And>a r. (a, r) \<in> set (reply_list t) \<Longrightarrow> sim_deadline (rq_timer r) (dl r) \<and> (dl r \<le> now \<or> now + 10 < dl r)"
  shows "\<exists>c. handle_template_expired_reply sim_os t = Some (t\<lparr>
      reply_list := filter (\<lambda>n. now < dl (snd n)) (reply_list t),
      calls := calls t @ map (\<lambda>n. reply_call ACK_TIMEOUT buf (snd n)) (rev (filter (\<lambda>n. dl (snd n) \<le> now) (reply_list t))),
      mqtt := c\<rparr>)"
proof (cases "reply_list t = []")
  case True
  then show ?thesis by (auto simp: handle_template_expired_reply_def traverse_template_list_def intro!: exI [of _ "mqtt t"])
next
  case False
  let ?P = "\<lambda>r. dl r \<le> now" and ?E = "\<lambda>n c :: sim client. now \<le> sim_ms (world c) \<and> sim_ms (world c) + n \<le> now + 10"
  let ?c = "snd (HAL_Malloc sim_os (mqtt t))"
  have "\<exists>c. traverse_loop (handle_template_expired_reply_callback sim_os) (rev (reply_list t)) (t\<lparr>mqtt := ?c\<rparr>) =
      Some ((settled ?P (reply_call ACK_TIMEOUT buf) (rev (reply_list t)) (t\<lparr>mqtt := ?c\<rparr>))\<lparr>mqtt := c\<rparr>)"
  proof (rule traverse_settles [where E = ?E and Q = "\<lambda>b. b = buf"])
    fix a r n and t1 :: "sim Qcloud_IoT_Template"
    assume r: "(a, r) \<in> set (rev (reply_list t))" and E: "?E (Suc n) (mqtt t1)" and b: "template_cloud_rcv_buf t1 = buf"
    obtain f where f: "rq_callback r = Some (UserReplyCb f)" using user r by auto
    have d: "sim_deadline (rq_timer r) (dl r)" "dl r \<le> now \<or> now + 10 < dl r" using dl r by auto
    have "(dl r \<le> sim_ms (world (mqtt t1))) = ?P r" using E d(2) by auto
    then have e: "expired sim_os (rq_timer r) (mqtt t1) = (?P r, (mqtt t1)\<lparr>world := tick 1 (world (mqtt t1))\<rparr>)"
      using sim_expired [OF d(1), of "mqtt t1"] by simp
    have "handle_template_expired_reply_callback sim_os (a, r) t1 =
        Some ((if ?P r then drop_request a (call_user (reply_call ACK_TIMEOUT buf r) t1) else t1)\<lparr>mqtt := (mqtt t1)\<lparr>world := tick 1 (world (mqtt t1))\<rparr>\<rparr>)"
      unfolding handle_template_expired_reply_callback_def Let_def prod.case e
      using b by (simp add: tell_user [OF f] drop_request_def call_user_def)
    moreover have "?E n ((mqtt t1)\<lparr>world := tick 1 (world (mqtt t1))\<rparr>)" using E by simp
    ultimately show "\<exists>c. handle_template_expired_reply_callback sim_os (a, r) t1 =
        Some ((if ?P r then drop_request a (call_user (reply_call ACK_TIMEOUT buf r) t1) else t1)\<lparr>mqtt := c\<rparr>) \<and> ?E n c"
      by blast
  qed (use assms(4) in \<open>simp_all add: buf_def now_def sim_malloc\<close>)
  then show ?thesis
    using False
    by (auto simp: handle_template_expired_reply_def traverse_template_list_def sim_malloc settled_mqtt settled_all [OF assms(3)] not_le)
qed

text \<open>A message whose payload is a document, with another byte behind it in the receive buffer.\<close>

definition carries :: "MQTTMessage \<Rightarrow> cstring \<Rightarrow> bool" where
  "carries m doc \<longleftrightarrow> msg_topic_len m \<noteq> 0 \<and> unat (msg_payload_len m) = length doc \<and> 0 \<notin> set doc \<and>
     length doc < CLOUD_IOT_JSON_RX_BUF_LEN \<and> (\<exists>b. buf_read (msg_buf m) (msg_payload m) (length doc + 1) = Some (doc @ [b]))"

definition rcv_buf_of :: "cstring \<Rightarrow> u8 list" where
  "rcv_buf_of doc = doc @ replicate (CLOUD_IOT_JSON_RX_BUF_LEN - length doc) 0"

lemma rcv_buf_string: "0 \<notin> set doc \<Longrightarrow> length doc < CLOUD_IOT_JSON_RX_BUF_LEN \<Longrightarrow> c_string (rcv_buf_of doc) = Some doc"
  using c_string_terminated [of doc "replicate (CLOUD_IOT_JSON_RX_BUF_LEN - length doc - 1) 0"]
  by (cases "CLOUD_IOT_JSON_RX_BUF_LEN - length doc") (auto simp: rcv_buf_of_def)

text \<open>The JSON document as the reader sees it: its type, its token, and the code, parameters or data.\<close>

definition message_doc :: "cstring \<Rightarrow> cstring \<Rightarrow> cstring \<Rightarrow> bool" where
  "message_doc doc ty tok \<longleftrightarrow> json_read doc (cstr ''method'') = Some (Some ty) \<and> json_read doc (cstr ''clientToken'') = Some (Some tok)"

lemma downstream_message:
  assumes mem: "\<And>w. fst (os_malloc os w) \<noteq> None" and m: "carries m doc" and doc: "message_doc doc ty tok"
  shows "\<exists>w. on_template_downstream_topic_handler os m t =
     (let t = with_world w (t\<lparr>template_cloud_rcv_buf := rcv_buf_of doc\<rparr>)
      in if ty = cstr ''control''
         then do {
           (control_str, w) \<leftarrow> parse_template_cmd_control os doc (world (mqtt t));
           let t = with_world w t;
           (case control_str of None \<Rightarrow> Some t | Some control_str \<Rightarrow> control_message os tok control_str eOPERATION_CTL t)
         }
         else traverse_template_list os (handle_template_reply_callback os tok ty) t)"
proof -
  obtain b where b: "buf_read (msg_buf m) (msg_payload m) (length doc + 1) = Some (doc @ [b])" using m by (auto simp: carries_def)
  have len: "min 2048 (unat (msg_payload_len m)) = length doc" "\<not> CLOUD_IOT_JSON_RX_BUF_LEN < unat (msg_payload_len m)"
    using m by (auto simp: carries_def)
  have w: "buf_write (replicate CLOUD_IOT_JSON_RX_BUF_LEN 0) 0 (doc @ [b]) = Some (doc @ [b] @ replicate (2048 - length doc) 0)"
    using m by (simp add: carries_def buf_write_def)
  have "length doc < 2049" using m by (simp add: carries_def)
  then have "2049 - length doc = Suc (2048 - length doc)" by linarith
  then have p: "buf_put (doc @ [b] @ replicate (2048 - length doc) 0) (length doc) 0 = Some (rcv_buf_of doc)"
    by (simp add: buf_put_def rcv_buf_of_def list_update_append)
  obtain w1 where w1: "parse_template_method_type os doc (world (mqtt t)) = Some (Some ty, w1)"
    using value_of_key [OF _ _ mem, of "cstr ''method''" doc "Some ty"] doc by (auto simp: message_doc_def parse_template_method_type_def cstr_def)
  obtain w2 where w2: "parse_client_token os doc w1 = Some (Some tok, w2)"
    using value_of_key [OF _ _ mem, of "cstr ''clientToken''" doc "Some tok"] doc by (auto simp: message_doc_def parse_client_token_def cstr_def)
  have s: "c_string (rcv_buf_of doc) = Some doc" using m rcv_buf_string by (simp add: carries_def)
  have tl: "msg_topic_len m \<noteq> 0" using m by (simp add: carries_def)
  show ?thesis
    by (rule exI [of _ w2]) (simp add: on_template_downstream_topic_handler_def tl len b [simplified] w [simplified] p [simplified] s w1 w2 Let_def with_world_def del: replicate.simps cong: if_cong option.case_cong)
qed

lemma reply_node:
  assumes mem: "\<And>w. fst (os_malloc os w) \<noteq> None"
    and ty: "ty \<noteq> cstr ''get_status_reply''" and code: "json_read doc (cstr ''code'') = Some (Some (dec_int code))" "- (2 ^ 31) \<le> code" "code < 2 ^ 31"
    and buf: "c_string (template_cloud_rcv_buf t) = Some doc"
    and r: "c_string (rq_client_token r) \<noteq> None" "rq_callback r = Some (UserReplyCb f)"
  defines "ack \<equiv> (if code = 0 then ACK_ACCEPTED else ACK_REJECTED)"
  shows "\<exists>c. handle_template_reply_callback os tok ty (a, r) t =
     Some ((if c_string (rq_client_token r) = Some tok then drop_request a (call_user (reply_call ack (template_cloud_rcv_buf t) r) t) else t)\<lparr>mqtt := c\<rparr>)"
proof (cases "c_string (rq_client_token r) = Some tok")
  case True
  obtain w1 where "LITE_json_value_of os (cstr ''code'') doc (world (mqtt t)) = Some (Some (dec_int code), w1)"
    using value_of_key [OF _ code(1) mem] by (auto simp: cstr_def)
  then have "parse_code_return os doc (world (mqtt t)) = Some (Some code, w1)"
    using code(2,3) by (simp add: parse_code_return_def scan_i_dec scan_result_def)
  with True ty show ?thesis
    by (intro exI [of _ "(mqtt t)\<lparr>world := w1\<rparr>"])
      (auto simp: handle_template_reply_callback_def token_matches_def buf status_reply_def tell_user [OF r(2)] ack_def with_world_def
        drop_request_def call_user_def)
next
  case False
  with r(1) show ?thesis by (auto simp: handle_template_reply_callback_def token_matches_def intro!: exI [of _ "mqtt t"])
qed

lemma reply_settles:
  fixes t :: "'w Qcloud_IoT_Template"
  assumes mem: "\<And>w. fst (os_malloc os w) \<noteq> None"
    and m: "carries m doc" "message_doc doc ty tok" "ty \<noteq> cstr ''control''" "ty \<noteq> cstr ''get_status_reply''"
    and code: "json_read doc (cstr ''code'') = Some (Some (dec_int code))" "- (2 ^ 31) \<le> code" "code < 2 ^ 31"
    and list: "distinct (map fst (reply_list t))"
      "\<And>a r. (a, r) \<in> set (reply_list t) \<Longrightarrow> c_string (rq_client_token r) \<noteq> None \<and> (\<exists>f. rq_callback r = Some (UserReplyCb f))"
  defines "ack \<equiv> (if code = 0 then ACK_ACCEPTED else ACK_REJECTED)" and "buf \<equiv> rcv_buf_of doc"
  shows "\<exists>c. on_template_downstream_topic_handler os m t = Some (t\<lparr>template_cloud_rcv_buf := buf,
      reply_list := filter (\<lambda>n. c_string (rq_client_token (snd n)) \<noteq> Some tok) (reply_list t),
      calls := calls t @ map (\<lambda>n. reply_call ack buf (snd n)) (rev (filter (\<lambda>n. c_string (rq_client_token (snd n)) = Some tok) (reply_list t))),
      mqtt := c\<rparr>)"
proof -
  obtain w where w: "on_template_downstream_topic_handler os m t =
      traverse_template_list os (handle_template_reply_callback os tok ty) (with_world w (t\<lparr>template_cloud_rcv_buf := buf\<rparr>))"
    using downstream_message [OF mem m(1,2)] m(3) unfolding buf_def by (auto simp: Let_def)
  define t1 where "t1 = with_world w (t\<lparr>template_cloud_rcv_buf := buf\<rparr>)"
  have list1: "reply_list t1 = reply_list t" "calls t1 = calls t" by (simp_all add: t1_def with_world_def)
  show ?thesis
  proof (cases "reply_list t = []")
    case True
    then show ?thesis by (auto simp: w traverse_template_list_def with_world_def intro!: exI [of _ "(mqtt t)\<lparr>world := w\<rparr>"])
  next
    case False
    obtain i c0 where c0: "HAL_Malloc os (mqtt t1) = (Some i, c0)" using mem [of "world (mqtt t1)"] by (cases "os_malloc os (world (mqtt t1))") (auto simp: HAL_Malloc_def)
    let ?P = "\<lambda>r. c_string (rq_client_token r) = Some tok"
    have doc: "c_string buf = Some doc" using m(1) by (simp add: buf_def carries_def rcv_buf_string)
    have "\<exists>c. traverse_loop (handle_template_reply_callback os tok ty) (rev (reply_list t)) (t1\<lparr>mqtt := c0\<rparr>) =
        Some ((settled ?P (reply_call ack buf) (rev (reply_list t)) (t1\<lparr>mqtt := c0\<rparr>))\<lparr>mqtt := c\<rparr>)"
    proof (rule traverse_settles [where E = "\<lambda>n c. True" and Q = "\<lambda>b. b = buf"])
      fix a r n and t2 :: "'w Qcloud_IoT_Template"
      assume r: "(a, r) \<in> set (rev (reply_list t))" and b: "template_cloud_rcv_buf t2 = buf"
      then show "\<exists>c. handle_template_reply_callback os tok ty (a, r) t2 =
          Some ((if ?P r then drop_request a (call_user (reply_call ack buf r) t2) else t2)\<lparr>mqtt := c\<rparr>) \<and> True"
        using reply_node [OF mem m(4) code, of t2 r _ tok a] list(2) [of a r] doc by (auto simp: b ack_def)
    qed (simp_all add: t1_def with_world_def)
    then show ?thesis
      using False settled_all [of t1] list(1)
      by (auto simp: w t1_def [symmetric] traverse_template_list_def list1 c0 settled_mqtt) (auto simp: t1_def with_world_def)
  qed
qed

lemma construct_report_holds:
  fixes t :: "'t template_data_scheme" and kvs :: "(cstring \<times> json) list"
  defines "token \<equiv> client_token (token_num t) (td_product_id t)"
  assumes ps: "\<forall>p \<in> set ps. node_ok p" "list_all2 means ps kvs" "ps \<noteq> []" "length ps \<le> 127"
    and pid: "plain (td_product_id t)" "length (td_product_id t) \<le> 10"
    and a: "n \<le> length a" "110 \<le> length a" and room: "length (request_text REPORT token kvs) + 40 < n"
  shows "\<exists>a1. IOT_Template_JSON_ConstructReportArray (Some t) (Some a) n (length ps) (Some (map Some ps)) =
       Some (QCLOUD_RET_SUCCESS, Some (t\<lparr>token_num := token_num t + 1\<rparr>), Some a1) \<and> holds a1 0 n (report_text token ps)"
proof -
  let ?e = "empty_json_text token" and ?r = "report_text token ps" and ?d = "request_text REPORT token kvs"
  have e: "length ?e \<le> 39" using empty_json_length [OF pid(2)] by (simp add: token_def)
  have r: "hd ?r # method_node REPORT @ tl ?r = ?d" "?r \<noteq> []" using request_text_insert [OF ps(2,3)] by blast+
  then have "length ?d = length ?r + length (method_node REPORT)" by (cases ?r) (auto simp flip: r(1))
  then have room': "length ?r + length (method_node REPORT) + 40 < n" using room by simp
  have keys: "\<forall>p \<in> set ps. node_ok p \<and> dp_key p \<noteq> None"
    using ps(2,1) by induction (auto dest: means_key)
  obtain a0 where a0: "build_empty_json (token_num t) a (td_product_id t) = Some (token_num t + 1, a0)" "holds a0 0 n ?e"
    using build_empty_json_holds [OF pid(1) _ a(1,2), of "token_num t"] e room' by (auto simp: token_def)
  obtain a1 where a1: "report_document n (length ps) (map Some ps) a0 = Some (QCLOUD_RET_SUCCESS, a1)" "holds a1 0 n ?r"
    using report_document_puts [OF keys ps(4) a0(2)] e room' by (auto simp: puts_rc_def put_ok_def)
  then show ?thesis using a0(1) by (simp add: IOT_Template_JSON_ConstructReportArray_def)
qed

lemma report_text_token:
  assumes "list_all2 means ps kvs" and "ps \<noteq> []" and "json_ok (JObj kvs)" and "plain token" and "token \<noteq> []"
  shows "json_read (report_text token ps) (cstr ''clientToken'') = Some (Some token)"
proof -
  let ?segs = "[([chr_lbrace], cstr ''clientToken'', JStr token), (cstr '', '', cstr ''params'', JObj kvs)]"
  have doc: "report_text token ps = seg_text ?segs @ [chr_rbrace]"
    unfolding report_text_means [OF assms(1,2)] by (simp add: seg_text_def cstr_def del: json_text.simps(5))
  have "\<forall>x \<in> set ?segs. seg_ok x" using assms(3,4) by (simp add: seg_ok_def cstr_def plain_def is_digit_def)
  from lookup_segs [OF _ _ this, of "[chr_rbrace]" "cstr ''clientToken''"] assms(5) show ?thesis
    unfolding doc by (auto simp: json_read_def nv_found_def full_members_def json_content_def cstr_def is_digit_def)
qed

lemma sim_countdown:
  "\<exists>timer'. countdown sim_os timer s c = (timer', c\<lparr>world := tick 1 (world c)\<rparr>) \<and> sim_deadline timer' (sim_ms (world c) + 1000 * s)"
proof -
  let ?n = "sim_ms (world c)"
  have "int (?n div 1000) * 1000000 + int (?n mod 1000) * 1000 = 1000 * int ?n"
    using sim_now_us [of ?n] by (simp add: tv_us_def)
  moreover have "?n mod 1000 < 1000" by simp
  ultimately show ?thesis
    by (auto simp: countdown_def HAL_Timer_countdown_def sim_deadline_def tv_norm_def tv_us_def timeradd_def Let_def algebra_simps)
qed

lemma token_bytes_string: "0 \<notin> set tok \<Longrightarrow> length tok < MAX_SIZE_OF_CLIENT_TOKEN \<Longrightarrow> c_string (token_bytes tok) = Some tok"
proof -
  assume tok: "0 \<notin> set tok" "length tok < MAX_SIZE_OF_CLIENT_TOKEN"
  then have "90 - length tok = Suc (89 - length tok)" by linarith
  then have "token_bytes tok = tok @ 0 # replicate (89 - length tok) 0" using tok(2) by (simp add: token_bytes_def)
  then show ?thesis using c_string_terminated [OF tok(1)] by simp
qed

lemma sim_value_of_key:
  assumes "chr_dot \<notin> set k" and "json_read doc k = Some (Some v)"
  shows "LITE_json_value_of sim_os k doc w = Some (Some v, w\<lparr>sim_next := sim_next w + 1\<rparr>)"
  using assms(2) by (subst LITE_json_value_of.simps) (auto simp: strchr_none [OF assms(1)] json_read_def split: option.splits)

lemma sim_add_request:
  fixes t :: "sim Qcloud_IoT_Template"
  assumes "length (reply_list t) < MAX_APPENDING_REQUEST_AT_ANY_GIVEN_TIME"
  shows "\<exists>node timer c. add_request_to_template_list sim_os token p t = (QCLOUD_RET_SUCCESS, t\<lparr>mqtt := c, reply_list := reply_list t @
       [(node, \<lparr>rq_client_token = token_bytes token, rq_method = rp_method p, rq_user_context = rp_user_context p, rq_timer = timer,
          rq_callback = request_callback p\<rparr>)]\<rparr>) \<and> sim_out (world c) = sim_out (world (mqtt t))"
proof -
  obtain timer where "countdown sim_os InitTimer (unat (rp_timeout_sec p)) (snd (HAL_Malloc sim_os (mqtt t))) =
      (timer, (snd (HAL_Malloc sim_os (mqtt t)))\<lparr>world := tick 1 (world (snd (HAL_Malloc sim_os (mqtt t))))\<rparr>)"
    using sim_countdown by blast
  with assms show ?thesis
    by (simp add: add_request_to_template_list_def sim_malloc nodes_rpush_def) (intro exI conjI, rule refl, simp)
qed

lemma template_report:
  fixes t :: "sim Qcloud_IoT_Template"
  assumes t: "template_inv sim_os t" "is_connected (mqtt t)" "sim_ms (world (mqtt t)) < 2 ^ 60" "sync_status t \<ge> 0"
      "length (reply_list t) < MAX_APPENDING_REQUEST_AT_ANY_GIVEN_TIME" "length (list_pub_wait_ack (mqtt t)) < MAX_REPUB_NUM"
    and topic: "length (td_product_id t) \<le> 10" "length (td_device_name t) \<le> 48"
    and doc: "list_all2 means ps kvs" "ps \<noteq> []" "json_ok (JObj kvs)" "plain token" "token \<noteq> []" "length token < MAX_SIZE_OF_CLIENT_TOKEN"
    and a: "holds a 0 n (report_text token ps)" "n < 2 ^ 63" "length (request_text REPORT token kvs) + 1 < n" "length (request_text REPORT token kvs) \<le> 1900"
    and ms: "0 < ms"
  shows "\<exists>a' node timer c. IOT_Template_Report sim_os (Some a) n (Some (UserReplyCb f)) ctx ms t = Some (QCLOUD_RET_SUCCESS, Some a',
       t\<lparr>mqtt := c, reply_list := reply_list t @ [(node, \<lparr>rq_client_token = token_bytes token, rq_method = REPORT, rq_user_context = ctx,
          rq_timer = timer, rq_callback = Some (UserReplyCb f)\<rparr>)]\<rparr>) \<and>
     c_string a' = Some (request_text REPORT token kvs) \<and>
     sim_out (world c) = sim_out (world (mqtt t)) @ packet_bytes 0x30 (publish_body QOS0 0 (thing_topic ''$thing/up/property/'' t) (request_text REPORT token kvs))"
proof -
  let ?r = "report_text token ps" and ?d = "request_text REPORT token kvs" and ?topic = "thing_topic ''$thing/up/property/'' t"
  have r: "hd ?r # method_node REPORT @ tl ?r = ?d" "?r \<noteq> []" using request_text_insert [OF doc(1,2)] by blast+
  then have "length ?d = length ?r + length (method_node REPORT)" by (cases ?r) (auto simp flip: r(1))
  then obtain a' where a': "set_template_json_type a n REPORT = Some (QCLOUD_RET_SUCCESS, a')" "holds a' 0 n ?d"
    using set_template_json_type_holds [OF a(1) r(2) a(2), of REPORT] a(3) by (auto simp: r(1))
  have tok: "parse_client_token sim_os ?r (world (mqtt t)) = Some (Some token, (world (mqtt t))\<lparr>sim_next := sim_next (world (mqtt t)) + 1\<rparr>)"
    unfolding parse_client_token_def by (rule sim_value_of_key [OF _ report_text_token [OF doc(1-5)]]) (simp add: cstr_def)
  let ?t1 = "with_world ((world (mqtt t))\<lparr>sim_next := sim_next (world (mqtt t)) + 1\<rparr>) t"
  let ?p = "\<lparr>pp_qos = QOS0, pp_retained = 0, pp_id = 0, pp_payload = Some ?d\<rparr>"
  have tp: "thing_topic ''$thing/up/property/'' ?t1 = ?topic" "length ?topic < 128" "0 < length ?topic"
    using topic by (simp_all add: thing_topic_def cstr_def with_world_def)
  obtain c1 where c1: "qcloud_iot_mqtt_publish sim_os (Some ?topic) ?p (mqtt ?t1) = Some (0, ?p, c1)"
    "sim_out (world c1) = sim_out (world (mqtt t)) @ packet_bytes 0x30 (publish_body QOS0 0 ?topic ?d)"
    using sim_publish [of "mqtt ?t1" ?topic ?p ?d] t(1-3,6) tp(2,3) a(4) by (auto simp: with_world_def template_inv_def)
  have publish: "publish_to_template_upstream_topic sim_os ?d ?t1 = Some (QCLOUD_RET_SUCCESS, ?t1\<lparr>mqtt := c1\<rparr>)"
    using tp c1(1) by (simp add: publish_to_template_upstream_topic_def Let_def)
  let ?rp = "init_request_params REPORT (Some (UserReplyCb f)) ctx (of_nat (ms div 1000))"
  obtain node timer c where add: "add_request_to_template_list sim_os token ?rp (?t1\<lparr>mqtt := c1\<rparr>) =
      (QCLOUD_RET_SUCCESS, (?t1\<lparr>mqtt := c1\<rparr>)\<lparr>mqtt := c, reply_list := reply_list (?t1\<lparr>mqtt := c1\<rparr>) @ [(node, \<lparr>rq_client_token = token_bytes token,
        rq_method = rp_method ?rp, rq_user_context = rp_user_context ?rp, rq_timer = timer, rq_callback = request_callback ?rp\<rparr>)]\<rparr>)"
    "sim_out (world c) = sim_out (world c1)"
    using sim_add_request [of "?t1\<lparr>mqtt := c1\<rparr>" token ?rp] t(5) by (auto simp: with_world_def)
  have "send_template_request sim_os ?rp a n t = Some (QCLOUD_RET_SUCCESS, a', t\<lparr>mqtt := c, reply_list := reply_list t @
      [(node, \<lparr>rq_client_token = token_bytes token, rq_method = REPORT, rq_user_context = ctx, rq_timer = timer, rq_callback = Some (UserReplyCb f)\<rparr>)]\<rparr>)"
    using publish add(1) a'(1) holds_c_string [OF a(1)] holds_c_string [OF a'(2)] tok
    by (simp add: send_template_request_def init_request_params_def with_world_def)
  then show ?thesis
    using t(2,4) ms holds_c_string [OF a'(2)] c1(2) add(2)
    by (auto simp: IOT_Template_Report_def report_request_def renew_subscription_def IOT_MQTT_IsConnected_def get_client_conn_state_def)
qed

end
