(* ===== verification/Dt_Properties.thy ===== *)
theory Dt_Properties
  imports Dt_Requests
begin

text \<open>
  Control messages from the payload to the properties; then defects, and the properties of the data template service.
\<close>

section \<open>Control messages\<close>

lemma read_absent:
  assumes "json_ok (JObj kvs)" and "k \<notin> fst ` set kvs"
  shows "json_read (json_text (JObj kvs)) k = Some None"
proof -
  have "map_of (full_members kvs) k = None" using assms(2) by (force simp: full_members_def map_of_eq_None_iff)
  then show ?thesis using lookup_in_object [OF assms(1), of k] by (auto simp: json_read_def nv_found_def)
qed

text \<open>What a control message with the members \<open>kvs\<close> makes of a property: the value it names, or no change.\<close>

definition controlled :: "float_io \<Rightarrow> (cstring \<times> json) list \<Rightarrow> DeviceProperty \<Rightarrow> DeviceProperty \<Rightarrow> bool" where
  "controlled fl kvs p p' \<longleftrightarrow>
     (if dp_key p \<in> Some ` fst ` set kvs then takes_over fl p p' \<and> (\<exists>kv \<in> set kvs. means p' kv)
      else p' = p \<and> dp_key p \<noteq> None \<and> chr_dot \<notin> set (the (dp_key p)))"

lemma update_controlled:
  assumes mem: "\<And>w. fst (os_malloc os w) \<noteq> None" and kvs: "json_ok (JObj kvs)" "distinct (map fst kvs)" and p: "controlled fl kvs p p'"
  shows "\<exists>w'. update_value_if_key_match fl os (json_text (JObj kvs)) p w = Some (dp_key p \<in> Some ` fst ` set kvs, p', w')"
proof (cases "dp_key p \<in> Some ` fst ` set kvs")
  case True
  then obtain k j where kv: "(k, j) \<in> set kvs" "means p' (k, j)" and take: "takes_over fl p p'" using p by (auto simp: controlled_def)
  have ok: "json_ok j" using kvs(1) kv(1) by auto
  have "json_content j \<noteq> []" using means_content [OF kv(2) ok take] by simp
  then have "json_read (json_text (JObj kvs)) k = Some (Some (json_content j))" by (rule read_member [OF kvs kv(1)])
  with update_takes_over [OF mem kv(2) _ take, of "json_text (JObj kvs)" w] ok True show ?thesis by simp
next
  case False
  then obtain k d where k: "p = DeviceProperty (Some k) d" "chr_dot \<notin> set k" "p' = p" using p by (cases p) (auto simp: controlled_def)
  have "json_read (json_text (JObj kvs)) k = Some None" by (rule read_absent [OF kvs(1)]) (use False k(1) in auto)
  then obtain w' where "LITE_json_value_of os k (json_text (JObj kvs)) w = Some (None, w')" using value_of_key [OF k(2) _ mem] by blast
  with False show ?thesis by (auto simp: k update_value_if_key_match.simps)
qed

definition property_calls ::
  "(cstring \<times> json) list \<Rightarrow> (nat \<Rightarrow> DeviceProperty) \<Rightarrow> (nat \<times> nat \<times> PropertyHandler) list \<Rightarrow> template_call list" where
  "property_calls kvs new nodes = concat (map (\<lambda>(a, v, h).
     if dp_key (new (ph_property h)) \<in> Some ` fst ` set kvs
     then (case ph_callback h of None \<Rightarrow> [] | Some f \<Rightarrow> [PropertyCall f (json_text (JObj kvs)) (ph_property h)]) else []) nodes)"

definition property_addrs :: "(nat \<times> nat \<times> PropertyHandler) list \<Rightarrow> nat list" where
  "property_addrs nodes = map (\<lambda>(a, v, h). ph_property h) nodes"

lemma controlled_key: "controlled fl kvs p p' \<Longrightarrow> dp_key p' = dp_key p"
  by (cases p; cases p') (auto simp: controlled_def takes_over.simps split: if_splits)

lemma control_loop_sets:
  assumes mem: "\<And>w. fst (os_malloc os w) \<noteq> None" and kvs: "json_ok (JObj kvs)" "distinct (map fst kvs)"
  shows "distinct (property_addrs nodes) \<Longrightarrow> (\<And>a. a \<in> set (property_addrs nodes) \<Longrightarrow> \<exists>p. props t a = Some p \<and> controlled (libc t) kvs p (new a)) \<Longrightarrow>
     \<exists>c. control_loop os (json_text (JObj kvs)) nodes t = Some (t\<lparr>mqtt := c,
       props := (\<lambda>a. if a \<in> set (property_addrs nodes) then Some (new a) else props t a), calls := calls t @ property_calls kvs new nodes\<rparr>)"
proof (induction nodes arbitrary: t)
  case Nil
  have "t = t\<lparr>mqtt := mqtt t, props := props t, calls := calls t\<rparr>" by simp
  then show ?case by (auto simp: property_addrs_def property_calls_def intro!: exI [of _ "mqtt t"])
next
  case (Cons node nodes)
  obtain n v h where node: "node = (n, v, h)" by (cases node)
  let ?a = "ph_property h"
  have addrs: "property_addrs (node # nodes) = ?a # property_addrs nodes" by (simp add: property_addrs_def node)
  obtain p where p: "props t ?a = Some p" "controlled (libc t) kvs p (new ?a)" using Cons.prems(2) [of ?a] by (auto simp: addrs)
  let ?b = "dp_key p \<in> Some ` fst ` set kvs"
  obtain w where w: "update_value_if_key_match (libc t) os (json_text (JObj kvs)) p (world (mqtt t)) = Some (?b, new ?a, w)"
    using update_controlled [OF mem kvs p(2)] by blast
  define t1 where "t1 = (let t1 = (with_world w t)\<lparr>props := (props t)(?a \<mapsto> new ?a)\<rparr>
    in if ?b then (case ph_callback h of None \<Rightarrow> t1 | Some f \<Rightarrow> call_user (PropertyCall f (json_text (JObj kvs)) ?a) t1) else t1)"
  have t1: "props t1 = (props t)(?a \<mapsto> new ?a)" "libc t1 = libc t" "calls t1 = calls t @ property_calls kvs new [node]"
    "\<And>c q xs. t1\<lparr>mqtt := c, props := q, calls := xs\<rparr> = t\<lparr>mqtt := c, props := q, calls := xs\<rparr>"
    using controlled_key [OF p(2)]
    by (auto simp: t1_def Let_def call_user_def with_world_def property_calls_def node simp del: json_text.simps split: option.split)
  have "\<exists>p. props t1 a = Some p \<and> controlled (libc t1) kvs p (new a)" if "a \<in> set (property_addrs nodes)" for a
    using Cons.prems that by (auto simp: addrs t1(1,2))
  from Cons.IH [OF _ this] Cons.prems(1) obtain c where c: "control_loop os (json_text (JObj kvs)) nodes t1 = Some (t1\<lparr>mqtt := c,
       props := (\<lambda>a. if a \<in> set (property_addrs nodes) then Some (new a) else props t1 a), calls := calls t1 @ property_calls kvs new nodes\<rparr>)"
    by (auto simp: addrs simp del: json_text.simps)
  have "control_loop os (json_text (JObj kvs)) (node # nodes) t = control_loop os (json_text (JObj kvs)) nodes t1"
    by (simp add: node p(1) w t1_def Let_def del: json_text.simps)
  moreover have "(\<lambda>a. if a \<in> set (property_addrs nodes) then Some (new a) else props t1 a) = (\<lambda>a. if a \<in> set (property_addrs (node # nodes)) then Some (new a) else props t a)"
    by (auto simp: addrs t1(1))
  moreover have "calls t1 @ property_calls kvs new nodes = calls t @ property_calls kvs new (node # nodes)"
    by (simp add: t1(3)) (simp add: property_calls_def del: json_text.simps)
  ultimately show ?case using c unfolding t1(4) by (auto simp del: control_loop.simps json_text.simps)
qed

section \<open>Defects\<close>

text \<open>A reply without a code takes the request off the list, and nobody is told; a synchronous call then waits for ever.\<close>

lemma reply_without_code:
  assumes mem: "\<And>w. fst (os_malloc os w) \<noteq> None" and "json_read doc (cstr ''code'') = Some None"
    and "c_string (template_cloud_rcv_buf t) = Some doc" and "c_string (rq_client_token r) = Some tok"
  shows "\<exists>c. handle_template_reply_callback os tok ty (a, r) t = Some (t\<lparr>mqtt := c, reply_list := nodes_remove (reply_list t) a\<rparr>)"
proof -
  obtain w where "LITE_json_value_of os (cstr ''code'') doc (world (mqtt t)) = Some (None, w)"
    using value_of_key [OF _ assms(2) mem] by (auto simp: cstr_def)
  with assms(3,4) show ?thesis
    by (auto simp: handle_template_reply_callback_def token_matches_def parse_code_return_def with_world_def drop_request_def)
qed

text \<open>The number of seconds is an 8-bit number: a timeout of 256 seconds is one of none.\<close>

lemma long_timeout: "rp_timeout_sec (init_request_params m cb ctx (of_nat (256000 div 1000))) = 0"
  by (simp add: init_request_params_def)

text \<open>A payload that ends with the receive buffer: the byte behind it is read.\<close>

lemma payload_at_buffer_end:
  assumes "msg_topic_len m \<noteq> 0" and "msg_payload m + unat (msg_payload_len m) = length (msg_buf m)" and "unat (msg_payload_len m) < CLOUD_IOT_JSON_RX_BUF_LEN"
  shows "on_template_downstream_topic_handler os m t = None"
  using assms by (simp add: on_template_downstream_topic_handler_def buf_read_def min_def)

text \<open>A reply to a request for the status that brings a control message writes through the context of the application.\<close>

lemma status_reply_writes_context:
  assumes mem: "\<And>w. fst (os_malloc os w) \<noteq> None" and "parse_template_get_control os doc (world (mqtt t)) = Some (Some control, w)"
    and "usr_control_handle t = Some f" and "acks t (rq_user_context r) = None"
  shows "status_reply os tok (cstr ''get_status_reply'') ACK_ACCEPTED doc r t = None"
  using assms by (simp add: status_reply_def control_message_def set_control_clientToken_def set_ack_def call_user_def)

text \<open>A string value that begins with null is taken for no value.\<close>

lemma null_prefix_ignored:
  assumes "LITE_json_value_of os k doc w = Some (Some (cstr ''null'' @ s), w')"
  shows "update_value_if_key_match fl os doc (DeviceProperty (Some k) d) w = Some (False, DeviceProperty (Some k) d, w')"
  using assms by (simp add: update_value_if_key_match.simps is_null_text_def has_prefix_def cstr_def)

lemma control_message_run:
  fixes t :: "'w Qcloud_IoT_Template"
  assumes "\<forall>w. fst (os_malloc os w) \<noteq> None" and "carries m doc" and "message_doc doc (cstr ''control'') token"
    and "json_read doc (cstr ''params'') = Some (Some (json_text (JObj kvs)))" and "usr_control_handle t = None"
  obtains t1 where "on_template_downstream_topic_handler os m t = handle_control os (json_text (JObj kvs)) t1"
    "property_handle_list t1 = property_handle_list t" "props t1 = props t" "calls t1 = calls t" "reply_list t1 = reply_list t" "libc t1 = libc t"
    "template_clientToken t1 = token_bytes token"
proof -
  note mem = assms(1) [rule_format]
  obtain w where w: "on_template_downstream_topic_handler os m t =
     (let t = with_world w (t\<lparr>template_cloud_rcv_buf := rcv_buf_of doc\<rparr>)
      in do {
           (control_str, w) \<leftarrow> parse_template_cmd_control os doc (world (mqtt t));
           let t = with_world w t;
           (case control_str of None \<Rightarrow> Some t | Some control_str \<Rightarrow> control_message os token control_str eOPERATION_CTL t)
         })"
    using downstream_message [OF mem assms(2,3)] by auto
  obtain w1 where w1: "parse_template_cmd_control os doc w = Some (Some (json_text (JObj kvs)), w1)"
    using value_of_key [OF _ assms(4) mem] by (auto simp: parse_template_cmd_control_def cstr_def)
  let ?t1 = "set_control_clientToken token (with_world w1 (with_world w (t\<lparr>template_cloud_rcv_buf := rcv_buf_of doc\<rparr>)))"
  have "on_template_downstream_topic_handler os m t = handle_control os (json_text (JObj kvs)) ?t1"
    using w w1 assms(5) by (simp add: Let_def control_message_def set_control_clientToken_def with_world_def del: json_text.simps)
  then show ?thesis by (rule that) (simp_all add: set_control_clientToken_def with_world_def)
qed

lemma control_list:
  assumes "\<forall>w. fst (os_malloc os w) \<noteq> None" and "property_handle_list t \<noteq> []"
  shows "\<exists>c. handle_control os doc t = control_loop os doc (rev (property_handle_list t)) (t\<lparr>mqtt := c\<rparr>)"
proof -
  obtain i c where "HAL_Malloc os (mqtt t) = (Some i, c)"
    using assms(1) [rule_format, of "world (mqtt t)"] by (cases "os_malloc os (world (mqtt t))") (auto simp: HAL_Malloc_def)
  with assms(2) show ?thesis by (auto simp: handle_control_def)
qed

lemma control_message_sets:
  fixes t :: "'w Qcloud_IoT_Template"
  assumes "\<forall>w. fst (os_malloc os w) \<noteq> None" and "carries m doc" and "message_doc doc (cstr ''control'') token"
    and "json_read doc (cstr ''params'') = Some (Some (json_text (JObj kvs)))" and "json_ok (JObj kvs)" and "distinct (map fst kvs)"
    and "usr_control_handle t = None" and "distinct (property_addrs (property_handle_list t))"
    and "\<forall>a \<in> set (property_addrs (property_handle_list t)). \<exists>p. props t a = Some p \<and> controlled (libc t) kvs p (new a)"
  shows "\<exists>t'. on_template_downstream_topic_handler os m t = Some t' \<and>
     props t' = (\<lambda>a. if a \<in> set (property_addrs (property_handle_list t)) then Some (new a) else props t a) \<and>
     calls t' = calls t @ property_calls kvs new (rev (property_handle_list t)) \<and>
     reply_list t' = reply_list t \<and> template_clientToken t' = token_bytes token"
proof -
  obtain t1 where run: "on_template_downstream_topic_handler os m t = handle_control os (json_text (JObj kvs)) t1"
    and t1: "property_handle_list t1 = property_handle_list t" "props t1 = props t" "calls t1 = calls t" "reply_list t1 = reply_list t"
      "libc t1 = libc t" "template_clientToken t1 = token_bytes token"
    by (rule control_message_run [OF assms(1-4,7)])
  show ?thesis
  proof (cases "property_handle_list t = []")
    case True
    then show ?thesis by (simp add: run handle_control_def t1 property_addrs_def property_calls_def)
  next
    case False
    obtain c0 where c0: "handle_control os (json_text (JObj kvs)) t1 = control_loop os (json_text (JObj kvs)) (rev (property_handle_list t)) (t1\<lparr>mqtt := c0\<rparr>)"
      using control_list [OF assms(1), of t1] False t1(1) by auto
    have addrs: "property_addrs (rev l) = rev (property_addrs l)" for l by (simp add: property_addrs_def rev_map)
    have t2: "props (t1\<lparr>mqtt := c0\<rparr>) = props t" "calls (t1\<lparr>mqtt := c0\<rparr>) = calls t" "libc (t1\<lparr>mqtt := c0\<rparr>) = libc t" using t1 by simp_all
    obtain c where "control_loop os (json_text (JObj kvs)) (rev (property_handle_list t)) (t1\<lparr>mqtt := c0\<rparr>) = Some (t1\<lparr>mqtt := c0, mqtt := c,
        props := (\<lambda>a. if a \<in> set (property_addrs (rev (property_handle_list t))) then Some (new a) else props t a),
        calls := calls t @ property_calls kvs new (rev (property_handle_list t))\<rparr>)"
      using control_loop_sets [OF assms(1) [rule_format] assms(5,6), of "rev (property_handle_list t)" "t1\<lparr>mqtt := c0\<rparr>" new] assms(8,9) unfolding t2 by (auto simp: addrs simp del: json_text.simps)
    then show ?thesis by (simp add: run c0 t1 addrs del: json_text.simps)
  qed
qed



text \<open>A report from its construction to the reply of the cloud.\<close>

lemma report_settled:
  fixes t :: "sim Qcloud_IoT_Template" and kvs :: "(cstring \<times> json) list"
  defines "token \<equiv> client_token (token_num t) (td_product_id t)"
  assumes t: "template_inv sim_os t" "is_connected (mqtt t)" "sim_ms (world (mqtt t)) < 2 ^ 60" "sync_status t \<ge> 0"
      "reply_list t = []" "length (list_pub_wait_ack (mqtt t)) < MAX_REPUB_NUM"
    and pid: "plain (td_product_id t)" "length (td_product_id t) \<le> 10" "length (td_device_name t) \<le> 48"
    and ps: "\<forall>p \<in> set ps. node_ok p" "list_all2 means ps kvs" "ps \<noteq> []" "length ps \<le> 127" "json_ok (JObj kvs)"
    and a: "n \<le> length a" "110 \<le> length a" "n < 2 ^ 63" "length (request_text REPORT token kvs) + 40 < n" "length (request_text REPORT token kvs) \<le> 1900"
    and ms: "0 < ms"
  shows "\<exists>a1 a2 t1 node r. IOT_Template_JSON_ConstructReportArray (Some t) (Some a) n (length ps) (Some (map Some ps)) =
       Some (QCLOUD_RET_SUCCESS, Some (t\<lparr>token_num := token_num t + 1\<rparr>), Some a1) \<and>
     IOT_Template_Report sim_os (Some a1) n (Some (UserReplyCb f)) ctx ms (t\<lparr>token_num := token_num t + 1\<rparr>) = Some (QCLOUD_RET_SUCCESS, Some a2, t1) \<and>
     sim_out (world (mqtt t1)) = sim_out (world (mqtt t)) @
       packet_bytes 0x30 (publish_body QOS0 0 (thing_topic ''$thing/up/property/'' t) (request_text REPORT token kvs)) \<and>
     reply_list t1 = [(node, r)] \<and> rq_user_context r = ctx \<and> calls t1 = calls t \<and>
     (\<forall>m reply ty code. carries m reply \<and> message_doc reply ty token \<and> ty \<notin> {cstr ''control'', cstr ''get_status_reply''} \<and>
        json_read reply (cstr ''code'') = Some (Some (dec_int code)) \<and> - (2 ^ 31) \<le> code \<and> code < 2 ^ 31 \<longrightarrow>
        (\<exists>t2. on_template_downstream_topic_handler sim_os m t1 = Some t2 \<and> reply_list t2 = [] \<and>
           calls t2 = calls t @ [ReplyCall f REPORT (if code = 0 then ACK_ACCEPTED else ACK_REJECTED) (rcv_buf_of reply) r]))"
proof -
  let ?t = "t\<lparr>token_num := token_num t + 1\<rparr>" and ?d = "request_text REPORT token kvs"
  obtain a1 where a1: "IOT_Template_JSON_ConstructReportArray (Some t) (Some a) n (length ps) (Some (map Some ps)) =
      Some (QCLOUD_RET_SUCCESS, Some ?t, Some a1)" "holds a1 0 n (report_text token ps)"
    using construct_report_holds [OF ps(1-4) pid(1,2) a(1,2)] a(4) unfolding token_def by blast
  have tok: "plain token" "token \<noteq> []" "length token < 90" "0 \<notin> set token"
    using token_plain(1) [OF pid(1)] token_plain(2) empty_json_length [OF pid(2), of "token_num t"] by (auto simp: token_def empty_json_text_def plain_def)
  obtain a2 node timer c where r: "IOT_Template_Report sim_os (Some a1) n (Some (UserReplyCb f)) ctx ms ?t = Some (QCLOUD_RET_SUCCESS, Some a2,
      ?t\<lparr>mqtt := c, reply_list := reply_list ?t @ [(node, \<lparr>rq_client_token = token_bytes token, rq_method = REPORT, rq_user_context = ctx,
          rq_timer = timer, rq_callback = Some (UserReplyCb f)\<rparr>)]\<rparr>)"
    "sim_out (world c) = sim_out (world (mqtt t)) @ packet_bytes 0x30 (publish_body QOS0 0 (thing_topic ''$thing/up/property/'' t) ?d)"
    using template_report [of ?t ps kvs token a1 n ms f ctx] t pid ps(2,3,5) tok a1(2) a(3-5) ms by (auto simp: thing_topic_def)
  let ?r = "\<lparr>rq_client_token = token_bytes token, rq_method = REPORT, rq_user_context = ctx, rq_timer = timer, rq_callback = Some (UserReplyCb f)\<rparr>"
  let ?t1 = "?t\<lparr>mqtt := c, reply_list := [(node, ?r)]\<rparr>"
  have s: "c_string (token_bytes token) = Some token" by (rule token_bytes_string [OF tok(4,3)])
  have answer: "\<exists>t2. on_template_downstream_topic_handler sim_os m ?t1 = Some t2 \<and> reply_list t2 = [] \<and>
      calls t2 = calls t @ [ReplyCall f REPORT (if code = 0 then ACK_ACCEPTED else ACK_REJECTED) (rcv_buf_of reply) ?r]"
    if "carries m reply" "message_doc reply ty token" "ty \<noteq> cstr ''control''" "ty \<noteq> cstr ''get_status_reply''"
      "json_read reply (cstr ''code'') = Some (Some (dec_int code))" "- (2 ^ 31) \<le> code" "code < 2 ^ 31" for m reply ty code
    using reply_settles [of sim_os m reply ty token code ?t1] that s by (auto simp: reply_call_def)
  show ?thesis
    using a1(1) r t(5)
    by (intro exI [of _ a1] exI [of _ a2] exI [of _ ?t1] exI [of _ node] exI [of _ ?r]) (auto intro!: answer split del: if_split)
qed

section \<open>A template to look at\<close>

definition demo_template :: "sim client \<Rightarrow> (nat \<times> Request) list \<Rightarrow> sim Qcloud_IoT_Template" where
  "demo_template c l = \<lparr>token_num = 7, td_product_id = cstr ''PID'', mqtt = c, td_device_name = cstr ''dev'',
     tm_event_handle = \<lparr>h_fp = None, h_context = 0\<rparr>, usr_control_handle = None, sync_status = 0, reply_list = l,
     property_handle_list = [(4, 5, \<lparr>ph_property = 100, ph_callback = Some 31\<rparr>), (6, 7, \<lparr>ph_property = 200, ph_callback = Some 32\<rparr>)],
     action_handle_list = [(8, 9, \<lparr>ah_action = 300, ah_callback = Some 33\<rparr>)], downstream_topic = None, self_address = 1, template_cloud_rcv_buf = replicate 2049 0, template_clientToken = replicate 90 0,
     props = [100 \<mapsto> DeviceProperty (Some (cstr ''power'')) (Some (JINT32 5)), 200 \<mapsto> DeviceProperty (Some (cstr ''name'')) (Some (JSTRING (cstr ''x'') 8))],
     actions = [300 \<mapsto> \<lparr>pActionId = cstr ''blink'', act_timestamp = 0, pInput = [DeviceProperty (Some (cstr ''n'')) (Some (JINT32 0))],
       pOutput = Some [DeviceProperty (Some (cstr ''done'')) (Some (JBOOL True))]\<rparr>], acks = Map.empty, calls = [], libc = \<lparr>scan_float = (\<lambda>s. None), scan_double = (\<lambda>s. None)\<rparr>\<rparr>"

lemma demo_template_fields [simp]:
  "mqtt (demo_template c l) = c" "reply_list (demo_template c l) = l" "calls (demo_template c l) = []" "usr_control_handle (demo_template c l) = None"
  "template_cloud_rcv_buf (demo_template c l) = replicate 2049 0" "token_num (demo_template c l) = 7" "td_product_id (demo_template c l) = cstr ''PID''"
  "td_device_name (demo_template c l) = cstr ''dev''" "sync_status (demo_template c l) = 0"
  by (simp_all add: demo_template_def)

lemma demo_template_inv:
  "client_inv sim_os c \<Longrightarrow> length l \<le> 10 \<Longrightarrow> \<forall>(a, r) \<in> set l. request_ok r \<Longrightarrow> template_inv sim_os (demo_template c l)"
  by (simp add: template_inv_def demo_template_def handler_ok_def action_ok_def)

definition demo_message :: "cstring \<Rightarrow> MQTTMessage" where
  "demo_message doc = \<lparr>msg_qos = 0, msg_retained = 0, msg_dup = 0, msg_id = None, msg_topic = [97], msg_topic_len = 1, msg_buf = doc @ [0],
     msg_payload = 0, msg_payload_len = of_nat (length doc)\<rparr>"

lemma demo_carries: "0 \<notin> set doc \<Longrightarrow> length doc < 2049 \<Longrightarrow> carries (demo_message doc) doc"
  by (simp add: carries_def demo_message_def buf_read_def unat_of_nat)

definition demo_reply :: cstring where
  "demo_reply = cstr ''{\"method\":\"report_reply\",\"clientToken\":\"PID-7\",\"code\":0}''"

lemma demo_report_side:
  fixes t :: "sim Qcloud_IoT_Template"
  defines "t \<equiv> demo_template (demo_client [] []) []"
  shows "template_inv sim_os t" "is_connected (mqtt t)" "sim_ms (world (mqtt t)) < 2 ^ 60" "sync_status t \<ge> 0"
    "reply_list t = []" "length (list_pub_wait_ack (mqtt t)) < MAX_REPUB_NUM"
    "plain (td_product_id t)" "length (td_product_id t) \<le> 10" "length (td_device_name t) \<le> 48"
    "\<forall>p \<in> set demo_props. node_ok p" "list_all2 means demo_props demo_members" "demo_props \<noteq> []" "length demo_props \<le> 127" "json_ok (JObj demo_members)"
    "256 \<le> length (replicate 256 (0 :: u8))" "110 \<le> length (replicate 256 (0 :: u8))" "(256 :: nat) < 2 ^ 63"
    "length (request_text REPORT (client_token (token_num t) (td_product_id t)) demo_members) + 40 < 256"
    "length (request_text REPORT (client_token (token_num t) (td_product_id t)) demo_members) \<le> 1900" "(0 :: nat) < 1000"
proof -
  have token: "client_token (token_num t) (td_product_id t) = cstr ''PID-7''" by (simp add: t_def client_token_def dec_nat.simps cstr_def)
  have params: "json_text (JObj demo_members) = cstr ''{\"power\":5,\"pos\":{\"x\":-1}}''" by (simp add: demo_members_def cstr_def)
  show room: "length (request_text REPORT (client_token (token_num t) (td_product_id t)) demo_members) + 40 < 256"
    unfolding token request_text_def params by (simp add: method_str_def cstr_def)
  then show "length (request_text REPORT (client_token (token_num t) (td_product_id t)) demo_members) \<le> 1900" by simp
qed (use demo_template_inv [of "demo_client [] []" "[]"] demo_node_ok demo_means in \<open>simp_all add: t_def plain_def cstr_def demo_props_def\<close>)

lemma demo_reply_message:
  shows "carries (demo_message demo_reply) demo_reply" and "message_doc demo_reply (cstr ''report_reply'') (cstr ''PID-7'')"
    and "json_read demo_reply (cstr ''code'') = Some (Some (dec_int 0))" and "cstr ''report_reply'' \<notin> {cstr ''control'', cstr ''get_status_reply''}"
    and "client_token 7 (cstr ''PID'') = cstr ''PID-7''"
proof -
  let ?kvs = "[(cstr ''method'', JStr (cstr ''report_reply'')), (cstr ''clientToken'', JStr (cstr ''PID-7'')), (cstr ''code'', JNum (cstr ''0''))]"
  have doc: "json_text (JObj ?kvs) = demo_reply" by (simp add: cstr_def demo_reply_def)
  have ok: "json_ok (JObj ?kvs)" "distinct (map fst ?kvs)" by (simp_all add: cstr_def plain_def is_digit_def)
  show "message_doc demo_reply (cstr ''report_reply'') (cstr ''PID-7'')" "json_read demo_reply (cstr ''code'') = Some (Some (dec_int 0))"
    using read_member [OF ok, of "cstr ''method''" "JStr (cstr ''report_reply'')"] read_member [OF ok, of "cstr ''clientToken''" "JStr (cstr ''PID-7'')"]
      read_member [OF ok, of "cstr ''code''" "JNum (cstr ''0'')"]
    unfolding doc message_doc_def by (simp_all add: json_content_def dec_int_def dec_nat.simps cstr_def)
  show "carries (demo_message demo_reply) demo_reply" by (rule demo_carries) (simp_all add: cstr_def demo_reply_def)
qed (simp_all add: client_token_def dec_nat.simps cstr_def)

lemma demo_report_run:
  "\<exists>a1 a2 t1 t2 node r. IOT_Template_JSON_ConstructReportArray (Some (demo_template (demo_client [] []) [])) (Some (replicate 256 0)) 256 2 (Some (map Some demo_props)) =
       Some (QCLOUD_RET_SUCCESS, Some ((demo_template (demo_client [] []) [])\<lparr>token_num := 8\<rparr>), Some a1) \<and>
     IOT_Template_Report sim_os (Some a1) 256 (Some (UserReplyCb 9)) 0 1000 ((demo_template (demo_client [] []) [])\<lparr>token_num := 8\<rparr>) = Some (QCLOUD_RET_SUCCESS, Some a2, t1) \<and>
     reply_list t1 = [(node, r)] \<and> on_template_downstream_topic_handler sim_os (demo_message demo_reply) t1 = Some t2 \<and>
     reply_list t2 = [] \<and> calls t2 = [ReplyCall 9 REPORT ACK_ACCEPTED (rcv_buf_of demo_reply) r]"
proof -
  let ?t = "demo_template (demo_client [] []) []"
  have token: "client_token (token_num ?t) (td_product_id ?t) = cstr ''PID-7''" by (simp add: demo_reply_message(5))
  obtain a1 a2 t1 node r where R: "IOT_Template_JSON_ConstructReportArray (Some ?t) (Some (replicate 256 0)) 256 (length demo_props) (Some (map Some demo_props)) =
       Some (QCLOUD_RET_SUCCESS, Some (?t\<lparr>token_num := token_num ?t + 1\<rparr>), Some a1)"
     "IOT_Template_Report sim_os (Some a1) 256 (Some (UserReplyCb 9)) 0 1000 (?t\<lparr>token_num := token_num ?t + 1\<rparr>) = Some (QCLOUD_RET_SUCCESS, Some a2, t1)"
     "reply_list t1 = [(node, r)]"
    and answer: "\<And>m reply ty code. carries m reply \<and> message_doc reply ty (client_token (token_num ?t) (td_product_id ?t)) \<and>
        ty \<notin> {cstr ''control'', cstr ''get_status_reply''} \<and> json_read reply (cstr ''code'') = Some (Some (dec_int code)) \<and> - (2 ^ 31) \<le> code \<and> code < 2 ^ 31 \<Longrightarrow>
        \<exists>t2. on_template_downstream_topic_handler sim_os m t1 = Some t2 \<and> reply_list t2 = [] \<and>
           calls t2 = calls ?t @ [ReplyCall 9 REPORT (if code = 0 then ACK_ACCEPTED else ACK_REJECTED) (rcv_buf_of reply) r]"
    using report_settled [OF demo_report_side, of 9 0] by blast
  have "\<exists>t2. on_template_downstream_topic_handler sim_os (demo_message demo_reply) t1 = Some t2 \<and> reply_list t2 = [] \<and>
      calls t2 = [ReplyCall 9 REPORT ACK_ACCEPTED (rcv_buf_of demo_reply) r]"
    using answer [of "demo_message demo_reply" demo_reply "cstr ''report_reply''" 0] demo_reply_message(1-4) unfolding token by auto
  moreover have "token_num ?t + 1 = 8" "length demo_props = 2" by (simp_all add: demo_props_def)
  ultimately show ?thesis using R by metis
qed

section \<open>Properties\<close>

text \<open>
  C5: Whatever the application does with a data template, whatever the cloud sends and in whatever order the two
  interleave: at most ten requests wait for a reply, each with a token of 90 bytes and someone to tell; the receive buffer keeps its
  size and its terminating zero; every registered property exists with its key and data; and the MQTT client
  stays well-formed.
\<close>

theorem template_stays_well_formed:
  assumes "kernel_ok os"
    and "template_inv os t \<or> (\<exists>params start t0. IOT_Template_Construct os params start t0 = Some (Inr t) \<and>
       (\<forall>c. start = Inl c \<longrightarrow> client_inv os c) \<and> length (template_cloud_rcv_buf t0) = 2049 \<and> 0 \<in> set (template_cloud_rcv_buf t0) \<and>
       length (template_clientToken t0) = 90)"
    and "(template_step os)\<^sup>*\<^sup>* t t'"
  shows "template_inv os t'"
proof -
  have "template_inv os t \<or> template_started os t" using assms(2) by (auto simp: template_started_def)
  then show ?thesis using template.run_inv [OF assms(3,1)] template.reachable_inv [OF assms(1) _ assms(3)] by blast
qed

theorem template_stays_well_formed_witness:
  "\<exists>t1 t2 node r. (template_step sim_os)\<^sup>*\<^sup>* (demo_template (demo_client [] []) []) t1 \<and> reply_list t1 = [(node, r)] \<and>
     template_step sim_os t1 t2 \<and> reply_list t2 = [] \<and> calls t2 = [ReplyCall 9 REPORT ACK_ACCEPTED (rcv_buf_of demo_reply) r] \<and>
     template_inv sim_os t1 \<and> template_inv sim_os t2"
proof -
  let ?t = "demo_template (demo_client [] []) []"
  obtain a1 a2 t1 t2 node r where r: "IOT_Template_JSON_ConstructReportArray (Some ?t) (Some (replicate 256 0)) 256 2 (Some (map Some demo_props)) =
       Some (QCLOUD_RET_SUCCESS, Some (?t\<lparr>token_num := 8\<rparr>), Some a1)"
     "IOT_Template_Report sim_os (Some a1) 256 (Some (UserReplyCb 9)) 0 1000 (?t\<lparr>token_num := 8\<rparr>) = Some (QCLOUD_RET_SUCCESS, Some a2, t1)"
     "reply_list t1 = [(node, r)]" "on_template_downstream_topic_handler sim_os (demo_message demo_reply) t1 = Some t2"
     "reply_list t2 = []" "calls t2 = [ReplyCall 9 REPORT ACK_ACCEPTED (rcv_buf_of demo_reply) r]"
    using demo_report_run by blast
  have "template_step sim_os (?t\<lparr>token_num := 8\<rparr>) t1" using ts_report r(2) unfolding IOT_Template_Report_def by blast
  then have run1: "(template_step sim_os)\<^sup>*\<^sup>* ?t t1"
    using ts_construct_report [OF r(1)] by (blast intro: converse_rtranclp_into_rtranclp)
  have step: "template_step sim_os t1 t2"
    by (rule ts_callback [where cb = "MessageCb on_template_downstream_fp (demo_message demo_reply) (self_address t1)"]) (simp add: run_callback_def r(4))
  have inv: "template_inv sim_os ?t" by (rule demo_template_inv) simp_all
  have "template_inv sim_os t1" using template_stays_well_formed [OF _ disjI1 [OF inv] run1] by simp
  moreover have "template_inv sim_os t2"
    using template_stays_well_formed [OF _ disjI1 [OF inv] rtranclp.rtrancl_into_rtrancl [OF run1 step]] by simp
  ultimately show ?thesis using run1 step r(3,5,6) by blast
qed

text \<open>
  C4: No request waits for ever. At the beginning of every yield, exactly the requests whose time has passed are taken off the
  list, and the function of each one is called once with \<^verbatim>\<open>ACK_TIMEOUT\<close>; the others stay. Every look at the clock takes a millisecond here, so that
  deadlines within the next ten are left open.
\<close>

theorem requests_expire:
  fixes t :: "sim Qcloud_IoT_Template"
  assumes "distinct (map fst (reply_list t))" and "length (reply_list t) \<le> 10"
    and "\<forall>(a, r) \<in> set (reply_list t). (\<exists>f. rq_callback r = Some (UserReplyCb f)) \<and> sim_deadline (rq_timer r) (dl r) \<and>
      (dl r \<le> sim_ms (world (mqtt t)) \<or> sim_ms (world (mqtt t)) + 10 < dl r)"
  shows "\<exists>t'. handle_template_expired_reply sim_os t = Some t' \<and>
     reply_list t' = filter (\<lambda>(a, r). sim_ms (world (mqtt t)) < dl r) (reply_list t) \<and>
     calls t' = calls t @ map (\<lambda>(a, r). reply_call ACK_TIMEOUT (template_cloud_rcv_buf t) r)
       (rev (filter (\<lambda>(a, r). dl r \<le> sim_ms (world (mqtt t))) (reply_list t)))"
  using expired_requests_told [of t dl] assms by (fastforce simp: case_prod_beta')

definition demo_request :: "nat \<Rightarrow> cstring \<Rightarrow> Request" where
  "demo_request s tok = \<lparr>rq_client_token = token_bytes tok, rq_method = REPORT, rq_user_context = 0,
     rq_timer = \<lparr>end_time = \<lparr>tv_sec = int s, tv_usec = 0\<rparr>\<rparr>, rq_callback = Some (UserReplyCb 9)\<rparr>"

theorem requests_expire_witness:
  "\<exists>t'. handle_template_expired_reply sim_os (demo_template (demo_client [] []) [(21, demo_request 0 (cstr ''a'')), (22, demo_request 3 (cstr ''b''))]) = Some t' \<and>
     reply_list t' = [(22, demo_request 3 (cstr ''b''))] \<and>
     calls t' = [ReplyCall 9 REPORT ACK_TIMEOUT (replicate 2049 0) (demo_request 0 (cstr ''a''))]"
proof -
  let ?t = "demo_template (demo_client [] []) [(21, demo_request 0 (cstr ''a'')), (22, demo_request 3 (cstr ''b''))]"
  let ?dl = "\<lambda>r. nat (tv_sec (end_time (rq_timer r))) * 1000"
  have dl: "sim_deadline (rq_timer (demo_request s x)) (?dl (demo_request s x))" for s x
    by (simp add: demo_request_def sim_deadline_def tv_norm_def tv_us_def)
  moreover have "tv_sec (end_time (rq_timer (demo_request s x))) = int s" "reply_call ACK_TIMEOUT b (demo_request s x) = ReplyCall 9 REPORT ACK_TIMEOUT b (demo_request s x)"
    "rq_callback (demo_request s x) = Some (UserReplyCb 9)" for s x b
    by (simp_all add: demo_request_def reply_call_def)
  ultimately show ?thesis using requests_expire [of ?t ?dl] dl [of 0 "cstr ''a''"] dl [of 3 "cstr ''b''"] by simp
qed

text \<open>
  C2: A report is answered exactly once. Constructing a report from properties and sending it puts the PUBLISH packet with the
  JSON document on the wire; the request then waits with its token. When a message of the cloud with this token and a
  code comes in, the request is taken off the list and the function of the application is called once: with
  \<^verbatim>\<open>ACK_ACCEPTED\<close> if the code is 0, with \<^verbatim>\<open>ACK_REJECTED\<close> otherwise.
\<close>

theorem report_is_answered:
  fixes t :: "sim Qcloud_IoT_Template" and kvs :: "(cstring \<times> json) list"
  defines "token \<equiv> client_token (token_num t) (td_product_id t)"
  assumes t: "template_inv sim_os t" "is_connected (mqtt t)" "sim_ms (world (mqtt t)) < 2 ^ 60" "sync_status t \<ge> 0"
      "reply_list t = []" "length (list_pub_wait_ack (mqtt t)) < MAX_REPUB_NUM"
    and pid: "plain (td_product_id t)" "length (td_product_id t) \<le> 10" "length (td_device_name t) \<le> 48"
    and ps: "\<forall>p \<in> set ps. node_ok p" "list_all2 means ps kvs" "ps \<noteq> []" "length ps \<le> 127" "json_ok (JObj kvs)"
    and a: "n \<le> length a" "110 \<le> length a" "n < 2 ^ 63" "length (request_text REPORT token kvs) + 40 < n" "length (request_text REPORT token kvs) \<le> 1900"
    and ms: "0 < ms"
  shows "\<exists>a1 a2 t1 node r. IOT_Template_JSON_ConstructReportArray (Some t) (Some a) n (length ps) (Some (map Some ps)) =
       Some (QCLOUD_RET_SUCCESS, Some (t\<lparr>token_num := token_num t + 1\<rparr>), Some a1) \<and>
     IOT_Template_Report sim_os (Some a1) n (Some (UserReplyCb f)) ctx ms (t\<lparr>token_num := token_num t + 1\<rparr>) = Some (QCLOUD_RET_SUCCESS, Some a2, t1) \<and>
     sim_out (world (mqtt t1)) = sim_out (world (mqtt t)) @
       packet_bytes 0x30 (publish_body QOS0 0 (thing_topic ''$thing/up/property/'' t) (request_text REPORT token kvs)) \<and>
     reply_list t1 = [(node, r)] \<and> rq_user_context r = ctx \<and> calls t1 = calls t \<and>
     (\<forall>m reply ty code. carries m reply \<and> message_doc reply ty token \<and> ty \<notin> {cstr ''control'', cstr ''get_status_reply''} \<and>
        json_read reply (cstr ''code'') = Some (Some (dec_int code)) \<and> - (2 ^ 31) \<le> code \<and> code < 2 ^ 31 \<longrightarrow>
        (\<exists>t2. on_template_downstream_topic_handler sim_os m t1 = Some t2 \<and> reply_list t2 = [] \<and>
           calls t2 = calls t @ [ReplyCall f REPORT (if code = 0 then ACK_ACCEPTED else ACK_REJECTED) (rcv_buf_of reply) r]))"
  using assms unfolding token_def by (intro report_settled) simp_all

text \<open>
  C3: A control message sets exactly the registered properties that it names. Given the JSON text of an object of new
  values, every property whose key is in it has the new value afterwards (integers, floating-point numbers that the C library reads
  back as it prints them, truth values, strings and arrays shorter than the arrays behind them, structures of any
  depth), every other one is unchanged; the callbacks of the named ones are called, each once, with the text; requests that wait are not
  touched. The application has set no handler for whole control messages (\<^verbatim>\<open>usr_control_handle\<close>), which would get the message instead.
\<close>

theorem control_sets_properties:
  fixes t :: "'w Qcloud_IoT_Template"
  assumes "\<forall>w. fst (os_malloc os w) \<noteq> None" and "carries m doc" and "message_doc doc (cstr ''control'') token"
    and "json_read doc (cstr ''params'') = Some (Some (json_text (JObj kvs)))" and "json_ok (JObj kvs)" and "distinct (map fst kvs)"
    and "usr_control_handle t = None" and "distinct (property_addrs (property_handle_list t))"
    and "\<forall>a \<in> set (property_addrs (property_handle_list t)). \<exists>p. props t a = Some p \<and> controlled (libc t) kvs p (new a)"
  shows "\<exists>t'. on_template_downstream_topic_handler os m t = Some t' \<and>
     props t' = (\<lambda>a. if a \<in> set (property_addrs (property_handle_list t)) then Some (new a) else props t a) \<and>
     calls t' = calls t @ property_calls kvs new (rev (property_handle_list t)) \<and>
     reply_list t' = reply_list t \<and> template_clientToken t' = token_bytes token"
  by (rule control_message_sets [OF assms])

theorem report_is_answered_witness:
  "\<exists>a1 a2 t1 t2 node r. IOT_Template_JSON_ConstructReportArray (Some (demo_template (demo_client [] []) [])) (Some (replicate 256 0)) 256 2 (Some (map Some demo_props)) =
       Some (QCLOUD_RET_SUCCESS, Some ((demo_template (demo_client [] []) [])\<lparr>token_num := 8\<rparr>), Some a1) \<and>
     IOT_Template_Report sim_os (Some a1) 256 (Some (UserReplyCb 9)) 0 1000 ((demo_template (demo_client [] []) [])\<lparr>token_num := 8\<rparr>) = Some (QCLOUD_RET_SUCCESS, Some a2, t1) \<and>
     reply_list t1 = [(node, r)] \<and> on_template_downstream_topic_handler sim_os (demo_message demo_reply) t1 = Some t2 \<and>
     reply_list t2 = [] \<and> calls t2 = [ReplyCall 9 REPORT ACK_ACCEPTED (rcv_buf_of demo_reply) r]"
proof -
  let ?t = "demo_template (demo_client [] []) []"
  have token: "client_token (token_num ?t) (td_product_id ?t) = cstr ''PID-7''" by (simp add: demo_reply_message(5))
  obtain a1 a2 t1 node r where R: "IOT_Template_JSON_ConstructReportArray (Some ?t) (Some (replicate 256 0)) 256 (length demo_props) (Some (map Some demo_props)) =
       Some (QCLOUD_RET_SUCCESS, Some (?t\<lparr>token_num := token_num ?t + 1\<rparr>), Some a1)"
     "IOT_Template_Report sim_os (Some a1) 256 (Some (UserReplyCb 9)) 0 1000 (?t\<lparr>token_num := token_num ?t + 1\<rparr>) = Some (QCLOUD_RET_SUCCESS, Some a2, t1)"
     "reply_list t1 = [(node, r)]"
    and answer: "\<And>m reply ty code. carries m reply \<and> message_doc reply ty (client_token (token_num ?t) (td_product_id ?t)) \<and>
        ty \<notin> {cstr ''control'', cstr ''get_status_reply''} \<and> json_read reply (cstr ''code'') = Some (Some (dec_int code)) \<and> - (2 ^ 31) \<le> code \<and> code < 2 ^ 31 \<Longrightarrow>
        \<exists>t2. on_template_downstream_topic_handler sim_os m t1 = Some t2 \<and> reply_list t2 = [] \<and>
           calls t2 = calls ?t @ [ReplyCall 9 REPORT (if code = 0 then ACK_ACCEPTED else ACK_REJECTED) (rcv_buf_of reply) r]"
    using report_is_answered [OF demo_report_side, of 9 0] by blast
  have "\<exists>t2. on_template_downstream_topic_handler sim_os (demo_message demo_reply) t1 = Some t2 \<and> reply_list t2 = [] \<and>
      calls t2 = [ReplyCall 9 REPORT ACK_ACCEPTED (rcv_buf_of demo_reply) r]"
    using answer [of "demo_message demo_reply" demo_reply "cstr ''report_reply''" 0] demo_reply_message(1-4) unfolding token by auto
  moreover have "token_num ?t + 1 = 8" "length demo_props = 2" by (simp_all add: demo_props_def)
  ultimately show ?thesis using R by metis
qed

definition demo_control :: cstring where
  "demo_control = cstr ''{\"method\":\"control\",\"clientToken\":\"c\",\"params\":{\"power\":12}}''"

abbreviation (input) demo_new_values :: "(cstring \<times> json) list" where
  "demo_new_values \<equiv> [(cstr ''power'', JNum (cstr ''12''))]"

definition demo_new :: "nat \<Rightarrow> DeviceProperty" where
  "demo_new a = (if a = 100 then DeviceProperty (Some (cstr ''power'')) (Some (JINT32 12)) else DeviceProperty (Some (cstr ''name'')) (Some (JSTRING (cstr ''x'') 8)))"

lemma demo_control_message:
  fixes t :: "sim Qcloud_IoT_Template"
  defines "t \<equiv> demo_template (demo_client [] []) []"
  shows "carries (demo_message demo_control) demo_control" and "message_doc demo_control (cstr ''control'') (cstr ''c'')"
    and "json_read demo_control (cstr ''params'') = Some (Some (json_text (JObj demo_new_values)))"
    and "json_ok (JObj demo_new_values)" and "distinct (map fst demo_new_values)"
    and "property_handle_list t = [(4, 5, \<lparr>ph_property = 100, ph_callback = Some 31\<rparr>), (6, 7, \<lparr>ph_property = 200, ph_callback = Some 32\<rparr>)]"
    and "\<forall>a \<in> set (property_addrs (property_handle_list t)). \<exists>p. props t a = Some p \<and> controlled (libc t) demo_new_values p (demo_new a)"
    and "props t 100 = Some (DeviceProperty (Some (cstr ''power'')) (Some (JINT32 5)))"
proof -
  let ?kvs = "[(cstr ''method'', JStr (cstr ''control'')), (cstr ''clientToken'', JStr (cstr ''c'')), (cstr ''params'', JObj demo_new_values)]"
  have doc: "json_text (JObj ?kvs) = demo_control" by (simp add: cstr_def demo_control_def)
  have ok: "json_ok (JObj ?kvs)" "distinct (map fst ?kvs)" by (simp_all add: cstr_def plain_def is_digit_def)
  show "message_doc demo_control (cstr ''control'') (cstr ''c'')" "json_read demo_control (cstr ''params'') = Some (Some (json_text (JObj demo_new_values)))"
    using read_member [OF ok, of "cstr ''method''" "JStr (cstr ''control'')"] read_member [OF ok, of "cstr ''clientToken''" "JStr (cstr ''c'')"]
      read_member [OF ok, of "cstr ''params''" "JObj demo_new_values"]
    unfolding doc message_doc_def by (simp_all add: json_content_def cstr_def)
  show "carries (demo_message demo_control) demo_control" by (rule demo_carries) (simp_all add: cstr_def demo_control_def)
  show "json_ok (JObj demo_new_values)" "distinct (map fst demo_new_values)" by (simp_all add: cstr_def plain_def is_digit_def)
  show list: "property_handle_list t = [(4, 5, \<lparr>ph_property = 100, ph_callback = Some 31\<rparr>), (6, 7, \<lparr>ph_property = 200, ph_callback = Some 32\<rparr>)]"
    by (simp add: t_def demo_template_def)
  show old: "props t 100 = Some (DeviceProperty (Some (cstr ''power'')) (Some (JINT32 5)))" by (simp add: t_def demo_template_def)
  have "props t 200 = Some (DeviceProperty (Some (cstr ''name'')) (Some (JSTRING (cstr ''x'') 8)))" by (simp add: t_def demo_template_def)
  moreover have "controlled (libc t) demo_new_values (DeviceProperty (Some (cstr ''power'')) (Some (JINT32 5))) (demo_new 100)"
    by (simp add: demo_new_def controlled_def takes_over.simps means.simps object_nodes_def same_kind_def value_text_def format_json_buffer_def dec_int_def dec_nat.simps cstr_def)
  moreover have "controlled (libc t) demo_new_values (DeviceProperty (Some (cstr ''name'')) (Some (JSTRING (cstr ''x'') 8))) (demo_new 200)"
    by (simp add: demo_new_def controlled_def cstr_def)
  ultimately show "\<forall>a \<in> set (property_addrs (property_handle_list t)). \<exists>p. props t a = Some p \<and> controlled (libc t) demo_new_values p (demo_new a)"
    using old by (simp add: list property_addrs_def)
qed

theorem control_sets_properties_witness:
  "\<exists>t'. on_template_downstream_topic_handler sim_os (demo_message demo_control) (demo_template (demo_client [] []) []) = Some t' \<and>
     props t' 100 = Some (DeviceProperty (Some (cstr ''power'')) (Some (JINT32 12))) \<and>
     props t' 200 = Some (DeviceProperty (Some (cstr ''name'')) (Some (JSTRING (cstr ''x'') 8))) \<and>
     calls t' = [PropertyCall 31 (cstr ''{\"power\":12}'') 100]"
proof -
  let ?t = "demo_template (demo_client [] []) []"
  note demo = demo_control_message(1-5) demo_control_message(7)
  have addrs: "property_addrs (property_handle_list ?t) = [100, 200]" by (simp add: demo_control_message(6) property_addrs_def)
  have calls: "property_calls demo_new_values demo_new (rev (property_handle_list ?t)) = [PropertyCall 31 (cstr ''{\"power\":12}'') 100]"
    unfolding demo_control_message(6) by (simp add: property_calls_def demo_new_def cstr_def)
  have mem: "\<forall>w. fst (os_malloc sim_os w) \<noteq> None" and n: "usr_control_handle ?t = None" by simp_all
  have d: "distinct (property_addrs (property_handle_list ?t))" unfolding addrs by simp
  obtain t' where "on_template_downstream_topic_handler sim_os (demo_message demo_control) ?t = Some t'"
    "props t' = (\<lambda>a. if a \<in> set (property_addrs (property_handle_list ?t)) then Some (demo_new a) else props ?t a)"
    "calls t' = calls ?t @ property_calls demo_new_values demo_new (rev (property_handle_list ?t))"
    using control_sets_properties [OF mem demo(1-5) n d demo(6)] by blast
  then show ?thesis unfolding addrs calls by (simp add: demo_new_def)
qed




text \<open>
  Registering a property does not find the one that is registered already, and unregistering finds none. The search
  compares the address of the property with the addresses of the handlers: the same property can be registered any number of times, its
  callback then runs as often, and it can never be taken off the list again.
\<close>

lemma properties_cannot_be_unregistered:
  fixes t :: "'w Qcloud_IoT_Template"
  assumes "is_connected (mqtt t)" and "p \<noteq> 0" and "props t p = Some (DeviceProperty (Some k) (Some v))"
    and "\<forall>(n, a, h) \<in> set (property_handle_list t). a \<noteq> p" and "\<forall>w. fst (os_malloc os w) \<notin> {None, Some p}"
  shows "\<exists>t1 t2 t3. IOT_Template_Register_Property os p cb t = Some (QCLOUD_RET_SUCCESS, t1) \<and>
     IOT_Template_Register_Property os p cb t1 = Some (QCLOUD_RET_SUCCESS, t2) \<and>
     IOT_Template_UnRegister_Property os p t2 = (QCLOUD_ERR_NOT_PROPERTY_EXIST, t3) \<and>
     map (snd \<circ> snd) (property_handle_list t3) =
       map (snd \<circ> snd) (property_handle_list t) @ [\<lparr>ph_property = p, ph_callback = cb\<rparr>, \<lparr>ph_property = p, ph_callback = cb\<rparr>]"
proof -
  let ?ok = "\<lambda>t :: 'w Qcloud_IoT_Template. is_connected (mqtt t) \<and> props t p = Some (DeviceProperty (Some k) (Some v)) \<and> (\<forall>(n, a, h) \<in> set (property_handle_list t). a \<noteq> p)"
  let ?h = "\<lparr>ph_property = p, ph_callback = cb\<rparr>"
  have alloc: "\<exists>i w'. HAL_Malloc os c = (Some i, c\<lparr>world := w'\<rparr>) \<and> i \<noteq> p" for c
    using assms(5) [rule_format, of "world c"] by (cases "os_malloc os (world c)") (auto simp: HAL_Malloc_def)
  have search: "\<exists>w. find_property os p t = (None, t\<lparr>mqtt := (mqtt t)\<lparr>world := w\<rparr>\<rparr>)" if "?ok t" for t :: "'w Qcloud_IoT_Template"
    using alloc [of "mqtt t"] that by (auto simp: find_property_def find_None_iff)
  have register: "\<exists>t1. IOT_Template_Register_Property os p cb t = Some (QCLOUD_RET_SUCCESS, t1) \<and> ?ok t1 \<and>
      map (snd \<circ> snd) (property_handle_list t1) = map (snd \<circ> snd) (property_handle_list t) @ [?h]" if ok: "?ok t" for t :: "'w Qcloud_IoT_Template"
  proof -
    obtain w where w: "find_property os p t = (None, t\<lparr>mqtt := (mqtt t)\<lparr>world := w\<rparr>\<rparr>)" using search [OF ok] by blast
    let ?c = "(mqtt t)\<lparr>world := w\<rparr>"
    obtain a w1 where a: "HAL_Malloc os ?c = (Some a, ?c\<lparr>world := w1\<rparr>)" "a \<noteq> p" using alloc by blast
    obtain n w2 where n: "HAL_Malloc os (?c\<lparr>world := w1\<rparr>) = (Some n, ?c\<lparr>world := w1\<rparr>\<lparr>world := w2\<rparr>)" using alloc by blast
    show ?thesis
      using ok assms(2) w a n by (auto simp: IOT_Template_Register_Property_def template_common_check_property_existence_def IOT_MQTT_IsConnected_def
        get_client_conn_state_def template_common_register_property_on_delta_def add_property_handle_to_template_list_def nodes_rpush_def)
  qed
  obtain t1 where t1: "IOT_Template_Register_Property os p cb t = Some (QCLOUD_RET_SUCCESS, t1)" "?ok t1"
    "map (snd \<circ> snd) (property_handle_list t1) = map (snd \<circ> snd) (property_handle_list t) @ [?h]"
    using register [of t] assms(1,3,4) by blast
  obtain t2 where t2: "IOT_Template_Register_Property os p cb t1 = Some (QCLOUD_RET_SUCCESS, t2)" "?ok t2"
    "map (snd \<circ> snd) (property_handle_list t2) = map (snd \<circ> snd) (property_handle_list t1) @ [?h]"
    using register [OF t1(2)] by blast
  obtain w where w: "find_property os p t2 = (None, t2\<lparr>mqtt := (mqtt t2)\<lparr>world := w\<rparr>\<rparr>)" using search [OF t2(2)] by blast
  have "IOT_Template_UnRegister_Property os p t2 = (QCLOUD_ERR_NOT_PROPERTY_EXIST, t2\<lparr>mqtt := (mqtt t2)\<lparr>world := w\<rparr>\<rparr>)"
    using t2(2) w by (simp add: IOT_Template_UnRegister_Property_def template_common_check_property_existence_def IOT_MQTT_IsConnected_def get_client_conn_state_def)
  then show ?thesis using t1 t2 by auto
qed

text \<open>The application's variables lie below the heap.\<close>

definition high_os :: "sim os" where
  "high_os = sim_os\<lparr>os_malloc := (\<lambda>w. (Some (1000 + sim_next w), w\<lparr>sim_next := sim_next w + 1\<rparr>))\<rparr>"

end
