(* ===== verification/Dt_Calls.thy ===== *)
theory Dt_Calls
  imports Dt_Properties
begin

text \<open>
  What the actions of the data template (\<^verbatim>\<open>Dt_Action\<close>) do: a message of the cloud runs the registered actions of its name with the
  inputs that it carries, and the reader finds in the reply what the device put there.
\<close>

section \<open>Calls of actions\<close>

text \<open>
  An input that a message sets: a new value of its type for a scalar or a string. Arrays and doubles are not read.
\<close>

definition input_takes :: "float_io \<Rightarrow> (cstring \<times> json) list \<Rightarrow> DeviceProperty \<Rightarrow> DeviceProperty \<Rightarrow> bool" where
  "input_takes fl kvs p p' \<longleftrightarrow> (\<exists>k v v' kv. p = DeviceProperty (Some k) (Some v) \<and> p' = DeviceProperty (Some k) (Some v') \<and> chr_dot \<notin> set k \<and>
     same_kind fl v v' \<and> (\<forall>s len. v \<noteq> JARRAY s len) \<and> (\<forall>s. v \<noteq> JDOUBLE s) \<and> kv \<in> set kvs \<and> means p' kv)"

lemma read_input_content:
  assumes "same_kind fl v v'" and "\<forall>s len. v \<noteq> JARRAY s len" and "\<forall>s. v \<noteq> JDOUBLE s"
  shows "read_input fl (value_content v') v = Some (True, v')"
  using assms update_scalar_content(2) [OF assms(1)]
  by (cases v'; cases v) (auto simp: same_kind_def read_input_def value_content_def)

lemma read_action_inputs:
  assumes mem: "\<And>w. fst (os_malloc os w) \<noteq> None" and kvs: "json_ok (JObj kvs)" "distinct (map fst kvs)"
  shows "list_all2 (input_takes fl kvs) ps ps' \<Longrightarrow> \<exists>w'. read_action_input fl os (json_text (JObj kvs)) ps w = Some (True, ps', w')"
proof (induction ps ps' arbitrary: w rule: list_all2_induct)
  case (Cons p ps p' ps')
  then obtain k v v' kv where p: "p = DeviceProperty (Some k) (Some v)" "p' = DeviceProperty (Some k) (Some v')" "chr_dot \<notin> set k"
    and v: "same_kind fl v v'" "\<forall>s len. v \<noteq> JARRAY s len" "\<forall>s. v \<noteq> JDOUBLE s" and kv: "kv \<in> set kvs" "means p' kv"
    by (auto simp: input_takes_def)
  obtain j where j: "kv = (k, j)" using kv(2) p(2) by (cases kv) (auto dest: means_key)
  have ok: "json_ok j" using kvs(1) kv(1) by (auto simp: j)
  have none: "object_nodes (Some v') = None" using v(1) by (cases v'; cases v) (auto simp: same_kind_def object_nodes_def)
  have content: "json_content j = value_content v'"
    using kv(2) none by (intro scalar_content [OF v(1) _ ok]) (simp add: j p(2) means.simps)
  then have ne: "json_content j \<noteq> []" using update_scalar_content(1) [OF v(1)] by simp
  have "json_read (json_text (JObj kvs)) k = Some (Some (value_content v'))"
    using read_member [OF kvs _ ne, of k] kv(1) by (simp add: j content)
  then obtain w1 where w1: "LITE_json_value_of os k (json_text (JObj kvs)) w = Some (Some (value_content v'), w1)"
    using value_of_key [OF p(3) _ mem] by blast
  obtain w2 where "read_action_input fl os (json_text (JObj kvs)) ps w1 = Some (True, ps', w2)" using Cons.IH by blast
  then show ?case by (simp add: p w1 read_input_content [OF v] Let_def del: json_text.simps)
qed simp

text \<open>The list of handlers, the actions of this name with their new inputs, and the calls.\<close>

definition action_addrs :: "(nat \<times> nat \<times> ActionHandler) list \<Rightarrow> nat list" where
  "action_addrs nodes = map (\<lambda>(a, v, h). ah_action h) nodes"

definition called :: "cstring \<Rightarrow> 32 word \<Rightarrow> (nat \<Rightarrow> DeviceProperty list) \<Rightarrow> nat \<Rightarrow> DeviceAction \<Rightarrow> DeviceAction" where
  "called i ts new a x = (if pActionId x = i then x\<lparr>pInput := new a, act_timestamp := ts\<rparr> else x)"

definition action_calls ::
  "cstring \<Rightarrow> cstring \<Rightarrow> 32 word \<Rightarrow> (nat \<Rightarrow> DeviceProperty list) \<Rightarrow> (nat \<rightharpoonup> DeviceAction) \<Rightarrow> (nat \<times> nat \<times> ActionHandler) list \<Rightarrow> template_call list" where
  "action_calls token i ts new as nodes = concat (map (\<lambda>(a, v, h).
     case (as (ah_action h), ah_callback h) of
       (Some x, Some f) \<Rightarrow> if pActionId x = i then [ActionCall f token (ah_action h) (called i ts new (ah_action h) x)] else []
     | _ \<Rightarrow> []) nodes)"

lemma run_action_calls:
  assumes mem: "\<And>w. fst (os_malloc os w) \<noteq> None" and kvs: "json_ok (JObj kvs)" "distinct (map fst kvs)"
    and x: "actions t (ah_action h) = Some x" "ah_callback h = Some f" "pActionId x = i \<Longrightarrow> list_all2 (input_takes (libc t) kvs) (pInput x) (new (ah_action h))"
  shows "\<exists>c. run_action os token i ts (json_text (JObj kvs)) h t = Some (t\<lparr>mqtt := c, actions := (actions t)(ah_action h \<mapsto> called i ts new (ah_action h) x),
     calls := calls t @ action_calls token i ts new (actions t) [(a, v, h)]\<rparr>)"
proof (cases "pActionId x = i")
  case True
  obtain w where "read_action_input (libc t) os (json_text (JObj kvs)) (pInput x) (world (mqtt t)) = Some (True, new (ah_action h), w)"
    using read_action_inputs [OF mem kvs x(3) [OF True]] by blast
  with True x(1,2) show ?thesis
    by (auto simp: run_action_def Let_def called_def action_calls_def call_user_def with_world_def simp del: json_text.simps)
next
  case False
  have "t = t\<lparr>mqtt := mqtt t, actions := (actions t)(ah_action h \<mapsto> x), calls := calls t\<rparr>" using x(1) by (simp add: fun_upd_idem)
  with False x(1,2) show ?thesis by (auto simp: run_action_def called_def action_calls_def intro!: exI [of _ "mqtt t"])
qed

lemma action_loop_calls:
  assumes mem: "\<And>w. fst (os_malloc os w) \<noteq> None" and kvs: "json_ok (JObj kvs)" "distinct (map fst kvs)"
  shows "distinct (action_addrs nodes) \<Longrightarrow> (\<And>n v h. (n, v, h) \<in> set nodes \<Longrightarrow> ah_callback h \<noteq> None \<and> (\<exists>x. actions t (ah_action h) = Some x \<and>
       (pActionId x = i \<longrightarrow> list_all2 (input_takes (libc t) kvs) (pInput x) (new (ah_action h))))) \<Longrightarrow>
     \<exists>c. action_loop os token i ts (json_text (JObj kvs)) nodes t = Some (t\<lparr>mqtt := c,
       actions := (\<lambda>a. if a \<in> set (action_addrs nodes) then map_option (called i ts new a) (actions t a) else actions t a),
       calls := calls t @ action_calls token i ts new (actions t) nodes\<rparr>)"
proof (induction nodes arbitrary: t)
  case Nil
  have "t = t\<lparr>mqtt := mqtt t, actions := actions t, calls := calls t\<rparr>" by simp
  then show ?case by (auto simp: action_addrs_def action_calls_def intro!: exI [of _ "mqtt t"])
next
  case (Cons node nodes)
  obtain n v h where node: "node = (n, v, h)" by (cases node)
  let ?a = "ah_action h"
  have addrs: "action_addrs (node # nodes) = ?a # action_addrs nodes" by (simp add: action_addrs_def node)
  obtain x f where x: "actions t ?a = Some x" "pActionId x = i \<Longrightarrow> list_all2 (input_takes (libc t) kvs) (pInput x) (new ?a)" "ah_callback h = Some f"
    using Cons.prems(2) [of n v h] by (auto simp: node)
  obtain c1 where c1: "run_action os token i ts (json_text (JObj kvs)) h t = Some (t\<lparr>mqtt := c1, actions := (actions t)(?a \<mapsto> called i ts new ?a x),
      calls := calls t @ action_calls token i ts new (actions t) [node]\<rparr>)"
    using run_action_calls [OF mem kvs x(1,3), of i new token ts n v] x(2) by (auto simp: node simp del: json_text.simps)
  let ?t1 = "t\<lparr>mqtt := c1, actions := (actions t)(?a \<mapsto> called i ts new ?a x), calls := calls t @ action_calls token i ts new (actions t) [node]\<rparr>"
  have other: "ah_action h' \<noteq> ?a" if "(n', v', h') \<in> set nodes" for n' v' h'
    using Cons.prems(1) that by (auto simp: node action_addrs_def rev_image_eqI)
  have rest: "ah_callback h' \<noteq> None \<and> (\<exists>x. actions ?t1 (ah_action h') = Some x \<and> (pActionId x = i \<longrightarrow> list_all2 (input_takes (libc ?t1) kvs) (pInput x) (new (ah_action h'))))"
    if "(n', v', h') \<in> set nodes" for n' v' h'
    using Cons.prems(2) [of n' v' h'] other [OF that] that by simp
  have dist: "distinct (action_addrs nodes)" using Cons.prems(1) by (simp add: addrs)
  obtain c where c: "action_loop os token i ts (json_text (JObj kvs)) nodes ?t1 = Some (?t1\<lparr>mqtt := c,
       actions := (\<lambda>a. if a \<in> set (action_addrs nodes) then map_option (called i ts new a) (actions ?t1 a) else actions ?t1 a),
       calls := calls ?t1 @ action_calls token i ts new (actions ?t1) nodes\<rparr>)"
    by (rule exE [OF Cons.IH [OF dist rest]]) blast
  have same: "action_calls token i ts new (actions ?t1) nodes = action_calls token i ts new (actions t) nodes"
    unfolding action_calls_def using other by (intro arg_cong [where f = concat] map_cong) auto
  have fields: "(\<lambda>a. if a \<in> set (action_addrs nodes) then map_option (called i ts new a) (actions ?t1 a) else actions ?t1 a) =
      (\<lambda>a. if a \<in> set (action_addrs (node # nodes)) then map_option (called i ts new a) (actions t a) else actions t a)"
    using Cons.prems(1) x(1) by (auto simp: addrs fun_eq_iff)
  have "action_calls token i ts new (actions t) (node # nodes) = action_calls token i ts new (actions t) [node] @ action_calls token i ts new (actions t) nodes"
    by (simp add: action_calls_def)
  then show ?case using c c1 unfolding same fields by (auto simp: node simp del: json_text.simps)
qed

text \<open>The fields of the message; what the receive buffer holds behind the packet does not belong to it.\<close>

lemma with_field_value:
  assumes "chr_dot \<notin> set k" and "json_read doc k = Some (Some v)" and mem: "\<And>w. fst (os_malloc os w) \<noteq> None"
  shows "\<exists>w. with_field (LITE_json_value_of os k) doc t f = f v (with_world w t)"
  using value_of_key [OF assms(1,2) mem, of "world (mqtt t)"] by (auto simp: with_field_def)

lemma action_message:
  assumes mem: "\<And>w. fst (os_malloc os w) \<noteq> None" and s: "c_string (drop (msg_payload m) (msg_buf m)) = Some doc"
    and doc: "message_doc doc (cstr ''action'') token" "json_read doc (cstr ''actionId'') = Some (Some i)"
      "json_read doc (cstr ''timestamp'') = Some (Some (dec_int n))" "0 \<le> n" "n < 2 ^ 32" "json_read doc (cstr ''params'') = Some (Some ps)"
  shows "\<exists>w. on_action_handle_callback os m t = handle_action os token i (word_of_int n) ps (with_world w t)"
proof -
  have field: "\<exists>w. with_field (LITE_json_value_of os k) doc t f = f v (with_world w t)" if "chr_dot \<notin> set k" "json_read doc k = Some (Some v)" for k v t f
    by (rule with_field_value [OF that mem])
  have parse: "parse_template_method_type os = LITE_json_value_of os (cstr ''method'')" "parse_client_token os = LITE_json_value_of os (cstr ''clientToken'')"
    "parse_action_id os = LITE_json_value_of os (cstr ''actionId'')" "parse_action_input os = LITE_json_value_of os (cstr ''params'')"
    by (simp_all add: fun_eq_iff parse_template_method_type_def parse_client_token_def parse_action_id_def parse_action_input_def)
  have stamp: "\<exists>w. with_field (parse_time_stamp os) doc t f = f n (with_world w t)" for t f
    using value_of_key [OF _ doc(3) mem, of "world (mqtt t)"] doc(4,5) by (auto simp: with_field_def parse_time_stamp_def scan_u_dec scan_result_def cstr_def)
  have dots: "chr_dot \<notin> set (cstr ''method'')" "chr_dot \<notin> set (cstr ''clientToken'')" "chr_dot \<notin> set (cstr ''actionId'')" "chr_dot \<notin> set (cstr ''params'')"
    by (simp_all add: cstr_def)
  have reads: "json_read doc (cstr ''method'') = Some (Some (cstr ''action''))" "json_read doc (cstr ''clientToken'') = Some (Some token)"
    using doc(1) by (simp_all add: message_doc_def)
  define f4 where "f4 tok id ts = handle_action os tok id (word_of_int ts)" for tok id ts
  define f3 where "f3 tok id ts t = with_field (LITE_json_value_of os (cstr ''params'')) doc t (f4 tok id ts)" for tok id ts t
  define f2 where "f2 tok id t = with_field (parse_time_stamp os) doc t (f3 tok id)" for tok id t
  define f1 where "f1 tok t = with_field (LITE_json_value_of os (cstr ''actionId'')) doc t (f2 tok)" for tok t
  define f0 where "f0 ty t = (if ty \<noteq> cstr ''action'' then Some t else with_field (LITE_json_value_of os (cstr ''clientToken'')) doc t f1)" for ty t
  have run: "on_action_handle_callback os m t = with_field (LITE_json_value_of os (cstr ''method'')) doc t f0"
    by (simp add: on_action_handle_callback_def s parse f0_def [abs_def] f1_def [abs_def] f2_def [abs_def] f3_def [abs_def] f4_def [abs_def] cong: if_cong)
  obtain w0 where w0: "with_field (LITE_json_value_of os (cstr ''method'')) doc t f0 = f0 (cstr ''action'') (with_world w0 t)"
    using field [OF dots(1) reads(1)] by blast
  obtain w1 where w1: "with_field (LITE_json_value_of os (cstr ''clientToken'')) doc (with_world w0 t) f1 = f1 token (with_world w1 (with_world w0 t))"
    using field [OF dots(2) reads(2)] by blast
  obtain w2 where w2: "f1 token (with_world w1 (with_world w0 t)) = f2 token i (with_world w2 (with_world w1 (with_world w0 t)))"
    using field [OF dots(3) doc(2)] unfolding f1_def by blast
  obtain w3 where w3: "f2 token i (with_world w2 (with_world w1 (with_world w0 t))) = f3 token i n (with_world w3 (with_world w2 (with_world w1 (with_world w0 t))))"
    using stamp unfolding f2_def by blast
  obtain w4 where w4: "f3 token i n (with_world w3 (with_world w2 (with_world w1 (with_world w0 t)))) =
      f4 token i n ps (with_world w4 (with_world w3 (with_world w2 (with_world w1 (with_world w0 t)))))"
    using field [OF dots(4) doc(6)] unfolding f3_def by blast
  have "f0 (cstr ''action'') (with_world w0 t) = with_field (LITE_json_value_of os (cstr ''clientToken'')) doc (with_world w0 t) f1" by (simp add: f0_def)
  moreover have "with_world w4 (with_world w3 (with_world w2 (with_world w1 (with_world w0 t)))) = with_world w4 t" by (simp add: with_world_def)
  ultimately show ?thesis using run w0 w1 w2 w3 w4 by (auto simp: f4_def)
qed

text \<open>
  C7: A message that calls an action runs exactly the registered actions of its name: each of them gets the values of
  the message as its inputs (integers, truth values, floats that the C library reads back as it prints them, and strings shorter
  than their arrays; doubles, arrays and structures are not supported as inputs) and the time stamp, and its function is called
  once, with the token; other actions, the properties and the waiting requests are not touched. Every registered action has a
  function, which the registration demands.
\<close>

theorem action_runs:
  fixes t :: "'w Qcloud_IoT_Template"
  assumes "\<forall>w. fst (os_malloc os w) \<noteq> None" and "c_string (drop (msg_payload m) (msg_buf m)) = Some doc"
    and "message_doc doc (cstr ''action'') token" and "json_read doc (cstr ''actionId'') = Some (Some i)"
    and "json_read doc (cstr ''timestamp'') = Some (Some (dec_int n))" and "0 \<le> n" and "n < 2 ^ 32"
    and "json_read doc (cstr ''params'') = Some (Some (json_text (JObj kvs)))" and "json_ok (JObj kvs)" and "distinct (map fst kvs)"
    and "distinct (action_addrs (action_handle_list t))"
    and "\<forall>(a, v, h) \<in> set (action_handle_list t). ah_callback h \<noteq> None \<and> (\<exists>x. actions t (ah_action h) = Some x \<and>
       (pActionId x = i \<longrightarrow> list_all2 (input_takes (libc t) kvs) (pInput x) (new (ah_action h))))"
  shows "\<exists>t'. on_action_handle_callback os m t = Some t' \<and>
     actions t' = (\<lambda>a. if a \<in> set (action_addrs (action_handle_list t)) then map_option (called i (word_of_int n) new a) (actions t a) else actions t a) \<and>
     calls t' = calls t @ action_calls token i (word_of_int n) new (actions t) (rev (action_handle_list t)) \<and>
     props t' = props t \<and> reply_list t' = reply_list t"
proof -
  note mem = assms(1) [rule_format]
  obtain w where w: "on_action_handle_callback os m t = handle_action os token i (word_of_int n) (json_text (JObj kvs)) (with_world w t)"
    using action_message [OF mem assms(2-8)] by blast
  show ?thesis
  proof (cases "action_handle_list t = []")
    case True
    then show ?thesis by (simp add: w handle_action_def action_addrs_def action_calls_def)
  next
    case False
    obtain p c0 where c0: "HAL_Malloc os (mqtt (with_world w t)) = (Some p, c0)"
      using mem [of w] by (cases "os_malloc os w") (auto simp: HAL_Malloc_def with_world_def)
    have addrs: "action_addrs (rev l) = rev (action_addrs l)" for l by (simp add: action_addrs_def rev_map)
    let ?t = "(with_world w t)\<lparr>mqtt := c0\<rparr>"
    have t: "actions ?t = actions t" "calls ?t = calls t" "action_handle_list ?t = action_handle_list t" "props ?t = props t" "reply_list ?t = reply_list t"
      "libc ?t = libc t"
      by (simp_all add: with_world_def)
    have dist: "distinct (action_addrs (rev (action_handle_list t)))" using assms(11) by (simp add: addrs)
    have each: "ah_callback h \<noteq> None \<and> (\<exists>x. actions ?t (ah_action h) = Some x \<and> (pActionId x = i \<longrightarrow> list_all2 (input_takes (libc ?t) kvs) (pInput x) (new (ah_action h))))"
      if "(a, v, h) \<in> set (rev (action_handle_list t))" for a v h
      using assms(12) that unfolding t by fastforce
    obtain c where "action_loop os token i (word_of_int n) (json_text (JObj kvs)) (rev (action_handle_list t)) ?t = Some (?t\<lparr>mqtt := c,
       actions := (\<lambda>a. if a \<in> set (action_addrs (rev (action_handle_list t))) then map_option (called i (word_of_int n) new a) (actions ?t a) else actions ?t a),
       calls := calls ?t @ action_calls token i (word_of_int n) new (actions ?t) (rev (action_handle_list t))\<rparr>)"
      by (rule exE [OF action_loop_calls [OF mem assms(9,10) dist each]]) blast
    then have "on_action_handle_callback os m t = Some (?t\<lparr>mqtt := c,
       actions := (\<lambda>a. if a \<in> set (action_addrs (action_handle_list t)) then map_option (called i (word_of_int n) new a) (actions t a) else actions t a),
       calls := calls t @ action_calls token i (word_of_int n) new (actions t) (rev (action_handle_list t))\<rparr>)"
      using False c0 unfolding w t addrs set_rev by (simp add: handle_action_def del: json_text.simps)
    then show ?thesis using t by simp
  qed
qed

section \<open>Replies to actions\<close>

text \<open>What an output stands for: its key with a JSON value whose text is printed.\<close>

definition output_means :: "DeviceProperty \<Rightarrow> cstring \<times> json \<Rightarrow> bool" where
  "output_means p kv \<longleftrightarrow> dp_key p = Some (fst kv) \<and> output_text (dp_data p) = Some (json_text (snd kv) @ [0x2C]) \<and>
     text_ok (key_text (dp_key p)) \<and> text_ok (json_text (snd kv) @ [0x2C])"

lemma template_put_puts:
  assumes "output_means p kv" and h: "holds a 0 n s"
  shows "puts_rc (k + 1) 0 n (s @ member_text kv @ [0x2C]) a (template_put_json_node (dp_key p) (dp_data p) (n - k) a)"
proof (rule puts_narrow [OF h])
  assume "n - k \<le> length s + 1"
  then show "\<exists>rc. template_put_json_node (dp_key p) (dp_data p) (n - k) a = Some (rc, a) \<and> rc \<noteq> QCLOUD_RET_SUCCESS"
    by (simp add: template_put_json_node_def put_key_def holds_strlen [OF h] on_success_def)
next
  assume h': "holds a 0 (n - k) s"
  have "text_ok (key_text (dp_key p))" using assms(1) unfolding output_means_def by blast
  then have key: "0 \<notin> set (key_text (dp_key p))" "length (key_text (dp_key p)) < 2 ^ 31" by (simp_all add: text_ok_def)
  have mt: "s @ member_text kv @ [0x2C] = (s @ key_text (dp_key p)) @ json_text (snd kv) @ [0x2C]"
    using assms(1) by (cases kv) (simp add: output_means_def member_text_def key_text_def)
  show "puts_rc 1 0 (n - k) (s @ member_text kv @ [0x2C]) a (template_put_json_node (dp_key p) (dp_data p) (n - k) a)"
    unfolding template_put_json_node_def mt
  proof (rule on_success_puts_rc [OF put_key_puts [OF h' key]])
    fix a1
    assume h1: "holds a1 0 (n - k) (s @ key_text (dp_key p))"
    have "puts_rc 1 0 (n - k) ((s @ key_text (dp_key p)) @ json_text (snd kv) @ [0x2C]) a1
       (put_text (json_text (snd kv) @ [0x2C]) 0 (n - k) (length (s @ key_text (dp_key p))) a1)"
      using assms(1) by (intro put_text_puts [OF h1]) (simp_all add: output_means_def text_ok_def)
    then show "puts_rc 1 0 (n - k) ((s @ key_text (dp_key p)) @ json_text (snd kv) @ [0x2C]) a1
       (output_text (dp_data p) \<bind> (\<lambda>t. put_text t 0 (n - k) (length (s @ key_text (dp_key p))) a1))"
      using assms(1) by (simp add: output_means_def)
  qed simp
qed

lemma output_loop_puts:
  "list_all2 output_means ps kvs \<Longrightarrow> holds a 0 n s \<Longrightarrow>
   puts_rc (k + 1) 0 n (s @ concat (map (\<lambda>kv. member_text kv @ [0x2C]) kvs)) a (output_loop ps (n - k) a)"
proof (induction ps kvs arbitrary: a s rule: list_all2_induct)
  case Nil
  then show ?case by (auto simp: puts_rc_def put_ok_def)
next
  case (Cons p ps kv kvs)
  have key: "dp_key p \<noteq> None" using Cons.hyps(1) by (simp add: output_means_def)
  have "puts_rc (k + 1) 0 n (s @ concat (map (\<lambda>kv. member_text kv @ [0x2C]) (kv # kvs))) a
     (go_on (template_put_json_node (dp_key p) (dp_data p) (n - k) a) (output_loop ps (n - k)))"
  proof (rule go_on_puts [OF template_put_puts [OF Cons.hyps(1) Cons.prems]])
    fix a1
    assume "holds a1 0 n (s @ member_text kv @ [0x2C])"
    from Cons.IH [OF this] show "puts_rc (k + 1) 0 n (s @ concat (map (\<lambda>kv. member_text kv @ [0x2C]) (kv # kvs))) a1 (output_loop ps (n - k) a1)"
      by simp
  qed simp
  with key show ?case by (cases "dp_key p") auto
qed

text \<open>The document.\<close>

definition action_head :: "cstring \<Rightarrow> cstring" where
  "action_head token = cstr ''{\"method\":\"action_reply\", \"clientToken\":\"'' @ token @ cstr ''\", ''"

definition action_status :: "sReplyPara \<Rightarrow> cstring" where
  "action_status r = cstr ''\"code\":'' @ dec_int (reply_code r) @ cstr '', \"status\":\"'' @ status_msg r @ cstr ''\", \"response\":{''"

definition action_reply_text :: "cstring \<Rightarrow> sReplyPara \<Rightarrow> (cstring \<times> json) list \<Rightarrow> cstring" where
  "action_reply_text token r kvs =
     cstr ''{\"method\":\"action_reply\", \"clientToken\":\"'' @ token @ cstr ''\", \"code\":'' @ dec_int (reply_code r) @
     cstr '', \"status\":\"'' @ status_msg r @ cstr ''\", \"response\":'' @ json_text (JObj kvs) @ cstr ''}''"

text \<open>The outputs end with a comma, which the closing brace replaces. Without outputs it replaces the opening brace.\<close>

definition action_text :: "cstring \<Rightarrow> sReplyPara \<Rightarrow> (cstring \<times> json) list \<Rightarrow> cstring" where
  "action_text token r kvs =
     butlast ((action_head token @ action_status r) @ concat (map (\<lambda>kv. member_text kv @ [0x2C]) kvs)) @ cstr ''}'' @ cstr ''}''"

lemma action_text_members:
  assumes "kvs \<noteq> []"
  shows "action_text token r kvs = action_reply_text token r kvs"
proof -
  have m: "concat (map (\<lambda>kv. member_text kv @ [0x2C]) kvs) = json_members kvs @ [0x2C]"
    using commas_sep [of "map member_text kvs"] assms by (simp add: json_members_text comp_def)
  have "butlast (s @ json_members kvs @ [0x2C]) = s @ json_members kvs" for s by (simp add: butlast_append)
  from this [of "action_head token @ action_status r"]
  have "action_text token r kvs = (action_head token @ action_status r) @ json_members kvs @ cstr ''}'' @ cstr ''}''"
    unfolding action_text_def m by simp
  then show ?thesis
    unfolding action_reply_text_def action_head_def action_status_def json_text_JObj by (simp add: cstr_def)
qed

lemma empty_action_reply: "action_text token r [] = cstr ''{\"method\":\"action_reply\", \"clientToken\":\"'' @ token @ cstr ''\", \"code\":'' @
    dec_int (reply_code r) @ cstr '', \"status\":\"'' @ status_msg r @ cstr ''\", \"response\":}}''"
  by (simp add: action_text_def action_head_def action_status_def butlast_append cstr_def)

lemma action_reply_puts:
  assumes outs: "pOutput x = Some ps" "list_all2 output_means ps kvs" and init: "holds a 0 n []" "length (action_head token) < n"
    and zero: "text_ok (action_head token)" "text_ok (action_status r)" and la: "buf_write a 0 (replicate n 0) = Some a"
  shows "puts_rc (length (action_head token @ action_status r) + 1) 0 n (action_text token r kvs) a (iot_construct_action_json a n token x r)"
proof -
  let ?h = "action_head token" and ?st = "action_status r" and ?m = "concat (map (\<lambda>kv. member_text kv @ [0x2C]) kvs)"
  let ?s1 = "?h @ ?st" and ?s2 = "(?h @ ?st) @ ?m" and ?s3 = "butlast ((?h @ ?st) @ ?m) @ cstr ''}''"
  let ?k = "length (?h @ ?st) + 1" and ?s4 = "action_text token r kvs"
  have s4: "?s4 = ?s3 @ cstr ''}''" by (simp add: action_text_def)
  have s2: "?s2 \<noteq> []" by (simp add: action_head_def cstr_def)
  have l3: "length ?s3 = length ?s2" using s2 by (simp add: cstr_def)
  then have l4: "length ?s4 = length ?s2 + 1" unfolding s4 by (simp add: cstr_def)
  have t: "cstr ''}'' \<noteq> []" "0 \<notin> set (cstr ''}'')" "length (cstr ''}'') < 2 ^ 31" by (simp_all add: cstr_def)
  have head: "puts_rc ?k 0 n ?h a (iot_action_json_init a n token)"
    by (rule puts_rc_mono [of 1]) (use put_text_puts [OF init(1), of ?h] zero(1) la in \<open>simp_all add: iot_action_json_init_def put_text_def action_head_def text_ok_def\<close>)
  show ?thesis
    unfolding iot_construct_action_json_def
  proof (rule go_on_puts [OF head])
    fix a1
    assume h1: "holds a1 0 n ?h"
    show "puts_rc ?k 0 n ?s4 a1 (with_room n a1 (\<lambda>len.
         go_on (put_text (cstr ''\"code\":'' @ dec_int (reply_code r) @ cstr '', \"status\":\"'' @ status_msg r @
                  cstr ''\", \"response\":{'') 0 n len a1) (\<lambda>a.
           with_room n a (\<lambda>len. case pOutput x of
               None \<Rightarrow> Some (QCLOUD_ERR_INVAL, a)
             | Some ps \<Rightarrow>
                 go_on (output_loop ps (n - len) a) (\<lambda>a.
                   with_room n a (\<lambda>len.
                     go_on (put_over (cstr ''}'') 0 n len a) (\<lambda>a. do {
                       len \<leftarrow> strlen_at a 0;
                       put_text (cstr ''}'') 0 n len a
                     })))))))"
      unfolding action_status_def [symmetric] outs(1) option.case
    proof (rule with_room_puts [OF h1], goal_cases)
      case 3
      have "puts_rc ?k 0 n ?s1 a1 (put_text ?st 0 n (length ?h) a1)"
        by (rule puts_rc_mono [OF put_text_puts [OF h1]]) (use zero(2) in \<open>simp_all add: text_ok_def\<close>)
      then show ?case
      proof (rule go_on_puts, goal_cases)
        case (2 a2)
        note h2 = this
        show ?case
        proof (rule with_room_puts [OF h2], goal_cases)
          case 3
          have "puts_rc ?k 0 n ?s2 a2 (output_loop ps (n - length ?s1) a2)"
            using output_loop_puts [OF outs(2) h2, of "length ?s1"] by simp
          then show ?case
          proof (rule go_on_puts, goal_cases)
            case (2 a3)
            note h3 = this
            show ?case
            proof (rule with_room_puts [OF h3], goal_cases)
              case 3
              have "puts_rc ?k 0 n ?s3 a3 (put_over (cstr ''}'') 0 n (length ?s2) a3)"
                by (rule puts_rc_mono [OF put_over_puts [OF h3 s2 t]]) simp
              then show ?case
              proof (rule go_on_puts, goal_cases)
                case (2 a4)
                have "puts_rc ?k 0 n ?s4 a4 (put_text (cstr ''}'') 0 n (length ?s3) a4)"
                  unfolding s4 by (rule puts_rc_mono [OF put_text_puts [OF 2 t(2,3)]]) simp
                then show ?case using holds_strlen [OF 2] by simp
              qed (use l3 l4 in simp)
            qed (use l4 in simp_all)
          qed (use l4 in simp)
        qed (use l4 in simp_all)
      qed (use l4 in simp)
    qed (use l4 in simp_all)
  qed (use l4 in simp)
qed

lemma action_reply_read:
  assumes "plain token" "token \<noteq> []" "plain (status_msg r)" "status_msg r \<noteq> []" "json_ok (JObj kvs)"
  shows "json_read (action_reply_text token r kvs) (cstr ''method'') = Some (Some (cstr ''action_reply''))"
    "json_read (action_reply_text token r kvs) (cstr ''clientToken'') = Some (Some token)"
    "json_read (action_reply_text token r kvs) (cstr ''code'') = Some (Some (dec_int (reply_code r)))"
    "json_read (action_reply_text token r kvs) (cstr ''status'') = Some (Some (status_msg r))"
    "json_read (action_reply_text token r kvs) (cstr ''response'') = Some (Some (json_text (JObj kvs)))"
proof -
  let ?code = "JNum (dec_int (reply_code r))" and ?act = "JStr (cstr ''action_reply'')"
  let ?members = "[(cstr ''method'', ?act), (cstr ''clientToken'', JStr token), (cstr ''code'', ?code),
    (cstr ''status'', JStr (status_msg r)), (cstr ''response'', JObj kvs)]"
  let ?segs = "[([chr_lbrace], cstr ''method'', ?act), (cstr '', '', cstr ''clientToken'', JStr token), (cstr '', '', cstr ''code'', ?code),
    (cstr '', '', cstr ''status'', JStr (status_msg r)), (cstr '', '', cstr ''response'', JObj kvs)]"
  have doc: "action_reply_text token r kvs = seg_text ?segs @ [chr_rbrace]"
    by (simp add: action_reply_text_def seg_text_def cstr_def del: json_text.simps(5))
  have number: "dec_int (reply_code r) \<noteq> []" using dec_int_number [of "reply_code r"] by auto
  have ok: "\<forall>x \<in> set ?segs. seg_ok x"
    using assms dec_int_number [of "reply_code r"] by (simp add: seg_ok_def cstr_def plain_def is_digit_def del: json_ok.simps(5))
  have full: "full_members (map snd ?segs) = ?members"
    using assms(2,4) number by (simp add: full_members_def json_content_def json_text_JObj cstr_def del: json_text.simps(5))
  have read: "json_read (action_reply_text token r kvs) name = Some (map_option json_content (map_of ?members name))" for name
  proof -
    define found where "found = map_of ?members name"
    obtain nv where "json_get_value_by_name (seg_text ?segs @ [chr_rbrace]) (length (seg_text ?segs @ [chr_rbrace])) name False = Some (nv_pV nv, nv_vLen nv, nv_vType nv)"
      "nv_found name found nv"
      using lookup_segs [OF _ _ ok, of "[chr_rbrace]" name] unfolding full found_def by auto
    then show ?thesis unfolding doc json_read_def found_def [symmetric] by (auto simp: nv_found_def split: option.splits)
  qed
  show "json_read (action_reply_text token r kvs) (cstr ''method'') = Some (Some (cstr ''action_reply''))"
    "json_read (action_reply_text token r kvs) (cstr ''clientToken'') = Some (Some token)"
    "json_read (action_reply_text token r kvs) (cstr ''code'') = Some (Some (dec_int (reply_code r)))"
    "json_read (action_reply_text token r kvs) (cstr ''status'') = Some (Some (status_msg r))"
    "json_read (action_reply_text token r kvs) (cstr ''response'') = Some (Some (json_text (JObj kvs)))"
    unfolding read by (simp_all add: cstr_def json_content_def del: json_text.simps(5))
qed

lemma zeroed_buffer:
  assumes "0 < n" "n \<le> length a"
  shows "\<exists>a0. buf_write a 0 (replicate n 0) = Some a0 \<and> buf_write a0 0 (replicate n 0) = Some a0 \<and> holds a0 0 n []"
  using assms by (cases n) (auto simp: buf_write_def holds_def)

text \<open>
  C8: A reply to an action reads back: when its outputs have values, the document that is published is JSON, and the
  reader of the SDK finds in it the token of the call, the code, the status and an object with the values of the
  outputs. It is written when the buffer has room for it and another copy of the part before the outputs.
\<close>

theorem action_reply_round_trip:
  assumes outs: "pOutput x = Some ps" "list_all2 output_means ps kvs" "ps \<noteq> []" "json_ok (JObj kvs)"
    and plain: "plain token" "token \<noteq> []" "plain (status_msg r)" "status_msg r \<noteq> []"
    and room: "length (action_reply_text token r kvs) + length (action_head token @ action_status r) + 1 < n" "n \<le> length a" "n < 2 ^ 31"
  shows "\<exists>a' doc. IOT_Action_Reply os (Some token) (Some a) n (Some x) r t =
       map_option (\<lambda>(rc, t). (rc, Some a', t)) (publish_action_to_cloud os doc t) \<and>
     json_read doc (cstr ''method'') = Some (Some (cstr ''action_reply'')) \<and> json_read doc (cstr ''clientToken'') = Some (Some token) \<and>
     json_read doc (cstr ''code'') = Some (Some (dec_int (reply_code r))) \<and> json_read doc (cstr ''status'') = Some (Some (status_msg r)) \<and>
     json_read doc (cstr ''response'') = Some (Some (json_text (JObj kvs)))"
proof -
  let ?d = "action_reply_text token r kvs" and ?s = "action_head token @ action_status r"
  have kvs: "kvs \<noteq> []" using outs(2,3) by auto
  obtain a0 where a0: "buf_write a 0 (replicate n 0) = Some a0" "buf_write a0 0 (replicate n 0) = Some a0" "holds a0 0 n []"
    using zeroed_buffer [of n a] room(1,2) by auto
  then have same: "iot_construct_action_json a n token x r = iot_construct_action_json a0 n token x r"
    by (simp add: iot_construct_action_json_def iot_action_json_init_def)
  have "set (dec_int i) \<inter> {0} = {}" for i using dec_nat_digits [of "nat i"] dec_nat_digits [of "nat (- i)"] digit_plain by (auto simp: dec_int_def)
  then have texts: "text_ok (action_head token)" "text_ok (action_status r)"
    using plain(1,3) room(1,3) by (auto simp: text_ok_def action_head_def action_status_def plain_def cstr_def)
  have "length (action_head token) < n" using room(1) by simp
  from action_reply_puts [OF outs(1,2) a0(3) this texts a0(2)] obtain a' where
    a': "iot_construct_action_json a n token x r = Some (QCLOUD_RET_SUCCESS, a')" "holds a' 0 n ?d"
    using room(1) by (auto simp: puts_rc_def put_ok_def action_text_members [OF kvs] same)
  have "IOT_Action_Reply os (Some token) (Some a) n (Some x) r t = map_option (\<lambda>(rc, t). (rc, Some a', t)) (publish_action_to_cloud os ?d t)"
    using a'(1) holds_c_string [OF a'(2)] by (cases "publish_action_to_cloud os ?d t") (auto simp: IOT_Action_Reply_def split: prod.splits)
  with action_reply_read [OF plain outs(4)] show ?thesis by blast
qed

definition demo_action_doc :: cstring where
  "demo_action_doc = cstr ''{\"method\":\"action\",\"clientToken\":\"c\",\"actionId\":\"blink\",\"timestamp\":7,\"params\":{\"n\":3}}''"

abbreviation (input) demo_inputs :: "(cstring \<times> json) list" where
  "demo_inputs \<equiv> [(cstr ''n'', JNum (cstr ''3''))]"

definition demo_new_inputs :: "nat \<Rightarrow> DeviceProperty list" where
  "demo_new_inputs a = [DeviceProperty (Some (cstr ''n'')) (Some (JINT32 3))]"

lemma demo_action_message:
  "message_doc demo_action_doc (cstr ''action'') (cstr ''c'')" "json_read demo_action_doc (cstr ''actionId'') = Some (Some (cstr ''blink''))"
  "json_read demo_action_doc (cstr ''timestamp'') = Some (Some (dec_int 7))"
  "json_read demo_action_doc (cstr ''params'') = Some (Some (json_text (JObj demo_inputs)))"
  "json_ok (JObj demo_inputs)" "distinct (map fst demo_inputs)"
proof -
  let ?kvs = "[(cstr ''method'', JStr (cstr ''action'')), (cstr ''clientToken'', JStr (cstr ''c'')), (cstr ''actionId'', JStr (cstr ''blink'')),
    (cstr ''timestamp'', JNum (cstr ''7'')), (cstr ''params'', JObj demo_inputs)]"
  have doc: "json_text (JObj ?kvs) = demo_action_doc" by (simp add: cstr_def demo_action_doc_def)
  have ok: "json_ok (JObj ?kvs)" "distinct (map fst ?kvs)" by (simp_all add: cstr_def plain_def is_digit_def)
  show "message_doc demo_action_doc (cstr ''action'') (cstr ''c'')" "json_read demo_action_doc (cstr ''actionId'') = Some (Some (cstr ''blink''))"
    "json_read demo_action_doc (cstr ''timestamp'') = Some (Some (dec_int 7))"
    "json_read demo_action_doc (cstr ''params'') = Some (Some (json_text (JObj demo_inputs)))"
    using read_member [OF ok, of "cstr ''method''" "JStr (cstr ''action'')"] read_member [OF ok, of "cstr ''clientToken''" "JStr (cstr ''c'')"]
      read_member [OF ok, of "cstr ''actionId''" "JStr (cstr ''blink'')"] read_member [OF ok, of "cstr ''timestamp''" "JNum (cstr ''7'')"]
      read_member [OF ok, of "cstr ''params''" "JObj demo_inputs"]
    unfolding doc message_doc_def by (simp_all add: json_content_def dec_int_def dec_nat.simps cstr_def)
  show "json_ok (JObj demo_inputs)" "distinct (map fst demo_inputs)" by (simp_all add: cstr_def plain_def is_digit_def)
qed

theorem action_runs_witness:
  "\<exists>t'. on_action_handle_callback sim_os (demo_message demo_action_doc) (demo_template (demo_client [] []) []) = Some t' \<and>
     calls t' = [ActionCall 33 (cstr ''c'') 300 \<lparr>pActionId = cstr ''blink'', act_timestamp = 7,
       pInput = [DeviceProperty (Some (cstr ''n'')) (Some (JINT32 3))], pOutput = Some [DeviceProperty (Some (cstr ''done'')) (Some (JBOOL True))]\<rparr>]"
proof -
  let ?t = "demo_template (demo_client [] []) []"
  let ?x = "\<lparr>pActionId = cstr ''blink'', act_timestamp = 0, pInput = [DeviceProperty (Some (cstr ''n'')) (Some (JINT32 0))],
       pOutput = Some [DeviceProperty (Some (cstr ''done'')) (Some (JBOOL True))]\<rparr>"
  have list: "action_handle_list ?t = [(8, 9, \<lparr>ah_action = 300, ah_callback = Some 33\<rparr>)]" and x: "actions ?t 300 = Some ?x" by (simp_all add: demo_template_def)
  have s: "c_string (drop (msg_payload (demo_message demo_action_doc)) (msg_buf (demo_message demo_action_doc))) = Some demo_action_doc"
    by (simp add: demo_message_def demo_action_doc_def c_string_def cstr_def)
  have takes: "input_takes (libc (demo_template (demo_client [] []) [])) demo_inputs (DeviceProperty (Some (cstr ''n'')) (Some (JINT32 0))) (DeviceProperty (Some (cstr ''n'')) (Some (JINT32 3)))"
    by (simp add: input_takes_def same_kind_def means.simps object_nodes_def value_text_def format_json_buffer_def dec_int_def dec_nat.simps cstr_def)
  have addrs: "distinct (action_addrs (action_handle_list ?t))" by (simp add: list action_addrs_def)
  have each: "\<forall>(a, v, h) \<in> set (action_handle_list ?t). ah_callback h \<noteq> None \<and> (\<exists>x. actions ?t (ah_action h) = Some x \<and>
       (pActionId x = cstr ''blink'' \<longrightarrow> list_all2 (input_takes (libc (demo_template (demo_client [] []) [])) demo_inputs) (pInput x) (demo_new_inputs (ah_action h))))"
    using takes by (simp add: list x demo_new_inputs_def)
  have "\<forall>w. fst (os_malloc sim_os w) \<noteq> None" "(0 :: int) \<le> 7" "(7 :: int) < 2 ^ 32" by simp_all
  with action_runs [of sim_os "demo_message demo_action_doc" demo_action_doc "cstr ''c''" "cstr ''blink''" 7 demo_inputs ?t demo_new_inputs, OF _ s demo_action_message(1-3) _ _ demo_action_message(4-6) addrs each]
  obtain t' where "on_action_handle_callback sim_os (demo_message demo_action_doc) ?t = Some t'"
    "calls t' = calls ?t @ action_calls (cstr ''c'') (cstr ''blink'') (word_of_int 7) demo_new_inputs (actions ?t) (rev (action_handle_list ?t))"
    by blast
  then show ?thesis by (simp add: list x action_calls_def called_def demo_new_inputs_def)
qed

theorem action_reply_round_trip_witness:
  "\<exists>a' doc. IOT_Action_Reply sim_os (Some (cstr ''c'')) (Some (replicate 256 1)) 256
       (actions (demo_template (demo_client [] []) []) 300) \<lparr>reply_timeout_ms = 1000, reply_code = -1, status_msg = cstr ''busy''\<rparr> (demo_template (demo_client [] []) []) =
       map_option (\<lambda>(rc, t). (rc, Some a', t)) (publish_action_to_cloud sim_os doc (demo_template (demo_client [] []) [])) \<and>
     json_read doc (cstr ''clientToken'') = Some (Some (cstr ''c'')) \<and> json_read doc (cstr ''code'') = Some (Some (cstr ''-1'')) \<and>
     json_read doc (cstr ''response'') = Some (Some (cstr ''{\"done\":1}''))"
proof -
  let ?t = "demo_template (demo_client [] []) []" and ?r = "\<lparr>reply_timeout_ms = 1000, reply_code = -1, status_msg = cstr ''busy''\<rparr>"
  let ?x = "\<lparr>pActionId = cstr ''blink'', act_timestamp = 0, pInput = [DeviceProperty (Some (cstr ''n'')) (Some (JINT32 0))],
       pOutput = Some [DeviceProperty (Some (cstr ''done'')) (Some (JBOOL True))]\<rparr>"
  let ?ps = "[DeviceProperty (Some (cstr ''done'')) (Some (JBOOL True))]" and ?kvs = "[(cstr ''done'', JNum (cstr ''1''))]"
  have x: "actions ?t 300 = Some ?x" by (simp add: demo_template_def)
  have means: "list_all2 output_means ?ps ?kvs"
    by (simp add: output_means_def output_text_def text_ok_def key_text_def cstr_def)
  have code: "dec_int (-1) = cstr ''-1''" by (simp add: dec_int_def dec_nat.simps cstr_def)
  have resp: "json_text (JObj ?kvs) = cstr ''{\"done\":1}''" by (simp add: cstr_def)
  have side: "pOutput ?x = Some ?ps" "?ps \<noteq> []" "json_ok (JObj ?kvs)" "plain (cstr ''c'')" "cstr ''c'' \<noteq> []" "plain (status_msg ?r)" "status_msg ?r \<noteq> []"
    by (simp_all add: plain_def is_digit_def cstr_def)
  have room: "length (action_reply_text (cstr ''c'') ?r ?kvs) + length (action_head (cstr ''c'') @ action_status ?r) + 1 < 256"
    unfolding action_reply_text_def resp by (simp add: action_head_def action_status_def code cstr_def)
  show ?thesis
    using action_reply_round_trip [of ?x ?ps ?kvs "cstr ''c''" ?r 256 "replicate 256 1" sim_os ?t, OF side(1) means side(2-7) room]
    unfolding x resp by (auto simp: code)
qed

text \<open>
  The payload of an action is read as a string where it lies: when no zero byte follows in the receive buffer the read
  leaves the buffer.
\<close>

lemma action_payload_unterminated: "0 \<notin> set (drop (msg_payload m) (msg_buf m)) \<Longrightarrow> on_action_handle_callback os m t = None"
  by (simp add: on_action_handle_callback_def c_string_def)

end
