(* ===== verification/Gw_Client.thy ===== *)
theory Gw_Client
  imports Mqtt_Service Dt_Json Utils_Base64
begin

text \<open>
  The gateway (\<^verbatim>\<open>gateway_api.c\<close>, \<^verbatim>\<open>gateway_common.c\<close>): a device that takes sub-devices online and offline, binds and unbinds them,
  and answers the questions of the cloud about them. It holds an MQTT client, keeps a session for every sub-device that goes
  online, and waits for the answer of the cloud to each of its requests by yielding. Its structures, the handler of its
  messages, and its operations.
\<close>

section \<open>Structures\<close>

abbreviation (input) QCLOUD_ERR_GATEWAY_CREATE_SESSION_FAIL :: int where "QCLOUD_ERR_GATEWAY_CREATE_SESSION_FAIL \<equiv> -221"
abbreviation (input) QCLOUD_ERR_GATEWAY_SESSION_NO_EXIST :: int where "QCLOUD_ERR_GATEWAY_SESSION_NO_EXIST \<equiv> -222"
abbreviation (input) QCLOUD_ERR_GATEWAY_SESSION_TIMEOUT :: int where "QCLOUD_ERR_GATEWAY_SESSION_TIMEOUT \<equiv> -223"
abbreviation (input) QCLOUD_ERR_GATEWAY_SUBDEV_ONLINE :: int where "QCLOUD_ERR_GATEWAY_SUBDEV_ONLINE \<equiv> -224"
abbreviation (input) QCLOUD_ERR_GATEWAY_SUBDEV_OFFLINE :: int where "QCLOUD_ERR_GATEWAY_SUBDEV_OFFLINE \<equiv> -225"
abbreviation (input) MAX_SIZE_OF_PRODUCT_ID :: nat where "MAX_SIZE_OF_PRODUCT_ID \<equiv> 10"
abbreviation (input) MAX_SIZE_OF_DEVICE_NAME :: nat where "MAX_SIZE_OF_DEVICE_NAME \<equiv> 48"
abbreviation (input) MAX_SIZE_OF_DEVICE_SECRET :: nat where "MAX_SIZE_OF_DEVICE_SECRET \<equiv> 64"
abbreviation (input) MAX_SIZE_OF_CLIENT_ID :: nat where "MAX_SIZE_OF_CLIENT_ID \<equiv> 80"
abbreviation (input) GATEWAY_PAYLOAD_BUFFER_LEN :: nat where "GATEWAY_PAYLOAD_BUFFER_LEN \<equiv> 1024"
abbreviation (input) GATEWAY_RECEIVE_BUFFER_LEN :: nat where "GATEWAY_RECEIVE_BUFFER_LEN \<equiv> 1024"
abbreviation (input) GATEWAY_LOOP_MAX_COUNT :: nat where "GATEWAY_LOOP_MAX_COUNT \<equiv> 100"
abbreviation (input) SUBDEV_BIND_SIGN_LEN :: nat where "SUBDEV_BIND_SIGN_LEN \<equiv> 64"

datatype SubdevSessionStatus = SUBDEV_SEESION_STATUS_INIT | SUBDEV_SEESION_STATUS_ONLINE | SUBDEV_SEESION_STATUS_OFFLINE

record SubdevSession =
  ss_product_id :: cstring
  ss_device_name :: cstring
  session_status :: SubdevSessionStatus

record SubdevBindInfo =
  bi_product_id :: cstring
  bi_device_name :: cstring

record ReplyData =
  rd_result :: int
  rd_client_id :: cstring

text \<open>The fields of \<^verbatim>\<open>GatewayData\<close> that an answer of the cloud sets.\<close>

datatype gateway_op = OnlineOp | OfflineOp | BindOp | UnbindOp | GetBindlistOp

text \<open>What the handlers of events are told: an event of the MQTT client or one of the three of the gateway.\<close>

datatype gateway_event = MqttEvent MQTTEventType event_arg | GatewaySearch int | GatewayChange cstring int | GatewayUnbindAll

record GatewayParam =
  gp_product_id :: "cstring option"
  gp_device_name :: "cstring option"
  gp_subdev_product_id :: "cstring option"
  gp_subdev_device_name :: "cstring option"

text \<open>The gateway. A session is a node of a list, its address first; the head of the list is its first element.\<close>

record 'w Gateway =
  gw_mqtt :: "'w client"
  session_list :: "(nat \<times> SubdevSession) list"
  bindlist_head :: "SubdevBindInfo list"
  bind_num :: int
  gw_sync_status :: int
  gateway_data :: "gateway_op \<Rightarrow> ReplyData"
  gw_event_handle :: MQTTEventHandler
  recv_buf :: "u8 list"
  gw_self :: nat
  gw_calls :: "(nat \<times> nat \<times> gateway_event) list"

abbreviation (input) gateway_message_fp :: nat where "gateway_message_fp \<equiv> 4"
abbreviation (input) gateway_event_fp :: nat where "gateway_event_fp \<equiv> 5"

section \<open>Arrays of JSON\<close>

text \<open>
  The macro \<^verbatim>\<open>json_array_for_each_entry\<close>: the entries, each as the rest of the text from it with its length, and whether the
  loop ends inside the text. The bodies of the loops put back the character that they overwrite.
\<close>

function json_array_entries :: "cstring \<Rightarrow> (cstring \<times> nat) list \<times> bool" where
  "json_array_entries pos =
     (if pos = [] then ([], True)
      else case json_get_next_object JSARRAY (tl pos) of
             (Null, it) \<Rightarrow> ([], True)
           | (nxt, None) \<Rightarrow> ([], True)
           | (nxt, Some it) \<Rightarrow>
               (case ji_val it of
                  None \<Rightarrow> ([], True)
                | Some v \<Rightarrow>
                    (case nxt of
                       At r \<Rightarrow> (let (es, inside) = json_array_entries r in ((v, ji_val_len it) # es, inside))
                     | _ \<Rightarrow> ([(v, ji_val_len it)], False))))"
  by pat_completeness auto
termination
proof -
  have shorter: "length r < length pos" if "pos \<noteq> []" "json_get_next_object JSARRAY (tl pos) = (At r, it)" for pos r it
    using that by (cases pos) (auto simp: json_get_next_object_def dest!: json_value_length)
  show ?thesis by (relation "measure length") (auto dest!: sym [of "(_, _)"] intro: shorter)
qed

declare json_array_entries.simps [simp del]

definition json_array :: "cstring \<Rightarrow> (cstring \<times> nat) list \<times> bool" where
  "json_array str = (case json_get_object JSARRAY str of None \<Rightarrow> ([], True) | Some pos \<Rightarrow> json_array_entries pos)"

section \<open>Sessions\<close>

definition subdev_find_session :: "'w Gateway \<Rightarrow> cstring \<Rightarrow> cstring \<Rightarrow> (nat \<times> SubdevSession) option" where
  "subdev_find_session g pid name =
     (if pid = [] \<or> name = [] then None
      else find (\<lambda>(a, s). ss_product_id s = pid \<and> ss_device_name s = name) (session_list g))"

text \<open>The strings are copied with their own length: a longer one leaves its array.\<close>

definition subdev_add_session :: "'w os \<Rightarrow> cstring \<Rightarrow> cstring \<Rightarrow> 'w Gateway \<Rightarrow> (nat option \<times> 'w Gateway) option" where
  "subdev_add_session os pid name g =
     (if pid = [] \<or> name = [] then Some (None, g)
      else case HAL_Malloc os (gw_mqtt g) of
             (None, c) \<Rightarrow> Some (None, g\<lparr>gw_mqtt := c\<rparr>)
           | (Some session, c) \<Rightarrow>
               if length pid > MAX_SIZE_OF_PRODUCT_ID \<or> length name > MAX_SIZE_OF_DEVICE_NAME then None
               else Some (Some session, g\<lparr>gw_mqtt := c, session_list :=
                 (session, \<lparr>ss_product_id = pid, ss_device_name = name, session_status = SUBDEV_SEESION_STATUS_INIT\<rparr>) # session_list g\<rparr>))"

primrec remove_session :: "cstring \<Rightarrow> cstring \<Rightarrow> (nat \<times> SubdevSession) list \<Rightarrow> (nat \<times> SubdevSession) list option" where
  "remove_session pid name [] = None"
| "remove_session pid name (x # xs) =
     (if take MAX_SIZE_OF_PRODUCT_ID (ss_product_id (snd x)) = take MAX_SIZE_OF_PRODUCT_ID pid \<and>
         take MAX_SIZE_OF_DEVICE_NAME (ss_device_name (snd x)) = take MAX_SIZE_OF_DEVICE_NAME name then Some xs
      else map_option (Cons x) (remove_session pid name xs))"

definition subdev_remove_session :: "cstring \<Rightarrow> cstring \<Rightarrow> 'w Gateway \<Rightarrow> int \<times> 'w Gateway" where
  "subdev_remove_session pid name g =
     (if pid = [] \<or> name = [] then (QCLOUD_ERR_FAILURE, g)
      else if session_list g = [] then (QCLOUD_RET_SUCCESS, g)
      else case remove_session pid name (session_list g) of
             None \<Rightarrow> (QCLOUD_ERR_FAILURE, g)
           | Some l \<Rightarrow> (QCLOUD_RET_SUCCESS, g\<lparr>session_list := l\<rparr>))"

text \<open>\<^verbatim>\<open>session->session_status = ...\<close>, through a pointer that was found earlier; the session may have been released since.\<close>

definition set_session_status :: "nat \<Rightarrow> SubdevSessionStatus \<Rightarrow> 'w Gateway \<Rightarrow> 'w Gateway option" where
  "set_session_status a st g =
     (if a \<in> fst ` set (session_list g)
      then Some (g\<lparr>session_list := map (\<lambda>(b, s). (b, if b = a then s\<lparr>session_status := st\<rparr> else s)) (session_list g)\<rparr>)
      else None)"

definition gateway_subdev_unbind_all :: "'w Gateway \<Rightarrow> 'w Gateway" where
  "gateway_subdev_unbind_all g = g\<lparr>session_list := []\<rparr>"

section \<open>Bound devices\<close>

datatype subdev_op = SUBDEV_OP_DESCRIBE | SUBDEV_OP_BIND | SUBDEV_OP_UNBIND

definition subdev_add_bindinfo :: "'w os \<Rightarrow> cstring \<Rightarrow> cstring \<Rightarrow> 'w Gateway \<Rightarrow> bool \<times> 'w Gateway" where
  "subdev_add_bindinfo os pid name g =
     (if pid = [] \<or> name = [] then (False, g)
      else case HAL_Malloc os (gw_mqtt g) of
             (None, c) \<Rightarrow> (False, g\<lparr>gw_mqtt := c\<rparr>)
           | (Some bindinfo, c) \<Rightarrow>
               (True, g\<lparr>gw_mqtt := c, bindlist_head :=
                  \<lparr>bi_product_id = take MAX_SIZE_OF_PRODUCT_ID pid, bi_device_name = take MAX_SIZE_OF_DEVICE_NAME name\<rparr> # bindlist_head g,
                  bind_num := bind_num g + 1\<rparr>))"

primrec unbind_device :: "cstring \<Rightarrow> cstring \<Rightarrow> SubdevBindInfo list \<Rightarrow> SubdevBindInfo list option" where
  "unbind_device pid name [] = None"
| "unbind_device pid name (b # bs) =
     (if take MAX_SIZE_OF_PRODUCT_ID pid = take MAX_SIZE_OF_PRODUCT_ID (bi_product_id b) \<and>
         take MAX_SIZE_OF_DEVICE_NAME name = take MAX_SIZE_OF_DEVICE_NAME (bi_device_name b) then Some bs
      else map_option (Cons b) (unbind_device pid name bs))"

definition subdev_unbind_device :: "cstring \<Rightarrow> cstring \<Rightarrow> 'w Gateway \<Rightarrow> bool \<times> 'w Gateway" where
  "subdev_unbind_device pid name g =
     (case unbind_device pid name (bindlist_head g) of
        None \<Rightarrow> (False, g)
      | Some bs \<Rightarrow> (True, g\<lparr>bindlist_head := bs, bind_num := bind_num g - 1\<rparr>))"

section \<open>Fields of messages\<close>

definition json_value_in :: "'w os \<Rightarrow> string \<Rightarrow> cstring \<Rightarrow> 'w Gateway \<Rightarrow> (cstring option \<times> 'w Gateway) option" where
  "json_value_in os key json g = do {
     (v, w) \<leftarrow> LITE_json_value_of os (cstr key) json (world (gw_mqtt g));
     Some (v, g\<lparr>gw_mqtt := (gw_mqtt g)\<lparr>world := w\<rparr>\<rparr>)
   }"

definition get_json_type :: "'w os \<Rightarrow> cstring \<Rightarrow> 'w Gateway \<Rightarrow> (cstring option \<times> 'w Gateway) option" where
  "get_json_type os = json_value_in os ''type''"

definition get_json_devices :: "'w os \<Rightarrow> cstring \<Rightarrow> 'w Gateway \<Rightarrow> (cstring option \<times> 'w Gateway) option" where
  "get_json_devices os = json_value_in os ''payload.devices''"

definition get_json_product_id :: "'w os \<Rightarrow> cstring \<Rightarrow> 'w Gateway \<Rightarrow> (cstring option \<times> 'w Gateway) option" where
  "get_json_product_id os = json_value_in os ''product_id''"

definition get_json_device_name :: "'w os \<Rightarrow> cstring \<Rightarrow> 'w Gateway \<Rightarrow> (cstring option \<times> 'w Gateway) option" where
  "get_json_device_name os = json_value_in os ''device_name''"

definition int32_of :: "cstring option \<times> 'w Gateway \<Rightarrow> (int option \<times> 'w Gateway) option" where
  "int32_of = (\<lambda>(v, g). case v of
      None \<Rightarrow> Some (None, g)
    | Some v \<Rightarrow> do { r \<leftarrow> LITE_get_int32 v; Some (case r of Inl e \<Rightarrow> None | Inr i \<Rightarrow> Some i, g) })"

definition get_json_result :: "'w os \<Rightarrow> cstring \<Rightarrow> 'w Gateway \<Rightarrow> (int option \<times> 'w Gateway) option" where
  "get_json_result os json g = json_value_in os ''result'' json g \<bind> int32_of"

definition get_json_payload_status :: "'w os \<Rightarrow> cstring \<Rightarrow> 'w Gateway \<Rightarrow> (int option \<times> 'w Gateway) option" where
  "get_json_payload_status os json g = json_value_in os ''payload.status'' json g \<bind> int32_of"

text \<open>
  \<^verbatim>\<open>_subdev_proc_devlist\<close>. \<open>stale\<close> says that the pointer to the device name is still the one that the last turn has released:
  an entry without a product makes the function release it again.
\<close>

primrec proc_devlist_loop ::
  "'w os \<Rightarrow> subdev_op \<Rightarrow> bool \<Rightarrow> (cstring \<times> nat) list \<Rightarrow> bool \<Rightarrow> 'w Gateway \<Rightarrow> 'w Gateway option" where
  "proc_devlist_loop os ty inside [] stale g = (if inside then Some g else None)"
| "proc_devlist_loop os ty inside (e # es) stale g = do {
     let entry = take (snd e) (fst e);
     (pid, g) \<leftarrow> get_json_product_id os entry g;
     (case pid of
        None \<Rightarrow> if stale then None else proc_devlist_loop os ty inside es False g
      | Some pid \<Rightarrow> do {
          (name, g) \<leftarrow> get_json_device_name os entry g;
          (case name of
             None \<Rightarrow> proc_devlist_loop os ty inside es False g
           | Some name \<Rightarrow>
               let (cont, g) = (if ty = SUBDEV_OP_UNBIND then subdev_unbind_device pid name g else subdev_add_bindinfo os pid name g)
               in if cont then proc_devlist_loop os ty inside es True g else Some g)
        })
   }"

definition subdev_proc_devlist :: "'w os \<Rightarrow> cstring \<Rightarrow> subdev_op \<Rightarrow> 'w Gateway \<Rightarrow> 'w Gateway option" where
  "subdev_proc_devlist os devices ty g = (let (es, inside) = json_array devices in proc_devlist_loop os ty inside es False g)"

section \<open>Answers to the cloud\<close>

definition operation_topic :: "cstring \<Rightarrow> cstring \<Rightarrow> cstring" where
  "operation_topic pid name = cstr ''$gateway/operation/'' @ pid @ cstr ''/'' @ name"

definition gateway_topic :: "'w Gateway \<Rightarrow> cstring" where
  "gateway_topic g = snprintf 128 (operation_topic (product_id (device_info (gw_mqtt g))) (device_name (device_info (gw_mqtt g))))"

definition IOT_Gateway_Publish :: "'w os \<Rightarrow> cstring \<Rightarrow> PublishParams \<Rightarrow> 'w Gateway \<Rightarrow> (int \<times> 'w Gateway) option" where
  "IOT_Gateway_Publish os topic params g = do {
     (rc, params, c) \<leftarrow> qcloud_iot_mqtt_publish os (Some topic) params (gw_mqtt g);
     Some (rc, g\<lparr>gw_mqtt := c\<rparr>)
   }"

text \<open>The parameters that all the messages of the gateway have, with the string in the buffer \<open>a\<close> as the payload.\<close>

definition qos0_params :: "cstring \<Rightarrow> PublishParams" where
  "qos0_params payload = \<lparr>pp_qos = QOS0, pp_retained = 0, pp_id = 0, pp_payload = Some payload\<rparr>"

definition send_reply :: "'w os \<Rightarrow> u8 list \<Rightarrow> 'w Gateway \<Rightarrow> 'w Gateway option" where
  "send_reply os a g = do {
     payload \<leftarrow> c_string a;
     (rc, g) \<leftarrow> IOT_Gateway_Publish os (gateway_topic g) (qos0_params payload) g;
     Some g
   }"

text \<open>
  A piece of an answer at the position \<open>p\<close> of the array \<open>a\<close>, whose last byte is kept free. The size that is left is an \<^verbatim>\<open>int\<close>: once
  it is negative, \<^verbatim>\<open>snprintf\<close> takes it for a huge one and writes behind the array. The position moves by the length of the whole text.
\<close>

definition append_text :: "cstring \<Rightarrow> u8 list \<times> nat \<Rightarrow> (u8 list \<times> nat) option" where
  "append_text s = (\<lambda>(a, p). do {
     (r, a) \<leftarrow> snprintf_at a p (nat ((int (length a) - 1 - int p) mod 2 ^ 64)) s;
     Some (a, p + length s)
   })"

definition change_entry :: "cstring \<Rightarrow> cstring \<Rightarrow> cstring" where
  "change_entry pid name = cstr ''{\"product_id\":\"'' @ pid @ cstr ''\",\"device_name\":\"'' @ name @ cstr ''\",\"result\":0}''"

text \<open>
  The loop of \<^verbatim>\<open>_gateway_ack_change\<close>. When there is little room left it ends before it has put back the character behind
  the entry, so that the text of the devices stays cut off there.
\<close>

primrec ack_change_loop ::
  "'w os \<Rightarrow> bool \<Rightarrow> (cstring \<times> nat) list \<Rightarrow> bool \<Rightarrow> cstring \<Rightarrow> u8 list \<times> nat \<Rightarrow> 'w Gateway \<Rightarrow> ((u8 list \<times> nat) \<times> cstring \<times> 'w Gateway) option" where
  "ack_change_loop os inside [] is_first devices b g = (if inside then Some (b, devices, g) else None)"
| "ack_change_loop os inside (e # es) is_first devices b g =
     (if int (length (fst b)) - 1 - int (snd b) < 128
      then Some (b, take (length devices - (length (fst e) - snd e)) devices, g)
      else do {
        b \<leftarrow> (if is_first then Some b else append_text (cstr '','') b);
        (pid, g) \<leftarrow> get_json_product_id os (take (snd e) (fst e)) g;
        (case pid of
           None \<Rightarrow> ack_change_loop os inside es False devices b g
         | Some pid \<Rightarrow> do {
             (name, g) \<leftarrow> get_json_device_name os (take (snd e) (fst e)) g;
             (case name of
                None \<Rightarrow> ack_change_loop os inside es False devices b g
              | Some name \<Rightarrow> do {
                  b \<leftarrow> append_text (change_entry pid name) b;
                  ack_change_loop os inside es False devices b g
                })
           })
      })"

definition gateway_ack_change :: "'w os \<Rightarrow> cstring \<Rightarrow> int \<Rightarrow> 'w Gateway \<Rightarrow> (cstring \<times> 'w Gateway) option" where
  "gateway_ack_change os devices status g = do {
     b \<leftarrow> append_text (cstr ''{\"type\":\"change\", \"payload\":{\"status\":'' @ dec_int status @ cstr '', \"devices\":['') (replicate 1024 0, 0);
     let (es, inside) = json_array devices;
     (b, devices, g) \<leftarrow> ack_change_loop os inside es True devices b g;
     (a, p) \<leftarrow> append_text (cstr '']}}'') b;
     g \<leftarrow> send_reply os a g;
     Some (devices, g)
   }"

definition describe_entry :: "SubdevBindInfo \<Rightarrow> cstring" where
  "describe_entry b = cstr ''{\"product_id\":\"'' @ bi_product_id b @ cstr ''\",\"device_name\":\"'' @ bi_device_name b @ cstr ''\"}''"

fun topo_describe_loop :: "SubdevBindInfo list \<Rightarrow> u8 list \<times> nat \<Rightarrow> (u8 list \<times> nat) option" where
  "topo_describe_loop [] b = Some b"
| "topo_describe_loop [x] b = append_text (describe_entry x) b"
| "topo_describe_loop (x # xs) b = do { b \<leftarrow> append_text (describe_entry x) b; b \<leftarrow> append_text (cstr '','') b; topo_describe_loop xs b }"

definition gateway_ack_topo_describe :: "'w os \<Rightarrow> 'w Gateway \<Rightarrow> 'w Gateway option" where
  "gateway_ack_topo_describe os g = do {
     b \<leftarrow> append_text (cstr ''{\"type\":\"change\", \"payload\":{\"devices\":['') (replicate 2048 0, 0);
     b \<leftarrow> topo_describe_loop (bindlist_head g) b;
     (a, p) \<leftarrow> append_text (cstr '']}}'') b;
     send_reply os a g
   }"

definition gateway_ack_search :: "'w os \<Rightarrow> int \<Rightarrow> 'w Gateway \<Rightarrow> 'w Gateway option" where
  "gateway_ack_search os status g = do {
     (r, a) \<leftarrow> snprintf_at (replicate 1024 0) 0 1024
       (cstr ''{\"type\":\"search_devices\", \"payload\":{\"status\":'' @ dec_int status @ cstr '', \"result\":0}}'');
     send_reply os a g
   }"

definition gateway_subdev_unbind_all_reply :: "'w os \<Rightarrow> 'w Gateway \<Rightarrow> 'w Gateway option" where
  "gateway_subdev_unbind_all_reply os g = do {
     (r, a) \<leftarrow> snprintf_at (replicate 128 0) 0 128 (cstr ''{\"type\":\"unbind_all\", \"payload\":{\"result\":0}}'');
     send_reply os a g
   }"

section \<open>Events and messages\<close>

text \<open>
  \<^verbatim>\<open>_gateway_event_handler\<close>: the fate of a subscription ends the waiting for it, everything else is passed on to the application.
  The packet identifier is compared as an unsigned number of 64 bits.
\<close>

definition gateway_event_handler :: "gateway_event \<Rightarrow> 'w Gateway \<Rightarrow> 'w Gateway" where
  "gateway_event_handler ev g =
     (let waits = (case ev of MqttEvent ty arg \<Rightarrow> gw_sync_status g mod 2 ^ 64 = (case arg of PacketId i \<Rightarrow> uint i | _ \<Rightarrow> 0) | _ \<Rightarrow> False);
          ty = (case ev of MqttEvent ty arg \<Rightarrow> ty | _ \<Rightarrow> MQTT_EVENT_UNDEF)
      in if waits \<and> ty \<in> {MQTT_EVENT_SUBCRIBE_SUCCESS, MQTT_EVENT_UNSUBCRIBE_SUCCESS} then g\<lparr>gw_sync_status := 0\<rparr>
         else if waits \<and> ty \<in> {MQTT_EVENT_SUBCRIBE_TIMEOUT, MQTT_EVENT_UNSUBCRIBE_TIMEOUT, MQTT_EVENT_SUBCRIBE_NACK, MQTT_EVENT_UNSUBCRIBE_NACK}
         then g\<lparr>gw_sync_status := - 1\<rparr>
         else case h_fp (gw_event_handle g) of
                None \<Rightarrow> g
              | Some f \<Rightarrow> g\<lparr>gw_calls := gw_calls g @ [(f, h_context (gw_event_handle g), ev)]\<rparr>)"

definition sub_client_id :: "cstring \<Rightarrow> cstring \<Rightarrow> cstring" where
  "sub_client_id pid name = pid @ cstr ''/'' @ name"

text \<open>The operation that the type of an answer belongs to; types are compared by their beginnings.\<close>

definition answered_op :: "cstring \<Rightarrow> gateway_op option" where
  "answered_op ty =
     (if has_prefix (cstr ''online'') ty then Some OnlineOp
      else if has_prefix (cstr ''offline'') ty then Some OfflineOp
      else if has_prefix (cstr ''bind'') ty then Some BindOp
      else if has_prefix (cstr ''unbind'') ty then Some UnbindOp
      else None)"

definition set_result :: "gateway_op \<Rightarrow> int \<Rightarrow> 'w Gateway \<Rightarrow> 'w Gateway" where
  "set_result op r g = g\<lparr>gateway_data := (gateway_data g)(op := (gateway_data g op)\<lparr>rd_result := r\<rparr>)\<rparr>"

text \<open>The answer to an operation: it counts when its client id is a beginning of the one that is waited for.\<close>

definition result_message :: "'w os \<Rightarrow> cstring \<Rightarrow> cstring \<Rightarrow> 'w Gateway \<Rightarrow> 'w Gateway option" where
  "result_message os ty devices_strip g = do {
     (result, g) \<leftarrow> get_json_result os devices_strip g;
     (case result of
        None \<Rightarrow> Some g
      | Some result \<Rightarrow> do {
          (pid, g) \<leftarrow> get_json_product_id os devices_strip g;
          (case pid of
             None \<Rightarrow> Some g
           | Some pid \<Rightarrow> do {
               (name, g) \<leftarrow> get_json_device_name os devices_strip g;
               (case name of
                  None \<Rightarrow> Some g
                | Some name \<Rightarrow>
                    if length (sub_client_id pid name) > MAX_SIZE_OF_CLIENT_ID then Some g
                    else case answered_op ty of
                           None \<Rightarrow> Some g
                         | Some op \<Rightarrow> Some (if has_prefix (sub_client_id pid name) (rd_client_id (gateway_data g op)) then set_result op result g else g))
             })
        })
   }"

definition change_message :: "'w os \<Rightarrow> cstring \<Rightarrow> cstring \<Rightarrow> 'w Gateway \<Rightarrow> 'w Gateway option" where
  "change_message os json_buf devices g = do {
     (status, g) \<leftarrow> get_json_payload_status os json_buf g;
     g \<leftarrow> (case status of
             None \<Rightarrow> Some g
           | Some st \<Rightarrow> subdev_proc_devlist os devices (if st \<noteq> 0 then SUBDEV_OP_BIND else SUBDEV_OP_UNBIND) g);
     let change_status = (case status of None \<Rightarrow> 0 | Some st \<Rightarrow> st);
     (devices, g) \<leftarrow> gateway_ack_change os devices change_status g;
     Some (gateway_event_handler (GatewayChange devices change_status) g)
   }"

definition gateway_message :: "'w os \<Rightarrow> cstring \<Rightarrow> cstring \<Rightarrow> 'w Gateway \<Rightarrow> 'w Gateway option" where
  "gateway_message os json_buf ty g =
     (if has_prefix (cstr ''unbind_all'') ty then do {
        g \<leftarrow> gateway_subdev_unbind_all_reply os (gateway_subdev_unbind_all g);
        Some (gateway_event_handler GatewayUnbindAll g)
      }
      else if has_prefix (cstr ''search_devices'') ty then do {
        (status, g) \<leftarrow> get_json_payload_status os json_buf g;
        (case status of
           None \<Rightarrow> Some g
         | Some st \<Rightarrow> do { g \<leftarrow> gateway_ack_search os st g; Some (gateway_event_handler (GatewaySearch st) g) })
      }
      else if has_prefix (cstr ''describe_sub_devices'') ty then gateway_ack_topo_describe os g
      else do {
        (devices, g) \<leftarrow> get_json_devices os json_buf g;
        (case devices of
           None \<Rightarrow> Some g
         | Some devices \<Rightarrow>
             if has_prefix (cstr ''change'') ty then change_message os json_buf devices g
             else result_message os ty (if deref devices = chr_lbracket then tl devices else devices) g)
      })"

definition gateway_message_handler :: "'w os \<Rightarrow> MQTTMessage \<Rightarrow> 'w Gateway \<Rightarrow> 'w Gateway option" where
  "gateway_message_handler os message g =
     (if msg_topic_len message = 0 \<or> unat (msg_payload_len message) > GATEWAY_RECEIVE_BUFFER_LEN then Some g
      else do {
        let cloud_rcv_len = min (GATEWAY_RECEIVE_BUFFER_LEN - 1) (unat (msg_payload_len message));
        bytes \<leftarrow> buf_read (msg_buf message) (msg_payload message) cloud_rcv_len;
        a \<leftarrow> buf_write (recv_buf g) 0 bytes;
        a \<leftarrow> buf_put a cloud_rcv_len 0;
        let g = g\<lparr>recv_buf := a\<rparr>;
        json_buf \<leftarrow> c_string a;
        (ty, g) \<leftarrow> get_json_type os json_buf g;
        (case ty of None \<Rightarrow> Some g | Some ty \<Rightarrow> gateway_message os json_buf ty g)
      })"

section \<open>Yielding and waiting\<close>

definition run_gateway_callback :: "'w os \<Rightarrow> callback \<Rightarrow> 'w Gateway \<Rightarrow> 'w Gateway option" where
  "run_gateway_callback os cb g =
     (case cb of
        MessageCb f message p \<Rightarrow> if f = gateway_message_fp then gateway_message_handler os message g else Some g
      | EventCb f p ev arg \<Rightarrow> Some (if f = gateway_event_fp \<and> p = gw_self g then gateway_event_handler (MqttEvent ev arg) g else g)
      | SubEventCb f ev p \<Rightarrow> Some g)"

primrec run_gateway_callbacks :: "'w os \<Rightarrow> callback list \<Rightarrow> 'w Gateway \<Rightarrow> 'w Gateway option" where
  "run_gateway_callbacks os [] g = Some g"
| "run_gateway_callbacks os (cb # cbs) g = do { g \<leftarrow> run_gateway_callback os cb g; run_gateway_callbacks os cbs g }"

definition IOT_Gateway_Yield :: "'w os \<Rightarrow> nat \<Rightarrow> 'w Gateway \<Rightarrow> (int \<times> 'w Gateway) option" where
  "IOT_Gateway_Yield os timeout_ms g = do {
     (rc, c) \<leftarrow> IOT_MQTT_Yield os timeout_ms (gw_mqtt g);
     g \<leftarrow> run_gateway_callbacks os (drop (length (trace (gw_mqtt g))) (trace c)) (g\<lparr>gw_mqtt := c\<rparr>);
     Some (rc, g)
   }"

text \<open>
  The two loops that yield while something does not change. They give up when the counter, from 0, is over
  \<^verbatim>\<open>GATEWAY_LOOP_MAX_COUNT\<close>, which is after 101 turns; \<open>n\<close> is the number of turns that are left.
\<close>

primrec yield_while :: "nat \<Rightarrow> 'w os \<Rightarrow> ('w Gateway \<Rightarrow> bool) \<Rightarrow> 'w Gateway \<Rightarrow> (bool \<times> 'w Gateway) option" where
  "yield_while 0 os waits g = Some (\<not> waits g, g)"
| "yield_while (Suc n) os waits g =
     (if \<not> waits g then Some (True, g)
      else do { (rc, g) \<leftarrow> IOT_Gateway_Yield os 200 g; yield_while n os waits g })"

definition gateway_subscribe_unsubscribe_topic ::
  "'w os \<Rightarrow> cstring \<Rightarrow> SubscribeParams \<Rightarrow> bool \<Rightarrow> 'w Gateway \<Rightarrow> (int \<times> 'w Gateway) option" where
  "gateway_subscribe_unsubscribe_topic os filter_text params is_subscribe g =
     (if filter_text = [] then Some (QCLOUD_ERR_INVAL, g)
      else do {
        let g = g\<lparr>gw_sync_status := - 1\<rparr>;
        (rc, c) \<leftarrow> (if is_subscribe then qcloud_iot_mqtt_subscribe os (Some filter_text) (params\<lparr>sp_qos := QOS1\<rparr>) (gw_mqtt g)
                     else qcloud_iot_mqtt_unsubscribe os (Some filter_text) (gw_mqtt g));
        let g = g\<lparr>gw_mqtt := c\<rparr>;
        if rc < 0 then Some (rc, g)
        else do {
          (done, g) \<leftarrow> yield_while (GATEWAY_LOOP_MAX_COUNT + 1) os (\<lambda>g. gw_sync_status g = rc) (g\<lparr>gw_sync_status := rc\<rparr>);
          Some (if \<not> done \<or> gw_sync_status g \<noteq> 0 then QCLOUD_ERR_FAILURE else QCLOUD_RET_SUCCESS, g)
        }
      })"

definition gateway_subscribe_unsubscribe_default :: "'w os \<Rightarrow> GatewayParam \<Rightarrow> 'w Gateway \<Rightarrow> (int \<times> 'w Gateway) option" where
  "gateway_subscribe_unsubscribe_default os param g =
     (case (gp_product_id param, gp_device_name param) of
        (Some pid, Some name) \<Rightarrow>
          let filter_text = cstr ''$gateway/operation/result/'' @ pid @ cstr ''/'' @ name
          in if pid = [] \<or> name = [] then Some (QCLOUD_ERR_INVAL, g)
             else if length filter_text > MAX_SIZE_OF_CLOUD_TOPIC then Some (QCLOUD_ERR_FAILURE, g)
             else gateway_subscribe_unsubscribe_topic os filter_text
                    \<lparr>sp_qos = QOS0, on_message_handler = Some gateway_message_fp, on_sub_event_handler = None, user_data = 0\<rparr> True g
      | _ \<Rightarrow> Some (QCLOUD_ERR_INVAL, g))"

definition gateway_publish_sync :: "'w os \<Rightarrow> cstring \<Rightarrow> PublishParams \<Rightarrow> gateway_op \<Rightarrow> 'w Gateway \<Rightarrow> (int \<times> 'w Gateway) option" where
  "gateway_publish_sync os topic params op g = do {
     let res = rd_result (gateway_data g op);
     (rc, g) \<leftarrow> IOT_Gateway_Publish os topic params g;
     if rc < 0 then Some (QCLOUD_ERR_FAILURE, g)
     else do {
       (done, g) \<leftarrow> yield_while (GATEWAY_LOOP_MAX_COUNT + 1) os (\<lambda>g. rd_result (gateway_data g op) = res) g;
       Some (if \<not> done then QCLOUD_ERR_GATEWAY_SESSION_TIMEOUT
             else if rd_result (gateway_data g op) \<noteq> 0 then QCLOUD_ERR_FAILURE else QCLOUD_RET_SUCCESS, g)
     }
   }"

section \<open>Operations\<close>

definition op_str :: "gateway_op \<Rightarrow> cstring" where
  "op_str op = (case op of OnlineOp \<Rightarrow> cstr ''online'' | OfflineOp \<Rightarrow> cstr ''offline'' | BindOp \<Rightarrow> cstr ''bind''
                | UnbindOp \<Rightarrow> cstr ''unbind'' | GetBindlistOp \<Rightarrow> cstr ''describe_sub_devices'')"

definition status_payload :: "gateway_op \<Rightarrow> cstring \<Rightarrow> cstring \<Rightarrow> cstring" where
  "status_payload op pid name = cstr ''{\"type\":\"'' @ op_str op @ cstr ''\",\"payload\":{\"devices\":[{\"product_id\":\"'' @ pid @
     cstr ''\",\"device_name\":\"'' @ name @ cstr ''\"}]}}''"

definition set_waiting :: "gateway_op \<Rightarrow> cstring \<Rightarrow> 'w Gateway \<Rightarrow> 'w Gateway" where
  "set_waiting op cid g = g\<lparr>gateway_data := (gateway_data g)(op := \<lparr>rd_result = - 2, rd_client_id = cid\<rparr>)\<rparr>"

text \<open>
  What the operations share from the texts of the request to its answer: \<open>Inl\<close> is an error before anything is sent, \<open>Inr\<close> the
  result of the request. A client id of the greatest length that is let through loses its last character.
\<close>

definition gateway_request ::
  "'w os \<Rightarrow> gateway_op \<Rightarrow> cstring \<Rightarrow> cstring \<Rightarrow> cstring \<Rightarrow> cstring \<Rightarrow> 'w Gateway \<Rightarrow> ((int + int) \<times> 'w Gateway) option" where
  "gateway_request os op topic payload sub_pid sub_name g =
     (if length topic > MAX_SIZE_OF_CLOUD_TOPIC then Some (Inl QCLOUD_ERR_FAILURE, g)
      else if length payload > GATEWAY_PAYLOAD_BUFFER_LEN then Some (Inl QCLOUD_ERR_FAILURE, g)
      else if length (sub_client_id sub_pid sub_name) > MAX_SIZE_OF_CLIENT_ID
      then Some (Inl QCLOUD_ERR_FAILURE, g\<lparr>gateway_data := (gateway_data g)(op :=
             (gateway_data g op)\<lparr>rd_client_id := snprintf MAX_SIZE_OF_CLIENT_ID (sub_client_id sub_pid sub_name)\<rparr>)\<rparr>)
      else do {
        (rc, g) \<leftarrow> gateway_publish_sync os topic (qos0_params payload) op
          (set_waiting op (snprintf MAX_SIZE_OF_CLIENT_ID (sub_client_id sub_pid sub_name)) g);
        Some (Inr rc, g)
      })"

text \<open>The session of a device that goes online: an old one that is not online, or a new one.\<close>

definition online_session :: "'w os \<Rightarrow> cstring \<Rightarrow> cstring \<Rightarrow> 'w Gateway \<Rightarrow> ((int + nat) \<times> 'w Gateway) option" where
  "online_session os pid name g =
     (case subdev_find_session g pid name of
        None \<Rightarrow> do {
          (p, g) \<leftarrow> subdev_add_session os pid name g;
          Some (case p of None \<Rightarrow> Inl QCLOUD_ERR_GATEWAY_CREATE_SESSION_FAIL | Some a \<Rightarrow> Inr a, g)
        }
      | Some (a, s) \<Rightarrow> Some (if session_status s = SUBDEV_SEESION_STATUS_ONLINE then Inl QCLOUD_ERR_GATEWAY_SUBDEV_ONLINE else Inr a, g))"

definition IOT_Gateway_Subdev_Online :: "'w os \<Rightarrow> GatewayParam \<Rightarrow> 'w Gateway \<Rightarrow> (int \<times> 'w Gateway) option" where
  "IOT_Gateway_Subdev_Online os param g =
     (case (gp_product_id param, gp_device_name param, gp_subdev_product_id param, gp_subdev_device_name param) of
        (Some pid, Some name, Some sub_pid, Some sub_name) \<Rightarrow>
          if [] \<in> {pid, name, sub_pid, sub_name} then Some (QCLOUD_ERR_INVAL, g)
          else do {
            (session, g) \<leftarrow> online_session os sub_pid sub_name g;
            (case session of
               Inl rc \<Rightarrow> Some (rc, g)
             | Inr session \<Rightarrow> do {
                 (r, g) \<leftarrow> gateway_request os OnlineOp (operation_topic pid name) (status_payload OnlineOp sub_pid sub_name) sub_pid sub_name g;
                 (case r of
                    Inl rc \<Rightarrow> Some (rc, g)
                  | Inr rc \<Rightarrow>
                      if rc \<noteq> QCLOUD_RET_SUCCESS then Some (rc, snd (subdev_remove_session sub_pid sub_name g))
                      else do { g \<leftarrow> set_session_status session SUBDEV_SEESION_STATUS_ONLINE g; Some (QCLOUD_RET_SUCCESS, g) })
               })
          }
      | _ \<Rightarrow> Some (QCLOUD_ERR_INVAL, g))"

definition IOT_Gateway_Subdev_Offline :: "'w os \<Rightarrow> GatewayParam \<Rightarrow> 'w Gateway \<Rightarrow> (int \<times> 'w Gateway) option" where
  "IOT_Gateway_Subdev_Offline os param g =
     (case (gp_product_id param, gp_device_name param, gp_subdev_product_id param, gp_subdev_device_name param) of
        (Some pid, Some name, Some sub_pid, Some sub_name) \<Rightarrow>
          if [] \<in> {pid, name, sub_pid, sub_name} then Some (QCLOUD_ERR_INVAL, g)
          else (case subdev_find_session g sub_pid sub_name of
                  None \<Rightarrow> Some (QCLOUD_ERR_GATEWAY_SESSION_NO_EXIST, g)
                | Some (session, s) \<Rightarrow>
                    if session_status s = SUBDEV_SEESION_STATUS_OFFLINE
                    then Some (QCLOUD_ERR_GATEWAY_SUBDEV_OFFLINE, snd (subdev_remove_session sub_pid sub_name g))
                    else do {
                      (r, g) \<leftarrow> gateway_request os OfflineOp (operation_topic pid name) (status_payload OfflineOp sub_pid sub_name) sub_pid sub_name g;
                      (case r of
                         Inl rc \<Rightarrow> Some (rc, g)
                       | Inr rc \<Rightarrow>
                           if rc \<noteq> QCLOUD_RET_SUCCESS then Some (rc, g)
                           else do {
                             g \<leftarrow> set_session_status session SUBDEV_SEESION_STATUS_OFFLINE g;
                             Some (QCLOUD_RET_SUCCESS, snd (subdev_remove_session sub_pid sub_name g))
                           })
                    })
      | _ \<Rightarrow> Some (QCLOUD_ERR_INVAL, g))"

text \<open>The list that the application gets, or \<open>None\<close> when its own is left as it is.\<close>

definition IOT_Gateway_Subdev_GetBindList ::
  "'w os \<Rightarrow> GatewayParam \<Rightarrow> 'w Gateway \<Rightarrow> (int \<times> (SubdevBindInfo list \<times> int) option \<times> 'w Gateway) option" where
  "IOT_Gateway_Subdev_GetBindList os param g = do {
     pid \<leftarrow> gp_product_id param;
     name \<leftarrow> gp_device_name param;
     let g = g\<lparr>bindlist_head := [], bind_num := 0\<rparr>;
     if length (operation_topic pid name) > MAX_SIZE_OF_CLOUD_TOPIC then Some (QCLOUD_ERR_FAILURE, None, g)
     else do {
       (rc, g) \<leftarrow> gateway_publish_sync os (operation_topic pid name)
         (qos0_params (cstr ''{\"type\":\"'' @ op_str GetBindlistOp @ cstr ''\"}'')) GetBindlistOp (set_result GetBindlistOp (- 1001) g);
       if rc \<noteq> QCLOUD_RET_SUCCESS then Some (rd_result (gateway_data g GetBindlistOp), None, g)
       else Some (QCLOUD_RET_SUCCESS, Some (bindlist_head g, bind_num g), g\<lparr>bindlist_head := [], bind_num := 0\<rparr>)
     }
   }"

text \<open>The device information of a sub-device, with its secret.\<close>

record SubDeviceInfo = DeviceInfo +
  di_device_secret :: cstring

text \<open>
  \<^verbatim>\<open>subdev_bind_hmac_sha1_cal\<close>: the signature of the text with the device secret, in base64. The time is a \<^verbatim>\<open>long\<close> that is printed as an \<^verbatim>\<open>int\<close>.
\<close>

definition int_of_long :: "int \<Rightarrow> int" where
  "int_of_long i = sint (word_of_int i :: 32 word)"

definition bind_sign_text :: "cstring \<Rightarrow> cstring \<Rightarrow> nat \<Rightarrow> int \<Rightarrow> cstring" where
  "bind_sign_text pid name nonce timestamp = pid @ name @ cstr '';'' @ dec_nat nonce @ cstr '';'' @ dec_int (int_of_long timestamp)"

definition subdev_bind_hmac_sha1_cal :: "SubDeviceInfo \<Rightarrow> u8 list \<Rightarrow> nat \<Rightarrow> int \<Rightarrow> (int \<times> u8 list) option" where
  "subdev_bind_hmac_sha1_cal pDevInfo signout nonce timestamp = do {
     let sign_text = snprintf (MAX_SIZE_OF_CLIENT_ID + 48) (bind_sign_text (product_id pDevInfo) (device_name pDevInfo) nonce timestamp);
     (sign_len, sign) \<leftarrow> utils_hmac_sha1_hex sign_text (replicate SUBDEV_BIND_SIGN_LEN 0) (di_device_secret pDevInfo);
     (ret, olen, signout) \<leftarrow> qcloud_iot_utils_base64encode signout (take sign_len sign);
     Some (if olen > length signout then QCLOUD_ERR_FAILURE else ret, signout)
   }"

definition bind_payload :: "cstring \<Rightarrow> cstring \<Rightarrow> cstring \<Rightarrow> nat \<Rightarrow> int \<Rightarrow> cstring" where
  "bind_payload pid name sign nonce timestamp =
     cstr ''{\"type\":\"bind\",\"payload\":{\"devices\":[{\"product_id\":\"'' @ pid @ cstr ''\",\"device_name\":\"'' @ name @
     cstr ''\",\"signature\":\"'' @ sign @ cstr ''\",\"random\":'' @ dec_nat nonce @ cstr '',\"timestamp\":'' @ dec_int (int_of_long timestamp) @
     cstr '',\"signmethod\":\"hmacsha1\",\"authtype\":\"psk\"}]}}''"

text \<open>The result of a request that failed is the answer of the cloud.\<close>

definition request_result :: "gateway_op \<Rightarrow> (int + int) \<times> 'w Gateway \<Rightarrow> int \<times> 'w Gateway" where
  "request_result op = (\<lambda>(r, g). (case r of Inl rc \<Rightarrow> rc
     | Inr rc \<Rightarrow> if rc \<noteq> QCLOUD_RET_SUCCESS then rd_result (gateway_data g op) else QCLOUD_RET_SUCCESS, g))"

definition printed :: "cstring option \<Rightarrow> cstring" where
  "printed p = (case p of None \<Rightarrow> cstr ''null'' | Some s \<Rightarrow> s)"

definition IOT_Gateway_Subdev_Bind :: "'w os \<Rightarrow> GatewayParam \<Rightarrow> SubDeviceInfo \<Rightarrow> 'w Gateway \<Rightarrow> (int \<times> 'w Gateway) option" where
  "IOT_Gateway_Subdev_Bind os param dev g =
     (let topic = operation_topic (printed (gp_product_id param)) (printed (gp_device_name param))
      in if length topic > MAX_SIZE_OF_CLOUD_TOPIC then Some (QCLOUD_ERR_FAILURE, g)
         else do {
           let (nonce, c) = HAL_rand os (srand_time os (gw_mqtt g));
           let (timestamp, w) = HAL_Timer_current_sec os (world c);
           let g = g\<lparr>gw_mqtt := c\<lparr>world := w\<rparr>\<rparr>;
           (rc, sign) \<leftarrow> subdev_bind_hmac_sha1_cal dev (replicate SUBDEV_BIND_SIGN_LEN 0) nonce timestamp;
           if rc \<noteq> QCLOUD_RET_SUCCESS then Some (QCLOUD_ERR_FAILURE, g)
           else do {
             sign \<leftarrow> c_string sign;
             r \<leftarrow> gateway_request os BindOp topic (bind_payload (product_id dev) (device_name dev) sign nonce timestamp) (product_id dev) (device_name dev) g;
             Some (request_result BindOp r)
           }
         })"

definition IOT_Gateway_Subdev_Unbind :: "'w os \<Rightarrow> GatewayParam \<Rightarrow> SubDeviceInfo \<Rightarrow> 'w Gateway \<Rightarrow> (int \<times> 'w Gateway) option" where
  "IOT_Gateway_Subdev_Unbind os param dev g = do {
     r \<leftarrow> gateway_request os UnbindOp (operation_topic (printed (gp_product_id param)) (printed (gp_device_name param)))
            (status_payload UnbindOp (product_id dev) (device_name dev)) (product_id dev) (device_name dev) g;
     Some (request_result UnbindOp r)
   }"

section \<open>Construction\<close>

definition IOT_Gateway_Destroy :: "'w os \<Rightarrow> 'w Gateway \<Rightarrow> (int \<times> 'w) option" where
  "IOT_Gateway_Destroy os g = do { (rc, c) \<leftarrow> IOT_MQTT_Destroy os (gw_mqtt g); Some (QCLOUD_RET_SUCCESS, world c) }"

definition IOT_Gateway_Construct :: "'w os \<Rightarrow> MQTTInitParams \<Rightarrow> 'w \<Rightarrow> ('w + 'w Gateway) option" where
  "IOT_Gateway_Construct os init_param w =
     (case os_malloc os w of
        (None, w) \<Rightarrow> Some (Inl w)
      | (Some self, w) \<Rightarrow> do {
          m \<leftarrow> IOT_MQTT_Construct os (init_param\<lparr>ip_event_handle := \<lparr>h_fp = Some gateway_event_fp, h_context = self\<rparr>\<rparr>) w;
          (case m of
             Inl w \<Rightarrow> Some (Inl w)
           | Inr c \<Rightarrow> do {
               (rc, g) \<leftarrow> gateway_subscribe_unsubscribe_default os
                  \<lparr>gp_product_id = ip_product_id init_param, gp_device_name = ip_device_name init_param, gp_subdev_product_id = None, gp_subdev_device_name = None\<rparr>
                  \<lparr>gw_mqtt = c, session_list = [], bindlist_head = [], bind_num = 0, gw_sync_status = 0,
                   gateway_data = (\<lambda>op. \<lparr>rd_result = 0, rd_client_id = []\<rparr>), gw_event_handle = ip_event_handle init_param,
                   recv_buf = replicate GATEWAY_RECEIVE_BUFFER_LEN 0, gw_self = self, gw_calls = []\<rparr>;
               if rc \<noteq> QCLOUD_RET_SUCCESS then do { (rc, w) \<leftarrow> IOT_Gateway_Destroy os g; Some (Inl w) }
               else Some (Inr g)
             })
        })"

definition IOT_Gateway_Subscribe :: "'w os \<Rightarrow> cstring option \<Rightarrow> SubscribeParams \<Rightarrow> 'w Gateway \<Rightarrow> (int \<times> 'w Gateway) option" where
  "IOT_Gateway_Subscribe os filter_text params g = do {
     (rc, c) \<leftarrow> qcloud_iot_mqtt_subscribe os filter_text params (gw_mqtt g);
     Some (rc, g\<lparr>gw_mqtt := c\<rparr>)
   }"

definition IOT_Gateway_Unsubscribe :: "'w os \<Rightarrow> cstring option \<Rightarrow> 'w Gateway \<Rightarrow> (int \<times> 'w Gateway) option" where
  "IOT_Gateway_Unsubscribe os filter_text g = do {
     (rc, c) \<leftarrow> qcloud_iot_mqtt_unsubscribe os filter_text (gw_mqtt g);
     Some (rc, g\<lparr>gw_mqtt := c\<rparr>)
   }"

definition IOT_Gateway_IsSubReady :: "cstring option \<Rightarrow> 'w Gateway \<Rightarrow> bool" where
  "IOT_Gateway_IsSubReady filter_text g = qcloud_iot_mqtt_is_sub_ready filter_text (gw_mqtt g)"

end
