(* ===== verification/Gw_Service.thy ===== *)
theory Gw_Service
  imports Gw_Client
begin

text \<open>
  What the operations of the gateway keep: the client and the lists well-formed, whatever messages come in while they wait; and the
  sessions as a map from devices to what is known of them, with what going online and offline may do to it.
\<close>

section \<open>What the messages of the cloud keep\<close>

definition binds_ok :: "'w Gateway \<Rightarrow> bool" where
  "binds_ok g \<longleftrightarrow> bind_num g = int (length (bindlist_head g)) \<and>
     (\<forall>b \<in> set (bindlist_head g). length (bi_product_id b) \<le> MAX_SIZE_OF_PRODUCT_ID \<and> length (bi_device_name b) \<le> MAX_SIZE_OF_DEVICE_NAME)"

text \<open>
  The client stays well-formed, the sessions stay as they are or are all gone, the list of bound devices stays
  well-formed, and neither the ids that are waited for nor the result of a request for the list change.
\<close>

definition kept :: "'w os \<Rightarrow> 'w Gateway \<Rightarrow> 'w Gateway \<Rightarrow> bool" where
  "kept os g g' \<longleftrightarrow> (kernel_ok os \<and> client_inv os (gw_mqtt g) \<longrightarrow> client_inv os (gw_mqtt g')) \<and>
     length (recv_buf g') = length (recv_buf g) \<and> (session_list g' = session_list g \<or> session_list g' = []) \<and>
     gateway_data g' GetBindlistOp = gateway_data g GetBindlistOp \<and>
     (\<forall>op. rd_client_id (gateway_data g' op) = rd_client_id (gateway_data g op)) \<and> (binds_ok g \<longrightarrow> binds_ok g')"

lemma kept_refl [simp]: "kept os g g"
  by (simp add: kept_def)

lemma kept_trans: "kept os g1 g2 \<Longrightarrow> kept os g2 g3 \<Longrightarrow> kept os g1 g3"
  by (auto simp: kept_def)

lemma kept_mqtt: "(kernel_ok os \<Longrightarrow> client_inv os (gw_mqtt g) \<Longrightarrow> client_inv os c) \<Longrightarrow> kept os g (g\<lparr>gw_mqtt := c\<rparr>)"
  by (simp add: kept_def binds_ok_def)

lemma kept_step: "kept os g0 g \<Longrightarrow> kept os g g' \<Longrightarrow> kept os g0 g'"
  by (rule kept_trans)

lemma json_value_kept: "kept os g0 g \<Longrightarrow> wp (json_value_in os' key json g) (\<lambda>(v, g'). kept os g0 g')"
  by (auto simp: json_value_in_def intro!: wp_I kept_step [OF _ kept_mqtt])

lemma int32_kept: "kept os g0 (snd x) \<Longrightarrow> wp (int32_of x) (\<lambda>(v, g'). kept os g0 g')"
  by (auto simp: int32_of_def intro!: wp_I split: prod.split option.split)

lemma json_fields_kept:
  assumes "kept os g0 g"
  shows "wp (get_json_type os' json g) (\<lambda>(v, g'). kept os g0 g')" "wp (get_json_devices os' json g) (\<lambda>(v, g'). kept os g0 g')"
    "wp (get_json_product_id os' json g) (\<lambda>(v, g'). kept os g0 g')" "wp (get_json_device_name os' json g) (\<lambda>(v, g'). kept os g0 g')"
    "wp (get_json_result os' json g) (\<lambda>(v, g'). kept os g0 g')" "wp (get_json_payload_status os' json g) (\<lambda>(v, g'). kept os g0 g')"
  using json_value_kept [OF assms] wp_D [OF json_value_kept [OF assms]]
  by (auto simp: get_json_type_def get_json_devices_def get_json_product_id_def get_json_device_name_def get_json_result_def
      get_json_payload_status_def intro!: wp_I dest!: int32_kept [THEN wp_D2, rotated])

lemma publish_kept: "kept os g0 g \<Longrightarrow> wp (IOT_Gateway_Publish os' topic params g) (\<lambda>(rc, g'). kept os g0 g')"
  by (auto simp: IOT_Gateway_Publish_def intro!: wp_I kept_step [OF _ kept_mqtt] dest!: publish_inv [THEN wp_D3, rotated])

lemma send_reply_kept: "kept os g0 g \<Longrightarrow> wp (send_reply os' a g) (kept os g0)"
  by (auto simp: send_reply_def intro!: wp_I dest!: publish_kept [THEN wp_D2, rotated])

lemma unbind_device_subset: "unbind_device pid name bs = Some bs' \<Longrightarrow> set bs' \<subseteq> set bs \<and> length bs = Suc (length bs')"
  by (induction bs arbitrary: bs') (fastforce split: if_splits)+

lemma bindinfo_kept:
  "kept os g (snd (subdev_add_bindinfo os' pid name g))" "kept os g (snd (subdev_unbind_device pid name g))"
  by (auto simp: subdev_add_bindinfo_def subdev_unbind_device_def kept_def binds_ok_def env_inv split: option.split prod.split dest: unbind_device_subset)

lemma add_bindinfo_kept: "subdev_add_bindinfo os' pid name g = (b, g') \<Longrightarrow> kept os g0 g \<Longrightarrow> kept os g0 g'"
  and unbind_device_kept: "subdev_unbind_device pid name g = (b, g') \<Longrightarrow> kept os g0 g \<Longrightarrow> kept os g0 g'"
  using bindinfo_kept [of os g] by (metis kept_step snd_conv)+

lemma proc_devlist_kept: "kept os g0 g \<Longrightarrow> wp (proc_devlist_loop os' ty inside es stale g) (kept os g0)"
proof (induction es arbitrary: stale g)
  case (Cons e es)
  then show ?case
    unfolding proc_devlist_loop.simps Let_def
    by (auto intro!: wp_I split: option.split prod.split option.split_asm prod.split_asm if_split_asm
        dest!: json_fields_kept(3,4) [THEN wp_D2, rotated] add_bindinfo_kept unbind_device_kept dest: wp_D [OF Cons.IH])
qed simp

lemma ack_change_kept: "kept os g0 g \<Longrightarrow> wp (ack_change_loop os' inside es first devices b g) (\<lambda>(b, devices, g'). kept os g0 g')"
proof (induction es arbitrary: first devices b g)
  case (Cons e es)
  then show ?case
    unfolding ack_change_loop.simps
    by (auto intro!: wp_I split: option.split prod.split option.split_asm prod.split_asm if_split_asm
        dest!: json_fields_kept(3,4) [THEN wp_D2, rotated] dest: wp_D [OF Cons.IH])
qed simp

lemma event_handler_kept: "kept os g0 g \<Longrightarrow> kept os g0 (gateway_event_handler ev g)"
  by (erule kept_step) (auto simp: gateway_event_handler_def kept_def binds_ok_def Let_def split: option.split)

lemma change_ack_kept: "kept os g0 g \<Longrightarrow> wp (gateway_ack_change os' devices st g) (\<lambda>(devices, g'). kept os g0 g')"
  unfolding gateway_ack_change_def Let_def
  by (auto intro!: wp_I split: prod.split_asm simp: bind_Some_iff
      dest!: ack_change_kept [THEN wp_D3, rotated] send_reply_kept [THEN wp_D, rotated])

lemma acks_kept:
  assumes "kept os g0 g"
  shows "wp (gateway_ack_topo_describe os' g) (kept os g0)" "wp (gateway_ack_search os' st g) (kept os g0)"
    "wp (gateway_subdev_unbind_all_reply os' g) (kept os g0)"
  using assms by (auto simp: gateway_ack_topo_describe_def gateway_ack_search_def gateway_subdev_unbind_all_reply_def intro!: wp_I
      dest!: send_reply_kept [THEN wp_D, rotated])

lemma unbind_all_kept: "kept os g0 g \<Longrightarrow> kept os g0 (gateway_subdev_unbind_all g)"
  by (erule kept_step) (auto simp: gateway_subdev_unbind_all_def kept_def binds_ok_def)

lemma set_result_kept: "kept os g0 g \<Longrightarrow> answered_op ty = Some op \<Longrightarrow> kept os g0 (set_result op r g)"
  by (erule kept_step) (auto simp: set_result_def kept_def binds_ok_def answered_op_def split: if_splits)

lemma result_message_kept: "kept os g0 g \<Longrightarrow> wp (result_message os' ty d g) (kept os g0)"
  unfolding result_message_def
  by (auto intro!: wp_I set_result_kept split: option.split dest!: json_fields_kept(3,4,5) [THEN wp_D2, rotated])

lemma change_message_kept: "kept os g0 g \<Longrightarrow> wp (change_message os' json d g) (kept os g0)"
  unfolding change_message_def Let_def
  by (auto intro!: wp_I event_handler_kept split: option.split option.split_asm simp: subdev_proc_devlist_def split_beta
      dest!: json_fields_kept(6) [THEN wp_D2, rotated] proc_devlist_kept [THEN wp_D, rotated] change_ack_kept [THEN wp_D2, rotated])

lemma gateway_message_kept: "kept os g0 g \<Longrightarrow> wp (gateway_message os' json ty g) (kept os g0)"
  unfolding gateway_message_def
  by (auto intro!: wp_I event_handler_kept split: option.split
      dest!: acks_kept(1,2) [THEN wp_D, rotated] acks_kept(3) [OF unbind_all_kept, THEN wp_D, rotated] json_fields_kept(2,6) [THEN wp_D2, rotated]
      change_message_kept [THEN wp_D, rotated] result_message_kept [THEN wp_D, rotated])

lemma message_handler_kept: "kept os g0 g \<Longrightarrow> wp (gateway_message_handler os' m g) (kept os g0)"
proof -
  assume k: "kept os g0 g"
  have buf: "kept os g0 (g\<lparr>recv_buf := b\<rparr>)" if "length b = length (recv_buf g)" for b
    by (rule kept_step [OF k]) (use that in \<open>simp add: kept_def binds_ok_def\<close>)
  show ?thesis
    using k unfolding gateway_message_handler_def Let_def
    by (auto intro!: wp_I split: option.split simp: buf
        dest!: json_fields_kept(1) [THEN wp_D2, rotated] gateway_message_kept [THEN wp_D, rotated] length_buf_write length_buf_put)
qed

lemma callback_kept: "kept os g0 g \<Longrightarrow> wp (run_gateway_callback os' cb g) (kept os g0)"
  by (auto simp: run_gateway_callback_def message_handler_kept event_handler_kept split: callback.split)

lemma callbacks_kept: "kept os g0 g \<Longrightarrow> wp (run_gateway_callbacks os' cbs g) (kept os g0)"
  by (induction cbs arbitrary: g) (auto intro: wp_mono [OF callback_kept])

lemma Yield_kept: "kept os g0 g \<Longrightarrow> wp (IOT_Gateway_Yield os ms g) (\<lambda>(rc, g'). kept os g0 g')"
proof -
  assume k: "kept os g0 g"
  have "kept os g0 (g\<lparr>gw_mqtt := c\<rparr>)" if "IOT_MQTT_Yield os ms (gw_mqtt g) = Some (rc, c)" for rc c
    using that by (intro kept_step [OF k kept_mqtt]) (auto simp: IOT_MQTT_Yield_def dest: yield_inv [THEN wp_D2, rotated])
  then show ?thesis unfolding IOT_Gateway_Yield_def by (auto intro!: wp_I dest!: callbacks_kept [THEN wp_D, rotated])
qed

lemma yield_while_kept: "kept os g0 g \<Longrightarrow> wp (yield_while n os waits g) (\<lambda>(b, g'). kept os g0 g' \<and> b = (\<not> waits g'))"
proof (induction n arbitrary: g)
  case (Suc n)
  have "kept os g0 g' \<and> b = (\<not> waits g')" if "IOT_Gateway_Yield os 200 g = Some (rc, g1)" "yield_while n os waits g1 = Some (b, g')" for rc g1 b g'
    using wp_D2 [OF Suc.IH, of g1 b g'] wp_D2 [OF Yield_kept [OF Suc.prems] that(1)] that(2) by blast
  with Suc.prems show ?case by (auto intro!: wp_I)
qed simp

lemma publish_sync_kept:
  assumes "kept os g0 g"
  shows "wp (gateway_publish_sync os topic params op g) (\<lambda>(rc, g'). kept os g0 g' \<and> (rc = QCLOUD_RET_SUCCESS \<longrightarrow> rd_result (gateway_data g' op) = 0) \<and>
     (rc = QCLOUD_RET_SUCCESS \<longrightarrow> rd_result (gateway_data g op) \<noteq> 0))"
  using assms unfolding gateway_publish_sync_def Let_def
  by (auto intro!: wp_I dest!: publish_kept [THEN wp_D2, rotated] yield_while_kept [THEN wp_D2, rotated] simp del: yield_while.simps)

section \<open>Sessions as a map\<close>

definition session_key :: "SubdevSession \<Rightarrow> cstring \<times> cstring" where
  "session_key s = (ss_product_id s, ss_device_name s)"

definition key_ok :: "cstring \<times> cstring \<Rightarrow> bool" where
  "key_ok k \<longleftrightarrow> fst k \<noteq> [] \<and> snd k \<noteq> [] \<and> length (fst k) \<le> MAX_SIZE_OF_PRODUCT_ID \<and> length (snd k) \<le> MAX_SIZE_OF_DEVICE_NAME"

definition sessions_ok :: "(nat \<times> SubdevSession) list \<Rightarrow> bool" where
  "sessions_ok l \<longleftrightarrow> distinct (map (session_key \<circ> snd) l) \<and> (\<forall>x \<in> set l. key_ok (session_key (snd x)))"

definition session_map :: "(nat \<times> SubdevSession) list \<Rightarrow> cstring \<times> cstring \<rightharpoonup> SubdevSessionStatus" where
  "session_map l = map_of (map (\<lambda>x. (session_key (snd x), session_status (snd x))) l)"

lemma session_map_Nil [simp]: "session_map [] = Map.empty"
  by (simp add: session_map_def)

lemma session_map_Cons [simp]: "session_map (x # l) = (session_map l)(session_key (snd x) \<mapsto> session_status (snd x))"
  by (simp add: session_map_def)

lemma session_map_None: "session_map l k = None \<longleftrightarrow> k \<notin> (session_key \<circ> snd) ` set l"
  by (auto simp: session_map_def map_of_eq_None_iff image_iff)

lemma session_map_mem: "sessions_ok l \<Longrightarrow> x \<in> set l \<Longrightarrow> session_map l (session_key (snd x)) = Some (session_status (snd x))"
  unfolding session_map_def by (intro map_of_is_SomeI) (auto simp: sessions_ok_def comp_def)

lemma find_session_map:
  assumes "subdev_find_session g pid name = r" and "pid \<noteq> []" "name \<noteq> []"
  shows "case r of None \<Rightarrow> session_map (session_list g) (pid, name) = None
         | Some x \<Rightarrow> x \<in> set (session_list g) \<and> session_key (snd x) = (pid, name)"
proof (cases r)
  case None
  then show ?thesis using assms by (auto simp: subdev_find_session_def session_map_None session_key_def find_None_iff) blast
next
  case (Some x)
  then show ?thesis using assms by (cases x) (auto simp: subdev_find_session_def session_key_def find_Some_iff in_set_conv_nth)
qed

lemma remove_session_map:
  assumes "key_ok (pid, name)"
  shows "sessions_ok l \<Longrightarrow> case remove_session pid name l of None \<Rightarrow> session_map l (pid, name) = None
     | Some l' \<Rightarrow> session_map l' = (session_map l)((pid, name) := None) \<and> sessions_ok l' \<and> set l' \<subseteq> set l \<and>
         (distinct (map fst l) \<longrightarrow> distinct (map fst l'))"
proof (induction l)
  case (Cons x l)
  have ok: "sessions_ok l" "key_ok (session_key (snd x))" "session_key (snd x) \<notin> (session_key \<circ> snd) ` set l"
    using Cons.prems by (auto simp: sessions_ok_def image_iff)
  define same where "same \<longleftrightarrow> take MAX_SIZE_OF_PRODUCT_ID (ss_product_id (snd x)) = take MAX_SIZE_OF_PRODUCT_ID pid \<and>
      take MAX_SIZE_OF_DEVICE_NAME (ss_device_name (snd x)) = take MAX_SIZE_OF_DEVICE_NAME name"
  have same: "same \<longleftrightarrow> session_key (snd x) = (pid, name)" using assms ok(2) by (simp add: same_def key_ok_def session_key_def)
  have step: "remove_session pid name (x # l) = (if same then Some l else map_option (Cons x) (remove_session pid name l))"
    by (simp add: same_def)
  show ?case
  proof (cases "session_key (snd x) = (pid, name)")
    case True
    then have "session_map l (pid, name) = None" using ok(3) by (simp add: session_map_None)
    with True same ok(1) show ?thesis unfolding step by auto
  next
    case False
    with Cons.IH [OF ok(1)] ok same show ?thesis
      unfolding step by (auto simp: sessions_ok_def fun_upd_twist split: option.splits)
  qed
qed simp

lemma subdev_remove_session_map:
  assumes "key_ok (pid, name)" and "sessions_ok (session_list g)"
  shows "session_map (session_list (snd (subdev_remove_session pid name g))) = (session_map (session_list g))((pid, name) := None)"
    "sessions_ok (session_list (snd (subdev_remove_session pid name g)))"
    "distinct (map fst (session_list g)) \<Longrightarrow> distinct (map fst (session_list (snd (subdev_remove_session pid name g))))"
  using remove_session_map [OF assms] assms
  by (auto simp: subdev_remove_session_def key_ok_def split: option.splits intro: fun_upd_idem [symmetric])

lemma set_status_map:
  assumes "sessions_ok (session_list g)" and "(a, s) \<in> set (session_list g)" and "distinct (map fst (session_list g))"
    and "set_session_status a st g = Some g'"
  shows "session_map (session_list g') = (session_map (session_list g))(session_key s \<mapsto> st)" "sessions_ok (session_list g')"
    "distinct (map fst (session_list g'))"
proof -
  let ?f = "\<lambda>(b, s). (b, if b = a then s\<lparr>session_status := st\<rparr> else s)"
  have l: "session_list g' = map ?f (session_list g)" using assms(4) by (auto simp: set_session_status_def split: if_splits)
  have f: "fst (?f x) = fst x" "session_key (snd (?f x)) = session_key (snd x)" for x by (cases x; simp add: session_key_def)+
  then have keys: "map (session_key \<circ> snd) (map ?f l) = map (session_key \<circ> snd) l" "map fst (map ?f l) = map fst l" for l by simp_all
  show "sessions_ok (session_list g')" using assms(1) f(2) unfolding l sessions_ok_def keys by auto
  show "distinct (map fst (session_list g'))" using assms(3) unfolding l keys .
  have "sessions_ok l \<Longrightarrow> (a, s) \<in> set l \<Longrightarrow> distinct (map fst l) \<Longrightarrow> session_map (map ?f l) = (session_map l)(session_key s \<mapsto> st)" for l
  proof (induction l)
    case (Cons x l)
    obtain b s' where x: "x = (b, s')" by (cases x)
    have key: "session_key (if b = a then s'\<lparr>session_status := st\<rparr> else s') = session_key s'" by (simp add: session_key_def)
    show ?case
    proof (cases "b = a")
      case True
      then have "map ?f l = l" using Cons.prems(3) by (intro map_idI) (force simp: x)
      moreover have "s' = s" using Cons.prems(2,3) True by (auto simp: x image_iff)
      ultimately show ?thesis using True by (auto simp: x session_key_def fun_eq_iff)
    next
      case False
      then have "(a, s) \<in> set l" using Cons.prems(2) by (simp add: x)
      moreover have "sessions_ok l" "distinct (map fst l)" using Cons.prems by (simp_all add: sessions_ok_def)
      ultimately have "session_map (map ?f l) = (session_map l)(session_key s \<mapsto> st)" using Cons.IH by blast
      moreover have "session_key s' \<noteq> session_key s" using Cons.prems(1) \<open>(a, s) \<in> set l\<close> by (force simp: sessions_ok_def x)
      ultimately have "session_map (map ?f (x # l)) k = ((session_map (x # l))(session_key s \<mapsto> st)) k" for k using False by (simp add: x)
      then show ?thesis by blast
    qed
  qed simp
  then show "session_map (session_list g') = (session_map (session_list g))(session_key s \<mapsto> st)" using assms(1-3) l by simp
qed

lemma add_session_map:
  assumes "subdev_add_session os' pid name g = Some (p, g')" and "session_map (session_list g) (pid, name) = None"
    and "sessions_ok (session_list g)" "distinct (map fst (session_list g))" and "fst (os_malloc os' (world (gw_mqtt g))) \<notin> Some ` fst ` set (session_list g)"
  shows "kept os g (g'\<lparr>session_list := session_list g\<rparr>)"
    "case p of None \<Rightarrow> session_list g' = session_list g
     | Some a \<Rightarrow> \<exists>s. session_list g' = (a, s) # session_list g \<and> session_key s = (pid, name) \<and> session_status s = SUBDEV_SEESION_STATUS_INIT \<and>
         key_ok (pid, name) \<and> sessions_ok (session_list g') \<and> distinct (map fst (session_list g'))"
proof -
  have fresh: "a \<notin> fst ` set (session_list g)" if "HAL_Malloc os' (gw_mqtt g) = (Some a, c)" for a c
    using assms(5) that by (cases "os_malloc os' (world (gw_mqtt g))") (auto simp: HAL_Malloc_def)
  have new: "(pid, name) \<notin> (session_key \<circ> snd) ` set (session_list g)" using assms(2) by (simp add: session_map_None)
  show "kept os g (g'\<lparr>session_list := session_list g\<rparr>)"
    using assms(1) by (auto simp: subdev_add_session_def kept_def binds_ok_def env_inv split: if_splits option.splits prod.splits)
  show "case p of None \<Rightarrow> session_list g' = session_list g
     | Some a \<Rightarrow> \<exists>s. session_list g' = (a, s) # session_list g \<and> session_key s = (pid, name) \<and> session_status s = SUBDEV_SEESION_STATUS_INIT \<and>
         key_ok (pid, name) \<and> sessions_ok (session_list g') \<and> distinct (map fst (session_list g'))"
    using assms(1,3,4) new fresh
    by (auto simp: subdev_add_session_def sessions_ok_def session_key_def key_ok_def image_iff split: if_splits option.splits prod.splits)
qed

text \<open>A request fails before anything is sent, or has its result after the messages that came in meanwhile.\<close>

lemma request_cases:
  assumes "gateway_request os op topic payload pid name g = Some (r, g')"
  shows "(r = Inl QCLOUD_ERR_FAILURE \<and> session_list g' = session_list g \<and> gw_mqtt g' = gw_mqtt g \<and> recv_buf g' = recv_buf g \<and> (binds_ok g \<longrightarrow> binds_ok g')) \<or>
     (\<exists>rc g0. r = Inr rc \<and> session_list g0 = session_list g \<and> gw_mqtt g0 = gw_mqtt g \<and> recv_buf g0 = recv_buf g \<and> (binds_ok g \<longrightarrow> binds_ok g0) \<and>
        kept os g0 g' \<and> (rc = QCLOUD_RET_SUCCESS \<longrightarrow> rd_result (gateway_data g' op) = 0) \<and>
        rc \<in> {QCLOUD_RET_SUCCESS, QCLOUD_ERR_FAILURE, QCLOUD_ERR_GATEWAY_SESSION_TIMEOUT})"
proof -
  let ?g = "set_waiting op (snprintf MAX_SIZE_OF_CLIENT_ID (sub_client_id pid name)) g"
  have g: "session_list ?g = session_list g" "gw_mqtt ?g = gw_mqtt g" "recv_buf ?g = recv_buf g" "binds_ok ?g = binds_ok g"
    by (simp_all add: set_waiting_def binds_ok_def)
  have codes: "rc \<in> {QCLOUD_RET_SUCCESS, QCLOUD_ERR_FAILURE, QCLOUD_ERR_GATEWAY_SESSION_TIMEOUT}"
    if "gateway_publish_sync os topic p op g0 = Some (rc, g1)" for p g0 rc g1
    using that unfolding gateway_publish_sync_def Let_def by (auto simp: bind_Some_iff simp del: yield_while.simps split: if_splits)
  consider (early) "r = Inl QCLOUD_ERR_FAILURE" "session_list g' = session_list g" "gw_mqtt g' = gw_mqtt g" "recv_buf g' = recv_buf g" "binds_ok g \<longrightarrow> binds_ok g'"
    | (sent) rc where "r = Inr rc" "gateway_publish_sync os topic (qos0_params payload) op ?g = Some (rc, g')"
    using assms unfolding gateway_request_def by (auto simp: bind_Some_iff binds_ok_def split: if_splits)
  then show ?thesis
  proof cases
    case (sent rc)
    with wp_D2 [OF publish_sync_kept [OF kept_refl] sent(2)] codes [OF sent(2)] g show ?thesis by blast
  qed simp
qed

section \<open>Going online and offline\<close>

text \<open>
  What an operation may do to the map of the sessions, by its result: go online, go offline, or leave the sessions as they are,
  with or without the one of the device, or without any when the cloud has unbound all of them meanwhile.
\<close>

definition online_outcome :: "cstring \<times> cstring \<Rightarrow> (cstring \<times> cstring \<rightharpoonup> SubdevSessionStatus) \<Rightarrow> int \<Rightarrow> (cstring \<times> cstring \<rightharpoonup> SubdevSessionStatus) \<Rightarrow> bool" where
  "online_outcome k m rc m' \<longleftrightarrow>
     (if rc = QCLOUD_RET_SUCCESS then m k \<noteq> Some SUBDEV_SEESION_STATUS_ONLINE \<and> m' = m(k \<mapsto> SUBDEV_SEESION_STATUS_ONLINE)
      else if rc = QCLOUD_ERR_GATEWAY_SUBDEV_ONLINE then m k = Some SUBDEV_SEESION_STATUS_ONLINE \<and> m' = m
      else if rc = QCLOUD_ERR_GATEWAY_SESSION_TIMEOUT then m k \<noteq> Some SUBDEV_SEESION_STATUS_ONLINE \<and> (m' = m(k := None) \<or> m' = Map.empty)
      else m' = m \<or> m k \<noteq> Some SUBDEV_SEESION_STATUS_ONLINE \<and> (m' = m(k := None) \<or> m' = m(k \<mapsto> SUBDEV_SEESION_STATUS_INIT) \<or> m' = Map.empty))"

definition offline_outcome :: "cstring \<times> cstring \<Rightarrow> (cstring \<times> cstring \<rightharpoonup> SubdevSessionStatus) \<Rightarrow> int \<Rightarrow> (cstring \<times> cstring \<rightharpoonup> SubdevSessionStatus) \<Rightarrow> bool" where
  "offline_outcome k m rc m' \<longleftrightarrow>
     (if rc = QCLOUD_RET_SUCCESS then m k \<noteq> None \<and> m' = m(k := None)
      else if rc = QCLOUD_ERR_GATEWAY_SESSION_NO_EXIST then m k = None \<and> m' = m
      else if rc = QCLOUD_ERR_GATEWAY_SUBDEV_OFFLINE then m k = Some SUBDEV_SEESION_STATUS_OFFLINE \<and> m' = m(k := None)
      else m' = m \<or> m' = Map.empty)"

definition gateway_inv :: "'w os \<Rightarrow> 'w Gateway \<Rightarrow> bool" where
  "gateway_inv os g \<longleftrightarrow> client_inv os (gw_mqtt g) \<and> length (recv_buf g) = GATEWAY_RECEIVE_BUFFER_LEN \<and> sessions_ok (session_list g) \<and> binds_ok g"

text \<open>What a session is for: where its request comes from and what becomes of it.\<close>

lemma online_session_found:
  assumes inv: "sessions_ok (session_list g)" "distinct (map fst (session_list g))" and "fst (os_malloc os (world (gw_mqtt g))) \<notin> Some ` fst ` set (session_list g)"
    and pn: "pid \<noteq> []" "name \<noteq> []"
    and eq: "online_session os pid name g = Some (r, g1)"
  shows "kept os g (g1\<lparr>session_list := session_list g\<rparr>) \<and> (case r of
      Inl rc \<Rightarrow> session_list g1 = session_list g \<and> (rc = QCLOUD_ERR_GATEWAY_CREATE_SESSION_FAIL \<or>
        rc = QCLOUD_ERR_GATEWAY_SUBDEV_ONLINE \<and> session_map (session_list g) (pid, name) = Some SUBDEV_SEESION_STATUS_ONLINE)
    | Inr a \<Rightarrow> key_ok (pid, name) \<and> sessions_ok (session_list g1) \<and> distinct (map fst (session_list g1)) \<and>
        (\<exists>s. (a, s) \<in> set (session_list g1) \<and> session_key s = (pid, name)) \<and> session_map (session_list g) (pid, name) \<noteq> Some SUBDEV_SEESION_STATUS_ONLINE \<and>
        session_map (session_list g1) \<in> {session_map (session_list g), (session_map (session_list g))((pid, name) \<mapsto> SUBDEV_SEESION_STATUS_INIT)})"
proof (cases "subdev_find_session g pid name")
  case None
  have none: "session_map (session_list g) (pid, name) = None" using find_session_map [OF None pn] by simp
  from eq None obtain p where p: "subdev_add_session os pid name g = Some (p, g1)"
    and r: "r = (case p of None \<Rightarrow> Inl QCLOUD_ERR_GATEWAY_CREATE_SESSION_FAIL | Some a \<Rightarrow> Inr a)" by (auto simp: online_session_def bind_Some_iff)
  show ?thesis
    using add_session_map [OF p none inv assms(3)] none unfolding r by (cases p) auto
next
  case (Some x)
  obtain a s where x: "x = (a, s)" by (cases x)
  have mem: "(a, s) \<in> set (session_list g)" "session_key s = (pid, name)" using find_session_map [OF Some pn] by (simp_all add: x)
  have "session_map (session_list g) (pid, name) = Some (session_status s)" using session_map_mem [OF inv(1) mem(1)] mem(2) by simp
  moreover have "key_ok (pid, name)" using inv(1) mem by (force simp: sessions_ok_def)
  ultimately show ?thesis using eq Some mem inv by (auto simp: online_session_def x split: if_splits)
qed

lemma online_refines:
  assumes inv: "sessions_ok (session_list g)" "distinct (map fst (session_list g))" and fresh: "fst (os_malloc os (world (gw_mqtt g))) \<notin> Some ` fst ` set (session_list g)"
    and param: "gp_subdev_product_id param = Some pid" "gp_subdev_device_name param = Some name"
    and run: "IOT_Gateway_Subdev_Online os param g = Some (rc, g')"
  shows "online_outcome (pid, name) (session_map (session_list g)) rc (session_map (session_list g'))"
    and "rc = QCLOUD_RET_SUCCESS \<Longrightarrow> rd_result (gateway_data g' OnlineOp) = 0"
proof -
  let ?goal = "online_outcome (pid, name) (session_map (session_list g)) rc (session_map (session_list g')) \<and>
    (rc = QCLOUD_RET_SUCCESS \<longrightarrow> rd_result (gateway_data g' OnlineOp) = 0)"
  have ?goal
  proof (cases "rc = QCLOUD_ERR_INVAL \<and> g' = g")
    case True
    then show ?thesis by (simp add: online_outcome_def)
  next
    case False
    then obtain gp gn r g1 where pn: "pid \<noteq> []" "name \<noteq> []" and
      r: "online_session os pid name g = Some (r, g1)"
      and rest: "(case r of
               Inl rc \<Rightarrow> Some (rc, g1)
             | Inr session \<Rightarrow> do {
                 (r, g) \<leftarrow> gateway_request os OnlineOp (operation_topic gp gn) (status_payload OnlineOp pid name) pid name g1;
                 (case r of
                    Inl rc \<Rightarrow> Some (rc, g)
                  | Inr rc \<Rightarrow>
                      if rc \<noteq> QCLOUD_RET_SUCCESS then Some (rc, snd (subdev_remove_session pid name g))
                      else do { g \<leftarrow> set_session_status session SUBDEV_SEESION_STATUS_ONLINE g; Some (QCLOUD_RET_SUCCESS, g) })
               }) = Some (rc, g')"
      using run unfolding IOT_Gateway_Subdev_Online_def param by (auto simp: bind_Some_iff split: option.split_asm if_split_asm)
    show ?thesis
    proof (cases r)
      case (Inl rc')
      then have "rc = rc'" "g' = g1" using rest by simp_all
      then show ?thesis using online_session_found [OF inv fresh pn r] by (auto simp: Inl online_outcome_def)
    next
      case (Inr a)
      let ?m = "session_map (session_list g)" and ?m1 = "session_map (session_list g1)" and ?k = "(pid, name)"
      obtain s where a: "key_ok ?k" "sessions_ok (session_list g1)" "distinct (map fst (session_list g1))" "(a, s) \<in> set (session_list g1)" "session_key s = ?k"
        "?m ?k \<noteq> Some SUBDEV_SEESION_STATUS_ONLINE" "?m1 \<in> {?m, ?m(?k \<mapsto> SUBDEV_SEESION_STATUS_INIT)}"
        using online_session_found [OF inv fresh pn r] by (auto simp: Inr)
      have m1: "?m1(?k := x) = ?m(?k := x)" for x using a(7) by auto
      from rest obtain r2 g2 where req: "gateway_request os OnlineOp (operation_topic gp gn) (status_payload OnlineOp pid name) pid name g1 = Some (r2, g2)"
        and rest2: "(case r2 of
                    Inl rc \<Rightarrow> Some (rc, g2)
                  | Inr rc \<Rightarrow>
                      if rc \<noteq> QCLOUD_RET_SUCCESS then Some (rc, snd (subdev_remove_session pid name g2))
                      else do { g \<leftarrow> set_session_status a SUBDEV_SEESION_STATUS_ONLINE g2; Some (QCLOUD_RET_SUCCESS, g) }) = Some (rc, g')"
        by (auto simp: Inr bind_Some_iff)
      from request_cases [OF req] show ?thesis
      proof (elim disjE exE conjE, goal_cases)
        case 1
        then show ?case using rest2 a by (auto simp: online_outcome_def)
      next
        case (2 rc2 g0)
        have l2: "session_list g2 = session_list g1 \<or> session_list g2 = []" using 2 by (auto simp: kept_def)
        then have ok2: "sessions_ok (session_list g2)" "distinct (map fst (session_list g2))" using a by (auto simp: sessions_ok_def)
        show ?case
        proof (cases "rc2 = QCLOUD_RET_SUCCESS")
          case True
          then obtain g3 where g3: "set_session_status a SUBDEV_SEESION_STATUS_ONLINE g2 = Some g3" "rc = QCLOUD_RET_SUCCESS" "g' = g3"
            using rest2 2 by (auto simp: bind_Some_iff)
          then have l: "session_list g2 = session_list g1" using l2 by (auto simp: set_session_status_def)
          note st = set_status_map [OF ok2(1) _ ok2(2) g3(1), of s]
          have "session_map (session_list g') = ?m(?k \<mapsto> SUBDEV_SEESION_STATUS_ONLINE)" using st(1) a(4,5) m1 by (simp add: g3 l)
          moreover have "gateway_data g' = gateway_data g2" using g3 by (auto simp: set_session_status_def split: if_splits)
          ultimately show ?thesis using g3 a(6) 2 True by (auto simp: online_outcome_def)
        next
          case False
          then have g': "rc = rc2" "g' = snd (subdev_remove_session pid name g2)" using rest2 2 by auto
          note rm = subdev_remove_session_map [OF a(1) ok2(1)]
          have "session_map (session_list g') \<in> {?m(?k := None), Map.empty}" using l2 rm(1) m1 by (auto simp: g')
          then show ?thesis using a(6) 2 False g' by (auto simp: online_outcome_def)
        qed
      qed
    qed
  qed
  then show "online_outcome (pid, name) (session_map (session_list g)) rc (session_map (session_list g'))"
    and "rc = QCLOUD_RET_SUCCESS \<Longrightarrow> rd_result (gateway_data g' OnlineOp) = 0"
    by blast+
qed

lemma offline_refines:
  assumes inv: "sessions_ok (session_list g)" "distinct (map fst (session_list g))"
    and param: "gp_subdev_product_id param = Some pid" "gp_subdev_device_name param = Some name"
    and run: "IOT_Gateway_Subdev_Offline os param g = Some (rc, g')"
  shows "offline_outcome (pid, name) (session_map (session_list g)) rc (session_map (session_list g'))"
    and "rc = QCLOUD_RET_SUCCESS \<Longrightarrow> rd_result (gateway_data g' OfflineOp) = 0"
proof -
  let ?m = "session_map (session_list g)" and ?k = "(pid, name)"
  have "(offline_outcome ?k ?m rc (session_map (session_list g'))) \<and>
    (rc = QCLOUD_RET_SUCCESS \<longrightarrow> rd_result (gateway_data g' OfflineOp) = 0)"
  proof (cases "rc = QCLOUD_ERR_INVAL \<and> g' = g")
    case False
    then obtain gp gn where pn: "pid \<noteq> []" "name \<noteq> []" and rest: "(case subdev_find_session g pid name of
                  None \<Rightarrow> Some (QCLOUD_ERR_GATEWAY_SESSION_NO_EXIST, g)
                | Some (session, s) \<Rightarrow>
                    if session_status s = SUBDEV_SEESION_STATUS_OFFLINE
                    then Some (QCLOUD_ERR_GATEWAY_SUBDEV_OFFLINE, snd (subdev_remove_session pid name g))
                    else do {
                      (r, g) \<leftarrow> gateway_request os OfflineOp (operation_topic gp gn) (status_payload OfflineOp pid name) pid name g;
                      (case r of
                         Inl rc \<Rightarrow> Some (rc, g)
                       | Inr rc \<Rightarrow>
                           if rc \<noteq> QCLOUD_RET_SUCCESS then Some (rc, g)
                           else do {
                             g \<leftarrow> set_session_status session SUBDEV_SEESION_STATUS_OFFLINE g;
                             Some (QCLOUD_RET_SUCCESS, snd (subdev_remove_session pid name g))
                           })
                    }) = Some (rc, g')"
      using run unfolding IOT_Gateway_Subdev_Offline_def param by (auto split: option.split_asm if_split_asm)
    show ?thesis
    proof (cases "subdev_find_session g pid name")
      case None
      then show ?thesis using rest find_session_map [OF None pn] by (auto simp: offline_outcome_def)
    next
      case (Some x)
      obtain a s where x: "x = (a, s)" by (cases x)
      have mem: "(a, s) \<in> set (session_list g)" "session_key s = ?k" using find_session_map [OF Some pn] by (simp_all add: x)
      have mk: "?m ?k = Some (session_status s)" using session_map_mem [OF inv(1) mem(1)] mem(2) by simp
      have key: "key_ok ?k" using inv mem by (force simp: sessions_ok_def)
      show ?thesis
      proof (cases "session_status s = SUBDEV_SEESION_STATUS_OFFLINE")
        case True
        then have "rc = QCLOUD_ERR_GATEWAY_SUBDEV_OFFLINE" "g' = snd (subdev_remove_session pid name g)" using rest by (simp_all add: Some x)
        then show ?thesis using True mk subdev_remove_session_map(1) [OF key inv(1)] by (auto simp: offline_outcome_def)
      next
        case False
        then obtain r g2 where req: "gateway_request os OfflineOp (operation_topic gp gn) (status_payload OfflineOp pid name) pid name g = Some (r, g2)"
          and rest2: "(case r of
                         Inl rc \<Rightarrow> Some (rc, g2)
                       | Inr rc \<Rightarrow>
                           if rc \<noteq> QCLOUD_RET_SUCCESS then Some (rc, g2)
                           else do {
                             g \<leftarrow> set_session_status a SUBDEV_SEESION_STATUS_OFFLINE g2;
                             Some (QCLOUD_RET_SUCCESS, snd (subdev_remove_session pid name g))
                           }) = Some (rc, g')"
          using rest by (auto simp: Some x bind_Some_iff)
        have l2: "session_list g2 = session_list g \<or> session_list g2 = []" using request_cases [OF req] by (auto simp: kept_def)
        then have m2: "session_map (session_list g2) \<in> {?m, Map.empty}" by auto
        show ?thesis
        proof (cases "r = Inr QCLOUD_RET_SUCCESS")
          case True
          then obtain g3 where g3: "set_session_status a SUBDEV_SEESION_STATUS_OFFLINE g2 = Some g3" "rc = QCLOUD_RET_SUCCESS" "g' = snd (subdev_remove_session pid name g3)"
            using rest2 by (auto simp: bind_Some_iff)
          then have l: "session_list g2 = session_list g" using l2 by (auto simp: set_session_status_def)
          have inv2: "sessions_ok (session_list g2)" "distinct (map fst (session_list g2))" "(a, s) \<in> set (session_list g2)" using inv mem l by simp_all
          note st = set_status_map [OF inv2(1,3,2) g3(1)]
          have "gateway_data g' = gateway_data g2" using g3 by (auto simp: set_session_status_def subdev_remove_session_def split: if_splits option.splits)
          then have res: "rd_result (gateway_data g' OfflineOp) = 0" using request_cases [OF req] True by auto
          have "session_map (session_list g') = ?m(?k := None)"
            using subdev_remove_session_map(1) [OF key st(2)] st(1) mem(2) l by (auto simp: g3(3))
          then show ?thesis using res g3 mk by (auto simp: offline_outcome_def)
        next
          case False
          then have "g' = g2" using rest2 by (auto split: sum.splits if_splits)
          moreover have "rc \<in> {QCLOUD_ERR_FAILURE, QCLOUD_ERR_GATEWAY_SESSION_TIMEOUT}" using False rest2 request_cases [OF req] by (auto split: sum.splits if_splits)
          ultimately show ?thesis using m2 by (auto simp: offline_outcome_def)
        qed
      qed
    qed
  qed (simp add: offline_outcome_def)
  then show "offline_outcome (pid, name) (session_map (session_list g)) rc (session_map (session_list g'))"
    and "rc = QCLOUD_RET_SUCCESS \<Longrightarrow> rd_result (gateway_data g' OfflineOp) = 0"
    by blast+
qed

section \<open>The invariant\<close>

lemma request_inv:
  assumes "gateway_inv os g" and "kernel_ok os"
  shows "wp (gateway_request os op topic payload pid name g) (\<lambda>(r, g'). gateway_inv os g')"
proof (intro wp_I, clarify)
  fix r g'
  assume "gateway_request os op topic payload pid name g = Some (r, g')"
  from request_cases [OF this] assms show "gateway_inv os g'" by (auto simp: gateway_inv_def kept_def sessions_ok_def)
qed

lemma remove_session_sub: "remove_session pid name l = Some l' \<Longrightarrow> sessions_ok l \<Longrightarrow> sessions_ok l' \<and> set l' \<subseteq> set l"
proof (induction l arbitrary: l')
  case (Cons x l)
  have ok: "sessions_ok l" "session_key (snd x) \<notin> (session_key \<circ> snd) ` set l" using Cons.prems(2) by (auto simp: sessions_ok_def image_iff)
  from Cons.prems(1) consider "l' = l" | l1 where "remove_session pid name l = Some l1" "l' = x # l1" by (auto split: if_splits)
  then show ?case
  proof cases
    case 2
    with Cons.IH [OF 2(1) ok(1)] ok(2) Cons.prems(2) show ?thesis by (auto simp: sessions_ok_def image_iff)
  qed (use ok in auto)
qed simp

lemma sessions_inv:
  assumes "gateway_inv os g"
  shows "gateway_inv os (snd (subdev_remove_session pid name g))" "wp (set_session_status a st g) (gateway_inv os)"
proof -
  let ?f = "\<lambda>(b, s). (b, if b = a then s\<lparr>session_status := st\<rparr> else s)"
  show "gateway_inv os (snd (subdev_remove_session pid name g))"
    using assms by (auto simp: gateway_inv_def subdev_remove_session_def binds_ok_def split: option.splits dest: remove_session_sub)
  have f: "session_key (snd (?f x)) = session_key (snd x)" for x by (cases x) (simp add: session_key_def)
  then have keys: "map (session_key \<circ> snd) (map ?f l) = map (session_key \<circ> snd) l" for l by simp
  have "sessions_ok l \<Longrightarrow> sessions_ok (map ?f l)" for l using f unfolding sessions_ok_def keys by auto
  then show "wp (set_session_status a st g) (gateway_inv os)" using assms by (auto simp: set_session_status_def gateway_inv_def binds_ok_def)
qed

lemma find_session_None: "subdev_find_session g pid name = None \<Longrightarrow> (pid, name) \<notin> (session_key \<circ> snd) ` set (session_list g) \<or> pid = [] \<or> name = []"
  by (auto simp: subdev_find_session_def session_key_def find_None_iff split: if_splits) blast

lemma online_session_inv: "gateway_inv os g \<Longrightarrow> wp (online_session os' pid name g) (\<lambda>(r, g'). gateway_inv os g')"
  by (auto simp: online_session_def subdev_add_session_def gateway_inv_def sessions_ok_def binds_ok_def env_inv key_ok_def session_key_def image_iff
      split: option.split prod.split option.split_asm dest!: find_session_None) fastforce

lemma publish_sync_inv:
  assumes "gateway_inv os g" and "kernel_ok os"
  shows "wp (gateway_publish_sync os topic params op g) (\<lambda>(rc, g'). gateway_inv os g')"
  by (rule wp_mono [OF publish_sync_kept [OF kept_refl]]) (use assms in \<open>auto simp: gateway_inv_def kept_def sessions_ok_def\<close>)

lemma kept_inv: "kept os g g' \<Longrightarrow> gateway_inv os g \<Longrightarrow> kernel_ok os \<Longrightarrow> gateway_inv os g'"
  by (auto simp: gateway_inv_def kept_def sessions_ok_def)

lemma mqtt_inv: "gateway_inv os g \<Longrightarrow> client_inv os c \<Longrightarrow> gateway_inv os (g\<lparr>gw_mqtt := c\<rparr>)"
  and data_inv: "gateway_inv os (g\<lparr>gateway_data := d\<rparr>) = gateway_inv os g" "gateway_inv os (g\<lparr>gw_sync_status := i\<rparr>) = gateway_inv os g"
    "gateway_inv os g \<Longrightarrow> gateway_inv os (g\<lparr>bindlist_head := [], bind_num := 0\<rparr>)"
  by (auto simp: gateway_inv_def binds_ok_def)

lemma Online_inv:
  assumes "gateway_inv os g" and "kernel_ok os"
  shows "wp (IOT_Gateway_Subdev_Online os param g) (\<lambda>(rc, g'). gateway_inv os g')"
  using assms unfolding IOT_Gateway_Subdev_Online_def
  by (auto intro!: wp_I split: option.split sum.split sum.split_asm simp: sessions_inv
      dest!: online_session_inv [THEN wp_D2, rotated] request_inv [OF _ assms(2), THEN wp_D2, rotated] sessions_inv(2) [THEN wp_D, rotated])

lemma Offline_inv:
  assumes "gateway_inv os g" and "kernel_ok os"
  shows "wp (IOT_Gateway_Subdev_Offline os param g) (\<lambda>(rc, g'). gateway_inv os g')"
  using assms unfolding IOT_Gateway_Subdev_Offline_def
  by (auto intro!: wp_I split: option.split sum.split sum.split_asm simp: sessions_inv
      dest!: request_inv [OF _ assms(2), THEN wp_D2, rotated] sessions_inv(2) [THEN wp_D, rotated])

lemma GetBindList_inv:
  assumes "gateway_inv os g" and "kernel_ok os"
  shows "wp (IOT_Gateway_Subdev_GetBindList os param g) (\<lambda>(rc, l, g'). gateway_inv os g')"
  using assms unfolding IOT_Gateway_Subdev_GetBindList_def Let_def set_result_def
  by (auto intro!: wp_I simp: data_inv dest!: publish_sync_inv [OF _ assms(2), THEN wp_D2, rotated])

lemma Bind_inv:
  assumes "gateway_inv os g" and "kernel_ok os"
  shows "wp (IOT_Gateway_Subdev_Bind os param dev g) (\<lambda>(rc, g'). gateway_inv os g')"
    "wp (IOT_Gateway_Subdev_Unbind os param dev g) (\<lambda>(rc, g'). gateway_inv os g')"
proof -
  have "client_inv os (c\<lparr>world := w\<rparr>)" if "HAL_rand os (srand_time os (gw_mqtt g)) = (r, c)" for r c w
    using assms(1) that by (simp add: gateway_inv_def env_inv)
  then show "wp (IOT_Gateway_Subdev_Bind os param dev g) (\<lambda>(rc, g'). gateway_inv os g')"
    using assms unfolding IOT_Gateway_Subdev_Bind_def Let_def
    by (auto intro!: wp_I mqtt_inv split: prod.split simp: request_result_def dest!: request_inv [OF _ assms(2), THEN wp_D2, rotated])
  show "wp (IOT_Gateway_Subdev_Unbind os param dev g) (\<lambda>(rc, g'). gateway_inv os g')"
    using assms unfolding IOT_Gateway_Subdev_Unbind_def
    by (auto intro!: wp_I simp: request_result_def dest!: request_inv [OF _ assms(2), THEN wp_D2, rotated])
qed

lemma subscribe_topic_inv:
  assumes "gateway_inv os g" and k: "kernel_ok os"
  shows "wp (gateway_subscribe_unsubscribe_topic os topic params b g) (\<lambda>(rc, g'). gateway_inv os g')"
proof -
  have c: "client_inv os (gw_mqtt g)" using assms(1) by (simp add: gateway_inv_def)
  have wait: "gateway_inv os g'" if "yield_while n os waits g1 = Some (d, g')" "gateway_inv os g1" for n waits d g1 g'
    using wp_D2 [OF yield_while_kept [OF kept_refl] that(1)] kept_inv [OF _ that(2) k] by blast
  show ?thesis
    using assms(1) unfolding gateway_subscribe_unsubscribe_topic_def Let_def
    by (auto intro!: wp_I mqtt_inv simp: data_inv simp del: yield_while.simps split: if_splits
        dest!: subscribe_inv [OF c, THEN wp_D2] unsubscribe_inv [OF c, THEN wp_D2] wait)
qed

text \<open>The calls of an application, in any order; \<open>gs_callback\<close> is a message or an event that the client hands over.\<close>

inductive gateway_step :: "'w os \<Rightarrow> 'w Gateway \<Rightarrow> 'w Gateway \<Rightarrow> bool" for os where
  gs_online: "IOT_Gateway_Subdev_Online os param g = Some (rc, g') \<Longrightarrow> gateway_step os g g'"
| gs_offline: "IOT_Gateway_Subdev_Offline os param g = Some (rc, g') \<Longrightarrow> gateway_step os g g'"
| gs_bindlist: "IOT_Gateway_Subdev_GetBindList os param g = Some (rc, l, g') \<Longrightarrow> gateway_step os g g'"
| gs_bind: "IOT_Gateway_Subdev_Bind os param dev g = Some (rc, g') \<Longrightarrow> gateway_step os g g'"
| gs_unbind: "IOT_Gateway_Subdev_Unbind os param dev g = Some (rc, g') \<Longrightarrow> gateway_step os g g'"
| gs_publish: "IOT_Gateway_Publish os topic params g = Some (rc, g') \<Longrightarrow> gateway_step os g g'"
| gs_subscribe: "IOT_Gateway_Subscribe os topic sparams g = Some (rc, g') \<Longrightarrow> gateway_step os g g'"
| gs_unsubscribe: "IOT_Gateway_Unsubscribe os topic g = Some (rc, g') \<Longrightarrow> gateway_step os g g'"
| gs_yield: "IOT_Gateway_Yield os ms g = Some (rc, g') \<Longrightarrow> gateway_step os g g'"
| gs_callback: "run_gateway_callback os cb g = Some g' \<Longrightarrow> gateway_step os g g'"
| gs_client: "client_step os (gw_mqtt g) c \<Longrightarrow> gateway_step os g (g\<lparr>gw_mqtt := c\<rparr>)"

inductive_cases gateway_stepE: "gateway_step os g g'"

definition gateway_started :: "'w os \<Rightarrow> 'w Gateway \<Rightarrow> bool" where
  "gateway_started os g \<longleftrightarrow> (\<exists>params w. IOT_Gateway_Construct os params w = Some (Inr g))"

lemma gateway_step_inv:
  assumes k: "kernel_ok os" and inv: "gateway_inv os g" and "gateway_step os g g'"
  shows "gateway_inv os g'"
proof -
  have c: "client_inv os (gw_mqtt g)" using inv by (simp add: gateway_inv_def)
  note kept = kept_inv [OF _ inv k]
  from assms(3) show ?thesis
  proof cases
    case gs_subscribe
    then show ?thesis using inv by (auto simp: IOT_Gateway_Subscribe_def bind_Some_iff intro!: mqtt_inv dest: subscribe_inv [OF c, THEN wp_D2])
  next
    case gs_unsubscribe
    then show ?thesis using inv by (auto simp: IOT_Gateway_Unsubscribe_def bind_Some_iff intro!: mqtt_inv dest: unsubscribe_inv [OF c, THEN wp_D2])
  next
    case gs_client
    then show ?thesis using inv client_step_inv [OF k c] by (auto intro: mqtt_inv)
  qed (blast dest: wp_D2 [OF Online_inv [OF inv k]] wp_D2 [OF Offline_inv [OF inv k]] wp_D3 [OF GetBindList_inv [OF inv k]]
       wp_D2 [OF Bind_inv(1) [OF inv k]] wp_D2 [OF Bind_inv(2) [OF inv k]] wp_D2 [OF publish_kept [OF kept_refl]]
       wp_D2 [OF Yield_kept [OF kept_refl]] wp_D [OF callback_kept [OF kept_refl]] intro: kept)+
qed

lemma gateway_construct_inv:
  assumes k: "kernel_ok os" and "gateway_started os g"
  shows "gateway_inv os g"
proof -
  have inr: "\<forall>x. s \<noteq> Inl x \<Longrightarrow> \<exists>y. s = Inr y" for s :: "'a + 'a client" by (cases s) auto
  obtain params w where "IOT_Gateway_Construct os params w = Some (Inr g)" using assms(2) by (auto simp: gateway_started_def)
  then obtain self ps w1 c p g0 where c: "IOT_MQTT_Construct os ps w1 = Some (Inr c)" and g: "gateway_subscribe_unsubscribe_default os p g0 = Some (0, g)"
    and g0: "g0 = \<lparr>gw_mqtt = c, session_list = [], bindlist_head = [], bind_num = 0, gw_sync_status = 0, gateway_data = (\<lambda>op. \<lparr>rd_result = 0, rd_client_id = []\<rparr>),
      gw_event_handle = ip_event_handle params, recv_buf = replicate GATEWAY_RECEIVE_BUFFER_LEN 0, gw_self = self, gw_calls = []\<rparr>"
    by (auto simp: IOT_Gateway_Construct_def bind_Some_iff split: option.splits prod.splits sum.splits if_splits dest!: inr)
  have "gateway_inv os g0" using construct_inv [OF k c] by (simp add: g0 gateway_inv_def sessions_ok_def binds_ok_def)
  from wp_D2 [OF subscribe_topic_inv [OF this k]] g show ?thesis
    by (auto simp: gateway_subscribe_unsubscribe_default_def Let_def split: option.splits if_splits)
qed

interpretation gateway: service kernel_ok gateway_started gateway_step gateway_inv
  by unfold_locales (blast intro: gateway_construct_inv gateway_step_inv)+

end
