(* ===== verification/Gw_Messages.thy ===== *)
theory Gw_Messages
  imports Gw_Service Dt_Properties
begin

text \<open>
  What the gateway makes of a message of the cloud, from the text of the document to the lists: the answer to a request, and a change of
  the bound devices with the reply to it.
\<close>

section \<open>Members at the front of a text\<close>

text \<open>A member is found whatever comes behind it, so also when the text goes on after the object.\<close>

lemma kv_loop_finds:
  assumes "seg_ok (pre, k, v)" and "json_content v \<noteq> []" and "\<not> is_digit c" and "c \<noteq> chr_dot"
  shows "\<forall>x \<in> set segs. seg_ok x \<Longrightarrow> k \<notin> (fst \<circ> snd) ` set segs \<Longrightarrow> nv_pN nv = k \<Longrightarrow>
     \<exists>r. json_kv_loop json_get_value_by_name_cb (seg_text (segs @ [(pre, k, v)]) @ c # rest) ret nv =
       Some (JSON_RESULT_OK, nv\<lparr>nv_pV := Some (json_content v @ r), nv_vLen := length (json_content v), nv_vType := json_type v\<rparr>)"
proof (induction segs arbitrary: ret nv)
  case Nil
  have ok: "k \<noteq> []" "chr_quote \<notin> set pre" "plain k" "json_ok v" using assms(1) by (auto simp: seg_ok_def)
  have doc: "seg_text ([] @ [(pre, k, v)]) @ c # rest = pre @ chr_quote # k @ chr_quote # chr_colon # json_text v @ c # rest"
    by (simp add: seg_text_def)
  obtain p r r' where nx: "json_get_next_object JSOBJECT (pre @ chr_quote # k @ chr_quote # chr_colon # json_text v @ c # rest) =
      (At (c # rest), Some \<lparr>ji_key = k @ r', ji_key_len = length k, ji_val = Some p, ji_val_len = length (json_content v), ji_val_type = json_type v\<rparr>)"
    and p: "p = json_content v @ r"
    using next_member [OF ok(2-4) assms(3,4)] by blast
  show ?case
    unfolding doc using assms(2) Nil ok(1) by (subst json_kv_loop.simps) (auto simp: nx p json_kv_body_def json_get_value_by_name_cb_def)
next
  case (Cons x segs)
  obtain pre1 k1 v1 where x: "x = (pre1, k1, v1)" by (cases x) auto
  have ok: "k1 \<noteq> []" "chr_quote \<notin> set pre1" "plain k1" "json_ok v1" "k1 \<noteq> k" using Cons.prems by (auto simp: x seg_ok_def)
  obtain c1 rest1 where m: "seg_text (segs @ [(pre, k, v)]) @ c # rest = c1 # rest1" and c: "\<not> is_digit c1" "c1 \<noteq> chr_dot"
  proof (cases "segs @ [(pre, k, v)]")
    case (Cons y ys)
    obtain pre2 k2 v2 where y: "y = (pre2, k2, v2)" by (cases y) auto
    have "seg_ok y" using Cons Cons.prems(1) assms(1) by (cases segs) auto
    then obtain d pre' where "pre2 = d # pre'" "\<not> is_digit d" "d \<noteq> chr_dot" by (cases pre2) (auto simp: seg_ok_def y)
    then show ?thesis using that by (auto simp: Cons y seg_text_Cons)
  qed simp
  have doc: "seg_text ((x # segs) @ [(pre, k, v)]) @ c # rest = pre1 @ chr_quote # k1 @ chr_quote # chr_colon # json_text v1 @ c1 # rest1"
    by (simp add: x seg_text_Cons m)
  obtain p r r' where nx: "json_get_next_object JSOBJECT (pre1 @ chr_quote # k1 @ chr_quote # chr_colon # json_text v1 @ c1 # rest1) =
      (At (c1 # rest1), Some \<lparr>ji_key = k1 @ r', ji_key_len = length k1, ji_val = Some p, ji_val_len = length (json_content v1), ji_val_type = json_type v1\<rparr>)"
    using next_member [OF ok(2-4) c] by blast
  have "json_kv_loop json_get_value_by_name_cb (seg_text ((x # segs) @ [(pre, k, v)]) @ c # rest) ret nv =
      json_kv_loop json_get_value_by_name_cb (c1 # rest1) (if json_content v1 \<noteq> [] then JSON_RESULT_OK else ret) nv"
    unfolding doc using Cons.prems(3) ok(1,5) by (subst json_kv_loop.simps) (auto simp: nx json_kv_body_def json_get_value_by_name_cb_def)
  then show ?case unfolding m [symmetric] using Cons.IH Cons.prems by auto
qed

lemma read_in_front:
  assumes ok: "json_ok (JObj kvs)" "distinct (map fst kvs)" and kv: "(k, v) \<in> set kvs" "json_content v \<noteq> []"
  shows "\<exists>r. json_get_value_by_name (json_text (JObj kvs) @ s) (length (json_text (JObj kvs) @ s)) k False =
    Some (Some (json_content v @ r), length (json_content v), json_type v)"
proof -
  have ne: "kvs \<noteq> []" using kv by auto
  note segs_ok = comma_segs_ok(1) [OF ok(1)] comma_segs_ok(2) [of kvs]
  have "(k, v) \<in> snd ` set (comma_segs kvs)" using kv(1) segs_ok(2) by (metis list.set_map)
  then obtain pre where "(pre, k, v) \<in> set (comma_segs kvs)" by auto
  then obtain s1 s2 where split: "comma_segs kvs = s1 @ (pre, k, v) # s2" by (meson split_list)
  have d: "distinct (map fst (map snd (comma_segs kvs)))" using ok(2) by (simp only: segs_ok(2))
  have segs1: "\<forall>x \<in> set s1. seg_ok x" "seg_ok (pre, k, v)" "k \<notin> (fst \<circ> snd) ` set s1"
    using segs_ok(1) d by (auto simp: split comp_def)
  obtain c rest where tail: "seg_text s2 @ chr_rbrace # s = c # rest" and c: "\<not> is_digit c" "c \<noteq> chr_dot"
  proof (cases s2)
    case Nil
    then show ?thesis using that [of chr_rbrace s] by (simp add: seg_text_def is_digit_def)
  next
    case (Cons y ys)
    obtain pre2 k2 v2 where y: "y = (pre2, k2, v2)" by (cases y) auto
    have "seg_ok y" using segs_ok(1) by (simp add: split Cons)
    then obtain e pre' where "pre2 = e # pre'" "\<not> is_digit e" "e \<noteq> chr_dot" by (cases pre2) (auto simp: seg_ok_def y)
    then show ?thesis using that by (auto simp: Cons y seg_text_Cons)
  qed
  have whole: "json_text (JObj kvs) @ s = seg_text (s1 @ [(pre, k, v)]) @ c # rest"
    unfolding json_text_segs [OF ne] split tail [symmetric] by (simp add: seg_text_def)
  have "json_text (JObj kvs) @ s = chr_lbrace # json_members kvs @ chr_rbrace # s" by (simp add: json_text_JObj del: json_text.simps)
  then have obj: "json_get_object JSOBJECT (json_text (JObj kvs) @ s) = Some (json_text (JObj kvs) @ s)" "json_text (JObj kvs) @ s \<noteq> []" by simp_all
  from kv_loop_finds [OF segs1(2) kv(2) c segs1(1,3), of "\<lparr>nv_vLen = 0, nv_vType = JSSTRING, nv_pN = k, nv_pV = None\<rparr>" rest JSON_RESULT_ERR] obj
  show ?thesis unfolding whole by (auto simp: json_get_value_by_name_def json_parse_name_value_def)
qed

lemma value_in_front:
  assumes mem: "\<And>w. fst (os_malloc os w) \<noteq> None" and "json_ok (JObj kvs)" "distinct (map fst kvs)" "(k, v) \<in> set kvs" "json_content v \<noteq> []" and "chr_dot \<notin> set k"
  shows "\<exists>w'. LITE_json_value_of os k (json_text (JObj kvs) @ s) w = Some (Some (json_content v), w')"
  by (rule value_of_key [OF assms(6) _ mem]) (use read_in_front [OF assms(2-5), of s] in \<open>auto simp: json_read_def\<close>)

lemma value_by_path:
  assumes mem: "\<And>w. fst (os_malloc os w) \<noteq> None"
    and "json_ok (JObj kvs)" "distinct (map fst kvs)" "(k, JObj kvs2) \<in> set kvs" "chr_dot \<notin> set k"
    and "distinct (map fst kvs2)" "(k2, v) \<in> set kvs2" "json_content v \<noteq> []" "chr_dot \<notin> set k2"
  shows "\<exists>w'. LITE_json_value_of os (k @ chr_dot # k2) (json_text (JObj kvs) @ s) w = Some (Some (json_content v), w')"
proof -
  have c: "json_content (JObj kvs2) = json_text (JObj kvs2)" "json_content (JObj kvs2) \<noteq> []" by (simp_all add: json_content_def)
  have ok2: "json_ok (JObj kvs2)" using assms(2,4) by fastforce
  obtain r where r: "json_get_value_by_name (json_text (JObj kvs) @ s) (length (json_text (JObj kvs) @ s)) k False =
      Some (Some (json_text (JObj kvs2) @ r), length (json_text (JObj kvs2)), JSOBJECT)"
    using read_in_front [OF assms(2-4) c(2), of s] unfolding c(1) by auto
  have key: "take (length (k @ chr_dot # k2) - length (chr_dot # k2)) (k @ chr_dot # k2) = k" by simp
  obtain p m where p: "os_malloc os w = (Some p, m)" using mem [of w] by (cases "os_malloc os w") auto
  have "LITE_json_value_of os (k @ chr_dot # k2) (json_text (JObj kvs) @ s) w = LITE_json_value_of os k2 (json_text (JObj kvs2) @ r) m"
    by (subst LITE_json_value_of.simps) (simp only: strchr_skip [OF assms(5)] p r key option.case prod.case Let_def option.distinct if_False bind.bind_lunit list.sel)
  then show ?thesis using value_in_front [OF mem ok2 assms(6-9)] by simp
qed

section \<open>Answers to requests\<close>

text \<open>A message whose payload is a document that fits the receive buffer of the gateway.\<close>

definition gateway_carries :: "MQTTMessage \<Rightarrow> cstring \<Rightarrow> bool" where
  "gateway_carries m doc \<longleftrightarrow> msg_topic_len m \<noteq> 0 \<and> unat (msg_payload_len m) = length doc \<and> 0 \<notin> set doc \<and>
     length doc < GATEWAY_RECEIVE_BUFFER_LEN \<and> buf_read (msg_buf m) (msg_payload m) (length doc) = Some doc"

lemma gateway_document:
  assumes m: "gateway_carries m doc" and buf: "length (recv_buf g) = GATEWAY_RECEIVE_BUFFER_LEN"
  shows "\<exists>b. length b = GATEWAY_RECEIVE_BUFFER_LEN \<and> gateway_message_handler os m g =
     do { (ty, g) \<leftarrow> get_json_type os doc (g\<lparr>recv_buf := b\<rparr>); (case ty of None \<Rightarrow> Some g | Some ty \<Rightarrow> gateway_message os doc ty g) }"
proof -
  let ?b = "doc @ 0 # drop (length doc + 1) (recv_buf g)"
  have len: "length doc < 1024" "min 1023 (unat (msg_payload_len m)) = length doc" using m by (auto simp: gateway_carries_def)
  then have b: "length ?b = 1024" using buf by simp
  have w: "buf_write (recv_buf g) 0 doc = Some (doc @ drop (length doc) (recv_buf g))" using len(1) buf by (simp add: buf_write_def)
  have "drop (length doc) (recv_buf g) = recv_buf g ! length doc # drop (length doc + 1) (recv_buf g)"
    using len(1) buf by (simp add: Cons_nth_drop_Suc)
  then have p: "buf_put (doc @ drop (length doc) (recv_buf g)) (length doc) 0 = Some ?b"
    using len(1) buf by (simp add: buf_put_def list_update_append)
  have s: "c_string ?b = Some doc" using m by (intro c_string_terminated) (simp add: gateway_carries_def)
  have "buf_read (msg_buf m) (msg_payload m) (length doc) = Some doc" "msg_topic_len m \<noteq> 0" "\<not> 1024 < unat (msg_payload_len m)"
    using m by (auto simp: gateway_carries_def)
  then show ?thesis using b
    by (intro exI [of _ ?b]) (simp add: gateway_message_handler_def len(2) w p s [simplified] Let_def)
qed

lemma gateway_field:
  assumes "\<And>w. fst (os_malloc os w) \<noteq> None" and "json_ok (JObj kvs)" "distinct (map fst kvs)" "(cstr k, v) \<in> set kvs" "json_content v \<noteq> []" and "chr_dot \<notin> set (cstr k)"
  shows "\<exists>c. json_value_in os k (json_text (JObj kvs) @ s) g = Some (Some (json_content v), g\<lparr>gw_mqtt := c\<rparr>)"
  using value_in_front [OF assms, of s "world (gw_mqtt g)"] by (auto simp: json_value_in_def)

text \<open>The answer to an operation for a device, among other members and other devices.\<close>

definition answers :: "cstring \<Rightarrow> gateway_op \<Rightarrow> cstring \<Rightarrow> cstring \<Rightarrow> int \<Rightarrow> bool" where
  "answers doc op pid name r \<longleftrightarrow> (\<exists>kvs ps ds more. doc = json_text (JObj kvs) \<and> json_ok (JObj kvs) \<and> distinct (map fst kvs) \<and>
     (cstr ''type'', JStr (op_str op)) \<in> set kvs \<and> (cstr ''payload'', JObj ps) \<in> set kvs \<and> distinct (map fst ps) \<and>
     (cstr ''devices'', JArr (JObj ds # more)) \<in> set ps \<and> distinct (map fst ds) \<and> (cstr ''product_id'', JStr pid) \<in> set ds \<and>
     (cstr ''device_name'', JStr name) \<in> set ds \<and> (cstr ''result'', JNum (dec_int r)) \<in> set ds \<and> pid \<noteq> [] \<and> name \<noteq> [])"

lemma dec_int_nonempty: "dec_int i \<noteq> []"
  by (simp add: dec_int_def dec_nat.simps)

lemma result_message_sets:
  assumes mem: "\<And>w. fst (os_malloc os w) \<noteq> None" and ok: "json_ok (JObj ds)" "distinct (map fst ds)"
    and ds: "(cstr ''product_id'', JStr pid) \<in> set ds" "(cstr ''device_name'', JStr name) \<in> set ds" "(cstr ''result'', JNum (dec_int r)) \<in> set ds"
    and ne: "pid \<noteq> []" "name \<noteq> []" and r: "- (2 ^ 31) \<le> r" "r < 2 ^ 31" and len: "length (sub_client_id pid name) \<le> MAX_SIZE_OF_CLIENT_ID"
    and op: "answered_op ty = Some op"
  shows "\<exists>c. result_message os ty (json_text (JObj ds) @ s) g = Some ((if has_prefix (sub_client_id pid name) (rd_client_id (gateway_data g op))
     then set_result op r g else g)\<lparr>gw_mqtt := c\<rparr>)"
proof -
  have content: "json_content (JStr x) = x" "json_content (JNum x) = x" for x by (simp_all add: json_content_def)
  have dots: "chr_dot \<notin> set (cstr ''product_id'')" "chr_dot \<notin> set (cstr ''device_name'')" "chr_dot \<notin> set (cstr ''result'')" by (simp_all add: cstr_def)
  obtain c1 where c1: "json_value_in os ''result'' (json_text (JObj ds) @ s) g = Some (Some (dec_int r), g\<lparr>gw_mqtt := c1\<rparr>)"
    using gateway_field [OF mem ok ds(3) _ dots(3), of s g] dec_int_nonempty unfolding content by blast
  obtain c2 where c2: "json_value_in os ''product_id'' (json_text (JObj ds) @ s) (g\<lparr>gw_mqtt := c1\<rparr>) = Some (Some pid, g\<lparr>gw_mqtt := c2\<rparr>)"
    using gateway_field [OF mem ok ds(1) _ dots(1), of s "g\<lparr>gw_mqtt := c1\<rparr>"] ne unfolding content by auto
  obtain c3 where c3: "json_value_in os ''device_name'' (json_text (JObj ds) @ s) (g\<lparr>gw_mqtt := c2\<rparr>) = Some (Some name, g\<lparr>gw_mqtt := c3\<rparr>)"
    using gateway_field [OF mem ok ds(2) _ dots(2), of s "g\<lparr>gw_mqtt := c2\<rparr>"] ne unfolding content by auto
  have "LITE_get_int32 (dec_int r) = Some (Inr r)" using r by (simp add: LITE_get_int32_def scan_i_dec scan_result_def)
  with c1 c2 c3 len op show ?thesis
    by (intro exI [of _ c3]) (auto simp: result_message_def get_json_result_def get_json_product_id_def get_json_device_name_def int32_of_def set_result_def
        simp del: json_text.simps)
qed

lemma answer_sets_result:
  assumes mem: "\<And>w. fst (os_malloc os w) \<noteq> None" and m: "gateway_carries m doc" and doc: "answers doc op pid name r" "op \<noteq> GetBindlistOp"
    and r: "- (2 ^ 31) \<le> r" "r < 2 ^ 31" and len: "length (sub_client_id pid name) \<le> MAX_SIZE_OF_CLIENT_ID"
    and buf: "length (recv_buf g) = GATEWAY_RECEIVE_BUFFER_LEN"
  shows "\<exists>c b. gateway_message_handler os m g = Some ((if has_prefix (sub_client_id pid name) (rd_client_id (gateway_data g op))
     then set_result op r g else g)\<lparr>recv_buf := b, gw_mqtt := c\<rparr>)"
proof -
  obtain kvs ps ds more where d: "doc = json_text (JObj kvs)" "json_ok (JObj kvs)" "distinct (map fst kvs)" "(cstr ''type'', JStr (op_str op)) \<in> set kvs"
    "(cstr ''payload'', JObj ps) \<in> set kvs" "distinct (map fst ps)" "(cstr ''devices'', JArr (JObj ds # more)) \<in> set ps"
    and ds: "distinct (map fst ds)" "(cstr ''product_id'', JStr pid) \<in> set ds" "(cstr ''device_name'', JStr name) \<in> set ds" "(cstr ''result'', JNum (dec_int r)) \<in> set ds"
    and ne: "pid \<noteq> []" "name \<noteq> []"
    using doc(1) unfolding answers_def by blast
  have okp: "json_ok (JObj ps)" using d(2,5) by fastforce
  then have okd: "json_ok (JObj ds)" using d(7) by fastforce
  obtain b where b: "gateway_message_handler os m g =
     do { (ty, g) \<leftarrow> get_json_type os doc (g\<lparr>recv_buf := b\<rparr>); (case ty of None \<Rightarrow> Some g | Some ty \<Rightarrow> gateway_message os doc ty g) }"
    using gateway_document [OF m buf, of os] by blast
  have nonempty: "json_content (JStr (op_str op)) \<noteq> []" by (cases op) (simp_all add: json_content_def op_str_def cstr_def)
  obtain c1 where c1: "get_json_type os doc (g\<lparr>recv_buf := b\<rparr>) = Some (Some (op_str op), g\<lparr>recv_buf := b, gw_mqtt := c1\<rparr>)"
    using gateway_field [OF mem d(2,3,4) nonempty, of "[]" "g\<lparr>recv_buf := b\<rparr>"] by (auto simp: get_json_type_def d(1) json_content_def cstr_def simp del: json_text.simps)
  let ?arr = "JArr (JObj ds # more)"
  obtain s where s: "json_content ?arr = chr_lbracket # json_text (JObj ds) @ s"
    by (simp add: json_content_def sep_Cons)
  obtain w where "LITE_json_value_of os (cstr ''payload'' @ chr_dot # cstr ''devices'') (doc @ []) (world c1) = Some (Some (json_content ?arr), w)"
    using value_by_path [OF mem d(2,3,5) _ d(6,7), of "[]" "world c1"] unfolding d(1) s by (auto simp: cstr_def simp del: json_text.simps)
  moreover have "cstr ''payload'' @ chr_dot # cstr ''devices'' = cstr ''payload.devices''" by (simp add: cstr_def)
  ultimately have dev: "get_json_devices os doc (g\<lparr>recv_buf := b, gw_mqtt := c1\<rparr>) = Some (Some (json_content ?arr), g\<lparr>recv_buf := b, gw_mqtt := c1\<lparr>world := w\<rparr>\<rparr>)"
    by (simp add: get_json_devices_def json_value_in_def)
  have ty: "answered_op (op_str op) = Some op" "\<not> has_prefix (cstr ''unbind_all'') (op_str op)" "\<not> has_prefix (cstr ''search_devices'') (op_str op)"
    "\<not> has_prefix (cstr ''describe_sub_devices'') (op_str op)" "\<not> has_prefix (cstr ''change'') (op_str op)"
    using doc(2) by (cases op; simp add: answered_op_def op_str_def has_prefix_def cstr_def)+
  let ?g = "g\<lparr>recv_buf := b, gw_mqtt := c1\<lparr>world := w\<rparr>\<rparr>"
  have run: "gateway_message_handler os m g = result_message os (op_str op) (json_text (JObj ds) @ s) ?g"
    by (simp add: b c1 gateway_message_def ty dev s deref_def del: json_text.simps)
  obtain c2 where "result_message os (op_str op) (json_text (JObj ds) @ s) ?g = Some ((if has_prefix (sub_client_id pid name) (rd_client_id (gateway_data ?g op))
     then set_result op r ?g else ?g)\<lparr>gw_mqtt := c2\<rparr>)"
    using result_message_sets [OF mem okd ds ne r len ty(1)] by blast
  then show ?thesis unfolding run by (intro exI [of _ c2] exI [of _ b]) (simp add: set_result_def)
qed

section \<open>Lists of devices\<close>

text \<open>The loop over the text of an array runs through its values and ends at its bracket.\<close>

lemma array_entries_text:
  "\<forall>v \<in> set vs. json_ok v \<Longrightarrow> \<exists>es. json_array_entries (concat (map (\<lambda>v. 0x2C # json_text v) vs) @ [chr_rbracket]) = (es, True) \<and>
     map (\<lambda>e. take (snd e) (fst e)) es = map json_content vs"
proof (induction vs)
  case Nil
  have "json_get_next_object JSARRAY [] = (Null, Some \<lparr>ji_key = [], ji_key_len = 0, ji_val = None, ji_val_len = 0, ji_val_type = JSNONE\<rparr>)"
    by (simp add: json_get_next_object_def json_value_def)
  then show ?case by (subst json_array_entries.simps) simp
next
  case (Cons v vs)
  let ?rest = "concat (map (\<lambda>v. 0x2C # json_text v) vs) @ [chr_rbracket]"
  obtain es where es: "json_array_entries ?rest = (es, True)" "map (\<lambda>e. take (snd e) (fst e)) es = map json_content vs" using Cons by auto
  obtain c rest where c: "?rest = c # rest" "\<not> is_digit c" "c \<noteq> chr_dot" by (cases vs) (auto simp: is_digit_def)
  have ok: "json_ok v" using Cons.prems by simp
  obtain p r where "json_value [] 0 (Some (chr_colon # json_text v @ c # rest)) =
     (At (c # rest), Some \<lparr>ji_key = [], ji_key_len = 0, ji_val = Some p, ji_val_len = length (json_content v), ji_val_type = json_type v\<rparr>)" "p = json_content v @ r"
    using json_value_text [OF ok c(2,3)] by blast
  then have "json_get_next_object JSARRAY (json_text v @ ?rest) =
     (At ?rest, Some \<lparr>ji_key = [], ji_key_len = 0, ji_val = Some (json_content v @ r), ji_val_len = length (json_content v), ji_val_type = json_type v\<rparr>)"
    by (simp add: c(1) json_get_next_object_def json_value_def is_digit_def [of chr_colon])
  then have "json_array_entries (0x2C # json_text v @ ?rest) = ((json_content v @ r, length (json_content v)) # es, True)"
    using es(1) by (subst json_array_entries.simps) simp
  then show ?case using es(2) by auto
qed

lemma json_array_text:
  assumes "\<forall>v \<in> set vs. json_ok v"
  shows "\<exists>es. json_array (json_text (JArr vs)) = (es, True) \<and> map (\<lambda>e. take (snd e) (fst e)) es = map json_content vs"
proof -
  have same: "json_array_entries (a # s) = json_array_entries (b # s)" for a b s by (subst (1 2) json_array_entries.simps) simp
  have "json_array_entries (chr_lbracket # sep (map json_text vs) @ [chr_rbracket]) = json_array_entries (concat (map (\<lambda>v. 0x2C # json_text v) vs) @ [chr_rbracket])" if "vs \<noteq> []"
    using that same [of chr_lbracket _ "0x2C"] by (cases vs) (auto simp: sep_Cons comp_def)
  moreover have "json_array_entries (chr_lbracket # [chr_rbracket]) = json_array_entries [chr_rbracket]"
    by (subst (1 2) json_array_entries.simps) (simp add: json_get_next_object_def json_value_def is_digit_def)
  ultimately show ?thesis using array_entries_text [OF assms] by (cases "vs = []") (auto simp: json_array_def)
qed

text \<open>On the kernel of \<^verbatim>\<open>Hal_Model\<close> the reader only allocates memory.\<close>

definition allocates :: "sim client \<Rightarrow> sim client \<Rightarrow> bool" where
  "allocates c c' \<longleftrightarrow> (\<exists>n. c' = c\<lparr>world := (world c)\<lparr>sim_next := n\<rparr>\<rparr>)"

lemma allocates_refl [simp]: "allocates c c"
  by (auto simp: allocates_def intro!: exI [of _ "sim_next (world c)"])

lemma allocates_trans: "allocates c1 c2 \<Longrightarrow> allocates c2 c3 \<Longrightarrow> allocates c1 c3"
  by (auto simp: allocates_def)

lemma value_of_allocates: "LITE_json_value_of sim_os k s w = Some (v, w') \<Longrightarrow> \<exists>n. w' = w\<lparr>sim_next := n\<rparr>"
proof (induction "length k" arbitrary: k s w rule: less_induct)
  case less
  have self: "\<exists>n. w = w\<lparr>sim_next := n\<rparr>" by (rule exI [of _ "sim_next w"]) simp
  show ?case
  proof (cases "strchr chr_dot k")
    case None
    with less.prems self show ?thesis
      by (subst (asm) LITE_json_value_of.simps) (auto simp: bind_Some_iff split: option.splits)
  next
    case (Some d)
    then have short: "length (tl d) < length k" using strchr_length [of chr_dot k d] by (cases d) auto
    from Some less.prems obtain p n ty where p: "(case p of None \<Rightarrow> Some (None, w\<lparr>sim_next := Suc (sim_next w)\<rparr>)
        | Some v \<Rightarrow> LITE_json_value_of sim_os (tl d) v (w\<lparr>sim_next := Suc (sim_next w)\<rparr>)) = Some (v, w')"
      unfolding LITE_json_value_of.simps [of sim_os k s w] by (auto simp: bind_Some_iff)
    then show ?thesis by (auto split: option.splits dest!: less.hyps [OF short])
  qed
qed

lemma sim_malloc_ok: "fst (os_malloc sim_os w) \<noteq> None"
  by simp

lemma sim_field:
  assumes "json_ok (JObj kvs)" "distinct (map fst kvs)" "(cstr k, v) \<in> set kvs" "json_content v \<noteq> []" and "chr_dot \<notin> set (cstr k)"
  shows "\<exists>c. json_value_in sim_os k (json_text (JObj kvs) @ s) g = Some (Some (json_content v), g\<lparr>gw_mqtt := c\<rparr>) \<and> allocates (gw_mqtt g) c"
proof -
  obtain w where w: "LITE_json_value_of sim_os (cstr k) (json_text (JObj kvs) @ s) (world (gw_mqtt g)) = Some (Some (json_content v), w)"
    using value_in_front [OF sim_malloc_ok assms] by blast
  with value_of_allocates [OF w] show ?thesis by (auto simp: json_value_in_def allocates_def)
qed

text \<open>The text of a device in the list of a message, and the list of bound devices after a message.\<close>

definition device_text :: "cstring \<Rightarrow> cstring \<times> cstring \<Rightarrow> bool" where
  "device_text s d \<longleftrightarrow> (\<exists>ds. s = json_text (JObj ds) \<and> json_ok (JObj ds) \<and> distinct (map fst ds) \<and>
     (cstr ''product_id'', JStr (fst d)) \<in> set ds \<and> (cstr ''device_name'', JStr (snd d)) \<in> set ds \<and> fst d \<noteq> [] \<and> snd d \<noteq> [])"

definition bindinfo :: "cstring \<times> cstring \<Rightarrow> SubdevBindInfo" where
  "bindinfo d = \<lparr>bi_product_id = take MAX_SIZE_OF_PRODUCT_ID (fst d), bi_device_name = take MAX_SIZE_OF_DEVICE_NAME (snd d)\<rparr>"

lemma device_fields:
  assumes "device_text s d"
  shows "\<exists>c. get_json_product_id sim_os s g = Some (Some (fst d), g\<lparr>gw_mqtt := c\<rparr>) \<and> allocates (gw_mqtt g) c"
    "\<exists>c. get_json_device_name sim_os s g = Some (Some (snd d), g\<lparr>gw_mqtt := c\<rparr>) \<and> allocates (gw_mqtt g) c"
proof -
  obtain ds where ds: "s = json_text (JObj ds)" "json_ok (JObj ds)" "distinct (map fst ds)" "(cstr ''product_id'', JStr (fst d)) \<in> set ds"
    "(cstr ''device_name'', JStr (snd d)) \<in> set ds" "fst d \<noteq> []" "snd d \<noteq> []" using assms by (auto simp: device_text_def)
  have content: "json_content (JStr x) = x" for x by (simp add: json_content_def)
  have dots: "chr_dot \<notin> set (cstr ''product_id'')" "chr_dot \<notin> set (cstr ''device_name'')" by (simp_all add: cstr_def)
  show "\<exists>c. get_json_product_id sim_os s g = Some (Some (fst d), g\<lparr>gw_mqtt := c\<rparr>) \<and> allocates (gw_mqtt g) c"
    "\<exists>c. get_json_device_name sim_os s g = Some (Some (snd d), g\<lparr>gw_mqtt := c\<rparr>) \<and> allocates (gw_mqtt g) c"
    using sim_field [OF ds(2,3,4) _ dots(1), of "[]" g] sim_field [OF ds(2,3,5) _ dots(2), of "[]" g] ds(6,7) unfolding content
    by (auto simp: get_json_product_id_def get_json_device_name_def ds(1) simp del: json_text.simps)
qed

lemma devices_bound:
  "list_all2 device_text (map (\<lambda>e. take (snd e) (fst e)) es) devs \<Longrightarrow>
   \<exists>c. proc_devlist_loop sim_os SUBDEV_OP_BIND True es stale g = Some (g\<lparr>gw_mqtt := c, bindlist_head := map bindinfo (rev devs) @ bindlist_head g,
      bind_num := bind_num g + int (length devs)\<rparr>) \<and> allocates (gw_mqtt g) c"
proof (induction es arbitrary: devs stale g)
  case Nil
  have "g = g\<lparr>gw_mqtt := gw_mqtt g, bindlist_head := bindlist_head g, bind_num := bind_num g\<rparr>" by simp
  then show ?case using Nil by (auto intro!: exI [of _ "gw_mqtt g"])
next
  case (Cons e es)
  then obtain d ds where devs: "devs = d # ds" and d: "device_text (take (snd e) (fst e)) d" and ds: "list_all2 device_text (map (\<lambda>e. take (snd e) (fst e)) es) ds"
    by (auto simp: list_all2_Cons1)
  have ne: "fst d \<noteq> []" "snd d \<noteq> []" using d by (auto simp: device_text_def)
  obtain c1 where c1: "get_json_product_id sim_os (take (snd e) (fst e)) g = Some (Some (fst d), g\<lparr>gw_mqtt := c1\<rparr>)" "allocates (gw_mqtt g) c1"
    using device_fields(1) [OF d] by blast
  obtain c2 where c2: "get_json_device_name sim_os (take (snd e) (fst e)) (g\<lparr>gw_mqtt := c1\<rparr>) = Some (Some (snd d), g\<lparr>gw_mqtt := c2\<rparr>)" "allocates c1 c2"
    using device_fields(2) [OF d, of "g\<lparr>gw_mqtt := c1\<rparr>"] by auto
  let ?c3 = "c2\<lparr>world := (world c2)\<lparr>sim_next := sim_next (world c2) + 1\<rparr>\<rparr>"
  let ?g3 = "g\<lparr>gw_mqtt := ?c3, bindlist_head := bindinfo d # bindlist_head g, bind_num := bind_num g + 1\<rparr>"
  have add: "subdev_add_bindinfo sim_os (fst d) (snd d) (g\<lparr>gw_mqtt := c2\<rparr>) = (True, ?g3)"
    using ne by (simp add: subdev_add_bindinfo_def sim_malloc bindinfo_def)
  have a3: "allocates (gw_mqtt g) ?c3" using allocates_trans [OF c1(2) c2(2)] by (auto simp: allocates_def)
  obtain c where c: "proc_devlist_loop sim_os SUBDEV_OP_BIND True es True ?g3 = Some (?g3\<lparr>gw_mqtt := c, bindlist_head := map bindinfo (rev ds) @ bindlist_head ?g3,
      bind_num := bind_num ?g3 + int (length ds)\<rparr>)" "allocates (gw_mqtt ?g3) c"
    using Cons.IH [OF ds, of True ?g3] by blast
  have "allocates (gw_mqtt g) c" using allocates_trans [OF a3] c(2) by simp
  with c(1) show ?case by (intro exI [of _ c]) (simp add: Let_def c1(1) c2(1) add devs)
qed

lemma unbind_device_remove1:
  "\<forall>b \<in> set bs. length (bi_product_id b) \<le> MAX_SIZE_OF_PRODUCT_ID \<and> length (bi_device_name b) \<le> MAX_SIZE_OF_DEVICE_NAME \<Longrightarrow>
   bindinfo d \<in> set bs \<Longrightarrow> unbind_device (fst d) (snd d) bs = Some (remove1 (bindinfo d) bs)"
  by (induction bs) (auto simp: bindinfo_def)

lemma devices_unbound:
  "list_all2 device_text (map (\<lambda>e. take (snd e) (fst e)) es) devs \<Longrightarrow> binds_ok g \<Longrightarrow> distinct (bindlist_head g) \<Longrightarrow>
   distinct (map bindinfo devs) \<Longrightarrow> bindinfo ` set devs \<subseteq> set (bindlist_head g) \<Longrightarrow>
   \<exists>c. proc_devlist_loop sim_os SUBDEV_OP_UNBIND True es stale g = Some (g\<lparr>gw_mqtt := c, bindlist_head := filter (\<lambda>b. b \<notin> bindinfo ` set devs) (bindlist_head g),
      bind_num := bind_num g - int (length devs)\<rparr>) \<and> allocates (gw_mqtt g) c"
proof (induction es arbitrary: devs stale g)
  case Nil
  have "g = g\<lparr>gw_mqtt := gw_mqtt g, bindlist_head := bindlist_head g, bind_num := bind_num g\<rparr>" by simp
  then show ?case using Nil by (auto intro!: exI [of _ "gw_mqtt g"])
next
  case (Cons e es)
  then obtain d ds where devs: "devs = d # ds" and d: "device_text (take (snd e) (fst e)) d" and ds: "list_all2 device_text (map (\<lambda>e. take (snd e) (fst e)) es) ds"
    by (auto simp: list_all2_Cons1)
  obtain c1 where c1: "get_json_product_id sim_os (take (snd e) (fst e)) g = Some (Some (fst d), g\<lparr>gw_mqtt := c1\<rparr>)" "allocates (gw_mqtt g) c1"
    using device_fields(1) [OF d] by blast
  obtain c2 where c2: "get_json_device_name sim_os (take (snd e) (fst e)) (g\<lparr>gw_mqtt := c1\<rparr>) = Some (Some (snd d), g\<lparr>gw_mqtt := c2\<rparr>)" "allocates c1 c2"
    using device_fields(2) [OF d, of "g\<lparr>gw_mqtt := c1\<rparr>"] by auto
  let ?l = "filter (\<lambda>b. b \<noteq> bindinfo d) (bindlist_head g)"
  let ?g3 = "g\<lparr>gw_mqtt := c2, bindlist_head := ?l, bind_num := bind_num g - 1\<rparr>"
  have l: "remove1 (bindinfo d) (bindlist_head g) = ?l" 
    using Cons.prems(3) by (simp add: distinct_remove1_removeAll removeAll_filter_not_eq eq_commute [of "bindinfo d"])
  have rm: "subdev_unbind_device (fst d) (snd d) (g\<lparr>gw_mqtt := c2\<rparr>) = (True, ?g3)"
    using unbind_device_remove1 [of "bindlist_head g" d] Cons.prems(2,5) by (simp add: subdev_unbind_device_def binds_ok_def devs l)
  have "length (remove1 (bindinfo d) (bindlist_head g)) + 1 = length (bindlist_head g)"
    using Cons.prems(5) length_pos_if_in_set [of "bindinfo d" "bindlist_head g"] by (simp add: devs length_remove1)
  then have ok3: "binds_ok ?g3" using Cons.prems(2) by (auto simp: binds_ok_def l)
  have d3: "distinct (bindlist_head ?g3)" "distinct (map bindinfo ds)" "bindinfo ` set ds \<subseteq> set (bindlist_head ?g3)"
    using Cons.prems(3-5) by (auto simp: devs image_iff)
  obtain c where c: "proc_devlist_loop sim_os SUBDEV_OP_UNBIND True es True ?g3 = Some (?g3\<lparr>gw_mqtt := c,
      bindlist_head := filter (\<lambda>b. b \<notin> bindinfo ` set ds) (bindlist_head ?g3), bind_num := bind_num ?g3 - int (length ds)\<rparr>)" "allocates (gw_mqtt ?g3) c"
    using Cons.IH [OF ds ok3 d3, of True] by blast
  have "allocates (gw_mqtt g) c" using allocates_trans [OF allocates_trans [OF c1(2) c2(2)]] c(2) by simp
  moreover have "filter (\<lambda>b. b \<notin> bindinfo ` set ds) ?l = filter (\<lambda>b. b \<notin> bindinfo ` set devs) (bindlist_head g)"
    by (auto simp: devs intro: filter_cong)
  ultimately show ?case using c(1) by (intro exI [of _ c]) (simp add: Let_def c1(1) c2(1) rm devs)
qed

section \<open>The answer to a change\<close>

lemma append_text_holds:
  assumes "holds a 0 (length a) s" and "length s + length t + 1 < length a" and "length a < 2 ^ 63" and "0 \<notin> set t"
  shows "\<exists>a'. append_text t (a, length s) = Some (a', length (s @ t)) \<and> holds a' 0 (length a) (s @ t) \<and> length a' = length a"
proof -
  let ?m = "length a - 1 - length s"
  have "(int (length a) - 1 - int (length s)) mod 2 ^ 64 = int (length a) - 1 - int (length s)"
    using assms(2,3) by (intro mod_pos_pos_trivial) auto
  then have m: "nat ((int (length a) - 1 - int (length s)) mod 2 ^ 64) = ?m" using assms(2) by simp
  have run: "append_text t (a, length s) = do { (r, a) \<leftarrow> snprintf_at a (length s) ?m t; Some (a, length s + length t) }"
    by (simp only: append_text_def prod.case m)
  have "take (?m - 1) t = t" using assms(2) by simp
  moreover obtain a' where "snprintf_at a (0 + length s) ?m t = Some (int (length t), a') \<and> holds a' 0 (length a) (take (length s) s @ take (?m - 1) t) \<and> same_outside 0 (length a) a a'"
    using snprintf_at_holds [OF assms(1) order_refl _ _ assms(4), of ?m] assms(2) by auto
  ultimately show ?thesis by (auto simp: run same_outside_def)
qed

definition entry_text :: "cstring \<times> cstring \<Rightarrow> cstring" where
  "entry_text d = change_entry (fst d) (snd d)"

definition entries_text :: "bool \<Rightarrow> (cstring \<times> cstring) list \<Rightarrow> cstring" where
  "entries_text is_first devs = (if is_first then sep (map entry_text devs) else concat (map (\<lambda>d. 0x2C # entry_text d) devs))"

lemma entries_text_Cons: "entries_text b (d # ds) = (if b then [] else cstr '','') @ entry_text d @ entries_text False ds"
  by (auto simp: entries_text_def sep_Cons comp_def cstr_def)

lemma device_text_chars: "device_text s d \<Longrightarrow> 0 \<notin> set (entry_text d)"
proof -
  assume "device_text s d"
  then have "plain (fst d)" "plain (snd d)" by (fastforce simp: device_text_def)+
  then show ?thesis by (simp add: entry_text_def change_entry_def plain_def cstr_def)
qed

lemma change_entries_appended:
  "list_all2 device_text (map (\<lambda>e. take (snd e) (fst e)) es) devs \<Longrightarrow> holds a 0 1024 s \<Longrightarrow> length a = 1024 \<Longrightarrow>
   length s + length (entries_text is_first devs) \<le> 895 \<Longrightarrow>
   \<exists>a' c. ack_change_loop sim_os True es is_first devices (a, length s) g =
     Some ((a', length (s @ entries_text is_first devs)), devices, g\<lparr>gw_mqtt := c\<rparr>) \<and> holds a' 0 1024 (s @ entries_text is_first devs) \<and>
     length a' = 1024 \<and> allocates (gw_mqtt g) c"
proof (induction es arbitrary: devs a s is_first g)
  case Nil
  have "g = g\<lparr>gw_mqtt := gw_mqtt g\<rparr>" by simp
  moreover have "entries_text is_first [] = []" by (simp add: entries_text_def)
  ultimately show ?case using Nil by (auto intro!: exI [of _ "gw_mqtt g"])
next
  case (Cons e es)
  then obtain d ds where devs: "devs = d # ds" and d: "device_text (take (snd e) (fst e)) d" and ds: "list_all2 device_text (map (\<lambda>e. take (snd e) (fst e)) es) ds"
    by (auto simp: list_all2_Cons1)
  let ?comma = "(if is_first then [] else cstr '','') :: cstring"
  have room: "length s + length ?comma + length (entry_text d) + length (entries_text False ds) \<le> 895"
    using Cons.prems(4) by (simp add: devs entries_text_Cons split del: if_split)
  obtain a1 where a1: "(if is_first then Some (a, length s) else append_text (cstr '','') (a, length s)) = Some (a1, length (s @ ?comma))"
    "holds a1 0 1024 (s @ ?comma)" "length a1 = 1024"
    using append_text_holds [of a s "cstr '',''"] Cons.prems(2,3) room by (cases is_first) (auto simp: cstr_def)
  obtain c1 where c1: "get_json_product_id sim_os (take (snd e) (fst e)) g = Some (Some (fst d), g\<lparr>gw_mqtt := c1\<rparr>)" "allocates (gw_mqtt g) c1"
    using device_fields(1) [OF d] by blast
  obtain c2 where c2: "get_json_device_name sim_os (take (snd e) (fst e)) (g\<lparr>gw_mqtt := c1\<rparr>) = Some (Some (snd d), g\<lparr>gw_mqtt := c2\<rparr>)" "allocates c1 c2"
    using device_fields(2) [OF d, of "g\<lparr>gw_mqtt := c1\<rparr>"] by auto
  obtain a2 where a2: "append_text (entry_text d) (a1, length (s @ ?comma)) = Some (a2, length ((s @ ?comma) @ entry_text d))"
    "holds a2 0 1024 ((s @ ?comma) @ entry_text d)" "length a2 = 1024"
    using append_text_holds [of a1 "s @ ?comma" "entry_text d"] a1(2,3) device_text_chars [OF d] room by auto
  have "length ((s @ ?comma) @ entry_text d) + length (entries_text False ds) \<le> 895" using room by simp
  from Cons.IH [OF ds a2(2,3) this, of "g\<lparr>gw_mqtt := c2\<rparr>"] obtain a' c where
    c: "ack_change_loop sim_os True es False devices (a2, length ((s @ ?comma) @ entry_text d)) (g\<lparr>gw_mqtt := c2\<rparr>) =
      Some ((a', length (((s @ ?comma) @ entry_text d) @ entries_text False ds)), devices, g\<lparr>gw_mqtt := c\<rparr>)"
    "holds a' 0 1024 (((s @ ?comma) @ entry_text d) @ entries_text False ds)" "length a' = 1024" "allocates c2 c" by auto
  have whole: "((s @ ?comma) @ entry_text d) @ entries_text False ds = s @ entries_text is_first devs" by (simp add: devs entries_text_Cons)
  have "\<not> int (length a) - 1 - int (length s) < 128" using room Cons.prems(3) by simp
  then have "ack_change_loop sim_os True (e # es) is_first devices (a, length s) g =
      ack_change_loop sim_os True es False devices (a2, length ((s @ ?comma) @ entry_text d)) (g\<lparr>gw_mqtt := c2\<rparr>)"
    using a1(1) a2(1) c1(1) c2(1) by (simp add: entry_text_def split del: if_split)
  with c allocates_trans [OF allocates_trans [OF c1(2) c2(2)] c(4)] show ?case unfolding whole by auto
qed

definition change_text :: "int \<Rightarrow> (cstring \<times> cstring) list \<Rightarrow> cstring" where
  "change_text st devs = cstr ''{\"type\":\"change\", \"payload\":{\"status\":'' @ dec_int st @ cstr '', \"devices\":['' @
     sep (map entry_text devs) @ cstr '']}}''"

text \<open>A client that can publish: what the next lemmas and properties need of it.\<close>

definition can_publish :: "sim client \<Rightarrow> bool" where
  "can_publish c \<longleftrightarrow> client_inv sim_os c \<and> is_connected c \<and> sim_ms (world c) < 2 ^ 60 \<and> length (list_pub_wait_ack c) < MAX_REPUB_NUM"

lemma allocates_publish: "allocates c c' \<Longrightarrow> can_publish c \<Longrightarrow> can_publish c' \<and> sim_out (world c') = sim_out (world c) \<and> device_info c' = device_info c"
  by (auto simp: allocates_def can_publish_def env_inv)

lemma reply_sent:
  assumes "can_publish (gw_mqtt g)" and "c_string a = Some payload" and "length payload \<le> 1900"
  shows "\<exists>c. send_reply sim_os a g = Some (g\<lparr>gw_mqtt := c\<rparr>) \<and>
     sim_out (world c) = sim_out (world (gw_mqtt g)) @ packet_bytes 0x30 (publish_body QOS0 0 (gateway_topic g) payload)"
proof -
  have topic: "0 < length (gateway_topic g)" "length (gateway_topic g) \<le> MAX_SIZE_OF_CLOUD_TOPIC"
    by (simp_all add: gateway_topic_def snprintf_def operation_topic_def cstr_def)
  obtain c where "qcloud_iot_mqtt_publish sim_os (Some (gateway_topic g)) (qos0_params payload) (gw_mqtt g) = Some (0, qos0_params payload, c)"
    "sim_out (world c) = sim_out (world (gw_mqtt g)) @ packet_bytes 0x30 (publish_body QOS0 0 (gateway_topic g) payload)"
    using sim_publish [of "gw_mqtt g" "gateway_topic g" "qos0_params payload" payload] assms(1,3) topic by (auto simp: can_publish_def qos0_params_def)
  then show ?thesis using assms(2) by (auto simp: send_reply_def IOT_Gateway_Publish_def)
qed

lemma gateway_topic_same: "device_info c = device_info (gw_mqtt g) \<Longrightarrow> gateway_topic (g\<lparr>gw_mqtt := c\<rparr>) = gateway_topic g"
  by (simp add: gateway_topic_def)

lemma dec_int_chars: "0 \<notin> set (dec_int i)"
  using dec_nat_digits [of "nat i"] dec_nat_digits [of "nat (- i)"] digit_plain by (auto simp: dec_int_def)

lemma change_acknowledged:
  assumes pub: "can_publish (gw_mqtt g)" and devices: "list_all2 device_text (map json_text vs) devs" "\<forall>v \<in> set vs. json_ok v \<and> json_content v = json_text v"
    and room: "length (change_text st devs) \<le> 895"
  shows "\<exists>c. gateway_ack_change sim_os (json_text (JArr vs)) st g = Some (json_text (JArr vs), g\<lparr>gw_mqtt := c\<rparr>) \<and>
     sim_out (world c) = sim_out (world (gw_mqtt g)) @ packet_bytes 0x30 (publish_body QOS0 0 (gateway_topic g) (change_text st devs))"
proof -
  let ?head = "cstr ''{\"type\":\"change\", \"payload\":{\"status\":'' @ dec_int st @ cstr '', \"devices\":[''"
  have map: "map json_content vs = map json_text vs" using devices(2) by simp
  obtain es where es: "json_array (json_text (JArr vs)) = (es, True)" "map (\<lambda>e. take (snd e) (fst e)) es = map json_text vs"
    using json_array_text [of vs] devices(2) unfolding map by blast
  have "(1024 :: nat) = Suc 1023" by simp
  then have "replicate 1024 (0 :: u8) = [] @ 0 # replicate 1023 0" by (simp only: replicate_Suc append_Nil)
  then have h0: "holds (replicate 1024 0) 0 1024 []" by (simp add: holds_def)
  have len: "length ?head + length (entries_text True devs) + 3 \<le> 895" using room by (simp add: change_text_def entries_text_def cstr_def)
  have chars: "0 \<notin> set ?head" using dec_int_chars by (simp add: cstr_def)
  obtain a1 where a1: "append_text ?head (replicate 1024 0, 0) = Some (a1, length ?head)" "holds a1 0 1024 ?head" "length a1 = 1024"
    using append_text_holds [of "replicate 1024 0" "[]" ?head] h0 len chars by auto
  obtain a2 c where a2: "ack_change_loop sim_os True es True (json_text (JArr vs)) (a1, length ?head) g =
     Some ((a2, length (?head @ entries_text True devs)), json_text (JArr vs), g\<lparr>gw_mqtt := c\<rparr>)" "holds a2 0 1024 (?head @ entries_text True devs)"
     "length a2 = 1024" "allocates (gw_mqtt g) c"
    using change_entries_appended [of es devs a1 ?head True "json_text (JArr vs)" g] devices(1) a1(2,3) len unfolding es(2) by auto
  obtain a3 where a3: "append_text (cstr '']}}'') (a2, length (?head @ entries_text True devs)) = Some (a3, length ((?head @ entries_text True devs) @ cstr '']}}''))"
    "holds a3 0 1024 ((?head @ entries_text True devs) @ cstr '']}}'')"
    using append_text_holds [of a2 "?head @ entries_text True devs" "cstr '']}}''"] a2(2,3) len by (auto simp: cstr_def)
  have "(?head @ entries_text True devs) @ cstr '']}}'' = change_text st devs" by (simp add: change_text_def entries_text_def)
  then have whole: "c_string a3 = Some (change_text st devs)" using holds_c_string [OF a3(2)] by simp
  note c = allocates_publish [OF a2(4) pub]
  obtain c' where c': "send_reply sim_os a3 (g\<lparr>gw_mqtt := c\<rparr>) = Some (g\<lparr>gw_mqtt := c'\<rparr>)"
    "sim_out (world c') = sim_out (world c) @ packet_bytes 0x30 (publish_body QOS0 0 (gateway_topic (g\<lparr>gw_mqtt := c\<rparr>)) (change_text st devs))"
    using reply_sent [of "g\<lparr>gw_mqtt := c\<rparr>" a3, OF _ whole] c room by auto
  show ?thesis
    using a1(1) a2(1) a3(1) c' c es(1) gateway_topic_same [of c g]
    by (auto simp: gateway_ack_change_def Let_def simp del: json_text.simps)
qed

text \<open>A message that binds or unbinds devices.\<close>

definition change_doc :: "cstring \<Rightarrow> int \<Rightarrow> json list \<Rightarrow> (cstring \<times> cstring) list \<Rightarrow> bool" where
  "change_doc doc st vs devs \<longleftrightarrow> (\<exists>kvs ps. doc = json_text (JObj kvs) \<and> json_ok (JObj kvs) \<and> distinct (map fst kvs) \<and>
     (cstr ''type'', JStr (cstr ''change'')) \<in> set kvs \<and> (cstr ''payload'', JObj ps) \<in> set kvs \<and> distinct (map fst ps) \<and>
     (cstr ''status'', JNum (dec_int st)) \<in> set ps \<and> (cstr ''devices'', JArr vs) \<in> set ps \<and>
     (\<forall>v \<in> set vs. \<exists>ds. v = JObj ds) \<and> list_all2 device_text (map json_text vs) devs)"

definition binds_after :: "int \<Rightarrow> (cstring \<times> cstring) list \<Rightarrow> SubdevBindInfo list \<Rightarrow> SubdevBindInfo list" where
  "binds_after st devs l = (if st \<noteq> 0 then map bindinfo (rev devs) @ l else filter (\<lambda>b. b \<notin> bindinfo ` set devs) l)"

lemma sim_path:
  assumes "json_ok (JObj kvs)" "distinct (map fst kvs)" "(k, JObj kvs2) \<in> set kvs" "chr_dot \<notin> set k"
    and "distinct (map fst kvs2)" "(k2, v) \<in> set kvs2" "json_content v \<noteq> []" "chr_dot \<notin> set k2" and "cstr key = k @ chr_dot # k2"
  shows "\<exists>c. json_value_in sim_os key (json_text (JObj kvs)) g = Some (Some (json_content v), g\<lparr>gw_mqtt := c\<rparr>) \<and> allocates (gw_mqtt g) c"
proof -
  obtain w where w: "LITE_json_value_of sim_os (cstr key) (json_text (JObj kvs)) (world (gw_mqtt g)) = Some (Some (json_content v), w)"
    using value_by_path [OF sim_malloc_ok assms(1-8), of "[]"] by (auto simp: assms(9) simp del: json_text.simps)
  with value_of_allocates [OF w] show ?thesis by (auto simp: json_value_in_def allocates_def)
qed

lemma change_handled:
  assumes m: "gateway_carries m doc" and doc: "change_doc doc st vs devs" and st: "- (2 ^ 31) \<le> st" "st < 2 ^ 31"
    and pub: "can_publish (gw_mqtt g)" and buf: "length (recv_buf g) = GATEWAY_RECEIVE_BUFFER_LEN"
    and binds: "st = 0 \<Longrightarrow> binds_ok g \<and> distinct (bindlist_head g) \<and> distinct (map bindinfo devs) \<and> bindinfo ` set devs \<subseteq> set (bindlist_head g)"
    and room: "length (change_text st devs) \<le> 895"
  shows "\<exists>g'. gateway_message_handler sim_os m g = Some g' \<and> bindlist_head g' = binds_after st devs (bindlist_head g) \<and>
     session_list g' = session_list g \<and> gateway_data g' = gateway_data g \<and>
     sim_out (world (gw_mqtt g')) = sim_out (world (gw_mqtt g)) @ packet_bytes 0x30 (publish_body QOS0 0 (gateway_topic g) (change_text st devs)) \<and>
     gw_calls g' = gw_calls g @ (case h_fp (gw_event_handle g) of None \<Rightarrow> []
       | Some f \<Rightarrow> [(f, h_context (gw_event_handle g), GatewayChange (json_text (JArr vs)) st)])"
proof -
  obtain kvs ps where d: "doc = json_text (JObj kvs)" "json_ok (JObj kvs)" "distinct (map fst kvs)" "(cstr ''type'', JStr (cstr ''change'')) \<in> set kvs"
    "(cstr ''payload'', JObj ps) \<in> set kvs" "distinct (map fst ps)" "(cstr ''status'', JNum (dec_int st)) \<in> set ps" "(cstr ''devices'', JArr vs) \<in> set ps"
    and vs: "\<forall>v \<in> set vs. \<exists>ds. v = JObj ds" "list_all2 device_text (map json_text vs) devs"
    using doc unfolding change_doc_def by blast
  have okp: "json_ok (JObj ps)" using d(2,5) by fastforce
  then have "json_ok (JArr vs)" using d(8) by fastforce
  then have okv: "\<forall>v \<in> set vs. json_ok v \<and> json_content v = json_text v" using vs(1) by (auto simp: json_content_def)
  obtain b where b: "gateway_message_handler sim_os m g =
     do { (ty, g) \<leftarrow> get_json_type sim_os doc (g\<lparr>recv_buf := b\<rparr>); (case ty of None \<Rightarrow> Some g | Some ty \<Rightarrow> gateway_message sim_os doc ty g) }"
    using gateway_document [OF m buf, of sim_os] by blast
  have ne: "json_content (JStr (cstr ''change'')) \<noteq> []" "json_content (JNum (dec_int st)) \<noteq> []" "json_content (JArr vs) \<noteq> []"
    using dec_int_nonempty by (simp_all add: json_content_def cstr_def)
  have keys: "chr_dot \<notin> set (cstr ''type'')" "chr_dot \<notin> set (cstr ''payload'')" "chr_dot \<notin> set (cstr ''status'')" "chr_dot \<notin> set (cstr ''devices'')"
    "cstr ''payload.status'' = cstr ''payload'' @ chr_dot # cstr ''status''" "cstr ''payload.devices'' = cstr ''payload'' @ chr_dot # cstr ''devices''"
    by (simp_all add: cstr_def)
  let ?g0 = "g\<lparr>recv_buf := b\<rparr>"
  obtain c1 where c1: "get_json_type sim_os doc ?g0 = Some (Some (cstr ''change''), ?g0\<lparr>gw_mqtt := c1\<rparr>)" "allocates (gw_mqtt g) c1"
    using sim_field [OF d(2,3,4) ne(1) keys(1), of "[]" ?g0] by (auto simp: get_json_type_def d(1) json_content_def simp del: json_text.simps)
  obtain c2 where c2: "get_json_devices sim_os doc (?g0\<lparr>gw_mqtt := c1\<rparr>) = Some (Some (json_text (JArr vs)), ?g0\<lparr>gw_mqtt := c2\<rparr>)" "allocates c1 c2"
    using sim_path [OF d(2,3,5) keys(2) d(6,8) ne(3) keys(4,6), of "?g0\<lparr>gw_mqtt := c1\<rparr>"]
    by (auto simp: get_json_devices_def d(1) json_content_def simp del: json_text.simps)
  obtain c3 where c3: "json_value_in sim_os ''payload.status'' doc (?g0\<lparr>gw_mqtt := c2\<rparr>) = Some (Some (dec_int st), ?g0\<lparr>gw_mqtt := c3\<rparr>)" "allocates c2 c3"
    using sim_path [OF d(2,3,5) keys(2) d(6,7) ne(2) keys(3,5), of "?g0\<lparr>gw_mqtt := c2\<rparr>"]
    by (auto simp: d(1) json_content_def simp del: json_text.simps(5))
  have "LITE_get_int32 (dec_int st) = Some (Inr st)" using st by (simp add: LITE_get_int32_def scan_i_dec scan_result_def)
  then have status: "get_json_payload_status sim_os doc (?g0\<lparr>gw_mqtt := c2\<rparr>) = Some (Some st, ?g0\<lparr>gw_mqtt := c3\<rparr>)"
    by (simp add: get_json_payload_status_def c3(1) int32_of_def)
  let ?g3 = "?g0\<lparr>gw_mqtt := c3\<rparr>"
  obtain es where es: "json_array (json_text (JArr vs)) = (es, True)" "map (\<lambda>e. take (snd e) (fst e)) es = map json_text vs"
    using json_array_text [of vs] okv by (metis (no_types, lifting) map_eq_conv)
  obtain c4 n where c4: "subdev_proc_devlist sim_os (json_text (JArr vs)) (if st \<noteq> 0 then SUBDEV_OP_BIND else SUBDEV_OP_UNBIND) ?g3 =
      Some (?g3\<lparr>gw_mqtt := c4, bindlist_head := binds_after st devs (bindlist_head g), bind_num := n\<rparr>)" "allocates c3 c4"
  proof (cases "st = 0")
    case True
    then show ?thesis using that devices_unbound [of es devs ?g3 False] vs(2) binds
      by (auto simp: subdev_proc_devlist_def es binds_after_def binds_ok_def simp del: json_text.simps)
  next
    case False
    then show ?thesis using that devices_bound [of es devs False ?g3] vs(2) by (auto simp: subdev_proc_devlist_def es binds_after_def simp del: json_text.simps)
  qed
  let ?g4 = "?g3\<lparr>gw_mqtt := c4, bindlist_head := binds_after st devs (bindlist_head g), bind_num := n\<rparr>"
  have "allocates (gw_mqtt g) c4" using c1(2) c2(2) c3(2) c4(2) allocates_trans by meson
  note c = allocates_publish [OF this pub]
  obtain c5 where c5: "gateway_ack_change sim_os (json_text (JArr vs)) st ?g4 = Some (json_text (JArr vs), ?g4\<lparr>gw_mqtt := c5\<rparr>)"
     "sim_out (world c5) = sim_out (world c4) @ packet_bytes 0x30 (publish_body QOS0 0 (gateway_topic ?g4) (change_text st devs))"
    using change_acknowledged [of ?g4, OF _ vs(2) okv room] c by auto
  have topic: "gateway_topic ?g4 = gateway_topic g" using c by (simp add: gateway_topic_def)
  have run: "gateway_message_handler sim_os m g = Some (gateway_event_handler (GatewayChange (json_text (JArr vs)) st) (?g4\<lparr>gw_mqtt := c5\<rparr>))"
    using c4(1) c5(1) unfolding b by (simp add: c1(1) gateway_message_def c2(1) change_message_def status has_prefix_def cstr_def [of "''unbind_all''"] cstr_def [of "''search_devices''"]
        cstr_def [of "''describe_sub_devices''"] cstr_def [of "''change''"] Let_def del: json_text.simps)
  show ?thesis unfolding run using c5(2) c topic by (auto simp: gateway_event_handler_def Let_def simp del: json_text.simps split: option.split)
qed

end
