(* ===== verification/Gw_Requests.thy ===== *)
theory Gw_Requests
  imports Gw_Messages Mqtt_Connection Mqtt_Delivery
begin

text \<open>
  The requests of the gateway from end to end, on the kernel of the theory \<^verbatim>\<open>Hal_Model\<close>: what is sent, the turns in which the answer comes
  in from the wire or does not, and what becomes of the session. Then defects.
\<close>

section \<open>Waiting for the cloud\<close>

text \<open>A client that waits for nothing: only a message can change it while it yields.\<close>

definition quiet :: "sim client \<Rightarrow> bool" where
  "quiet c \<longleftrightarrow> client_inv sim_os c \<and> is_connected c \<and> keep_alive_interval (options c) = 0 \<and> list_pub_wait_ack c = [] \<and> list_sub_wait_ack c = []"

lemma quiet_world [simp]: "quiet (c\<lparr>world := w\<rparr>) = quiet c"
  by (simp add: quiet_def env_inv)

lemma quiet_yield_step:
  assumes "quiet c" and "sim_in (world c) = []"
  shows "\<exists>m \<ge> 1. yield_step sim_os timer c = Some (0, timer, c\<lparr>world := tick m (world c)\<rparr>)"
proof -
  obtain m where "m \<ge> 1" "cycle_for_read sim_os timer 0 c = Some (0, timer, 0, c\<lparr>world := tick m (world c)\<rparr>)"
    using sim_cycle_idle [OF client_inv_net assms(2)] assms(1) by (auto simp: quiet_def)
  with assms show ?thesis
    by (intro exI [of _ m]) (simp add: yield_step_def qcloud_iot_mqtt_pub_info_proc_def qcloud_iot_mqtt_sub_info_proc_def mqtt_keep_alive_def quiet_def)
qed

lemma quiet_yield_loop:
  "quiet c \<Longrightarrow> sim_in (world c) = [] \<Longrightarrow> sim_deadline timer d \<Longrightarrow>
   \<exists>m. yield_loop sim_os timer 0 c = Some (0, c\<lparr>world := tick m (world c)\<rparr>) \<and> d \<le> sim_ms (world c) + m"
proof (induction "d - sim_ms (world c)" arbitrary: c rule: less_induct)
  case less
  let ?c1 = "c\<lparr>world := tick 1 (world c)\<rparr>"
  have e: "expired sim_os timer c = (d \<le> sim_ms (world c), ?c1)" by (rule sim_expired [OF less.prems(3)])
  show ?case
  proof (cases "d \<le> sim_ms (world c)")
    case True
    then show ?thesis by (intro exI [of _ 1]) (subst yield_loop.simps, simp add: e)
  next
    case False
    obtain m where m: "m \<ge> 1" "yield_step sim_os timer ?c1 = Some (0, timer, c\<lparr>world := tick (m + 1) (world c)\<rparr>)"
      using quiet_yield_step [of ?c1 timer] less.prems by auto
    let ?c2 = "c\<lparr>world := tick (m + 1) (world c)\<rparr>"
    have "\<exists>k. yield_loop sim_os timer 0 ?c2 = Some (0, ?c2\<lparr>world := tick k (world ?c2)\<rparr>) \<and> d \<le> sim_ms (world ?c2) + k"
      by (rule less.hyps) (use False m(1) less.prems in auto)
    then obtain k where k: "yield_loop sim_os timer 0 ?c2 = Some (0, ?c2\<lparr>world := tick k (world ?c2)\<rparr>)" "d \<le> sim_ms (world ?c2) + k" by blast
    have "yield_loop sim_os timer 0 c = yield_loop sim_os timer 0 ?c2"
      using False m(2) less.prems(1) by (subst yield_loop.simps) (simp add: e get_client_conn_state_def quiet_def)
    with k show ?thesis by (intro exI [of _ "m + 1 + k"]) (simp add: add.commute)
  qed
qed

lemma quiet_yield:
  assumes "quiet c" and "sim_in (world c) = []" and "0 < t"
  shows "\<exists>m. IOT_MQTT_Yield sim_os t c = Some (0, c\<lparr>world := tick m (world c)\<rparr>) \<and> t \<le> m"
proof -
  obtain timer where tm: "countdown_ms sim_os InitTimer t c = (timer, c\<lparr>world := tick 1 (world c)\<rparr>)" "sim_deadline timer (sim_ms (world c) + t)"
    using sim_countdown_ms by blast
  obtain m where "yield_loop sim_os timer 0 (c\<lparr>world := tick 1 (world c)\<rparr>) = Some (0, c\<lparr>world := tick (m + 1) (world c)\<rparr>)" "t \<le> m + 1"
    using quiet_yield_loop [of "c\<lparr>world := tick 1 (world c)\<rparr>" timer "sim_ms (world c) + t"] assms tm(2) by auto
  with tm(1) assms show ?thesis
    by (intro exI [of _ "m + 1"]) (simp add: IOT_MQTT_Yield_def qcloud_iot_mqtt_yield_def get_client_conn_state_def quiet_def)
qed

lemma quiet_gateway_yield:
  assumes "quiet (gw_mqtt g)" and "sim_in (world (gw_mqtt g)) = []" and "0 < t"
  shows "\<exists>m. IOT_Gateway_Yield sim_os t g = Some (0, g\<lparr>gw_mqtt := (gw_mqtt g)\<lparr>world := tick m (world (gw_mqtt g))\<rparr>\<rparr>) \<and> t \<le> m"
  using quiet_yield [OF assms] by (auto simp: IOT_Gateway_Yield_def)

lemma nobody_answers:
  assumes "\<And>g c. waits (g\<lparr>gw_mqtt := c\<rparr>) = waits g"
  shows "waits g \<Longrightarrow> quiet (gw_mqtt g) \<Longrightarrow> sim_in (world (gw_mqtt g)) = [] \<Longrightarrow>
   \<exists>m. yield_while n sim_os waits g = Some (False, g\<lparr>gw_mqtt := (gw_mqtt g)\<lparr>world := tick m (world (gw_mqtt g))\<rparr>\<rparr>) \<and> 200 * n \<le> m"
proof (induction n arbitrary: g)
  case 0
  from 0 show ?case by (intro exI [of _ 0]) (simp add: tick_def)
next
  case (Suc n)
  obtain m where m: "IOT_Gateway_Yield sim_os 200 g = Some (0, g\<lparr>gw_mqtt := (gw_mqtt g)\<lparr>world := tick m (world (gw_mqtt g))\<rparr>\<rparr>)" "200 \<le> m"
    using quiet_gateway_yield [OF Suc.prems(2,3), of 200] by auto
  let ?g1 = "g\<lparr>gw_mqtt := (gw_mqtt g)\<lparr>world := tick m (world (gw_mqtt g))\<rparr>\<rparr>"
  have "\<exists>k. yield_while n sim_os waits ?g1 = Some (False, ?g1\<lparr>gw_mqtt := (gw_mqtt ?g1)\<lparr>world := tick k (world (gw_mqtt ?g1))\<rparr>\<rparr>) \<and> 200 * n \<le> k"
    by (rule Suc.IH) (use Suc.prems in \<open>simp_all add: assms\<close>)
  then obtain k where k0: "yield_while n sim_os waits ?g1 = Some (False, ?g1\<lparr>gw_mqtt := (gw_mqtt ?g1)\<lparr>world := tick k (world (gw_mqtt ?g1))\<rparr>\<rparr>)" "200 * n \<le> k"
    by blast
  have k: "yield_while n sim_os waits ?g1 = Some (False, g\<lparr>gw_mqtt := (gw_mqtt g)\<lparr>world := tick (k + m) (world (gw_mqtt g))\<rparr>\<rparr>)"
    using k0(1) by simp
  have "yield_while (Suc n) sim_os waits g = yield_while n sim_os waits ?g1" using m(1) Suc.prems(1) by simp
  with k k0(2) m(2) show ?case by (intro exI [of _ "k + m"]) simp
qed

text \<open>A message of the cloud is taken off the stream and given to its handler, and the rest of the time passes.\<close>

lemma message_yields:
  assumes quiet: "quiet (gw_mqtt g)" and ms: "sim_ms (world (gw_mqtt g)) < 2 ^ 59" and t: "3 < t" "t < 2 ^ 58"
    and "in": "sim_in (world (gw_mqtt g)) = packet_bytes h (publish_body QOS0 i topic payload)"
    and h: "mqtt_init_packet_header PUBLISH QOS0 dup retained = Inr h"
    and topic: "0 \<notin> set topic" "topic \<noteq> []" "length topic < MAX_SIZE_OF_CLOUD_TOPIC" and payload: "length payload \<le> 1900"
    and handler: "find (handles_topic topic) (sub_handles (gw_mqtt g)) = Some sh" "message_handler sh = Some gateway_message_fp"
  shows "\<exists>m c. IOT_Gateway_Yield sim_os t g = do { g \<leftarrow> gateway_message_handler sim_os m (g\<lparr>gw_mqtt := c\<rparr>); Some (0, g) } \<and>
     message_of QOS0 dup retained i topic payload m"
proof -
  let ?c = "gw_mqtt g"
  obtain timer where tm: "countdown_ms sim_os InitTimer t ?c = (timer, ?c\<lparr>world := tick 1 (world ?c)\<rparr>)" "sim_deadline timer (sim_ms (world ?c) + t)"
    using sim_countdown_ms by blast
  let ?c1 = "?c\<lparr>world := tick 2 (world ?c)\<rparr>"
  have e: "expired sim_os timer (?c\<lparr>world := tick 1 (world ?c)\<rparr>) = (False, ?c1)" using sim_expired [OF tm(2), of "?c\<lparr>world := tick 1 (world ?c)\<rparr>"] t by simp
  have inv: "client_inv sim_os ?c1" using quiet by (simp add: quiet_def env_inv)
  have "\<exists>m c'. cycle_for_read sim_os timer 0 ?c1 = Some (0, timer, msg_code PUBLISH, c') \<and> sim_in (world c') = [] \<and>
     message_of QOS0 dup retained i topic payload m \<and> trace c' = trace (delivered m topic ?c1) \<and>
     (\<exists>b w. c' = ?c1\<lparr>read_buf := b, world := w, is_ping_outstanding := 0, trace := trace c'\<rparr>)"
    by (rule receive_publish [OF inv tm(2) _ _ _ h topic payload]) (use "in" ms t in auto)
  then obtain m c2 where r: "cycle_for_read sim_os timer 0 ?c1 = Some (0, timer, msg_code PUBLISH, c2)" "sim_in (world c2) = []"
    "message_of QOS0 dup retained i topic payload m" "trace c2 = trace (delivered m topic ?c1)"
    and c2: "\<exists>b w. c2 = ?c1\<lparr>read_buf := b, world := w, is_ping_outstanding := 0, trace := trace c2\<rparr>"
    by blast
  obtain b w where c2': "c2 = ?c1\<lparr>read_buf := b, world := w, is_ping_outstanding := 0, trace := trace c2\<rparr>" using c2 by blast
  have "client_inv sim_os c2" using wp_D4 [OF link_cycle [OF sim_kernel_ok inv] r(1)] by simp
  then have q2: "quiet c2" using quiet by (subst c2', subst (asm) c2') (simp add: quiet_def)
  then have step: "yield_step sim_os timer ?c1 = Some (0, timer, c2)"
    by (simp add: yield_step_def r(1) qcloud_iot_mqtt_pub_info_proc_def qcloud_iot_mqtt_sub_info_proc_def mqtt_keep_alive_def quiet_def)
  obtain k where k: "yield_loop sim_os timer 0 c2 = Some (0, c2\<lparr>world := tick k (world c2)\<rparr>)"
    using quiet_yield_loop [OF q2 r(2) tm(2)] by blast
  have "yield_loop sim_os timer 0 (?c\<lparr>world := tick 1 (world ?c)\<rparr>) = yield_loop sim_os timer 0 c2"
    using step quiet by (subst yield_loop.simps) (simp add: e [unfolded One_nat_def] get_client_conn_state_def quiet_def)
  then have y: "IOT_MQTT_Yield sim_os t ?c = Some (0, c2\<lparr>world := tick k (world c2)\<rparr>)"
    using tm(1) k quiet t by (simp add: IOT_MQTT_Yield_def qcloud_iot_mqtt_yield_def get_client_conn_state_def quiet_def)
  have "trace c2 = trace ?c @ [MessageCb gateway_message_fp m (handler_user_data sh)]" using r(4) handler by (simp add: delivered_trace)
  with y r(3) show ?thesis
    by (intro exI [of _ m] exI [of _ "c2\<lparr>world := tick k (world c2)\<rparr>"])
      (cases "gateway_message_handler sim_os m (g\<lparr>gw_mqtt := c2\<lparr>world := tick k (world c2)\<rparr>\<rparr>)"; simp add: IOT_Gateway_Yield_def run_gateway_callback_def)
qed

section \<open>Requests from end to end\<close>

text \<open>
  A gateway that can send: its client waits for nothing, the clock is far from its end, and its receive buffer has its size. A device, with
  ids that fit, and the topic of the gateway.
\<close>

definition ready :: "sim Gateway \<Rightarrow> bool" where
  "ready g \<longleftrightarrow> quiet (gw_mqtt g) \<and> sim_ms (world (gw_mqtt g)) < 2 ^ 58 \<and> length (recv_buf g) = GATEWAY_RECEIVE_BUFFER_LEN"

definition request_fits :: "cstring \<Rightarrow> cstring \<Rightarrow> cstring \<Rightarrow> cstring \<Rightarrow> cstring \<Rightarrow> bool" where
  "request_fits topic payload pid name cid \<longleftrightarrow> topic \<noteq> [] \<and> length topic \<le> MAX_SIZE_OF_CLOUD_TOPIC \<and> length payload \<le> GATEWAY_PAYLOAD_BUFFER_LEN \<and>
     cid = sub_client_id pid name \<and> length cid < MAX_SIZE_OF_CLIENT_ID"

lemma request_published:
  assumes "ready g" and "request_fits topic payload pid name cid"
  shows "\<exists>c. IOT_Gateway_Publish sim_os topic (qos0_params payload) (set_waiting op cid g) = Some (0, (set_waiting op cid g)\<lparr>gw_mqtt := c\<rparr>) \<and>
     quiet c \<and> sim_in (world c) = sim_in (world (gw_mqtt g)) \<and> sim_ms (world c) = sim_ms (world (gw_mqtt g)) + 5 \<and>
     sim_out (world c) = sim_out (world (gw_mqtt g)) @ packet_bytes 0x30 (publish_body QOS0 0 topic payload) \<and> sub_handles c = sub_handles (gw_mqtt g)"
proof -
  let ?c = "gw_mqtt g" and ?packet = "packet_bytes 0x30 (publish_body QOS0 0 topic payload)"
  let ?c' = "?c\<lparr>write_buf := ?packet @ drop (length ?packet) (write_buf ?c), world := tick 5 (world ?c)\<lparr>sim_out := sim_out (world ?c) @ ?packet\<rparr>\<rparr>"
  have p: "qcloud_iot_mqtt_publish sim_os (Some topic) (qos0_params payload) ?c = Some (0, qos0_params payload, ?c')"
    using sim_publish_qos0 [of ?c topic "qos0_params payload" payload] assms by (simp add: ready_def quiet_def request_fits_def qos0_params_def)
  have "client_inv sim_os ?c" using assms(1) by (simp add: ready_def quiet_def)
  from wp_D3 [OF publish_inv [OF this] p] have "client_inv sim_os ?c'" .
  then have "quiet ?c'" using assms(1) by (simp add: ready_def quiet_def)
  with p show ?thesis by (intro exI [of _ ?c']) (simp add: IOT_Gateway_Publish_def set_waiting_def)
qed

lemma cid_kept: "request_fits topic payload pid name cid \<Longrightarrow> snprintf MAX_SIZE_OF_CLIENT_ID (sub_client_id pid name) = cid"
  by (auto simp: request_fits_def snprintf_def)

text \<open>Without an answer the request ends with a timeout, after a hundred and one turns of 200 milliseconds.\<close>

lemma request_unanswered:
  assumes "ready g" and fits: "request_fits topic payload pid name cid" and "sim_in (world (gw_mqtt g)) = []"
  shows "\<exists>c. gateway_request sim_os op topic payload pid name g = Some (Inr QCLOUD_ERR_GATEWAY_SESSION_TIMEOUT, (set_waiting op cid g)\<lparr>gw_mqtt := c\<rparr>) \<and>
     sim_out (world c) = sim_out (world (gw_mqtt g)) @ packet_bytes 0x30 (publish_body QOS0 0 topic payload) \<and>
     sim_ms (world (gw_mqtt g)) + 20200 \<le> sim_ms (world c)"
proof -
  let ?g = "set_waiting op cid g"
  obtain c where c: "IOT_Gateway_Publish sim_os topic (qos0_params payload) ?g = Some (0, ?g\<lparr>gw_mqtt := c\<rparr>)" "quiet c" "sim_in (world c) = []"
    "sim_ms (world c) = sim_ms (world (gw_mqtt g)) + 5" "sim_out (world c) = sim_out (world (gw_mqtt g)) @ packet_bytes 0x30 (publish_body QOS0 0 topic payload)"
    using request_published [OF assms(1,2), of op] assms(3) by auto
  have res: "rd_result (gateway_data ?g op) = - 2" by (simp add: set_waiting_def)
  obtain m where m: "yield_while (GATEWAY_LOOP_MAX_COUNT + 1) sim_os (\<lambda>g. rd_result (gateway_data g op) = - 2) (?g\<lparr>gw_mqtt := c\<rparr>) =
      Some (False, ?g\<lparr>gw_mqtt := c\<lparr>world := tick m (world c)\<rparr>\<rparr>)" "20200 \<le> m"
    using nobody_answers [of "\<lambda>g. rd_result (gateway_data g op) = - 2" "?g\<lparr>gw_mqtt := c\<rparr>" "GATEWAY_LOOP_MAX_COUNT + 1"] c(2,3) res by auto
  have "gateway_publish_sync sim_os topic (qos0_params payload) op ?g = Some (QCLOUD_ERR_GATEWAY_SESSION_TIMEOUT, ?g\<lparr>gw_mqtt := c\<lparr>world := tick m (world c)\<rparr>\<rparr>)"
    unfolding gateway_publish_sync_def Let_def res c(1) using m(1) by (simp del: yield_while.simps add: bind.bind_lunit)
  moreover have "length topic \<le> 128" "length payload \<le> 1024" "\<not> 80 < length (sub_client_id pid name)" using fits by (auto simp: request_fits_def)
  ultimately show ?thesis using m(2) c(4,5) cid_kept [OF fits]
    by (intro exI [of _ "c\<lparr>world := tick m (world c)\<rparr>"]) (simp add: gateway_request_def)
qed

text \<open>The answer of the cloud, on the stream as a packet, decides.\<close>

definition answer_arrives :: "sim client \<Rightarrow> gateway_op \<Rightarrow> cstring \<Rightarrow> cstring \<Rightarrow> int \<Rightarrow> bool" where
  "answer_arrives c op pid name r \<longleftrightarrow> (\<exists>h i topic doc dup retained sh. sim_in (world c) = packet_bytes h (publish_body QOS0 i topic doc) \<and>
     mqtt_init_packet_header PUBLISH QOS0 dup retained = Inr h \<and> 0 \<notin> set topic \<and> topic \<noteq> [] \<and> length topic < MAX_SIZE_OF_CLOUD_TOPIC \<and>
     find (handles_topic topic) (sub_handles c) = Some sh \<and> message_handler sh = Some gateway_message_fp \<and>
     answers doc op pid name r \<and> 0 \<notin> set doc \<and> length doc < GATEWAY_RECEIVE_BUFFER_LEN)"

lemma request_answered:
  assumes "ready g" and fits: "request_fits topic payload pid name cid" and "answer_arrives (gw_mqtt g) op pid name r"
    and op: "op \<noteq> GetBindlistOp" and r: "- (2 ^ 31) \<le> r" "r < 2 ^ 31" "r \<noteq> - 2"
  shows "\<exists>b c. gateway_request sim_os op topic payload pid name g = Some (Inr (if r = 0 then QCLOUD_RET_SUCCESS else QCLOUD_ERR_FAILURE),
     (set_result op r (set_waiting op cid g))\<lparr>recv_buf := b, gw_mqtt := c\<rparr>)"
proof -
  let ?g = "set_waiting op cid g"
  obtain h i topic' doc dup retained sh where a: "sim_in (world (gw_mqtt g)) = packet_bytes h (publish_body QOS0 i topic' doc)"
     "mqtt_init_packet_header PUBLISH QOS0 dup retained = Inr h" "0 \<notin> set topic'" "topic' \<noteq> []" "length topic' < MAX_SIZE_OF_CLOUD_TOPIC"
     "find (handles_topic topic') (sub_handles (gw_mqtt g)) = Some sh" "message_handler sh = Some gateway_message_fp"
     "answers doc op pid name r" "0 \<notin> set doc" "length doc < GATEWAY_RECEIVE_BUFFER_LEN"
    using assms(3) unfolding answer_arrives_def by blast
  obtain c where c: "IOT_Gateway_Publish sim_os topic (qos0_params payload) ?g = Some (0, ?g\<lparr>gw_mqtt := c\<rparr>)" "quiet c"
    "sim_in (world c) = sim_in (world (gw_mqtt g))" "sim_ms (world c) = sim_ms (world (gw_mqtt g)) + 5" "sub_handles c = sub_handles (gw_mqtt g)"
    using request_published [OF assms(1,2), of op] by blast
  have res: "rd_result (gateway_data ?g op) = - 2" and cid: "rd_client_id (gateway_data ?g op) = cid" by (simp_all add: set_waiting_def)
  have "\<exists>m c1. IOT_Gateway_Yield sim_os 200 (?g\<lparr>gw_mqtt := c\<rparr>) = do { g \<leftarrow> gateway_message_handler sim_os m (?g\<lparr>gw_mqtt := c, gw_mqtt := c1\<rparr>); Some (0, g) } \<and>
     message_of QOS0 dup retained i topic' doc m"
    by (rule message_yields [OF _ _ _ _ _ a(2-5)]) (use c a(1,6,7,10) assms(1) in \<open>auto simp: ready_def\<close>)
  then obtain m c1 where m: "IOT_Gateway_Yield sim_os 200 (?g\<lparr>gw_mqtt := c\<rparr>) = do { g \<leftarrow> gateway_message_handler sim_os m (?g\<lparr>gw_mqtt := c1\<rparr>); Some (0, g) }"
    "message_of QOS0 dup retained i topic' doc m" by auto
  have ne: "doc \<noteq> []" using a(8) by (auto simp: answers_def)
  have carries: "gateway_carries m doc" using m(2) a(4,9,10) ne by (auto simp: gateway_carries_def message_of_def buf_read_def)
  have len: "length (sub_client_id pid name) \<le> MAX_SIZE_OF_CLIENT_ID" "cid = sub_client_id pid name" using fits by (auto simp: request_fits_def)
  have buf: "length (recv_buf (?g\<lparr>gw_mqtt := c1\<rparr>)) = GATEWAY_RECEIVE_BUFFER_LEN" using assms(1) by (simp add: ready_def set_waiting_def)
  have pre: "has_prefix (sub_client_id pid name) cid" by (simp add: len(2) has_prefix_def)
  obtain c2 b where "gateway_message_handler sim_os m (?g\<lparr>gw_mqtt := c1\<rparr>) = Some ((if has_prefix (sub_client_id pid name) (rd_client_id (gateway_data (?g\<lparr>gw_mqtt := c1\<rparr>) op))
     then set_result op r (?g\<lparr>gw_mqtt := c1\<rparr>) else ?g\<lparr>gw_mqtt := c1\<rparr>)\<lparr>recv_buf := b, gw_mqtt := c2\<rparr>)"
    using answer_sets_result [OF sim_malloc_ok carries a(8) op r(1,2) len(1) buf] by blast
  then have y: "IOT_Gateway_Yield sim_os 200 (?g\<lparr>gw_mqtt := c\<rparr>) = Some (0, (set_result op r ?g)\<lparr>recv_buf := b, gw_mqtt := c2\<rparr>)"
    using cid pre by (simp add: m(1) set_result_def)
  let ?g' = "(set_result op r ?g)\<lparr>recv_buf := b, gw_mqtt := c2\<rparr>"
  have stop: "yield_while n sim_os (\<lambda>g. rd_result (gateway_data g op) = - 2) ?g' = Some (True, ?g')" for n using r(3) by (cases n) (simp_all add: set_result_def)
  have "yield_while (GATEWAY_LOOP_MAX_COUNT + 1) sim_os (\<lambda>g. rd_result (gateway_data g op) = - 2) (?g\<lparr>gw_mqtt := c\<rparr>) = Some (True, ?g')"
    using y res stop [of GATEWAY_LOOP_MAX_COUNT] unfolding Suc_eq_plus1 [symmetric] yield_while.simps by simp
  then have "gateway_publish_sync sim_os topic (qos0_params payload) op ?g = Some (if r \<noteq> 0 then QCLOUD_ERR_FAILURE else QCLOUD_RET_SUCCESS, ?g')"
    unfolding gateway_publish_sync_def Let_def res c(1) by (simp del: yield_while.simps add: bind.bind_lunit set_result_def)
  moreover have "length topic \<le> 128" "length payload \<le> 1024" "\<not> 80 < length (sub_client_id pid name)" using fits by (auto simp: request_fits_def)
  ultimately show ?thesis using cid_kept [OF fits] by (intro exI [of _ b] exI [of _ c2]) (simp add: gateway_request_def)
qed

section \<open>Going online from end to end\<close>

lemma online_session_sim:
  assumes "key_ok (pid, name)" and "session_map (session_list g) (pid, name) \<noteq> Some SUBDEV_SEESION_STATUS_ONLINE" and "sessions_ok (session_list g)"
  shows "\<exists>a l c. online_session sim_os pid name g = Some (Inr a, g\<lparr>gw_mqtt := c, session_list := l\<rparr>) \<and> allocates (gw_mqtt g) c"
proof -
  have pn: "pid \<noteq> []" "name \<noteq> []" using assms(1) by (auto simp: key_ok_def)
  show ?thesis
  proof (cases "subdev_find_session g pid name")
    case None
    have "\<not> 10 < length pid" "\<not> 48 < length name" using assms(1) by (auto simp: key_ok_def)
    then have "online_session sim_os pid name g = Some (Inr (sim_next (world (gw_mqtt g))), g\<lparr>gw_mqtt := (gw_mqtt g)\<lparr>world := (world (gw_mqtt g))\<lparr>sim_next := sim_next (world (gw_mqtt g)) + 1\<rparr>\<rparr>,
        session_list := (sim_next (world (gw_mqtt g)), \<lparr>ss_product_id = pid, ss_device_name = name, session_status = SUBDEV_SEESION_STATUS_INIT\<rparr>) # session_list g\<rparr>)"
      using None pn by (simp add: online_session_def subdev_add_session_def sim_malloc)
    moreover have "allocates (gw_mqtt g) ((gw_mqtt g)\<lparr>world := (world (gw_mqtt g))\<lparr>sim_next := sim_next (world (gw_mqtt g)) + 1\<rparr>\<rparr>)"
      by (auto simp: allocates_def)
    ultimately show ?thesis by blast
  next
    case (Some x)
    obtain a s where x: "x = (a, s)" by (cases x)
    have "(a, s) \<in> set (session_list g)" "session_key s = (pid, name)" using find_session_map [OF Some pn] by (simp_all add: x)
    then have "session_status s \<noteq> SUBDEV_SEESION_STATUS_ONLINE" using session_map_mem [OF assms(3), of "(a, s)"] assms(2) by auto
    then show ?thesis using Some
      by (intro exI [of _ a] exI [of _ "session_list g"] exI [of _ "gw_mqtt g"]) (simp add: online_session_def x)
  qed
qed

lemma online_fits:
  assumes "length gp + length gn \<le> 100" and "key_ok (pid, name)"
  shows "request_fits (operation_topic gp gn) (status_payload op pid name) pid name (sub_client_id pid name)"
  using assms by (cases op) (auto simp: request_fits_def operation_topic_def status_payload_def op_str_def sub_client_id_def key_ok_def cstr_def)

lemma allocates_ready:
  assumes "allocates (gw_mqtt g) c" and "ready g"
  shows "ready (g\<lparr>gw_mqtt := c, session_list := l\<rparr>)" "sim_in (world c) = sim_in (world (gw_mqtt g))" "sim_out (world c) = sim_out (world (gw_mqtt g))"
    "sim_ms (world c) = sim_ms (world (gw_mqtt g))" "sub_handles c = sub_handles (gw_mqtt g)"
  using assms by (auto simp: allocates_def ready_def)

text \<open>Where the request of a device starts from.\<close>

definition may_go_online :: "sim Gateway \<Rightarrow> cstring \<Rightarrow> cstring \<Rightarrow> bool" where
  "may_go_online g pid name \<longleftrightarrow> ready g \<and> sessions_ok (session_list g) \<and> distinct (map fst (session_list g)) \<and>
     sim_next (world (gw_mqtt g)) \<notin> fst ` set (session_list g) \<and> key_ok (pid, name) \<and>
     session_map (session_list g) (pid, name) \<noteq> Some SUBDEV_SEESION_STATUS_ONLINE"

lemma online_request:
  assumes start: "may_go_online g pid name" and names: "gp \<noteq> []" "gn \<noteq> []"
  defines "k \<equiv> (pid, name)" and "m \<equiv> session_map (session_list g)"
  shows "\<exists>a s c l. IOT_Gateway_Subdev_Online sim_os
       \<lparr>gp_product_id = Some gp, gp_device_name = Some gn, gp_subdev_product_id = Some pid, gp_subdev_device_name = Some name\<rparr> g =
     do {
       (r, g) \<leftarrow> gateway_request sim_os OnlineOp (operation_topic gp gn) (status_payload OnlineOp pid name) pid name (g\<lparr>gw_mqtt := c, session_list := l\<rparr>);
       (case r of
          Inl rc \<Rightarrow> Some (rc, g)
        | Inr rc \<Rightarrow>
            if rc \<noteq> QCLOUD_RET_SUCCESS then Some (rc, snd (subdev_remove_session pid name g))
            else do { g \<leftarrow> set_session_status a SUBDEV_SEESION_STATUS_ONLINE g; Some (QCLOUD_RET_SUCCESS, g) })
     } \<and> allocates (gw_mqtt g) c \<and> sessions_ok l \<and> distinct (map fst l) \<and> (a, s) \<in> set l \<and> session_key s = k \<and> (\<forall>x. (session_map l)(k := x) = m(k := x))"
proof -
  have inv: "sessions_ok (session_list g)" "distinct (map fst (session_list g))" and key: "key_ok (pid, name)"
    and fresh: "fst (os_malloc sim_os (world (gw_mqtt g))) \<notin> Some ` fst ` set (session_list g)"
    using start by (auto simp: may_go_online_def)
  have pn: "pid \<noteq> []" "name \<noteq> []" using key by (auto simp: key_ok_def)
  obtain a l c where s: "online_session sim_os pid name g = Some (Inr a, g\<lparr>gw_mqtt := c, session_list := l\<rparr>)" "allocates (gw_mqtt g) c"
    using online_session_sim [OF key _ inv(1)] start by (auto simp: may_go_online_def)
  have f: "sessions_ok l \<and> distinct (map fst l) \<and> (\<exists>s. (a, s) \<in> set l \<and> session_key s = (pid, name)) \<and> session_map l \<in> {m, m(k \<mapsto> SUBDEV_SEESION_STATUS_INIT)}"
    using online_session_found [OF inv fresh pn s(1)] by (simp add: m_def k_def)
  then obtain s' where "(a, s') \<in> set l" "session_key s' = k" by (auto simp: k_def)
  moreover have "(session_map l)(k := x) = m(k := x)" for x using f by auto
  ultimately show ?thesis using s f pn names
    by (intro exI [of _ a] exI [of _ s'] exI [of _ c] exI [of _ l]) (simp add: IOT_Gateway_Subdev_Online_def)
qed

lemma online_answered:
  assumes start: "may_go_online g pid name" and names: "gp \<noteq> []" "gn \<noteq> []" "length gp + length gn \<le> 100"
    and r: "answer_arrives (gw_mqtt g) OnlineOp pid name r" "- (2 ^ 31) \<le> r" "r < 2 ^ 31" "r \<noteq> - 2"
  shows "\<exists>g'. IOT_Gateway_Subdev_Online sim_os
       \<lparr>gp_product_id = Some gp, gp_device_name = Some gn, gp_subdev_product_id = Some pid, gp_subdev_device_name = Some name\<rparr> g =
       Some (if r = 0 then QCLOUD_RET_SUCCESS else QCLOUD_ERR_FAILURE, g') \<and>
     session_map (session_list g') = (session_map (session_list g))((pid, name) := (if r = 0 then Some SUBDEV_SEESION_STATUS_ONLINE else None))"
proof -
  have key: "key_ok (pid, name)" "ready g" using start by (simp_all add: may_go_online_def)
  let ?k = "(pid, name)" and ?m = "session_map (session_list g)"
  obtain a s c l where o: "IOT_Gateway_Subdev_Online sim_os
       \<lparr>gp_product_id = Some gp, gp_device_name = Some gn, gp_subdev_product_id = Some pid, gp_subdev_device_name = Some name\<rparr> g =
     do {
       (r, g) \<leftarrow> gateway_request sim_os OnlineOp (operation_topic gp gn) (status_payload OnlineOp pid name) pid name (g\<lparr>gw_mqtt := c, session_list := l\<rparr>);
       (case r of
          Inl rc \<Rightarrow> Some (rc, g)
        | Inr rc \<Rightarrow>
            if rc \<noteq> QCLOUD_RET_SUCCESS then Some (rc, snd (subdev_remove_session pid name g))
            else do { g \<leftarrow> set_session_status a SUBDEV_SEESION_STATUS_ONLINE g; Some (QCLOUD_RET_SUCCESS, g) })
     }" and c: "allocates (gw_mqtt g) c" and l: "sessions_ok l" "distinct (map fst l)" "(a, s) \<in> set l" "session_key s = ?k" "\<forall>x. (session_map l)(?k := x) = ?m(?k := x)"
    using online_request [OF start names(1,2)] by blast
  let ?g = "g\<lparr>gw_mqtt := c, session_list := l\<rparr>"
  have arr: "answer_arrives (gw_mqtt ?g) OnlineOp pid name r"
    using r(1) allocates_ready(2,5) [OF c key(2)] by (simp add: answer_arrives_def)
  obtain b c' where q: "gateway_request sim_os OnlineOp (operation_topic gp gn) (status_payload OnlineOp pid name) pid name ?g =
      Some (Inr (if r = 0 then QCLOUD_RET_SUCCESS else QCLOUD_ERR_FAILURE), (set_result OnlineOp r (set_waiting OnlineOp (sub_client_id pid name) ?g))\<lparr>recv_buf := b, gw_mqtt := c'\<rparr>)"
    using request_answered [OF allocates_ready(1) [OF c key(2)] online_fits [OF names(3) key(1)] arr _ r(2-4)] by blast
  let ?g' = "(set_result OnlineOp r (set_waiting OnlineOp (sub_client_id pid name) ?g))\<lparr>recv_buf := b, gw_mqtt := c'\<rparr>"
  have sl: "session_list ?g' = l" by (simp add: set_result_def set_waiting_def)
  have ok: "sessions_ok (session_list ?g')" "distinct (map fst (session_list ?g'))" "(a, s) \<in> set (session_list ?g')" using l unfolding sl by blast+
  show ?thesis
  proof (cases "r = 0")
    case True
    have "a \<in> fst ` set (session_list ?g')" using ok(3) by force
    then obtain g3 where g3: "set_session_status a SUBDEV_SEESION_STATUS_ONLINE ?g' = Some g3" by (simp add: set_session_status_def)
    have "session_map (session_list g3) = ?m(?k \<mapsto> SUBDEV_SEESION_STATUS_ONLINE)" using set_status_map(1) [OF ok(1,3,2) g3] l(4,5) unfolding sl by simp
    with g3 True show ?thesis by (simp add: o q)
  next
    case False
    have "session_map (session_list (snd (subdev_remove_session pid name ?g'))) = ?m(?k := None)"
      using subdev_remove_session_map(1) [OF key(1) ok(1)] l(5) unfolding sl by simp
    with False show ?thesis by (simp add: o q)
  qed
qed

lemma online_unanswered:
  assumes start: "may_go_online g pid name" and names: "gp \<noteq> []" "gn \<noteq> []" "length gp + length gn \<le> 100"
    and idle: "sim_in (world (gw_mqtt g)) = []"
  shows "\<exists>g'. IOT_Gateway_Subdev_Online sim_os
       \<lparr>gp_product_id = Some gp, gp_device_name = Some gn, gp_subdev_product_id = Some pid, gp_subdev_device_name = Some name\<rparr> g =
       Some (QCLOUD_ERR_GATEWAY_SESSION_TIMEOUT, g') \<and>
     session_map (session_list g') = (session_map (session_list g))((pid, name) := None) \<and>
     sim_out (world (gw_mqtt g')) = sim_out (world (gw_mqtt g)) @
       packet_bytes 0x30 (publish_body QOS0 0 (operation_topic gp gn) (status_payload OnlineOp pid name)) \<and>
     sim_ms (world (gw_mqtt g)) + 20200 \<le> sim_ms (world (gw_mqtt g'))"
proof -
  have key: "key_ok (pid, name)" "ready g" using start by (simp_all add: may_go_online_def)
  let ?k = "(pid, name)" and ?m = "session_map (session_list g)"
  obtain a s c l where o: "IOT_Gateway_Subdev_Online sim_os
       \<lparr>gp_product_id = Some gp, gp_device_name = Some gn, gp_subdev_product_id = Some pid, gp_subdev_device_name = Some name\<rparr> g =
     do {
       (r, g) \<leftarrow> gateway_request sim_os OnlineOp (operation_topic gp gn) (status_payload OnlineOp pid name) pid name (g\<lparr>gw_mqtt := c, session_list := l\<rparr>);
       (case r of
          Inl rc \<Rightarrow> Some (rc, g)
        | Inr rc \<Rightarrow>
            if rc \<noteq> QCLOUD_RET_SUCCESS then Some (rc, snd (subdev_remove_session pid name g))
            else do { g \<leftarrow> set_session_status a SUBDEV_SEESION_STATUS_ONLINE g; Some (QCLOUD_RET_SUCCESS, g) })
     }" and c: "allocates (gw_mqtt g) c" and l: "sessions_ok l" "\<forall>x. (session_map l)(?k := x) = ?m(?k := x)"
    using online_request [OF start names(1,2)] by blast
  let ?g = "g\<lparr>gw_mqtt := c, session_list := l\<rparr>"
  note same = allocates_ready [OF c key(2)]
  have none: "sim_in (world (gw_mqtt ?g)) = []" using idle same(2) by simp
  obtain c' where q: "gateway_request sim_os OnlineOp (operation_topic gp gn) (status_payload OnlineOp pid name) pid name ?g =
      Some (Inr QCLOUD_ERR_GATEWAY_SESSION_TIMEOUT, (set_waiting OnlineOp (sub_client_id pid name) ?g)\<lparr>gw_mqtt := c'\<rparr>)"
    "sim_out (world c') = sim_out (world c) @ packet_bytes 0x30 (publish_body QOS0 0 (operation_topic gp gn) (status_payload OnlineOp pid name))"
    "sim_ms (world c) + 20200 \<le> sim_ms (world c')"
    using request_unanswered [OF same(1) online_fits [OF names(3) key(1)] none, of OnlineOp] by auto
  let ?g' = "(set_waiting OnlineOp (sub_client_id pid name) ?g)\<lparr>gw_mqtt := c'\<rparr>"
  have sl: "session_list ?g' = l" by (simp add: set_waiting_def)
  have mq: "gw_mqtt (snd (subdev_remove_session pid name ?g')) = c'" by (simp add: subdev_remove_session_def split: option.split)
  show ?thesis
    using subdev_remove_session_map(1) [OF key(1), of ?g'] l q(2,3) mq same unfolding o by (simp add: q(1) sl)
qed

section \<open>The list of bound devices\<close>

lemma bind_list_fails:
  assumes "IOT_Gateway_Subdev_GetBindList os param g = Some (rc, l, g')"
  shows "rc = QCLOUD_ERR_FAILURE \<and> l = None \<and> rd_result (gateway_data g' GetBindlistOp) \<in> {- 1001, rd_result (gateway_data g GetBindlistOp)}"
proof -
  obtain pid name where p: "gp_product_id param = Some pid" "gp_device_name param = Some name" using assms by (auto simp: IOT_Gateway_Subdev_GetBindList_def bind_Some_iff)
  let ?g0 = "g\<lparr>bindlist_head := [], bind_num := 0\<rparr>"
  show ?thesis
  proof (cases "length (operation_topic pid name) > MAX_SIZE_OF_CLOUD_TOPIC")
    case True
    then show ?thesis using assms by (auto simp: IOT_Gateway_Subdev_GetBindList_def p Let_def)
  next
    case False
    obtain rc1 g1 where run: "gateway_publish_sync os (operation_topic pid name) (qos0_params (cstr ''{\"type\":\"'' @ op_str GetBindlistOp @ cstr ''\"}'')) GetBindlistOp
        (set_result GetBindlistOp (- 1001) ?g0) = Some (rc1, g1)"
      and res: "(if rc1 \<noteq> QCLOUD_RET_SUCCESS then Some (rd_result (gateway_data g1 GetBindlistOp), None, g1)
        else Some (QCLOUD_RET_SUCCESS, Some (bindlist_head g1, bind_num g1), g1\<lparr>bindlist_head := [], bind_num := 0\<rparr>)) = Some (rc, l, g')"
      using assms False unfolding IOT_Gateway_Subdev_GetBindList_def p Let_def by (auto simp: bind_Some_iff simp del: if_split)
    from wp_D2 [OF publish_sync_kept [OF kept_refl] run]
    have "gateway_data g1 GetBindlistOp = gateway_data (set_result GetBindlistOp (- 1001) ?g0) GetBindlistOp" "rc1 = QCLOUD_RET_SUCCESS \<longrightarrow> rd_result (gateway_data g1 GetBindlistOp) = 0"
      by (auto simp: kept_def)
    then show ?thesis using res by (auto simp: set_result_def split: if_splits)
  qed
qed

lemma bind_list_unanswered:
  assumes g: "ready g" "sim_in (world (gw_mqtt g)) = []" and names: "gp_product_id param = Some pid" "gp_device_name param = Some name" "length pid + length name \<le> 100"
  shows "\<exists>g'. IOT_Gateway_Subdev_GetBindList sim_os param g = Some (QCLOUD_ERR_FAILURE, None, g')"
proof -
  let ?payload = "cstr ''{\"type\":\"'' @ op_str GetBindlistOp @ cstr ''\"}''" and ?topic = "operation_topic pid name"
  let ?g = "set_result GetBindlistOp (- 1001) (g\<lparr>bindlist_head := [], bind_num := 0\<rparr>)"
  have topic: "0 < length ?topic" "length ?topic \<le> 128" using names(3) by (simp_all add: operation_topic_def cstr_def)
  have ms: "client_inv sim_os (gw_mqtt g)" "is_connected (gw_mqtt g)" "sim_ms (world (gw_mqtt g)) < 2 ^ 61" using g(1) by (auto simp: ready_def quiet_def)
  have len: "length ?payload \<le> 1900" by (simp add: op_str_def cstr_def)
  obtain b w where p: "qcloud_iot_mqtt_publish sim_os (Some ?topic) (qos0_params ?payload) (gw_mqtt g) = Some (0, qos0_params ?payload, (gw_mqtt g)\<lparr>write_buf := b, world := w\<rparr>)"
    "sim_in w = []"
    using sim_publish_qos0 [OF ms topic _ _ len, of "qos0_params ?payload"] g(2) by (auto simp: qos0_params_def)
  let ?c = "(gw_mqtt g)\<lparr>write_buf := b, world := w\<rparr>"
  have pub: "IOT_Gateway_Publish sim_os ?topic (qos0_params ?payload) ?g = Some (0, ?g\<lparr>gw_mqtt := ?c\<rparr>)"
    using p(1) by (simp add: IOT_Gateway_Publish_def set_result_def)
  have "client_inv sim_os ?c" using wp_D3 [OF publish_inv [OF ms(1)] p(1)] .
  then have q: "quiet ?c" using g(1) by (simp add: ready_def quiet_def)
  have res: "rd_result (gateway_data ?g GetBindlistOp) = - 1001" by (simp add: set_result_def)
  obtain m where m: "yield_while (GATEWAY_LOOP_MAX_COUNT + 1) sim_os (\<lambda>g. rd_result (gateway_data g GetBindlistOp) = - 1001) (?g\<lparr>gw_mqtt := ?c\<rparr>) =
      Some (False, ?g\<lparr>gw_mqtt := ?c\<lparr>world := tick m (world ?c)\<rparr>\<rparr>)"
    using nobody_answers [of "\<lambda>g. rd_result (gateway_data g GetBindlistOp) = - 1001" "?g\<lparr>gw_mqtt := ?c\<rparr>" "GATEWAY_LOOP_MAX_COUNT + 1"] q p(2) res by auto
  have sync: "gateway_publish_sync sim_os ?topic (qos0_params ?payload) GetBindlistOp ?g = Some (QCLOUD_ERR_GATEWAY_SESSION_TIMEOUT, ?g\<lparr>gw_mqtt := ?c\<lparr>world := tick m (world ?c)\<rparr>\<rparr>)"
    unfolding gateway_publish_sync_def Let_def res pub using m by (simp del: yield_while.simps add: bind.bind_lunit)
  let ?g' = "?g\<lparr>gw_mqtt := ?c\<lparr>world := tick m (world ?c)\<rparr>\<rparr>"
  have "IOT_Gateway_Subdev_GetBindList sim_os param g = Some (rd_result (gateway_data ?g' GetBindlistOp), None, ?g')"
    using topic unfolding IOT_Gateway_Subdev_GetBindList_def names(1,2) Let_def bind.bind_lunit sync by simp
  then show ?thesis by (simp add: set_result_def)
qed

section \<open>Defects\<close>

text \<open>What the cloud sends as the list of bound devices is taken for a question and answered with the list of the device.\<close>

lemma bind_list_taken_for_question: "gateway_message os doc (cstr ''describe_sub_devices'') g = gateway_ack_topo_describe os g"
  by (simp add: gateway_message_def has_prefix_def cstr_def)

text \<open>The client id of an answer is compared with a beginning of the one that is waited for: the answer for \<open>dev1\<close> counts for \<open>dev10\<close>.\<close>

lemma answer_for_another_device: "has_prefix (sub_client_id pid (cstr ''dev1'')) (sub_client_id pid (cstr ''dev10''))"
  by (simp add: has_prefix_def sub_client_id_def cstr_def)

text \<open>When the cloud unbinds all devices while a request waits, the session that the caller holds has been released, and its status is written all the same.\<close>

lemma released_session_written: "set_session_status a st (gateway_subdev_unbind_all g) = None"
  by (simp add: set_session_status_def gateway_subdev_unbind_all_def)

text \<open>The ids of a session are copied with their own lengths: longer ones leave their arrays.\<close>

lemma long_id_overflows:
  assumes "pid \<noteq> []" "name \<noteq> []" and "MAX_SIZE_OF_PRODUCT_ID < length pid \<or> MAX_SIZE_OF_DEVICE_NAME < length name" and "HAL_Malloc os (gw_mqtt g) = (Some a, c)"
  shows "subdev_add_session os pid name g = None"
  using assms by (auto simp: subdev_add_session_def)

text \<open>An entry without a product after a complete one makes the list of devices release the last device name twice.\<close>

lemma device_name_freed_twice:
  assumes "get_json_product_id os (take (snd e) (fst e)) g = Some (None, g1)"
  shows "proc_devlist_loop os ty inside (e # es) True g = None"
  using assms by simp

text \<open>A topology of devices whose text does not fit the buffer of the answer is written behind it.\<close>

lemma long_answer_overflows:
  assumes "int (length a) - 1 < int p" and "p < 2 ^ 62" "length a < 2 ^ 62"
  shows "append_text t (a, p) = None"
proof -
  have "(int (length a) - 1 - int p + 2 ^ 64) mod 2 ^ 64 = int (length a) - 1 - int p + 2 ^ 64"
    using assms(1-3) by (intro mod_pos_pos_trivial) auto
  then have "(int (length a) - 1 - int p) mod 2 ^ 64 = int (length a) - 1 - int p + 2 ^ 64" by (simp only: mod_add_self2)
  moreover have "0 < int (length a) - 1 - int p + 2 ^ 64" using assms(2) by simp
  ultimately have n: "nat ((int (length a) - 1 - int p) mod 2 ^ 64) \<noteq> 0" by simp
  then show ?thesis
    using assms(1) unfolding append_text_def prod.case snprintf_at_def by (simp only: n if_False) (simp add: buf_write_def)
qed

end
