(* ===== verification/Gw_Properties.thy ===== *)
theory Gw_Properties
  imports Gw_Requests
begin

text \<open>
  The properties of the gateway, each with a witness on a gateway whose first subscription is that of the answers.
\<close>

section \<open>Properties\<close>

definition demo_topic :: cstring where
  "demo_topic = cstr ''$gateway/operation/result/P/d''"

definition demo_answer :: cstring where
  "demo_answer = cstr ''{\"type\":\"online\",\"payload\":{\"devices\":[{\"product_id\":\"S\",\"device_name\":\"dev1\",\"result\":0}]}}''"

definition demo_change :: cstring where
  "demo_change = cstr ''{\"type\":\"change\",\"payload\":{\"status\":1,\"devices\":[{\"product_id\":\"S\",\"device_name\":\"dev1\"}]}}''"

definition demo_gateway :: "u8 list \<Rightarrow> sim Gateway" where
  "demo_gateway peer = \<lparr>gw_mqtt = (demo_client [] peer)\<lparr>sub_handles :=
       \<lparr>topic_filter = Some demo_topic, message_handler = Some gateway_message_fp, sub_event_handler = None, handler_user_data = 0, sh_qos = 1\<rparr> # replicate 9 null_handle\<rparr>,
     session_list = [(70, \<lparr>ss_product_id = cstr ''S'', ss_device_name = cstr ''dev2'', session_status = SUBDEV_SEESION_STATUS_ONLINE\<rparr>)],
     bindlist_head = [], bind_num = 0, gw_sync_status = 0, gateway_data = (\<lambda>op. \<lparr>rd_result = 0, rd_client_id = []\<rparr>),
     gw_event_handle = \<lparr>h_fp = Some 41, h_context = 42\<rparr>, recv_buf = replicate 1024 0, gw_self = 9, gw_calls = []\<rparr>"

lemma demo_gateway_ok:
  "ready (demo_gateway peer)" "may_go_online (demo_gateway peer) (cstr ''S'') (cstr ''dev1'')" "gateway_inv sim_os (demo_gateway peer)"
  "sim_in (world (gw_mqtt (demo_gateway peer))) = peer" "sessions_ok (session_list (demo_gateway peer))"
  "session_map (session_list (demo_gateway peer)) = [(cstr ''S'', cstr ''dev2'') \<mapsto> SUBDEV_SEESION_STATUS_ONLINE]"
proof -
  have "client_inv sim_os (demo_client [] peer)" by simp
  then have inv: "client_inv sim_os (gw_mqtt (demo_gateway peer))"
    by (simp add: client_inv_def demo_gateway_def good_filter_def null_handle_def demo_topic_def cstr_def)
  have key: "key_ok (cstr ''S'', cstr ''dev1'')" "key_ok (cstr ''S'', cstr ''dev2'')" by (simp_all add: key_ok_def cstr_def)
  show ready: "ready (demo_gateway peer)" using inv by (simp add: ready_def quiet_def) (simp add: demo_gateway_def null_options_def)
  show s: "sessions_ok (session_list (demo_gateway peer))" using key(2) by (simp add: sessions_ok_def demo_gateway_def session_key_def)
  show map: "session_map (session_list (demo_gateway peer)) = [(cstr ''S'', cstr ''dev2'') \<mapsto> SUBDEV_SEESION_STATUS_ONLINE]"
    by (simp add: demo_gateway_def session_key_def)
  show "may_go_online (demo_gateway peer) (cstr ''S'') (cstr ''dev1'')"
    unfolding may_go_online_def map using ready s key(1) by (simp add: demo_gateway_def cstr_def)
  show "gateway_inv sim_os (demo_gateway peer)" using inv s by (simp add: gateway_inv_def binds_ok_def) (simp add: demo_gateway_def)
  show "sim_in (world (gw_mqtt (demo_gateway peer))) = peer" by (simp add: demo_gateway_def)
qed

abbreviation (input) demo_param :: GatewayParam where
  "demo_param \<equiv> \<lparr>gp_product_id = Some (cstr ''P''), gp_device_name = Some (cstr ''d''), gp_subdev_product_id = Some (cstr ''S''), gp_subdev_device_name = Some (cstr ''dev1'')\<rparr>"

lemma demo_answers: "answers demo_answer OnlineOp (cstr ''S'') (cstr ''dev1'') 0" "0 \<notin> set demo_answer" "length demo_answer < 1024"
proof -
  let ?ds = "[(cstr ''product_id'', JStr (cstr ''S'')), (cstr ''device_name'', JStr (cstr ''dev1'')), (cstr ''result'', JNum (cstr ''0''))]"
  let ?kvs = "[(cstr ''type'', JStr (cstr ''online'')), (cstr ''payload'', JObj [(cstr ''devices'', JArr [JObj ?ds])])]"
  have doc: "json_text (JObj ?kvs) = demo_answer" by (simp add: cstr_def demo_answer_def)
  have ok: "json_ok (JObj ?kvs)" "distinct (map fst ?kvs)" "distinct (map fst ?ds)" by (simp_all add: cstr_def plain_def is_digit_def)
  have zero: "dec_int 0 = cstr ''0''" by (simp add: dec_int_def dec_nat.simps cstr_def)
  show "answers demo_answer OnlineOp (cstr ''S'') (cstr ''dev1'') 0"
    unfolding answers_def zero
    by (rule exI [of _ ?kvs], rule exI [of _ "[(cstr ''devices'', JArr [JObj ?ds])]"], rule exI [of _ ?ds], rule exI [of _ "[]"])
      (use doc ok in \<open>simp add: op_str_def, simp add: cstr_def\<close>)
  show "0 \<notin> set demo_answer" "length demo_answer < 1024" by (simp_all add: demo_answer_def cstr_def)
qed

abbreviation (input) demo_packet :: "u8 list" where
  "demo_packet \<equiv> packet_bytes 0x30 (publish_body QOS0 0 demo_topic demo_answer)"

lemma demo_answer_arrives: "answer_arrives (gw_mqtt (demo_gateway demo_packet)) OnlineOp (cstr ''S'') (cstr ''dev1'') 0"
proof -
  let ?h = "\<lparr>topic_filter = Some demo_topic, message_handler = Some gateway_message_fp, sub_event_handler = None, handler_user_data = 0, sh_qos = 1\<rparr>"
  have "find (handles_topic demo_topic) (sub_handles (gw_mqtt (demo_gateway demo_packet))) = Some ?h" by (simp add: demo_gateway_def handles_topic_def)
  moreover have "mqtt_init_packet_header PUBLISH QOS0 0 0 = Inr 0x30" by (simp add: mqtt_init_packet_header_def)
  moreover have "0 \<notin> set demo_topic" "demo_topic \<noteq> []" "length demo_topic < 128" by (simp_all add: demo_topic_def cstr_def)
  ultimately show ?thesis
    unfolding answer_arrives_def using demo_answers demo_gateway_ok(4) [of demo_packet]
    by (intro exI [of _ "0x30"] exI [of _ 0] exI [of _ demo_topic] exI [of _ demo_answer] exI [of _ 0] exI [of _ ?h]) (simp add: demo_gateway_def)
qed

lemma demo_names: "cstr ''P'' \<noteq> []" "cstr ''d'' \<noteq> []" "length (cstr ''P'') + length (cstr ''d'') \<le> 100"
  by (simp_all add: cstr_def)

text \<open>
  C9: A sub-device goes online when the cloud says so: the request is published, and once the answer for this device
  comes in from the wire, whatever else its message has, it decides: with result 0 the call succeeds and the session of the device is
  online, with any other result it fails and the device has no session. The other sessions stay as they are. (The one
  result that is taken for none is the mark of a request that waits, -2.)
\<close>

theorem sub_device_goes_online:
  assumes "may_go_online g pid name" and "gp \<noteq> []" and "gn \<noteq> []" and "length gp + length gn \<le> 100"
    and "answer_arrives (gw_mqtt g) OnlineOp pid name r" and "- (2 ^ 31) \<le> r" and "r < 2 ^ 31" and "r \<noteq> - 2"
  shows "\<exists>g'. IOT_Gateway_Subdev_Online sim_os
       \<lparr>gp_product_id = Some gp, gp_device_name = Some gn, gp_subdev_product_id = Some pid, gp_subdev_device_name = Some name\<rparr> g =
       Some (if r = 0 then QCLOUD_RET_SUCCESS else QCLOUD_ERR_FAILURE, g') \<and>
     session_map (session_list g') = (session_map (session_list g))((pid, name) := (if r = 0 then Some SUBDEV_SEESION_STATUS_ONLINE else None))"
  by (rule online_answered [OF assms])

theorem sub_device_goes_online_witness:
  "\<exists>g'. IOT_Gateway_Subdev_Online sim_os demo_param (demo_gateway demo_packet) = Some (QCLOUD_RET_SUCCESS, g') \<and>
     session_map (session_list g') = [(cstr ''S'', cstr ''dev2'') \<mapsto> SUBDEV_SEESION_STATUS_ONLINE, (cstr ''S'', cstr ''dev1'') \<mapsto> SUBDEV_SEESION_STATUS_ONLINE]"
  using sub_device_goes_online [OF demo_gateway_ok(2) demo_names(1-3) demo_answer_arrives] by (simp add: demo_gateway_ok(6))

text \<open>
  C12: A request that nobody answers comes to an end: taking a sub-device online publishes exactly the request, waits a hundred
  and one times 200 milliseconds, and returns a timeout without leaving a session of the device behind; the
  other sessions stay as they are.
\<close>

theorem unanswered_request_times_out:
  assumes "may_go_online g pid name" and "gp \<noteq> []" and "gn \<noteq> []" and "length gp + length gn \<le> 100" and "sim_in (world (gw_mqtt g)) = []"
  shows "\<exists>g'. IOT_Gateway_Subdev_Online sim_os
       \<lparr>gp_product_id = Some gp, gp_device_name = Some gn, gp_subdev_product_id = Some pid, gp_subdev_device_name = Some name\<rparr> g =
       Some (QCLOUD_ERR_GATEWAY_SESSION_TIMEOUT, g') \<and>
     session_map (session_list g') = (session_map (session_list g))((pid, name) := None) \<and>
     sim_out (world (gw_mqtt g')) = sim_out (world (gw_mqtt g)) @
       packet_bytes 0x30 (publish_body QOS0 0 (operation_topic gp gn) (status_payload OnlineOp pid name)) \<and>
     sim_ms (world (gw_mqtt g)) + 20200 \<le> sim_ms (world (gw_mqtt g'))"
  by (rule online_unanswered [OF assms])

theorem unanswered_request_times_out_witness:
  "\<exists>g'. IOT_Gateway_Subdev_Online sim_os demo_param (demo_gateway []) = Some (QCLOUD_ERR_GATEWAY_SESSION_TIMEOUT, g') \<and>
     session_map (session_list g') (cstr ''S'', cstr ''dev1'') = None"
  using unanswered_request_times_out [OF demo_gateway_ok(2) demo_names(1-3) demo_gateway_ok(4)] by auto

text \<open>
  C11: The sessions of the gateway follow the cloud: seen as a map from devices to what is known of them, taking a device online
  or offline changes them as its result says, whatever messages come in meanwhile. Success is only reported after
  the answer 0 of the cloud, and then the device is online, or gone; an error leaves the others as they are, or all sessions
  have been unbound by the cloud.
\<close>

theorem sessions_follow_the_cloud:
  assumes "sessions_ok (session_list g)" and "distinct (map fst (session_list g))" and "fst (os_malloc os (world (gw_mqtt g))) \<notin> Some ` fst ` set (session_list g)"
    and "gp_subdev_product_id param = Some pid" and "gp_subdev_device_name param = Some name"
  shows "(\<forall>rc g'. IOT_Gateway_Subdev_Online os param g = Some (rc, g') \<longrightarrow>
       online_outcome (pid, name) (session_map (session_list g)) rc (session_map (session_list g')) \<and>
       (rc = QCLOUD_RET_SUCCESS \<longrightarrow> rd_result (gateway_data g' OnlineOp) = 0)) \<and>
     (\<forall>rc g'. IOT_Gateway_Subdev_Offline os param g = Some (rc, g') \<longrightarrow>
       offline_outcome (pid, name) (session_map (session_list g)) rc (session_map (session_list g')) \<and>
       (rc = QCLOUD_RET_SUCCESS \<longrightarrow> rd_result (gateway_data g' OfflineOp) = 0))"
  using online_refines [OF assms] offline_refines [OF assms(1,2,4,5)] by blast

theorem sessions_follow_the_cloud_witness:
  "(\<exists>g'. IOT_Gateway_Subdev_Online sim_os demo_param (demo_gateway demo_packet) = Some (QCLOUD_RET_SUCCESS, g') \<and> rd_result (gateway_data g' OnlineOp) = 0) \<and>
   IOT_Gateway_Subdev_Offline sim_os demo_param (demo_gateway []) = Some (QCLOUD_ERR_GATEWAY_SESSION_NO_EXIST, demo_gateway []) \<and>
   offline_outcome (cstr ''S'', cstr ''dev1'') (session_map (session_list (demo_gateway []))) QCLOUD_ERR_GATEWAY_SESSION_NO_EXIST (session_map (session_list (demo_gateway [])))"
proof -
  have "distinct (map fst (session_list (demo_gateway peer)))" "fst (os_malloc sim_os (world (gw_mqtt (demo_gateway peer)))) \<notin> Some ` fst ` set (session_list (demo_gateway peer))" for peer
    by (simp_all add: demo_gateway_def)
  note r = sessions_follow_the_cloud [OF demo_gateway_ok(5) this, of demo_param "cstr ''S''" "cstr ''dev1''"]
  obtain g' where g': "IOT_Gateway_Subdev_Online sim_os demo_param (demo_gateway demo_packet) = Some (QCLOUD_RET_SUCCESS, g')"
    using online_answered [OF demo_gateway_ok(2) demo_names(1-3) demo_answer_arrives] by auto
  have "IOT_Gateway_Subdev_Offline sim_os demo_param (demo_gateway []) = Some (QCLOUD_ERR_GATEWAY_SESSION_NO_EXIST, demo_gateway [])"
    by (simp add: IOT_Gateway_Subdev_Offline_def subdev_find_session_def demo_gateway_def cstr_def)
  with r [of demo_packet] r [of "[]"] g' show ?thesis by auto
qed

text \<open>
  C13: Whatever the application does with a gateway, whatever the cloud sends and in whatever order the two interleave: the MQTT client stays
  well-formed, the receive buffer keeps its size, every device has at most one session, with ids that fit their arrays, and the
  number of bound devices is the length of their list.
\<close>

theorem gateway_stays_well_formed:
  assumes "kernel_ok os" and "gateway_inv os g \<or> (\<exists>params w. IOT_Gateway_Construct os params w = Some (Inr g))" and "(gateway_step os)\<^sup>*\<^sup>* g g'"
  shows "gateway_inv os g'"
proof -
  have "gateway_inv os g \<or> gateway_started os g" using assms(2) by (auto simp: gateway_started_def)
  then show ?thesis using gateway.run_inv [OF assms(3,1)] gateway.reachable_inv [OF assms(1) _ assms(3)] by blast
qed

theorem gateway_stays_well_formed_witness:
  "\<exists>g'. IOT_Gateway_Subdev_Online sim_os demo_param (demo_gateway demo_packet) = Some (QCLOUD_RET_SUCCESS, g') \<and> gateway_inv sim_os g'"
proof -
  obtain g' where g': "IOT_Gateway_Subdev_Online sim_os demo_param (demo_gateway demo_packet) = Some (QCLOUD_RET_SUCCESS, g')"
    using online_answered [OF demo_gateway_ok(2) demo_names demo_answer_arrives] by auto
  then have "(gateway_step sim_os)\<^sup>*\<^sup>* (demo_gateway demo_packet) g'" by (blast intro: gs_online)
  from gateway_stays_well_formed [OF sim_kernel_ok disjI1 [OF demo_gateway_ok(3)] this] g' show ?thesis by blast
qed

text \<open>
  C10: A message that binds or unbinds devices is carried out and answered. The listed devices are put at the front of the list of bound
  devices, the last one first, or taken out of it; the answer with a result for each of them goes out as one
  packet, and the application is told. For unbinding, the devices must be bound, each once: the first one that is not ends the run through the list.
\<close>

theorem change_is_carried_out:
  assumes "gateway_carries m doc" and "change_doc doc st vs devs" and "- (2 ^ 31) \<le> st" and "st < 2 ^ 31"
    and "can_publish (gw_mqtt g)" and "length (recv_buf g) = GATEWAY_RECEIVE_BUFFER_LEN"
    and "st = 0 \<Longrightarrow> binds_ok g \<and> distinct (bindlist_head g) \<and> distinct (map bindinfo devs) \<and> bindinfo ` set devs \<subseteq> set (bindlist_head g)"
    and "length (change_text st devs) \<le> 895"
  shows "\<exists>g'. gateway_message_handler sim_os m g = Some g' \<and> bindlist_head g' = binds_after st devs (bindlist_head g) \<and>
     session_list g' = session_list g \<and> gateway_data g' = gateway_data g \<and>
     sim_out (world (gw_mqtt g')) = sim_out (world (gw_mqtt g)) @ packet_bytes 0x30 (publish_body QOS0 0 (gateway_topic g) (change_text st devs)) \<and>
     gw_calls g' = gw_calls g @ (case h_fp (gw_event_handle g) of None \<Rightarrow> []
       | Some f \<Rightarrow> [(f, h_context (gw_event_handle g), GatewayChange (json_text (JArr vs)) st)])"
  by (rule change_handled [OF assms])

lemma demo_change_doc:
  "change_doc demo_change 1 [JObj [(cstr ''product_id'', JStr (cstr ''S'')), (cstr ''device_name'', JStr (cstr ''dev1''))]] [(cstr ''S'', cstr ''dev1'')]"
proof -
  let ?ds = "[(cstr ''product_id'', JStr (cstr ''S'')), (cstr ''device_name'', JStr (cstr ''dev1''))]"
  let ?ps = "[(cstr ''status'', JNum (cstr ''1'')), (cstr ''devices'', JArr [JObj ?ds])]"
  let ?kvs = "[(cstr ''type'', JStr (cstr ''change'')), (cstr ''payload'', JObj ?ps)]"
  have doc: "json_text (JObj ?kvs) = demo_change" by (simp add: cstr_def demo_change_def)
  have ok: "json_ok (JObj ?kvs)" "distinct (map fst ?kvs)" "distinct (map fst ?ps)" "distinct (map fst ?ds)" "json_ok (JObj ?ds)"
    by (simp_all add: cstr_def plain_def is_digit_def)
  have one: "dec_int 1 = cstr ''1''" by (simp add: dec_int_def dec_nat.simps cstr_def)
  have "device_text (json_text (JObj ?ds)) (cstr ''S'', cstr ''dev1'')"
    unfolding device_text_def by (rule exI [of _ ?ds]) (use ok in \<open>simp, simp add: cstr_def\<close>)
  then show ?thesis
    unfolding change_doc_def one by (intro exI [of _ ?kvs] exI [of _ ?ps]) (use doc ok in \<open>simp del: json_text.simps json_ok.simps\<close>)
qed

theorem change_is_carried_out_witness:
  "\<exists>g'. gateway_message_handler sim_os (demo_message demo_change) (demo_gateway []) = Some g' \<and>
     bindlist_head g' = [\<lparr>bi_product_id = cstr ''S'', bi_device_name = cstr ''dev1''\<rparr>] \<and>
     sim_out (world (gw_mqtt g')) = packet_bytes 0x30 (publish_body QOS0 0 (cstr ''$gateway/operation/P/d'')
       (cstr ''{\"type\":\"change\", \"payload\":{\"status\":1, \"devices\":[{\"product_id\":\"S\",\"device_name\":\"dev1\",\"result\":0}]}}''))"
proof -
  let ?g = "demo_gateway []"
  have carries: "gateway_carries (demo_message demo_change) demo_change"
    by (simp add: gateway_carries_def demo_message_def buf_read_def unat_of_nat) (simp add: demo_change_def cstr_def)
  have one: "dec_int 1 = cstr ''1''" by (simp add: dec_int_def dec_nat.simps cstr_def)
  have out: "change_text 1 [(cstr ''S'', cstr ''dev1'')] =
      cstr ''{\"type\":\"change\", \"payload\":{\"status\":1, \"devices\":[{\"product_id\":\"S\",\"device_name\":\"dev1\",\"result\":0}]}}''"
    by (simp add: change_text_def one entry_text_def change_entry_def cstr_def)
  have "length (change_text 1 [(cstr ''S'', cstr ''dev1'')]) \<le> 895" unfolding out by (simp add: cstr_def)
  moreover have "can_publish (gw_mqtt ?g)" "length (recv_buf ?g) = 1024" using demo_gateway_ok(1) [of "[]"] by (auto simp: ready_def quiet_def can_publish_def)
  ultimately obtain g' where "gateway_message_handler sim_os (demo_message demo_change) ?g = Some g'"
    "bindlist_head g' = binds_after 1 [(cstr ''S'', cstr ''dev1'')] (bindlist_head ?g)"
    "sim_out (world (gw_mqtt g')) = sim_out (world (gw_mqtt ?g)) @ packet_bytes 0x30 (publish_body QOS0 0 (gateway_topic ?g) (change_text 1 [(cstr ''S'', cstr ''dev1'')]))"
    using change_is_carried_out [OF carries demo_change_doc] by auto
  moreover have "gateway_topic ?g = cstr ''$gateway/operation/P/d''"
    by (simp add: gateway_topic_def demo_gateway_def demo_client_def operation_topic_def snprintf_def cstr_def)
  ultimately show ?thesis unfolding out by (auto simp: binds_after_def bindinfo_def) (simp_all add: demo_gateway_def cstr_def)
qed

text \<open>
  C38: The list of bound devices can never be fetched: whatever the cloud answers, asking for it ends with an error and without a
  list, since the answer is taken for a question of the cloud, and the result that the call waits for is never set.
\<close>

theorem bind_list_never_arrives:
  assumes "IOT_Gateway_Subdev_GetBindList os param g = Some (rc, l, g')"
  shows "rc = QCLOUD_ERR_FAILURE \<and> l = None"
  using bind_list_fails [OF assms] by simp

theorem bind_list_never_arrives_witness:
  "\<exists>rc l g'. IOT_Gateway_Subdev_GetBindList sim_os demo_param (demo_gateway []) = Some (rc, l, g') \<and> rc = QCLOUD_ERR_FAILURE \<and> l = None"
proof -
  obtain g' where "IOT_Gateway_Subdev_GetBindList sim_os demo_param (demo_gateway []) = Some (QCLOUD_ERR_FAILURE, None, g')"
    using bind_list_unanswered [OF demo_gateway_ok(1) demo_gateway_ok(4), of demo_param "cstr ''P''" "cstr ''d''"] demo_names(3) by auto
  with bind_list_never_arrives [OF this] show ?thesis by blast
qed

end
