(* ===== verification/Spec2Isabelle.thy ===== *)
theory Spec2Isabelle
  imports Mqtt_Connection Mqtt_Topic Utils_Base64 Utils_Md5 Aes_Cbc Utils_List Utils_Ringbuff Dt_Calls Gw_Properties
begin

text \<open>
  A verification of the core of the Tencent IoT Explorer C SDK: its MQTT 3.1.1 client with everything below
  it on Linux, the utilities that the client and the services rest on, and two services on top of it: the data template and the gateway.

  \<^bold>\<open>The program.\<close> An application constructs a client (\<^verbatim>\<open>IOT_MQTT_Construct\<close>), which connects to the
  broker, and then publishes, subscribes and calls \<^verbatim>\<open>IOT_MQTT_Yield\<close> again and again; all input is
  handled inside these calls, and the client calls back into the application. The modelled configuration is
  the shipped one: device secret, no TLS, one thread, suppression of repeated messages. A data template
  (\<^verbatim>\<open>IOT_Template_Construct\<close>) holds such a client, subscribes to the topic of its device, reports properties as JSON
  documents, waits for the replies, and lets control messages of the cloud set the properties that the
  application has registered. A gateway (\<^verbatim>\<open>IOT_Gateway_Construct\<close>) holds a client of its own, takes sub-devices online and offline by
  requests to the cloud, yielding until the answer is there, and keeps a session for each of them.

  \<^bold>\<open>Layers and theories.\<close>
  \<^item> \<^verbatim>\<open>Prelude\<close>: machine words, return codes, buffers with checked accesses, the predicate \<open>wp\<close> for results
    of partial operations, and the interfaces \<open>service\<close> (an invariant kept by every call) and \<open>queue\<close>.
  \<^item> \<^verbatim>\<open>Hal_Linux\<close>: timers (\<^verbatim>\<open>HAL_Timer_linux.c\<close>, \<^verbatim>\<open>utils_timer.c\<close>), sockets (\<^verbatim>\<open>HAL_TCP_linux.c\<close>) and the
    network stack (\<^verbatim>\<open>network_socket.c\<close>, \<^verbatim>\<open>network_interface.c\<close>). The system calls are the fields of a record
    \<open>os\<close> over an arbitrary world; \<open>kernel_ok\<close> states what POSIX promises of \<^verbatim>\<open>send\<close> and \<^verbatim>\<open>recv\<close>. The interface
    \<open>transport\<close> is what the client relies on. \<^verbatim>\<open>Hal_Model\<close> has a kernel that can be executed.
  \<^item> \<^verbatim>\<open>Mqtt_Packet\<close>: every reader and writer of a packet; \<^verbatim>\<open>Mqtt_Codec\<close>: the wire format as an independent
    definition, round trips, safety. \<^verbatim>\<open>Mqtt_Topic\<close>: topic matching against the rules of MQTT.
  \<^item> \<^verbatim>\<open>Mqtt_State\<close>, \<^verbatim>\<open>Mqtt_Client\<close>, \<^verbatim>\<open>Mqtt_Api\<close>, \<^verbatim>\<open>Mqtt_Yield\<close>: the client structure of \<^verbatim>\<open>mqtt_client.h\<close> as a record
    and the functions of \<^verbatim>\<open>mqtt_client_common.c\<close>, \<^verbatim>\<open>_publish.c\<close>, \<^verbatim>\<open>_subscribe.c\<close>, \<^verbatim>\<open>_unsubscribe.c\<close>, \<^verbatim>\<open>_connect.c\<close>,
    \<^verbatim>\<open>_yield.c\<close> and \<^verbatim>\<open>mqtt_client.c\<close>, one definition per function; a loop inside a function is a definition of
    its own.
  \<^item> \<^verbatim>\<open>Mqtt_Inv\<close>, \<^verbatim>\<open>Mqtt_Service\<close>: the invariant of the client; every operation keeps it; the calls of an
    application as a step relation.
  \<^item> \<^verbatim>\<open>Mqtt_Sim\<close>, \<^verbatim>\<open>Mqtt_Delivery\<close>, \<^verbatim>\<open>Mqtt_Requests\<close>, \<^verbatim>\<open>Mqtt_Connection\<close>: what goes over the wire, what happens to
    a packet that arrives, requests and their acknowledgements, connecting, losing and regaining the
    connection, and the main loop.
  \<^item> \<^verbatim>\<open>Utils_Digest\<close>: the buffering that SHA-1 and MD5 share; \<^verbatim>\<open>Utils_Sha1\<close>, \<^verbatim>\<open>Utils_Md5\<close> (with \<^verbatim>\<open>Sine_Table\<close>, the
    constants of RFC 1321 from the sine), \<^verbatim>\<open>Utils_Hmac\<close>, \<^verbatim>\<open>Utils_Base64\<close>: the digests and the signature of the CONNECT
    packet, against FIPS 180-4, RFC 1321 and RFC 2104, which are written out without the code's constants, macros and byte orders;
    of Base64, which carries the device secret, it is shown that decoding undoes encoding. \<^verbatim>\<open>Utils_Aes\<close>: AES with its generated tables and the CBC mode
    (\<^verbatim>\<open>utils_aes.c\<close>, used by the dynamic registration); \<^verbatim>\<open>Aes_Field\<close>, \<^verbatim>\<open>Aes_Tables\<close>, \<^verbatim>\<open>Aes_Cipher\<close>, \<^verbatim>\<open>Aes_Cbc\<close>: its
    agreement with FIPS 197, from the field with 256 elements to the buffers of a caller. \<^verbatim>\<open>Utils_List\<close>: the doubly linked
    list on a heap, which implements the sequences of the client model. \<^verbatim>\<open>Utils_Ringbuff\<close>: the ring buffer.
    \<^verbatim>\<open>Utils_Json\<close>: the JSON reader of the services; \<^verbatim>\<open>Utils_Number\<close>: integers printed and read.
  \<^item> \<^verbatim>\<open>Dt_Json\<close>, \<^verbatim>\<open>Dt_Report\<close>: the documents of the data template service: the writer of device properties
    (\<^verbatim>\<open>data_template_client_json.c\<close>), the report (\<^verbatim>\<open>data_template_client.c\<close>) and its method field
    (\<^verbatim>\<open>data_template_client_manager.c\<close>), on a buffer whose parts the recursion writes to. \<^verbatim>\<open>Dt_Control\<close>: the fields of
    messages that come in, and the update of properties from them.
  \<^item> \<^verbatim>\<open>Dt_State\<close>: the data template client \<^verbatim>\<open>Qcloud_IoT_Template\<close> as a record that holds the MQTT client;
    \<^verbatim>\<open>Dt_Action\<close>: actions that the cloud calls (\<^verbatim>\<open>data_template_action.c\<close>); \<^verbatim>\<open>Dt_Client\<close>: the functions of
    \<^verbatim>\<open>data_template_client.c\<close>, \<^verbatim>\<open>_manager.c\<close> and \<^verbatim>\<open>_common.c\<close>. \<^verbatim>\<open>Dt_Service\<close>: its invariant and its
    step relation, an instance of \<open>service\<close> too. \<^verbatim>\<open>Dt_Requests\<close>: requests, their
    replies and their timeouts. \<^verbatim>\<open>Dt_Properties\<close>: control messages, defects, and the properties of the service.
    \<^verbatim>\<open>Dt_Calls\<close>: what a call of an action does, and the documents of the replies.
  \<^item> \<^verbatim>\<open>Gw_Client\<close>: the gateway as a record that holds the MQTT client, and the functions of \<^verbatim>\<open>gateway_api.c\<close> (up to the local
    automation) and \<^verbatim>\<open>gateway_common.c\<close>; a session is a node with its address, so that a write through a pointer to a released one
    shows. What the requests share between their texts and their answer is one definition, \<open>gateway_request\<close>. \<^verbatim>\<open>Gw_Service\<close>: what messages keep, the
    sessions as a map and what going online and offline may do to it, the invariant and the step relation, an instance of \<open>service\<close>.
    \<^verbatim>\<open>Gw_Messages\<close>: messages of the cloud from the text to the lists and the reply. \<^verbatim>\<open>Gw_Requests\<close>: requests with their answers
    from the wire or without any, and defects. \<^verbatim>\<open>Gw_Properties\<close>: the properties.

  \<^bold>\<open>Conventions.\<close> A C function becomes a function on the state that returns the result and the state afterwards.
  \<open>None\<close> stands for no defined result: a read or write outside a buffer, a call through a null pointer,
  a loop that does not end. The array behind a string of a data template has \<^verbatim>\<open>data_buff_len\<close> bytes, as \<^verbatim>\<open>tools/codegen.py\<close> and the samples
  declare it. Error codes are integers as in the header, \<open>Inl\<close> carries one where a
  result is missing. Integers have the width of the code where it matters. Callbacks into the application are
  recorded in the field \<open>trace\<close>; the model does not let them call the client again. The callbacks of the data template and of the gateway run
  when the yield of its client has returned, in the order in which the code makes them inside it. Locks have no effect
  in one thread. Loops that end by their data are recursive functions with a termination proof; loops that wait for
  the clock or the network are \<^verbatim>\<open>partial_function\<close>, and that they return is proved where it is claimed:
  \<open>tcp_read_contract\<close>, \<open>idle_yield_returns\<close> and the theorems on the kernel of \<^verbatim>\<open>Hal_Model\<close>. That kernel
  (\<open>sim_os\<close>) takes and gives every byte at once, never runs out of memory, and its clock moves by a millisecond with every look at it; a
  theorem that names it says what happens on it, one with a variable \<open>os\<close> holds on every kernel that meets its hypotheses. No fuel is used; the counter of
  \<open>yield_while\<close> is the one of the code, which gives up after 101 turns.

  \<^bold>\<open>What is shown.\<close> The client stays well-formed under any sequence of calls and any input from the network. A
  published message reaches the wire as MQTT 3.1.1 prescribes, and if its bytes reach another client, that
  client delivers exactly this message, once, to the first matching subscription. Every published packet
  that waits leaves the list, by its acknowledgement or by its timeout. Identifiers never collide within
  65535 requests, and retransmissions are recognised within a window of ten. Connecting, disconnecting and the
  back-off do what their results say, and no request is answered with the code of a reconnection. The codec, the matcher, the hashes, AES,
  the list, the ring buffer and the JSON reader agree with independent specifications; Base64 decodes what it encodes. A report of device properties is written inside its buffer, whole
  or with an error, and the JSON reader finds in it what was written; sent, it waits with its token until a reply or
  its timeout ends it with one call of the application. A control message sets exactly the registered properties that it
  names, and one that brings a string as long as its array, or longer, writes behind the array. A call of an action runs the actions of its name with the inputs that it carries, and the
  reader finds in the reply what the device put there. The data template stays well-formed under any interleaving of calls and messages.
  Taking a sub-device online ends as the answer on the wire says, or with a timeout when there is none; the sessions, as a map, change
  as the results say; a message that binds or unbinds devices is carried out, answered and reported; and the gateway stays well-formed.
  Theorems whose names speak of defects (\<open>off_by_one\<close>, \<open>too_wide\<close>, \<open>partial_write\<close>, \<open>defects\<close>, \<open>cannot_be_unregistered\<close>, \<open>never_arrives\<close>, \<open>reads_past\<close>, \<open>overflows\<close>,
  and the lemmas of the sections on defects in \<^verbatim>\<open>Dt_Properties\<close> and \<^verbatim>\<open>Gw_Requests\<close>) prove inputs on which the code does not do what it means to.

  \<^bold>\<open>Not modelled.\<close> TLS, DTLS, CoAP and the AT modem are outside the configuration; the other platforms are ports of
  the same interface; vendored libraries and samples are not part of the SDK's logic. The events of the
  data template and the yield threads are not in the configuration. The local automation, scenes and groups of the gateway, OTA and the other services, the HTTP client,
  the dynamic registration and the set-up of WiFi are left out: they are clients of the parts modelled here, of files, or of sockets and radio.
\<close>

section \<open>Properties that span the components\<close>

text \<open>
  C1: Whatever calls the application makes, in whatever order and with whatever arguments, and whatever
  the peer sends: on a kernel that keeps its promises the client stays well-formed. Its buffers keep
  their sizes, at most 20 publishes and 10 subscriptions wait for an acknowledgement, every filter in
  the table is a non-empty string within the limit, the ring of packet identifiers is
  indexed within its bounds, and the command timeout stays between half a second and twenty seconds.
\<close>

theorem client_stays_well_formed:
  assumes "kernel_ok os"
    and "(\<exists>params pid name w. qcloud_iot_mqtt_init os params pid name w = Inr c) \<or> (\<exists>params w. IOT_MQTT_Construct os params w = Some (Inr c))"
    and "(client_step os)\<^sup>*\<^sup>* c c'"
  shows "client_inv os c'"
  using mqtt.reachable_inv [OF assms(1) _ assms(3)] assms(2) by (simp add: client_started_def)

definition demo_params :: MQTTInitParams where
  "demo_params = \<lparr>ip_region = None, ip_product_id = Some (cstr ''PID''), ip_device_name = Some (cstr ''dev''),
     ip_device_secret = None, ip_command_timeout = 100, ip_keep_alive_interval_ms = 0, ip_clean_session = 1,
     ip_auto_connect_enable = 0, ip_event_handle = \<lparr>h_fp = None, h_context = 0\<rparr>\<rparr>"

theorem client_stays_well_formed_witness:
  "\<exists>c c' rc. qcloud_iot_mqtt_init sim_os demo_params (cstr ''PID'') (cstr ''dev'') (sim_world [] 0) = Inr c \<and>
     qcloud_iot_mqtt_disconnect sim_os (qcloud_iot_mqtt_set_autoreconnect True c) = Some (rc, c') \<and> client_inv sim_os c'"
proof -
  obtain c where c: "qcloud_iot_mqtt_init sim_os demo_params (cstr ''PID'') (cstr ''dev'') (sim_world [] 0) = Inr c" "\<not> is_connected c"
    by (auto simp: qcloud_iot_mqtt_init_def iot_device_info_set_def iot_get_mqtt_domain_def get_random_start_packet_id_def
        HAL_GetTimeMs_def demo_params_def cstr_def qcloud_iot_mqtt_network_init_def qcloud_iot_network_init_def Let_def)
  let ?c1 = "qcloud_iot_mqtt_set_autoreconnect True c"
  have d: "qcloud_iot_mqtt_disconnect sim_os ?c1 = Some (QCLOUD_ERR_MQTT_NO_CONN, ?c1)"
    using c(2) by (simp add: qcloud_iot_mqtt_disconnect_def get_client_conn_state_def qcloud_iot_mqtt_set_autoreconnect_def)
  have "(client_step sim_os)\<^sup>*\<^sup>* c ?c1"
    using step_auto step_disconnect [OF d] by (meson rtranclp.simps)
  from client_stays_well_formed [OF _ _ this] c(1) d show ?thesis by auto
qed

end
